(* ===== verification/Prelude.thy ===== *)
theory Prelude
  imports Main "HOL-Library.Multiset" "HOL-Library.List_Lexorder" "HOL-Library.Char_ord"
    "HOL-Library.Sublist" "HOL-Library.Word"
begin

text \<open>
  What every component shares: results with an error branch (Rust's \<open>Result\<close>), traversal of
  lists with early return, comparison results (\<open>std::cmp::Ordering\<close>) with the contract of a
  comparison function, and generic facts on lists and options.
\<close>

named_theorems res_simps "equations of the result type"

type_synonym str = string

section \<open>Results\<close>

text \<open>\<open>Result<T, E>\<close> is a sum with the error on the left; \<open>and_then\<close> is the \<open>?\<close> operator.\<close>

type_synonym ('e, 'a) result = "'e + 'a"

definition and_then :: "('e, 'a) result \<Rightarrow> ('a \<Rightarrow> ('e, 'b) result) \<Rightarrow> ('e, 'b) result" where
  "and_then m f = (case m of Inl e \<Rightarrow> Inl e | Inr x \<Rightarrow> f x)"

definition map_err :: "('e \<Rightarrow> 'f) \<Rightarrow> ('e, 'a) result \<Rightarrow> ('f, 'a) result" where
  "map_err h m = (case m of Inl e \<Rightarrow> Inl (h e) | Inr x \<Rightarrow> Inr x)"

definition ok_or :: "'e \<Rightarrow> 'a option \<Rightarrow> ('e, 'a) result" where
  "ok_or e m = (case m of None \<Rightarrow> Inl e | Some x \<Rightarrow> Inr x)"

definition is_ok :: "('e, 'a) result \<Rightarrow> bool" where
  "is_ok m = (case m of Inl _ \<Rightarrow> False | Inr _ \<Rightarrow> True)"

definition ensure :: "bool \<Rightarrow> 'e \<Rightarrow> ('e, unit) result" where
  "ensure b e = (if b then Inr () else Inl e)"

text \<open>\<open>iter.map(f).collect::<Result<Vec<_>, _>>()\<close>: the first error stops the traversal.\<close>

fun traverse :: "('a \<Rightarrow> ('e, 'b) result) \<Rightarrow> 'a list \<Rightarrow> ('e, 'b list) result" where
  "traverse f [] = Inr []"
| "traverse f (x # xs) =
     (case f x of Inl e \<Rightarrow> Inl e
      | Inr y \<Rightarrow> (case traverse f xs of Inl e \<Rightarrow> Inl e | Inr ys \<Rightarrow> Inr (y # ys)))"

text \<open>\<open>opt.map(f).transpose()\<close>.\<close>

fun traverse_opt :: "('a \<Rightarrow> ('e, 'b) result) \<Rightarrow> 'a option \<Rightarrow> ('e, 'b option) result" where
  "traverse_opt f None = Inr None"
| "traverse_opt f (Some x) = (case f x of Inl e \<Rightarrow> Inl e | Inr y \<Rightarrow> Inr (Some y))"

text \<open>\<open>Option::is_some_and\<close>.\<close>

fun is_some_and :: "('a \<Rightarrow> bool) \<Rightarrow> 'a option \<Rightarrow> bool" where
  "is_some_and P None = False"
| "is_some_and P (Some x) = P x"

text \<open>A \<open>for\<close> loop whose body may return an error and otherwise only checks.\<close>

fun check_all :: "('a \<Rightarrow> ('e, unit) result) \<Rightarrow> 'a list \<Rightarrow> ('e, unit) result" where
  "check_all f [] = Inr ()"
| "check_all f (x # xs) = (case f x of Inl e \<Rightarrow> Inl e | Inr _ \<Rightarrow> check_all f xs)"

lemma and_then_simps [simp, res_simps]:
  "and_then (Inl e) f = Inl e" "and_then (Inr x) f = f x"
  by (simp_all add: and_then_def)

lemma and_then_Inr_iff [res_simps]: "and_then m f = Inr y \<longleftrightarrow> (\<exists>x. m = Inr x \<and> f x = Inr y)"
  by (cases m) auto

lemma map_err_simps [simp, res_simps]: "map_err h (Inl e) = Inl (h e)" "map_err h (Inr x) = Inr x"
  by (simp_all add: map_err_def)

lemma map_err_Inr_iff [simp]: "map_err h m = Inr x \<longleftrightarrow> m = Inr x"
  by (cases m) auto

lemma ok_or_simps [simp, res_simps]: "ok_or e None = Inl e" "ok_or e (Some x) = Inr x"
  by (simp_all add: ok_or_def)

lemma ok_or_Inr_iff [simp]: "ok_or e m = Inr x \<longleftrightarrow> m = Some x"
  by (cases m) auto

lemma is_ok_simps [simp, res_simps]: "is_ok (Inr x)" "\<not> is_ok (Inl e)"
  by (simp_all add: is_ok_def)

lemma is_ok_iff: "is_ok m \<longleftrightarrow> (\<exists>x. m = Inr x)"
  by (cases m) auto

lemma ensure_Inr_iff [simp]: "ensure b e = Inr u \<longleftrightarrow> b"
  by (simp add: ensure_def)

lemma ensure_simps [simp, res_simps]: "ensure True e = Inr ()" "ensure False e = Inl e"
  by (simp_all add: ensure_def)

lemma traverse_Inr_iff: "traverse f xs = Inr ys \<longleftrightarrow> list_all2 (\<lambda>x y. f x = Inr y) xs ys"
  by (induction f xs arbitrary: ys rule: traverse.induct)
     (auto simp: list_all2_Cons1 split: sum.splits)

lemma traverse_length: "traverse f xs = Inr ys \<Longrightarrow> length ys = length xs"
  by (auto simp: traverse_Inr_iff dest: list_all2_lengthD)

lemma traverse_in_set:
  assumes "traverse f xs = Inr ys" and "y \<in> set ys"
  shows "\<exists>x \<in> set xs. f x = Inr y"
  using assms by (fastforce simp: traverse_Inr_iff list_all2_conv_all_nth in_set_conv_nth)

lemma traverse_set_in:
  assumes "traverse f xs = Inr ys" and "x \<in> set xs"
  shows "\<exists>y \<in> set ys. f x = Inr y"
  using assms by (fastforce simp: traverse_Inr_iff list_all2_conv_all_nth in_set_conv_nth)

lemma traverse_pure: "(\<And>x. x \<in> set xs \<Longrightarrow> f x = Inr (g x)) \<Longrightarrow> traverse f xs = Inr (map g xs)"
  by (induction xs) auto

lemma traverse_opt_Inr_iff:
  "traverse_opt f m = Inr r \<longleftrightarrow>
     (case m of None \<Rightarrow> r = None | Some x \<Rightarrow> (\<exists>y. f x = Inr y \<and> r = Some y))"
  by (cases m) (auto split: sum.splits)

lemma check_all_Inr_iff: "check_all f xs = Inr u \<longleftrightarrow> (\<forall>x \<in> set xs. is_ok (f x))"
  by (induction xs) (auto simp: is_ok_iff split: sum.splits)

lemma is_some_and_iff: "is_some_and P m \<longleftrightarrow> (\<exists>x. m = Some x \<and> P x)"
  by (cases m) auto

lemma check_all_append [simp]:
  "check_all f (xs @ ys) = and_then (check_all f xs) (\<lambda>_. check_all f ys)"
  by (induction xs) (auto split: sum.splits)

text \<open>A sequence of statements \<open>check?;\<close>: the first error returns.\<close>

definition checks :: "('e, unit) result list \<Rightarrow> ('e, unit) result" where
  "checks cs = check_all (\<lambda>c. c) cs"

lemma checks_Inr_iff: "checks cs = Inr u \<longleftrightarrow> list_all is_ok cs"
  by (simp add: checks_def check_all_Inr_iff list_all_iff)

lemma is_ok_checks [simp]: "is_ok (checks cs) \<longleftrightarrow> list_all is_ok cs"
  unfolding is_ok_iff [of "checks cs"] checks_Inr_iff by blast

lemma is_ok_ensure [simp]: "is_ok (ensure b e) \<longleftrightarrow> b"
  by (simp add: ensure_def)

lemma is_ok_check_all [simp]: "is_ok (check_all f xs) \<longleftrightarrow> (\<forall>x \<in> set xs. is_ok (f x))"
  unfolding is_ok_iff [of "check_all f xs"] check_all_Inr_iff by blast

lemma is_ok_and_then [simp]: "is_ok (and_then m f) \<longleftrightarrow> (\<exists>x. m = Inr x \<and> is_ok (f x))"
  by (cases m) simp_all

lemma unit_ok: "m = Inr () \<longleftrightarrow> is_ok m" for m :: "('e, unit) result"
  by (cases m) simp_all

section \<open>Steps\<close>

text \<open>Fallible operations on a state: the state is kept also when an error is returned.\<close>

type_synonym ('s, 'e, 'a) step = "'s \<Rightarrow> ('e, 'a) result \<times> 's"

definition step_of :: "('e, 'a) result \<Rightarrow> ('s, 'e, 'a) step" where
  "step_of r s = (r, s)"

definition step_bind :: "('s, 'e, 'a) step \<Rightarrow> ('a \<Rightarrow> ('s, 'e, 'b) step) \<Rightarrow> ('s, 'e, 'b) step" where
  "step_bind m f s = (case m s of (Inl e, s') \<Rightarrow> (Inl e, s') | (Inr x, s') \<Rightarrow> f x s')"

fun step_traverse :: "('a \<Rightarrow> ('s, 'e, 'b) step) \<Rightarrow> 'a list \<Rightarrow> ('s, 'e, 'b list) step" where
  "step_traverse f [] = step_of (Inr [])"
| "step_traverse f (x # xs) =
     step_bind (f x) (\<lambda>y. step_bind (step_traverse f xs) (\<lambda>ys. step_of (Inr (y # ys))))"

text \<open>A relation that holds between the states before and after a step.\<close>

definition step_keeps :: "('s \<Rightarrow> 's \<Rightarrow> bool) \<Rightarrow> ('s, 'e, 'a) step \<Rightarrow> bool" where
  "step_keeps R m \<longleftrightarrow> (\<forall>s. R s (snd (m s)))"

lemma step_keepsD: "step_keeps R m \<Longrightarrow> R s (snd (m s))"
  by (simp add: step_keeps_def)

lemma step_keeps_of: "reflp R \<Longrightarrow> step_keeps R (step_of r)"
  by (simp add: step_keeps_def step_of_def reflp_def)

lemma step_keeps_bind:
  assumes "transp R" "step_keeps R m" "\<And>x. step_keeps R (f x)"
  shows "step_keeps R (step_bind m f)"
  unfolding step_keeps_def
proof
  fix s
  obtain r s1 where m: "m s = (r, s1)" by fastforce
  then have "R s s1" using step_keepsD [OF assms(2), of s] by simp
  then show "R s (snd (step_bind m f s))"
    using m transpD [OF assms(1)] step_keepsD [OF assms(3), of s1]
    by (cases r) (auto simp: step_bind_def)
qed

lemma step_keeps_traverse:
  assumes "reflp R" "transp R" "\<And>x. step_keeps R (f x)"
  shows "step_keeps R (step_traverse f xs)"
  by (induction xs) (simp_all add: assms step_keeps_of step_keeps_bind)

lemma step_bind_Inr:
  "step_bind m f s = (Inr y, s') \<longleftrightarrow> (\<exists>x s1. m s = (Inr x, s1) \<and> f x s1 = (Inr y, s'))"
  by (auto simp: step_bind_def split: prod.splits sum.splits)

lemma step_bind_simps:
  "m s = (Inl e, s1) \<Longrightarrow> step_bind m f s = (Inl e, s1)"
  "m s = (Inr x, s1) \<Longrightarrow> step_bind m f s = f x s1"
  by (simp_all add: step_bind_def)

lemma step_bind_of: "step_bind (step_of r) f s = (case r of Inl e \<Rightarrow> (Inl e, s) | Inr x \<Rightarrow> f x s)"
  by (simp add: step_bind_def step_of_def)

lemma step_of_eq [simp]: "step_of r s = (r', s') \<longleftrightarrow> r' = r \<and> s' = s"
  by (auto simp: step_of_def)

section \<open>Comparisons\<close>

datatype cmp_result = Less | Equal | Greater

fun flip_cmp :: "cmp_result \<Rightarrow> cmp_result" where
  "flip_cmp Less = Greater"
| "flip_cmp Equal = Equal"
| "flip_cmp Greater = Less"

text \<open>\<open>Ord::cmp\<close> of a linearly ordered type, and \<open>Ordering::then\<close>.\<close>

definition ord_cmp :: "'a::linorder \<Rightarrow> 'a \<Rightarrow> cmp_result" where
  "ord_cmp x y = (if x < y then Less else if x = y then Equal else Greater)"

definition then_cmp :: "cmp_result \<Rightarrow> cmp_result \<Rightarrow> cmp_result" where
  "then_cmp a b = (if a = Equal then b else a)"

text \<open>
  \<open>Iterator::max_by\<close>: the greatest element, the last one among equals
  (\<open>None\<close> for the empty iterator).
\<close>

definition max_step :: "('a \<Rightarrow> 'a \<Rightarrow> cmp_result) \<Rightarrow> 'a \<Rightarrow> 'a \<Rightarrow> 'a" where
  "max_step cmp best x = (if cmp best x = Greater then best else x)"

definition max_by :: "('a \<Rightarrow> 'a \<Rightarrow> cmp_result) \<Rightarrow> 'a list \<Rightarrow> 'a option" where
  "max_by cmp xs = (case xs of [] \<Rightarrow> None | y # ys \<Rightarrow> Some (foldl (max_step cmp) y ys))"

text \<open>\<open>slice::sort_by\<close>: the stable sort by a comparison.\<close>

fun insert_by :: "('a \<Rightarrow> 'a \<Rightarrow> cmp_result) \<Rightarrow> 'a \<Rightarrow> 'a list \<Rightarrow> 'a list" where
  "insert_by cmp x [] = [x]"
| "insert_by cmp x (y # ys) = (if cmp x y = Greater then y # insert_by cmp x ys else x # y # ys)"

definition sort_by :: "('a \<Rightarrow> 'a \<Rightarrow> cmp_result) \<Rightarrow> 'a list \<Rightarrow> 'a list" where
  "sort_by cmp xs = foldr (insert_by cmp) xs []"

lemma mset_insert_by [simp]: "mset (insert_by cmp x xs) = add_mset x (mset xs)"
  by (induction xs) auto

lemma mset_sort_by [simp]: "mset (sort_by cmp xs) = mset xs"
  unfolding sort_by_def by (induction xs) auto

lemma set_sort_by [simp]: "set (sort_by cmp xs) = set xs"
  by (metis mset_sort_by set_mset_mset)

lemma length_sort_by [simp]: "length (sort_by cmp xs) = length xs"
  by (metis mset_sort_by size_mset)

lemma flip_cmp_flip [simp]: "flip_cmp (flip_cmp c) = c"
  by (cases c) auto

lemma flip_cmp_eq_iff [simp]:
  "flip_cmp c = Equal \<longleftrightarrow> c = Equal" "flip_cmp c = Less \<longleftrightarrow> c = Greater"
  "flip_cmp c = Greater \<longleftrightarrow> c = Less"
  by (cases c; simp)+

lemma flip_then_cmp: "flip_cmp (then_cmp a b) = then_cmp (flip_cmp a) (flip_cmp b)"
  by (simp add: then_cmp_def)

lemma ord_cmp_simps [simp]:
  "ord_cmp x x = Equal" "ord_cmp x y = Equal \<longleftrightarrow> x = y" "ord_cmp x y = Less \<longleftrightarrow> x < y"
  "ord_cmp x y = Greater \<longleftrightarrow> y < x"
  by (auto simp: ord_cmp_def)

lemma ord_cmp_flip: "ord_cmp y x = flip_cmp (ord_cmp x y)"
  by (auto simp: ord_cmp_def)

text \<open>
  The contract of a comparison function: reflexive, antisymmetric in the sense that
  swapping the arguments swaps the result, and transitive. Selecting a newest element is a
  client of it.
\<close>

locale comparison =
  fixes cmp :: "'a \<Rightarrow> 'a \<Rightarrow> cmp_result"
  assumes cmp_refl: "cmp x x = Equal"
    and cmp_flip: "cmp y x = flip_cmp (cmp x y)"
    and cmp_trans: "cmp x y \<noteq> Greater \<Longrightarrow> cmp y z \<noteq> Greater \<Longrightarrow> cmp x z \<noteq> Greater"
begin

lemma cmp_not_less: "cmp x z \<noteq> Less \<longleftrightarrow> cmp z x \<noteq> Greater"
  using cmp_flip [of x z] by simp

lemma cmp_less_trans: "cmp x y = Less \<Longrightarrow> cmp y z \<noteq> Greater \<Longrightarrow> cmp x z = Less"
  using cmp_trans [of y z x] cmp_not_less [of x z] cmp_not_less [of x y] by blast

lemma cmp_trans_less: "cmp x y \<noteq> Greater \<Longrightarrow> cmp y z = Less \<Longrightarrow> cmp x z = Less"
  using cmp_trans [of z x y] cmp_not_less [of x z] cmp_not_less [of y z] by blast

lemma cmp_greater_trans: "cmp x y = Greater \<Longrightarrow> cmp y z = Greater \<Longrightarrow> cmp x z = Greater"
  using cmp_less_trans [of z y x] cmp_flip [of x y] cmp_flip [of y z] cmp_flip [of x z]
  by auto

lemma cmp_greater_le: "cmp x y = Greater \<longleftrightarrow> cmp y x = Less"
  using cmp_flip [of x y] by simp

lemma max_step_ge: "cmp b (max_step cmp b x) \<noteq> Greater \<and> cmp x (max_step cmp b x) \<noteq> Greater"
  using cmp_flip [of b x] by (auto simp: max_step_def cmp_refl)

lemma foldl_max_step:
  "foldl (max_step cmp) b xs \<in> insert b (set xs) \<and>
   (\<forall>y \<in> insert b (set xs). cmp y (foldl (max_step cmp) b xs) \<noteq> Greater)"
proof (induction xs arbitrary: b)
  case Nil
  then show ?case by (simp add: cmp_refl)
next
  case (Cons x xs)
  let ?b = "max_step cmp b x"
  have "?b = b \<or> ?b = x" by (simp add: max_step_def)
  moreover have "cmp y (foldl (max_step cmp) ?b xs) \<noteq> Greater" if "y = b \<or> y = x" for y
  proof (rule cmp_trans)
    show "cmp y ?b \<noteq> Greater" using that max_step_ge [of b x] by blast
    show "cmp ?b (foldl (max_step cmp) ?b xs) \<noteq> Greater" using Cons.IH [of ?b] by blast
  qed
  ultimately show ?case using Cons.IH [of ?b] by auto
qed

lemma max_by_Some:
  assumes "max_by cmp xs = Some m"
  shows "m \<in> set xs" and "y \<in> set xs \<Longrightarrow> cmp y m \<noteq> Greater"
proof -
  from assms obtain z zs where xs: "xs = z # zs" and m: "m = foldl (max_step cmp) z zs"
    by (auto simp: max_by_def split: list.splits)
  show "m \<in> set xs" using foldl_max_step [of z zs] by (simp add: xs m)
  show "cmp y m \<noteq> Greater" if "y \<in> set xs"
    using foldl_max_step [of z zs] that unfolding xs m list.set by blast
qed

lemma sorted_insert_by:
  "sorted_wrt (\<lambda>x y. cmp x y \<noteq> Greater) xs \<Longrightarrow> sorted_wrt (\<lambda>x y. cmp x y \<noteq> Greater) (insert_by cmp x xs)"
proof (induction xs)
  case (Cons y ys)
  have set: "set (insert_by cmp x ys) = insert x (set ys)"
    by (metis mset_insert_by set_mset_add_mset_insert set_mset_mset)
  show ?case
  proof (cases "cmp x y = Greater")
    case True
    then have "cmp y x \<noteq> Greater" by (simp add: cmp_greater_le)
    with True Cons set show ?thesis by auto
  next
    case False
    with Cons.prems have "cmp x z \<noteq> Greater" if "z \<in> set ys" for z
      using that cmp_trans [of x y z] by auto
    with False Cons.prems show ?thesis by auto
  qed
qed simp

lemma sorted_sort_by: "sorted_wrt (\<lambda>x y. cmp x y \<noteq> Greater) (sort_by cmp xs)"
  unfolding sort_by_def by (induction xs) (simp_all add: sorted_insert_by)

lemma max_by_None_iff: "max_by cmp xs = None \<longleftrightarrow> xs = []"
  by (auto simp: max_by_def split: list.splits)

end

interpretation linorder_cmp: comparison "ord_cmp :: 'a::linorder \<Rightarrow> 'a \<Rightarrow> cmp_result"
  by unfold_locales (auto simp: ord_cmp_def split: if_splits)

text \<open>Comparisons of a key, and one comparison refined by another, keep the contract.\<close>

lemma comparison_key: "comparison c \<Longrightarrow> comparison (\<lambda>x y. c (f x) (f y))"
  unfolding comparison_def by blast

lemma comparison_then:
  assumes "comparison c" "comparison d"
  shows "comparison (\<lambda>x y. then_cmp (c x y) (d x y))"
proof
  fix x y z
  show "then_cmp (c x x) (d x x) = Equal"
    by (simp add: then_cmp_def comparison.cmp_refl [OF assms(1)] comparison.cmp_refl [OF assms(2)])
  show "then_cmp (c y x) (d y x) = flip_cmp (then_cmp (c x y) (d x y))"
    by (simp add: flip_then_cmp comparison.cmp_flip [OF assms(1), of x y]
        comparison.cmp_flip [OF assms(2), of x y])
  assume le: "then_cmp (c x y) (d x y) \<noteq> Greater" "then_cmp (c y z) (d y z) \<noteq> Greater"
  then have c: "c x y \<noteq> Greater" "c y z \<noteq> Greater"
    by (auto simp: then_cmp_def split: if_splits)
  show "then_cmp (c x z) (d x z) \<noteq> Greater"
  proof (cases "c x y = Equal \<and> c y z = Equal")
    case True
    then have "d x y \<noteq> Greater" "d y z \<noteq> Greater" using le by (auto simp: then_cmp_def)
    then have "d x z \<noteq> Greater" by (rule comparison.cmp_trans [OF assms(2)])
    then show ?thesis using comparison.cmp_trans [OF assms(1) c] by (simp add: then_cmp_def)
  next
    case False
    then have "c x y = Less \<or> c y z = Less" using c by (metis cmp_result.exhaust)
    then have "c x z = Less"
      using comparison.cmp_less_trans [OF assms(1)] comparison.cmp_trans_less [OF assms(1)] c
      by blast
    then show ?thesis by (simp add: then_cmp_def)
  qed
qed

section \<open>Sorting and deduplication\<close>

text \<open>\<open>Vec::sort\<close> followed by \<open>Vec::dedup\<close>, which removes equal neighbours.\<close>

definition sort_dedup :: "'a::linorder list \<Rightarrow> 'a list" where
  "sort_dedup xs = remdups_adj (sort xs)"

lemma set_sort_dedup [simp]: "set (sort_dedup xs) = set xs"
  by (simp add: sort_dedup_def)

lemma distinct_remdups_adj_sorted: "sorted xs \<Longrightarrow> distinct (remdups_adj xs)"
  by (induction xs rule: remdups_adj.induct) auto

lemma distinct_sort_dedup: "distinct (sort_dedup xs)" "sorted (sort_dedup xs)"
  by (simp_all add: sort_dedup_def distinct_remdups_adj_sorted sorted_remdups_adj)

lemma sorted_sort_dedup: "sorted_wrt (<) (sort_dedup xs)"
  by (simp add: strict_sorted_iff distinct_sort_dedup)

text \<open>The order and the repetitions of the input do not show in the result.\<close>

lemma sort_dedup_cong: "set xs = set ys \<Longrightarrow> sort_dedup xs = sort_dedup ys"
  by (rule sorted_distinct_set_unique) (simp_all add: distinct_sort_dedup)

lemma sort_dedup_idem [simp]: "sort_dedup (sort_dedup xs) = sort_dedup xs"
  by (rule sort_dedup_cong) simp

section \<open>Lists and options\<close>

lemma find_Some_in: "List.find P xs = Some x \<Longrightarrow> x \<in> set xs \<and> P x"
  by (induction xs) (auto split: if_splits)

lemma find_None_all: "List.find P xs = None \<longleftrightarrow> (\<forall>x \<in> set xs. \<not> P x)"
  by (induction xs) auto

lemma map_update_same: "f x = f (xs ! i) \<Longrightarrow> map f (xs[i := x]) = map f xs"
  by (induction xs arbitrary: i) (auto split: nat.split)

lemma find_append:
  "List.find P (xs @ ys) = (case List.find P xs of Some x \<Rightarrow> Some x | None \<Rightarrow> List.find P ys)"
  by (induction xs) auto

text \<open>\<open>Vec::extend\<close> with the items that are not present yet, one by one.\<close>

fun push_missing :: "'a list \<Rightarrow> 'a list \<Rightarrow> 'a list" where
  "push_missing xs [] = xs"
| "push_missing xs (y # ys) = push_missing (if y \<in> set xs then xs else xs @ [y]) ys"

lemma set_push_missing [simp]: "set (push_missing xs ys) = set xs \<union> set ys"
  by (induction xs ys rule: push_missing.induct) auto

lemma push_missing_absorb: "set ys \<subseteq> set xs \<Longrightarrow> push_missing xs ys = xs"
  by (induction xs ys rule: push_missing.induct) auto

lemma distinct_push_missing: "distinct xs \<Longrightarrow> distinct (push_missing xs ys)"
  by (induction xs ys rule: push_missing.induct) auto

lemma push_missing_prefix: "\<exists>zs. push_missing xs ys = xs @ zs"
proof (induction xs ys rule: push_missing.induct)
  case (2 xs y ys)
  then show ?case by (auto split: if_splits)
qed simp

end
