(* ===== verification/Rust_Str.thy ===== *)
theory Rust_Str
  imports Prelude
begin

text \<open>
  The operations of Rust's \<open>str\<close> and \<open>char\<close> that the program uses. A string is the list of
  its bytes. Every separator and pattern of the program is ASCII, so splitting, searching and
  replacing agree on bytes and on code points; the Unicode-aware predicates
  (\<open>char::is_whitespace\<close>, \<open>is_alphabetic\<close>, \<open>is_control\<close>) are modelled on their ASCII part.
\<close>

named_theorems str_simps "equations of string operations"

section \<open>Characters\<close>

definition byte :: "char \<Rightarrow> nat" where
  "byte c = of_char c"

definition is_digit :: "char \<Rightarrow> bool" where
  "is_digit c \<longleftrightarrow> 48 \<le> byte c \<and> byte c \<le> 57"

definition is_upper :: "char \<Rightarrow> bool" where
  "is_upper c \<longleftrightarrow> 65 \<le> byte c \<and> byte c \<le> 90"

definition is_lower :: "char \<Rightarrow> bool" where
  "is_lower c \<longleftrightarrow> 97 \<le> byte c \<and> byte c \<le> 122"

definition is_alpha :: "char \<Rightarrow> bool" where
  "is_alpha c \<longleftrightarrow> is_upper c \<or> is_lower c"

definition is_alnum :: "char \<Rightarrow> bool" where
  "is_alnum c \<longleftrightarrow> is_alpha c \<or> is_digit c"

definition is_hex :: "char \<Rightarrow> bool" where
  "is_hex c \<longleftrightarrow> is_digit c \<or> (65 \<le> byte c \<and> byte c \<le> 70) \<or> (97 \<le> byte c \<and> byte c \<le> 102)"

definition is_space :: "char \<Rightarrow> bool" where
  "is_space c \<longleftrightarrow> (9 \<le> byte c \<and> byte c \<le> 13) \<or> byte c = 32"

definition is_control :: "char \<Rightarrow> bool" where
  "is_control c \<longleftrightarrow> byte c < 32 \<or> byte c = 127"

definition to_lower :: "char \<Rightarrow> char" where
  "to_lower c = (if is_upper c then char_of (byte c + 32) else c)"

definition to_upper :: "char \<Rightarrow> char" where
  "to_upper c = (if is_lower c then char_of (byte c - 32) else c)"

definition lowercase :: "str \<Rightarrow> str" where
  "lowercase s = map to_lower s"

definition uppercase :: "str \<Rightarrow> str" where
  "uppercase s = map to_upper s"

definition eq_ignore_case :: "str \<Rightarrow> str \<Rightarrow> bool" where
  "eq_ignore_case s t \<longleftrightarrow> lowercase s = lowercase t"

lemmas char_class_defs = byte_def is_digit_def is_upper_def is_lower_def is_alpha_def
  is_alnum_def is_hex_def is_space_def is_control_def

section \<open>Prefixes and suffixes\<close>

fun strip_prefix :: "str \<Rightarrow> str \<Rightarrow> str option" where
  "strip_prefix [] s = Some s"
| "strip_prefix (p # ps) [] = None"
| "strip_prefix (p # ps) (c # s) = (if p = c then strip_prefix ps s else None)"

definition strip_suffix :: "str \<Rightarrow> str \<Rightarrow> str option" where
  "strip_suffix p s = map_option rev (strip_prefix (rev p) (rev s))"

definition starts_with :: "str \<Rightarrow> str \<Rightarrow> bool" where
  "starts_with p s \<longleftrightarrow> strip_prefix p s \<noteq> None"

definition ends_with :: "str \<Rightarrow> str \<Rightarrow> bool" where
  "ends_with p s \<longleftrightarrow> strip_suffix p s \<noteq> None"

lemma strip_prefix_Some_iff: "strip_prefix p s = Some r \<longleftrightarrow> s = p @ r"
  by (induction p s rule: strip_prefix.induct) auto

lemma strip_prefix_append [simp]: "strip_prefix p (p @ r) = Some r"
  by (simp add: strip_prefix_Some_iff)

lemma strip_prefix_self [simp]: "strip_prefix p p = Some []"
  by (simp add: strip_prefix_Some_iff)

lemma strip_suffix_Some_iff: "strip_suffix p s = Some r \<longleftrightarrow> s = r @ p"
proof -
  have "strip_suffix p s = Some r \<longleftrightarrow> strip_prefix (rev p) (rev s) = Some (rev r)"
    by (auto simp: strip_suffix_def)
  also have "\<dots> \<longleftrightarrow> s = r @ p"
    by (simp add: strip_prefix_Some_iff flip: rev_append)
  finally show ?thesis .
qed

lemma starts_with_iff: "starts_with p s \<longleftrightarrow> (\<exists>r. s = p @ r)"
  by (auto simp: starts_with_def strip_prefix_Some_iff)

lemma ends_with_iff: "ends_with p s \<longleftrightarrow> (\<exists>r. s = r @ p)"
  by (auto simp: ends_with_def strip_suffix_Some_iff)

lemma starts_with_append [simp]: "starts_with p (p @ s)"
  by (simp add: starts_with_iff)

lemma starts_with_simps [simp, str_simps]:
  "starts_with [] s" "\<not> starts_with (c # p) []"
  "starts_with (c # p) (d # s) \<longleftrightarrow> c = d \<and> starts_with p s"
  by (auto simp: starts_with_def)

section \<open>Searching and replacing\<close>

text \<open>\<open>str::find\<close>: the index of the first occurrence; \<open>str::contains\<close>.\<close>

fun find_sub :: "str \<Rightarrow> str \<Rightarrow> nat option" where
  "find_sub p [] = (if p = [] then Some 0 else None)"
| "find_sub p (c # s) = (if starts_with p (c # s) then Some 0 else map_option Suc (find_sub p s))"

definition contains :: "str \<Rightarrow> str \<Rightarrow> bool" where
  "contains p s \<longleftrightarrow> find_sub p s \<noteq> None"

text \<open>
  \<open>str::replace\<close>: the non-overlapping occurrences from the left. With an empty pattern the
  replacement goes between all characters and to both ends, as in the standard library.
\<close>

function replace_nonempty :: "str \<Rightarrow> str \<Rightarrow> str \<Rightarrow> str" where
  "replace_nonempty p r [] = []"
| "replace_nonempty p r (c # s) =
     (if p \<noteq> [] \<and> starts_with p (c # s)
      then r @ replace_nonempty p r (drop (length p) (c # s))
      else c # replace_nonempty p r s)"
  by pat_completeness auto
termination
  by (relation "measure (\<lambda>(p, r, s). length s)") auto

definition replace_all :: "str \<Rightarrow> str \<Rightarrow> str \<Rightarrow> str" where
  "replace_all p r s = (if p = [] then r @ concat (map (\<lambda>c. c # r) s) else replace_nonempty p r s)"

lemma find_sub_Some:
  "find_sub p s = Some i \<Longrightarrow> \<exists>r. s = take i s @ p @ r \<and> i + length p \<le> length s"
proof (induction s arbitrary: i)
  case (Cons c s)
  show ?case
  proof (cases "starts_with p (c # s)")
    case True
    then obtain r where r: "c # s = p @ r" by (auto simp: starts_with_iff)
    have "i = 0" using True Cons.prems by simp
    moreover have "length p \<le> length (c # s)" by (simp only: r) simp
    ultimately show ?thesis using r by simp
  next
    case False
    with Cons.prems obtain j where j: "find_sub p s = Some j" and i: "i = Suc j" by auto
    with Cons.IH [of j] show ?thesis by auto
  qed
qed (simp split: if_splits)

lemma find_sub_None_iff: "find_sub p s = None \<longleftrightarrow> \<not> (\<exists>u v. s = u @ p @ v)"
proof (induction s)
  case (Cons c s)
  show ?case
  proof (cases "starts_with p (c # s)")
    case True
    then show ?thesis by (metis append_Nil find_sub.simps(2) option.distinct(1) starts_with_iff)
  next
    case False
    have "(\<exists>u v. c # s = u @ p @ v) \<longleftrightarrow> (\<exists>u v. s = u @ p @ v)"
    proof
      assume "\<exists>u v. c # s = u @ p @ v"
      then obtain u v where uv: "c # s = u @ p @ v" by blast
      with False have "u \<noteq> []" by (auto simp: starts_with_iff)
      with uv show "\<exists>u v. s = u @ p @ v" by (cases u) auto
    next
      assume "\<exists>u v. s = u @ p @ v"
      then obtain u v where "s = u @ p @ v" by blast
      then have "c # s = (c # u) @ p @ v" by simp
      then show "\<exists>u v. c # s = u @ p @ v" by blast
    qed
    with False Cons.IH show ?thesis by simp
  qed
qed auto

lemma find_sub_first: "find_sub p s = Some i \<Longrightarrow> s = u @ p @ v \<Longrightarrow> i \<le> length u"
proof (induction s arbitrary: i u)
  case (Cons c s)
  show ?case
  proof (cases "starts_with p (c # s)")
    case True
    then have "find_sub p (c # s) = Some 0" by simp
    with Cons.prems(1) show ?thesis by (metis option.inject zero_le)
  next
    case False
    with Cons.prems(1) obtain j where j: "find_sub p s = Some j" and i: "i = Suc j" by auto
    from False Cons.prems(2) obtain u' where u: "u = c # u'" and "s = u' @ p @ v"
      by (cases u) (auto simp: starts_with_iff)
    with Cons.IH [OF j] i show ?thesis by simp
  qed
qed (simp split: if_splits)

lemma contains_iff: "contains p s \<longleftrightarrow> (\<exists>u v. s = u @ p @ v)"
  by (metis contains_def find_sub_None_iff)

lemma contains_single: "contains [c] s \<longleftrightarrow> c \<in> set s"
  by (auto simp: contains_iff in_set_conv_decomp)

lemma replace_nonempty_absent:
  "\<not> contains p s \<Longrightarrow> replace_nonempty p r s = s"
proof (induction s)
  case (Cons c s)
  from Cons.prems have "\<not> starts_with p (c # s)"
    by (metis append_Nil contains_iff starts_with_iff)
  moreover from Cons.prems have "\<not> contains p s"
    by (metis append_Cons contains_iff)
  ultimately show ?case using Cons.IH by simp
qed simp

lemma replace_all_absent: "p \<noteq> [] \<Longrightarrow> \<not> contains p s \<Longrightarrow> replace_all p r s = s"
  by (simp add: replace_all_def replace_nonempty_absent)

lemma replace_char: "replace_all [a] [b] s = map (\<lambda>c. if c = a then b else c) s"
proof -
  have "replace_nonempty [a] [b] s = map (\<lambda>c. if c = a then b else c) s"
    by (induction s) auto
  then show ?thesis by (simp add: replace_all_def)
qed

section \<open>Splitting and joining\<close>

text \<open>\<open>str::split\<close> with a character predicate: always at least one part.\<close>

fun split_by :: "(char \<Rightarrow> bool) \<Rightarrow> str \<Rightarrow> str list" where
  "split_by P [] = [[]]"
| "split_by P (c # s) =
     (if P c then [] # split_by P s
      else (case split_by P s of [] \<Rightarrow> [[c]] | w # ws \<Rightarrow> (c # w) # ws))"

abbreviation split_char :: "char \<Rightarrow> str \<Rightarrow> str list" where
  "split_char c \<equiv> split_by (\<lambda>x. x = c)"

text \<open>\<open>slice::join\<close>.\<close>

fun join_with :: "str \<Rightarrow> str list \<Rightarrow> str" where
  "join_with sep [] = []"
| "join_with sep [w] = w"
| "join_with sep (w # v # ws) = w @ sep @ join_with sep (v # ws)"

text \<open>\<open>str::split_once\<close> and \<open>rsplit_once\<close> on a character.\<close>

fun split_once :: "char \<Rightarrow> str \<Rightarrow> (str \<times> str) option" where
  "split_once a [] = None"
| "split_once a (c # s) =
     (if c = a then Some ([], s)
      else (case split_once a s of None \<Rightarrow> None | Some (l, r) \<Rightarrow> Some (c # l, r)))"

definition rsplit_once :: "char \<Rightarrow> str \<Rightarrow> (str \<times> str) option" where
  "rsplit_once a s = map_option (\<lambda>(l, r). (rev r, rev l)) (split_once a (rev s))"

lemma split_by_not_Nil [simp]: "split_by P s \<noteq> []"
  by (cases s) (auto split: list.splits)

lemma split_by_no_sep: "w \<in> set (split_by P s) \<Longrightarrow> c \<in> set w \<Longrightarrow> \<not> P c"
proof (induction s arbitrary: w)
  case (Cons d s)
  show ?case
  proof (cases "split_by P s")
    case (Cons v vs)
    with Cons.prems Cons.IH [of v] Cons.IH [of w] show ?thesis
      by (auto split: if_splits)
  qed (use Cons.prems in \<open>auto split: if_splits\<close>)
qed simp

lemma split_by_word: "(\<And>c. c \<in> set w \<Longrightarrow> \<not> P c) \<Longrightarrow> split_by P w = [w]"
  by (induction w) auto

lemma split_by_append_sep:
  "(\<And>c. c \<in> set w \<Longrightarrow> \<not> P c) \<Longrightarrow> P a \<Longrightarrow> split_by P (w @ a # s) = w # split_by P s"
  by (induction w) auto

lemma join_split_char: "join_with [a] (split_char a s) = s"
proof (induction s)
  case (Cons c s)
  obtain w ws where ws: "split_char a s = w # ws"
    by (cases "split_char a s") auto
  with Cons.IH show ?case by (cases ws) auto
qed simp

lemma set_join_with: "set (join_with sep ws) \<subseteq> set sep \<union> \<Union> (set ` set ws)"
  by (induction sep ws rule: join_with.induct) auto

lemma split_char_join:
  "ws \<noteq> [] \<Longrightarrow> (\<And>w. w \<in> set ws \<Longrightarrow> a \<notin> set w) \<Longrightarrow> split_char a (join_with [a] ws) = ws"
proof (induction "[a]" ws rule: join_with.induct)
  case (2 w)
  then show ?case by (auto intro!: split_by_word)
next
  case (3 w v ws)
  then have "split_char a (w @ a # join_with [a] (v # ws)) = w # (v # ws)"
    by (subst split_by_append_sep) auto
  then show ?case by simp
qed simp

lemma split_once_Some: "split_once a s = Some (l, r) \<longleftrightarrow> s = l @ a # r \<and> a \<notin> set l"
proof (induction s arbitrary: l)
  case (Cons c s)
  show ?case
  proof (cases l)
    case Nil
    then show ?thesis by (auto split: option.splits)
  next
    case (Cons d l')
    then show ?thesis using Cons.IH [of l'] by (auto split: option.splits)
  qed
qed simp

lemma split_once_None: "split_once a s = None \<longleftrightarrow> a \<notin> set s"
  by (induction s) (auto split: option.splits)

lemma rsplit_once_Some: "rsplit_once a s = Some (l, r) \<longleftrightarrow> s = l @ a # r \<and> a \<notin> set r"
proof -
  have "rsplit_once a s = Some (l, r) \<longleftrightarrow> split_once a (rev s) = Some (rev r, rev l)"
    by (auto simp: rsplit_once_def)
  also have "\<dots> \<longleftrightarrow> rev s = rev r @ a # rev l \<and> a \<notin> set r"
    by (simp add: split_once_Some)
  also have "rev s = rev r @ a # rev l \<longleftrightarrow> s = l @ a # r"
    by (metis append.assoc append_Cons append_Nil rev.simps(2) rev_append rev_rev_ident)
  finally show ?thesis .
qed

lemma rsplit_once_None: "rsplit_once a s = None \<longleftrightarrow> a \<notin> set s"
  by (simp add: rsplit_once_def split_once_None)

section \<open>Trimming and lines\<close>

definition trim_start :: "str \<Rightarrow> str" where
  "trim_start s = dropWhile is_space s"

definition trim_end :: "str \<Rightarrow> str" where
  "trim_end s = rev (dropWhile is_space (rev s))"

definition trim :: "str \<Rightarrow> str" where
  "trim s = trim_end (trim_start s)"

definition trimmed :: "str \<Rightarrow> bool" where
  "trimmed s \<longleftrightarrow> s = [] \<or> (\<not> is_space (hd s) \<and> \<not> is_space (last s))"

text \<open>\<open>trim_end_matches\<close> with a character and with a (non-empty) string.\<close>

definition trim_end_char :: "char \<Rightarrow> str \<Rightarrow> str" where
  "trim_end_char a s = rev (dropWhile (\<lambda>c. c = a) (rev s))"

function drop_prefixes :: "str \<Rightarrow> str \<Rightarrow> str" where
  "drop_prefixes p s =
     (if p \<noteq> [] \<and> starts_with p s then drop_prefixes p (drop (length p) s) else s)"
  by pat_completeness auto
termination
  by (relation "measure (\<lambda>(p, s). length s)") (auto simp: starts_with_iff)

declare drop_prefixes.simps [simp del]

definition trim_end_str :: "str \<Rightarrow> str \<Rightarrow> str" where
  "trim_end_str p s = rev (drop_prefixes (rev p) (rev s))"

text \<open>
  \<open>str::lines\<close>: split at newlines, a carriage return before a newline and a final empty line
  dropped; a last line without a newline keeps its carriage return.
\<close>

definition strip_cr :: "str \<Rightarrow> str" where
  "strip_cr s = (case strip_suffix [CHR 13] s of None \<Rightarrow> s | Some r \<Rightarrow> r)"

definition str_lines :: "str \<Rightarrow> str list" where
  "str_lines s =
     (let ps = split_char (CHR 10) s
      in map strip_cr (butlast ps) @ (if last ps = [] then [] else [last ps]))"

text \<open>
  \<open>str::from_utf8\<close>: a string is its bytes, which have to be well-formed UTF-8 (the table of
  the Unicode standard: no overlong forms, no surrogates, nothing above U+10FFFF).
\<close>

definition utf8_width :: "nat \<Rightarrow> nat" where
  "utf8_width b =
     (if b < 128 then 1
      else if 194 \<le> b \<and> b \<le> 223 then 2
      else if 224 \<le> b \<and> b \<le> 239 then 3
      else if 240 \<le> b \<and> b \<le> 244 then 4
      else 0)"

definition utf8_second :: "nat \<Rightarrow> nat \<Rightarrow> bool" where
  "utf8_second b c \<longleftrightarrow>
     (if b = 224 then 160 \<le> c else if b = 240 then 144 \<le> c else 128 \<le> c) \<and>
     (if b = 237 then c \<le> 159 else if b = 244 then c \<le> 143 else c \<le> 191)"

definition utf8_tail :: "char \<Rightarrow> bool" where
  "utf8_tail c \<longleftrightarrow> 128 \<le> byte c \<and> byte c \<le> 191"

function utf8_valid :: "str \<Rightarrow> bool" where
  "utf8_valid s =
     (case s of
        [] \<Rightarrow> True
      | b # r \<Rightarrow>
          (let n = utf8_width (byte b) - 1
           in utf8_width (byte b) \<noteq> 0 \<and> n \<le> length r \<and>
              (n \<noteq> 0 \<longrightarrow> utf8_second (byte b) (byte (hd r))) \<and>
              list_all utf8_tail (take n r) \<and> utf8_valid (drop n r)))"
  by pat_completeness auto
termination
  by (relation "measure length") auto

declare utf8_valid.simps [simp del]

lemma utf8_valid_ascii: "(\<And>c. c \<in> set s \<Longrightarrow> byte c < 128) \<Longrightarrow> utf8_valid s"
  by (induction s) (simp_all add: utf8_valid.simps [of "_ # _"] utf8_valid.simps [of "[]"] utf8_width_def)

text \<open>
  \<open>String::from_utf8_lossy\<close>: each maximal ill-formed part (the bytes that could have started a
  character) becomes one replacement character.
\<close>

definition utf8_bad_length :: "str \<Rightarrow> nat" where
  "utf8_bad_length s =
     (let w = utf8_width (byte (hd s)); r = tl s
      in if w < 2 \<or> r = [] \<or> \<not> utf8_second (byte (hd s)) (byte (hd r)) then 1
         else 1 + length (takeWhile utf8_tail (take (w - 1) r)))"

function utf8_lossy :: "str \<Rightarrow> str" where
  "utf8_lossy s =
     (case s of
        [] \<Rightarrow> []
      | b # r \<Rightarrow>
          (let n = utf8_width (byte b)
           in if n \<noteq> 0 \<and> n \<le> length s \<and> utf8_valid (take n s)
              then take n s @ utf8_lossy (drop n s)
              else [CHR 0xEF, CHR 0xBF, CHR 0xBD] @ utf8_lossy (drop (utf8_bad_length s) s)))"
  by pat_completeness auto
termination
  by (relation "measure length") (auto simp: utf8_bad_length_def Let_def split: if_splits)

declare utf8_lossy.simps [simp del]

text \<open>\<open>split_whitespace\<close>: the non-empty parts between whitespace.\<close>

definition split_whitespace :: "str \<Rightarrow> str list" where
  "split_whitespace s = filter (\<lambda>w. w \<noteq> []) (split_by is_space s)"

lemma dropWhile_hd: "dropWhile P s \<noteq> [] \<Longrightarrow> \<not> P (hd (dropWhile P s))"
  by (rule hd_dropWhile)

lemma trimmed_trim: "trimmed (trim s)"
proof (cases "trim s = []")
  case False
  let ?u = "dropWhile is_space (rev (trim_start s))"
  have t: "trim s = rev ?u" by (simp add: trim_def trim_end_def)
  with False have "?u \<noteq> []" by simp
  then have "\<not> is_space (last (trim s))"
    using dropWhile_hd [of is_space "rev (trim_start s)"] by (simp add: t last_rev)
  moreover have "\<not> is_space (hd (trim s))"
  proof -
    obtain v where v: "trim_start s = trim s @ v"
      by (metis t rev_append rev_rev_ident takeWhile_dropWhile_id)
    with False have "hd (trim s) = hd (trim_start s)" and "trim_start s \<noteq> []" by simp_all
    then show ?thesis using dropWhile_hd [of is_space s] by (simp add: trim_start_def)
  qed
  ultimately show ?thesis by (simp add: trimmed_def)
qed (simp add: trimmed_def)

lemma trim_trimmed: "trimmed s \<Longrightarrow> trim s = s"
proof (cases s)
  case (Cons c s')
  assume t: "trimmed s"
  then have "trim_start s = s" by (simp add: trim_start_def trimmed_def Cons)
  moreover have "trim_end s = s"
  proof -
    have "rev s = last s # rev (butlast s)" by (metis Cons append_butlast_last_id list.distinct(1)
          rev.simps(2) rev_append rev_rev_ident singleton_rev_conv append_Cons append_Nil)
    with t have "dropWhile is_space (rev s) = rev s" by (simp add: trimmed_def Cons)
    then show ?thesis by (simp add: trim_end_def)
  qed
  ultimately show ?thesis by (simp add: trim_def)
qed (simp add: trim_def trim_start_def trim_end_def)

lemma trim_idem [simp]: "trim (trim s) = trim s"
  by (simp add: trim_trimmed trimmed_trim)

lemma trim_end_str_no_suffix: "\<not> ends_with p (trim_end_str p s) \<or> p = []"
proof -
  have "\<not> starts_with q (drop_prefixes q t) \<or> q = []" for q t
  proof (induction q t rule: drop_prefixes.induct)
    case (1 p s)
    then show ?case by (cases "p \<noteq> [] \<and> starts_with p s") (auto simp: drop_prefixes.simps [of p s])
  qed
  from this [of "rev p" "rev s"] show ?thesis
    by (auto simp: trim_end_str_def ends_with_def strip_suffix_def starts_with_def)
qed

end
