(* ===== verification/Rust_Num.thy ===== *)
theory Rust_Num
  imports Rust_Str
begin

text \<open>
  Unsigned integers as the program reads and prints them: \<open>str::parse\<close> of an unsigned
  type of a given width, decimal \<open>Display\<close>, and the saturating operations of \<open>u64\<close>.
\<close>

text \<open>The value of a string of digits.\<close>

definition digit_val :: "char \<Rightarrow> nat" where
  "digit_val c = byte c - 48"

definition digits_val :: "str \<Rightarrow> nat" where
  "digits_val s = foldl (\<lambda>n c. 10 * n + digit_val c) 0 s"

text \<open>
  \<open>str::parse::<uN>\<close>: an optional plus sign, at least one digit, digits only, and a value
  that fits in the width.
\<close>

definition parse_uint :: "nat \<Rightarrow> str \<Rightarrow> nat option" where
  "parse_uint w s =
     (let ds = (case strip_prefix ''+'' s of None \<Rightarrow> s | Some r \<Rightarrow> r)
      in if ds \<noteq> [] \<and> list_all is_digit ds \<and> digits_val ds < 2 ^ w
         then Some (digits_val ds) else None)"

text \<open>For evaluation, the value is computed on binary integers.\<close>

definition digits_int :: "str \<Rightarrow> int" where
  "digits_int s = foldl (\<lambda>n c. 10 * n + (of_char c - 48)) 0 s"

lemma foldl_digits_int:
  "list_all is_digit s \<Longrightarrow>
     foldl (\<lambda>n c. 10 * n + (of_char c - 48)) (int k) s =
     int (foldl (\<lambda>n c. 10 * n + digit_val c) k s)"
proof (induction s arbitrary: k)
  case (Cons c s)
  then have "10 * int k + (of_char c - 48) = int (10 * k + digit_val c)"
    by (simp add: is_digit_def byte_def digit_val_def of_nat_diff of_nat_of_char)
  with Cons show ?case by (simp del: of_nat_add of_nat_mult)
qed simp

lemma parse_uint_code [code]:
  "parse_uint w s =
     (let ds = (case strip_prefix ''+'' s of None \<Rightarrow> s | Some r \<Rightarrow> r)
      in if ds \<noteq> [] \<and> list_all is_digit ds
         then (let v = digits_int ds in if v < 2 ^ w then Some (nat v) else None) else None)"
proof -
  have "digits_int ds = int (digits_val ds)" if "list_all is_digit ds" for ds
    using foldl_digits_int [OF that, of 0] by (simp add: digits_int_def digits_val_def)
  moreover have "int n < 2 ^ w \<longleftrightarrow> n < 2 ^ w" for n
    by (metis of_nat_less_iff of_nat_numeral of_nat_power)
  ultimately show ?thesis by (auto simp: parse_uint_def Let_def)
qed

abbreviation parse_u64 :: "str \<Rightarrow> nat option" where "parse_u64 \<equiv> parse_uint 64"
abbreviation parse_u32 :: "str \<Rightarrow> nat option" where "parse_u32 \<equiv> parse_uint 32"
abbreviation parse_u16 :: "str \<Rightarrow> nat option" where "parse_u16 \<equiv> parse_uint 16"

text \<open>Decimal \<open>Display\<close>.\<close>

definition digit_char :: "nat \<Rightarrow> char" where
  "digit_char d = char_of (48 + d)"

fun show_nat :: "nat \<Rightarrow> str" where
  "show_nat n = (if n < 10 then [digit_char n] else show_nat (n div 10) @ [digit_char (n mod 10)])"

declare show_nat.simps [simp del]

definition sat_add64 :: "64 word \<Rightarrow> 64 word \<Rightarrow> 64 word" where
  "sat_add64 a b = (if unat a + unat b < 2 ^ 64 then a + b else - 1)"

definition sat_sub64 :: "64 word \<Rightarrow> 64 word \<Rightarrow> 64 word" where
  "sat_sub64 a b = (if b \<le> a then a - b else 0)"

text \<open>For evaluation, an overflow shows in the wrapped sum.\<close>

lemma sat_add64_code [code]: "sat_add64 a b = (if a + b < a then - 1 else a + b)"
proof -
  have "a \<le> a + b \<longleftrightarrow> uint a + uint b < 2 ^ 64" using no_olen_add [of a b] by simp
  also have "\<dots> \<longleftrightarrow> int (unat a + unat b) < int (2 ^ 64)" by simp
  also have "\<dots> \<longleftrightarrow> unat a + unat b < 2 ^ 64" by (simp only: of_nat_less_iff)
  finally have "a + b < a \<longleftrightarrow> \<not> unat a + unat b < 2 ^ 64" by (metis not_le)
  then show ?thesis by (simp only: sat_add64_def if_not_P split: if_split) simp
qed

lemma byte_char_of: "n < 256 \<Longrightarrow> byte (char_of n) = n"
  by (simp add: byte_def)

lemma is_digit_digit_char: "d < 10 \<Longrightarrow> is_digit (digit_char d)"
  by (simp add: is_digit_def digit_char_def byte_char_of)

lemma digit_val_digit_char: "d < 10 \<Longrightarrow> digit_val (digit_char d) = d"
  by (simp add: digit_val_def digit_char_def byte_char_of)

lemma digits_val_snoc [simp]: "digits_val (s @ [c]) = 10 * digits_val s + digit_val c"
  by (simp add: digits_val_def)

lemma digits_val_Nil [simp]: "digits_val [] = 0"
  by (simp add: digits_val_def)

lemma digits_val_single [simp]: "digits_val [c] = digit_val c"
  by (simp add: digits_val_def)

lemma show_nat_props:
  "show_nat n \<noteq> [] \<and> list_all is_digit (show_nat n) \<and> digits_val (show_nat n) = n"
proof (induction n rule: show_nat.induct)
  case (1 n)
  show ?case
  proof (cases "n < 10")
    case True
    then show ?thesis
      by (simp add: show_nat.simps [of n] is_digit_digit_char digit_val_digit_char)
  next
    case False
    with 1 show ?thesis
      by (simp add: show_nat.simps [of n] is_digit_digit_char digit_val_digit_char)
  qed
qed

lemma show_nat_set: "c \<in> set (show_nat n) \<Longrightarrow> is_digit c"
  using show_nat_props [of n] by (simp add: list_all_iff)

lemma strip_plus_digits: "list_all is_digit s \<Longrightarrow> strip_prefix ''+'' s = None"
  by (cases s) (auto simp: is_digit_def byte_def)

text \<open>Parsing undoes printing, for every value of the width.\<close>

lemma parse_uint_show_nat: "n < 2 ^ w \<Longrightarrow> parse_uint w (show_nat n) = Some n"
  using show_nat_props [of n] by (simp add: parse_uint_def strip_plus_digits)

lemma parse_uint_bound: "parse_uint w s = Some n \<Longrightarrow> n < 2 ^ w"
  by (auto simp: parse_uint_def Let_def split: if_splits)

lemma parse_uint_digits:
  "list_all is_digit s \<Longrightarrow>
   parse_uint w s = (if s \<noteq> [] \<and> digits_val s < 2 ^ w then Some (digits_val s) else None)"
  by (auto simp: parse_uint_def strip_plus_digits)

lemma parse_uint_not_Nil: "parse_uint w s = Some n \<Longrightarrow> s \<noteq> []"
  by (auto simp: parse_uint_def Let_def split: if_splits option.splits)

lemma show_nat_inj: "show_nat m = show_nat n \<Longrightarrow> m = n"
  by (metis show_nat_props)

lemma sat_sub64_unat: "unat (sat_sub64 a b) = unat a - unat b"
proof (cases "b \<le> a")
  case True
  then show ?thesis by (simp add: sat_sub64_def unat_sub)
next
  case False
  then have "unat a < unat b" by (simp add: word_less_nat_alt not_le)
  with False show ?thesis by (simp add: sat_sub64_def)
qed

lemma sat_add64_unat: "unat (sat_add64 a b) = min (unat a + unat b) (2 ^ 64 - 1)"
proof (cases "unat a + unat b < 2 ^ 64")
  case True
  then show ?thesis by (simp add: sat_add64_def unat_word_ariths)
next
  case False
  then show ?thesis by (simp add: sat_add64_def unsigned_minus_1_eq_mask mask_eq_exp_minus_1)
qed

lemma sat_sub64_ge: "b \<le> a \<Longrightarrow> sat_sub64 a b = a - b"
  by (simp add: sat_sub64_def)

lemma sat_add64_ge: "a \<le> b \<Longrightarrow> a \<le> sat_add64 b c"
  using unsigned_less [of a, where 'a = nat] by (simp add: word_le_nat_alt sat_add64_unat)

end
