(* ===== verification/Versions.thy ===== *)
theory Versions
  imports Rust_Num "HOL-Library.Product_Lexorder"
begin

text \<open>
  Version ordering and update selection, \<open>crates/jman-resolver/src/version.rs\<close>. A version
  splits at \<open>.\<close>, \<open>-\<close>, \<open>_\<close> and \<open>+\<close>; its leading numeric components are compared with zero
  padding, then a key of its qualifier decides. \<open>compare_versions\<close> satisfies the contract
  \<open>comparison\<close>, on which the selection of the newest candidate rests.
\<close>

section \<open>Definitions\<close>

datatype version_change = Patch | Minor | Major | Other

record version_updates =
  vu_patch :: "str option"
  vu_minor :: "str option"
  vu_major :: "str option"
  vu_latest :: "str option"
  vu_change :: "version_change option"

record numeric_version =
  nv_major :: nat
  nv_minor :: nat

definition is_version_sep :: "char \<Rightarrow> bool" where
  "is_version_sep c \<longleftrightarrow> c \<in> {CHR ''.'', CHR ''-'', CHR ''_'', CHR ''+''}"

definition version_numeric :: "str \<Rightarrow> numeric_version option" where
  "version_numeric v =
     (case split_by is_version_sep v of
        [] \<Rightarrow> None
      | c # cs \<Rightarrow>
          (case parse_u64 c of
             None \<Rightarrow> None
           | Some major \<Rightarrow>
               Some \<lparr>nv_major = major,
                     nv_minor =
                       (case cs of
                          [] \<Rightarrow> 0
                        | d # _ \<Rightarrow> (case parse_u64 d of None \<Rightarrow> 0 | Some n \<Rightarrow> n))\<rparr>))"

fun map_while :: "('a \<Rightarrow> 'b option) \<Rightarrow> 'a list \<Rightarrow> 'b list" where
  "map_while f [] = []"
| "map_while f (x # xs) = (case f x of None \<Rightarrow> [] | Some y \<Rightarrow> y # map_while f xs)"

definition numeric_components :: "str \<Rightarrow> nat list" where
  "numeric_components v = map_while parse_u64 (split_by is_version_sep v)"

text \<open>\<open>qualifier_marker\<close>: the marker followed by nothing, a dot or a digit.\<close>

definition qualifier_marker :: "str \<Rightarrow> str \<Rightarrow> str \<Rightarrow> bool" where
  "qualifier_marker q long short \<longleftrightarrow>
     list_ex (\<lambda>marker. case strip_prefix marker q of
         None \<Rightarrow> False
       | Some rest \<Rightarrow> rest = [] \<or> hd rest = CHR ''.'' \<or> is_digit (hd rest))
       [long, short]"

definition qualifier_rank :: "str \<Rightarrow> int" where
  "qualifier_rank q =
     (if starts_with ''snapshot'' q then - 60
      else if qualifier_marker q ''alpha'' ''a'' then - 50
      else if qualifier_marker q ''beta'' ''b'' then - 40
      else if qualifier_marker q ''milestone'' ''m'' then - 30
      else if qualifier_marker q ''rc'' ''rc'' \<or> qualifier_marker q ''cr'' ''cr'' then - 20
      else if qualifier_marker q ''ea'' ''ea'' \<or> qualifier_marker q ''preview'' ''preview''
        then - 10
      else if starts_with ''sp'' q then 10
      else 0)"

definition qualifier_of :: "str \<Rightarrow> str" where
  "qualifier_of v =
     join_with ''.'' (dropWhile (list_all is_digit) (split_by is_version_sep (lowercase v)))"

definition qualifier_key :: "str \<Rightarrow> int \<times> nat \<times> str" where
  "qualifier_key v =
     (let q = qualifier_of v
      in if q \<in> {'''', ''final'', ''ga'', ''release''} then (0, 0, [])
         else
           let digits = takeWhile is_digit (dropWhile (\<lambda>c. \<not> is_digit c) q);
               number = (case parse_u64 digits of None \<Rightarrow> 0 | Some n \<Rightarrow> n)
           in (qualifier_rank q, number, q))"

text \<open>The loop over the indices below the larger length, missing components read as zero.\<close>

fun cmp_padded :: "nat list \<Rightarrow> nat list \<Rightarrow> cmp_result" where
  "cmp_padded [] [] = Equal"
| "cmp_padded (x # xs) [] = (if x \<noteq> 0 then Greater else cmp_padded xs [])"
| "cmp_padded [] (y # ys) = (if y \<noteq> 0 then Less else cmp_padded [] ys)"
| "cmp_padded (x # xs) (y # ys) =
     (if ord_cmp x y \<noteq> Equal then ord_cmp x y else cmp_padded xs ys)"

definition compare_versions :: "str \<Rightarrow> str \<Rightarrow> cmp_result" where
  "compare_versions l r =
     (let c = cmp_padded (numeric_components l) (numeric_components r)
      in if c \<noteq> Equal then c else ord_cmp (qualifier_key l) (qualifier_key r))"

definition is_prerelease :: "str \<Rightarrow> bool" where
  "is_prerelease v \<longleftrightarrow> fst (qualifier_key v) < 0"

definition select_newer :: "str option \<Rightarrow> str \<Rightarrow> str option" where
  "select_newer selected candidate =
     (case selected of
        None \<Rightarrow> Some candidate
      | Some current \<Rightarrow>
          if compare_versions candidate current = Greater then Some candidate else selected)"

text \<open>The four buckets of the scan, and where a candidate goes.\<close>

record buckets =
  b_patch :: "str option"
  b_minor :: "str option"
  b_major :: "str option"
  b_other :: "str option"

definition skipped :: "str \<Rightarrow> bool \<Rightarrow> str \<Rightarrow> bool" where
  "skipped current include_prerelease candidate \<longleftrightarrow>
     candidate = current \<or> (\<not> include_prerelease \<and> is_prerelease candidate) \<or>
     compare_versions candidate current \<noteq> Greater"

definition change_of :: "numeric_version option \<Rightarrow> str \<Rightarrow> version_change" where
  "change_of current_numeric candidate =
     (case (current_numeric, version_numeric candidate) of
        (Some cur, Some new) \<Rightarrow>
          (if nv_major new = nv_major cur \<and> nv_minor new = nv_minor cur then Patch
           else if nv_major new = nv_major cur \<and> nv_minor new > nv_minor cur then Minor
           else if nv_major new > nv_major cur then Major
           else Other)
      | _ \<Rightarrow> Other)"

definition scan_step :: "str \<Rightarrow> bool \<Rightarrow> str \<Rightarrow> buckets \<Rightarrow> buckets" where
  "scan_step current include_prerelease candidate b =
     (if skipped current include_prerelease candidate then b
      else case change_of (version_numeric current) candidate of
          Patch \<Rightarrow> b\<lparr>b_patch := select_newer (b_patch b) candidate\<rparr>
        | Minor \<Rightarrow> b\<lparr>b_minor := select_newer (b_minor b) candidate\<rparr>
        | Major \<Rightarrow> b\<lparr>b_major := select_newer (b_major b) candidate\<rparr>
        | Other \<Rightarrow> b\<lparr>b_other := select_newer (b_other b) candidate\<rparr>)"

definition scan_versions :: "str \<Rightarrow> str list \<Rightarrow> bool \<Rightarrow> buckets" where
  "scan_versions current available include_prerelease =
     fold (scan_step current include_prerelease) available
       \<lparr>b_patch = None, b_minor = None, b_major = None, b_other = None\<rparr>"

definition bucket_entries :: "buckets \<Rightarrow> (str \<times> version_change) list" where
  "bucket_entries b =
     List.map_filter (\<lambda>(v, c). map_option (\<lambda>x. (x, c)) v)
       [(b_patch b, Patch), (b_minor b, Minor), (b_major b, Major), (b_other b, Other)]"

definition analyze_versions :: "str \<Rightarrow> str list \<Rightarrow> bool \<Rightarrow> version_updates" where
  "analyze_versions current available include_prerelease =
     (let b = scan_versions current available include_prerelease;
          best = max_by (\<lambda>l r. compare_versions (fst l) (fst r)) (bucket_entries b)
      in \<lparr>vu_patch = b_patch b, vu_minor = b_minor b, vu_major = b_major b,
          vu_latest = map_option fst best, vu_change = map_option snd best\<rparr>)"

section \<open>The order\<close>

lemma cmp_padded_refl: "cmp_padded xs xs = Equal"
  by (induction xs) auto

lemma cmp_padded_flip: "cmp_padded ys xs = flip_cmp (cmp_padded xs ys)"
  by (induction xs ys rule: cmp_padded.induct) (auto simp: ord_cmp_def)

text \<open>Padding makes the comparison that of infinite sequences: compare at an index.\<close>

definition pad_nth :: "nat list \<Rightarrow> nat \<Rightarrow> nat" where
  "pad_nth xs i = (if i < length xs then xs ! i else 0)"

lemma pad_nth_simps [simp]:
  "pad_nth [] i = 0" "pad_nth (x # xs) 0 = x" "pad_nth (x # xs) (Suc i) = pad_nth xs i"
  by (simp_all add: pad_nth_def)

lemma all_nat_split: "(\<forall>i. P i) \<longleftrightarrow> P 0 \<and> (\<forall>i. P (Suc i))"
  by (metis nat.exhaust)

lemma cmp_padded_Equal: "cmp_padded xs ys = Equal \<longleftrightarrow> (\<forall>i. pad_nth xs i = pad_nth ys i)"
proof (induction xs ys rule: cmp_padded.induct)
  case (2 x xs)
  then show ?case by (subst all_nat_split) simp
next
  case (3 y ys)
  then show ?case by (subst all_nat_split) auto
next
  case (4 x xs y ys)
  then show ?case by (subst all_nat_split) auto
qed simp

lemma cmp_padded_trans:
  "cmp_padded xs ys \<noteq> Greater \<Longrightarrow> cmp_padded ys zs \<noteq> Greater \<Longrightarrow> cmp_padded xs zs \<noteq> Greater"
proof (induction xs zs arbitrary: ys rule: cmp_padded.induct)
  case 1
  then show ?case by simp
next
  case (2 x xs)
  then show ?case by (cases ys) (force simp: ord_cmp_def split: if_splits)+
next
  case (3 z zs)
  then show ?case by (cases ys) (force simp: ord_cmp_def split: if_splits)+
next
  case (4 x xs z zs)
  then show ?case by (cases ys) (force simp: ord_cmp_def split: if_splits)+
qed

interpretation padded_cmp: comparison cmp_padded
  by (unfold_locales; (rule cmp_padded_refl | rule cmp_padded_flip | (rule cmp_padded_trans; assumption)))

lemma compare_versions_then:
  "compare_versions = (\<lambda>l r. then_cmp (cmp_padded (numeric_components l) (numeric_components r))
     (ord_cmp (qualifier_key l) (qualifier_key r)))"
  by (auto simp: compare_versions_def then_cmp_def fun_eq_iff Let_def)

interpretation version_cmp: comparison compare_versions
  unfolding compare_versions_then
  by (rule comparison_then
      [OF comparison_key [OF padded_cmp.comparison_axioms, of numeric_components]
        comparison_key [OF linorder_cmp.comparison_axioms, of qualifier_key]])

interpretation entry_cmp: comparison
  "\<lambda>(l :: str \<times> version_change) r. compare_versions (fst l) (fst r)"
  by (rule comparison_key [OF version_cmp.comparison_axioms, of fst])

section \<open>The scan\<close>

definition newest :: "str list \<Rightarrow> str option" where
  "newest xs = fold (\<lambda>c s. select_newer s c) xs None"

lemma fold_select_newer:
  "\<exists>w \<in> insert v (set xs). fold (\<lambda>c s. select_newer s c) xs (Some v) = Some w \<and>
     (\<forall>c \<in> insert v (set xs). compare_versions c w \<noteq> Greater)"
proof (induction xs arbitrary: v)
  case Nil
  then show ?case by (simp add: version_cmp.cmp_refl)
next
  case (Cons x xs)
  let ?v = "if compare_versions x v = Greater then x else v"
  obtain w where w: "w \<in> insert ?v (set xs)"
      "fold (\<lambda>c s. select_newer s c) xs (Some ?v) = Some w"
    and ge: "c \<in> insert ?v (set xs) \<Longrightarrow> compare_versions c w \<noteq> Greater" for c
    using Cons.IH [of ?v] by blast
  have "compare_versions v ?v \<noteq> Greater" "compare_versions x ?v \<noteq> Greater"
    using version_cmp.cmp_flip [of v x] by (auto simp: version_cmp.cmp_refl)
  then have "compare_versions v w \<noteq> Greater" "compare_versions x w \<noteq> Greater"
    using version_cmp.cmp_trans ge [of ?v] by blast+
  with w ge show ?case by (intro bexI [of _ w]) (auto simp: select_newer_def split: if_splits)
qed

lemma newest_None_iff: "newest xs = None \<longleftrightarrow> xs = []"
  using fold_select_newer [of "hd xs" "tl xs"]
  by (cases xs) (auto simp: newest_def select_newer_def)

lemma newest_Some:
  assumes "newest xs = Some w"
  shows "w \<in> set xs" and "c \<in> set xs \<Longrightarrow> compare_versions c w \<noteq> Greater"
  using assms fold_select_newer [of "hd xs" "tl xs"]
  by (cases xs; force simp: newest_def select_newer_def)+

definition eligible :: "str \<Rightarrow> bool \<Rightarrow> str list \<Rightarrow> str list" where
  "eligible current pre available = filter (\<lambda>c. \<not> skipped current pre c) available"

definition bucket :: "version_change \<Rightarrow> buckets \<Rightarrow> str option" where
  "bucket ch b = (case ch of Patch \<Rightarrow> b_patch b | Minor \<Rightarrow> b_minor b | Major \<Rightarrow> b_major b
     | Other \<Rightarrow> b_other b)"

lemma bucket_scan_step:
  "bucket ch (scan_step cur pre c b) =
     (if \<not> skipped cur pre c \<and> change_of (version_numeric cur) c = ch
      then select_newer (bucket ch b) c else bucket ch b)"
  by (auto simp: scan_step_def bucket_def split: version_change.splits)

lemma bucket_fold:
  "bucket ch (fold (scan_step cur pre) xs b) =
     fold (\<lambda>c s. select_newer s c)
       (filter (\<lambda>c. change_of (version_numeric cur) c = ch) (eligible cur pre xs)) (bucket ch b)"
  by (induction xs arbitrary: b) (auto simp: eligible_def bucket_scan_step)

lemma bucket_scan:
  "bucket ch (scan_versions cur xs pre) =
     newest (filter (\<lambda>c. change_of (version_numeric cur) c = ch) (eligible cur pre xs))"
  by (cases ch) (simp_all add: scan_versions_def bucket_fold newest_def,
    simp_all add: bucket_def)

lemma set_bucket_entries: "(v, ch) \<in> set (bucket_entries b) \<longleftrightarrow> bucket ch b = Some v"
  by (cases ch) (auto simp: bucket_entries_def bucket_def List.map_filter_def)

lemma analyze_entries:
  "(v, ch) \<in> set (bucket_entries (scan_versions cur xs pre)) \<Longrightarrow>
     v \<in> set (eligible cur pre xs) \<and> change_of (version_numeric cur) v = ch \<and>
     (\<forall>c \<in> set (eligible cur pre xs). change_of (version_numeric cur) c = ch \<longrightarrow>
        compare_versions c v \<noteq> Greater)"
  by (auto simp: set_bucket_entries bucket_scan dest: newest_Some)

lemma analyze_entries_exist:
  assumes "c \<in> set (eligible cur pre xs)"
  shows "\<exists>v. (v, change_of (version_numeric cur) c) \<in> set (bucket_entries (scan_versions cur xs pre))
     \<and> compare_versions c v \<noteq> Greater"
proof -
  let ?ch = "change_of (version_numeric cur) c"
  let ?xs = "filter (\<lambda>c. change_of (version_numeric cur) c = ?ch) (eligible cur pre xs)"
  from assms have c: "c \<in> set ?xs" by simp
  then have "?xs \<noteq> []" by (metis empty_iff list.set(1))
  then obtain v where "newest ?xs = Some v" using newest_None_iff [of ?xs] by blast
  with c show ?thesis by (auto simp: set_bucket_entries bucket_scan dest: newest_Some(2))
qed

lemma version_numeric_components:
  "version_numeric v = Some n \<Longrightarrow>
     pad_nth (numeric_components v) 0 = nv_major n \<and> pad_nth (numeric_components v) 1 = nv_minor n"
  by (auto simp: version_numeric_def numeric_components_def split: list.splits option.splits)

lemma cmp_padded_not_Less:
  "cmp_padded xs ys \<noteq> Less \<Longrightarrow>
     pad_nth ys 0 \<le> pad_nth xs 0 \<and>
     (pad_nth xs 0 = pad_nth ys 0 \<longrightarrow> pad_nth ys 1 \<le> pad_nth xs 1)"
  by (cases "(xs, ys)" rule: cmp_padded.cases; cases "(tl xs, tl ys)" rule: cmp_padded.cases)
     (auto simp: ord_cmp_def split: if_splits)

text \<open>A newer numeric version is a patch, a minor or a major update, never anything else.\<close>

lemma change_of_numeric:
  assumes "compare_versions new cur = Greater"
    and "version_numeric cur = Some m" and "version_numeric new = Some n"
  shows "change_of (Some m) new \<noteq> Other"
proof -
  have "cmp_padded (numeric_components new) (numeric_components cur) \<noteq> Less"
    using assms(1) by (auto simp: compare_versions_def Let_def)
  then show ?thesis
    using cmp_padded_not_Less [of "numeric_components new" "numeric_components cur"]
      version_numeric_components [OF assms(2)] version_numeric_components [OF assms(3)]
    by (auto simp: change_of_def assms(3))
qed

section \<open>Properties\<close>

text \<open>
  Property C27. \<open>compare_versions\<close> is a total preorder on all strings: it is
  reflexive, swapping the arguments flips the result, and it is transitive, with equality
  along a chain exactly when both links are equal.
\<close>

theorem version_order:
  assumes "compare_versions a b \<noteq> Greater" "compare_versions b c \<noteq> Greater"
  shows "compare_versions a a = Equal \<and> compare_versions c a = flip_cmp (compare_versions a c) \<and>
    compare_versions a c \<noteq> Greater \<and>
    (compare_versions a c = Equal \<longleftrightarrow> compare_versions a b = Equal \<and> compare_versions b c = Equal)"
proof -
  have ac: "compare_versions a c \<noteq> Greater" using assms by (rule version_cmp.cmp_trans)
  have "compare_versions a c = Equal" if "compare_versions a b = Equal" "compare_versions b c = Equal"
  proof -
    have "compare_versions c a \<noteq> Greater"
      using that version_cmp.cmp_flip [of c b] version_cmp.cmp_flip [of b a]
      by (intro version_cmp.cmp_trans [of c b a]) auto
    with ac show ?thesis
      using version_cmp.cmp_flip [of a c] by (cases "compare_versions c a") auto
  qed
  moreover have "compare_versions a c = Less"
    if "compare_versions a b = Less \<or> compare_versions b c = Less"
    using that assms version_cmp.cmp_less_trans version_cmp.cmp_trans_less by blast
  ultimately show ?thesis
    using ac assms version_cmp.cmp_flip [of a c] version_cmp.cmp_refl
    by (cases "compare_versions a b"; cases "compare_versions b c") auto
qed

theorem version_order_witness:
  "compare_versions ''1.0-rc1'' ''1.0'' = Less \<and> compare_versions ''1.0'' ''1.0.1'' = Less \<and>
   compare_versions ''1.0-rc1'' ''1.0.1'' \<noteq> Greater"
proof -
  have "compare_versions ''1.0-rc1'' ''1.0'' = Less" "compare_versions ''1.0'' ''1.0.1'' = Less"
    by code_simp+
  then show ?thesis using version_order [of "''1.0-rc1''" "''1.0''" "''1.0.1''"] by simp
qed

text \<open>
  Property C28. The reported latest version is absent exactly when no available
  version may be offered; otherwise it is an offered version, newer than the current one, not
  a prerelease unless asked for, and no offered version is newer than it.
\<close>

theorem analyze_latest:
  "(vu_latest (analyze_versions cur avail pre) = None \<longleftrightarrow>
      (\<forall>c \<in> set avail. skipped cur pre c)) \<and>
   (\<forall>v. vu_latest (analyze_versions cur avail pre) = Some v \<longrightarrow>
      v \<in> set avail \<and> compare_versions v cur = Greater \<and> (is_prerelease v \<longrightarrow> pre) \<and>
      (\<forall>c \<in> set avail. \<not> skipped cur pre c \<longrightarrow> compare_versions c v \<noteq> Greater))"
proof -
  let ?es = "bucket_entries (scan_versions cur avail pre)"
  let ?best = "max_by (\<lambda>l r. compare_versions (fst l) (fst r)) ?es"
  have latest: "vu_latest (analyze_versions cur avail pre) = map_option fst ?best"
    by (simp add: analyze_versions_def Let_def)
  have "?best = None \<longleftrightarrow> (\<forall>c \<in> set avail. skipped cur pre c)"
  proof
    assume "?best = None"
    then have "?es = []" by (simp add: entry_cmp.max_by_None_iff)
    then show "\<forall>c \<in> set avail. skipped cur pre c"
      using analyze_entries_exist [of _ cur pre avail] by (auto simp: eligible_def)
  next
    assume "\<forall>c \<in> set avail. skipped cur pre c"
    then have "?es = []" using analyze_entries [of _ _ cur avail pre]
      by (cases ?es) (auto simp: eligible_def)
    then show "?best = None" by (simp add: entry_cmp.max_by_None_iff)
  qed
  moreover have "v \<in> set avail \<and> compare_versions v cur = Greater \<and> (is_prerelease v \<longrightarrow> pre) \<and>
      (\<forall>c \<in> set avail. \<not> skipped cur pre c \<longrightarrow> compare_versions c v \<noteq> Greater)"
    if "?best = Some (v, ch)" for v ch
  proof -
    note best = entry_cmp.max_by_Some [OF that]
    from analyze_entries [OF best(1)] have v: "v \<in> set (eligible cur pre avail)" by blast
    have "compare_versions c v \<noteq> Greater" if c: "c \<in> set (eligible cur pre avail)" for c
    proof -
      from analyze_entries_exist [OF c] obtain w ch where "(w, ch) \<in> set ?es"
        and cw: "compare_versions c w \<noteq> Greater" by blast
      with best(2) have "compare_versions w v \<noteq> Greater" by fastforce
      with cw show ?thesis by (rule version_cmp.cmp_trans)
    qed
    with v show ?thesis by (auto simp: eligible_def skipped_def)
  qed
  ultimately show ?thesis unfolding latest by auto
qed

theorem analyze_latest_witness:
  "vu_latest (analyze_versions ''1.2.3'' [''1.2.4'', ''2.0.0-M1'', ''1.3.0''] False) = Some ''1.3.0'' \<and>
   compare_versions ''1.3.0'' ''1.2.3'' = Greater"
proof -
  have "vu_latest (analyze_versions ''1.2.3'' [''1.2.4'', ''2.0.0-M1'', ''1.3.0''] False) = Some ''1.3.0''"
    by code_simp
  then show ?thesis
    using analyze_latest [of "''1.2.3''" "[''1.2.4'', ''2.0.0-M1'', ''1.3.0'']" False] by blast
qed

text \<open>
  The reported change is the kind of the reported latest version:
  the bucket of that kind holds the latest version, and the kind \<open>Other\<close> is reported only when
  the current or the latest version does not start with a number.
\<close>

theorem analyze_change:
  assumes "vu_change (analyze_versions cur avail pre) = Some ch"
  shows "\<exists>v. vu_latest (analyze_versions cur avail pre) = Some v \<and>
    change_of (version_numeric cur) v = ch \<and>
    (ch = Patch \<longrightarrow> vu_patch (analyze_versions cur avail pre) = Some v) \<and>
    (ch = Minor \<longrightarrow> vu_minor (analyze_versions cur avail pre) = Some v) \<and>
    (ch = Major \<longrightarrow> vu_major (analyze_versions cur avail pre) = Some v) \<and>
    (ch = Other \<longrightarrow> version_numeric cur = None \<or> version_numeric v = None)"
proof -
  let ?b = "scan_versions cur avail pre"
  from assms obtain v
    where best: "max_by (\<lambda>l r. compare_versions (fst l) (fst r)) (bucket_entries ?b) = Some (v, ch)"
    by (auto simp: analyze_versions_def Let_def)
  note in_es = entry_cmp.max_by_Some(1) [OF best]
  then have "bucket ch ?b = Some v" by (simp add: set_bucket_entries)
  moreover from analyze_entries [OF in_es]
  have v: "compare_versions v cur = Greater" "change_of (version_numeric cur) v = ch"
    by (auto simp: eligible_def skipped_def)
  moreover have "version_numeric cur = None \<or> version_numeric v = None" if "ch = Other"
    using v that change_of_numeric by (cases "version_numeric cur"; cases "version_numeric v") auto
  ultimately show ?thesis
    using best by (intro exI [of _ v]) (auto simp: analyze_versions_def Let_def bucket_def)
qed

theorem analyze_change_witness:
  "vu_change (analyze_versions ''1.2.3'' [''1.2.4'', ''1.3.0''] False) = Some Minor \<and>
   (\<exists>v. vu_latest (analyze_versions ''1.2.3'' [''1.2.4'', ''1.3.0''] False) = Some v \<and>
      vu_minor (analyze_versions ''1.2.3'' [''1.2.4'', ''1.3.0''] False) = Some v)"
proof -
  have "vu_change (analyze_versions ''1.2.3'' [''1.2.4'', ''1.3.0''] False) = Some Minor"
    by code_simp
  then show ?thesis using analyze_change [of "''1.2.3''" "[''1.2.4'', ''1.3.0'']" False] by blast
qed

end
