(* ===== verification/Collections.thy ===== *)
theory Collections
  imports Rust_Str
begin

text \<open>
  The collections of the standard library that the program iterates over. A \<open>BTreeMap\<close> is the
  list of its entries in key order, a \<open>BTreeSet\<close> the list of its elements in order; the
  operations keep that order. A \<open>HashMap\<close> that is only looked up is a partial function.
  The locale \<open>keyed_store\<close> states the contract of a list of items with a key, where an insertion
  replaces the item of the same key.
\<close>

section \<open>BTreeMap\<close>

type_synonym ('k, 'v) btree_map = "('k \<times> 'v) list"

definition bt_get :: "('k, 'v) btree_map \<Rightarrow> 'k \<Rightarrow> 'v option" where
  "bt_get m k = map_of m k"

definition bt_keys :: "('k, 'v) btree_map \<Rightarrow> 'k list" where
  "bt_keys m = map fst m"

definition bt_contains :: "('k, 'v) btree_map \<Rightarrow> 'k \<Rightarrow> bool" where
  "bt_contains m k \<longleftrightarrow> bt_get m k \<noteq> None"

fun bt_insert :: "'k::linorder \<Rightarrow> 'v \<Rightarrow> ('k, 'v) btree_map \<Rightarrow> ('k, 'v) btree_map" where
  "bt_insert k v [] = [(k, v)]"
| "bt_insert k v ((k', v') # m) =
     (if k < k' then (k, v) # (k', v') # m
      else if k = k' then (k, v) # m
      else (k', v') # bt_insert k v m)"

definition bt_extend :: "('k::linorder, 'v) btree_map \<Rightarrow> ('k \<times> 'v) list \<Rightarrow> ('k, 'v) btree_map" where
  "bt_extend m es = fold (\<lambda>(k, v). bt_insert k v) es m"

definition bt_of_list :: "('k::linorder \<times> 'v) list \<Rightarrow> ('k, 'v) btree_map" where
  "bt_of_list es = bt_extend [] es"

text \<open>\<open>map.entry(k).or_insert(v)\<close>.\<close>

definition bt_or_insert :: "'k::linorder \<Rightarrow> 'v \<Rightarrow> ('k, 'v) btree_map \<Rightarrow> ('k, 'v) btree_map" where
  "bt_or_insert k v m = (if bt_contains m k then m else bt_insert k v m)"

definition bt_map_values :: "('v \<Rightarrow> 'w) \<Rightarrow> ('k, 'v) btree_map \<Rightarrow> ('k, 'w) btree_map" where
  "bt_map_values f m = map (\<lambda>(k, v). (k, f v)) m"

definition bt_wf :: "('k::linorder, 'v) btree_map \<Rightarrow> bool" where
  "bt_wf m \<longleftrightarrow> sorted_wrt (<) (bt_keys m)"

lemma bt_get_insert [simp]: "bt_get (bt_insert k v m) = (bt_get m)(k \<mapsto> v)"
  by (induction m) (auto simp: bt_get_def fun_eq_iff)

lemma bt_get_Nil [simp]: "bt_get [] k = None"
  by (simp add: bt_get_def)

lemma bt_keys_insert: "set (bt_keys (bt_insert k v m)) = insert k (set (bt_keys m))"
  by (induction k v m rule: bt_insert.induct) (simp_all add: bt_keys_def insert_commute)

lemma bt_wf_Nil [simp, intro]: "bt_wf []"
  by (simp add: bt_wf_def bt_keys_def)

lemma bt_wf_insert [simp, intro]: "bt_wf m \<Longrightarrow> bt_wf (bt_insert k v m)"
proof (induction m)
  case (Cons e m)
  obtain k' v' where e: "e = (k', v')" by (cases e)
  from Cons.prems have m: "bt_wf m" and lt: "\<forall>x \<in> set (bt_keys m). k' < x"
    by (auto simp: bt_wf_def bt_keys_def e)
  have "bt_wf ((k', v') # bt_insert k v m)" if "k' < k"
    using Cons.IH [OF m] lt that bt_keys_insert [of k v m]
    by (auto simp: bt_wf_def bt_keys_def)
  with m lt show ?case
    by (auto simp: e bt_wf_def bt_keys_def intro: less_trans)
qed (simp add: bt_wf_def bt_keys_def)

lemma bt_wf_extend [simp, intro]: "bt_wf m \<Longrightarrow> bt_wf (bt_extend m es)"
  by (induction es arbitrary: m) (auto simp: bt_extend_def split: prod.splits)

lemma bt_wf_or_insert [simp, intro]: "bt_wf m \<Longrightarrow> bt_wf (bt_or_insert k v m)"
  by (simp add: bt_or_insert_def)

lemma bt_keys_map_values [simp]: "bt_keys (bt_map_values f m) = bt_keys m"
  by (auto simp: bt_keys_def bt_map_values_def)

lemma bt_wf_map_values [simp]: "bt_wf (bt_map_values f m) \<longleftrightarrow> bt_wf m"
  by (simp add: bt_wf_def)

lemma bt_get_map_values [simp]: "bt_get (bt_map_values f m) k = map_option f (bt_get m k)"
  by (auto simp: bt_get_def bt_map_values_def map_of_map [symmetric] comp_def)
     (induction m, auto)

lemma bt_get_extend: "bt_get (bt_extend m es) = bt_get m ++ map_of (rev es)"
  by (induction es arbitrary: m) (auto simp: bt_extend_def fun_eq_iff map_add_def split: option.splits)

lemma bt_get_or_insert:
  "bt_get (bt_or_insert k v m) k' =
     (if k' = k then Some (case bt_get m k of None \<Rightarrow> v | Some w \<Rightarrow> w) else bt_get m k')"
  by (auto simp: bt_or_insert_def bt_contains_def)

lemma bt_contains_iff: "bt_contains m k \<longleftrightarrow> k \<in> set (bt_keys m)"
  by (auto simp: bt_contains_def bt_get_def bt_keys_def map_of_eq_None_iff)

lemma bt_in_set_get: "bt_wf m \<Longrightarrow> (k, v) \<in> set m \<longleftrightarrow> bt_get m k = Some v"
proof -
  assume "bt_wf m"
  then have "distinct (map fst m)" by (simp add: bt_wf_def bt_keys_def strict_sorted_iff)
  then show ?thesis by (simp add: bt_get_def)
qed

lemma bt_get_in_set: "bt_get m k = Some v \<Longrightarrow> (k, v) \<in> set m"
  by (simp add: bt_get_def map_of_SomeD)

section \<open>BTreeSet\<close>

text \<open>\<open>BTreeSet::insert\<close> is the library's \<open>insort_insert\<close> (insertion of an absent element).\<close>

definition bs_insert :: "'a::linorder \<Rightarrow> 'a list \<Rightarrow> 'a list" where
  "bs_insert x xs = insort_insert x xs"

definition bs_of_list :: "'a::linorder list \<Rightarrow> 'a list" where
  "bs_of_list xs = fold bs_insert xs []"

definition bs_wf :: "'a::linorder list \<Rightarrow> bool" where
  "bs_wf xs \<longleftrightarrow> sorted xs \<and> distinct xs"

lemma bs_wf_Nil [simp, intro]: "bs_wf []"
  by (simp add: bs_wf_def)

lemma set_bs_insert [simp]: "set (bs_insert x xs) = insert x (set xs)"
  by (auto simp: bs_insert_def set_insort_insert)

lemma bs_wf_insert [simp, intro]: "bs_wf xs \<Longrightarrow> bs_wf (bs_insert x xs)"
  by (auto simp: bs_insert_def bs_wf_def sorted_insort_insert distinct_insort_insert)

lemma bs_insert_absorb: "x \<in> set xs \<Longrightarrow> bs_insert x xs = xs"
  by (simp add: bs_insert_def insort_insert_triv)

lemma fold_bs_insert:
  "bs_wf ys \<Longrightarrow> bs_wf (fold bs_insert xs ys) \<and> set (fold bs_insert xs ys) = set xs \<union> set ys"
  by (induction xs arbitrary: ys) auto

lemma set_bs_of_list [simp]: "set (bs_of_list xs) = set xs"
  using fold_bs_insert [of "[]" xs] by (simp add: bs_of_list_def)

lemma bs_wf_of_list [simp, intro]: "bs_wf (bs_of_list xs)"
  using fold_bs_insert [of "[]" xs] by (simp add: bs_of_list_def)

lemma bs_of_list_sort_dedup: "bs_of_list xs = sort_dedup xs"
  by (rule sorted_distinct_set_unique)
     (use bs_wf_of_list [of xs] in \<open>simp_all add: bs_wf_def distinct_sort_dedup\<close>)

section \<open>Stores of keyed items\<close>

text \<open>
  A store holds items in a sequence, at most one current item per key. \<open>put\<close> replaces the
  item of the same key in place, or appends. The abstraction is the lookup by key together
  with the sequence of keys. \<open>ok\<close> is the store's well-formedness.
\<close>

locale keyed_store =
  fixes key_of :: "'a \<Rightarrow> 'k"
    and items :: "'s \<Rightarrow> 'a list"
    and put :: "'a \<Rightarrow> 's \<Rightarrow> 's"
    and find_key :: "'s \<Rightarrow> 'k \<Rightarrow> 'a option"
    and ok :: "'s \<Rightarrow> bool"
  assumes find_key_items: "ok s \<Longrightarrow> find_key s k = List.find (\<lambda>x. key_of x = k) (items s)"
    and ok_put: "ok s \<Longrightarrow> ok (put x s)"
    and find_key_put: "ok s \<Longrightarrow> find_key (put x s) k = (if k = key_of x then Some x else find_key s k)"
    and keys_put: "ok s \<Longrightarrow> map key_of (items (put x s)) =
        (if key_of x \<in> key_of ` set (items s) then map key_of (items s)
         else map key_of (items s) @ [key_of x])"
begin

lemma ok_fold_put: "ok s \<Longrightarrow> ok (fold put xs s)"
  by (induction xs arbitrary: s) (auto simp: ok_put)

text \<open>Of several items with one key the last one stays; other keys keep their item.\<close>

lemma find_key_fold_put:
  "ok s \<Longrightarrow> find_key (fold put xs s) k =
     (case List.find (\<lambda>x. key_of x = k) (rev xs) of Some x \<Rightarrow> Some x | None \<Rightarrow> find_key s k)"
proof (induction xs arbitrary: s)
  case (Cons x xs)
  have *: "List.find P (ys @ zs) = (case List.find P ys of Some y \<Rightarrow> Some y | None \<Rightarrow> List.find P zs)"
    for P :: "'a \<Rightarrow> bool" and ys zs
    by (induction ys) auto
  show ?case using Cons.prems Cons.IH [of "put x s"]
    by (auto simp: ok_put find_key_put * split: option.splits)
qed simp

text \<open>Existing keys keep their place, and a key is never duplicated.\<close>

lemma keys_fold_put_prefix:
  "ok s \<Longrightarrow> \<exists>ks. map key_of (items (fold put xs s)) = map key_of (items s) @ ks"
proof (induction xs arbitrary: s)
  case (Cons x xs)
  obtain ks where "map key_of (items (fold put xs (put x s))) = map key_of (items (put x s)) @ ks"
    using Cons.IH [OF ok_put [OF Cons.prems]] by blast
  moreover obtain ks' where "map key_of (items (put x s)) = map key_of (items s) @ ks'"
    using keys_put [OF Cons.prems, of x] by (cases "key_of x \<in> key_of ` set (items s)") simp_all
  ultimately show ?case by simp
qed simp

lemma distinct_keys_fold_put:
  "ok s \<Longrightarrow> distinct (map key_of (items s)) \<Longrightarrow> distinct (map key_of (items (fold put xs s)))"
proof (induction xs arbitrary: s)
  case (Cons x xs)
  from Cons.prems have "distinct (map key_of (items (put x s)))"
    by (auto simp: keys_put)
  with Cons.IH [OF ok_put [OF Cons.prems(1)]] show ?case by simp
qed simp

lemma set_keys_fold_put:
  "ok s \<Longrightarrow> key_of ` set (items (fold put xs s)) = key_of ` set (items s) \<union> key_of ` set xs"
proof (induction xs arbitrary: s)
  case (Cons x xs)
  have "key_of ` set (items (put x s)) = insert (key_of x) (key_of ` set (items s))"
    using arg_cong [OF keys_put [OF Cons.prems, of x], of set] by auto
  with Cons.IH [OF ok_put [OF Cons.prems]] show ?case by simp
qed simp

lemma find_key_in_items: "ok s \<Longrightarrow> find_key s k = Some x \<Longrightarrow> x \<in> set (items s) \<and> key_of x = k"
  by (auto simp: find_key_items dest: find_Some_in)

lemma find_key_None_iff: "ok s \<Longrightarrow> find_key s k = None \<longleftrightarrow> k \<notin> key_of ` set (items s)"
  by (auto simp: find_key_items find_None_all)

lemma find_key_of_item:
  "ok s \<Longrightarrow> distinct (map key_of (items s)) \<Longrightarrow> x \<in> set (items s) \<Longrightarrow> find_key s (key_of x) = Some x"
proof -
  assume "ok s" "distinct (map key_of (items s))" "x \<in> set (items s)"
  then obtain y where y: "find_key s (key_of x) = Some y"
    using find_key_None_iff by fastforce
  with \<open>ok s\<close> have "y \<in> set (items s)" "key_of y = key_of x" by (auto dest: find_key_in_items)
  with \<open>distinct _\<close> \<open>x \<in> _\<close> have "y = x" by (metis distinct_map inj_on_def)
  with y show ?thesis by simp
qed

text \<open>Every item of the result was there or was put.\<close>

lemma items_fold_put:
  assumes "ok s" and "distinct (map key_of (items s))" and "x \<in> set (items (fold put xs s))"
  shows "x \<in> set (items s) \<union> set xs"
proof -
  have "find_key (fold put xs s) (key_of x) = Some x"
    using assms by (intro find_key_of_item ok_fold_put distinct_keys_fold_put)
  with assms(1) show ?thesis
    by (auto simp: find_key_fold_put dest: find_Some_in find_key_in_items split: option.splits)
qed

end

text \<open>A store that can also insert an item only where its key is free.\<close>

locale keyed_store_absent = keyed_store +
  fixes put_absent :: "'a \<Rightarrow> 's \<Rightarrow> 's"
  assumes ok_put_absent: "ok s \<Longrightarrow> ok (put_absent x s)"
    and put_absent_def: "ok s \<Longrightarrow> put_absent x s =
        (if find_key s (key_of x) = None then put x s else s)"
begin

lemma ok_fold_put_absent: "ok s \<Longrightarrow> ok (fold put_absent xs s)"
  by (induction xs arbitrary: s) (auto simp: ok_put_absent)

text \<open>Of several items with one key the first one stays.\<close>

lemma find_key_fold_put_absent:
  "ok s \<Longrightarrow> find_key (fold put_absent xs s) k =
     (case find_key s k of Some x \<Rightarrow> Some x | None \<Rightarrow> List.find (\<lambda>x. key_of x = k) xs)"
proof (induction xs arbitrary: s)
  case (Cons x xs)
  show ?case using Cons.prems Cons.IH [OF ok_put_absent [OF Cons.prems, of x]]
    by (auto simp: put_absent_def find_key_put split: option.splits)
qed (simp split: option.splits)

lemma distinct_keys_fold_put_absent:
  "ok s \<Longrightarrow> distinct (map key_of (items s)) \<Longrightarrow> distinct (map key_of (items (fold put_absent xs s)))"
proof (induction xs arbitrary: s)
  case (Cons x xs)
  from Cons.prems have "distinct (map key_of (items (put_absent x s)))"
    by (auto simp: put_absent_def keys_put)
  with Cons.IH [OF ok_put_absent [OF Cons.prems(1)]] show ?case by simp
qed simp

end

end
