(* ===== verification/Rust_Path.thy ===== *)
theory Rust_Path
  imports Rust_Str
begin

text \<open>
  \<open>std::path\<close> on Unix. A path is the list of its components, which is what equality,
  \<open>parent\<close>, \<open>join\<close>, \<open>starts_with\<close> and \<open>ends_with\<close> of the standard library look at: repeated
  and trailing slashes vanish, and a dot is kept only at the front.
\<close>

datatype component = RootDir | CurDir | ParentDir | Normal (normal_name: str)

type_synonym path = "component list"

text \<open>\<open>Ord\<close> of a component is the order of its constructors, names by their bytes.\<close>

definition component_key :: "component \<Rightarrow> str" where
  "component_key c =
     (case c of RootDir \<Rightarrow> [CHR 0x00] | CurDir \<Rightarrow> [CHR 0x01] | ParentDir \<Rightarrow> [CHR 0x02]
      | Normal s \<Rightarrow> CHR 0x03 # s)"

lemma component_key_inj: "component_key c = component_key d \<longleftrightarrow> c = d"
  by (auto simp: component_key_def split: component.splits)

instantiation component :: linorder
begin

definition less_eq_component :: "component \<Rightarrow> component \<Rightarrow> bool" where
  "less_eq_component c d \<longleftrightarrow> component_key c \<le> component_key d"

definition less_component :: "component \<Rightarrow> component \<Rightarrow> bool" where
  "less_component c d \<longleftrightarrow> component_key c < component_key d"

instance
  by standard
    (auto simp: less_eq_component_def less_component_def less_le_not_le
      simp flip: component_key_inj)

end

definition component_of :: "str \<Rightarrow> component" where
  "component_of s = (if s = ''..'' then ParentDir else Normal s)"

text \<open>\<open>Path::new(s).components()\<close>.\<close>

definition path_of :: "str \<Rightarrow> path" where
  "path_of s =
     (let parts = split_char (CHR ''/'') s;
          names = map component_of (filter (\<lambda>p. p \<noteq> [] \<and> p \<noteq> ''.'') parts)
      in if starts_with ''/'' s then RootDir # names
         else if hd parts = ''.'' then CurDir # names
         else names)"

definition is_absolute :: "path \<Rightarrow> bool" where
  "is_absolute p \<longleftrightarrow> p \<noteq> [] \<and> hd p = RootDir"

definition path_join :: "path \<Rightarrow> path \<Rightarrow> path" where
  "path_join p q =
     (if is_absolute q then q else if p = [] then q else p @ filter (\<lambda>c. c \<noteq> CurDir) q)"

definition path_parent :: "path \<Rightarrow> path option" where
  "path_parent p = (if p = [] \<or> last p = RootDir then None else Some (butlast p))"

definition path_file_name :: "path \<Rightarrow> str option" where
  "path_file_name p =
     (if p = [] then None else case last p of Normal s \<Rightarrow> Some s | _ \<Rightarrow> None)"

definition path_starts_with :: "path \<Rightarrow> path \<Rightarrow> bool" where
  "path_starts_with p base \<longleftrightarrow> prefix base p"

definition path_ends_with :: "path \<Rightarrow> path \<Rightarrow> bool" where
  "path_ends_with p tail \<longleftrightarrow> suffix tail p"

text \<open>\<open>Path::ancestors\<close>: the path itself, its parent, and so on.\<close>

function path_ancestors :: "path \<Rightarrow> path list" where
  "path_ancestors p = p # (case path_parent p of None \<Rightarrow> [] | Some q \<Rightarrow> path_ancestors q)"
  by pat_completeness auto
termination
  by (relation "measure length") (auto simp: path_parent_def split: if_splits)

declare path_ancestors.simps [simp del]

text \<open>\<open>Display\<close> of a path.\<close>

fun show_component :: "component \<Rightarrow> str" where
  "show_component RootDir = []"
| "show_component CurDir = ''.''"
| "show_component ParentDir = ''..''"
| "show_component (Normal s) = s"

definition show_path :: "path \<Rightarrow> str" where
  "show_path p = (if p = [RootDir] then ''/'' else join_with ''/'' (map show_component p))"

text \<open>A path that stays below the directory it is joined to.\<close>

definition stays_inside :: "path \<Rightarrow> bool" where
  "stays_inside p \<longleftrightarrow> \<not> is_absolute p \<and> ParentDir \<notin> set p"

lemma path_ancestors_prefix: "q \<in> set (path_ancestors p) \<Longrightarrow> prefix q p"
proof (induction p rule: path_ancestors.induct)
  case (1 p)
  show ?case
  proof (cases "path_parent p")
    case None
    with "1.prems" show ?thesis by (simp add: path_ancestors.simps [of p])
  next
    case (Some r)
    then have "prefix r p"
      by (auto simp: path_parent_def split: if_splits) (metis append_butlast_last_id prefixI)
    with Some 1 show ?thesis
      by (auto simp: path_ancestors.simps [of p] dest: prefix_order.trans)
  qed
qed

lemma path_ancestors_length:
  "i < length (path_ancestors p) \<Longrightarrow> length (path_ancestors p ! i) + i = length p"
proof (induction p arbitrary: i rule: path_ancestors.induct)
  case (1 p)
  show ?case
  proof (cases "path_parent p")
    case None
    with "1.prems" show ?thesis by (simp add: path_ancestors.simps [of p])
  next
    case (Some q)
    then have "length q + 1 = length p" by (auto simp: path_parent_def split: if_splits)
    with Some 1 show ?thesis
      by (cases i) (auto simp: path_ancestors.simps [of p])
  qed
qed

lemma join_stays_inside:
  "stays_inside q \<Longrightarrow> path_starts_with (path_join p q) p"
  by (auto simp: stays_inside_def path_starts_with_def path_join_def)

text \<open>A name that is one component of a path.\<close>

definition proper_name :: "str \<Rightarrow> bool" where
  "proper_name s \<longleftrightarrow> s \<notin> {[], ''.'', ''..''} \<and> CHR ''/'' \<notin> set s"

lemma path_of_joined:
  assumes "ws \<noteq> []" "\<forall>w \<in> set ws. proper_name w"
  shows "path_of (join_with ''/'' ws) = map Normal ws"
proof -
  have split: "split_char (CHR ''/'') (join_with ''/'' ws) = ws"
    using assms by (intro split_char_join) (auto simp: proper_name_def)
  obtain w vs where ws: "ws = w # vs" using assms(1) by (cases ws) auto
  then have w: "w \<noteq> []" "CHR ''/'' \<notin> set w" "w \<noteq> ''.''" using assms(2) by (simp_all add: proper_name_def)
  then obtain c cs where "w = c # cs" "c \<noteq> CHR ''/''" by (cases w) auto
  then have "\<not> starts_with ''/'' (join_with ''/'' ws)" by (cases vs) (simp_all add: ws)
  moreover have "filter (\<lambda>p. p \<noteq> [] \<and> p \<noteq> ''.'') ws = ws"
    using assms(2) by (auto simp: proper_name_def filter_id_conv)
  moreover have "map component_of ws = map Normal ws"
    using assms(2) by (auto simp: proper_name_def component_of_def)
  moreover have "hd ws \<noteq> ''.''" using w(3) ws by simp
  ultimately show ?thesis by (simp add: path_of_def split Let_def)
qed

lemma path_of_name: "proper_name s \<Longrightarrow> path_of s = [Normal s]"
  using path_of_joined [of "[s]"] by simp

lemma path_join_name: "path_join p [Normal n] = p @ [Normal n]"
  by (simp add: path_join_def is_absolute_def)

end
