(* ===== verification/Model.thy ===== *)
theory Model
  imports Rust_Num Collections Rust_Path
begin

text \<open>
  The Maven data model of \<open>crates/jman-resolver/src/model.rs\<close> and the error type of
  \<open>lib.rs\<close>: coordinates with their textual notation, management keys and repository paths,
  dependencies, raw and effective POMs. Errors of other crates (HTTP, XML, UTF-8, I/O) are
  carried as strings.
\<close>

section \<open>Errors\<close>

datatype resolver_error =
    InvalidPom str
  | InvalidMetadata str
  | InvalidCoordinate str
  | MissingVersion str
  | UnresolvedProperty (unresolved_name: str) (unresolved_value: str)
  | ModelCycle str
  | ModelContext (context_coordinate: str) (context_source: resolver_error)
  | BackgroundTask str
  | RequestError (request_url: str) (request_source: str)
  | HttpStatus (status_url: str) (status_code: nat)
  | OfflineMiss str
  | CacheError (cache_error_path: str) (cache_error_source: str)

type_synonym 'a resolved = "(resolver_error, 'a) result"

section \<open>Coordinates\<close>

record coordinate =
  c_group :: str
  c_artifact :: str
  c_version :: str
  c_extension :: str
  c_classifier :: "str option"

definition coordinate_pom :: "str \<Rightarrow> str \<Rightarrow> str \<Rightarrow> coordinate" where
  "coordinate_pom g a v =
     \<lparr>c_group = g, c_artifact = a, c_version = v, c_extension = ''pom'', c_classifier = None\<rparr>"

definition coordinate_jar :: "str \<Rightarrow> str \<Rightarrow> str \<Rightarrow> coordinate" where
  "coordinate_jar g a v =
     \<lparr>c_group = g, c_artifact = a, c_version = v, c_extension = ''jar'', c_classifier = None\<rparr>"

definition coordinate_parse :: "str \<Rightarrow> coordinate resolved" where
  "coordinate_parse value =
     (let parts = split_char (CHR '':'') value;
          nonempty = list_all (\<lambda>p. p \<noteq> []) parts
      in case parts of
           [g, a, v] \<Rightarrow>
             if nonempty then Inr (coordinate_jar g a v) else Inl (InvalidCoordinate value)
         | [g, a, e, v] \<Rightarrow>
             if nonempty
             then Inr \<lparr>c_group = g, c_artifact = a, c_version = v, c_extension = e,
                       c_classifier = None\<rparr>
             else Inl (InvalidCoordinate value)
         | [g, a, e, c, v] \<Rightarrow>
             if nonempty
             then Inr \<lparr>c_group = g, c_artifact = a, c_version = v, c_extension = e,
                       c_classifier = Some c\<rparr>
             else Inl (InvalidCoordinate value)
         | _ \<Rightarrow> Inl (InvalidCoordinate value))"

definition ga_of :: "str \<Rightarrow> str \<Rightarrow> str" where
  "ga_of g a = g @ '':'' @ a"

definition coordinate_ga :: "coordinate \<Rightarrow> str" where
  "coordinate_ga c = ga_of (c_group c) (c_artifact c)"

definition or_empty :: "str option \<Rightarrow> str" where
  "or_empty m = (case m of None \<Rightarrow> [] | Some s \<Rightarrow> s)"

definition coordinate_management_key :: "coordinate \<Rightarrow> str" where
  "coordinate_management_key c =
     join_with '':'' [c_group c, c_artifact c, c_extension c, or_empty (c_classifier c)]"

definition classifier_suffix :: "str option \<Rightarrow> str" where
  "classifier_suffix m = (case m of None \<Rightarrow> [] | Some c \<Rightarrow> ''-'' @ c)"

definition repository_path :: "coordinate \<Rightarrow> str" where
  "repository_path c =
     replace_all ''.'' ''/'' (c_group c) @ ''/'' @ c_artifact c @ ''/'' @ c_version c @ ''/''
       @ c_artifact c @ ''-'' @ c_version c @ classifier_suffix (c_classifier c)
       @ ''.'' @ c_extension c"

text \<open>\<open>impl fmt::Display for Coordinate\<close>.\<close>

definition coordinate_display :: "coordinate \<Rightarrow> str" where
  "coordinate_display c =
     (case c_classifier c of
        None \<Rightarrow>
          (if c_extension c = ''jar''
           then join_with '':'' [c_group c, c_artifact c, c_version c]
           else join_with '':'' [c_group c, c_artifact c, c_extension c, c_version c])
      | Some cl \<Rightarrow> join_with '':'' [c_group c, c_artifact c, c_extension c, cl, c_version c])"

section \<open>Dependencies\<close>

record exclusion =
  x_group :: str
  x_artifact :: str

record dependency =
  d_group :: str
  d_artifact :: str
  d_version :: "str option"
  d_scope :: str
  d_scope_explicit :: bool
  d_type :: str
  d_type_explicit :: bool
  d_classifier :: "str option"
  d_optional :: "bool option"
  d_exclusions :: "exclusion list"

definition exclusion_matches :: "exclusion \<Rightarrow> dependency \<Rightarrow> bool" where
  "exclusion_matches x d \<longleftrightarrow>
     (x_group x = ''*'' \<or> x_group x = d_group d) \<and>
     (x_artifact x = ''*'' \<or> x_artifact x = d_artifact d)"

definition dependency_ga :: "dependency \<Rightarrow> str" where
  "dependency_ga d = ga_of (d_group d) (d_artifact d)"

definition management_key :: "dependency \<Rightarrow> str" where
  "management_key d =
     join_with '':'' [d_group d, d_artifact d, d_type d, or_empty (d_classifier d)]"

definition type_to_extension :: "str \<Rightarrow> str" where
  "type_to_extension t =
     (if t \<in> {''test-jar'', ''bundle'', ''maven-plugin'', ''ejb''} then ''jar'' else t)"

definition dependency_coordinate :: "dependency \<Rightarrow> coordinate resolved" where
  "dependency_coordinate d =
     (case d_version d of
        None \<Rightarrow> Inl (MissingVersion (dependency_ga d))
      | Some v \<Rightarrow>
          Inr \<lparr>c_group = d_group d, c_artifact = d_artifact d, c_version = v,
               c_extension = type_to_extension (d_type d),
               c_classifier =
                 (case d_classifier d of
                    Some c \<Rightarrow> Some c
                  | None \<Rightarrow> if d_type d = ''test-jar'' then Some ''tests'' else None)\<rparr>)"

section \<open>Projects\<close>

record parent =
  p_group :: str
  p_artifact :: str
  p_version :: str
  p_relative_path :: "str option"

record repository =
  r_id :: str
  r_url :: str
  r_releases_enabled :: bool
  r_snapshots_enabled :: bool

record annotation_processor =
  ap_dependency :: dependency

record relocation =
  rel_group :: "str option"
  rel_artifact :: "str option"
  rel_version :: "str option"

record raw_pom =
  raw_model_version :: "str option"
  raw_parent :: "parent option"
  raw_group :: "str option"
  raw_artifact :: str
  raw_version :: "str option"
  raw_packaging :: str
  raw_modules :: "str list"
  raw_properties :: "(str, str) btree_map"
  raw_dependencies :: "dependency list"
  raw_management :: "dependency list"
  raw_repositories :: "repository list"
  raw_processors :: "annotation_processor list"
  raw_compiler_args :: "str list"
  raw_relocation :: "relocation option"

record effective_pom =
  e_coordinate :: coordinate
  e_parent :: "coordinate option"
  e_packaging :: str
  e_modules :: "str list"
  e_property_templates :: "(str, str) btree_map"
  e_properties :: "(str, str) btree_map"
  e_dependencies :: "dependency list"
  e_management :: "dependency list"
  e_bom_imports :: "coordinate list"
  e_repositories :: "repository list"
  e_processors :: "annotation_processor list"
  e_compiler_args :: "str list"
  e_relocation :: "coordinate option"

record maven_project =
  mp_source :: path
  mp_effective :: effective_pom

section \<open>Textual notation\<close>

definition plain_part :: "str \<Rightarrow> bool" where
  "plain_part s \<longleftrightarrow> s \<noteq> [] \<and> CHR '':'' \<notin> set s"

definition plain_coordinate :: "coordinate \<Rightarrow> bool" where
  "plain_coordinate c \<longleftrightarrow>
     plain_part (c_group c) \<and> plain_part (c_artifact c) \<and> plain_part (c_version c) \<and>
     plain_part (c_extension c) \<and> (case c_classifier c of None \<Rightarrow> True | Some cl \<Rightarrow> plain_part cl)"

lemma plain_parts:
  "plain_part s \<longleftrightarrow> s \<noteq> [] \<and> CHR '':'' \<notin> set s"
  by (simp add: plain_part_def)

lemma split_display:
  assumes "plain_coordinate c"
  shows "split_char (CHR '':'') (coordinate_display c) =
     (case c_classifier c of
        None \<Rightarrow> if c_extension c = ''jar'' then [c_group c, c_artifact c, c_version c]
               else [c_group c, c_artifact c, c_extension c, c_version c]
      | Some cl \<Rightarrow> [c_group c, c_artifact c, c_extension c, cl, c_version c])"
  using assms unfolding coordinate_display_def
  by (auto simp: plain_coordinate_def plain_part_def simp del: join_with.simps
      split: option.splits intro!: split_char_join)

lemma parse_parts:
  assumes "coordinate_parse s = Inr c"
  shows "plain_coordinate c \<and>
    (split_char (CHR '':'') s = [c_group c, c_artifact c, c_version c] \<and>
       c_extension c = ''jar'' \<and> c_classifier c = None \<or>
     split_char (CHR '':'') s = [c_group c, c_artifact c, c_extension c, c_version c] \<and>
       c_classifier c = None \<or>
     (\<exists>cl. c_classifier c = Some cl \<and>
       split_char (CHR '':'') s = [c_group c, c_artifact c, c_extension c, cl, c_version c]))"
proof -
  have no_sep: "CHR '':'' \<notin> set p" if "p \<in> set (split_char (CHR '':'') s)" for p
    using split_by_no_sep [OF that] by blast
  from assms show ?thesis
    unfolding coordinate_parse_def Let_def
    by (auto simp: plain_coordinate_def plain_part_def coordinate_jar_def no_sep
        split: list.splits if_splits)
qed

section \<open>Keys\<close>

lemma append_sep_inject:
  fixes a :: char
  shows "a \<notin> set x \<Longrightarrow> a \<notin> set y \<Longrightarrow> x @ a # u = y @ a # v \<longleftrightarrow> x = y \<and> u = v"
  using split_once_Some [of a "x @ a # u" x u] split_once_Some [of a "x @ a # u" y v] by auto

text \<open>
  The key of a dependency stands for its group, artifact, type and classifier. An absent
  classifier and an empty one share a key.
\<close>

definition colon_free :: "dependency \<Rightarrow> bool" where
  "colon_free d \<longleftrightarrow> CHR '':'' \<notin> set (d_group d @ d_artifact d @ d_type d)"

lemma management_key_eq_iff:
  assumes "CHR '':'' \<notin> set (d_group d)" "CHR '':'' \<notin> set (d_group d')"
    and "CHR '':'' \<notin> set (d_artifact d)" "CHR '':'' \<notin> set (d_artifact d')"
    and "CHR '':'' \<notin> set (d_type d)" "CHR '':'' \<notin> set (d_type d')"
  shows "management_key d = management_key d' \<longleftrightarrow>
    d_group d = d_group d' \<and> d_artifact d = d_artifact d' \<and> d_type d = d_type d' \<and>
    or_empty (d_classifier d) = or_empty (d_classifier d')"
  using assms by (simp add: management_key_def append_sep_inject)

section \<open>Repository paths\<close>

definition path_part :: "str \<Rightarrow> bool" where
  "path_part s \<longleftrightarrow> CHR ''/'' \<notin> set s"

definition path_coordinate :: "coordinate \<Rightarrow> bool" where
  "path_coordinate c \<longleftrightarrow>
     path_part (c_group c) \<and> path_part (c_artifact c) \<and> path_part (c_version c) \<and>
     path_part (c_extension c) \<and>
     (case c_classifier c of None \<Rightarrow> True | Some cl \<Rightarrow> path_part cl \<and> CHR ''.'' \<notin> set cl)"

lemma group_path: "replace_all ''.'' ''/'' g = map (\<lambda>c. if c = CHR ''.'' then CHR ''/'' else c) g"
  using replace_char [of "CHR ''.''" "CHR ''/''" g] by simp

lemma subst_map_inj:
  assumes "b \<notin> set g" "b \<notin> set h"
    and "map (\<lambda>c. if c = a then b else c) g = map (\<lambda>c. if c = a then b else c) h"
  shows "g = h"
  using assms
proof (induction g arbitrary: h)
  case (Cons x g)
  then obtain y h' where "h = y # h'" by (cases h) auto
  with Cons show ?case by (auto split: if_splits)
qed simp

lemma group_path_inj:
  assumes "path_part g" "path_part h" "replace_all ''.'' ''/'' g = replace_all ''.'' ''/'' h"
  shows "g = h"
  using subst_map_inj [of "CHR ''/''" g h "CHR ''.''"] assms
  unfolding path_part_def group_path by blast

lemma last_slash_inject:
  assumes "path_part x" "path_part y" "u @ ''/'' @ x = v @ ''/'' @ y"
  shows "u = v \<and> x = y"
proof -
  have "rsplit_once (CHR ''/'') (u @ ''/'' @ x) = Some (u, x)"
    using assms(1) by (simp add: rsplit_once_Some path_part_def)
  moreover have "rsplit_once (CHR ''/'') (v @ ''/'' @ y) = Some (v, y)"
    using assms(2) by (simp add: rsplit_once_Some path_part_def)
  ultimately have "Some (u, x) = Some (v, y)" by (simp only: assms(3))
  then show ?thesis by simp
qed

lemma classifier_tail_inject:
  assumes "case m of None \<Rightarrow> True | Some c \<Rightarrow> CHR ''.'' \<notin> set c"
    and "case n of None \<Rightarrow> True | Some c \<Rightarrow> CHR ''.'' \<notin> set c"
    and "classifier_suffix m @ ''.'' @ e = classifier_suffix n @ ''.'' @ f"
  shows "m = n \<and> e = f"
proof (cases m)
  case None
  with assms(3) show ?thesis by (cases n) (auto simp: classifier_suffix_def)
next
  case (Some c)
  with assms(3) obtain d where n: "n = Some d" by (cases n) (auto simp: classifier_suffix_def)
  with Some assms(3) have "c @ CHR ''.'' # e = d @ CHR ''.'' # f"
    by (simp add: classifier_suffix_def)
  with assms(1,2) Some n show ?thesis by (simp add: append_sep_inject)
qed

lemma path_part_append [simp]: "path_part (x @ y) \<longleftrightarrow> path_part x \<and> path_part y"
  by (auto simp: path_part_def)

lemma path_part_file_name:
  assumes "path_coordinate c"
  shows "path_part (c_artifact c @ ''-'' @ c_version c @ classifier_suffix (c_classifier c)
       @ ''.'' @ c_extension c)"
  using assms
  by (auto simp: path_coordinate_def path_part_def classifier_suffix_def split: option.splits)

lemma repository_path_unique:
  assumes c: "path_coordinate c" and d: "path_coordinate d"
    and eq: "repository_path c = repository_path d"
  shows "c = d"
proof -
  let ?file = "\<lambda>c. c_artifact c @ ''-'' @ c_version c @ classifier_suffix (c_classifier c)
       @ ''.'' @ c_extension c"
  have path: "repository_path c =
      (((replace_all ''.'' ''/'' (c_group c)) @ ''/'' @ c_artifact c) @ ''/'' @ c_version c)
        @ ''/'' @ ?file c" for c
    by (simp add: repository_path_def)
  have parts: "path_part (c_artifact x) \<and> path_part (c_version x) \<and> path_part (c_group x)"
    if "path_coordinate x" for x
    using that by (simp add: path_coordinate_def)
  from eq have 1: "((replace_all ''.'' ''/'' (c_group c)) @ ''/'' @ c_artifact c) @ ''/'' @ c_version c =
      ((replace_all ''.'' ''/'' (c_group d)) @ ''/'' @ c_artifact d) @ ''/'' @ c_version d"
    and fname: "?file c = ?file d"
    using last_slash_inject [OF path_part_file_name [OF c] path_part_file_name [OF d]
        eq [unfolded path]]
    by simp_all
  from 1 have 2: "replace_all ''.'' ''/'' (c_group c) @ ''/'' @ c_artifact c =
      replace_all ''.'' ''/'' (c_group d) @ ''/'' @ c_artifact d"
    and v: "c_version c = c_version d"
    using last_slash_inject [OF _ _ 1] parts [OF c] parts [OF d] by simp_all
  from 2 have g: "c_group c = c_group d" and a: "c_artifact c = c_artifact d"
    using last_slash_inject [OF _ _ 2] group_path_inj parts [OF c] parts [OF d] by simp_all
  from fname have "classifier_suffix (c_classifier c) @ ''.'' @ c_extension c =
      classifier_suffix (c_classifier d) @ ''.'' @ c_extension d"
    by (simp add: a v)
  moreover have "case c_classifier x of None \<Rightarrow> True | Some cl \<Rightarrow> CHR ''.'' \<notin> set cl"
    if "path_coordinate x" for x
    using that by (auto simp: path_coordinate_def split: option.splits)
  ultimately have "c_classifier c = c_classifier d \<and> c_extension c = c_extension d"
    using classifier_tail_inject c d by blast
  with g a v show ?thesis by simp
qed

section \<open>Properties\<close>

text \<open>
  The textual notation of a coordinate is exact: a string
  parses to a coordinate just when all its parts are non-empty and free of colons, and the
  string is what \<open>Display\<close> prints, or the four-part form that spells the default extension
  \<open>jar\<close> out. In particular parsing undoes printing.
\<close>

theorem coordinate_parse_iff:
  "coordinate_parse s = Inr c \<longleftrightarrow>
     plain_coordinate c \<and>
     (s = coordinate_display c \<or>
      c_extension c = ''jar'' \<and> c_classifier c = None \<and>
      s = join_with '':'' [c_group c, c_artifact c, ''jar'', c_version c])"
proof
  assume parse: "coordinate_parse s = Inr c"
  note parts = parse_parts [OF parse] and join = join_split_char [of "CHR '':''" s]
  from parts show "plain_coordinate c \<and> (s = coordinate_display c \<or>
      c_extension c = ''jar'' \<and> c_classifier c = None \<and>
      s = join_with '':'' [c_group c, c_artifact c, ''jar'', c_version c])"
    using join unfolding coordinate_display_def by (auto simp del: join_with.simps)
next
  assume r: "plain_coordinate c \<and> (s = coordinate_display c \<or>
      c_extension c = ''jar'' \<and> c_classifier c = None \<and>
      s = join_with '':'' [c_group c, c_artifact c, ''jar'', c_version c])"
  then have plain: "plain_coordinate c" by simp
  show "coordinate_parse s = Inr c"
  proof (cases "s = coordinate_display c")
    case True
    with plain show ?thesis
      by (auto simp: coordinate_parse_def split_display plain_coordinate_def plain_part_def
          coordinate_jar_def split: option.splits)
  next
    case False
    with r have jar: "c_extension c = ''jar''" "c_classifier c = None"
      and s: "s = join_with '':'' [c_group c, c_artifact c, ''jar'', c_version c]" by simp_all
    have "split_char (CHR '':'') s = [c_group c, c_artifact c, ''jar'', c_version c]"
      unfolding s using plain
      by (intro split_char_join) (auto simp: plain_coordinate_def plain_part_def)
    with plain jar show ?thesis
      by (auto simp: coordinate_parse_def plain_coordinate_def plain_part_def)
  qed
qed

text \<open>
  Coordinates whose parts hold no slash and whose
  classifier holds no dot have distinct repository paths. The in-memory cache, the download
  locks and the disk cache are all keyed by this path, so distinct artifacts never share an
  entry.
\<close>

theorem repository_path_injective:
  assumes "path_coordinate c" "path_coordinate d" "repository_path c = repository_path d"
  shows "c = d"
  using assms by (rule repository_path_unique)

theorem repository_path_injective_witness:
  "repository_path \<lparr>c_group = ''org.example'', c_artifact = ''lib'', c_version = ''1.0'',
      c_extension = ''jar'', c_classifier = Some ''tests''\<rparr> =
     ''org/example/lib/1.0/lib-1.0-tests.jar'' \<and>
   repository_path (coordinate_jar ''org.example'' ''lib'' ''1.0'') \<noteq>
     ''org/example/lib/1.0/lib-1.0-tests.jar''"
proof -
  let ?c = "\<lparr>c_group = ''org.example'', c_artifact = ''lib'', c_version = ''1.0'',
      c_extension = ''jar'', c_classifier = Some ''tests''\<rparr>"
  let ?d = "coordinate_jar ''org.example'' ''lib'' ''1.0''"
  have c: "repository_path ?c = ''org/example/lib/1.0/lib-1.0-tests.jar''"
    by (simp add: repository_path_def group_path classifier_suffix_def)
  have "path_coordinate ?c" "path_coordinate ?d"
    by (simp_all add: path_coordinate_def path_part_def coordinate_jar_def)
  then have "repository_path ?d = repository_path ?c \<Longrightarrow> ?d = ?c"
    using repository_path_injective [of ?d ?c] by blast
  then show ?thesis using c by (auto simp: coordinate_jar_def)
qed

text \<open>
  Two dependencies share a management key, the key of
  mediation and of dependency management, exactly when they agree on group, artifact, type
  and classifier (an absent classifier counts as the empty one), provided the parts hold no
  colon.
\<close>

theorem management_key_identity:
  assumes "colon_free d" "colon_free d'"
  shows "management_key d = management_key d' \<longleftrightarrow>
    d_group d = d_group d' \<and> d_artifact d = d_artifact d' \<and> d_type d = d_type d' \<and>
    or_empty (d_classifier d) = or_empty (d_classifier d')"
  using assms by (intro management_key_eq_iff) (auto simp: colon_free_def)

theorem management_key_identity_witness:
  "let d = \<lparr>d_group = ''g'', d_artifact = ''a'', d_version = None, d_scope = ''compile'',
            d_scope_explicit = False, d_type = ''jar'', d_type_explicit = False,
            d_classifier = None, d_optional = None, d_exclusions = []\<rparr>;
       d' = d\<lparr>d_type := ''test-jar''\<rparr>
   in management_key d \<noteq> management_key d'"
proof -
  let ?d = "\<lparr>d_group = ''g'', d_artifact = ''a'', d_version = None, d_scope = ''compile'',
            d_scope_explicit = False, d_type = ''jar'', d_type_explicit = False,
            d_classifier = None, d_optional = None, d_exclusions = []\<rparr>"
  show ?thesis
    using management_key_identity [of ?d "?d\<lparr>d_type := ''test-jar''\<rparr>"]
    by (simp add: Let_def colon_free_def)
qed

end
