(* ===== verification/Pom.thy ===== *)
theory Pom
  imports Model Rust_Path
begin

text \<open>
  Parsing of Maven POMs, \<open>crates/jman-resolver/src/pom.rs\<close>. The XML parser is a library and a
  parameter \<open>parse_xml\<close> here (an error carries its message); a parsed document is a tree of
  elements (with their local names), texts and other nodes (comments, processing
  instructions). The environment variables and the target platform are a record.
\<close>

section \<open>XML trees\<close>

datatype xml = Element str "xml list" | Text str | OtherNode

type_synonym xml_parser = "str \<Rightarrow> (str, xml) result"

record platform =
  pf_os :: str
  pf_arch :: str
  pf_windows :: bool
  pf_unix :: bool
  pf_macos :: bool
  pf_env :: "str \<Rightarrow> str option"

fun xml_children :: "xml \<Rightarrow> xml list" where
  "xml_children (Element n cs) = cs"
| "xml_children _ = []"

fun is_element :: "xml \<Rightarrow> bool" where
  "is_element (Element n cs) = True"
| "is_element _ = False"

fun has_tag :: "str \<Rightarrow> xml \<Rightarrow> bool" where
  "has_tag name (Element n cs) = (n = name)"
| "has_tag name _ = False"

fun tag_name :: "xml \<Rightarrow> str" where
  "tag_name (Element n cs) = n"
| "tag_name _ = []"

fun text_data :: "xml \<Rightarrow> str" where
  "text_data (Text t) = t"
| "text_data _ = []"

definition xml_child :: "xml \<Rightarrow> str \<Rightarrow> xml option" where
  "xml_child node name = List.find (has_tag name) (xml_children node)"

definition children_named :: "str \<Rightarrow> xml \<Rightarrow> xml list" where
  "children_named name node = filter (has_tag name) (xml_children node)"

definition element_text :: "xml \<Rightarrow> str" where
  "element_text node = trim (concat (map text_data (xml_children node)))"

definition child_text :: "xml \<Rightarrow> str \<Rightarrow> str option" where
  "child_text node name =
     (case xml_child node name of
        None \<Rightarrow> None
      | Some c \<Rightarrow> if element_text c \<noteq> [] then Some (element_text c) else None)"

definition required_text :: "xml \<Rightarrow> str \<Rightarrow> str \<Rightarrow> str resolved" where
  "required_text node name ctx =
     ok_or (InvalidPom (''missing '' @ ctx @ '' '' @ name)) (child_text node name)"

section \<open>Parts of a project\<close>

definition parse_parent :: "xml \<Rightarrow> parent resolved" where
  "parse_parent node =
     and_then (required_text node ''groupId'' ''parent'') (\<lambda>g.
     and_then (required_text node ''artifactId'' ''parent'') (\<lambda>a.
     and_then (required_text node ''version'' ''parent'') (\<lambda>v.
       Inr \<lparr>p_group = g, p_artifact = a, p_version = v,
            p_relative_path = map_option element_text (xml_child node ''relativePath'')\<rparr>)))"

definition parse_properties :: "xml \<Rightarrow> (str \<times> str) list" where
  "parse_properties node =
     map (\<lambda>p. (tag_name p, element_text p)) (filter is_element (xml_children node))"

definition parse_exclusion :: "xml \<Rightarrow> exclusion resolved" where
  "parse_exclusion item =
     and_then (required_text item ''groupId'' ''exclusion'') (\<lambda>g.
     and_then (required_text item ''artifactId'' ''exclusion'') (\<lambda>a.
       Inr \<lparr>x_group = g, x_artifact = a\<rparr>))"

definition parse_exclusions :: "xml \<Rightarrow> exclusion list resolved" where
  "parse_exclusions node =
     (case xml_child node ''exclusions'' of
        None \<Rightarrow> Inr []
      | Some items \<Rightarrow> traverse parse_exclusion (children_named ''exclusion'' items))"

definition or_default :: "str \<Rightarrow> str option \<Rightarrow> str" where
  "or_default d m = (case m of None \<Rightarrow> d | Some s \<Rightarrow> s)"

definition parse_dependency :: "xml \<Rightarrow> dependency resolved" where
  "parse_dependency node =
     and_then (parse_exclusions node) (\<lambda>exclusions.
     and_then (required_text node ''groupId'' ''dependency'') (\<lambda>g.
     and_then (required_text node ''artifactId'' ''dependency'') (\<lambda>a.
       let scope = child_text node ''scope'';
           dtype = child_text node ''type''
       in Inr \<lparr>d_group = g, d_artifact = a, d_version = child_text node ''version'',
               d_scope = or_default ''compile'' scope, d_scope_explicit = (scope \<noteq> None),
               d_type = or_default ''jar'' dtype, d_type_explicit = (dtype \<noteq> None),
               d_classifier = child_text node ''classifier'',
               d_optional = map_option (\<lambda>v. v = ''true'') (child_text node ''optional''),
               d_exclusions = exclusions\<rparr>)))"

definition parse_dependencies :: "xml \<Rightarrow> dependency list resolved" where
  "parse_dependencies node = traverse parse_dependency (children_named ''dependency'' node)"

definition policy_enabled :: "xml \<Rightarrow> str \<Rightarrow> bool" where
  "policy_enabled node policy =
     (case xml_child node policy of
        None \<Rightarrow> True
      | Some p \<Rightarrow> (case child_text p ''enabled'' of None \<Rightarrow> True | Some v \<Rightarrow> v \<noteq> ''false''))"

definition parse_repository :: "xml \<Rightarrow> repository resolved" where
  "parse_repository node =
     and_then (required_text node ''id'' ''repository'') (\<lambda>i.
     and_then (required_text node ''url'' ''repository'') (\<lambda>u.
       Inr \<lparr>r_id = i, r_url = u, r_releases_enabled = policy_enabled node ''releases'',
            r_snapshots_enabled = policy_enabled node ''snapshots''\<rparr>))"

definition parse_repositories :: "xml \<Rightarrow> repository list resolved" where
  "parse_repositories node = traverse parse_repository (children_named ''repository'' node)"

text \<open>\<open>child(..).map(parse).transpose()?.unwrap_or_default()\<close>.\<close>

definition parse_optional :: "(xml \<Rightarrow> 'a list resolved) \<Rightarrow> xml option \<Rightarrow> 'a list resolved" where
  "parse_optional f m = (case m of None \<Rightarrow> Inr [] | Some n \<Rightarrow> f n)"

definition management_node :: "xml \<Rightarrow> xml option" where
  "management_node node =
     (case xml_child node ''dependencyManagement'' of
        None \<Rightarrow> None | Some m \<Rightarrow> xml_child m ''dependencies'')"

section \<open>Profile activation\<close>

definition is_active_by_default :: "xml \<Rightarrow> bool" where
  "is_active_by_default profile \<longleftrightarrow>
     (case xml_child profile ''activation'' of
        None \<Rightarrow> False
      | Some a \<Rightarrow> child_text a ''activeByDefault'' = Some ''true'')"

definition env_name :: "str \<Rightarrow> str" where
  "env_name name = map (\<lambda>c. if c = CHR ''.'' \<or> c = CHR ''-'' then CHR ''_'' else to_upper c) name"

definition property_activation :: "platform \<Rightarrow> xml \<Rightarrow> bool" where
  "property_activation pf activation =
     (case xml_child activation ''property'' of
        None \<Rightarrow> False
      | Some property \<Rightarrow>
          (case child_text property ''name'' of
             None \<Rightarrow> False
           | Some raw_name \<Rightarrow>
               (let expected = child_text property ''value'';
                    negated = (strip_prefix ''!'' raw_name \<noteq> None);
                    name = (case strip_prefix ''!'' raw_name of None \<Rightarrow> raw_name | Some n \<Rightarrow> n);
                    var = (case pf_env pf name of
                             Some v \<Rightarrow> Some v
                           | None \<Rightarrow> pf_env pf (env_name name))
                in if negated then var = None
                   else (case expected of
                           None \<Rightarrow> var \<noteq> None
                         | Some e \<Rightarrow>
                             if starts_with ''!'' e then var \<noteq> strip_prefix ''!'' e
                             else var = Some e))))"

definition os_activation :: "platform \<Rightarrow> xml \<Rightarrow> bool" where
  "os_activation pf activation =
     (case xml_child activation ''os'' of
        None \<Rightarrow> False
      | Some os \<Rightarrow>
          (let family_matches =
                 (case child_text os ''family'' of
                    None \<Rightarrow> True
                  | Some f \<Rightarrow>
                      if f = ''windows'' then pf_windows pf
                      else if f = ''unix'' then pf_unix pf
                      else if f = ''mac'' then pf_macos pf
                      else False);
               name_matches =
                 (case child_text os ''name'' of
                    None \<Rightarrow> True | Some n \<Rightarrow> eq_ignore_case n (pf_os pf));
               arch_matches =
                 (case child_text os ''arch'' of
                    None \<Rightarrow> True | Some a \<Rightarrow> eq_ignore_case a (pf_arch pf))
           in family_matches \<and> name_matches \<and> arch_matches))"

definition is_environment_active :: "platform \<Rightarrow> xml \<Rightarrow> bool" where
  "is_environment_active pf profile \<longleftrightarrow>
     (case xml_child profile ''activation'' of
        None \<Rightarrow> False
      | Some a \<Rightarrow> property_activation pf a \<or> os_activation pf a)"

text \<open>The profiles that contribute: those the environment activates, or else the defaults.\<close>

definition active_profiles :: "platform \<Rightarrow> xml list \<Rightarrow> xml list" where
  "active_profiles pf candidates =
     (let explicit = filter (is_environment_active pf) candidates
      in if explicit = [] then filter is_active_by_default candidates else explicit)"

section \<open>Projects\<close>

record model_parts =
  mp_properties :: "(str, str) btree_map"
  mp_dependencies :: "dependency list"
  mp_management :: "dependency list"
  mp_repositories :: "repository list"

definition merge_profile :: "xml \<Rightarrow> model_parts \<Rightarrow> model_parts resolved" where
  "merge_profile profile m =
     (let props = (case xml_child profile ''properties'' of
                     None \<Rightarrow> mp_properties m
                   | Some p \<Rightarrow> bt_extend (mp_properties m) (parse_properties p))
      in and_then (parse_optional parse_dependencies (xml_child profile ''dependencies'')) (\<lambda>ds.
         and_then (parse_optional parse_dependencies (management_node profile)) (\<lambda>ms.
         and_then (parse_optional parse_repositories (xml_child profile ''repositories'')) (\<lambda>rs.
           Inr \<lparr>mp_properties = props, mp_dependencies = mp_dependencies m @ ds,
                mp_management = mp_management m @ ms,
                mp_repositories = mp_repositories m @ rs\<rparr>))))"

fun merge_profiles :: "xml list \<Rightarrow> model_parts \<Rightarrow> model_parts resolved" where
  "merge_profiles [] m = Inr m"
| "merge_profiles (p # ps) m = and_then (merge_profile p m) (merge_profiles ps)"

definition project_parts :: "xml \<Rightarrow> model_parts resolved" where
  "project_parts project =
     (let props = (case xml_child project ''properties'' of
                     None \<Rightarrow> [] | Some p \<Rightarrow> bt_of_list (parse_properties p))
      in and_then (parse_optional parse_dependencies (xml_child project ''dependencies'')) (\<lambda>ds.
         and_then (parse_optional parse_dependencies (management_node project)) (\<lambda>ms.
         and_then (parse_optional parse_repositories (xml_child project ''repositories'')) (\<lambda>rs.
           Inr \<lparr>mp_properties = props, mp_dependencies = ds, mp_management = ms,
                mp_repositories = rs\<rparr>))))"

definition parse_modules :: "xml \<Rightarrow> str list" where
  "parse_modules project =
     (case xml_child project ''modules'' of
        None \<Rightarrow> []
      | Some ms \<Rightarrow> filter (\<lambda>m. m \<noteq> []) (map element_text (children_named ''module'' ms)))"

definition parse_relocation :: "xml \<Rightarrow> relocation option" where
  "parse_relocation project =
     (case xml_child project ''distributionManagement'' of
        None \<Rightarrow> None
      | Some m \<Rightarrow>
          map_option (\<lambda>r. \<lparr>rel_group = child_text r ''groupId'',
                           rel_artifact = child_text r ''artifactId'',
                           rel_version = child_text r ''version''\<rparr>)
            (xml_child m ''relocation''))"

definition parse_project :: "platform \<Rightarrow> xml \<Rightarrow> bool \<Rightarrow> raw_pom resolved" where
  "parse_project pf project evaluate_profiles =
     and_then (traverse_opt parse_parent (xml_child project ''parent'')) (\<lambda>parent.
     and_then (ok_or (InvalidPom ''missing project artifactId'') (child_text project ''artifactId''))
       (\<lambda>artifact.
     and_then (project_parts project) (\<lambda>parts.
     and_then
       (if evaluate_profiles
        then (case xml_child project ''profiles'' of
                None \<Rightarrow> Inr parts
              | Some profiles \<Rightarrow>
                  merge_profiles (active_profiles pf (children_named ''profile'' profiles)) parts)
        else Inr parts) (\<lambda>parts.
       Inr \<lparr>raw_model_version = child_text project ''modelVersion'', raw_parent = parent,
            raw_group = child_text project ''groupId'', raw_artifact = artifact,
            raw_version = child_text project ''version'',
            raw_packaging = or_default ''jar'' (child_text project ''packaging''),
            raw_modules = parse_modules project,
            raw_properties = mp_properties parts, raw_dependencies = mp_dependencies parts,
            raw_management = mp_management parts, raw_repositories = mp_repositories parts,
            raw_processors = [], raw_compiler_args = [],
            raw_relocation = parse_relocation project\<rparr>))))"

definition parse_pom :: "xml_parser \<Rightarrow> platform \<Rightarrow> str \<Rightarrow> raw_pom resolved" where
  "parse_pom parse_xml pf s =
     and_then (map_err InvalidPom (parse_xml s)) (\<lambda>project.
       if tag_name project \<noteq> ''project''
       then Inl (InvalidPom ''root element must be <project>'')
       else parse_project pf project True)"

section \<open>Effective workspaces\<close>

record precomputed_project =
  pp_directory :: path
  pp_raw :: raw_pom

definition build_directory :: "xml \<Rightarrow> path option" where
  "build_directory build =
     (case child_text build ''directory'' of
        None \<Rightarrow> None | Some d \<Rightarrow> path_parent (path_of d))"

definition source_directory_root :: "xml \<Rightarrow> path option" where
  "source_directory_root build =
     (case child_text build ''sourceDirectory'' of
        None \<Rightarrow> None
      | Some s \<Rightarrow>
          (let source = path_of s; ups = path_ancestors source
           in if path_ends_with source (path_of ''src/main/java'')
              then (if 3 < length ups then Some (ups ! 3) else None) else None))"

definition effective_project_directory :: "xml \<Rightarrow> path resolved" where
  "effective_project_directory project =
     (let build = xml_child project ''build'';
          directory =
            (case Option.bind build build_directory of
               Some d \<Rightarrow> Some d
             | None \<Rightarrow> Option.bind build source_directory_root)
      in and_then
           (ok_or (InvalidPom (''effective Maven project `''
                @ or_default ''unknown'' (child_text project ''artifactId'')
                @ ''` has no absolute build directory'')) directory) (\<lambda>d.
           if \<not> is_absolute d
           then Inl (InvalidPom
                  (''effective Maven project directory must be absolute: '' @ show_path d))
           else Inr d))"

definition compiler_plugin :: "xml \<Rightarrow> bool" where
  "compiler_plugin node \<longleftrightarrow>
     has_tag ''plugin'' node \<and> child_text node ''artifactId'' = Some ''maven-compiler-plugin''"

definition compiler_configuration :: "xml \<Rightarrow> xml option" where
  "compiler_configuration project =
     Option.bind (xml_child project ''build'') (\<lambda>build.
     Option.bind (xml_child build ''plugins'') (\<lambda>plugins.
     Option.bind (List.find compiler_plugin (xml_children plugins)) (\<lambda>plugin.
       xml_child plugin ''configuration'')))"

definition compiler_properties :: "xml \<Rightarrow> (str, str) btree_map \<Rightarrow> (str, str) btree_map" where
  "compiler_properties configuration props =
     (let props =
            (case child_text configuration ''release'' of
               Some release \<Rightarrow> bt_insert ''maven.compiler.release'' release props
             | None \<Rightarrow>
                 (case child_text configuration ''source'' of
                    Some source \<Rightarrow> bt_insert ''maven.compiler.source'' source props
                  | None \<Rightarrow> props))
      in (case child_text configuration ''encoding'' of
            Some encoding \<Rightarrow> bt_insert ''project.build.sourceEncoding'' encoding props
          | None \<Rightarrow> props))"

definition texts_named :: "str \<Rightarrow> xml \<Rightarrow> str list" where
  "texts_named name node = filter (\<lambda>t. t \<noteq> []) (map element_text (children_named name node))"

definition compiler_arguments :: "xml \<Rightarrow> str list" where
  "compiler_arguments configuration =
     (if child_text configuration ''parameters'' = Some ''true'' then [''-parameters''] else []) @
     (case xml_child configuration ''compilerArgs'' of
        None \<Rightarrow> [] | Some args \<Rightarrow> texts_named ''arg'' args) @
     (case xml_child configuration ''annotationProcessors'' of
        None \<Rightarrow> []
      | Some ps \<Rightarrow>
          (let names = texts_named ''annotationProcessor'' ps
           in if names = [] then [] else [''-processor'', join_with '','' names]))"

definition processor_path :: "dependency list \<Rightarrow> xml \<Rightarrow> annotation_processor resolved" where
  "processor_path management path =
     and_then (required_text path ''groupId'' ''annotation processor'') (\<lambda>g.
     and_then (required_text path ''artifactId'' ''annotation processor'') (\<lambda>a.
       Inr \<lparr>ap_dependency =
         \<lparr>d_group = g, d_artifact = a,
          d_version =
            (case child_text path ''version'' of
               Some v \<Rightarrow> Some v
             | None \<Rightarrow>
                 Option.bind (List.find (\<lambda>d. d_group d = g \<and> d_artifact d = a) management) d_version),
          d_scope = ''compile'', d_scope_explicit = False,
          d_type = or_default ''jar'' (child_text path ''type''),
          d_type_explicit = (xml_child path ''type'' \<noteq> None),
          d_classifier = child_text path ''classifier'', d_optional = None,
          d_exclusions = []\<rparr>\<rparr>))"

definition apply_compiler_configuration :: "xml \<Rightarrow> raw_pom \<Rightarrow> raw_pom resolved" where
  "apply_compiler_configuration project raw =
     (case compiler_configuration project of
        None \<Rightarrow> Inr raw
      | Some configuration \<Rightarrow>
          (let raw = raw\<lparr>raw_properties := compiler_properties configuration (raw_properties raw),
                         raw_compiler_args := raw_compiler_args raw @
                           compiler_arguments configuration\<rparr>
           in case xml_child configuration ''annotationProcessorPaths'' of
                None \<Rightarrow> Inr raw
              | Some paths \<Rightarrow>
                  and_then
                    (traverse (processor_path (raw_management raw)) (children_named ''path'' paths))
                    (\<lambda>processors.
                       Inr (raw\<lparr>raw_processors := raw_processors raw @ processors\<rparr>))))"

definition parse_effective_project ::
    "platform \<Rightarrow> xml \<Rightarrow> precomputed_project resolved" where
  "parse_effective_project pf project =
     and_then (effective_project_directory project) (\<lambda>directory.
     and_then (parse_project pf project False) (\<lambda>raw.
     and_then (apply_compiler_configuration project raw) (\<lambda>raw.
       Inr \<lparr>pp_directory = directory, pp_raw = raw\<rparr>)))"

definition parse_effective_workspace ::
    "xml_parser \<Rightarrow> platform \<Rightarrow> str \<Rightarrow> precomputed_project list resolved" where
  "parse_effective_workspace parse_xml pf s =
     and_then (map_err InvalidPom (parse_xml s)) (\<lambda>root.
       if tag_name root = ''project''
       then traverse (parse_effective_project pf) [root]
       else if tag_name root = ''projects''
       then (let projects = children_named ''project'' root
             in if projects = []
                then Inl (InvalidPom ''effective Maven model contains no projects'')
                else traverse (parse_effective_project pf) projects)
       else Inl (InvalidPom ''effective Maven model root must be <project> or <projects>''))"

section \<open>Plugins\<close>

definition plugin_name :: "xml \<Rightarrow> str option" where
  "plugin_name plugin =
     map_option (\<lambda>artifact.
         or_default ''org.apache.maven.plugins'' (child_text plugin ''groupId'') @ '':'' @ artifact)
       (child_text plugin ''artifactId'')"

definition collect_build_plugins :: "xml \<Rightarrow> str list \<Rightarrow> str list" where
  "collect_build_plugins node plugins =
     (case xml_child node ''build'' of
        None \<Rightarrow> plugins
      | Some build \<Rightarrow>
          (let containers =
                 List.map_filter id
                   [xml_child build ''plugins'',
                    Option.bind (xml_child build ''pluginManagement'')
                      (\<lambda>m. xml_child m ''plugins'')]
           in fold bs_insert
                (List.map_filter plugin_name (concat (map (children_named ''plugin'') containers)))
                plugins))"

definition plugin_coordinates :: "xml_parser \<Rightarrow> str \<Rightarrow> str list resolved" where
  "plugin_coordinates parse_xml s =
     and_then (map_err InvalidPom (parse_xml s)) (\<lambda>project.
       let plugins = collect_build_plugins project []
       in Inr (case xml_child project ''profiles'' of
                 None \<Rightarrow> plugins
               | Some profiles \<Rightarrow>
                   fold collect_build_plugins (children_named ''profile'' profiles) plugins))"

section \<open>What a parsed text is\<close>

lemma element_text_trimmed: "trimmed (element_text n)"
  by (simp add: element_text_def trimmed_trim)

definition proper :: "str \<Rightarrow> bool" where
  "proper s \<longleftrightarrow> s \<noteq> [] \<and> trimmed s"

lemma child_text_proper: "child_text n name = Some s \<Longrightarrow> proper s"
  by (auto simp: child_text_def proper_def element_text_trimmed split: option.splits if_splits)

lemma required_text_proper: "required_text n name ctx = Inr s \<Longrightarrow> proper s"
  by (auto simp: required_text_def child_text_proper)

definition proper_dependency :: "dependency \<Rightarrow> bool" where
  "proper_dependency d \<longleftrightarrow>
     proper (d_group d) \<and> proper (d_artifact d) \<and> proper (d_scope d) \<and> proper (d_type d) \<and>
     pred_option proper (d_version d) \<and> pred_option proper (d_classifier d) \<and>
     (\<forall>x \<in> set (d_exclusions d). proper (x_group x) \<and> proper (x_artifact x)) \<and>
     (d_scope_explicit d \<or> d_scope d = ''compile'') \<and> (d_type_explicit d \<or> d_type d = ''jar'')"

lemma proper_defaults: "proper ''compile''" "proper ''jar''"
  by (simp_all add: proper_def trimmed_def is_space_def byte_def)

lemma or_default_proper: "proper d \<Longrightarrow> (\<And>s. m = Some s \<Longrightarrow> proper s) \<Longrightarrow> proper (or_default d m)"
  by (cases m) (auto simp: or_default_def)

lemma parse_exclusions_proper:
  assumes "parse_exclusions n = Inr xs" "x \<in> set xs"
  shows "proper (x_group x) \<and> proper (x_artifact x)"
  using assms
  by (auto simp: parse_exclusions_def parse_exclusion_def and_then_Inr_iff
      dest!: traverse_in_set required_text_proper split: option.splits)

lemma parse_dependency_proper:
  assumes "parse_dependency n = Inr d"
  shows "proper_dependency d"
proof -
  from assms obtain xs g a where p: "parse_exclusions n = Inr xs"
    "required_text n ''groupId'' ''dependency'' = Inr g"
    "required_text n ''artifactId'' ''dependency'' = Inr a"
    and d: "d = \<lparr>d_group = g, d_artifact = a, d_version = child_text n ''version'',
               d_scope = or_default ''compile'' (child_text n ''scope''),
               d_scope_explicit = (child_text n ''scope'' \<noteq> None),
               d_type = or_default ''jar'' (child_text n ''type''),
               d_type_explicit = (child_text n ''type'' \<noteq> None),
               d_classifier = child_text n ''classifier'',
               d_optional = map_option (\<lambda>v. v = ''true'') (child_text n ''optional''),
               d_exclusions = xs\<rparr>"
    by (auto simp: parse_dependency_def and_then_Inr_iff Let_def)
  have "pred_option proper (child_text n f)" for f
    by (cases "child_text n f") (auto dest: child_text_proper)
  with p show ?thesis unfolding d proper_dependency_def
    by (auto simp: or_default_def dest: parse_exclusions_proper required_text_proper
        child_text_proper intro!: proper_defaults or_default_proper split: option.splits)
qed

lemma parse_dependencies_proper:
  "parse_dependencies n = Inr ds \<Longrightarrow> d \<in> set ds \<Longrightarrow> proper_dependency d"
  by (auto simp: parse_dependencies_def dest!: traverse_in_set parse_dependency_proper)

section \<open>Comments\<close>

text \<open>A document without its comments and processing instructions.\<close>

primrec erase :: "xml \<Rightarrow> xml" where
  "erase (Element n cs) = Element n (filter (\<lambda>c. c \<noteq> OtherNode) (map erase cs))"
| "erase (Text s) = Text s"
| "erase OtherNode = OtherNode"

named_theorems erase_simps "parsing commutes with erasing comments"

lemma erase_node [erase_simps]:
  "has_tag name (erase n) = has_tag name n" "is_element (erase n) = is_element n"
  "tag_name (erase n) = tag_name n" "text_data (erase n) = text_data n"
  "erase n = OtherNode \<longleftrightarrow> n = OtherNode"
  by (cases n; simp)+

lemma xml_children_erase:
  "xml_children (erase n) = map erase (filter (\<lambda>c. c \<noteq> OtherNode) (xml_children n))"
  by (cases n) (simp_all add: filter_map comp_def erase_simps)

lemma filter_erase:
  assumes "\<And>c. P (erase c) = P c" "\<not> P OtherNode"
  shows "filter P (map erase (filter (\<lambda>c. c \<noteq> OtherNode) cs)) = map erase (filter P cs)"
  using assms by (induction cs) auto

lemma children_named_erase [erase_simps]:
  "children_named name (erase n) = map erase (children_named name n)"
  by (simp add: children_named_def xml_children_erase filter_erase erase_simps)

lemma find_erase:
  assumes "\<And>c. P (erase c) = P c" "\<not> P OtherNode"
  shows "List.find P (map erase (filter (\<lambda>c. c \<noteq> OtherNode) cs)) = map_option erase (List.find P cs)"
  using assms by (induction cs) auto

lemma xml_child_erase [erase_simps]: "xml_child (erase n) name = map_option erase (xml_child n name)"
  by (simp add: xml_child_def xml_children_erase find_erase erase_simps)

lemma element_text_erase [erase_simps]: "element_text (erase n) = element_text n"
proof -
  have "concat (map text_data (map erase (filter (\<lambda>c. c \<noteq> OtherNode) cs))) =
      concat (map text_data cs)" for cs
    by (induction cs) (auto simp: erase_simps)
  then show ?thesis by (simp add: element_text_def xml_children_erase)
qed

lemma child_text_erase [erase_simps]: "child_text (erase n) name = child_text n name"
  by (simp add: child_text_def erase_simps split: option.splits)

lemma required_text_erase [erase_simps]: "required_text (erase n) = required_text n"
  by (simp add: required_text_def erase_simps fun_eq_iff)

lemma traverse_erase:
  "(\<And>n. f (erase n) = f n) \<Longrightarrow> traverse f (map erase ns) = traverse f ns"
  by (induction ns) (auto cong: sum.case_cong)

lemma parse_parent_erase [erase_simps]: "parse_parent (erase n) = parse_parent n"
  by (simp add: parse_parent_def erase_simps option.map_comp comp_def)

lemma parse_properties_erase [erase_simps]: "parse_properties (erase n) = parse_properties n"
  by (simp add: parse_properties_def xml_children_erase filter_erase erase_simps comp_def)

lemma parse_exclusions_erase [erase_simps]: "parse_exclusions (erase n) = parse_exclusions n"
  by (simp add: parse_exclusions_def erase_simps parse_exclusion_def traverse_erase
      split: option.splits)

lemma parse_dependency_erase [erase_simps]: "parse_dependency (erase n) = parse_dependency n"
  by (simp add: parse_dependency_def erase_simps)

lemma parse_dependencies_erase [erase_simps]: "parse_dependencies (erase n) = parse_dependencies n"
  by (simp add: parse_dependencies_def erase_simps traverse_erase)

lemma policy_enabled_erase [erase_simps]: "policy_enabled (erase n) = policy_enabled n"
  by (simp add: policy_enabled_def erase_simps fun_eq_iff split: option.splits)

lemma parse_repositories_erase [erase_simps]: "parse_repositories (erase n) = parse_repositories n"
  by (simp add: parse_repositories_def parse_repository_def erase_simps traverse_erase)

lemma parse_optional_erase [erase_simps]:
  "(\<And>n. f (erase n) = f n) \<Longrightarrow> parse_optional f (map_option erase m) = parse_optional f m"
  by (cases m) (simp_all add: parse_optional_def)

lemma management_node_erase [erase_simps]:
  "management_node (erase n) = map_option erase (management_node n)"
  by (simp add: management_node_def erase_simps split: option.splits)

lemma active_by_default_erase [erase_simps]: "is_active_by_default (erase n) = is_active_by_default n"
  by (simp add: is_active_by_default_def erase_simps split: option.splits)

lemma property_activation_erase [erase_simps]:
  "property_activation pf (erase n) = property_activation pf n"
  by (cases "xml_child n ''property''")
     (simp_all add: property_activation_def erase_simps cong: option.case_cong)

lemma os_activation_erase [erase_simps]: "os_activation pf (erase n) = os_activation pf n"
  by (cases "xml_child n ''os''") (simp_all add: os_activation_def erase_simps)

lemma environment_active_erase [erase_simps]:
  "is_environment_active pf (erase n) = is_environment_active pf n"
  by (simp add: is_environment_active_def erase_simps split: option.splits)

lemma active_profiles_erase [erase_simps]:
  "active_profiles pf (map erase ps) = map erase (active_profiles pf ps)"
  by (simp add: active_profiles_def filter_map comp_def erase_simps Let_def)

lemma merge_profile_erase [erase_simps]: "merge_profile (erase p) m = merge_profile p m"
  by (cases "xml_child p ''properties''") (simp_all add: merge_profile_def erase_simps)

lemma merge_profiles_erase [erase_simps]: "merge_profiles (map erase ps) m = merge_profiles ps m"
proof (induction ps arbitrary: m)
  case (Cons p ps)
  show ?case by (cases "merge_profile p m") (simp_all add: erase_simps Cons.IH)
qed simp

lemma project_parts_erase [erase_simps]: "project_parts (erase p) = project_parts p"
  by (cases "xml_child p ''properties''") (simp_all add: project_parts_def erase_simps)

lemma parse_modules_erase [erase_simps]: "parse_modules (erase p) = parse_modules p"
  by (cases "xml_child p ''modules''") (simp_all add: parse_modules_def erase_simps comp_def)

lemma parse_relocation_erase [erase_simps]: "parse_relocation (erase p) = parse_relocation p"
  by (cases "xml_child p ''distributionManagement''")
     (simp_all add: parse_relocation_def erase_simps option.map_comp comp_def)

lemma traverse_opt_erase [erase_simps]:
  "(\<And>n. f (erase n) = f n) \<Longrightarrow> traverse_opt f (map_option erase m) = traverse_opt f m"
  by (cases m) simp_all

section \<open>Properties\<close>

text \<open>
  Comments and processing instructions, wherever they
  stand in the document, never change the parsed project, with or without profiles: the text
  of an element is what remains when they are taken out.
\<close>

theorem parse_ignores_comments: "parse_project pf (erase p) profiles = parse_project pf p profiles"
  by (cases profiles; cases "xml_child p ''profiles''") (simp_all add: parse_project_def erase_simps)

lemma parse_optional_dependencies_proper:
  "parse_optional parse_dependencies m = Inr ds \<Longrightarrow> d \<in> set ds \<Longrightarrow> proper_dependency d"
  by (auto simp: parse_optional_def dest: parse_dependencies_proper split: option.splits)

definition proper_parts :: "model_parts \<Rightarrow> bool" where
  "proper_parts m \<longleftrightarrow>
     (\<forall>d \<in> set (mp_dependencies m) \<union> set (mp_management m). proper_dependency d)"

lemma merge_profile_proper:
  "merge_profile p m = Inr m' \<Longrightarrow> proper_parts m \<Longrightarrow> proper_parts m'"
  by (auto simp: merge_profile_def and_then_Inr_iff Let_def proper_parts_def
      dest: parse_optional_dependencies_proper)

lemma merge_profiles_proper:
  "merge_profiles ps m = Inr m' \<Longrightarrow> proper_parts m \<Longrightarrow> proper_parts m'"
  by (induction ps arbitrary: m) (auto simp: and_then_Inr_iff dest: merge_profile_proper)

lemma project_parts_proper: "project_parts p = Inr m \<Longrightarrow> proper_parts m"
  by (auto simp: project_parts_def and_then_Inr_iff Let_def proper_parts_def
      dest: parse_optional_dependencies_proper)

text \<open>
  Every dependency of a parsed project, profiles
  included, has a non-empty trimmed group, artifact, scope and type, non-empty trimmed
  optional fields and exclusions, and the scope and type are the defaults unless they were
  written in the document.
\<close>

theorem parsed_dependencies_proper:
  assumes "parse_project pf p profiles = Inr raw"
    and "d \<in> set (raw_dependencies raw) \<union> set (raw_management raw)"
  shows "proper_dependency d \<and> proper (raw_artifact raw)"
proof -
  have "(\<exists>m. proper_parts m \<and> raw_dependencies raw = mp_dependencies m \<and>
      raw_management raw = mp_management m) \<and> child_text p ''artifactId'' = Some (raw_artifact raw)"
    using assms(1)
    by (auto simp: parse_project_def and_then_Inr_iff dest!: project_parts_proper
        split: if_splits option.splits)
       (blast dest: merge_profiles_proper)+
  with assms(2) show ?thesis by (auto simp: proper_parts_def dest: child_text_proper)
qed

definition sample_platform :: platform where
  "sample_platform = \<lparr>pf_os = ''linux'', pf_arch = ''x86_64'', pf_windows = False, pf_unix = True,
     pf_macos = False, pf_env = (\<lambda>_. None)\<rparr>"

definition sample_project :: xml where
  "sample_project = Element ''project''
     [Element ''artifactId'' [Text '' app '', OtherNode],
      Element ''dependencies'' [Element ''dependency''
        [Element ''groupId'' [Text ''org.example''], Element ''artifactId'' [Text ''lib'']]]]"

definition sample_dependency :: dependency where
  "sample_dependency = \<lparr>d_group = ''org.example'', d_artifact = ''lib'', d_version = None,
     d_scope = ''compile'', d_scope_explicit = False, d_type = ''jar'', d_type_explicit = False,
     d_classifier = None, d_optional = None, d_exclusions = []\<rparr>"

theorem parsed_dependencies_proper_witness:
  "map_sum id raw_dependencies (parse_project sample_platform sample_project True) =
     Inr [sample_dependency] \<and> proper_dependency sample_dependency"
proof -
  have parsed: "map_sum id raw_dependencies (parse_project sample_platform sample_project True) =
     Inr [sample_dependency]"
    by code_simp
  then obtain raw where raw: "parse_project sample_platform sample_project True = Inr raw"
      "raw_dependencies raw = [sample_dependency]"
    by (cases "parse_project sample_platform sample_project True") auto
  then show ?thesis
    using parsed parsed_dependencies_proper [OF raw(1), of sample_dependency] by simp
qed

end
