(* ===== verification/Interpolation.thy ===== *)
theory Interpolation
  imports Pom
begin

text \<open>
  Property interpolation of effective models, the string part of
  \<open>crates/jman-resolver/src/effective.rs\<close>. A property map is a \<open>BTreeMap\<close>; every loop of the
  source is bounded by 32 rounds, which the definitions keep.
\<close>

section \<open>Definitions\<close>

type_synonym properties = "(str, str) btree_map"

definition marker :: "str \<Rightarrow> str" where
  "marker property = ''${'' @ property @ ''}''"

definition first_property :: "str \<Rightarrow> str option" where
  "first_property value =
     (case find_sub ''${'' value of
        None \<Rightarrow> None
      | Some start \<Rightarrow>
          (let remainder = drop (start + 2) value
           in map_option (\<lambda>end. take end remainder) (find_sub ''}'' remainder)))"

fun interpolate_rounds :: "nat \<Rightarrow> properties \<Rightarrow> str \<Rightarrow> str" where
  "interpolate_rounds 0 props result = result"
| "interpolate_rounds (Suc n) props result =
     (case first_property result of
        None \<Rightarrow> result
      | Some property \<Rightarrow>
          (case bt_get props property of
             None \<Rightarrow> result
           | Some replacement \<Rightarrow>
               interpolate_rounds n props (replace_all (marker property) replacement result)))"

definition interpolate_loose :: "str \<Rightarrow> properties \<Rightarrow> str" where
  "interpolate_loose value props = interpolate_rounds 32 props value"

definition interpolate_required :: "str \<Rightarrow> properties \<Rightarrow> str resolved" where
  "interpolate_required value props =
     (let result = interpolate_loose value props
      in case first_property result of
           Some property \<Rightarrow> Inl (UnresolvedProperty property value)
         | None \<Rightarrow> Inr result)"

definition os_label :: "str \<Rightarrow> str" where
  "os_label os = (if os = ''macos'' then ''osx'' else os)"

definition arch_label :: "str \<Rightarrow> str" where
  "arch_label arch =
     (if arch = ''x86_64'' then ''x86_64''
      else if arch = ''aarch64'' then ''aarch_64''
      else if arch = ''x86'' then ''x86_32''
      else if arch = ''arm'' then ''arm_32''
      else arch)"

definition insert_platform_properties :: "platform \<Rightarrow> properties \<Rightarrow> properties" where
  "insert_platform_properties pf props =
     (let os = os_label (pf_os pf); arch = arch_label (pf_arch pf)
      in bt_or_insert ''os.detected.classifier'' (os @ ''-'' @ arch)
           (bt_or_insert ''os.detected.arch'' arch
             (bt_or_insert ''os.detected.name'' os props)))"

definition insert_prefixed :: "str \<Rightarrow> str \<Rightarrow> str \<Rightarrow> str \<Rightarrow> properties \<Rightarrow> properties" where
  "insert_prefixed pre g a v props =
     bt_insert (pre @ ''.version'') v
       (bt_insert (pre @ ''.artifactId'') a (bt_insert (pre @ ''.groupId'') g props))"

definition insert_project_properties ::
    "properties \<Rightarrow> str \<Rightarrow> str \<Rightarrow> str \<Rightarrow> parent option \<Rightarrow> properties" where
  "insert_project_properties props g a v par =
     (let props = fold (\<lambda>pre. insert_prefixed pre g a v) [''project'', ''pom''] props;
          props = bt_insert ''version'' v (bt_insert ''artifactId'' a (bt_insert ''groupId'' g props))
      in case par of
           None \<Rightarrow> props
         | Some p \<Rightarrow> insert_prefixed ''project.parent'' (p_group p) (p_artifact p) (p_version p) props)"

fun resolve_rounds :: "nat \<Rightarrow> properties \<Rightarrow> properties" where
  "resolve_rounds 0 props = props"
| "resolve_rounds (Suc n) props =
     (let resolved = bt_map_values (\<lambda>v. interpolate_loose v props) props
      in if resolved = props then resolved else resolve_rounds n resolved)"

definition resolve_property_map :: "properties \<Rightarrow> properties" where
  "resolve_property_map props = resolve_rounds 32 props"

definition interpolate_exclusion :: "properties \<Rightarrow> exclusion \<Rightarrow> exclusion resolved" where
  "interpolate_exclusion props x =
     and_then (interpolate_required (x_group x) props) (\<lambda>g.
     and_then (interpolate_required (x_artifact x) props) (\<lambda>a.
       Inr \<lparr>x_group = g, x_artifact = a\<rparr>))"

definition interpolate_dependency :: "dependency \<Rightarrow> properties \<Rightarrow> dependency resolved" where
  "interpolate_dependency d props =
     and_then (interpolate_required (d_group d) props) (\<lambda>g.
     and_then (interpolate_required (d_artifact d) props) (\<lambda>a.
     and_then (traverse_opt (\<lambda>v. interpolate_required v props) (d_version d)) (\<lambda>v.
     and_then (interpolate_required (d_scope d) props) (\<lambda>s.
     and_then (interpolate_required (d_type d) props) (\<lambda>t.
     and_then (traverse_opt (\<lambda>c. interpolate_required c props) (d_classifier d)) (\<lambda>c.
     and_then (traverse (interpolate_exclusion props) (d_exclusions d)) (\<lambda>xs.
       Inr (d\<lparr>d_group := g, d_artifact := a, d_version := v, d_scope := s, d_type := t,
              d_classifier := c, d_exclusions := xs\<rparr>))))))))"

definition interpolate_managed_dependency :: "dependency \<Rightarrow> properties \<Rightarrow> dependency" where
  "interpolate_managed_dependency d props =
     d\<lparr>d_group := interpolate_loose (d_group d) props,
       d_artifact := interpolate_loose (d_artifact d) props,
       d_version := map_option (\<lambda>v. interpolate_loose v props) (d_version d),
       d_scope := interpolate_loose (d_scope d) props,
       d_type := interpolate_loose (d_type d) props,
       d_classifier := map_option (\<lambda>c. interpolate_loose c props) (d_classifier d),
       d_exclusions := map (\<lambda>x. \<lparr>x_group = interpolate_loose (x_group x) props,
                                 x_artifact = interpolate_loose (x_artifact x) props\<rparr>)
                         (d_exclusions d)\<rparr>"

section \<open>Placeholders\<close>

text \<open>A string is closed when no placeholder \<open>${...}\<close> is left in it.\<close>

definition closed :: "str \<Rightarrow> bool" where
  "closed s \<longleftrightarrow> \<not> (\<exists>u v w. s = u @ ''${'' @ v @ ''}'' @ w)"

lemma find_char_None_iff: "find_sub [c] s = None \<longleftrightarrow> c \<notin> set s"
  using contains_single [of c s] by (cases "find_sub [c] s") (simp_all add: contains_def)

lemma first_property_None_iff: "first_property s = None \<longleftrightarrow> closed s"
proof (cases "find_sub ''${'' s")
  case None
  then have "closed s" by (auto simp: closed_def find_sub_None_iff)
  with None show ?thesis by (simp add: first_property_def)
next
  case (Some i)
  have fp: "first_property s = None \<longleftrightarrow> CHR ''}'' \<notin> set (drop (i + 2) s)"
    by (simp add: first_property_def Some Let_def find_char_None_iff)
  obtain r where s: "s = take i s @ ''${'' @ r" and len: "i + 2 \<le> length s"
    using find_sub_Some [OF Some] by auto
  have "s = (take i s @ ''${'') @ r" using s by simp
  moreover have "length (take i s @ ''${'') = i + 2" using len by simp
  ultimately have r: "drop (i + 2) s = r" by (metis append_eq_conv_conj)
  show ?thesis unfolding fp
  proof
    assume none: "CHR ''}'' \<notin> set (drop (i + 2) s)"
    show "closed s" unfolding closed_def
    proof
      assume "\<exists>u v w. s = u @ ''${'' @ v @ ''}'' @ w"
      then obtain u v w where uvw: "s = u @ ''${'' @ v @ ''}'' @ w" by blast
      have "i \<le> length u" using find_sub_first [OF Some, of u "v @ ''}'' @ w"] uvw by simp
      then have "set (drop (length u + 2) s) \<subseteq> set (drop (i + 2) s)"
        by (intro set_drop_subset_set_drop) simp
      moreover have "CHR ''}'' \<in> set (drop (length u + 2) s)" by (simp add: uvw)
      ultimately show False using none by blast
    qed
  next
    assume "closed s"
    then show "CHR ''}'' \<notin> set (drop (i + 2) s)"
      unfolding r using s by (auto simp: closed_def dest!: split_list)
  qed
qed

lemma closed_simps [simp]: "closed []"
  by (simp add: closed_def)

lemma interpolate_rounds_closed: "closed s \<Longrightarrow> interpolate_rounds n props s = s"
  by (cases n) (simp_all add: first_property_None_iff [symmetric])

lemma interpolate_loose_closed: "closed s \<Longrightarrow> interpolate_loose s props = s"
  by (simp add: interpolate_loose_def interpolate_rounds_closed)

lemma interpolate_required_Inr:
  "interpolate_required s props = Inr r \<longleftrightarrow> r = interpolate_loose s props \<and> closed r"
  by (auto simp: interpolate_required_def Let_def first_property_None_iff [symmetric]
      split: option.splits)

lemma interpolate_dependency_closed:
  assumes "interpolate_dependency d props = Inr d'"
  shows "closed (d_group d') \<and> closed (d_artifact d') \<and> pred_option closed (d_version d') \<and>
    closed (d_scope d') \<and> closed (d_type d') \<and> pred_option closed (d_classifier d') \<and>
    (\<forall>x \<in> set (d_exclusions d'). closed (x_group x) \<and> closed (x_artifact x))"
proof -
  have excl: "closed (x_group y) \<and> closed (x_artifact y)"
    if "interpolate_exclusion props x = Inr y" for x y
    using that by (auto simp: interpolate_exclusion_def and_then_Inr_iff interpolate_required_Inr)
  have opt: "pred_option closed m'"
    if "traverse_opt (\<lambda>v. interpolate_required v props) m = Inr m'" for m m'
    using that by (cases m) (auto simp: interpolate_required_Inr split: sum.splits)
  from assms obtain g a v s t c xs where
    parts: "interpolate_required (d_group d) props = Inr g"
      "interpolate_required (d_artifact d) props = Inr a"
      "traverse_opt (\<lambda>v. interpolate_required v props) (d_version d) = Inr v"
      "interpolate_required (d_scope d) props = Inr s"
      "interpolate_required (d_type d) props = Inr t"
      "traverse_opt (\<lambda>c. interpolate_required c props) (d_classifier d) = Inr c"
    and xs: "traverse (interpolate_exclusion props) (d_exclusions d) = Inr xs"
    and d': "d' = d\<lparr>d_group := g, d_artifact := a, d_version := v, d_scope := s, d_type := t,
              d_classifier := c, d_exclusions := xs\<rparr>"
    unfolding interpolate_dependency_def and_then_Inr_iff by blast
  have "\<forall>x \<in> set xs. closed (x_group x) \<and> closed (x_artifact x)"
    using traverse_in_set [OF xs] excl by blast
  with parts(1,2,4,5) opt [OF parts(3)] opt [OF parts(6)] show ?thesis
    unfolding d' by (auto simp: interpolate_required_Inr)
qed

section \<open>Property maps\<close>

lemma keys_resolve_rounds [simp]: "bt_keys (resolve_rounds n props) = bt_keys props"
  by (induction n arbitrary: props) (auto simp: Let_def)

lemma bt_wf_resolve: "bt_wf (resolve_property_map props) \<longleftrightarrow> bt_wf props"
  by (simp add: resolve_property_map_def bt_wf_def)

lemma bt_wf_insert_prefixed: "bt_wf props \<Longrightarrow> bt_wf (insert_prefixed pre g a v props)"
  by (simp add: insert_prefixed_def)

lemma bt_wf_insert_project_properties:
  "bt_wf props \<Longrightarrow> bt_wf (insert_project_properties props g a v par)"
  by (auto simp: insert_project_properties_def Let_def bt_wf_insert_prefixed split: option.splits)

lemma bt_wf_insert_platform_properties:
  "bt_wf props \<Longrightarrow> bt_wf (insert_platform_properties pf props)"
  by (simp add: insert_platform_properties_def Let_def)

section \<open>Growth of cyclic properties\<close>

lemma replace_nonempty_hit:
  "p \<noteq> [] \<Longrightarrow> replace_nonempty p r (p @ s) = r @ replace_nonempty p r s"
  by (cases p) simp_all

lemma replace_copies:
  assumes "p \<noteq> []"
  shows "replace_all p r (concat (replicate k p)) = concat (replicate k r)"
proof -
  have "replace_nonempty p r (concat (replicate k p)) = concat (replicate k r)"
    by (induction k) (simp_all add: replace_nonempty_hit [OF assms])
  with assms show ?thesis by (simp add: replace_all_def)
qed

lemma concat_replicate_twice:
  "concat (replicate k (x @ x)) = concat (replicate (2 * k) x)"
  by (induction k) simp_all

definition doubling :: properties where
  "doubling = [(''a'', ''${a}${a}'')]"

lemma interpolate_doubling:
  "interpolate_rounds n doubling (concat (replicate (Suc k) ''${a}'')) =
     concat (replicate (2 ^ n * Suc k) ''${a}'')"
proof (induction n arbitrary: k)
  case (Suc n)
  have fp: "first_property (concat (replicate (Suc k) ''${a}'')) = Some ''a''"
    by (simp add: first_property_def)
  have "replace_all ''${a}'' (''${a}'' @ ''${a}'') (concat (replicate (Suc k) ''${a}'')) =
      concat (replicate (Suc k) (''${a}'' @ ''${a}''))"
    by (rule replace_copies) simp
  also have "\<dots> = concat (replicate (Suc (2 * k + 1)) ''${a}'')"
    by (simp only: concat_replicate_twice) simp
  finally have step: "replace_all ''${a}'' ''${a}${a}'' (concat (replicate (Suc k) ''${a}'')) =
      concat (replicate (Suc (2 * k + 1)) ''${a}'')"
    by simp
  have "interpolate_rounds (Suc n) doubling (concat (replicate (Suc k) ''${a}'')) =
      interpolate_rounds n doubling (concat (replicate (Suc (2 * k + 1)) ''${a}''))"
    by (simp only: interpolate_rounds.simps fp option.case marker_def append_Cons append_Nil
        doubling_def bt_get_def map_of.simps fst_conv snd_conv fun_upd_same step)
  also have "\<dots> = concat (replicate (2 ^ n * Suc (2 * k + 1)) ''${a}'')"
    by (rule Suc.IH)
  finally show ?case by (simp add: algebra_simps)
qed simp

section \<open>Properties\<close>

text \<open>
  Required interpolation succeeds exactly when the
  32 substitution rounds leave no placeholder \<open>${...}\<close>, it then returns their result, and text
  without placeholders is returned as it is; otherwise the error names the first placeholder
  that is left and the original text.
\<close>

theorem required_interpolation_complete:
  "(case interpolate_required s props of
      Inr r \<Rightarrow> r = interpolate_loose s props \<and> closed r
    | Inl e \<Rightarrow> \<not> closed (interpolate_loose s props) \<and>
        (\<exists>p. e = UnresolvedProperty p s \<and> first_property (interpolate_loose s props) = Some p)) \<and>
   (closed s \<longrightarrow> interpolate_required s props = Inr s)"
  by (auto simp: interpolate_required_def Let_def first_property_None_iff [symmetric]
      interpolate_loose_closed [unfolded first_property_None_iff [symmetric]] split: option.splits)

theorem required_interpolation_complete_witness:
  "interpolate_required ''lib-1.0'' [] = Inr ''lib-1.0'' \<and> closed ''lib-1.0''"
proof -
  have "closed ''lib-1.0''"
    by (simp add: first_property_None_iff [symmetric] first_property_def)
  then show ?thesis using required_interpolation_complete [of "''lib-1.0''" "[]"] by blast
qed

text \<open>
  Property C40. The bound of 32 rounds does not bound the size of the
  result: with a property \<open>a\<close> whose value mentions itself twice, interpolating \<open>${a}\<close> gives
  2 to the 32 copies of the placeholder, a text of 16 GiB. A POM is untrusted input, so one
  property line makes the resolver run out of memory.
\<close>

theorem cyclic_property_explodes:
  "interpolate_loose ''${a}'' [(''a'', ''${a}${a}'')] = concat (replicate (2 ^ 32) ''${a}'') \<and>
   length (interpolate_loose ''${a}'' [(''a'', ''${a}${a}'')]) = 2 ^ 34"
proof -
  have eq: "interpolate_loose ''${a}'' [(''a'', ''${a}${a}'')] = concat (replicate (2 ^ 32) ''${a}'')"
    using interpolate_doubling [of 32 0] by (simp add: interpolate_loose_def doubling_def)
  have "length (concat (replicate k x)) = k * length x" for k and x :: str
    by (induction k) simp_all
  then show ?thesis unfolding eq by simp
qed

end
