(* ===== verification/Effective.thy ===== *)
theory Effective
  imports Interpolation
begin

text \<open>
  Construction of effective models, \<open>crates/jman-resolver/src/effective.rs\<close>: the collection of
  dependencies by management key, the application of dependency management, and
  \<open>EffectiveModelBuilder\<close> with its cache and its cycle check. \<open>PomSource\<close> is a parameter
  \<open>load\<close> that may change a world \<open>'w\<close>; the futures of the imported BOMs, which the source
  joins and sorts by index, run here in index order. \<open>build_remote\<close> has fuel for the depth of
  the recursion; running out of fuel is \<open>None\<close>.
\<close>

section \<open>Collections of dependencies\<close>

record dependency_collection =
  dc_items :: "dependency list"
  dc_indices :: "str \<Rightarrow> nat option"

fun index_from :: "nat \<Rightarrow> dependency list \<Rightarrow> (str \<Rightarrow> nat option) \<Rightarrow> str \<Rightarrow> nat option" where
  "index_from i [] m = m"
| "index_from i (d # ds) m =
     index_from (Suc i) ds
       (case m (management_key d) of None \<Rightarrow> m(management_key d \<mapsto> i) | Some _ \<Rightarrow> m)"

definition dc_new :: "dependency list \<Rightarrow> dependency_collection" where
  "dc_new items = \<lparr>dc_items = items, dc_indices = index_from 0 items Map.empty\<rparr>"

definition dc_insert_if_absent :: "dependency \<Rightarrow> dependency_collection \<Rightarrow> dependency_collection" where
  "dc_insert_if_absent d dc =
     (case dc_indices dc (management_key d) of
        None \<Rightarrow> \<lparr>dc_items = dc_items dc @ [d],
                dc_indices = (dc_indices dc)(management_key d \<mapsto> length (dc_items dc))\<rparr>
      | Some _ \<Rightarrow> dc)"

definition dc_replace :: "dependency \<Rightarrow> dependency_collection \<Rightarrow> dependency_collection" where
  "dc_replace d dc =
     (case dc_indices dc (management_key d) of
        Some i \<Rightarrow> dc\<lparr>dc_items := (dc_items dc)[i := d]\<rparr>
      | None \<Rightarrow> \<lparr>dc_items = dc_items dc @ [d],
                dc_indices = (dc_indices dc)(management_key d \<mapsto> length (dc_items dc))\<rparr>)"

definition dc_find :: "dependency_collection \<Rightarrow> str \<Rightarrow> dependency option" where
  "dc_find dc k = map_option (\<lambda>i. dc_items dc ! i) (dc_indices dc k)"

text \<open>The index of a key is the position of the first item with that key.\<close>

definition first_index :: "'k \<Rightarrow> 'k list \<Rightarrow> nat option" where
  "first_index k ks = (if k \<in> set ks then Some (length (takeWhile (\<lambda>x. x \<noteq> k) ks)) else None)"

definition dc_ok :: "dependency_collection \<Rightarrow> bool" where
  "dc_ok dc \<longleftrightarrow> dc_indices dc = (\<lambda>k. first_index k (map management_key (dc_items dc)))"

lemma first_index_Nil [simp]: "first_index k [] = None"
  by (simp add: first_index_def)

lemma first_index_Cons:
  "first_index k (x # xs) = (if x = k then Some 0 else map_option Suc (first_index k xs))"
  by (simp add: first_index_def)

lemma first_index_snoc:
  "first_index k (xs @ [x]) =
     (case first_index k xs of Some i \<Rightarrow> Some i | None \<Rightarrow> if x = k then Some (length xs) else None)"
  by (induction xs) (auto simp: first_index_Cons split: option.splits)

lemma first_index_Some: "first_index k ks = Some i \<Longrightarrow> i < length ks \<and> ks ! i = k"
  by (induction ks arbitrary: i) (auto simp: first_index_Cons split: if_splits)

lemma first_index_None: "first_index k ks = None \<longleftrightarrow> k \<notin> set ks"
  by (simp add: first_index_def)

lemma first_index_find:
  "List.find (\<lambda>x. f x = k) xs = map_option (\<lambda>i. xs ! i) (first_index k (map f xs))"
  by (induction xs) (auto simp: first_index_Cons option.map_comp comp_def)

lemma index_from_eq:
  "index_from i ds m =
     (\<lambda>k. case m k of Some j \<Rightarrow> Some j
          | None \<Rightarrow> map_option (\<lambda>j. i + j) (first_index k (map management_key ds)))"
proof (induction i ds m rule: index_from.induct)
  case (2 i d ds m)
  have "map_option ((+) (Suc i)) r = map_option (\<lambda>x. Suc (i + x)) r" for r
    by (cases r) simp_all
  with 2 show ?case
    by (auto simp: first_index_Cons fun_eq_iff option.map_comp comp_def split: option.splits)
qed (auto split: option.splits)

lemma dc_ok_new [simp, intro]: "dc_ok (dc_new ds)"
  by (simp add: dc_ok_def dc_new_def index_from_eq option.map_comp comp_def option.map_ident
      cong: option.case_cong)

lemma dc_items_new [simp]: "dc_items (dc_new ds) = ds"
  by (simp add: dc_new_def)

lemma keys_update_same:
  "i < length ds \<Longrightarrow> management_key (ds ! i) = management_key d \<Longrightarrow>
     map management_key (ds[i := d]) = map management_key ds"
  by (rule map_update_same) simp

lemma dc_ok_replace [simp, intro]:
  assumes "dc_ok dc"
  shows "dc_ok (dc_replace d dc)"
proof (cases "dc_indices dc (management_key d)")
  case None
  with assms show ?thesis
    by (auto simp: dc_ok_def dc_replace_def first_index_snoc fun_eq_iff split: option.splits)
next
  case (Some i)
  with assms have "i < length (dc_items dc)" "management_key (dc_items dc ! i) = management_key d"
    by (auto simp: dc_ok_def dest!: first_index_Some)
  with assms Some show ?thesis by (simp add: dc_ok_def dc_replace_def keys_update_same)
qed

lemma dc_ok_insert_if_absent [simp, intro]: "dc_ok dc \<Longrightarrow> dc_ok (dc_insert_if_absent d dc)"
  by (auto simp: dc_ok_def dc_insert_if_absent_def first_index_snoc fun_eq_iff split: option.splits)

lemma dc_find_ok: "dc_ok dc \<Longrightarrow> dc_find dc k = List.find (\<lambda>x. management_key x = k) (dc_items dc)"
  by (simp add: dc_find_def dc_ok_def first_index_find)

lemma dc_insert_if_absent_eq:
  "dc_ok dc \<Longrightarrow> dc_insert_if_absent d dc =
     (if dc_find dc (management_key d) = None then dc_replace d dc else dc)"
  by (auto simp: dc_insert_if_absent_def dc_find_def dc_replace_def split: option.splits)

lemma dc_keys_replace:
  assumes "dc_ok dc"
  shows "map management_key (dc_items (dc_replace d dc)) =
     (if management_key d \<in> management_key ` set (dc_items dc)
      then map management_key (dc_items dc)
      else map management_key (dc_items dc) @ [management_key d])"
proof (cases "dc_indices dc (management_key d)")
  case None
  then have "map management_key (dc_items (dc_replace d dc)) =
      map management_key (dc_items dc) @ [management_key d]"
    by (simp add: dc_replace_def)
  moreover have "management_key d \<notin> management_key ` set (dc_items dc)"
    using None assms by (auto simp: dc_ok_def first_index_None)
  ultimately show ?thesis by simp
next
  case (Some i)
  with assms have i: "first_index (management_key d) (map management_key (dc_items dc)) = Some i"
    by (simp add: dc_ok_def)
  then have "management_key d \<in> management_key ` set (dc_items dc)"
    by (metis first_index_None list.set_map option.distinct(1))
  moreover have "i < length (dc_items dc)" "management_key (dc_items dc ! i) = management_key d"
    using first_index_Some [OF i] by auto
  ultimately show ?thesis using Some
    by (simp add: dc_replace_def keys_update_same)
qed

lemma dc_find_replace:
  assumes "dc_ok dc"
  shows "dc_find (dc_replace d dc) k = (if k = management_key d then Some d else dc_find dc k)"
proof -
  have bound: "dc_indices dc k = Some j \<Longrightarrow> j < length (dc_items dc) \<and>
      management_key (dc_items dc ! j) = k" for k j
    using assms by (auto simp: dc_ok_def dest!: first_index_Some)
  show ?thesis
proof (cases "dc_indices dc (management_key d)")
  case None
  with bound show ?thesis
    by (cases "dc_indices dc k") (auto simp: dc_find_def dc_replace_def nth_append)
next
  case (Some i)
  with bound show ?thesis
    by (cases "dc_indices dc k")
       (auto simp: dc_find_def dc_replace_def nth_list_update split: if_splits)
qed
qed

interpretation dc: keyed_store_absent management_key dc_items dc_replace dc_find dc_ok
  dc_insert_if_absent
  by unfold_locales
     (simp_all add: dc_find_ok [symmetric] dc_find_replace dc_keys_replace dc_insert_if_absent_eq)

section \<open>Repositories by identifier\<close>

fun replace_repository :: "repository \<Rightarrow> repository list \<Rightarrow> repository list" where
  "replace_repository r [] = [r]"
| "replace_repository r (x # xs) = (if r_id x = r_id r then r # xs else x # replace_repository r xs)"

definition find_repository :: "repository list \<Rightarrow> str \<Rightarrow> repository option" where
  "find_repository rs k = List.find (\<lambda>x. r_id x = k) rs"

interpretation repos: keyed_store r_id "\<lambda>rs. rs" replace_repository find_repository "\<lambda>_. True"
proof
  fix rs k and r :: repository
  show "find_repository rs k = List.find (\<lambda>x. r_id x = k) rs"
    by (simp add: find_repository_def)
  show "find_repository (replace_repository r rs) k = (if k = r_id r then Some r else find_repository rs k)"
    by (induction rs) (auto simp: find_repository_def)
  show "map r_id (replace_repository r rs) =
      (if r_id r \<in> r_id ` set rs then map r_id rs else map r_id rs @ [r_id r])"
    by (induction rs) auto
qed simp

section \<open>Dependency management\<close>

definition apply_management ::
    "dependency list \<Rightarrow> (str \<Rightarrow> nat option) \<Rightarrow> dependency \<Rightarrow> dependency" where
  "apply_management management indices d =
     (case map_option (\<lambda>i. management ! i) (indices (management_key d)) of
        None \<Rightarrow> d
      | Some m \<Rightarrow>
          d\<lparr>d_version := (if d_version d = None then d_version m else d_version d),
            d_scope := (if \<not> d_scope_explicit d then d_scope m else d_scope d),
            d_type := (if \<not> d_type_explicit d then d_type m else d_type d),
            d_optional := (if d_optional d = None then d_optional m else d_optional d),
            d_exclusions := push_missing (d_exclusions d) (d_exclusions m)\<rparr>)"

section \<open>The builder\<close>

text \<open>
  The state of a builder is its cache of models, keyed by the displayed coordinate, and the
  world of its source. A step returns a result and the next state, or \<open>None\<close> without fuel.
\<close>

type_synonym 'w builder_state = "(str \<Rightarrow> effective_pom option) \<times> 'w"

type_synonym ('w, 'a) build = "'w builder_state \<Rightarrow> ('a resolved \<times> 'w builder_state) option"

type_synonym 'w pom_source = "coordinate \<Rightarrow> 'w \<Rightarrow> str resolved \<times> 'w"

definition lift_build :: "'a resolved \<Rightarrow> ('w, 'a) build" where
  "lift_build r s = Some (r, s)"

definition bind_build :: "('w, 'a) build \<Rightarrow> ('a \<Rightarrow> ('w, 'b) build) \<Rightarrow> ('w, 'b) build" where
  "bind_build m f s =
     (case m s of
        None \<Rightarrow> None
      | Some (Inl e, s') \<Rightarrow> Some (Inl e, s')
      | Some (Inr x, s') \<Rightarrow> f x s')"

fun traverse_build :: "('a \<Rightarrow> ('w, 'b) build) \<Rightarrow> 'a list \<Rightarrow> ('w, 'b list) build" where
  "traverse_build f [] = lift_build (Inr [])"
| "traverse_build f (x # xs) =
     bind_build (f x) (\<lambda>y. bind_build (traverse_build f xs) (\<lambda>ys. lift_build (Inr (y # ys))))"

definition remember :: "effective_pom \<Rightarrow> 'w builder_state \<Rightarrow> 'w builder_state" where
  "remember model s = ((fst s)(coordinate_display (e_coordinate model) \<mapsto> model), snd s)"

definition parent_coordinate :: "raw_pom \<Rightarrow> coordinate option" where
  "parent_coordinate raw =
     map_option (\<lambda>p. coordinate_pom
         (interpolate_loose (p_group p) (raw_properties raw))
         (interpolate_loose (p_artifact p) (raw_properties raw))
         (interpolate_loose (p_version p) (raw_properties raw)))
       (raw_parent raw)"

definition inherit :: "str \<Rightarrow> str option \<Rightarrow> str option \<Rightarrow> str resolved" where
  "inherit what own inherited =
     ok_or (InvalidPom (''missing project '' @ what))
       (case own of Some v \<Rightarrow> Some v | None \<Rightarrow> inherited)"

text \<open>What the parent contributes; the empty default where there is none.\<close>

definition parent_list :: "(effective_pom \<Rightarrow> 'a list) \<Rightarrow> effective_pom option \<Rightarrow> 'a list" where
  "parent_list f par = (case par of None \<Rightarrow> [] | Some m \<Rightarrow> f m)"

definition property_templates :: "raw_pom \<Rightarrow> effective_pom option \<Rightarrow> properties" where
  "property_templates raw par =
     bt_extend (parent_list e_property_templates par) (raw_properties raw)"

definition first_properties :: "platform \<Rightarrow> raw_pom \<Rightarrow> properties \<Rightarrow> str \<Rightarrow> str \<Rightarrow> properties" where
  "first_properties pf raw templates g v =
     resolve_property_map
       (insert_project_properties (insert_platform_properties pf templates)
          g (raw_artifact raw) v (raw_parent raw))"

definition final_properties :: "raw_pom \<Rightarrow> properties \<Rightarrow> str \<Rightarrow> str \<Rightarrow> str \<Rightarrow> properties" where
  "final_properties raw props g a v =
     resolve_property_map (insert_project_properties props g a v (raw_parent raw))"

text \<open>
  The dependency management of the POM itself: the imports of BOMs with their coordinates, and
  the direct entries. \<open>enumerate\<close> and the later sort only keep the order of the imports.
\<close>

definition is_import :: "dependency \<Rightarrow> bool" where
  "is_import d \<longleftrightarrow> d_scope d = ''import'' \<and> d_type d = ''pom''"

fun split_management ::
    "properties \<Rightarrow> dependency list \<Rightarrow> (coordinate list \<times> dependency list) resolved" where
  "split_management props [] = Inr ([], [])"
| "split_management props (d # ds) =
     (let d = interpolate_managed_dependency d props
      in if is_import d
         then and_then (dependency_coordinate d) (\<lambda>c.
              and_then (split_management props ds) (\<lambda>(imports, direct). Inr (c # imports, direct)))
         else and_then (split_management props ds) (\<lambda>(imports, direct). Inr (imports, d # direct)))"

definition current_management ::
    "effective_pom list \<Rightarrow> dependency list \<Rightarrow> dependency_collection" where
  "current_management imported direct =
     fold dc_replace direct
       (fold dc_insert_if_absent (concat (map e_management imported)) (dc_new []))"

definition merged_management ::
    "effective_pom option \<Rightarrow> effective_pom list \<Rightarrow> dependency list \<Rightarrow> dependency_collection" where
  "merged_management par imported direct =
     fold dc_replace (dc_items (current_management imported direct))
       (dc_new (parent_list e_management par))"

definition managed_dependency ::
    "properties \<Rightarrow> dependency_collection \<Rightarrow> dependency \<Rightarrow> dependency resolved" where
  "managed_dependency props management d =
     and_then (interpolate_dependency d props) (\<lambda>d.
       Inr (apply_management (dc_items management) (dc_indices management) d))"

definition interpolate_repository :: "properties \<Rightarrow> repository \<Rightarrow> repository resolved" where
  "interpolate_repository props r =
     and_then (interpolate_required (r_id r) props) (\<lambda>i.
     and_then (interpolate_required (r_url r) props) (\<lambda>u.
       Inr (r\<lparr>r_id := i, r_url := u\<rparr>)))"

definition interpolate_all :: "properties \<Rightarrow> str list \<Rightarrow> str list resolved" where
  "interpolate_all props = traverse (\<lambda>v. interpolate_required v props)"

definition relocation_coordinate ::
    "properties \<Rightarrow> str \<Rightarrow> str \<Rightarrow> str \<Rightarrow> relocation \<Rightarrow> coordinate" where
  "relocation_coordinate props g a v r =
     coordinate_pom
       (interpolate_loose (case rel_group r of None \<Rightarrow> g | Some x \<Rightarrow> x) props)
       (interpolate_loose (case rel_artifact r of None \<Rightarrow> a | Some x \<Rightarrow> x) props)
       (interpolate_loose (case rel_version r of None \<Rightarrow> v | Some x \<Rightarrow> x) props)"

text \<open>The last part of \<open>build_raw\<close>, after the parent and the BOMs have been built.\<close>

definition assemble ::
    "raw_pom \<Rightarrow> effective_pom option \<Rightarrow> properties \<Rightarrow> properties \<Rightarrow> str \<Rightarrow> str \<Rightarrow> str \<Rightarrow>
     coordinate list \<Rightarrow> effective_pom list \<Rightarrow> dependency list \<Rightarrow> effective_pom resolved" where
  "assemble raw par templates props g a v bom_imports imported direct =
     (let management = merged_management par imported direct
      in and_then (traverse (managed_dependency props management) (raw_dependencies raw)) (\<lambda>deps.
         and_then (traverse (interpolate_repository props) (raw_repositories raw)) (\<lambda>repos.
         and_then (traverse (\<lambda>p. and_then
             (managed_dependency props management (ap_dependency p))
             (\<lambda>d. Inr \<lparr>ap_dependency = d\<rparr>)) (raw_processors raw)) (\<lambda>processors.
         and_then (interpolate_all props (raw_compiler_args raw)) (\<lambda>args.
         and_then (interpolate_all props (raw_modules raw)) (\<lambda>modules.
         and_then (interpolate_required (raw_packaging raw) props) (\<lambda>packaging.
           Inr \<lparr>e_coordinate = coordinate_pom g a v,
                e_parent = parent_coordinate raw,
                e_packaging = packaging, e_modules = modules,
                e_property_templates = templates, e_properties = props,
                e_dependencies =
                  dc_items (fold dc_replace deps (dc_new (parent_list e_dependencies par))),
                e_management = dc_items management,
                e_bom_imports = bom_imports,
                e_repositories =
                  fold replace_repository repos (parent_list e_repositories par),
                e_processors = processors, e_compiler_args = args,
                e_relocation =
                  map_option (relocation_coordinate props g a v) (raw_relocation raw)\<rparr>)))))))"

definition build_raw ::
    "platform \<Rightarrow> (coordinate \<Rightarrow> str list \<Rightarrow> ('w, effective_pom) build) \<Rightarrow> raw_pom \<Rightarrow> str list \<Rightarrow>
     ('w, effective_pom) build" where
  "build_raw pf remote raw stack =
     bind_build
       (case parent_coordinate raw of
          None \<Rightarrow> lift_build (Inr None)
        | Some c \<Rightarrow> bind_build (remote c stack) (\<lambda>m. lift_build (Inr (Some m)))) (\<lambda>par.
     bind_build (lift_build (inherit ''groupId'' (raw_group raw)
         (map_option (\<lambda>m. c_group (e_coordinate m)) par))) (\<lambda>g.
     bind_build (lift_build (inherit ''version'' (raw_version raw)
         (map_option (\<lambda>m. c_version (e_coordinate m)) par))) (\<lambda>v.
       let templates = property_templates raw par;
           props = first_properties pf raw templates g v
       in bind_build (lift_build (interpolate_required g props)) (\<lambda>g.
          bind_build (lift_build (interpolate_required (raw_artifact raw) props)) (\<lambda>a.
          bind_build (lift_build (interpolate_required v props)) (\<lambda>v.
            let props = final_properties raw props g a v
            in bind_build (lift_build (split_management props (raw_management raw)))
                 (\<lambda>(imports, direct).
               bind_build (traverse_build (\<lambda>c. remote c stack) imports) (\<lambda>imported.
                 lift_build (assemble raw par templates props g a v imports imported direct)))))))))"

fun build_remote ::
    "xml_parser \<Rightarrow> platform \<Rightarrow> 'w pom_source \<Rightarrow> nat \<Rightarrow> coordinate \<Rightarrow> str list \<Rightarrow>
     ('w, effective_pom) build" where
  "build_remote parse_xml pf load 0 coord stack s = None"
| "build_remote parse_xml pf load (Suc n) coord stack s =
     (let key = coordinate_display coord
      in case fst s key of
           Some cached \<Rightarrow> Some (Inr cached, s)
         | None \<Rightarrow>
             if key \<in> set stack
             then Some (Inl (ModelCycle (join_with '' -> '' (stack @ [key]))), s)
             else
               (case load coord (snd s) of
                  (Inl e, w) \<Rightarrow> Some (Inl e, (fst s, w))
                | (Inr xml, w) \<Rightarrow>
                    (case parse_pom parse_xml pf xml of
                       Inl e \<Rightarrow> Some (Inl e, (fst s, w))
                     | Inr raw \<Rightarrow>
                         (case build_raw pf (build_remote parse_xml pf load n) raw
                                 (stack @ [key]) (fst s, w) of
                            None \<Rightarrow> None
                          | Some (Inl e, s') \<Rightarrow> Some (Inl (ModelContext key e), s')
                          | Some (Inr model, s') \<Rightarrow>
                              Some (Inr model, ((fst s')(key \<mapsto> model), snd s'))))))"

definition build_coordinate ::
    "xml_parser \<Rightarrow> platform \<Rightarrow> 'w pom_source \<Rightarrow> nat \<Rightarrow> coordinate \<Rightarrow> ('w, effective_pom) build" where
  "build_coordinate parse_xml pf load n coord = build_remote parse_xml pf load n coord []"

definition build_local ::
    "xml_parser \<Rightarrow> platform \<Rightarrow> 'w pom_source \<Rightarrow> nat \<Rightarrow> str \<Rightarrow> ('w, effective_pom) build" where
  "build_local parse_xml pf load n xml =
     bind_build (lift_build (parse_pom parse_xml pf xml)) (\<lambda>raw.
       build_raw pf (build_remote parse_xml pf load n) raw [])"

definition build_precomputed ::
    "xml_parser \<Rightarrow> platform \<Rightarrow> 'w pom_source \<Rightarrow> nat \<Rightarrow> raw_pom \<Rightarrow> ('w, effective_pom) build" where
  "build_precomputed parse_xml pf load n raw =
     bind_build (build_raw pf (build_remote parse_xml pf load n) (raw\<lparr>raw_parent := None\<rparr>) [])
       (\<lambda>m. lift_build (Inr (m\<lparr>e_parent :=
          map_option (\<lambda>p. coordinate_pom (p_group p) (p_artifact p) (p_version p))
            (raw_parent raw)\<rparr>)))"

section \<open>Steps with state and fuel\<close>

lemma lift_build_Some [simp]: "lift_build r s = Some (r', s') \<longleftrightarrow> r' = r \<and> s' = s"
  by (auto simp: lift_build_def)

definition total_build :: "('w, 'a) build \<Rightarrow> bool" where
  "total_build m \<longleftrightarrow> (\<forall>s. m s \<noteq> None)"

lemma total_lift: "total_build (lift_build r)"
  by (simp add: total_build_def lift_build_def)

lemma total_bind: "total_build m \<Longrightarrow> (\<And>x. total_build (f x)) \<Longrightarrow> total_build (bind_build m f)"
proof -
  assume m: "total_build m" and f: "\<And>x. total_build (f x)"
  have "bind_build m f s \<noteq> None" for s
  proof (cases "m s")
    case None
    with m have False unfolding total_build_def by blast
    then show ?thesis ..
  next
    case (Some p)
    then show ?thesis using f
      by (cases p; cases "fst p") (simp_all add: bind_build_def total_build_def)
  qed
  then show ?thesis by (simp add: total_build_def)
qed

lemma total_traverse: "(\<And>x. total_build (f x)) \<Longrightarrow> total_build (traverse_build f xs)"
  by (induction xs) (auto intro!: total_lift total_bind)

lemma bind_build_Some:
  "bind_build m f s = Some (r, s') \<longleftrightarrow>
     (\<exists>e. m s = Some (Inl e, s') \<and> r = Inl e) \<or>
     (\<exists>x s1. m s = Some (Inr x, s1) \<and> f x s1 = Some (r, s'))"
  by (auto simp: bind_build_def split: option.splits sum.splits)

lemma bind_build_Inr:
  "bind_build m f s = Some (Inr y, s') \<longleftrightarrow> (\<exists>x s1. m s = Some (Inr x, s1) \<and> f x s1 = Some (Inr y, s'))"
  by (auto simp: bind_build_Some)

definition keeps :: "('s \<Rightarrow> 's \<Rightarrow> bool) \<Rightarrow> ('s \<Rightarrow> ('r \<times> 's) option) \<Rightarrow> bool" where
  "keeps R m \<longleftrightarrow> (\<forall>s r s'. m s = Some (r, s') \<longrightarrow> R s s')"

lemma keepsD: "keeps R m \<Longrightarrow> m s = Some (r, s') \<Longrightarrow> R s s'"
  by (auto simp: keeps_def)

lemma keeps_lift: "reflp R \<Longrightarrow> keeps R (lift_build r)"
  by (simp add: keeps_def reflp_def)

lemma keeps_bind:
  assumes "transp R" "keeps R m" "\<And>x. keeps R (f x)"
  shows "keeps R (bind_build m f)"
  unfolding keeps_def
proof (intro allI impI)
  fix s r s'
  assume "bind_build m f s = Some (r, s')"
  then consider e where "m s = Some (Inl e, s')"
    | x s1 where "m s = Some (Inr x, s1)" "f x s1 = Some (r, s')"
    unfolding bind_build_Some by blast
  then show "R s s'"
    using assms(2) keepsD [OF assms(3)] transpD [OF assms(1)] by cases (blast dest: keepsD)+
qed

lemma keeps_traverse:
  assumes "reflp R" "transp R" "\<And>x. keeps R (f x)"
  shows "keeps R (traverse_build f xs)"
  by (induction xs) (auto intro!: keeps_bind keeps_lift assms)

lemma traverse_build_Inr:
  "traverse_build f xs s = Some (Inr ys, s') \<Longrightarrow> y \<in> set ys \<Longrightarrow>
     \<exists>x s1 s2. x \<in> set xs \<and> f x s1 = Some (Inr y, s2)"
proof (induction xs arbitrary: s s' ys)
  case (Cons x xs)
  from Cons.prems(1) obtain z s1 zs s2 where z: "f x s = Some (Inr z, s1)"
    and zs: "traverse_build f xs s1 = Some (Inr zs, s2)" and ys: "ys = z # zs"
    by (auto simp: bind_build_Inr)
  show ?case
  proof (cases "y = z")
    case True
    with z show ?thesis by (meson list.set_intros(1))
  next
    case False
    with Cons.prems(2) ys have "y \<in> set zs" by simp
    from Cons.IH [OF zs this] show ?thesis by (meson list.set_intros(2))
  qed
qed simp

lemma keeps_prod: "(\<And>a b. keeps R (f a b)) \<Longrightarrow> keeps R (case p of (a, b) \<Rightarrow> f a b)"
  by (cases p) simp

text \<open>The state changes of \<open>build_raw\<close> are those of its remote builds.\<close>

lemma keeps_build_raw:
  assumes R: "reflp R" "transp R" and remote: "\<And>c. keeps R (remote c stack)"
  shows "keeps R (build_raw pf remote raw stack)"
proof (cases "parent_coordinate raw")
  case None
  show ?thesis unfolding build_raw_def Let_def None option.case
    by (intro keeps_bind [OF R(2)] keeps_lift [OF R(1)] keeps_traverse [OF R] keeps_prod remote)
next
  case (Some c)
  show ?thesis unfolding build_raw_def Let_def Some option.case
    by (intro keeps_bind [OF R(2)] keeps_lift [OF R(1)] keeps_traverse [OF R] keeps_prod remote)
qed

lemma total_prod: "(\<And>a b. total_build (f a b)) \<Longrightarrow> total_build (case p of (a, b) \<Rightarrow> f a b)"
  by (cases p) simp

lemma total_build_raw:
  assumes "\<And>c. total_build (remote c stack)"
  shows "total_build (build_raw pf remote raw stack)"
proof (cases "parent_coordinate raw")
  case None
  show ?thesis unfolding build_raw_def Let_def None option.case
    by (intro total_bind total_lift total_traverse total_prod assms)
next
  case (Some c)
  show ?thesis unfolding build_raw_def Let_def Some option.case
    by (intro total_bind total_lift total_traverse total_prod assms)
qed

text \<open>A step that returns more often, and otherwise the same.\<close>

definition extends_build :: "('w, 'a) build \<Rightarrow> ('w, 'a) build \<Rightarrow> bool" where
  "extends_build m m' \<longleftrightarrow> (\<forall>s r. m s = Some r \<longrightarrow> m' s = Some r)"

lemma extends_lift: "extends_build (lift_build r) (lift_build r)"
  by (simp add: extends_build_def)

lemma extends_bind:
  assumes "extends_build m m'" "\<And>x. extends_build (f x) (f' x)"
  shows "extends_build (bind_build m f) (bind_build m' f')"
  unfolding extends_build_def
proof (intro allI impI)
  fix s r
  assume "bind_build m f s = Some r"
  then have "bind_build m f s = Some (fst r, snd r)" by simp
  then have "bind_build m' f' s = Some (fst r, snd r)"
    using assms unfolding bind_build_Some extends_build_def by blast
  then show "bind_build m' f' s = Some r" by simp
qed

lemma extends_traverse:
  "(\<And>x. extends_build (f x) (f' x)) \<Longrightarrow> extends_build (traverse_build f xs) (traverse_build f' xs)"
  by (induction xs) (auto intro!: extends_lift extends_bind)

lemma extends_prod:
  "(\<And>a b. extends_build (f a b) (f' a b)) \<Longrightarrow>
     extends_build (case p of (a, b) \<Rightarrow> f a b) (case p of (a, b) \<Rightarrow> f' a b)"
  by (cases p) simp

lemma extends_build_raw:
  assumes "\<And>c. extends_build (remote c stack) (remote' c stack)"
  shows "extends_build (build_raw pf remote raw stack) (build_raw pf remote' raw stack)"
proof (cases "parent_coordinate raw")
  case None
  show ?thesis unfolding build_raw_def Let_def None option.case
    by (intro extends_bind extends_lift extends_traverse extends_prod assms)
next
  case (Some c)
  show ?thesis unfolding build_raw_def Let_def Some option.case
    by (intro extends_bind extends_lift extends_traverse extends_prod assms)
qed

section \<open>Fuel\<close>

lemma build_remote_more_fuel:
  "extends_build (build_remote parse_xml pf load n c stack)
     (build_remote parse_xml pf load (Suc n) c stack)"
proof (induction n arbitrary: c stack)
  case 0
  then show ?case by (simp add: extends_build_def)
next
  case (Suc n)
  note raw = extends_build_raw [OF Suc.IH, unfolded extends_build_def, rule_format]
  show ?case unfolding extends_build_def
  proof (intro allI impI)
    fix s r
    assume run: "build_remote parse_xml pf load (Suc n) c stack s = Some r"
    have step: "build_raw pf (build_remote parse_xml pf load (Suc n)) raw st s1 = Some x"
      if "build_raw pf (build_remote parse_xml pf load n) raw st s1 = Some x" for raw st s1 x
      using raw that .
    note outer = build_remote.simps(2) [of parse_xml pf load "Suc n" c stack s]
    from run show "build_remote parse_xml pf load (Suc (Suc n)) c stack s = Some r"
      unfolding outer build_remote.simps(2) [of parse_xml pf load n c stack s] Let_def
      by (auto split: option.splits prod.splits sum.splits if_splits dest!: step
          simp del: build_remote.simps)
  qed
qed

lemma build_remote_enough_fuel:
  assumes fin: "finite U"
    and loads: "\<And>c w x w'. load c w = (Inr x, w') \<Longrightarrow> coordinate_display c \<in> U"
  shows "distinct stack \<Longrightarrow> set stack \<subseteq> U \<Longrightarrow> card U - length stack < n \<Longrightarrow>
    total_build (build_remote parse_xml pf load n c stack)"
proof (induction n arbitrary: c stack)
  case (Suc n)
  show ?case unfolding total_build_def
  proof
    fix s
    let ?key = "coordinate_display c"
    have raw: "build_raw pf (build_remote parse_xml pf load n) raw (stack @ [?key]) s' \<noteq> None"
      if "load c w = (Inr xml, w')" "?key \<notin> set stack" for raw s' xml w w'
    proof -
      from that(1) have U: "?key \<in> U" by (rule loads)
      have distinct: "distinct (stack @ [?key])" and sub: "set (stack @ [?key]) \<subseteq> U"
        using that(2) U Suc.prems by auto
      then have "length (stack @ [?key]) \<le> card U"
        by (metis card_mono distinct_card fin)
      with Suc.prems(3) have "card U - length (stack @ [?key]) < n" by simp
      with distinct sub show ?thesis
        using total_build_raw Suc.IH unfolding total_build_def by blast
    qed
    then show "build_remote parse_xml pf load (Suc n) c stack s \<noteq> None"
    proof (cases "?key \<in> set stack")
      case False
      have "build_raw pf (build_remote parse_xml pf load n) raw (stack @ [?key]) s' \<noteq> None"
        if "load c w = (Inr xml, w')" for raw s' xml w w'
        using raw [OF that False] .
      then show ?thesis using False
        by (auto simp add: Let_def simp del: not_None_eq split: option.split prod.split sum.split)
    qed (simp add: Let_def split: option.split)
  qed
qed simp

section \<open>The cache\<close>

text \<open>What a build may do to the cache: add entries, but none under a key of its stack.\<close>

definition cache_grows :: "str list \<Rightarrow> 'w builder_state \<Rightarrow> 'w builder_state \<Rightarrow> bool" where
  "cache_grows stack s s' \<longleftrightarrow>
     (\<forall>k m. fst s k = Some m \<longrightarrow> fst s' k = Some m) \<and>
     (\<forall>k \<in> set stack. fst s' k = fst s k)"

lemma cache_grows_refl: "reflp (cache_grows stack)"
  by (simp add: reflp_def cache_grows_def)

lemma cache_grows_trans: "transp (cache_grows stack)"
  by (auto simp: transp_def cache_grows_def)

lemma build_remote_cache_grows: "keeps (cache_grows stack) (build_remote parse_xml pf load n c stack)"
proof (induction n arbitrary: c stack)
  case 0
  then show ?case by (simp add: keeps_def)
next
  case (Suc n)
  show ?case unfolding keeps_def
  proof (intro allI impI)
    fix s r s'
    assume run: "build_remote parse_xml pf load (Suc n) c stack s = Some (r, s')"
    let ?key = "coordinate_display c"
    show "cache_grows stack s s'"
    proof (cases "fst s ?key = None \<and> ?key \<notin> set stack")
      case True
      have grows: "cache_grows (stack @ [?key]) (fst s, w) s1"
        if "build_raw pf (build_remote parse_xml pf load n) raw (stack @ [?key]) (fst s, w) =
            Some (x, s1)" for raw w x s1
        using keeps_build_raw [OF cache_grows_refl cache_grows_trans Suc.IH] that
        by (rule keepsD)
      have "cache_grows stack s ((fst s1)(?key \<mapsto> m), snd s1) \<and> cache_grows stack s s1"
        if "cache_grows (stack @ [?key]) (fst s, w) s1" for s1 w m
        using that True by (auto simp: cache_grows_def)
      with run True grows show ?thesis
        by (auto simp: Let_def cache_grows_def split: prod.splits sum.splits option.splits
            simp del: fun_upd_apply)
    next
      case False
      with run show ?thesis
        by (auto simp: Let_def cache_grows_def split: option.splits if_splits)
    qed
  qed
qed

lemma build_remote_caches:
  assumes "build_remote parse_xml pf load n c stack s = Some (Inr m, s')"
  shows "fst s' (coordinate_display c) = Some m"
  using assms by (cases n) (auto simp: Let_def split: option.splits prod.splits sum.splits if_splits)

text \<open>Apart from the cache, a build changes the world only by loading POMs.\<close>

lemma build_remote_world:
  assumes Q: "reflp Q" "transp Q" and load: "\<And>c w. Q w (snd (load c w))"
  shows "keeps (\<lambda>s s'. Q (snd s) (snd s')) (build_remote parse_xml pf load n c stack)"
proof (induction n arbitrary: c stack)
  case 0
  then show ?case by (simp add: keeps_def)
next
  case (Suc n)
  have R: "reflp (\<lambda>s s' :: 'a builder_state. Q (snd s) (snd s'))"
    "transp (\<lambda>s s' :: 'a builder_state. Q (snd s) (snd s'))"
    using Q by (auto simp: reflp_def intro: transpI dest: transpD)
  have raw: "Q (snd s) (snd s')"
    if "build_raw pf (build_remote parse_xml pf load n) raw st s = Some (r, s')" for raw st s r s'
    using keepsD [OF keeps_build_raw [OF R Suc.IH] that] .
  show ?case unfolding keeps_def
  proof (intro allI impI)
    fix s r s'
    assume run: "build_remote parse_xml pf load (Suc n) c stack s = Some (r, s')"
    obtain x w where l: "load c (snd s) = (x, w)" by fastforce
    then have "Q (snd s) w" using load [of "snd s" c] by simp
    moreover have "Q (snd s) (snd s)" using Q(1) by (simp add: reflp_def)
    moreover have "Q (snd s) b" if "Q w b" for b
      using transpD [OF Q(2) calculation(1) that] .
    ultimately show "Q (snd s) (snd s')"
      using run l by (auto simp: Let_def split: option.splits sum.splits if_splits dest!: raw)
  qed
qed

section \<open>Well-formed models\<close>

definition dependency_closed :: "dependency \<Rightarrow> bool" where
  "dependency_closed d \<longleftrightarrow> closed (d_group d) \<and> closed (d_artifact d) \<and>
     pred_option closed (d_classifier d)"

definition coordinate_closed :: "coordinate \<Rightarrow> bool" where
  "coordinate_closed c \<longleftrightarrow> closed (c_group c) \<and> closed (c_artifact c) \<and> closed (c_version c) \<and>
     c_extension c = ''pom'' \<and> c_classifier c = None"

definition model_ok :: "effective_pom \<Rightarrow> bool" where
  "model_ok m \<longleftrightarrow> coordinate_closed (e_coordinate m) \<and> closed (e_packaging m) \<and>
     bt_wf (e_property_templates m) \<and> bt_wf (e_properties m) \<and>
     distinct (map management_key (e_management m)) \<and>
     (\<forall>d \<in> set (e_dependencies m). dependency_closed d) \<and>
     distinct (map r_id (e_repositories m))"

lemma apply_management_same [simp]:
  "d_group (apply_management ms ix d) = d_group d"
  "d_artifact (apply_management ms ix d) = d_artifact d"
  "d_classifier (apply_management ms ix d) = d_classifier d"
  by (simp_all add: apply_management_def split: option.split)

lemma managed_dependency_closed: "managed_dependency props ms d = Inr d' \<Longrightarrow> dependency_closed d'"
  by (auto simp: managed_dependency_def and_then_Inr_iff dependency_closed_def
      dest!: interpolate_dependency_closed)

lemma dc_ok_merged [simp, intro]: "dc_ok (merged_management par imported direct)"
  unfolding merged_management_def by (rule dc.ok_fold_put) simp

lemma dc_ok_current [simp, intro]: "dc_ok (current_management imported direct)"
  unfolding current_management_def by (rule dc.ok_fold_put, rule dc.ok_fold_put_absent) simp

lemma distinct_current: "distinct (map management_key (dc_items (current_management imported direct)))"
  unfolding current_management_def
  by (rule dc.distinct_keys_fold_put, rule dc.ok_fold_put_absent, simp,
      rule dc.distinct_keys_fold_put_absent) simp_all

lemma distinct_merged:
  assumes "case par of None \<Rightarrow> True | Some m \<Rightarrow> model_ok m"
  shows "distinct (map management_key (dc_items (merged_management par imported direct)))"
  unfolding merged_management_def
  by (rule dc.distinct_keys_fold_put)
     (use assms in \<open>simp_all add: parent_list_def model_ok_def split: option.splits\<close>)

lemma find_rev_distinct:
  "distinct (map f xs) \<Longrightarrow> List.find (\<lambda>x. f x = k) (rev xs) = List.find (\<lambda>x. f x = k) xs"
proof (induction xs)
  case (Cons x xs)
  have "List.find (\<lambda>x. f x = k) xs = None" if "f x = k"
    unfolding find_None_all using Cons.prems that by (metis distinct.simps(2) image_eqI list.map(2)
        list.set_map)
  with Cons show ?case by (simp add: find_append split: option.split)
qed simp

lemma dc_find_merged:
  "dc_find (merged_management par imported direct) k =
     (case List.find (\<lambda>d. management_key d = k) (rev direct) of
        Some d \<Rightarrow> Some d
      | None \<Rightarrow>
          (case List.find (\<lambda>d. management_key d = k) (concat (map e_management imported)) of
             Some d \<Rightarrow> Some d
           | None \<Rightarrow> List.find (\<lambda>d. management_key d = k) (parent_list e_management par)))"
proof -
  let ?cur = "current_management imported direct"
  have "dc_find (merged_management par imported direct) k =
      (case List.find (\<lambda>d. management_key d = k) (rev (dc_items ?cur)) of
         Some d \<Rightarrow> Some d | None \<Rightarrow> List.find (\<lambda>d. management_key d = k) (parent_list e_management par))"
    unfolding merged_management_def
    by (subst dc.find_key_fold_put) (simp_all add: dc_find_ok split: option.split)
  also have "List.find (\<lambda>d. management_key d = k) (rev (dc_items ?cur)) = dc_find ?cur k"
    by (simp add: find_rev_distinct [OF distinct_current] dc_find_ok)
  also have "dc_find ?cur k =
      (case List.find (\<lambda>d. management_key d = k) (rev direct) of
         Some d \<Rightarrow> Some d
       | None \<Rightarrow> List.find (\<lambda>d. management_key d = k) (concat (map e_management imported)))"
    unfolding current_management_def
    by (subst dc.find_key_fold_put, rule dc.ok_fold_put_absent, simp,
        subst dc.find_key_fold_put_absent)
       (simp_all add: dc_find_ok split: option.split)
  finally show ?thesis by (simp split: option.splits)
qed

lemma assemble_Inr:
  assumes "assemble raw par templates props g a v boms imported direct = Inr m"
  obtains deps repos processors args modules packaging
  where "traverse (managed_dependency props (merged_management par imported direct))
      (raw_dependencies raw) = Inr deps"
    and "traverse (interpolate_repository props) (raw_repositories raw) = Inr repos"
    and "interpolate_required (raw_packaging raw) props = Inr packaging"
    and "m = \<lparr>e_coordinate = coordinate_pom g a v,
          e_parent = parent_coordinate raw,
          e_packaging = packaging, e_modules = modules,
          e_property_templates = templates, e_properties = props,
          e_dependencies = dc_items (fold dc_replace deps (dc_new (parent_list e_dependencies par))),
          e_management = dc_items (merged_management par imported direct),
          e_bom_imports = boms,
          e_repositories = fold replace_repository repos (parent_list e_repositories par),
          e_processors = processors, e_compiler_args = args,
          e_relocation = map_option (relocation_coordinate props g a v) (raw_relocation raw)\<rparr>"
  using assms unfolding assemble_def Let_def and_then_Inr_iff by auto

lemma model_ok_assemble:
  assumes asm: "assemble raw par templates props g a v boms imported direct = Inr m"
    and par: "case par of None \<Rightarrow> True | Some p \<Rightarrow> model_ok p"
    and wf: "bt_wf templates" "bt_wf props"
    and cl: "closed g" "closed a" "closed v"
  shows "model_ok m"
proof -
  from asm obtain deps repos processors args modules packaging where
    deps: "traverse (managed_dependency props (merged_management par imported direct))
      (raw_dependencies raw) = Inr deps"
    and pack: "interpolate_required (raw_packaging raw) props = Inr packaging"
    and m: "m = \<lparr>e_coordinate = coordinate_pom g a v,
          e_parent = parent_coordinate raw,
          e_packaging = packaging, e_modules = modules,
          e_property_templates = templates, e_properties = props,
          e_dependencies = dc_items (fold dc_replace deps (dc_new (parent_list e_dependencies par))),
          e_management = dc_items (merged_management par imported direct),
          e_bom_imports = boms,
          e_repositories = fold replace_repository repos (parent_list e_repositories par),
          e_processors = processors, e_compiler_args = args,
          e_relocation = map_option (relocation_coordinate props g a v) (raw_relocation raw)\<rparr>"
    by (rule assemble_Inr)
  have own: "dependency_closed d" if "d \<in> set deps" for d
    using traverse_in_set [OF deps that] managed_dependency_closed by blast
  have inherited: "dependency_closed d" if "d \<in> set (parent_list e_dependencies par)" for d
    using par that by (cases par) (auto simp: parent_list_def model_ok_def)
  have "d \<in> set (dc_items (fold dc_replace deps (dc_new ds))) \<Longrightarrow> d \<in> set ds \<union> set deps" for d ds
  proof (induction deps rule: rev_induct)
    case (snoc x xs)
    have "set (dc_items (dc_replace x c)) \<subseteq> insert x (set (dc_items c))" for c
      by (auto simp: dc_replace_def split: option.splits dest!: subsetD [OF set_update_subset_insert])
    with snoc show ?case by auto
  qed simp
  with own inherited have "\<forall>d \<in> set (e_dependencies m). dependency_closed d"
    by (auto simp: m)
  moreover have "distinct (map r_id (e_repositories m))"
    using repos.distinct_keys_fold_put [of "parent_list e_repositories par" repos] par
    by (cases par) (simp_all add: m parent_list_def model_ok_def)
  moreover have "closed packaging" using pack by (metis interpolate_required_Inr)
  ultimately show ?thesis
    using distinct_merged [OF par] wf cl
    by (simp add: model_ok_def m coordinate_closed_def coordinate_pom_def)
qed

text \<open>What a successful \<open>build_raw\<close> consists of.\<close>

lemma required_closed: "Inr r = interpolate_required s props \<Longrightarrow> closed r"
  by (metis interpolate_required_Inr)

lemma build_raw_Inr:
  assumes "build_raw pf remote raw stack s = Some (Inr m, s')"
  obtains par g v boms imported direct s1 s2 g' a' v' where
    "case parent_coordinate raw of
       None \<Rightarrow> par = None \<and> s1 = s
     | Some c \<Rightarrow> (\<exists>p. par = Some p \<and> remote c stack s = Some (Inr p, s1))"
    "Inr g = inherit ''groupId'' (raw_group raw) (map_option (\<lambda>m. c_group (e_coordinate m)) par)"
    "Inr v = inherit ''version'' (raw_version raw) (map_option (\<lambda>m. c_version (e_coordinate m)) par)"
    "traverse_build (\<lambda>c. remote c stack) boms s1 = Some (Inr imported, s')"
    "Inr m = assemble raw par (property_templates raw par)
       (final_properties raw (first_properties pf raw (property_templates raw par) g v) g' a' v')
       g' a' v' boms imported direct"
    "closed g'" "closed a'" "closed v'"
proof (cases "parent_coordinate raw")
  case None
  from assms show ?thesis
    unfolding build_raw_def Let_def None option.case
    by (auto simp: bind_build_Inr None intro: required_closed intro!: that refl)
next
  case (Some c)
  from assms show ?thesis
    unfolding build_raw_def Let_def Some option.case
    by (auto simp: bind_build_Inr Some intro: required_closed intro!: that refl)
qed

lemma bt_wf_templates:
  assumes "case par of None \<Rightarrow> True | Some p \<Rightarrow> model_ok p"
  shows "bt_wf (property_templates raw par)"
  using assms by (cases par) (auto simp: property_templates_def parent_list_def model_ok_def)

lemma bt_wf_final:
  "bt_wf templates \<Longrightarrow> bt_wf (final_properties raw (first_properties pf raw templates g v) g' a v')"
  by (simp add: final_properties_def first_properties_def bt_wf_resolve
      bt_wf_insert_project_properties bt_wf_insert_platform_properties)

lemma model_ok_build_raw:
  assumes run: "build_raw pf remote raw stack s = Some (Inr m, s')"
    and remote: "\<And>c p s2. remote c stack s = Some (Inr p, s2) \<Longrightarrow> model_ok p"
  shows "model_ok m"
  using run
proof (rule build_raw_Inr)
  fix par g v boms imported direct s1 g' a' v'
  assume par: "case parent_coordinate raw of None \<Rightarrow> par = None \<and> s1 = s
     | Some c \<Rightarrow> (\<exists>p. par = Some p \<and> remote c stack s = Some (Inr p, s1))"
    and cl: "closed g'" "closed a'" "closed v'"
    and asm: "Inr m = assemble raw par (property_templates raw par)
       (final_properties raw (first_properties pf raw (property_templates raw par) g v) g' a' v')
       g' a' v' boms imported direct"
  have "case par of None \<Rightarrow> True | Some p \<Rightarrow> model_ok p"
    using par by (cases "parent_coordinate raw"; cases par) (auto dest: remote)
  then show "model_ok m"
    by (intro model_ok_assemble [OF asm [symmetric]] bt_wf_templates bt_wf_final cl)
qed

definition cache_ok :: "'w builder_state \<Rightarrow> bool" where
  "cache_ok s \<longleftrightarrow> (\<forall>k m. fst s k = Some m \<longrightarrow> model_ok m)"

definition keeps_cache_ok :: "'w builder_state \<Rightarrow> 'w builder_state \<Rightarrow> bool" where
  "keeps_cache_ok s s' \<longleftrightarrow> (cache_ok s \<longrightarrow> cache_ok s')"

lemma cache_ok_world [simp]: "cache_ok (c, w) \<longleftrightarrow> cache_ok (c, w')"
  by (simp add: cache_ok_def)

lemma model_ok_build_remote:
  "build_remote parse_xml pf load n c stack s = Some (r, s') \<Longrightarrow> cache_ok s \<Longrightarrow>
     cache_ok s' \<and> (\<forall>m. r = Inr m \<longrightarrow> model_ok m)"
proof (induction n arbitrary: c stack s r s')
  case (Suc n)
  let ?key = "coordinate_display c"
  have R: "reflp (keeps_cache_ok :: 'a builder_state \<Rightarrow> _)"
    "transp (keeps_cache_ok :: 'a builder_state \<Rightarrow> _)"
    by (auto simp: reflp_def transp_def keeps_cache_ok_def)
  have remote: "keeps keeps_cache_ok (build_remote parse_xml pf load n c stack)" for c stack
    using Suc.IH by (auto simp: keeps_def keeps_cache_ok_def)
  have raw: "cache_ok s1 \<and> (\<forall>m. x = Inr m \<longrightarrow> model_ok m)"
    if "build_raw pf (build_remote parse_xml pf load n) raw (stack @ [?key]) (fst s, w) = Some (x, s1)"
    for raw w x s1
  proof
    have ok: "cache_ok (fst s, w)" using Suc.prems(2) by (simp add: cache_ok_def)
    with keepsD [OF keeps_build_raw [OF R remote] that] show "cache_ok s1"
      by (simp add: keeps_cache_ok_def)
    show "\<forall>m. x = Inr m \<longrightarrow> model_ok m"
      using that Suc.IH [OF _ ok] by (auto intro: model_ok_build_raw)
  qed
  have "cache_ok (fst s, w)" for w using Suc.prems(2) by (simp add: cache_ok_def)
  with Suc.prems show ?case
    by (auto simp: Let_def split: option.splits prod.splits sum.splits if_splits dest!: raw)
       (auto simp: cache_ok_def)
qed simp

section \<open>Properties\<close>

text \<open>A source with a single POM, for the concrete instances.\<close>

definition sample_source :: "coordinate \<Rightarrow> nat \<Rightarrow> str resolved \<times> nat" where
  "sample_source c w =
     (if coordinate_display c = ''g:a:pom:1'' then (Inr ''<project/>'', Suc w)
      else (Inl (OfflineMiss (coordinate_display c)), Suc w))"

definition sample_xml :: xml_parser where
  "sample_xml s = Inr (Element ''project''
     [Element ''groupId'' [Text ''g''], Element ''artifactId'' [Text ''a''],
      Element ''version'' [Text ''1'']])"

definition plain_raw :: raw_pom where
  "plain_raw = \<lparr>raw_model_version = None, raw_parent = None, raw_group = Some ''g'',
     raw_artifact = ''a'', raw_version = Some ''1'', raw_packaging = ''jar'', raw_modules = [],
     raw_properties = [], raw_dependencies = [], raw_management = [],
     raw_repositories = [], raw_processors = [], raw_compiler_args = [], raw_relocation = None\<rparr>"

definition plain_model :: effective_pom where
  "plain_model = projr (assemble plain_raw None []
     (final_properties plain_raw (first_properties sample_platform plain_raw [] ''g'' ''1'') ''g'' ''a'' ''1'')
     ''g'' ''a'' ''1'' [] [] [])"

lemma plain_assembled: "assemble plain_raw None []
    (final_properties plain_raw (first_properties sample_platform plain_raw [] ''g'' ''1'') ''g'' ''a'' ''1'')
    ''g'' ''a'' ''1'' [] [] [] = Inr plain_model"
proof -
  have "is_ok (assemble plain_raw None []
      (final_properties plain_raw (first_properties sample_platform plain_raw [] ''g'' ''1'') ''g'' ''a'' ''1'')
      ''g'' ''a'' ''1'' [] [] [])"
    by code_simp
  then show ?thesis by (auto simp: is_ok_iff plain_model_def)
qed

lemma plain_raw_parts:
  "inherit ''groupId'' (raw_group plain_raw) None = Inr ''g''"
  "inherit ''version'' (raw_version plain_raw) None = Inr ''1''"
  "property_templates plain_raw None = []" "parent_coordinate plain_raw = None"
  "raw_management plain_raw = []" "raw_dependencies plain_raw = []" "raw_relocation plain_raw = None"
  by code_simp+

lemma plain_model_parts [simp]: "e_dependencies plain_model = []" "e_relocation plain_model = None"
  by code_simp+

lemma plain_build [simp]:
  "build_raw sample_platform remote plain_raw stack s = Some (Inr plain_model, s)"
proof -
  let ?props = "first_properties sample_platform plain_raw [] ''g'' ''1''"
  have "interpolate_required ''g'' ?props = Inr ''g'' \<and>
      interpolate_required (raw_artifact plain_raw) ?props = Inr ''a'' \<and>
      interpolate_required ''1'' ?props = Inr ''1''"
    by code_simp
  then show ?thesis
    by (simp add: build_raw_def plain_raw_parts bind_build_def lift_build_def Let_def plain_assembled)
qed

lemma sample_parsed: "parse_pom sample_xml sample_platform s = Inr plain_raw"
proof -
  have "parse_pom sample_xml sample_platform [] = Inr plain_raw" by code_simp
  moreover have "parse_pom sample_xml sample_platform s = parse_pom sample_xml sample_platform []"
    unfolding parse_pom_def sample_xml_def ..
  ultimately show ?thesis by simp
qed

lemma sample_build:
  obtains m s' where "build_coordinate sample_xml sample_platform sample_source 2
     (coordinate_pom ''g'' ''a'' ''1'') (Map.empty, 0) = Some (Inr m, s')"
proof -
  have "coordinate_display (coordinate_pom ''g'' ''a'' ''1'') = ''g:a:pom:1''" by code_simp
  then have "\<exists>s'. build_coordinate sample_xml sample_platform sample_source 2
      (coordinate_pom ''g'' ''a'' ''1'') (Map.empty, 0) = Some (Inr plain_model, s')"
    by (simp add: build_coordinate_def numeral_2_eq_2 sample_source_def sample_parsed)
  then show ?thesis using that by blast
qed

text \<open>
  Property C2. Building an effective model returns, whatever cycles of parents and
  BOM imports the POMs form: when every coordinate the source can load displays as one of
  finitely many keys, more fuel than there are keys is enough, and all such fuel gives the
  same result.
\<close>

theorem build_terminates:
  assumes "finite U" and "\<And>c w x w'. load c w = (Inr x, w') \<Longrightarrow> coordinate_display c \<in> U"
  shows "\<exists>r s'. \<forall>n > card U. build_coordinate parse_xml pf load n c s = Some (r, s')"
proof -
  let ?run = "\<lambda>n. build_coordinate parse_xml pf load n c"
  have "total_build (build_remote parse_xml pf load (Suc (card U)) c [])"
    by (rule build_remote_enough_fuel [OF assms(1)]) (use assms(2) in auto)
  then have "?run (Suc (card U)) s \<noteq> None"
    unfolding build_coordinate_def total_build_def by blast
  then obtain r s' where base: "?run (Suc (card U)) s = Some (r, s')"
    by auto
  have "?run (Suc (card U) + k) s = Some (r, s')" for k
  proof (induction k)
    case (Suc k)
    have "extends_build (?run (Suc (card U) + k)) (?run (Suc (card U) + Suc k))"
      unfolding build_coordinate_def using build_remote_more_fuel [of parse_xml pf load _ c "[]"]
      by simp
    with Suc show ?case unfolding extends_build_def by blast
  qed (use base in simp)
  then have "?run n s = Some (r, s')" if "card U < n" for n
    using that by (metis Suc_leI le_Suc_ex)
  then show ?thesis by blast
qed

theorem build_terminates_witness:
  "\<exists>r s'. \<forall>n > 1. build_coordinate sample_xml sample_platform sample_source n
     (coordinate_pom ''g'' ''a'' ''1'') (Map.empty, 0) = Some (r, s')"
proof -
  have "coordinate_display c \<in> {''g:a:pom:1''}" if "sample_source c w = (Inr x, w')" for c w x w'
    using that by (simp add: sample_source_def split: if_splits)
  then have "\<exists>r s'. \<forall>n > card {''g:a:pom:1''}. build_coordinate sample_xml sample_platform
      sample_source n (coordinate_pom ''g'' ''a'' ''1'') (Map.empty, 0) = Some (r, s')"
    by (intro build_terminates) simp_all
  then show ?thesis by simp
qed

text \<open>
  A successful build stores its model under the displayed coordinate and
  changes no entry that was there; the next build of the coordinate returns the same model
  and leaves the cache and the source untouched.
\<close>

theorem build_caches:
  assumes "build_coordinate parse_xml pf load n c s = Some (Inr m, s')"
  shows "fst s' (coordinate_display c) = Some m \<and>
    (\<forall>k old. fst s k = Some old \<longrightarrow> fst s' k = Some old) \<and>
    build_coordinate parse_xml pf load (Suc k) c s' = Some (Inr m, s')"
proof -
  have run: "build_remote parse_xml pf load n c [] s = Some (Inr m, s')"
    using assms by (simp add: build_coordinate_def)
  have cached: "fst s' (coordinate_display c) = Some m"
    by (rule build_remote_caches [OF run])
  moreover have "cache_grows [] s s'"
    using keepsD [OF build_remote_cache_grows run] .
  ultimately show ?thesis
    by (simp add: build_coordinate_def cache_grows_def)
qed

theorem build_caches_witness:
  "\<exists>m s'. build_coordinate sample_xml sample_platform sample_source 2
     (coordinate_pom ''g'' ''a'' ''1'') (Map.empty, 0) = Some (Inr m, s') \<and>
   fst s' ''g:a:pom:1'' = Some m \<and>
   build_coordinate sample_xml sample_platform sample_source 1
     (coordinate_pom ''g'' ''a'' ''1'') s' = Some (Inr m, s')"
proof -
  have key: "coordinate_display (coordinate_pom ''g'' ''a'' ''1'') = ''g:a:pom:1''" by code_simp
  from sample_build obtain m s' where run: "build_coordinate sample_xml sample_platform
      sample_source 2 (coordinate_pom ''g'' ''a'' ''1'') (Map.empty, 0) = Some (Inr m, s')" .
  then show ?thesis using build_caches [OF run, of 0] unfolding key by auto
qed

text \<open>
  Property C7. Every model a build returns, and every model its cache then holds,
  is well formed: its coordinate and packaging contain no placeholder and the coordinate names
  a POM, groups, artifacts and classifiers of its dependencies contain none either, its property
  maps are sorted, and no management entry or repository occurs twice.
\<close>

theorem built_models_ok:
  assumes "build_coordinate parse_xml pf load n c s = Some (r, s')" and "cache_ok s"
  shows "cache_ok s' \<and> (\<forall>m. r = Inr m \<longrightarrow> model_ok m)"
  using assms unfolding build_coordinate_def by (rule model_ok_build_remote)

theorem built_models_ok_witness:
  "\<exists>m s'. build_coordinate sample_xml sample_platform sample_source 2
     (coordinate_pom ''g'' ''a'' ''1'') (Map.empty, 0) = Some (Inr m, s') \<and>
   cache_ok s' \<and> model_ok m"
proof -
  from sample_build obtain m s' where run: "build_coordinate sample_xml sample_platform
      sample_source 2 (coordinate_pom ''g'' ''a'' ''1'') (Map.empty, 0) = Some (Inr m, s')" .
  then show ?thesis using built_models_ok [OF run] by (auto simp: cache_ok_def)
qed

text \<open>
  Property C8. The effective dependency management holds for each key the
  last direct entry of the POM, else the entry of the first imported BOM that has one, else the
  entry of the parent's effective model. The effective dependencies hold for each key the last
  dependency the POM declares, interpolated and with that management applied, else the one of the
  parent. (This is the order of jman. Maven merges the entries of the parent before it imports BOMs,
  so there a direct entry of the parent comes before a BOM that the child imports.)
\<close>

theorem management_precedence:
  assumes "assemble raw par templates props g a v boms imported direct = Inr m"
  shows "List.find (\<lambda>d. management_key d = k) (e_management m) =
     (case List.find (\<lambda>d. management_key d = k) (rev direct) of
        Some d \<Rightarrow> Some d
      | None \<Rightarrow>
          (case List.find (\<lambda>d. management_key d = k) (concat (map e_management imported)) of
             Some d \<Rightarrow> Some d
           | None \<Rightarrow> List.find (\<lambda>d. management_key d = k) (parent_list e_management par)))
   \<and> (\<exists>deps. list_all2 (\<lambda>d d'. managed_dependency props
          (merged_management par imported direct) d = Inr d') (raw_dependencies raw) deps \<and>
        List.find (\<lambda>d. management_key d = k) (e_dependencies m) =
          (case List.find (\<lambda>d. management_key d = k) (rev deps) of
             Some d \<Rightarrow> Some d
           | None \<Rightarrow> List.find (\<lambda>d. management_key d = k) (parent_list e_dependencies par)))"
  using assms
proof (rule assemble_Inr)
  fix deps repos packaging modules processors args
  assume deps: "traverse (managed_dependency props (merged_management par imported direct))
      (raw_dependencies raw) = Inr deps"
    and m: "m = \<lparr>e_coordinate = coordinate_pom g a v,
          e_parent = parent_coordinate raw,
          e_packaging = packaging, e_modules = modules,
          e_property_templates = templates, e_properties = props,
          e_dependencies = dc_items (fold dc_replace deps (dc_new (parent_list e_dependencies par))),
          e_management = dc_items (merged_management par imported direct),
          e_bom_imports = boms,
          e_repositories = fold replace_repository repos (parent_list e_repositories par),
          e_processors = processors, e_compiler_args = args,
          e_relocation = map_option (relocation_coordinate props g a v) (raw_relocation raw)\<rparr>"
  have "List.find (\<lambda>d. management_key d = k) (e_management m) =
      dc_find (merged_management par imported direct) k"
    by (simp add: m dc_find_ok)
  moreover have "List.find (\<lambda>d. management_key d = k) (e_dependencies m) =
      dc_find (fold dc_replace deps (dc_new (parent_list e_dependencies par))) k"
    by (simp add: m dc_find_ok dc.ok_fold_put)
  moreover have "\<dots> = (case List.find (\<lambda>d. management_key d = k) (rev deps) of
      Some d \<Rightarrow> Some d | None \<Rightarrow> List.find (\<lambda>d. management_key d = k) (parent_list e_dependencies par))"
    by (simp add: dc.find_key_fold_put dc_find_ok [OF dc_ok_new] split: option.split)
  ultimately show ?thesis
    using deps unfolding traverse_Inr_iff dc_find_merged by metis
qed

definition sample_raw :: raw_pom where
  "sample_raw = plain_raw\<lparr>raw_dependencies := [sample_dependency]\<rparr>"

theorem management_precedence_witness:
  "\<exists>m. assemble sample_raw None [] [] ''g'' ''a'' ''1'' [] []
      [sample_dependency\<lparr>d_version := Some ''1''\<rparr>, sample_dependency\<lparr>d_version := Some ''2''\<rparr>] = Inr m \<and>
    List.find (\<lambda>d. management_key d = management_key sample_dependency) (e_management m) =
      Some (sample_dependency\<lparr>d_version := Some ''2''\<rparr>)"
proof -
  let ?direct = "[sample_dependency\<lparr>d_version := Some ''1''\<rparr>, sample_dependency\<lparr>d_version := Some ''2''\<rparr>]"
  have "is_ok (assemble sample_raw None [] [] ''g'' ''a'' ''1'' [] [] ?direct)" by code_simp
  then obtain m where m: "assemble sample_raw None [] [] ''g'' ''a'' ''1'' [] [] ?direct = Inr m"
    by (auto simp: is_ok_iff)
  have "List.find (\<lambda>d. management_key d = management_key sample_dependency) (rev ?direct) =
      Some (sample_dependency\<lparr>d_version := Some ''2''\<rparr>)"
    by (simp add: management_key_def)
  with management_precedence [OF m, of "management_key sample_dependency"] m show ?thesis
    by simp
qed

end
