(* ===== verification/Files.thy ===== *)
theory Files
  imports Rust_Path
begin

text \<open>
  The file system as the program sees it. A disk maps paths to entries; an operation that the
  system refuses is a fault of the environment (a function from paths to error texts), so that
  every error branch of the program can be taken. A write that fails may have opened the file: its
  fault then also says which part of the contents is left there. Temporary files are part of the
  disk.
\<close>

datatype disk_entry = Bytes str | Unreadable str

type_synonym disk = "path \<Rightarrow> disk_entry option"

datatype read_error = NotFound | ReadFailed str

definition read_file :: "disk \<Rightarrow> path \<Rightarrow> (read_error, str) result" where
  "read_file d p =
     (case d p of
        None \<Rightarrow> Inl NotFound | Some (Unreadable e) \<Rightarrow> Inl (ReadFailed e) | Some (Bytes b) \<Rightarrow> Inr b)"

definition read_error_text :: "read_error \<Rightarrow> str" where
  "read_error_text e = (case e of NotFound \<Rightarrow> ''not found'' | ReadFailed t \<Rightarrow> t)"

definition path_exists :: "disk \<Rightarrow> path \<Rightarrow> bool" where
  "path_exists d p \<longleftrightarrow> d p \<noteq> None"

record io_faults =
  mkdir_fault :: "path \<Rightarrow> str option"
  write_fault :: "path \<Rightarrow> (str \<times> str option) option"
  rename_fault :: "path \<Rightarrow> str option"

definition no_faults :: io_faults where
  "no_faults = \<lparr>mkdir_fault = Map.empty, write_fault = Map.empty, rename_fault = Map.empty\<rparr>"

definition failed_write :: "disk \<Rightarrow> path \<Rightarrow> str option \<Rightarrow> disk" where
  "failed_write d p left = (case left of None \<Rightarrow> d | Some part \<Rightarrow> d(p \<mapsto> Bytes part))"

text \<open>\<open>Path::file_stem\<close> and \<open>Path::with_extension\<close>: only the last extension is replaced.\<close>

definition file_stem :: "str \<Rightarrow> str" where
  "file_stem name =
     (case rsplit_once (CHR ''.'') name of
        None \<Rightarrow> name | Some (stem, _) \<Rightarrow> if stem = [] then name else stem)"

definition with_extension :: "path \<Rightarrow> str \<Rightarrow> path" where
  "with_extension p ext =
     (case path_file_name p of
        None \<Rightarrow> p
      | Some name \<Rightarrow>
          butlast p @ [Normal (if ext = [] then file_stem name else file_stem name @ ''.'' @ ext)])"

lemma read_file_simps [simp]:
  "d p = None \<Longrightarrow> read_file d p = Inl NotFound"
  "d p = Some (Bytes b) \<Longrightarrow> read_file d p = Inr b"
  "d p = Some (Unreadable e) \<Longrightarrow> read_file d p = Inl (ReadFailed e)"
  by (simp_all add: read_file_def)

lemma read_file_Inr_iff: "read_file d p = Inr b \<longleftrightarrow> d p = Some (Bytes b)"
  by (auto simp: read_file_def split: option.splits disk_entry.splits)

lemma no_faults_simps [simp]:
  "mkdir_fault no_faults p = None" "write_fault no_faults p = None" "rename_fault no_faults p = None"
  by (simp_all add: no_faults_def)

end
