(* ===== verification/Repository.thy ===== *)
theory Repository
  imports Effective Files
begin

text \<open>
  The repository client, \<open>crates/jman-resolver/src/repository.rs\<close>: artifacts are looked up in
  memory, in the directory of each repository below the cache, and at the repository itself
  (over HTTP with retries, or a \<open>file://\<close> directory), and written back atomically. HTTP answers
  (\<open>http\<close>, by request number and URL), SHA-256, the XML parser and I/O faults are parameters
  in the record \<open>repository_env\<close>. The locks of \<open>fetch\<close> only serialise calls for one path and
  have no counterpart here: a call is one step.
\<close>

section \<open>State\<close>

record cached_file =
  cf_path :: path
  cf_checksum :: str
  cf_bytes :: str
  cf_source :: str

record version_catalog =
  vc_versions :: "str list"
  vc_latest :: "str option"
  vc_release :: "str option"
  vc_source :: str

datatype http_answer = Response nat "(str, str) result" | NoResponse str

record repository_env =
  http :: "nat \<Rightarrow> str \<Rightarrow> http_answer"
  sha256_hex :: "str \<Rightarrow> str"
  parse_xml :: xml_parser
  faults :: io_faults
  process_id :: nat

record repository_config =
  rc_cache_dir :: path
  rc_repositories :: "str list"
  rc_offline :: bool

record client_state =
  cs_disk :: disk
  cs_memory :: "str \<Rightarrow> cached_file option"
  cs_requests :: "str list"
  cs_sequence :: "64 word"

type_synonym 'a client_step = "(client_state, resolver_error, 'a) step"

definition maven_central_url :: str where
  "maven_central_url = ''https://repo.maven.apache.org/maven2''"

definition new_config :: "path \<Rightarrow> str list \<Rightarrow> bool \<Rightarrow> repository_config" where
  "new_config cache_dir repositories offline =
     \<lparr>rc_cache_dir = cache_dir,
      rc_repositories = (if repositories = [] then [maven_central_url] else repositories),
      rc_offline = offline\<rparr>"

definition sha256 :: "repository_env \<Rightarrow> str \<Rightarrow> str" where
  "sha256 env bytes = ''sha256:'' @ sha256_hex env bytes"

definition cache_error :: "path \<Rightarrow> str \<Rightarrow> resolver_error" where
  "cache_error p e = CacheError (show_path p) e"

section \<open>Files of the cache\<close>

definition read_disk :: "path \<Rightarrow> client_state \<Rightarrow> (read_error, str) result" where
  "read_disk p s = read_file (cs_disk s) p"

definition temporary_path :: "repository_env \<Rightarrow> path \<Rightarrow> client_state \<Rightarrow> path" where
  "temporary_path env p s =
     with_extension p
       (''tmp-'' @ show_nat (process_id env) @ ''-'' @ show_nat (unat (cs_sequence s)))"

definition write_atomic :: "repository_env \<Rightarrow> path \<Rightarrow> str \<Rightarrow> unit client_step" where
  "write_atomic env p bytes s =
     (case path_parent p of
        None \<Rightarrow> (Inl (cache_error p ''cache path has no parent''), s)
      | Some dir \<Rightarrow>
          (case mkdir_fault (faults env) dir of
             Some e \<Rightarrow> (Inl (cache_error dir e), s)
           | None \<Rightarrow>
               (let temporary = temporary_path env p s;
                    s = s\<lparr>cs_sequence := cs_sequence s + 1\<rparr>
                in case write_fault (faults env) temporary of
                     Some (e, left) \<Rightarrow>
                       (Inl (cache_error temporary e), s\<lparr>cs_disk := failed_write (cs_disk s) temporary left\<rparr>)
                   | None \<Rightarrow>
                       (let s = s\<lparr>cs_disk := (cs_disk s)(temporary \<mapsto> Bytes bytes)\<rparr>
                        in case rename_fault (faults env) p of
                             None \<Rightarrow>
                               (Inr (), s\<lparr>cs_disk := (cs_disk s)(temporary := None, p \<mapsto> Bytes bytes)\<rparr>)
                           | Some e \<Rightarrow>
                               if path_exists (cs_disk s) p
                               then (Inr (), s\<lparr>cs_disk := (cs_disk s)(temporary := None)\<rparr>)
                               else (Inl (cache_error p e), s)))))"

definition repository_cache_path :: "repository_env \<Rightarrow> repository_config \<Rightarrow> str \<Rightarrow> str \<Rightarrow> path" where
  "repository_cache_path env cfg repository relative =
     path_join
       (path_join (path_join (rc_cache_dir cfg) (path_of ''repository''))
         (path_of (take 24 (sha256_hex env (trim_end_char (CHR ''/'') repository)))))
       (path_of relative)"

definition strip_digest :: "str \<Rightarrow> str" where
  "strip_digest checksum =
     (case strip_prefix ''sha256:'' checksum of Some d \<Rightarrow> d | None \<Rightarrow> checksum)"

definition artifact_path :: "repository_config \<Rightarrow> coordinate \<Rightarrow> str \<Rightarrow> path" where
  "artifact_path cfg c checksum =
     path_join (path_join (rc_cache_dir cfg) (path_of ''artifacts''))
       (path_of (strip_digest checksum @ ''.'' @ c_extension c))"

definition content_addressed_path ::
    "repository_env \<Rightarrow> repository_config \<Rightarrow> coordinate \<Rightarrow> str \<Rightarrow> str \<Rightarrow> path \<Rightarrow> path client_step" where
  "content_addressed_path env cfg c checksum bytes cache_path =
     (if c_extension c = ''pom'' then step_of (Inr cache_path)
      else
        (let path = artifact_path cfg c checksum
         in (\<lambda>s. let valid = (case read_disk path s of
                                Inr existing \<Rightarrow> sha256 env existing = checksum
                              | Inl _ \<Rightarrow> False)
                 in if valid then (Inr path, s)
                    else step_bind (write_atomic env path bytes) (\<lambda>_. step_of (Inr path)) s)))"

section \<open>Fetching from one repository\<close>

text \<open>
  The three attempts of the retry loop; \<open>left\<close> counts the attempts after the current one, so
  \<open>attempt < 2\<close> reads \<open>0 < left\<close>.
\<close>

definition retry_status :: "nat \<Rightarrow> bool" where
  "retry_status status \<longleftrightarrow> (500 \<le> status \<and> status \<le> 599) \<or> status = 429"

definition success_status :: "nat \<Rightarrow> bool" where
  "success_status status \<longleftrightarrow> 200 \<le> status \<and> status \<le> 299"

definition request :: "repository_env \<Rightarrow> str \<Rightarrow> client_state \<Rightarrow> http_answer \<times> client_state" where
  "request env url s =
     (http env (length (cs_requests s)) url, s\<lparr>cs_requests := cs_requests s @ [url]\<rparr>)"

fun http_get :: "repository_env \<Rightarrow> str \<Rightarrow> nat \<Rightarrow> str option client_step" where
  "http_get env url left s =
     (case request env url s of
        (Response status body, s') \<Rightarrow>
          if status = 404 then (Inr None, s')
          else if success_status status
          then (case body of Inr bytes \<Rightarrow> (Inr (Some bytes), s') | Inl e \<Rightarrow> (Inl (RequestError url e), s'))
          else (case left of
                  Suc rest \<Rightarrow>
                    if retry_status status then http_get env url rest s'
                    else (Inl (HttpStatus url status), s')
                | 0 \<Rightarrow> (Inl (HttpStatus url status), s'))
      | (NoResponse e, s') \<Rightarrow>
          (case left of Suc rest \<Rightarrow> http_get env url rest s' | 0 \<Rightarrow> (Inl (RequestError url e), s')))"

declare http_get.simps [simp del]

definition fetch_repository_bytes ::
    "repository_env \<Rightarrow> repository_config \<Rightarrow> str \<Rightarrow> str \<Rightarrow> str option client_step" where
  "fetch_repository_bytes env cfg repository relative s =
     (case strip_prefix ''file://'' repository of
        Some root \<Rightarrow>
          (let path = path_join (path_of root) (path_of relative)
           in case read_disk path s of
                Inr bytes \<Rightarrow> (Inr (Some bytes), s)
              | Inl NotFound \<Rightarrow> (Inr None, s)
              | Inl (ReadFailed e) \<Rightarrow> (Inl (cache_error path e), s))
      | None \<Rightarrow>
          if rc_offline cfg then (Inr None, s)
          else http_get env (trim_end_char (CHR ''/'') repository @ ''/'' @ relative) 2 s)"

section \<open>Repository metadata\<close>

fun descendants :: "xml \<Rightarrow> xml list" where
  "descendants (Element n cs) = Element n cs # concat (map descendants cs)"
| "descendants x = [x]"

text \<open>\<open>Node::text\<close> of an element is its first child, where that is a text.\<close>

definition node_text :: "xml \<Rightarrow> str option" where
  "node_text node = (case xml_children node of Text t # _ \<Rightarrow> Some t | _ \<Rightarrow> None)"

definition xml_child_text :: "xml \<Rightarrow> str \<Rightarrow> str option" where
  "xml_child_text node name =
     (case map_option trim (Option.bind (xml_child node name) node_text) of
        None \<Rightarrow> None
      | Some t \<Rightarrow> if t \<noteq> [] then Some t else None)"

fun unseen :: "str list \<Rightarrow> str list \<Rightarrow> str list" where
  "unseen seen [] = []"
| "unseen seen (v # vs) = (if v \<in> set seen then unseen seen vs else v # unseen (v # seen) vs)"

definition catalog_versions :: "xml \<Rightarrow> str list" where
  "catalog_versions versioning =
     (let nodes = (case xml_child versioning ''versions'' of
                     None \<Rightarrow> [] | Some n \<Rightarrow> children_named ''version'' n)
      in unseen [] (filter (\<lambda>v. v \<noteq> []) (map trim (List.map_filter node_text nodes))))"

definition parse_version_catalog ::
    "xml_parser \<Rightarrow> str \<Rightarrow> str \<Rightarrow> version_catalog resolved" where
  "parse_version_catalog parse bytes source =
     and_then (ensure (utf8_valid bytes) (InvalidMetadata ''invalid utf-8'')) (\<lambda>_.
     and_then (map_err InvalidMetadata (parse bytes)) (\<lambda>document.
     and_then (ok_or (InvalidMetadata ''missing <versioning> element'')
         (List.find (has_tag ''versioning'') (descendants document))) (\<lambda>versioning.
       let latest = xml_child_text versioning ''latest'';
           release = xml_child_text versioning ''release'';
           versions = catalog_versions versioning
       in if versions = [] \<and> latest = None \<and> release = None
          then Inl (InvalidMetadata ''metadata does not advertise any versions'')
          else Inr \<lparr>vc_versions = versions, vc_latest = latest, vc_release = release,
                    vc_source = source\<rparr>)))"

definition snapshot_value :: "xml_parser \<Rightarrow> str \<Rightarrow> coordinate \<Rightarrow> str option resolved" where
  "snapshot_value parse xml c =
     and_then (map_err InvalidPom (parse xml)) (\<lambda>document.
       case List.find (\<lambda>n. xml_child_text n ''extension'' = Some (c_extension c) \<and>
                xml_child_text n ''classifier'' = c_classifier c)
              (filter (has_tag ''snapshotVersion'') (descendants document)) of
         Some n \<Rightarrow> Inr (xml_child_text n ''value'')
       | None \<Rightarrow>
           (let snapshot = List.find (has_tag ''snapshot'') (descendants document)
            in Inr (case (Option.bind snapshot (\<lambda>n. xml_child_text n ''timestamp''),
                          Option.bind snapshot (\<lambda>n. xml_child_text n ''buildNumber'')) of
                      (Some timestamp, Some build) \<Rightarrow>
                        Some (trim_end_str ''-SNAPSHOT'' (c_version c) @ ''-'' @ timestamp
                              @ ''-'' @ build)
                    | _ \<Rightarrow> None)))"

definition snapshot_metadata_path :: "coordinate \<Rightarrow> str" where
  "snapshot_metadata_path c =
     replace_all ''.'' ''/'' (c_group c) @ ''/'' @ c_artifact c @ ''/'' @ c_version c
       @ ''/maven-metadata.xml''"

definition snapshot_file :: "coordinate \<Rightarrow> str \<Rightarrow> str" where
  "snapshot_file c value =
     replace_all ''.'' ''/'' (c_group c) @ ''/'' @ c_artifact c @ ''/'' @ c_version c @ ''/''
       @ c_artifact c @ ''-'' @ value @ classifier_suffix (c_classifier c) @ ''.'' @ c_extension c"

definition snapshot_bytes ::
    "repository_env \<Rightarrow> repository_config \<Rightarrow> str \<Rightarrow> coordinate \<Rightarrow> str option client_step" where
  "snapshot_bytes env cfg repository c s =
     (let relative = snapshot_metadata_path c;
          cached = repository_cache_path env cfg repository relative
      in case read_disk cached s of
           Inr bytes \<Rightarrow> (Inr (Some bytes), s)
         | Inl _ \<Rightarrow>
             step_bind (fetch_repository_bytes env cfg repository relative) (\<lambda>found.
               case found of
                 None \<Rightarrow> step_of (Inr None)
               | Some bytes \<Rightarrow> step_bind (write_atomic env cached bytes) (\<lambda>_. step_of (Inr found))) s)"

definition snapshot_repository_path ::
    "repository_env \<Rightarrow> repository_config \<Rightarrow> str \<Rightarrow> coordinate \<Rightarrow> str option client_step" where
  "snapshot_repository_path env cfg repository c =
     step_bind (snapshot_bytes env cfg repository c) (\<lambda>found.
       case found of
         None \<Rightarrow> step_of (Inr None)
       | Some bytes \<Rightarrow>
           step_of
             (and_then (ensure (utf8_valid bytes) (InvalidPom ''invalid utf-8'')) (\<lambda>_.
              and_then (snapshot_value (parse_xml env) bytes c) (\<lambda>value.
                Inr (map_option (snapshot_file c) value)))))"

section \<open>Fetching an artifact\<close>

definition cached_entry ::
    "repository_env \<Rightarrow> repository_config \<Rightarrow> coordinate \<Rightarrow> str \<Rightarrow> str \<Rightarrow> path \<Rightarrow> cached_file client_step" where
  "cached_entry env cfg c repository bytes cache_path =
     (let checksum = sha256 env bytes
      in step_bind (content_addressed_path env cfg c checksum bytes cache_path) (\<lambda>path.
           step_of (Inr \<lparr>cf_path = path, cf_checksum = checksum, cf_bytes = bytes,
                         cf_source = repository\<rparr>)))"

definition repository_bytes ::
    "repository_env \<Rightarrow> repository_config \<Rightarrow> str \<Rightarrow> coordinate \<Rightarrow> str \<Rightarrow> str option client_step" where
  "repository_bytes env cfg repository c relative =
     step_bind (fetch_repository_bytes env cfg repository relative) (\<lambda>found.
       if found = None \<and> ends_with ''-SNAPSHOT'' (c_version c)
       then step_bind (snapshot_repository_path env cfg repository c) (\<lambda>snapshot.
              case snapshot of
                None \<Rightarrow> step_of (Inr None)
              | Some p \<Rightarrow> fetch_repository_bytes env cfg repository p)
       else step_of (Inr found))"

fun fetch_from ::
    "repository_env \<Rightarrow> repository_config \<Rightarrow> coordinate \<Rightarrow> str \<Rightarrow> str list \<Rightarrow> cached_file client_step" where
  "fetch_from env cfg c relative [] s =
     (Inl (if rc_offline cfg then OfflineMiss (coordinate_display c)
           else HttpStatus (repository_path c) 404), s)"
| "fetch_from env cfg c relative (repository # rest) s =
     (let cached = repository_cache_path env cfg repository relative
      in case read_disk cached s of
           Inr bytes \<Rightarrow> cached_entry env cfg c repository bytes cached s
         | Inl _ \<Rightarrow>
             step_bind (repository_bytes env cfg repository c relative) (\<lambda>found.
               case found of
                 Some bytes \<Rightarrow>
                   step_bind (write_atomic env cached bytes) (\<lambda>_.
                     cached_entry env cfg c repository bytes cached)
               | None \<Rightarrow> fetch_from env cfg c relative rest) s)"

definition fetch_uncached ::
    "repository_env \<Rightarrow> repository_config \<Rightarrow> coordinate \<Rightarrow> str \<Rightarrow> cached_file client_step" where
  "fetch_uncached env cfg c relative = fetch_from env cfg c relative (rc_repositories cfg)"

definition fetch :: "repository_env \<Rightarrow> repository_config \<Rightarrow> coordinate \<Rightarrow> cached_file client_step" where
  "fetch env cfg c s =
     (let key = repository_path c
      in case cs_memory s key of
           Some cached \<Rightarrow> (Inr cached, s)
         | None \<Rightarrow>
             (case fetch_uncached env cfg c key s of
                (Inl e, s') \<Rightarrow> (Inl e, s')
              | (Inr fetched, s') \<Rightarrow>
                  (Inr fetched, s'\<lparr>cs_memory := (cs_memory s')(key \<mapsto> fetched)\<rparr>)))"

text \<open>\<open>impl PomSource for RepositoryClient\<close>.\<close>

definition load_pom :: "repository_env \<Rightarrow> repository_config \<Rightarrow> client_state pom_source" where
  "load_pom env cfg c =
     step_bind (fetch env cfg (coordinate_pom (c_group c) (c_artifact c) (c_version c))) (\<lambda>cached.
       step_of (if utf8_valid (cf_bytes cached) then Inr (cf_bytes cached)
                else Inl (InvalidPom ''invalid utf-8'')))"

section \<open>Available versions\<close>

fun first_cached :: "repository_env \<Rightarrow> repository_config \<Rightarrow> str \<Rightarrow> str list \<Rightarrow> client_state \<Rightarrow> str option" where
  "first_cached env cfg relative [] s = None"
| "first_cached env cfg relative (repository # rest) s =
     (case read_disk (repository_cache_path env cfg repository relative) s of
        Inr bytes \<Rightarrow> Some bytes
      | Inl _ \<Rightarrow> first_cached env cfg relative rest s)"

text \<open>The loop over the repositories: a catalog, or the last error if there was one.\<close>

fun refresh_catalog ::
    "repository_env \<Rightarrow> repository_config \<Rightarrow> str \<Rightarrow> resolver_error option \<Rightarrow> str list \<Rightarrow>
     (version_catalog + resolver_error option) client_step" where
  "refresh_catalog env cfg relative last_error [] s = (Inr (Inr last_error), s)"
| "refresh_catalog env cfg relative last_error (repository # rest) s =
     (case fetch_repository_bytes env cfg repository relative s of
        (Inr None, s') \<Rightarrow> refresh_catalog env cfg relative last_error rest s'
      | (Inl e, s') \<Rightarrow> refresh_catalog env cfg relative (Some e) rest s'
      | (Inr (Some bytes), s') \<Rightarrow>
          (case parse_version_catalog (parse_xml env) bytes repository of
             Inl e \<Rightarrow> refresh_catalog env cfg relative (Some e) rest s'
           | Inr catalog \<Rightarrow>
               step_bind (write_atomic env (repository_cache_path env cfg repository relative) bytes)
                 (\<lambda>_. step_of (Inr (Inl catalog))) s'))"

definition metadata_path :: "str \<Rightarrow> str \<Rightarrow> str" where
  "metadata_path g a = replace_all ''.'' ''/'' g @ ''/'' @ a @ ''/maven-metadata.xml''"

definition available_versions ::
    "repository_env \<Rightarrow> repository_config \<Rightarrow> str \<Rightarrow> str \<Rightarrow> version_catalog client_step" where
  "available_versions env cfg g a s =
     (let relative = metadata_path g a
      in if rc_offline cfg
         then (case first_cached env cfg relative (rc_repositories cfg) s of
                 Some bytes \<Rightarrow> (parse_version_catalog (parse_xml env) bytes ''cache'', s)
               | None \<Rightarrow> (Inl (OfflineMiss (ga_of g a @ '' metadata'')), s))
         else
           step_bind (refresh_catalog env cfg relative None (rc_repositories cfg)) (\<lambda>outcome.
             case outcome of
               Inl catalog \<Rightarrow> step_of (Inr catalog)
             | Inr last_error \<Rightarrow> (\<lambda>s.
                 (case first_cached env cfg relative (rc_repositories cfg) s of
                    Some bytes \<Rightarrow> parse_version_catalog (parse_xml env) bytes ''stale-cache''
                  | None \<Rightarrow> Inl (case last_error of Some e \<Rightarrow> e | None \<Rightarrow> HttpStatus relative 404), s))) s)"

section \<open>Relations kept by the client\<close>

text \<open>
  A relation between the states before and after, kept by the two operations that change the
  disk and the request log, is kept by everything the client does before it fills its memory.
\<close>

locale client_relation =
  fixes R :: "client_state \<Rightarrow> client_state \<Rightarrow> bool" and env :: repository_env
    and cfg :: repository_config
  assumes refl_R: "reflp R" and trans_R: "transp R"
    and keeps_write: "step_keeps R (write_atomic env p bytes)"
    and keeps_get: "step_keeps R (fetch_repository_bytes env cfg repository relative)"
begin

lemmas keeps_intros = step_keeps_of [OF refl_R] step_keeps_bind [OF trans_R] keeps_write keeps_get

lemma keeps_content: "step_keeps R (content_addressed_path env cfg c checksum bytes p)"
proof (cases "c_extension c = ''pom''")
  case True
  then show ?thesis by (simp add: content_addressed_path_def keeps_intros)
next
  case False
  have "step_keeps R (step_bind (write_atomic env q bytes) (\<lambda>_. step_of (Inr q)))" for q
    by (intro keeps_intros)
  with False refl_R show ?thesis
    by (auto simp: content_addressed_path_def Let_def step_keeps_def reflp_def)
qed

lemma keeps_entry: "step_keeps R (cached_entry env cfg c repository bytes p)"
  unfolding cached_entry_def Let_def by (intro keeps_intros keeps_content)

lemma keeps_snapshot_bytes: "step_keeps R (snapshot_bytes env cfg repository c)"
proof -
  have "step_keeps R (step_bind (fetch_repository_bytes env cfg repository q) (\<lambda>found.
      case found of None \<Rightarrow> step_of (Inr None)
      | Some bytes \<Rightarrow> step_bind (write_atomic env p bytes) (\<lambda>_. step_of (Inr found))))" for p q
    by (intro keeps_intros) (auto split: option.splits intro!: keeps_intros)
  with refl_R show ?thesis
    by (auto simp: snapshot_bytes_def Let_def step_keeps_def reflp_def split: sum.splits)
qed

lemma keeps_snapshot: "step_keeps R (snapshot_repository_path env cfg repository c)"
  unfolding snapshot_repository_path_def
  by (intro keeps_intros keeps_snapshot_bytes) (auto split: option.splits intro!: keeps_intros)

lemma keeps_repository_bytes: "step_keeps R (repository_bytes env cfg repository c relative)"
  unfolding repository_bytes_def
  by (intro keeps_intros) (auto split: option.splits intro!: keeps_intros keeps_snapshot)

lemma keeps_fetch_from: "step_keeps R (fetch_from env cfg c relative rs)"
proof (induction rs)
  case Nil
  then show ?case using refl_R by (simp add: step_keeps_def reflp_def)
next
  case (Cons r rs)
  let ?cached = "repository_cache_path env cfg r relative"
  have "step_keeps R (step_bind (repository_bytes env cfg r c relative) (\<lambda>found.
      case found of
        Some bytes \<Rightarrow> step_bind (write_atomic env ?cached bytes) (\<lambda>_.
            cached_entry env cfg c r bytes ?cached)
      | None \<Rightarrow> fetch_from env cfg c relative rs))"
    by (intro keeps_intros keeps_repository_bytes)
       (auto split: option.splits intro!: keeps_intros keeps_entry Cons.IH)
  with keeps_entry [of c r] show ?case
    by (auto simp: step_keeps_def Let_def split: sum.splits)
qed

lemma keeps_refresh: "step_keeps R (refresh_catalog env cfg relative e rs)"
proof (induction rs arbitrary: e)
  case Nil
  then show ?case using refl_R by (simp add: step_keeps_def reflp_def)
next
  case (Cons r rs)
  have writes: "step_keeps R (step_bind (write_atomic env p b) (\<lambda>_. step_of (Inr (Inl catalog))))"
    for p b and catalog :: version_catalog
    by (intro keeps_intros)
  show ?case unfolding step_keeps_def
  proof
    fix s
    obtain x s1 where get: "fetch_repository_bytes env cfg r relative s = (x, s1)" by fastforce
    then have "R s s1" using step_keepsD [OF keeps_get, of s r relative] by simp
    then show "R s (snd (refresh_catalog env cfg relative e (r # rs) s))"
      using get step_keepsD [OF Cons.IH, of s1] step_keepsD [OF writes, of s1]
      by (simp split: sum.split option.split) (blast intro: transpD [OF trans_R])
  qed
qed

end

text \<open>The retry loop: the answers that are tried again, and what the last one becomes.\<close>

definition retryable :: "http_answer \<Rightarrow> bool" where
  "retryable a = (case a of Response status _ \<Rightarrow> retry_status status | NoResponse _ \<Rightarrow> True)"

definition outcome :: "str \<Rightarrow> http_answer \<Rightarrow> str option resolved" where
  "outcome url a =
     (case a of
        Response status body \<Rightarrow>
          if status = 404 then Inr None
          else if success_status status then map_sum (RequestError url) Some body
          else Inl (HttpStatus url status)
      | NoResponse e \<Rightarrow> Inl (RequestError url e))"

fun tries :: "repository_env \<Rightarrow> str \<Rightarrow> nat \<Rightarrow> nat \<Rightarrow> nat" where
  "tries env url 0 n = 0"
| "tries env url (Suc left) n =
     (if retryable (http env n url) then Suc (tries env url left (Suc n)) else 0)"

lemma http_get_step:
  "http_get env url left s =
     (let a = http env (length (cs_requests s)) url; s' = s\<lparr>cs_requests := cs_requests s @ [url]\<rparr>
      in case left of
           0 \<Rightarrow> (outcome url a, s')
         | Suc rest \<Rightarrow> if retryable a then http_get env url rest s' else (outcome url a, s'))"
  by (subst http_get.simps)
     (auto simp: request_def outcome_def retryable_def retry_status_def success_status_def Let_def
       split: http_answer.split sum.split nat.split)

lemma http_get_eq:
  "http_get env url left s =
     (outcome url (http env (length (cs_requests s) + tries env url left (length (cs_requests s))) url),
      s\<lparr>cs_requests := cs_requests s @ replicate (Suc (tries env url left (length (cs_requests s)))) url\<rparr>)"
proof (induction left arbitrary: s)
  case (Suc left)
  show ?case
    by (subst http_get_step) (simp add: Let_def Suc.IH)
qed (simp add: http_get_step)

lemma tries_le: "tries env url left n \<le> left"
  by (induction left arbitrary: n) auto

lemma tries_retryable: "i < tries env url left n \<Longrightarrow> retryable (http env (n + i) url)"
proof (induction left arbitrary: n i)
  case (Suc left)
  then show ?case by (cases i) (auto split: if_splits dest: Suc.IH)
qed simp

lemma tries_stop:
  "tries env url left n = left \<or> \<not> retryable (http env (n + tries env url left n) url)"
proof (induction left arbitrary: n)
  case (Suc left)
  then show ?case using Suc.IH [of "Suc n"] by simp
qed simp

lemma write_atomic_requests:
  "cs_requests (snd (write_atomic env p b s)) = cs_requests s"
  "cs_memory (snd (write_atomic env p b s)) = cs_memory s"
  by (simp_all add: write_atomic_def Let_def split: option.split)

lemma get_memory: "cs_memory (snd (fetch_repository_bytes env cfg r p s)) = cs_memory s"
  by (simp add: fetch_repository_bytes_def Let_def http_get_eq
      split: option.split sum.split read_error.split)

definition offline_silent :: "repository_config \<Rightarrow> client_state \<Rightarrow> client_state \<Rightarrow> bool" where
  "offline_silent cfg s s' \<longleftrightarrow> (rc_offline cfg \<longrightarrow> cs_requests s' = cs_requests s)"

interpretation offline: client_relation "offline_silent cfg" env cfg for cfg env
  by unfold_locales
     (auto simp: reflp_def transp_def offline_silent_def step_keeps_def write_atomic_requests
       fetch_repository_bytes_def Let_def split: option.split sum.split read_error.split)

interpretation memory: client_relation "\<lambda>s s'. cs_memory s' = cs_memory s" env cfg for cfg env
  by unfold_locales
     (auto simp: reflp_def transp_def step_keeps_def write_atomic_requests get_memory)

interpretation requests: client_relation "\<lambda>s s'. prefix (cs_requests s) (cs_requests s')" env cfg
  for cfg env
proof
  have "prefix (cs_requests s) (cs_requests (snd (http_get env url n s)))" for url n s
    by (simp add: http_get_eq)
  then show "step_keeps (\<lambda>s s'. prefix (cs_requests s) (cs_requests s'))
      (fetch_repository_bytes env cfg r p)" for r p
    by (auto simp: step_keeps_def fetch_repository_bytes_def Let_def
        split: option.split sum.split read_error.split)
qed (auto simp: reflp_def transp_def step_keeps_def write_atomic_requests intro: prefix_order.trans)

section \<open>Results of fetching\<close>

text \<open>An entry is sound when its checksum is that of its bytes and its source is configured.\<close>

definition entry_ok :: "repository_env \<Rightarrow> repository_config \<Rightarrow> cached_file \<Rightarrow> bool" where
  "entry_ok env cfg f \<longleftrightarrow> cf_checksum f = sha256 env (cf_bytes f) \<and> cf_source f \<in> set (rc_repositories cfg)"

definition memory_ok :: "repository_env \<Rightarrow> repository_config \<Rightarrow> client_state \<Rightarrow> bool" where
  "memory_ok env cfg s \<longleftrightarrow> (\<forall>k f. cs_memory s k = Some f \<longrightarrow> entry_ok env cfg f)"

definition stored :: "repository_env \<Rightarrow> client_state \<Rightarrow> cached_file \<Rightarrow> bool" where
  "stored env s f \<longleftrightarrow> (\<exists>b. read_disk (cf_path f) s = Inr b \<and> sha256 env b = cf_checksum f)"

lemma write_atomic_stores:
  assumes "faults env = no_faults" "write_atomic env p b s = (Inr u, s')"
  shows "read_disk p s' = Inr b"
  using assms by (auto simp: write_atomic_def Let_def read_disk_def split: option.splits)

lemma cached_entry_Inr:
  assumes "cached_entry env cfg c r bytes p s = (Inr f, s')"
  shows "cf_checksum f = sha256 env bytes \<and> cf_bytes f = bytes \<and> cf_source f = r \<and>
    (faults env = no_faults \<longrightarrow> read_disk p s = Inr bytes \<longrightarrow> stored env s' f)"
proof -
  from assms obtain path where content:
      "content_addressed_path env cfg c (sha256 env bytes) bytes p s = (Inr path, s')"
    and f: "f = \<lparr>cf_path = path, cf_checksum = sha256 env bytes, cf_bytes = bytes, cf_source = r\<rparr>"
    by (auto simp: cached_entry_def Let_def step_bind_Inr)
  have "stored env s' f" if "faults env = no_faults" "read_disk p s = Inr bytes"
    using content that
    by (auto simp: content_addressed_path_def Let_def stored_def f step_bind_Inr
        dest!: write_atomic_stores [OF that(1)] split: if_splits sum.splits)
  then show ?thesis by (simp add: f)
qed

lemma fetch_from_Inr:
  "fetch_from env cfg c relative rs s = (Inr f, s') \<Longrightarrow>
     cf_checksum f = sha256 env (cf_bytes f) \<and> cf_source f \<in> set rs \<and>
     (faults env = no_faults \<longrightarrow> stored env s' f)"
proof (induction rs arbitrary: s)
  case (Cons r rs)
  let ?cached = "repository_cache_path env cfg r relative"
  show ?case
  proof (cases "read_disk ?cached s")
    case (Inr bytes)
    with Cons.prems show ?thesis by (auto simp: Let_def dest: cached_entry_Inr)
  next
    case (Inl e)
    with Cons.prems obtain found s1 where rest: "(case found of
          Some bytes \<Rightarrow> step_bind (write_atomic env ?cached bytes) (\<lambda>_.
              cached_entry env cfg c r bytes ?cached)
        | None \<Rightarrow> fetch_from env cfg c relative rs) s1 = (Inr f, s')"
      by (auto simp: Let_def step_bind_Inr)
    show ?thesis
    proof (cases found)
      case None
      with rest Cons.IH [of s1] show ?thesis by simp
    next
      case (Some bytes)
      with rest show ?thesis
        by (auto simp: step_bind_Inr dest!: cached_entry_Inr write_atomic_stores [of env, rotated])
    qed
  qed
qed simp

lemma fetch_Inr:
  assumes "fetch env cfg c s = (Inr f, s')"
  shows "cs_memory s' (repository_path c) = Some f \<and>
    (cs_memory s (repository_path c) = Some f \<and> s' = s \<or>
     cs_memory s (repository_path c) = None \<and>
       (\<exists>s1. fetch_uncached env cfg c (repository_path c) s = (Inr f, s1) \<and>
          s' = s1\<lparr>cs_memory := (cs_memory s1)(repository_path c \<mapsto> f)\<rparr>))"
  using assms by (auto simp: fetch_def Let_def split: option.splits prod.splits sum.splits)

lemma fetch_uncached_memory:
  "fetch_uncached env cfg c relative s = (r, s') \<Longrightarrow> cs_memory s' = cs_memory s"
  using step_keepsD [OF memory.keeps_fetch_from, of env cfg c relative "rc_repositories cfg" s]
  by (simp add: fetch_uncached_def)

lemma fetch_keeps_memory_ok:
  assumes "memory_ok env cfg s"
  shows "memory_ok env cfg (snd (fetch env cfg c s))"
proof -
  obtain r s1 where run: "fetch_uncached env cfg c (repository_path c) s = (r, s1)" by fastforce
  note mem = fetch_uncached_memory [OF run]
  have "entry_ok env cfg f" if "r = Inr f" for f
    using fetch_from_Inr run that unfolding fetch_uncached_def entry_ok_def by blast
  with assms mem run show ?thesis
    by (auto simp: fetch_def Let_def memory_ok_def split: option.splits sum.splits)
qed

lemma fetch_offline_silent: "offline_silent cfg s (snd (fetch env cfg c s))"
  using step_keepsD [OF offline.keeps_fetch_from, of cfg s env c "repository_path c"
      "rc_repositories cfg"]
  by (auto simp: fetch_def fetch_uncached_def Let_def offline_silent_def
      split: option.splits prod.splits sum.splits)

lemma load_pom_snd: "snd (load_pom env cfg c s) =
    snd (fetch env cfg (coordinate_pom (c_group c) (c_artifact c) (c_version c)) s)"
  by (auto simp: load_pom_def step_bind_def step_of_def split: prod.splits sum.splits)

lemma unseen_spec:
  "distinct (unseen seen vs) \<and> set (unseen seen vs) = set vs - set seen"
  by (induction seen vs rule: unseen.induct) auto

lemma fetch_from_offline:
  assumes "rc_offline cfg" "\<not> ends_with ''-SNAPSHOT'' (c_version c)"
    and "\<forall>r \<in> set rs. strip_prefix ''file://'' r = None"
  shows "fetch_from env cfg c relative rs s =
     (case List.find (\<lambda>r. is_ok (read_disk (repository_cache_path env cfg r relative) s)) rs of
        None \<Rightarrow> (Inl (OfflineMiss (coordinate_display c)), s)
      | Some r \<Rightarrow>
          (case read_disk (repository_cache_path env cfg r relative) s of
             Inr bytes \<Rightarrow> cached_entry env cfg c r bytes (repository_cache_path env cfg r relative) s
           | Inl _ \<Rightarrow> (Inl (OfflineMiss (coordinate_display c)), s)))"
  using assms(3)
proof (induction rs)
  case (Cons r rs)
  then show ?case using assms(1,2)
    by (cases "read_disk (repository_cache_path env cfg r relative) s")
       (simp_all add: Let_def step_bind_def step_of_def repository_bytes_def
         fetch_repository_bytes_def)
qed (simp add: assms)

section \<open>Properties\<close>

text \<open>An environment for the concrete instances: a server that answers 500 twice, then 200.\<close>

definition sample_env :: repository_env where
  "sample_env =
     \<lparr>http = (\<lambda>n url. if n < 2 then Response 500 (Inl ''busy'') else Response 200 (Inr url)),
      sha256_hex = (\<lambda>b. replicate 24 (CHR ''0'') @ b), parse_xml = sample_xml,
      faults = no_faults, process_id = 7\<rparr>"

definition sample_config :: "bool \<Rightarrow> repository_config" where
  "sample_config offline = new_config (path_of ''/c'') [''https://r/''] offline"

definition sample_client :: client_state where
  "sample_client = \<lparr>cs_disk = Map.empty, cs_memory = Map.empty, cs_requests = [], cs_sequence = 0\<rparr>"

definition sample_coordinate :: coordinate where
  "sample_coordinate = coordinate_jar ''g'' ''a'' ''1''"

text \<open>
  An offline client never sends a request: fetching an artifact,
  loading a POM and listing versions leave the request log as it is, whatever is missing from
  the caches.
\<close>

theorem offline_never_requests:
  assumes "rc_offline cfg"
  shows "cs_requests (snd (fetch env cfg c s)) = cs_requests s \<and>
    cs_requests (snd (load_pom env cfg c s)) = cs_requests s \<and>
    cs_requests (snd (available_versions env cfg g a s)) = cs_requests s"
  using assms fetch_offline_silent [of cfg s env]
  by (auto simp: offline_silent_def load_pom_snd available_versions_def Let_def split: option.split)

theorem offline_never_requests_witness:
  "fst (fetch sample_env (sample_config True) sample_coordinate sample_client) =
     Inl (OfflineMiss ''g:a:1'') \<and>
   cs_requests (snd (fetch sample_env (sample_config True) sample_coordinate sample_client)) = []"
proof -
  have "fst (fetch sample_env (sample_config True) sample_coordinate sample_client) =
     Inl (OfflineMiss ''g:a:1'')"
    by code_simp
  moreover have "rc_offline (sample_config True)" by (simp add: sample_config_def new_config_def)
  from offline_never_requests [OF this, of sample_env sample_coordinate sample_client]
  have "cs_requests (snd (fetch sample_env (sample_config True) sample_coordinate sample_client)) = []"
    by (simp add: sample_client_def)
  ultimately show ?thesis by simp
qed

text \<open>
  One repository file costs at most three requests of the same URL:
  an answer is requested again only when it is a server error, status 429 or a transport
  failure, and the answer to the last request decides the result (404 is absence, 2xx the
  body, everything else an error). Nothing but the request log changes.
\<close>

theorem retries_bounded:
  "let n = length (cs_requests s); k = tries env url 2 n
   in http_get env url 2 s =
        (outcome url (http env (n + k) url),
         s\<lparr>cs_requests := cs_requests s @ replicate (Suc k) url\<rparr>) \<and>
      k \<le> 2 \<and> (\<forall>i < k. retryable (http env (n + i) url)) \<and>
      (k = 2 \<or> \<not> retryable (http env (n + k) url))"
  using http_get_eq [of env url 2 s] tries_le [of env url 2 "length (cs_requests s)"]
    tries_retryable [of _ env url 2 "length (cs_requests s)"]
    tries_stop [of env url 2 "length (cs_requests s)"]
  by (simp add: Let_def)

theorem retries_bounded_witness:
  "http_get sample_env ''u'' 2 sample_client =
     (Inr (Some ''u''), sample_client\<lparr>cs_requests := [''u'', ''u'', ''u'']\<rparr>)"
proof -
  have "tries sample_env ''u'' 2 0 = 2"
    by (simp add: sample_env_def numeral_2_eq_2 retryable_def retry_status_def)
  then show ?thesis
    using retries_bounded [of sample_client sample_env "''u''"]
    by (simp add: Let_def sample_client_def sample_env_def outcome_def success_status_def numeral_3_eq_3
        numeral_2_eq_2)
qed

text \<open>
  Property C9. A fetched artifact carries the checksum of its bytes and one of
  the configured repositories, the client stays sound, and fetching it again returns the same
  entry without any effect. Unless it came from memory, and where writing works, the file at
  its path has this checksum.
\<close>

theorem fetched_entry_sound:
  assumes "memory_ok env cfg s" and "fetch env cfg c s = (Inr f, s')"
  shows "entry_ok env cfg f \<and> memory_ok env cfg s' \<and> fetch env cfg c s' = (Inr f, s') \<and>
    (cs_memory s (repository_path c) = None \<and> faults env = no_faults \<longrightarrow> stored env s' f)"
proof -
  note res = fetch_Inr [OF assms(2)]
  have ok: "memory_ok env cfg s'"
    using fetch_keeps_memory_ok [OF assms(1), of c] assms(2) by simp
  moreover from this have "entry_ok env cfg f" using res by (auto simp: memory_ok_def)
  moreover have "fetch env cfg c s' = (Inr f, s')" using res by (simp add: fetch_def Let_def)
  moreover have "stored env s' f"
    if new: "cs_memory s (repository_path c) = None" and io: "faults env = no_faults"
  proof -
    from res new obtain s1 where run: "fetch_from env cfg c (repository_path c)
        (rc_repositories cfg) s = (Inr f, s1)"
      and s': "s' = s1\<lparr>cs_memory := (cs_memory s1)(repository_path c \<mapsto> f)\<rparr>"
      by (auto simp: fetch_uncached_def)
    from fetch_from_Inr [OF run] io have "stored env s1 f" by blast
    then show ?thesis by (simp add: stored_def s' read_disk_def)
  qed
  ultimately show ?thesis by blast
qed

theorem fetched_entry_sound_witness:
  "\<exists>f s'. fetch sample_env (sample_config False) sample_coordinate sample_client = (Inr f, s') \<and>
     cf_bytes f = ''https://r/g/a/1/a-1.jar'' \<and> stored sample_env s' f"
proof -
  have "map_sum id cf_bytes (fst (fetch sample_env (sample_config False) sample_coordinate
      sample_client)) = Inr ''https://r/g/a/1/a-1.jar''"
    by code_simp
  then obtain f s' where run: "fetch sample_env (sample_config False) sample_coordinate
      sample_client = (Inr f, s')" and b: "cf_bytes f = ''https://r/g/a/1/a-1.jar''"
    by (cases "fetch sample_env (sample_config False) sample_coordinate sample_client";
        cases "fst (fetch sample_env (sample_config False) sample_coordinate sample_client)") auto
  have "memory_ok sample_env (sample_config False) sample_client"
    by (simp add: memory_ok_def sample_client_def)
  from fetched_entry_sound [OF this run] run b show ?thesis
    by (simp add: sample_client_def sample_env_def)
qed

text \<open>
  Offline, with remote repositories only and for a release
  version, an artifact that is not in memory is found exactly when the cache directory of
  some repository has the file, and the first repository of the configured order wins.
\<close>

theorem offline_fetch_first_cached:
  assumes "rc_offline cfg" and "\<not> ends_with ''-SNAPSHOT'' (c_version c)"
    and "\<forall>r \<in> set (rc_repositories cfg). strip_prefix ''file://'' r = None"
    and "cs_memory s (repository_path c) = None"
  shows "(case List.find (\<lambda>r. is_ok (read_disk
              (repository_cache_path env cfg r (repository_path c)) s)) (rc_repositories cfg) of
      None \<Rightarrow> fetch env cfg c s = (Inl (OfflineMiss (coordinate_display c)), s)
    | Some r \<Rightarrow> (\<exists>bytes. read_disk (repository_cache_path env cfg r (repository_path c)) s = Inr bytes \<and>
        fst (fetch env cfg c s) = fst (cached_entry env cfg c r bytes
            (repository_cache_path env cfg r (repository_path c)) s)))"
proof -
  let ?P = "\<lambda>r. is_ok (read_disk (repository_cache_path env cfg r (repository_path c)) s)"
  note from_cache = fetch_from_offline [OF assms(1-3), of env "repository_path c" s]
  show ?thesis
  proof (cases "List.find ?P (rc_repositories cfg)")
    case None
    with assms(4) show ?thesis
      by (simp add: fetch_def Let_def fetch_uncached_def from_cache)
  next
    case (Some r)
    then obtain bytes where "read_disk (repository_cache_path env cfg r (repository_path c)) s = Inr bytes"
      by (auto simp: is_ok_iff dest!: find_Some_in)
    with Some assms(4) show ?thesis
      by (simp add: fetch_def Let_def fetch_uncached_def from_cache split: prod.split sum.split)
  qed
qed

definition sample_cached :: client_state where
  "sample_cached = sample_client\<lparr>cs_disk :=
     [repository_cache_path sample_env (sample_config True) ''https://r/'' ''g/a/1/a-1.jar'' \<mapsto>
       Bytes ''jar'']\<rparr>"

theorem offline_fetch_first_cached_witness:
  "\<exists>bytes. read_disk (repository_cache_path sample_env (sample_config True) ''https://r/''
       ''g/a/1/a-1.jar'') sample_cached = Inr bytes \<and>
     fst (fetch sample_env (sample_config True) sample_coordinate sample_cached) =
       fst (cached_entry sample_env (sample_config True) sample_coordinate ''https://r/'' bytes
         (repository_cache_path sample_env (sample_config True) ''https://r/'' ''g/a/1/a-1.jar'')
         sample_cached)"
proof -
  have path: "repository_path sample_coordinate = ''g/a/1/a-1.jar''" by code_simp
  have hyps: "rc_offline (sample_config True)" "\<not> ends_with ''-SNAPSHOT'' (c_version sample_coordinate)"
    "\<forall>r \<in> set (rc_repositories (sample_config True)). strip_prefix ''file://'' r = None"
    "cs_memory sample_cached (repository_path sample_coordinate) = None"
    "rc_repositories (sample_config True) = [''https://r/'']"
    by (simp_all add: sample_config_def new_config_def sample_coordinate_def coordinate_jar_def
        sample_cached_def sample_client_def) code_simp
  have "read_disk (repository_cache_path sample_env (sample_config True) ''https://r/''
      ''g/a/1/a-1.jar'') sample_cached = Inr ''jar''"
    by (simp add: sample_cached_def read_disk_def)
  with offline_fetch_first_cached [OF hyps(1-4), of sample_env] show ?thesis
    by (simp add: path hyps(5))
qed

text \<open>
  A version catalog lists each version once, trimmed and non-empty,
  exactly those that the \<open>version\<close> elements below the first \<open>versioning\<close> element hold as their
  leading text; a document that names no version at all is an error.
\<close>

theorem catalog_sound:
  assumes "parse_version_catalog parse bytes source = Inr vc"
  shows "utf8_valid bytes \<and> distinct (vc_versions vc) \<and> vc_source vc = source \<and>
    (vc_versions vc \<noteq> [] \<or> vc_latest vc \<noteq> None \<or> vc_release vc \<noteq> None) \<and>
    (\<exists>document versioning. parse bytes = Inr document \<and>
       List.find (has_tag ''versioning'') (descendants document) = Some versioning \<and>
       set (vc_versions vc) =
         {v. v \<noteq> [] \<and> (\<exists>versions node t. xml_child versioning ''versions'' = Some versions \<and>
            node \<in> set (children_named ''version'' versions) \<and> node_text node = Some t \<and>
            v = trim t)})"
proof -
  from assms obtain document versioning where
    parts: "utf8_valid bytes" "parse bytes = Inr document"
      "List.find (has_tag ''versioning'') (descendants document) = Some versioning"
    and vc: "vc = \<lparr>vc_versions = catalog_versions versioning,
        vc_latest = xml_child_text versioning ''latest'',
        vc_release = xml_child_text versioning ''release'', vc_source = source\<rparr>"
    and some: "catalog_versions versioning \<noteq> [] \<or> xml_child_text versioning ''latest'' \<noteq> None \<or>
        xml_child_text versioning ''release'' \<noteq> None"
    by (auto simp: parse_version_catalog_def and_then_Inr_iff Let_def split: if_splits)
  have "set (catalog_versions versioning) =
      {v. v \<noteq> [] \<and> (\<exists>versions node t. xml_child versioning ''versions'' = Some versions \<and>
         node \<in> set (children_named ''version'' versions) \<and> node_text node = Some t \<and> v = trim t)}"
    by (cases "xml_child versioning ''versions''")
       (force simp: catalog_versions_def Let_def unseen_spec List.map_filter_def)+
  moreover have "distinct (catalog_versions versioning)"
    by (simp add: catalog_versions_def Let_def unseen_spec)
  ultimately show ?thesis using parts some unfolding vc by auto
qed

definition sample_metadata :: xml_parser where
  "sample_metadata s = Inr (Element ''metadata'' [Element ''versioning''
     [Element ''versions'' [Element ''version'' [Text '' 1.0 ''], Element ''version'' [Text ''1.0''],
        Element ''version'' [Text ''2.0'']]]])"

theorem catalog_sound_witness:
  "\<exists>vc. parse_version_catalog sample_metadata ''<metadata/>'' ''r'' = Inr vc \<and>
     vc_versions vc = [''1.0'', ''2.0''] \<and> distinct (vc_versions vc)"
proof -
  have "map_sum id vc_versions (parse_version_catalog sample_metadata ''<metadata/>'' ''r'') =
      Inr [''1.0'', ''2.0'']"
    by code_simp
  then obtain vc where vc: "parse_version_catalog sample_metadata ''<metadata/>'' ''r'' = Inr vc"
      "vc_versions vc = [''1.0'', ''2.0'']"
    by (cases "parse_version_catalog sample_metadata ''<metadata/>'' ''r''") auto
  with catalog_sound [OF vc(1)] show ?thesis by blast
qed

end
