(* ===== verification/Graph.thy ===== *)
theory Graph
  imports Repository
begin

text \<open>
  Dependency resolution, \<open>crates/jman-resolver/src/graph.rs\<close>: breadth-first mediation over a
  queue of candidates, downloads that finish in any order, classpaths, and the import of Maven
  reactors. The resolution loop has fuel for its iterations, the model builder fuel for its
  depth; \<open>None\<close> means one of them ran out. Tasks are run one after the other; the order in
  which downloads finish is the parameter \<open>rv_order\<close>.
\<close>

section \<open>Data\<close>

record resolved_package =
  g_coordinate :: coordinate
  g_source :: str
  g_pom_checksum :: str
  g_checksum :: "str option"
  g_size :: "nat option"
  g_path :: "path option"
  g_dependencies :: "str list"
  g_scopes :: "str list"
  g_parent :: "nat option"

record resolved_graph =
  rg_packages :: "resolved_package list"
  rg_compile :: "str list"
  rg_runtime :: "str list"
  rg_test :: "str list"
  rg_processor :: "str list"

record candidate =
  k_dependency :: dependency
  k_scope :: str
  k_active :: "exclusion list"
  k_descendant :: "exclusion list"
  k_parent :: "nat option"

record resolver =
  rv_env :: repository_env
  rv_config :: repository_config
  rv_platform :: platform
  rv_depth :: nat
  rv_order :: "(nat \<times> coordinate) list \<Rightarrow> (nat \<times> coordinate) list"
  rv_canonicalize :: "disk \<Rightarrow> path \<Rightarrow> (str, path) result"

record resolve_state =
  q_queue :: "candidate list"
  q_packages :: "resolved_package list"
  q_selected :: "str \<Rightarrow> nat option"
  q_prefetched :: "str list"
  q_downloads :: "(nat \<times> coordinate) list"

type_synonym 'a resolve_step = "(client_state, 'a) build"

section \<open>Candidates\<close>

definition root_candidates :: "effective_pom \<Rightarrow> candidate list" where
  "root_candidates project =
     map (\<lambda>d. \<lparr>k_dependency = d, k_scope = d_scope d, k_active = [],
               k_descendant = d_exclusions d, k_parent = None\<rparr>) (e_dependencies project) @
     map (\<lambda>p. \<lparr>k_dependency = ap_dependency p, k_scope = ''processor'', k_active = [],
               k_descendant = d_exclusions (ap_dependency p), k_parent = None\<rparr>)
       (e_processors project)"

definition excluded :: "candidate \<Rightarrow> bool" where
  "excluded k \<longleftrightarrow> list_ex (\<lambda>x. exclusion_matches x (k_dependency k)) (k_active k)"

definition apply_root_management :: "dependency \<Rightarrow> dependency list \<Rightarrow> dependency" where
  "apply_root_management d management =
     (case List.find (\<lambda>m. management_key m = management_key d) management of
        None \<Rightarrow> d
      | Some m \<Rightarrow>
          d\<lparr>d_version := (if d_version m \<noteq> None then d_version m else d_version d),
            d_scope := (if d_scope_explicit m then d_scope m else d_scope d),
            d_type := (if d_type_explicit m then d_type m else d_type d),
            d_exclusions := push_missing (d_exclusions d) (d_exclusions m)\<rparr>)"

definition derive_scope :: "str \<Rightarrow> str \<Rightarrow> str option" where
  "derive_scope par child =
     (if par = ''compile'' \<and> child = ''compile'' then Some ''compile''
      else if par = ''compile'' \<and> child = ''runtime'' \<or>
              par = ''runtime'' \<and> (child = ''compile'' \<or> child = ''runtime'') then Some ''runtime''
      else if par = ''provided'' \<and> (child = ''compile'' \<or> child = ''runtime'') then Some ''provided''
      else if par = ''test'' \<and> (child = ''compile'' \<or> child = ''runtime'') then Some ''test''
      else if par = ''processor'' \<and> (child = ''compile'' \<or> child = ''runtime'') then Some ''processor''
      else None)"

definition child_candidate ::
    "candidate \<Rightarrow> nat \<Rightarrow> dependency list \<Rightarrow> dependency \<Rightarrow> candidate option" where
  "child_candidate k index root_management d =
     (if d_optional d = Some True then None
      else
        (let d = apply_root_management d root_management
         in case derive_scope (k_scope k) (d_scope d) of
              None \<Rightarrow> None
            | Some scope \<Rightarrow>
                Some \<lparr>k_dependency = d, k_scope = scope, k_active = k_descendant k,
                      k_descendant = k_descendant k @ d_exclusions d, k_parent = Some index\<rparr>))"

definition enqueue_children ::
    "candidate list \<Rightarrow> effective_pom \<Rightarrow> candidate \<Rightarrow> nat \<Rightarrow> dependency list \<Rightarrow> candidate list" where
  "enqueue_children queue effective k index root_management =
     queue @ List.map_filter (child_candidate k index root_management) (e_dependencies effective)"

definition add_edge ::
    "resolved_package list \<Rightarrow> nat option \<Rightarrow> nat \<Rightarrow> resolved_package list" where
  "add_edge packages par child =
     (case par of
        None \<Rightarrow> packages
      | Some p \<Rightarrow>
          (let c = coordinate_display (g_coordinate (packages ! child))
           in if c \<in> set (g_dependencies (packages ! p)) then packages
              else packages[p := (packages ! p)\<lparr>g_dependencies := g_dependencies (packages ! p) @ [c]\<rparr>]))"

section \<open>Steps of the resolution\<close>

definition client_step :: "'a client_step \<Rightarrow> 'a resolve_step" where
  "client_step m s = (case m (snd s) of (r, w) \<Rightarrow> Some (r, (fst s, w)))"

definition build_pom :: "resolver \<Rightarrow> coordinate \<Rightarrow> effective_pom resolve_step" where
  "build_pom rv c =
     build_coordinate (parse_xml (rv_env rv)) (rv_platform rv) (load_pom (rv_env rv) (rv_config rv))
       (rv_depth rv) c"

definition pom_of :: "coordinate \<Rightarrow> coordinate" where
  "pom_of c = coordinate_pom (c_group c) (c_artifact c) (c_version c)"

text \<open>The speculative fetches: their results are dropped, the client keeps what they cached.\<close>

definition prefetch_coordinates :: "candidate list \<Rightarrow> str list \<Rightarrow> coordinate list \<times> str list" where
  "prefetch_coordinates queue prefetched =
     fold (\<lambda>k (found, prefetched).
             if excluded k then (found, prefetched)
             else (case dependency_coordinate (k_dependency k) of
                     Inl _ \<Rightarrow> (found, prefetched)
                   | Inr c \<Rightarrow>
                       (let key = coordinate_display (pom_of c)
                        in if key \<in> set prefetched then (found, prefetched)
                           else (found @ [pom_of c], key # prefetched))))
       queue ([], prefetched)"

definition prefetch_candidate_poms :: "resolver \<Rightarrow> resolve_state \<Rightarrow> resolve_state resolve_step" where
  "prefetch_candidate_poms rv st s =
     (case prefetch_coordinates (q_queue st) (q_prefetched st) of
        (coordinates, prefetched) \<Rightarrow>
          Some (Inr (st\<lparr>q_prefetched := prefetched\<rparr>),
                (fst s, fold (\<lambda>c w. snd (fetch (rv_env rv) (rv_config rv) c w)) coordinates (snd s))))"

definition schedule_artifact ::
    "coordinate \<Rightarrow> nat \<Rightarrow> (nat \<times> coordinate) list \<Rightarrow> (nat \<times> coordinate) list" where
  "schedule_artifact c index downloads =
     (if c_extension c = ''pom'' then downloads else downloads @ [(index, c)])"

definition local_pom_file :: "repository_env \<Rightarrow> maven_project \<Rightarrow> cached_file client_step" where
  "local_pom_file env module s =
     (case read_disk (mp_source module) s of
        Inl e \<Rightarrow> (Inl (cache_error (mp_source module) (read_error_text e)), s)
      | Inr bytes \<Rightarrow>
          (Inr \<lparr>cf_path = mp_source module, cf_checksum = sha256 env bytes, cf_bytes = bytes,
                cf_source = ''workspace:'' @ show_path (mp_source module)\<rparr>, s))"

definition same_gav :: "coordinate \<Rightarrow> coordinate \<Rightarrow> bool" where
  "same_gav c c' \<longleftrightarrow> c_group c = c_group c' \<and> c_artifact c = c_artifact c' \<and> c_version c = c_version c'"

definition find_module :: "maven_project list \<Rightarrow> coordinate \<Rightarrow> maven_project option" where
  "find_module workspace c = List.find (\<lambda>m. same_gav (e_coordinate (mp_effective m)) c) workspace"

definition pom_file ::
    "resolver \<Rightarrow> maven_project list \<Rightarrow> coordinate \<Rightarrow> cached_file resolve_step" where
  "pom_file rv workspace c =
     (case find_module workspace c of
        Some m \<Rightarrow> client_step (local_pom_file (rv_env rv) m)
      | None \<Rightarrow> client_step (fetch (rv_env rv) (rv_config rv) (pom_of c)))"

text \<open>A candidate for a key that is already selected.\<close>

definition visit_selected ::
    "resolver \<Rightarrow> effective_pom \<Rightarrow> candidate \<Rightarrow> coordinate \<Rightarrow> effective_pom \<Rightarrow> nat \<Rightarrow> resolve_state \<Rightarrow>
     resolve_state resolve_step" where
  "visit_selected rv project k c effective index st =
     (let packages = add_edge (q_packages st) (k_parent k) index;
          package = packages ! index;
          st = st\<lparr>q_packages := packages\<rparr>
      in if k_scope k \<in> set (g_scopes package) then lift_build (Inr st)
         else
           (let st = st\<lparr>q_packages :=
                  packages[index := package\<lparr>g_scopes := bs_insert (k_scope k) (g_scopes package)\<rparr>]\<rparr>
            in bind_build
                 (if c_version (g_coordinate package) = c_version c
                  then lift_build (Inr effective)
                  else build_pom rv (pom_of (g_coordinate package))) (\<lambda>effective.
               prefetch_candidate_poms rv
                 (st\<lparr>q_queue := enqueue_children (q_queue st) effective k index
                       (e_management project)\<rparr>))))"

text \<open>A candidate for a new key: its package is appended and its artifact scheduled.\<close>

definition new_package :: "candidate \<Rightarrow> coordinate \<Rightarrow> cached_file \<Rightarrow> resolved_package" where
  "new_package k c f =
     \<lparr>g_coordinate = c, g_source = cf_source f, g_pom_checksum = cf_checksum f, g_checksum = None,
      g_size = None, g_path = None, g_dependencies = [], g_scopes = [k_scope k],
      g_parent = k_parent k\<rparr>"

definition visit_new ::
    "resolver \<Rightarrow> effective_pom \<Rightarrow> maven_project list \<Rightarrow> candidate \<Rightarrow> coordinate \<Rightarrow> effective_pom \<Rightarrow>
     str \<Rightarrow> resolve_state \<Rightarrow> resolve_state resolve_step" where
  "visit_new rv project workspace k c effective key st =
     bind_build (pom_file rv workspace c) (\<lambda>f.
       let index = length (q_packages st)
       in prefetch_candidate_poms rv
            \<lparr>q_queue = enqueue_children (q_queue st) effective k index (e_management project),
             q_packages = add_edge (q_packages st @ [new_package k c f]) (k_parent k) index,
             q_selected = (q_selected st)(key \<mapsto> index),
             q_prefetched = q_prefetched st,
             q_downloads =
               (if find_module workspace c = None
                then schedule_artifact c index (q_downloads st) else q_downloads st)\<rparr>)"

definition relocation_target :: "coordinate \<Rightarrow> effective_pom \<Rightarrow> coordinate option" where
  "relocation_target c effective =
     (case e_relocation effective of
        None \<Rightarrow> None | Some r \<Rightarrow> if same_gav r c then None else Some r)"

definition relocate :: "candidate \<Rightarrow> coordinate \<Rightarrow> candidate" where
  "relocate k r =
     k\<lparr>k_dependency := (k_dependency k)\<lparr>d_group := c_group r, d_artifact := c_artifact r,
         d_version := Some (c_version r)\<rparr>\<rparr>"

text \<open>One iteration of the loop, with the candidate already taken from the queue.\<close>

definition visit ::
    "resolver \<Rightarrow> effective_pom \<Rightarrow> maven_project list \<Rightarrow> candidate \<Rightarrow> resolve_state \<Rightarrow>
     resolve_state resolve_step" where
  "visit rv project workspace k st =
     (if excluded k then lift_build (Inr st)
      else
        bind_build (lift_build (dependency_coordinate (k_dependency k))) (\<lambda>c.
        bind_build (build_pom rv (pom_of c)) (\<lambda>effective.
          case relocation_target c effective of
            Some r \<Rightarrow> lift_build (Inr (st\<lparr>q_queue := relocate k r # q_queue st\<rparr>))
          | None \<Rightarrow>
              (let key = management_key (k_dependency k)
               in case q_selected st key of
                    Some index \<Rightarrow> visit_selected rv project k c effective index st
                  | None \<Rightarrow> visit_new rv project workspace k c effective key st))))"

fun resolve_loop ::
    "nat \<Rightarrow> resolver \<Rightarrow> effective_pom \<Rightarrow> maven_project list \<Rightarrow> resolve_state \<Rightarrow>
     resolve_state resolve_step" where
  "resolve_loop 0 rv project workspace st s = None"
| "resolve_loop (Suc n) rv project workspace st s =
     (case q_queue st of
        [] \<Rightarrow> Some (Inr st, s)
      | k # rest \<Rightarrow>
          bind_build (visit rv project workspace k (st\<lparr>q_queue := rest\<rparr>))
            (resolve_loop n rv project workspace) s)"

section \<open>Downloads\<close>

fun run_downloads ::
    "repository_env \<Rightarrow> repository_config \<Rightarrow> (nat \<times> coordinate) list \<Rightarrow>
     (nat \<times> cached_file) list client_step" where
  "run_downloads env cfg [] = step_of (Inr [])"
| "run_downloads env cfg ((i, c) # rest) =
     step_bind (fetch env cfg c) (\<lambda>f.
     step_bind (run_downloads env cfg rest) (\<lambda>fs. step_of (Inr ((i, f) # fs))))"

definition with_artifact :: "cached_file \<Rightarrow> resolved_package \<Rightarrow> resolved_package" where
  "with_artifact f p =
     p\<lparr>g_checksum := Some (cf_checksum f), g_size := Some (length (cf_bytes f)),
       g_path := Some (cf_path f)\<rparr>"

definition apply_artifacts ::
    "(nat \<times> cached_file) list \<Rightarrow> resolved_package list \<Rightarrow> resolved_package list" where
  "apply_artifacts artifacts packages =
     fold (\<lambda>(i, f) ps. ps[i := with_artifact f (ps ! i)]) (sort_key fst artifacts) packages"

definition finish_artifacts ::
    "resolver \<Rightarrow> resolve_state \<Rightarrow> resolved_package list client_step" where
  "finish_artifacts rv st =
     step_bind (run_downloads (rv_env rv) (rv_config rv) (rv_order rv (q_downloads st)))
       (\<lambda>artifacts. step_of (Inr (apply_artifacts artifacts (q_packages st))))"

section \<open>Classpaths\<close>

type_synonym unique_list = "str list \<times> str list"

definition push_unique :: "str \<Rightarrow> unique_list \<Rightarrow> unique_list" where
  "push_unique checksum u =
     (case u of (target, seen) \<Rightarrow>
        if checksum \<in> set seen then u else (target @ [checksum], checksum # seen))"

record classpaths =
  cp_compile :: unique_list
  cp_runtime :: unique_list
  cp_test :: unique_list
  cp_processor :: unique_list

definition add_scope :: "str \<Rightarrow> str \<Rightarrow> classpaths \<Rightarrow> classpaths" where
  "add_scope checksum scope cp =
     (if scope = ''compile''
      then cp\<lparr>cp_compile := push_unique checksum (cp_compile cp),
              cp_runtime := push_unique checksum (cp_runtime cp),
              cp_test := push_unique checksum (cp_test cp)\<rparr>
      else if scope = ''runtime''
      then cp\<lparr>cp_runtime := push_unique checksum (cp_runtime cp),
              cp_test := push_unique checksum (cp_test cp)\<rparr>
      else if scope = ''provided''
      then cp\<lparr>cp_compile := push_unique checksum (cp_compile cp),
              cp_test := push_unique checksum (cp_test cp)\<rparr>
      else if scope = ''test'' then cp\<lparr>cp_test := push_unique checksum (cp_test cp)\<rparr>
      else if scope = ''processor'' then cp\<lparr>cp_processor := push_unique checksum (cp_processor cp)\<rparr>
      else cp)"

definition add_package :: "resolved_package \<Rightarrow> classpaths \<Rightarrow> classpaths" where
  "add_package p cp =
     (case g_checksum p of None \<Rightarrow> cp | Some checksum \<Rightarrow> fold (add_scope checksum) (g_scopes p) cp)"

definition build_classpaths :: "resolved_package list \<Rightarrow> resolved_graph" where
  "build_classpaths packages =
     (let cp = fold add_package packages
            \<lparr>cp_compile = ([], []), cp_runtime = ([], []), cp_test = ([], []),
             cp_processor = ([], [])\<rparr>
      in \<lparr>rg_packages = packages, rg_compile = fst (cp_compile cp), rg_runtime = fst (cp_runtime cp),
          rg_test = fst (cp_test cp), rg_processor = fst (cp_processor cp)\<rparr>)"

section \<open>Resolution\<close>

definition start_state :: "effective_pom \<Rightarrow> resolve_state" where
  "start_state project =
     \<lparr>q_queue = root_candidates project, q_packages = [], q_selected = Map.empty,
      q_prefetched = [], q_downloads = []\<rparr>"

definition resolve_in_workspace ::
    "nat \<Rightarrow> resolver \<Rightarrow> effective_pom \<Rightarrow> maven_project list \<Rightarrow> resolved_graph resolve_step" where
  "resolve_in_workspace n rv project workspace s =
     bind_build (prefetch_candidate_poms rv (start_state project)) (\<lambda>st.
     bind_build (resolve_loop n rv project workspace st) (\<lambda>st.
     bind_build (client_step (finish_artifacts rv st)) (\<lambda>packages.
       lift_build (Inr (build_classpaths packages)))))
       (fold (\<lambda>m. remember (mp_effective m)) workspace (Map.empty, snd s))"

definition resolve :: "nat \<Rightarrow> resolver \<Rightarrow> effective_pom \<Rightarrow> resolved_graph resolve_step" where
  "resolve n rv project = resolve_in_workspace n rv project []"

section \<open>Reactors\<close>

definition with_fresh_cache :: "'a resolve_step \<Rightarrow> 'a resolve_step" where
  "with_fresh_cache m s =
     (case m (Map.empty, snd s) of None \<Rightarrow> None | Some (r, s') \<Rightarrow> Some (r, (fst s, snd s')))"

definition read_text :: "path \<Rightarrow> str client_step" where
  "read_text p s =
     (case read_disk p s of
        Inl e \<Rightarrow> (Inl (cache_error p (read_error_text e)), s)
      | Inr bytes \<Rightarrow>
          (if utf8_valid bytes then Inr bytes else Inl (cache_error p ''invalid utf-8''), s))"

definition canonical :: "resolver \<Rightarrow> path \<Rightarrow> path client_step" where
  "canonical rv p s = (map_err (cache_error p) (rv_canonicalize rv (cs_disk s) p), s)"

definition repository_only_parent :: "raw_pom \<Rightarrow> bool" where
  "repository_only_parent raw \<longleftrightarrow> Option.bind (raw_parent raw) p_relative_path = Some []"

definition build_module :: "resolver \<Rightarrow> str \<Rightarrow> raw_pom \<Rightarrow> effective_pom resolve_step" where
  "build_module rv xml raw =
     (let run = build_local (parse_xml (rv_env rv)) (rv_platform rv)
                  (load_pom (rv_env rv) (rv_config rv)) (rv_depth rv) xml
      in if repository_only_parent raw then with_fresh_cache run else run)"

definition remember_step :: "effective_pom \<Rightarrow> unit resolve_step" where
  "remember_step m s = Some (Inr (), remember m s)"

definition module_pom :: "path \<Rightarrow> str \<Rightarrow> path" where
  "module_pom dir m =
     (let candidate = path_join dir (path_of m)
      in if path_file_name candidate = Some ''pom.xml'' then candidate
         else path_join candidate (path_of ''pom.xml''))"

definition locate_module :: "resolver \<Rightarrow> path \<Rightarrow> path \<Rightarrow> str \<Rightarrow> path client_step" where
  "locate_module rv root dir m =
     step_bind (canonical rv (module_pom dir m)) (\<lambda>p.
       step_of (if path_starts_with p root then Inr p
                else Inl (InvalidPom (''reactor module '' @ show_path p @ '' escapes workspace ''
                       @ show_path root))))"

fun locate_modules :: "resolver \<Rightarrow> path \<Rightarrow> path \<Rightarrow> str list \<Rightarrow> path list client_step" where
  "locate_modules rv root dir [] = step_of (Inr [])"
| "locate_modules rv root dir (m # ms) =
     step_bind (locate_module rv root dir m) (\<lambda>p.
     step_bind (locate_modules rv root dir ms) (\<lambda>ps. step_of (Inr (p # ps))))"

definition import_module ::
    "resolver \<Rightarrow> path \<Rightarrow> path \<Rightarrow> (path list \<times> maven_project) resolve_step" where
  "import_module rv root p =
     bind_build (client_step (read_text p)) (\<lambda>xml.
     bind_build (lift_build (parse_pom (parse_xml (rv_env rv)) (rv_platform rv) xml)) (\<lambda>raw.
     bind_build (build_module rv xml raw) (\<lambda>effective.
     bind_build (remember_step effective) (\<lambda>_.
     bind_build (lift_build (ok_or (InvalidPom (''module POM '' @ show_path p
         @ '' has no parent directory'')) (path_parent p))) (\<lambda>dir.
     bind_build (client_step (locate_modules rv root dir (e_modules effective))) (\<lambda>modules.
       lift_build (Inr (modules, \<lparr>mp_source = p, mp_effective = effective\<rparr>))))))))"

fun import_loop ::
    "nat \<Rightarrow> resolver \<Rightarrow> path \<Rightarrow> path list \<Rightarrow> path list \<Rightarrow> maven_project list \<Rightarrow>
     maven_project list resolve_step" where
  "import_loop 0 rv root pending discovered projects s = None"
| "import_loop (Suc n) rv root pending discovered projects s =
     (case pending of
        [] \<Rightarrow> Some (Inr projects, s)
      | p # rest \<Rightarrow>
          if p \<in> set discovered
          then Some (Inl (InvalidPom (''duplicate or cyclic reactor module '' @ show_path p)), s)
          else
            bind_build (import_module rv root p) (\<lambda>(modules, project).
              import_loop n rv root (rest @ modules) (p # discovered) (projects @ [project])) s)"

definition import_workspace ::
    "nat \<Rightarrow> resolver \<Rightarrow> path \<Rightarrow> maven_project list resolve_step" where
  "import_workspace n rv pom_path =
     with_fresh_cache
       (bind_build (client_step (canonical rv pom_path)) (\<lambda>root_pom.
        bind_build (lift_build (ok_or
            (InvalidPom ''reactor root POM has no parent directory'') (path_parent root_pom))) (\<lambda>root.
          import_loop n rv root [root_pom] [] [])))"

definition import_project :: "nat \<Rightarrow> resolver \<Rightarrow> path \<Rightarrow> effective_pom resolve_step" where
  "import_project n rv pom_path =
     bind_build (import_workspace n rv pom_path) (\<lambda>projects.
       lift_build (case projects of
           [] \<Rightarrow> Inl (InvalidPom ''empty Maven reactor'')
         | p # _ \<Rightarrow> Inr (mp_effective p)))"

definition export_source ::
    "resolver \<Rightarrow> path \<Rightarrow> precomputed_project \<Rightarrow> path list \<Rightarrow> path client_step" where
  "export_source rv root project sources =
     step_bind (canonical rv (pp_directory project)) (\<lambda>dir.
       if \<not> path_starts_with dir root
       then step_of (Inl (InvalidPom (''effective Maven project '' @ show_path dir
              @ '' escapes workspace '' @ show_path root)))
       else
         step_bind (canonical rv (path_join dir (path_of ''pom.xml''))) (\<lambda>source.
           step_of (if source \<in> set sources
                    then Inl (InvalidPom (''effective Maven reactor contains duplicate project ''
                           @ show_path source))
                    else Inr source)))"

fun import_exports ::
    "resolver \<Rightarrow> path \<Rightarrow> precomputed_project list \<Rightarrow> maven_project list \<Rightarrow>
     maven_project list resolve_step" where
  "import_exports rv root [] projects = lift_build (Inr projects)"
| "import_exports rv root (x # xs) projects =
     bind_build (client_step (export_source rv root x (map mp_source projects))) (\<lambda>source.
     bind_build (build_precomputed (parse_xml (rv_env rv)) (rv_platform rv)
         (load_pom (rv_env rv) (rv_config rv)) (rv_depth rv) (pp_raw x)) (\<lambda>effective.
     bind_build (remember_step effective) (\<lambda>_.
       import_exports rv root xs
         (projects @ [\<lparr>mp_source = source, mp_effective = effective\<rparr>]))))"

definition import_effective_workspace ::
    "resolver \<Rightarrow> str \<Rightarrow> path \<Rightarrow> maven_project list resolve_step" where
  "import_effective_workspace rv xml workspace_root =
     with_fresh_cache
       (bind_build (client_step (canonical rv workspace_root)) (\<lambda>root.
        bind_build (lift_build (parse_effective_workspace (parse_xml (rv_env rv))
            (rv_platform rv) xml)) (\<lambda>exported.
          import_exports rv root exported [])))"

end
