(* ===== verification/Graph_Facts.thy ===== *)
theory Graph_Facts
  imports Graph
begin

text \<open>
  The invariant of the resolution and its consequences: the packages form a tree of selections
  with consistent edges, a selection is final, exclusions and scopes are inherited, downloads
  may finish in any order, and the classpaths are exactly the artifacts of their scopes.
\<close>

section \<open>Packages\<close>

abbreviation display_of :: "resolved_package \<Rightarrow> str" where
  "display_of p \<equiv> coordinate_display (g_coordinate p)"

definition scopes_ok :: "resolved_package list \<Rightarrow> bool" where
  "scopes_ok ps \<longleftrightarrow> (\<forall>p \<in> set ps. g_scopes p \<noteq> [] \<and> bs_wf (g_scopes p))"

definition edges_ok :: "resolved_package list \<Rightarrow> bool" where
  "edges_ok ps \<longleftrightarrow> (\<forall>p \<in> set ps. distinct (g_dependencies p) \<and>
     set (g_dependencies p) \<subseteq> display_of ` set ps)"

definition parents_ok :: "resolved_package list \<Rightarrow> bool" where
  "parents_ok ps \<longleftrightarrow> (\<forall>i < length ps. \<forall>j. g_parent (ps ! i) = Some j \<longrightarrow>
     j < i \<and> display_of (ps ! i) \<in> set (g_dependencies (ps ! j)))"

definition packages_ok :: "resolved_package list \<Rightarrow> bool" where
  "packages_ok ps \<longleftrightarrow> scopes_ok ps \<and> edges_ok ps \<and> parents_ok ps"

text \<open>A selection is final: later packages are appended, earlier ones only gain scopes and edges.\<close>

definition package_extends :: "resolved_package \<Rightarrow> resolved_package \<Rightarrow> bool" where
  "package_extends p q \<longleftrightarrow> g_coordinate q = g_coordinate p \<and> g_source q = g_source p \<and>
     g_pom_checksum q = g_pom_checksum p \<and> g_parent q = g_parent p \<and>
     g_checksum q = g_checksum p \<and> g_size q = g_size p \<and> g_path q = g_path p \<and>
     set (g_scopes p) \<subseteq> set (g_scopes q) \<and> prefix (g_dependencies p) (g_dependencies q)"

definition packages_extend :: "resolved_package list \<Rightarrow> resolved_package list \<Rightarrow> bool" where
  "packages_extend ps qs \<longleftrightarrow> length ps \<le> length qs \<and>
     (\<forall>i < length ps. package_extends (ps ! i) (qs ! i))"

lemma package_extends_refl [simp, intro]: "package_extends p p"
  by (simp add: package_extends_def)

lemma packages_extend_refl [simp, intro]: "packages_extend ps ps"
  by (simp add: packages_extend_def)

lemma packages_extend_trans:
  assumes "packages_extend ps qs" "packages_extend qs rs"
  shows "packages_extend ps rs"
proof -
  have "package_extends p r" if "package_extends p q" "package_extends q r" for p q r
    using that by (auto simp: package_extends_def intro: prefix_order.trans)
  with assms show ?thesis
    unfolding packages_extend_def by (meson le_trans order_less_le_trans)
qed

lemma packages_extend_append: "packages_extend ps (ps @ qs)"
  by (simp add: packages_extend_def nth_append)

lemma packages_extend_update:
  "i < length ps \<Longrightarrow> package_extends (ps ! i) p \<Longrightarrow> packages_extend ps (ps[i := p])"
  by (simp add: packages_extend_def nth_list_update)

lemma display_update:
  assumes "g_coordinate p = g_coordinate (ps ! i)"
  shows "display_of ` set (ps[i := p]) = display_of ` set ps"
proof -
  have "map display_of (ps[i := p]) = map display_of ps"
    using assms by (intro map_update_same) simp
  then show ?thesis by (metis list.set_map)
qed

definition valid_parent :: "nat option \<Rightarrow> nat \<Rightarrow> bool" where
  "valid_parent par n \<longleftrightarrow> (\<forall>p. par = Some p \<longrightarrow> p < n)"

lemma length_add_edge [simp]: "length (add_edge ps par child) = length ps"
  by (simp add: add_edge_def Let_def split: option.split)

lemma add_edge_extends:
  "valid_parent par (length ps) \<Longrightarrow> packages_extend ps (add_edge ps par child)"
  by (auto simp: add_edge_def Let_def package_extends_def valid_parent_def split: option.split
      intro!: packages_extend_update)

lemma add_edge_nth:
  assumes "valid_parent par (length ps)" and "i < length ps"
  shows "g_scopes (add_edge ps par child ! i) = g_scopes (ps ! i) \<and>
    g_parent (add_edge ps par child ! i) = g_parent (ps ! i) \<and>
    g_coordinate (add_edge ps par child ! i) = g_coordinate (ps ! i) \<and>
    g_checksum (add_edge ps par child ! i) = g_checksum (ps ! i) \<and>
    set (g_dependencies (ps ! i)) \<subseteq> set (g_dependencies (add_edge ps par child ! i))"
  using assms by (auto simp: add_edge_def Let_def nth_list_update valid_parent_def split: option.split)

lemma add_edge_present:
  assumes "p < length ps" "child < length ps"
  shows "display_of (ps ! child) \<in> set (g_dependencies (add_edge ps (Some p) child ! p))"
  using assms by (simp add: add_edge_def Let_def)

lemma add_edge_edges:
  assumes "edges_ok ps" "child < length ps" "valid_parent par (length ps)"
  shows "edges_ok (add_edge ps par child)"
proof (cases par)
  case None
  with assms show ?thesis by (simp add: add_edge_def)
next
  case (Some p)
  let ?c = "display_of (ps ! child)"
  let ?q = "(ps ! p)\<lparr>g_dependencies := g_dependencies (ps ! p) @ [?c]\<rparr>"
  have p: "p < length ps" using assms(3) Some by (simp add: valid_parent_def)
  show ?thesis
  proof (cases "?c \<in> set (g_dependencies (ps ! p))")
    case True
    with Some assms show ?thesis by (simp add: add_edge_def Let_def)
  next
    case False
    then have eq: "add_edge ps par child = ps[p := ?q]"
      using Some by (simp add: add_edge_def Let_def)
    have img: "display_of ` set (ps[p := ?q]) = display_of ` set ps"
      by (intro display_update) simp_all
    have old: "distinct (g_dependencies (ps ! p)) \<and> set (g_dependencies (ps ! p)) \<subseteq> display_of ` set ps"
      using assms(1) p by (simp add: edges_ok_def)
    have "?c \<in> display_of ` set ps" using assms(2) by simp
    with False old have new: "distinct (g_dependencies ?q) \<and>
        set (g_dependencies ?q) \<subseteq> display_of ` set ps"
      by simp
    show ?thesis unfolding edges_ok_def eq img
    proof
      fix x
      assume "x \<in> set (ps[p := ?q])"
      then have "x = ?q \<or> x \<in> set ps" using set_update_subset_insert by fast
      then show "distinct (g_dependencies x) \<and> set (g_dependencies x) \<subseteq> display_of ` set ps"
        using new assms(1) unfolding edges_ok_def by blast
    qed
  qed
qed

lemma add_edge_scopes:
  assumes "scopes_ok ps" "valid_parent par (length ps)"
  shows "scopes_ok (add_edge ps par child)"
  using assms(1) add_edge_nth [OF assms(2), where child = child] unfolding scopes_ok_def
  by (metis in_set_conv_nth length_add_edge)

lemma add_edge_parents:
  assumes "parents_ok ps" "valid_parent par (length ps)"
  shows "parents_ok (add_edge ps par child)"
  unfolding parents_ok_def
proof (intro allI impI)
  fix i j
  assume i: "i < length (add_edge ps par child)" and j: "g_parent (add_edge ps par child ! i) = Some j"
  then have "g_parent (ps ! i) = Some j" using add_edge_nth [OF assms(2), where i = i and child = child] by simp
  with i assms(1) have ji: "j < i" "display_of (ps ! i) \<in> set (g_dependencies (ps ! j))"
    by (simp_all add: parents_ok_def)
  have "g_coordinate (add_edge ps par child ! i) = g_coordinate (ps ! i)"
    using add_edge_nth [OF assms(2), where i = i and child = child] i by simp
  moreover have "set (g_dependencies (ps ! j)) \<subseteq> set (g_dependencies (add_edge ps par child ! j))"
    using add_edge_nth [OF assms(2), where i = j and child = child] i ji(1) by simp
  ultimately show "j < i \<and> display_of (add_edge ps par child ! i) \<in>
      set (g_dependencies (add_edge ps par child ! j))"
    using ji by auto
qed

lemma packages_ok_add_edge:
  "packages_ok ps \<Longrightarrow> child < length ps \<Longrightarrow> valid_parent par (length ps) \<Longrightarrow>
     packages_ok (add_edge ps par child)"
  unfolding packages_ok_def by (blast intro: add_edge_scopes add_edge_edges add_edge_parents)

lemma packages_ok_add_scope:
  assumes "packages_ok ps" "i < length ps"
  shows "packages_ok (ps[i := (ps ! i)\<lparr>g_scopes := bs_insert x (g_scopes (ps ! i))\<rparr>])"
proof -
  let ?q = "(ps ! i)\<lparr>g_scopes := bs_insert x (g_scopes (ps ! i))\<rparr>"
  have old: "ps ! i \<in> set ps" using assms(2) by simp
  have mem: "y = ?q \<or> y \<in> set ps" if "y \<in> set (ps[i := ?q])" for y
    using subsetD [OF set_update_subset_insert that] by simp
  have img: "display_of ` set (ps[i := ?q]) = display_of ` set ps"
    by (intro display_update) simp_all
  have "bs_insert x ys \<noteq> []" for ys :: "str list"
    using set_bs_insert [of x ys] by (metis insertI1 list.set(1) equals0D)
  then have new: "g_scopes ?q \<noteq> []" by simp
  have "scopes_ok (ps[i := ?q])" unfolding scopes_ok_def
  proof
    fix y
    assume "y \<in> set (ps[i := ?q])"
    then show "g_scopes y \<noteq> [] \<and> bs_wf (g_scopes y)"
      using assms(1) old mem [of y] new unfolding packages_ok_def scopes_ok_def by auto
  qed
  moreover have "edges_ok (ps[i := ?q])" unfolding edges_ok_def img
  proof
    fix y
    assume "y \<in> set (ps[i := ?q])"
    then show "distinct (g_dependencies y) \<and> set (g_dependencies y) \<subseteq> display_of ` set ps"
      using assms(1) old mem [of y] unfolding packages_ok_def edges_ok_def by fastforce
  qed
  moreover have "parents_ok (ps[i := ?q])"
  proof -
    have "g_parent (ps[i := ?q] ! j) = g_parent (ps ! j) \<and>
        g_dependencies (ps[i := ?q] ! j) = g_dependencies (ps ! j) \<and>
        g_coordinate (ps[i := ?q] ! j) = g_coordinate (ps ! j)" for j
      using assms(2) by (simp add: nth_list_update)
    with assms(1) show ?thesis unfolding packages_ok_def parents_ok_def by simp
  qed
  ultimately show ?thesis by (simp add: packages_ok_def)
qed

lemma packages_ok_append:
  assumes ok: "packages_ok ps" and par: "valid_parent (k_parent k) (length ps)"
  shows "packages_ok (add_edge (ps @ [new_package k c f]) (k_parent k) (length ps))"
proof -
  let ?ps = "ps @ [new_package k c f]"
  have par': "valid_parent (k_parent k) (length ?ps)" using par by (auto simp: valid_parent_def)
  have "scopes_ok ?ps" "edges_ok ?ps"
    using ok by (auto simp: packages_ok_def scopes_ok_def edges_ok_def new_package_def bs_wf_def)
  then have "scopes_ok (add_edge ?ps (k_parent k) (length ps))"
    "edges_ok (add_edge ?ps (k_parent k) (length ps))"
    using par' by (auto intro!: add_edge_scopes add_edge_edges)
  moreover have "parents_ok (add_edge ?ps (k_parent k) (length ps))"
    unfolding parents_ok_def
  proof (intro allI impI)
    fix i j
    assume i: "i < length (add_edge ?ps (k_parent k) (length ps))"
      and j: "g_parent (add_edge ?ps (k_parent k) (length ps) ! i) = Some j"
    have same: "g_parent (add_edge ?ps (k_parent k) (length ps) ! i) = g_parent (?ps ! i)"
      "g_coordinate (add_edge ?ps (k_parent k) (length ps) ! i) = g_coordinate (?ps ! i)"
      using i add_edge_nth [OF par', where i = i and child = "length ps"] by simp_all
    show "j < i \<and> display_of (add_edge ?ps (k_parent k) (length ps) ! i) \<in>
        set (g_dependencies (add_edge ?ps (k_parent k) (length ps) ! j))"
    proof (cases "i < length ps")
      case True
      with same j ok have ji: "j < i" "display_of (ps ! i) \<in> set (g_dependencies (ps ! j))"
        by (auto simp: packages_ok_def parents_ok_def nth_append)
      with True have "display_of (?ps ! i) \<in> set (g_dependencies (?ps ! j))"
        by (simp add: nth_append)
      moreover have "set (g_dependencies (?ps ! j)) \<subseteq>
          set (g_dependencies (add_edge ?ps (k_parent k) (length ps) ! j))"
        using add_edge_nth [OF par', where i = j and child = "length ps"] ji True by simp
      ultimately show ?thesis unfolding same(2) using ji(1) by blast
    next
      case False
      with i have i: "i = length ps" by simp
      with same j have kp: "k_parent k = Some j" by (simp add: new_package_def)
      with par have "j < length ps" by (simp add: valid_parent_def)
      then show ?thesis using add_edge_present [of j ?ps "length ps"] same(2) i kp by simp
    qed
  qed
  ultimately show ?thesis by (simp add: packages_ok_def)
qed

section \<open>The invariant\<close>

definition selection_ok :: "(str \<Rightarrow> nat option) \<Rightarrow> nat \<Rightarrow> bool" where
  "selection_ok sel n \<longleftrightarrow> (\<forall>i. i < n \<longleftrightarrow> (\<exists>k. sel k = Some i)) \<and>
     (\<forall>k k' i. sel k = Some i \<longrightarrow> sel k' = Some i \<longrightarrow> k = k')"

text \<open>Exactly the packages that need an artifact from a repository are scheduled, once each.\<close>

definition needs_artifact :: "maven_project list \<Rightarrow> coordinate \<Rightarrow> bool" where
  "needs_artifact workspace c \<longleftrightarrow> find_module workspace c = None \<and> c_extension c \<noteq> ''pom''"

definition downloads_ok ::
    "maven_project list \<Rightarrow> (nat \<times> coordinate) list \<Rightarrow> resolved_package list \<Rightarrow> bool" where
  "downloads_ok workspace ds ps \<longleftrightarrow> distinct (map fst ds) \<and>
     (\<forall>i c. (i, c) \<in> set ds \<longleftrightarrow>
        i < length ps \<and> g_coordinate (ps ! i) = c \<and> needs_artifact workspace c)"

definition queue_ok :: "candidate list \<Rightarrow> nat \<Rightarrow> bool" where
  "queue_ok ks n \<longleftrightarrow> (\<forall>k \<in> set ks. valid_parent (k_parent k) n)"

definition state_ok :: "maven_project list \<Rightarrow> resolve_state \<Rightarrow> bool" where
  "state_ok workspace st \<longleftrightarrow> packages_ok (q_packages st) \<and>
     selection_ok (q_selected st) (length (q_packages st)) \<and>
     downloads_ok workspace (q_downloads st) (q_packages st) \<and>
     queue_ok (q_queue st) (length (q_packages st))"

text \<open>What an iteration may change: selections are kept and packages extended.\<close>

definition state_extends :: "resolve_state \<Rightarrow> resolve_state \<Rightarrow> bool" where
  "state_extends st st' \<longleftrightarrow> packages_extend (q_packages st) (q_packages st') \<and>
     (\<forall>k i. q_selected st k = Some i \<longrightarrow> q_selected st' k = Some i)"

lemma state_extends_trans: "state_extends a b \<Longrightarrow> state_extends b c \<Longrightarrow> state_extends a c"
  by (auto simp: state_extends_def intro: packages_extend_trans)

lemma downloads_extend:
  assumes "downloads_ok workspace ds ps" "packages_extend ps qs" "length qs = length ps"
  shows "downloads_ok workspace ds qs"
proof -
  have "i < length ps \<Longrightarrow> g_coordinate (qs ! i) = g_coordinate (ps ! i)" for i
    using assms(2) by (simp add: packages_extend_def package_extends_def)
  then have "i < length qs \<and> g_coordinate (qs ! i) = c \<longleftrightarrow> i < length ps \<and> g_coordinate (ps ! i) = c"
    for i c
    using assms(3) by auto
  with assms(1) show ?thesis unfolding downloads_ok_def by blast
qed

lemma downloads_new:
  assumes ok: "downloads_ok workspace ds ps" and ext: "packages_extend ps qs"
    and len: "length qs = Suc (length ps)" and coord: "g_coordinate (qs ! length ps) = c"
  shows "downloads_ok workspace
     (if find_module workspace c = None then schedule_artifact c (length ps) ds else ds) qs"
proof -
  have same: "g_coordinate (qs ! i) = g_coordinate (ps ! i)" if "i < length ps" for i
    using ext that by (simp add: packages_extend_def package_extends_def)
  have old: "(i, d) \<in> set ds \<longleftrightarrow> i < length ps \<and> g_coordinate (ps ! i) = d \<and> needs_artifact workspace d"
    for i d
    using ok unfolding downloads_ok_def by blast
  let ?ds = "if find_module workspace c = None then schedule_artifact c (length ps) ds else ds"
  have ds: "?ds = (if needs_artifact workspace c then ds @ [(length ps, c)] else ds)"
    by (auto simp: schedule_artifact_def needs_artifact_def)
  have "length ps \<notin> fst ` set ds" using old by force
  then have "distinct (map fst ?ds)" using ok unfolding ds downloads_ok_def by simp
  moreover have "(i, d) \<in> set ?ds \<longleftrightarrow>
      i < length qs \<and> g_coordinate (qs ! i) = d \<and> needs_artifact workspace d" for i d
  proof (cases "i = length ps")
    case True
    with coord len old [of i d] show ?thesis unfolding ds by auto
  next
    case False
    with len same [of i] old [of i d] show ?thesis unfolding ds by (auto simp: less_Suc_eq)
  qed
  ultimately show ?thesis unfolding downloads_ok_def by blast
qed

lemma queue_mono: "queue_ok ks n \<Longrightarrow> n \<le> m \<Longrightarrow> queue_ok ks m"
  by (auto simp: queue_ok_def valid_parent_def)

lemma child_candidate_parent: "child_candidate k index ms d = Some k' \<Longrightarrow> k_parent k' = Some index"
  by (auto simp: child_candidate_def Let_def split: if_splits option.splits)

lemma set_map_filter: "set (List.map_filter f xs) = {y. \<exists>x \<in> set xs. f x = Some y}"
  by (induction xs) (auto simp: List.map_filter_def split: option.splits)

lemma queue_ok_enqueue:
  assumes "queue_ok ks n" "index < n"
  shows "queue_ok (enqueue_children ks m k index ms) n"
  using assms unfolding queue_ok_def enqueue_children_def
  by (auto simp: set_map_filter valid_parent_def dest!: child_candidate_parent)

lemma prefetch_Inr:
  "prefetch_candidate_poms rv st s = Some (Inr st', s') \<Longrightarrow>
     q_queue st' = q_queue st \<and> q_packages st' = q_packages st \<and> q_selected st' = q_selected st \<and>
     q_downloads st' = q_downloads st"
  by (auto simp: prefetch_candidate_poms_def split: prod.splits)

lemma prefetch_total: "prefetch_candidate_poms rv st s \<noteq> None"
  by (auto simp: prefetch_candidate_poms_def split: prod.splits)

lemma state_ok_prefetch:
  assumes "prefetch_candidate_poms rv st s = Some (Inr st', s')"
  shows "state_ok workspace st' = state_ok workspace st \<and> (state_extends st0 st' = state_extends st0 st)"
  using prefetch_Inr [OF assms] by (simp add: state_ok_def state_extends_def)

lemma visit_selected_ok:
  assumes run: "visit_selected rv project k c effective index st s = Some (Inr st', s')"
    and ok: "state_ok workspace st" and par: "valid_parent (k_parent k) (length (q_packages st))"
    and index: "index < length (q_packages st)"
  shows "state_ok workspace st' \<and> state_extends st st'"
proof -
  let ?ps = "add_edge (q_packages st) (k_parent k) index"
  let ?p = "?ps ! index"
  let ?qs = "?ps[index := ?p\<lparr>g_scopes := bs_insert (k_scope k) (g_scopes ?p)\<rparr>]"
  have ps: "packages_ok ?ps" "packages_extend (q_packages st) ?ps"
    using ok par index
    by (auto simp: state_ok_def intro!: packages_ok_add_edge add_edge_extends)
  have "package_extends ?p (?p\<lparr>g_scopes := bs_insert (k_scope k) (g_scopes ?p)\<rparr>)"
    by (auto simp: package_extends_def)
  then have "packages_extend ?ps ?qs"
    using index by (intro packages_extend_update) simp_all
  with ps index have qs: "packages_ok ?qs" "packages_extend (q_packages st) ?qs"
    by (auto intro: packages_ok_add_scope packages_extend_trans)
  have keep: "state_ok workspace (st\<lparr>q_packages := rs\<rparr>) \<and> state_extends st (st\<lparr>q_packages := rs\<rparr>)"
    if "packages_ok rs" "packages_extend (q_packages st) rs" "length rs = length (q_packages st)" for rs
    using that ok by (auto simp: state_ok_def state_extends_def intro: downloads_extend)
  show ?thesis
  proof (cases "k_scope k \<in> set (g_scopes ?p)")
    case True
    with run have "st' = st\<lparr>q_packages := ?ps\<rparr>" by (simp add: visit_selected_def Let_def)
    with keep [OF ps] show ?thesis by simp
  next
    case False
    with run obtain m s1 where pre: "prefetch_candidate_poms rv (st\<lparr>q_packages := ?qs,
        q_queue := enqueue_children (q_queue st) m k index (e_management project)\<rparr>) s1 =
        Some (Inr st', s')"
      by (auto simp: visit_selected_def Let_def bind_build_Inr)
    have base: "state_ok workspace (st\<lparr>q_packages := ?qs\<rparr>)" "state_extends st (st\<lparr>q_packages := ?qs\<rparr>)"
      using keep [OF qs] by simp_all
    then have "state_ok workspace (st\<lparr>q_packages := ?qs,
        q_queue := enqueue_children (q_queue st) m k index (e_management project)\<rparr>)"
      using index by (auto simp: state_ok_def intro!: queue_ok_enqueue)
    moreover have "state_extends st (st\<lparr>q_packages := ?qs,
        q_queue := enqueue_children (q_queue st) m k index (e_management project)\<rparr>)"
      using base(2) by (simp add: state_extends_def)
    ultimately show ?thesis using state_ok_prefetch [OF pre] by simp
  qed
qed

lemma selection_ok_new:
  assumes "selection_ok sel n" "sel key = None"
  shows "selection_ok (sel(key \<mapsto> n)) (Suc n)"
proof -
  have old: "i < n \<longleftrightarrow> (\<exists>k. sel k = Some i)" for i
    using assms(1) unfolding selection_ok_def by blast
  have "i < Suc n \<longleftrightarrow> (\<exists>k. (sel(key \<mapsto> n)) k = Some i)" for i
  proof (cases "i = n")
    case False
    then have "(sel(key \<mapsto> n)) k = Some i \<longleftrightarrow> sel k = Some i" for k using assms(2) by auto
    with False show ?thesis using old [of i] by (simp add: less_Suc_eq)
  qed auto
  moreover have "k = k'" if "(sel(key \<mapsto> n)) k = Some i" "(sel(key \<mapsto> n)) k' = Some i" for k k' i
  proof -
    have "sel x \<noteq> Some n" for x using old [of n] by blast
    with that assms(1) show ?thesis
      by (auto simp: selection_ok_def split: if_splits)
  qed
  ultimately show ?thesis unfolding selection_ok_def by blast
qed

lemma visit_new_ok:
  assumes run: "visit_new rv project workspace k c effective key st s = Some (Inr st', s')"
    and ok: "state_ok workspace st" and par: "valid_parent (k_parent k) (length (q_packages st))"
    and key: "q_selected st key = None"
  shows "state_ok workspace st' \<and> state_extends st st'"
proof -
  let ?n = "length (q_packages st)"
  from run obtain f s1 where pre: "prefetch_candidate_poms rv
      \<lparr>q_queue = enqueue_children (q_queue st) effective k ?n (e_management project),
       q_packages = add_edge (q_packages st @ [new_package k c f]) (k_parent k) ?n,
       q_selected = (q_selected st)(key \<mapsto> ?n), q_prefetched = q_prefetched st,
       q_downloads = (if find_module workspace c = None
          then schedule_artifact c ?n (q_downloads st) else q_downloads st)\<rparr> s1 = Some (Inr st', s')"
    by (auto simp: visit_new_def Let_def bind_build_Inr)
  let ?st = "\<lparr>q_queue = enqueue_children (q_queue st) effective k ?n (e_management project),
       q_packages = add_edge (q_packages st @ [new_package k c f]) (k_parent k) ?n,
       q_selected = (q_selected st)(key \<mapsto> ?n), q_prefetched = q_prefetched st,
       q_downloads = (if find_module workspace c = None
          then schedule_artifact c ?n (q_downloads st) else q_downloads st)\<rparr>"
  have par': "valid_parent (k_parent k) (length (q_packages st @ [new_package k c f]))"
    using par by (auto simp: valid_parent_def)
  let ?qs = "add_edge (q_packages st @ [new_package k c f]) (k_parent k) ?n"
  have ext: "packages_extend (q_packages st) ?qs"
    using packages_extend_trans [OF packages_extend_append add_edge_extends [OF par']] by simp
  have coord: "g_coordinate (?qs ! ?n) = c"
    using add_edge_nth [OF par', of ?n ?n] by (simp add: new_package_def)
  have "downloads_ok workspace (q_downloads ?st) ?qs"
    using ok ext coord downloads_new [of workspace "q_downloads st" "q_packages st" ?qs c]
    unfolding state_ok_def by simp
  moreover have "queue_ok (enqueue_children (q_queue st) effective k ?n (e_management project)) (Suc ?n)"
    using ok queue_mono [of "q_queue st" ?n "Suc ?n"] unfolding state_ok_def
    by (intro queue_ok_enqueue) simp_all
  then have "queue_ok (q_queue ?st) (length ?qs)" by simp
  moreover have "packages_ok ?qs"
    using ok par by (simp add: state_ok_def packages_ok_append)
  moreover have "selection_ok (q_selected ?st) (length ?qs)"
    using ok key by (simp add: state_ok_def selection_ok_new)
  ultimately have "state_ok workspace ?st" by (simp add: state_ok_def)
  moreover have "state_extends st ?st"
    using ext key by (auto simp: state_extends_def)
  ultimately show ?thesis using state_ok_prefetch [OF pre] by simp
qed

lemma visit_ok:
  assumes run: "visit rv project workspace k st s = Some (Inr st', s')"
    and ok: "state_ok workspace st" and par: "valid_parent (k_parent k) (length (q_packages st))"
  shows "state_ok workspace st' \<and> state_extends st st'"
proof (cases "excluded k")
  case True
  with run ok show ?thesis by (auto simp: visit_def state_extends_def)
next
  case False
  with run obtain c effective s1 where step: "(case relocation_target c effective of
        Some r \<Rightarrow> lift_build (Inr (st\<lparr>q_queue := relocate k r # q_queue st\<rparr>))
      | None \<Rightarrow>
          (let key = management_key (k_dependency k)
           in case q_selected st key of
                Some index \<Rightarrow> visit_selected rv project k c effective index st
              | None \<Rightarrow> visit_new rv project workspace k c effective key st)) s1 = Some (Inr st', s')"
    by (auto simp: visit_def bind_build_Inr)
  show ?thesis
  proof (cases "relocation_target c effective")
    case (Some r)
    with step have "st' = st\<lparr>q_queue := relocate k r # q_queue st\<rparr>" by simp
    then show ?thesis using ok par
      by (auto simp: state_ok_def state_extends_def queue_ok_def relocate_def)
  next
    case None
    let ?key = "management_key (k_dependency k)"
    show ?thesis
    proof (cases "q_selected st ?key")
      case n: None
      with step None have "visit_new rv project workspace k c effective ?key st s1 = Some (Inr st', s')"
        by (simp add: Let_def)
      from visit_new_ok [OF this ok par n] show ?thesis .
    next
      case (Some index)
      with ok have index: "index < length (q_packages st)"
        by (auto simp: state_ok_def selection_ok_def)
      from Some step None have "visit_selected rv project k c effective index st s1 = Some (Inr st', s')"
        by (simp add: Let_def)
      from visit_selected_ok [OF this ok par index] show ?thesis .
    qed
  qed
qed

lemma resolve_loop_ok:
  "resolve_loop n rv project workspace st s = Some (Inr st', s') \<Longrightarrow> state_ok workspace st \<Longrightarrow>
     state_ok workspace st' \<and> state_extends st st' \<and> q_queue st' = []"
proof (induction n arbitrary: st s)
  case (Suc n)
  show ?case
  proof (cases "q_queue st")
    case Nil
    with Suc.prems show ?thesis by (auto simp: state_extends_def)
  next
    case (Cons k rest)
    with Suc.prems(1) obtain st1 s1 where
      step: "visit rv project workspace k (st\<lparr>q_queue := rest\<rparr>) s = Some (Inr st1, s1)"
      and loop: "resolve_loop n rv project workspace st1 s1 = Some (Inr st', s')"
      by (auto simp: bind_build_Inr)
    have "state_ok workspace (st\<lparr>q_queue := rest\<rparr>)" "valid_parent (k_parent k) (length (q_packages st))"
      using Suc.prems(2) Cons by (auto simp: state_ok_def queue_ok_def)
    then have st1: "state_ok workspace st1" "state_extends (st\<lparr>q_queue := rest\<rparr>) st1"
      using visit_ok [OF step] by simp_all
    have "state_extends st st1" using st1(2) by (simp add: state_extends_def)
    with Suc.IH [OF loop st1(1)] show ?thesis by (blast intro: state_extends_trans)
  qed
qed simp

lemma start_state_ok: "state_ok workspace (start_state project)"
  by (auto simp: state_ok_def start_state_def packages_ok_def scopes_ok_def edges_ok_def
      parents_ok_def selection_ok_def downloads_ok_def queue_ok_def root_candidates_def
      valid_parent_def)

section \<open>Downloads\<close>

lemma apply_artifacts_fold:
  "length (fold (\<lambda>(i, f) ps. ps[i := with_artifact f (ps ! i)]) as ps) = length ps"
  by (induction as arbitrary: ps) auto

lemma length_apply_artifacts [simp]: "length (apply_artifacts as ps) = length ps"
  unfolding apply_artifacts_def by (rule apply_artifacts_fold)

lemma fold_artifacts_nth:
  "distinct (map fst as) \<Longrightarrow> (\<And>i f. (i, f) \<in> set as \<Longrightarrow> i < length ps) \<Longrightarrow> j < length ps \<Longrightarrow>
     fold (\<lambda>(i, f) ps. ps[i := with_artifact f (ps ! i)]) as ps ! j =
       (case map_of as j of None \<Rightarrow> ps ! j | Some f \<Rightarrow> with_artifact f (ps ! j))"
proof (induction as arbitrary: ps)
  case (Cons a as)
  obtain i f where a: "a = (i, f)" by (cases a)
  let ?ps = "ps[i := with_artifact f (ps ! i)]"
  have i: "i < length ps" using Cons.prems(2) [of i f] a by simp
  have "fold (\<lambda>(i, f) ps. ps[i := with_artifact f (ps ! i)]) as ?ps ! j =
      (case map_of as j of None \<Rightarrow> ?ps ! j | Some f \<Rightarrow> with_artifact f (?ps ! j))"
    by (rule Cons.IH) (use Cons.prems in \<open>auto simp: a\<close>)
  moreover have "map_of as i = None"
    using Cons.prems(1) a by (simp add: map_of_eq_None_iff)
  ultimately show ?case using i a by (auto simp: nth_list_update split: option.split)
qed simp

lemma apply_artifacts_nth:
  assumes "distinct (map fst as)" "\<And>i f. (i, f) \<in> set as \<Longrightarrow> i < length ps" "j < length ps"
  shows "apply_artifacts as ps ! j =
    (case map_of as j of None \<Rightarrow> ps ! j | Some f \<Rightarrow> with_artifact f (ps ! j))"
proof -
  have perm: "mset (sort_key fst as) = mset as" by simp
  have d: "distinct (map fst (sort_key fst as))"
    using assms(1) by (metis mset_map mset_sort perm distinct_map mset_eq_imp_distinct_iff)
  have "map_of (sort_key fst as) = map_of as"
    using map_of_inject_set [OF d assms(1)] by simp
  then show ?thesis unfolding apply_artifacts_def
    by (subst fold_artifacts_nth) (use d assms in auto)
qed

end
