(* ===== verification/Graph_Results.thy ===== *)
theory Graph_Results
  imports Graph_Facts
begin

text \<open>
  Properties of whole resolutions: well-formed graphs, final selections, inherited exclusions,
  exact classpaths, order of downloads, offline behaviour, termination.
\<close>

lemma client_step_Inr:
  "client_step m s = Some (Inr x, s') \<longleftrightarrow> m (snd s) = (Inr x, snd s') \<and> fst s' = fst s"
  by (cases s') (auto simp: client_step_def split: prod.splits)

section \<open>Effects on the client\<close>

text \<open>
  A relation on client states that fetching keeps is kept by the whole resolution; reading files
  and the model cache do not change the client.
\<close>

locale client_world =
  fixes Q :: "client_state \<Rightarrow> client_state \<Rightarrow> bool" and rv :: resolver
  assumes refl_Q: "reflp Q" and trans_Q: "transp Q"
    and keeps_fetch: "Q s (snd (fetch (rv_env rv) (rv_config rv) c s))"
begin

abbreviation keeps_world :: "'a resolve_step \<Rightarrow> bool" where
  "keeps_world \<equiv> keeps (\<lambda>s s'. Q (snd s) (snd s'))"

lemma refl_world: "reflp (\<lambda>s s' :: client_state builder_state. Q (snd s) (snd s'))"
  using refl_Q by (simp add: reflp_def)

lemma trans_world: "transp (\<lambda>s s' :: client_state builder_state. Q (snd s) (snd s'))"
  using trans_Q by (auto intro: transpI dest: transpD)

lemmas world_intros = keeps_lift [OF refl_world] keeps_bind [OF trans_world]

lemma world_client_step: "(\<And>s. Q s (snd (m s))) \<Longrightarrow> keeps_world (client_step m)"
  by (auto simp: keeps_def client_step_def split: prod.splits) (metis snd_conv)

lemma world_build: "keeps_world (build_pom rv c)"
  unfolding build_pom_def build_coordinate_def
  by (rule build_remote_world [OF refl_Q trans_Q]) (simp add: load_pom_snd keeps_fetch)

lemma world_prefetch: "keeps_world (prefetch_candidate_poms rv st)"
proof -
  have "Q w (fold (\<lambda>c w. snd (fetch (rv_env rv) (rv_config rv) c w)) cs w)" for cs w
  proof (induction cs arbitrary: w)
    case Nil
    then show ?case using refl_Q by (simp add: reflp_def)
  next
    case (Cons c cs)
    then show ?case using keeps_fetch transpD [OF trans_Q] by simp blast
  qed
  then show ?thesis
    by (auto simp: keeps_def prefetch_candidate_poms_def split: prod.splits)
qed

lemma world_pom_file: "keeps_world (pom_file rv workspace c)"
proof -
  have "Q s (snd (local_pom_file env m s))" for env m s
    using refl_Q by (auto simp: local_pom_file_def reflp_def split: sum.split)
  then show ?thesis
    unfolding pom_file_def using keeps_fetch by (auto split: option.split intro!: world_client_step)
qed

lemma world_visit: "keeps_world (visit rv project workspace k st)"
proof -
  have sel: "keeps_world (visit_selected rv project k c m i st')" for c m i st'
    unfolding visit_selected_def Let_def
    by (auto intro!: world_intros world_build world_prefetch)
  have new: "keeps_world (visit_new rv project workspace k c m key st')" for c m key st'
    unfolding visit_new_def Let_def by (intro world_intros world_pom_file world_prefetch)
  show ?thesis unfolding visit_def Let_def
    by (auto split: option.split intro!: world_intros world_build sel new)
qed

lemma world_loop: "keeps_world (resolve_loop n rv project workspace st)"
proof (induction n arbitrary: st)
  case (Suc n)
  have "keeps_world (bind_build (visit rv project workspace k st') (resolve_loop n rv project workspace))"
    for k st'
    by (intro world_intros world_visit Suc.IH)
  then show ?case using refl_Q
    by (auto simp: keeps_def reflp_def split: list.splits)
qed (simp add: keeps_def)

lemma world_downloads: "step_keeps Q (run_downloads (rv_env rv) (rv_config rv) ds)"
proof (induction ds)
  case (Cons d ds)
  have "step_keeps Q (fetch (rv_env rv) (rv_config rv) c)" for c
    using keeps_fetch by (simp add: step_keeps_def)
  with Cons show ?case
    by (cases d) (auto intro!: step_keeps_bind [OF trans_Q] step_keeps_of [OF refl_Q])
qed (simp add: step_keeps_of [OF refl_Q])

lemma world_finish: "keeps_world (client_step (finish_artifacts rv st))"
proof (rule world_client_step)
  have "step_keeps Q (finish_artifacts rv st)" unfolding finish_artifacts_def
    by (intro step_keeps_bind [OF trans_Q] step_keeps_of [OF refl_Q] world_downloads)
  then show "Q s (snd (finish_artifacts rv st s))" for s by (rule step_keepsD)
qed

lemma world_resolve:
  assumes "resolve_in_workspace n rv project workspace s = Some (r, s')"
  shows "Q (snd s) (snd s')"
proof -
  have "keeps_world (bind_build (prefetch_candidate_poms rv (start_state project)) (\<lambda>st.
     bind_build (resolve_loop n rv project workspace st) (\<lambda>st.
     bind_build (client_step (finish_artifacts rv st)) (\<lambda>packages.
       lift_build (Inr (build_classpaths packages))))))"
    by (intro world_intros world_prefetch world_loop world_finish)
  note run = keepsD [OF this assms [unfolded resolve_in_workspace_def]]
  have "snd (fold (\<lambda>m. remember (mp_effective m)) workspace s0) = snd s0"
    for s0 :: "client_state builder_state"
    by (induction workspace arbitrary: s0) (simp_all add: remember_def)
  with run show ?thesis by simp
qed

end

interpretation offline_world: client_world "offline_silent (rv_config rv)" rv for rv
  by unfold_locales
     (auto simp: reflp_def transp_def offline_silent_def fetch_offline_silent [unfolded offline_silent_def])

section \<open>The finished graph\<close>

lemma packages_ok_cong:
  assumes "length qs = length ps"
    and "\<And>i. i < length ps \<Longrightarrow> g_scopes (qs ! i) = g_scopes (ps ! i) \<and>
      g_dependencies (qs ! i) = g_dependencies (ps ! i) \<and>
      g_coordinate (qs ! i) = g_coordinate (ps ! i) \<and> g_parent (qs ! i) = g_parent (ps ! i)"
    and "packages_ok ps"
  shows "packages_ok qs"
proof -
  have disp: "map display_of qs = map display_of ps"
    using assms(1,2) by (auto intro: nth_equalityI)
  have "display_of ` set qs = display_of ` set ps"
    using arg_cong [OF disp, of set] by simp
  then have "scopes_ok qs" "edges_ok qs"
    using assms unfolding packages_ok_def scopes_ok_def edges_ok_def
    by (simp_all add: all_set_conv_all_nth)
  moreover have "parents_ok qs"
    unfolding parents_ok_def
  proof (intro allI impI)
    fix i j
    assume "i < length qs" "g_parent (qs ! i) = Some j"
    with assms have "i < length ps" "j < i" "display_of (ps ! i) \<in> set (g_dependencies (ps ! j))"
      by (auto simp: packages_ok_def parents_ok_def)
    with assms(2) [of i] assms(2) [of j]
    show "j < i \<and> display_of (qs ! i) \<in> set (g_dependencies (qs ! j))" by simp
  qed
  ultimately show ?thesis by (simp add: packages_ok_def)
qed

lemma run_downloads_Inr:
  "run_downloads env cfg ds s = (Inr fs, s') \<Longrightarrow> map fst fs = map fst ds"
proof (induction ds arbitrary: s fs)
  case (Cons d ds)
  then show ?case by (cases d) (auto simp: step_bind_Inr)
qed simp

lemma finish_artifacts_Inr:
  assumes run: "finish_artifacts rv st s = (Inr ps, s')"
    and order: "mset (rv_order rv (q_downloads st)) = mset (q_downloads st)"
    and ok: "downloads_ok workspace (q_downloads st) (q_packages st)"
  shows "length ps = length (q_packages st) \<and> (\<forall>i < length ps.
    if needs_artifact workspace (g_coordinate (q_packages st ! i))
    then \<exists>f. ps ! i = with_artifact f (q_packages st ! i) else ps ! i = q_packages st ! i)"
proof -
  let ?ds = "rv_order rv (q_downloads st)"
  from run obtain fs where dl: "run_downloads (rv_env rv) (rv_config rv) ?ds s = (Inr fs, s')"
    and ps: "ps = apply_artifacts fs (q_packages st)"
    by (auto simp: finish_artifacts_def step_bind_Inr)
  note keys = run_downloads_Inr [OF dl]
  have set_ds: "set ?ds = set (q_downloads st)" using order by (metis set_mset_mset)
  have "mset (map fst ?ds) = mset (map fst (q_downloads st))" using order by simp
  then have dist: "distinct (map fst fs)"
    using ok keys unfolding downloads_ok_def by (metis mset_eq_imp_distinct_iff)
  have all: "(i, c) \<in> set (q_downloads st) \<longleftrightarrow> i < length (q_packages st) \<and>
      g_coordinate (q_packages st ! i) = c \<and> needs_artifact workspace c" for i c
    using ok by (simp add: downloads_ok_def)
  have dom: "i \<in> fst ` set fs \<longleftrightarrow>
      i < length (q_packages st) \<and> needs_artifact workspace (g_coordinate (q_packages st ! i))" for i
  proof -
    have img: "fst ` set fs = fst ` set (q_downloads st)"
      using arg_cong [OF keys, of set] set_ds by simp
    have "(\<exists>c. (i, c) \<in> set (q_downloads st)) \<longleftrightarrow>
        i < length (q_packages st) \<and> needs_artifact workspace (g_coordinate (q_packages st ! i))"
      unfolding all by auto
    moreover have "i \<in> fst ` set (q_downloads st) \<longleftrightarrow> (\<exists>c. (i, c) \<in> set (q_downloads st))"
      by force
    ultimately show ?thesis using img by simp
  qed
  have bound: "i < length (q_packages st)" if "(i, f) \<in> set fs" for i f
    using dom [of i] imageI [OF that, of fst] by simp
  show ?thesis unfolding ps
  proof (intro conjI allI impI)
    fix i
    assume "i < length (apply_artifacts fs (q_packages st))"
    then have i: "i < length (q_packages st)" by simp
    have nth: "apply_artifacts fs (q_packages st) ! i = (case map_of fs i of
        None \<Rightarrow> q_packages st ! i | Some f \<Rightarrow> with_artifact f (q_packages st ! i))"
      by (rule apply_artifacts_nth [OF dist _ i]) (rule bound)
    show "if needs_artifact workspace (g_coordinate (q_packages st ! i))
      then \<exists>f. apply_artifacts fs (q_packages st) ! i = with_artifact f (q_packages st ! i)
      else apply_artifacts fs (q_packages st) ! i = q_packages st ! i"
      using dom [of i] i map_of_eq_None_iff [of fs i] unfolding nth
      by (cases "map_of fs i") auto
  qed simp
qed

section \<open>Classpaths\<close>

text \<open>The elements of a list without later repetitions.\<close>

definition first_occurrences :: "'a list \<Rightarrow> 'a list" where
  "first_occurrences xs = rev (remdups (rev xs))"

definition push_all :: "str list \<Rightarrow> unique_list \<Rightarrow> unique_list" where
  "push_all cs u = fold push_unique cs u"

lemma first_occurrences_snoc:
  "first_occurrences (xs @ [x]) = (if x \<in> set xs then first_occurrences xs else first_occurrences xs @ [x])"
  by (simp add: first_occurrences_def)

lemma set_first_occurrences [simp]: "set (first_occurrences xs) = set xs"
  by (simp add: first_occurrences_def)

lemma distinct_first_occurrences [simp]: "distinct (first_occurrences xs)"
  by (simp add: first_occurrences_def)

lemma push_all_append: "push_all (xs @ ys) u = push_all ys (push_all xs u)"
  by (simp add: push_all_def)

lemma push_all_one: "push_all [c] u = push_unique c u"
  by (simp add: push_all_def)

lemma push_all_eq:
  "fst (push_all cs ([], [])) = first_occurrences cs \<and> set (snd (push_all cs ([], []))) = set cs"
proof (induction cs rule: rev_induct)
  case (snoc c cs)
  then show ?case
    unfolding push_all_append push_all_one first_occurrences_snoc
    by (cases "push_all cs ([], [])") (simp add: push_unique_def insert_absorb)
qed (simp add: push_all_def first_occurrences_def)

lemma push_twice: "push_unique c (push_unique c u) = push_unique c u"
  by (auto simp: push_unique_def split: prod.splits)

text \<open>What one package contributes to a classpath with the given scopes.\<close>

definition scope_in :: "str list \<Rightarrow> str \<Rightarrow> bool" where
  "scope_in scopes s \<longleftrightarrow> s \<in> set scopes"

definition contributes :: "str list \<Rightarrow> resolved_package \<Rightarrow> str list" where
  "contributes scopes p =
     (case g_checksum p of
        None \<Rightarrow> [] | Some c \<Rightarrow> if list_ex (scope_in scopes) (g_scopes p) then [c] else [])"

lemma push_when:
  "fold (\<lambda>s u. if P s then push_unique c u else u) ss u =
     (if list_ex P ss then push_unique c u else u)"
  by (induction ss arbitrary: u) (auto simp: push_twice)

definition push_scoped :: "str list \<Rightarrow> str \<Rightarrow> str list \<Rightarrow> unique_list \<Rightarrow> unique_list" where
  "push_scoped scopes c ss u = fold (\<lambda>s u. if scope_in scopes s then push_unique c u else u) ss u"

lemma fold_add_scope:
  "cp_compile (fold (add_scope c) ss cp) = push_scoped [''compile'', ''provided''] c ss (cp_compile cp) \<and>
   cp_runtime (fold (add_scope c) ss cp) = push_scoped [''compile'', ''runtime''] c ss (cp_runtime cp) \<and>
   cp_test (fold (add_scope c) ss cp) =
     push_scoped [''compile'', ''runtime'', ''provided'', ''test''] c ss (cp_test cp) \<and>
   cp_processor (fold (add_scope c) ss cp) = push_scoped [''processor''] c ss (cp_processor cp)"
proof (induction ss arbitrary: cp)
  case (Cons s ss)
  then show ?case by (simp add: push_scoped_def add_scope_def scope_in_def)
qed (simp add: push_scoped_def)

lemma push_scoped_eq:
  "push_scoped scopes c ss u = push_all (if list_ex (scope_in scopes) ss then [c] else []) u"
  by (simp add: push_scoped_def push_when push_all_def)

lemma add_package_cp:
  "cp_compile (add_package p cp) = push_all (contributes [''compile'', ''provided''] p) (cp_compile cp)"
  "cp_runtime (add_package p cp) = push_all (contributes [''compile'', ''runtime''] p) (cp_runtime cp)"
  "cp_test (add_package p cp) =
     push_all (contributes [''compile'', ''runtime'', ''provided'', ''test''] p) (cp_test cp)"
  "cp_processor (add_package p cp) = push_all (contributes [''processor''] p) (cp_processor cp)"
  unfolding add_package_def contributes_def
  by (cases "g_checksum p"; simp only: option.case fold_add_scope push_scoped_eq;
      simp add: push_all_def)+

lemma fold_contributions:
  assumes "\<And>p cp. f (add_package p cp) = push_all (contributes scopes p) (f cp)"
  shows "f (fold add_package ps cp) = push_all (concat (map (contributes scopes) ps)) (f cp)"
  by (induction ps arbitrary: cp) (simp add: push_all_def, simp add: assms push_all_append)

lemmas fold_add_package = add_package_cp [THEN fold_contributions]

text \<open>Sorting by distinct keys only depends on the multiset of the entries.\<close>

lemma sort_key_unique:
  assumes "distinct (map f ys)" "mset xs = mset ys" "distinct (map f xs)"
  shows "sort_key f xs = sort_key f ys"
proof (rule map_sorted_distinct_set_unique)
  have d: "distinct (map f (sort_key f zs))" if "distinct (map f zs)" for zs
    using that by (simp add: distinct_map)
  show "distinct (map f (sort_key f xs))" "distinct (map f (sort_key f ys))"
    using assms d by blast+
  have "set xs = set ys" using assms(2) by (rule mset_eq_setD)
  then show "set (sort_key f xs) = set (sort_key f ys)"
    "inj_on f (set (sort_key f xs) \<union> set (sort_key f ys))"
    using assms(3) by (simp_all add: distinct_map)
qed simp_all

section \<open>Derived candidates\<close>

text \<open>
  The candidates that the resolution may ever consider, with the dependencies on the path that
  leads to them: roots, children of a candidate that is not excluded, relocated candidates.
\<close>

inductive derived :: "effective_pom \<Rightarrow> candidate \<Rightarrow> dependency list \<Rightarrow> bool"
  for project :: effective_pom where
  root: "k \<in> set (root_candidates project) \<Longrightarrow> derived project k []"
| child: "derived project k path \<Longrightarrow> \<not> excluded k \<Longrightarrow>
    child_candidate k index (e_management project) d = Some k' \<Longrightarrow>
    derived project k' (path @ [k_dependency k])"
| relocated: "derived project k path \<Longrightarrow> derived project (relocate k r) path"

text \<open>A run of the loop, one iteration after the other.\<close>

inductive iterates ::
    "resolver \<Rightarrow> effective_pom \<Rightarrow> maven_project list \<Rightarrow> resolve_state \<Rightarrow> resolve_state \<Rightarrow> bool"
  for rv :: resolver and project :: effective_pom and workspace :: "maven_project list" where
  start: "iterates rv project workspace st st"
| iterate: "iterates rv project workspace st st' \<Longrightarrow> q_queue st' = k # rest \<Longrightarrow>
    visit rv project workspace k (st'\<lparr>q_queue := rest\<rparr>) s = Some (Inr st'', s') \<Longrightarrow>
    iterates rv project workspace st st''"

definition exclusions_on :: "dependency list \<Rightarrow> exclusion set" where
  "exclusions_on path = (\<Union>d \<in> set path. set (d_exclusions d))"

lemma derived_exclusions:
  "derived project k path \<Longrightarrow> set (k_active k) = exclusions_on path \<and>
     set (k_descendant k) = exclusions_on path \<union> set (d_exclusions (k_dependency k))"
proof (induction rule: derived.induct)
  case (root k)
  then show ?case by (auto simp: root_candidates_def exclusions_on_def)
next
  case (child k path index d k')
  then show ?case
    by (auto simp: child_candidate_def Let_def exclusions_on_def split: if_splits option.splits)
next
  case (relocated k path r)
  then show ?case by (simp add: relocate_def)
qed

lemma derived_scope:
  "derived project k path \<Longrightarrow> path \<noteq> [] \<Longrightarrow>
     k_scope k \<in> {''compile'', ''runtime'', ''provided'', ''test'', ''processor''}"
proof (induction rule: derived.induct)
  case (child k path index d k')
  then show ?case
    by (auto simp: child_candidate_def Let_def derive_scope_def split: if_splits option.splits)
qed (simp_all add: relocate_def)

lemma visit_queue:
  assumes run: "visit rv project workspace k st s = Some (Inr st', s')"
    and k: "derived project k path" and old: "\<forall>x \<in> set (q_queue st). \<exists>p. derived project x p"
  shows "\<forall>x \<in> set (q_queue st'). \<exists>p. derived project x p"
proof (cases "excluded k")
  case True
  with run old show ?thesis by (simp add: visit_def)
next
  case False
  have enq: "\<forall>x \<in> set (enqueue_children (q_queue st) m k i (e_management project)).
      \<exists>p. derived project x p" for m i
    using old derived.child [OF k False]
    by (auto simp: enqueue_children_def set_map_filter) blast
  have rel: "\<exists>p. derived project (relocate k r) p" for r
    using derived.relocated [OF k] by blast
  have sel: "\<forall>x \<in> set (q_queue st'). \<exists>p. derived project x p"
    if "visit_selected rv project k c m i st s1 = Some (Inr st', s')" for c m i s1
  proof -
    have "q_queue st' = q_queue st \<or> (\<exists>m. q_queue st' =
        enqueue_children (q_queue st) m k i (e_management project))"
      using that by (auto simp: visit_selected_def Let_def bind_build_Inr split: if_splits
          dest!: prefetch_Inr)
    then show ?thesis using old enq by metis
  qed
  have new: "\<forall>x \<in> set (q_queue st'). \<exists>p. derived project x p"
    if "visit_new rv project workspace k c m key st s1 = Some (Inr st', s')" for c m key s1
  proof -
    have "q_queue st' = enqueue_children (q_queue st) m k (length (q_packages st)) (e_management project)"
      using that by (auto simp: visit_new_def Let_def bind_build_Inr dest!: prefetch_Inr)
    then show ?thesis using enq by metis
  qed
  from run False show ?thesis unfolding visit_def
    by (auto simp: bind_build_Inr Let_def rel split: option.splits
        intro: sel [rule_format] new [rule_format] old [rule_format])
qed

lemma iterates_derived:
  assumes "iterates rv project workspace (start_state project) st"
  shows "\<forall>x \<in> set (q_queue st). \<exists>p. derived project x p"
  using assms
proof (induction "start_state project" st rule: iterates.induct)
  case start
  then show ?case by (auto simp: start_state_def intro: derived.root)
next
  case (iterate st' k rest s st'' s')
  then obtain p where "derived project k p" by (metis list.set_intros(1))
  moreover have "\<forall>x \<in> set (q_queue (st'\<lparr>q_queue := rest\<rparr>)). \<exists>p. derived project x p"
    using iterate by simp
  ultimately show ?case by (rule visit_queue [OF iterate.hyps(4)])
qed

section \<open>Packages before the downloads\<close>

lemma add_edge_checksums: "g_checksum ` set (add_edge ps par child) \<subseteq> g_checksum ` set ps"
proof (cases par)
  case (Some p)
  have "map g_checksum (ps[p := (ps ! p)\<lparr>g_dependencies := ds\<rparr>]) = map g_checksum ps" for ds
    by (rule map_update_same) simp
  then have "g_checksum ` set (ps[p := (ps ! p)\<lparr>g_dependencies := ds\<rparr>]) = g_checksum ` set ps" for ds
    by (metis list.set_map)
  with Some show ?thesis by (simp add: add_edge_def Let_def)
qed (simp add: add_edge_def)

definition not_downloaded :: "resolved_package list \<Rightarrow> bool" where
  "not_downloaded ps \<longleftrightarrow> (\<forall>p \<in> set ps. g_checksum p = None)"

lemma not_downloaded_iff: "not_downloaded ps \<longleftrightarrow> g_checksum ` set ps \<subseteq> {None}"
  by (auto simp: not_downloaded_def)

lemma not_downloaded_add_edge: "not_downloaded ps \<Longrightarrow> not_downloaded (add_edge ps par child)"
  unfolding not_downloaded_iff by (rule subset_trans [OF add_edge_checksums])

lemma not_downloaded_update:
  assumes "not_downloaded ps" "g_checksum p = None"
  shows "not_downloaded (ps[i := p])"
  unfolding not_downloaded_def
proof
  fix q
  assume "q \<in> set (ps[i := p])"
  then have "q \<in> insert p (set ps)" by (rule subsetD [OF set_update_subset_insert])
  with assms show "g_checksum q = None" by (auto simp: not_downloaded_def)
qed

lemma visit_not_downloaded:
  assumes run: "visit rv project workspace k st s = Some (Inr st', s')"
    and old: "not_downloaded (q_packages st)"
  shows "not_downloaded (q_packages st')"
proof -
  let ?e = "add_edge (q_packages st) (k_parent k)"
  have sel: "not_downloaded (q_packages st')"
    if run: "visit_selected rv project k c m i st s1 = Some (Inr st', s')" for c m i s1
  proof (cases "i < length (q_packages st)")
    case True
    then have "g_checksum (?e i ! i) = None"
      using not_downloaded_add_edge [OF old, of "k_parent k" i] by (simp add: not_downloaded_def)
    then have "not_downloaded ((?e i)[i := (?e i ! i)\<lparr>g_scopes := ss\<rparr>])" for ss
      using not_downloaded_add_edge [OF old] by (intro not_downloaded_update) simp_all
    with run not_downloaded_add_edge [OF old, of "k_parent k" i] show ?thesis
      by (auto simp: visit_selected_def Let_def bind_build_Inr split: if_splits dest!: prefetch_Inr)
  next
    case False
    then have "(?e i)[i := p] = ?e i" for p by (simp add: list_update_beyond)
    with run not_downloaded_add_edge [OF old, of "k_parent k" i] show ?thesis
      by (auto simp: visit_selected_def Let_def bind_build_Inr split: if_splits dest!: prefetch_Inr)
  qed
  have new: "not_downloaded (q_packages st')"
    if "visit_new rv project workspace k c m key st s1 = Some (Inr st', s')" for c m key s1
  proof -
    have "not_downloaded (q_packages st @ [new_package k c f])" for f
      using old by (simp add: not_downloaded_def new_package_def)
    with that show ?thesis
      by (auto simp: visit_new_def Let_def bind_build_Inr not_downloaded_add_edge dest!: prefetch_Inr)
  qed
  from run show ?thesis unfolding visit_def
    by (auto simp: bind_build_Inr Let_def old split: option.splits if_splits intro: sel new)
qed

lemma resolve_loop_not_downloaded:
  "resolve_loop n rv project workspace st s = Some (Inr st', s') \<Longrightarrow> not_downloaded (q_packages st) \<Longrightarrow>
     not_downloaded (q_packages st')"
proof (induction n arbitrary: st s)
  case (Suc n)
  then show ?case
    by (cases "q_queue st") (auto simp: bind_build_Inr dest!: visit_not_downloaded)
qed simp

section \<open>Selections of one iteration\<close>

lemma visit_selection:
  assumes run: "visit rv project workspace k st s = Some (Inr st', s')"
    and par: "valid_parent (k_parent k) (length (q_packages st))"
  shows "(q_selected st (management_key (k_dependency k)) \<noteq> None \<longrightarrow>
       q_selected st' = q_selected st \<and> length (q_packages st') = length (q_packages st)) \<and>
    (\<forall>key i. q_selected st key = None \<and> q_selected st' key = Some i \<longrightarrow>
       key = management_key (k_dependency k) \<and> i = length (q_packages st) \<and> \<not> excluded k \<and>
       dependency_coordinate (k_dependency k) = Inr (g_coordinate (q_packages st' ! i)))"
proof (cases "excluded k")
  case True
  with run show ?thesis by (auto simp: visit_def)
next
  case False
  let ?key = "management_key (k_dependency k)"
  from False run obtain c m s1 where c: "Inr c = dependency_coordinate (k_dependency k)"
    and step: "(case relocation_target c m of
        Some r \<Rightarrow> lift_build (Inr (st\<lparr>q_queue := relocate k r # q_queue st\<rparr>))
      | None \<Rightarrow> (let key = ?key in case q_selected st key of
            Some index \<Rightarrow> visit_selected rv project k c m index st
          | None \<Rightarrow> visit_new rv project workspace k c m key st)) s1 = Some (Inr st', s')"
    by (auto simp: visit_def bind_build_Inr)
  show ?thesis
  proof (cases "relocation_target c m")
    case (Some r)
    with step show ?thesis by auto
  next
    case None
    show ?thesis
    proof (cases "q_selected st ?key")
      case (Some index)
      with None step have "q_selected st' = q_selected st \<and>
          length (q_packages st') = length (q_packages st)"
        by (auto simp: visit_selected_def Let_def bind_build_Inr split: if_splits
            dest!: prefetch_Inr)
      then show ?thesis by auto
    next
      case n: None
      let ?n = "length (q_packages st)"
      have par': "valid_parent (k_parent k) (length (q_packages st @ [new_package k c f]))" for f
        using par by (auto simp: valid_parent_def)
      have "g_coordinate (add_edge (q_packages st @ [new_package k c f]) (k_parent k) ?n ! ?n) = c" for f
        using add_edge_nth [OF par', of ?n f ?n] by (simp add: new_package_def)
      with None n step have "q_selected st' = (q_selected st)(?key \<mapsto> ?n) \<and>
          g_coordinate (q_packages st' ! ?n) = c"
        by (auto simp: visit_new_def Let_def bind_build_Inr dest!: prefetch_Inr)
      with n False c [symmetric] show ?thesis by (auto split: if_splits)
    qed
  qed
qed

section \<open>Relocation cycles\<close>

text \<open>Two modules that relocate to each other; the builder has both in its cache.\<close>

definition relocated_model :: "str \<Rightarrow> str \<Rightarrow> effective_pom" where
  "relocated_model a b =
     \<lparr>e_coordinate = coordinate_pom ''g'' a ''1'', e_parent = None, e_packaging = ''jar'',
      e_modules = [], e_property_templates = [], e_properties = [], e_dependencies = [],
      e_management = [], e_bom_imports = [], e_repositories = [], e_processors = [],
      e_compiler_args = [], e_relocation = Some (coordinate_pom ''g'' b ''1'')\<rparr>"

definition cycle_dependency :: "str \<Rightarrow> dependency" where
  "cycle_dependency a =
     \<lparr>d_group = ''g'', d_artifact = a, d_version = Some ''1'', d_scope = ''compile'',
      d_scope_explicit = False, d_type = ''jar'', d_type_explicit = False, d_classifier = None,
      d_optional = None, d_exclusions = []\<rparr>"

definition cycle_project :: effective_pom where
  "cycle_project = (relocated_model ''app'' ''app'')\<lparr>e_dependencies := [cycle_dependency ''a''],
     e_relocation := None\<rparr>"

definition cycle_workspace :: "maven_project list" where
  "cycle_workspace =
     [\<lparr>mp_source = [RootDir], mp_effective = relocated_model ''a'' ''b''\<rparr>,
      \<lparr>mp_source = [RootDir], mp_effective = relocated_model ''b'' ''a''\<rparr>]"

definition cycle_candidate :: "str \<Rightarrow> candidate" where
  "cycle_candidate a = \<lparr>k_dependency = cycle_dependency a, k_scope = ''compile'', k_active = [],
     k_descendant = [], k_parent = None\<rparr>"

definition cycle_cached :: "client_state builder_state \<Rightarrow> bool" where
  "cycle_cached s \<longleftrightarrow> fst s ''g:a:pom:1'' = Some (relocated_model ''a'' ''b'') \<and>
     fst s ''g:b:pom:1'' = Some (relocated_model ''b'' ''a'')"

lemma cycle_visit:
  assumes cached: "cycle_cached s" and depth: "rv_depth rv = Suc d"
    and ab: "(x, y) \<in> {(''a'', ''b''), (''b'', ''a'')}" and st: "q_queue st = []"
  shows "visit rv cycle_project cycle_workspace (cycle_candidate x) st s =
    Some (Inr (st\<lparr>q_queue := [cycle_candidate y]\<rparr>), s)"
proof -
  have key: "coordinate_display (pom_of (coordinate_jar ''g'' x ''1'')) = ''g:'' @ x @ '':pom:1''"
    using ab by (auto simp: coordinate_display_def pom_of_def coordinate_pom_def coordinate_jar_def)
  have model: "build_pom rv (pom_of (coordinate_jar ''g'' x ''1'')) s = Some (Inr (relocated_model x y), s)"
    using cached ab key
    by (auto simp: build_pom_def build_coordinate_def depth Let_def cycle_cached_def)
  have c: "dependency_coordinate (cycle_dependency x) = Inr (coordinate_jar ''g'' x ''1'')"
    by (simp add: dependency_coordinate_def cycle_dependency_def coordinate_jar_def type_to_extension_def)
  have t: "relocation_target (coordinate_jar ''g'' x ''1'') (relocated_model x y) =
      Some (coordinate_pom ''g'' y ''1'')"
    using ab by (auto simp: relocation_target_def relocated_model_def same_gav_def
        coordinate_pom_def coordinate_jar_def)
  have r: "relocate (cycle_candidate x) (coordinate_pom ''g'' y ''1'') = cycle_candidate y"
    by (simp add: relocate_def cycle_candidate_def cycle_dependency_def coordinate_pom_def)
  have "\<not> excluded (cycle_candidate x)" "k_dependency (cycle_candidate x) = cycle_dependency x"
    by (simp_all add: excluded_def cycle_candidate_def)
  then show ?thesis
    by (simp add: visit_def bind_build_def lift_build_def c model t r st)
qed

lemma cycle_loop:
  assumes "cycle_cached s" and "rv_depth rv = Suc d"
  shows "(x, y) \<in> {(''a'', ''b''), (''b'', ''a'')} \<Longrightarrow> q_queue st = [cycle_candidate x] \<Longrightarrow>
    resolve_loop n rv cycle_project cycle_workspace st s = None"
proof (induction n arbitrary: x y st)
  case (Suc n)
  have "visit rv cycle_project cycle_workspace (cycle_candidate x) (st\<lparr>q_queue := []\<rparr>) s =
      Some (Inr (st\<lparr>q_queue := [cycle_candidate y]\<rparr>), s)"
    using cycle_visit [OF assms Suc.prems(1), of "st\<lparr>q_queue := []\<rparr>"] by simp
  moreover have "(y, x) \<in> {(''a'', ''b''), (''b'', ''a'')}" using Suc.prems(1) by auto
  ultimately show ?case
    using Suc.prems(2) Suc.IH [of y x "st\<lparr>q_queue := [cycle_candidate y]\<rparr>"]
    by (simp add: bind_build_def)
qed simp

section \<open>A resolution\<close>

text \<open>A project with one dependency, whose POM and JAR the client has in memory.\<close>

definition sample_entry :: "str \<Rightarrow> cached_file" where
  "sample_entry b = \<lparr>cf_path = [RootDir, Normal b], cf_checksum = sha256 sample_env b,
     cf_bytes = b, cf_source = ''https://r/''\<rparr>"

definition sample_memory :: client_state where
  "sample_memory = sample_client\<lparr>cs_memory :=
     [''g/a/1/a-1.pom'' \<mapsto> sample_entry ''pom'', ''g/a/1/a-1.jar'' \<mapsto> sample_entry ''jar'']\<rparr>"

definition sample_resolver :: resolver where
  "sample_resolver = \<lparr>rv_env = sample_env, rv_config = sample_config True,
     rv_platform = sample_platform, rv_depth = 1, rv_order = (\<lambda>ds. ds),
     rv_canonicalize = (\<lambda>_ p. Inr p)\<rparr>"

definition sample_root :: effective_pom where
  "sample_root = cycle_project"

lemma sample_resolver_simps [simp]:
  "rv_env sample_resolver = sample_env" "rv_config sample_resolver = sample_config True"
  "rv_platform sample_resolver = sample_platform" "rv_depth sample_resolver = 1"
  "rv_order sample_resolver = (\<lambda>ds. ds)" "parse_xml sample_env = sample_xml"
  by (simp_all add: sample_resolver_def sample_env_def)

lemma sample_roots: "root_candidates sample_root = [cycle_candidate ''a'']"
  by (simp add: root_candidates_def sample_root_def cycle_project_def relocated_model_def
      cycle_candidate_def cycle_dependency_def)

lemma sample_fetch:
  "fetch sample_env cfg (coordinate_pom ''g'' ''a'' ''1'') sample_memory = (Inr (sample_entry ''pom''), sample_memory)"
  "fetch sample_env cfg (coordinate_jar ''g'' ''a'' ''1'') sample_memory = (Inr (sample_entry ''jar''), sample_memory)"
proof -
  have "repository_path (coordinate_pom ''g'' ''a'' ''1'') = ''g/a/1/a-1.pom''"
    "repository_path (coordinate_jar ''g'' ''a'' ''1'') = ''g/a/1/a-1.jar''"
    by code_simp+
  then show "fetch sample_env cfg (coordinate_pom ''g'' ''a'' ''1'') sample_memory =
      (Inr (sample_entry ''pom''), sample_memory)"
    "fetch sample_env cfg (coordinate_jar ''g'' ''a'' ''1'') sample_memory =
      (Inr (sample_entry ''jar''), sample_memory)"
    by (simp_all add: fetch_def Let_def sample_memory_def)
qed

definition sample_package :: resolved_package where
  "sample_package = new_package (cycle_candidate ''a'') (coordinate_jar ''g'' ''a'' ''1'')
     (sample_entry ''pom'')"

lemma sample_candidate:
  "dependency_coordinate (k_dependency (cycle_candidate ''a'')) = Inr (coordinate_jar ''g'' ''a'' ''1'')"
  "\<not> excluded (cycle_candidate ''a'')"
  "k_parent (cycle_candidate ''a'') = None" "k_scope (cycle_candidate ''a'') = ''compile''"
  "pom_of (coordinate_jar ''g'' ''a'' ''1'') = coordinate_pom ''g'' ''a'' ''1''"
  by (simp_all add: dependency_coordinate_def cycle_dependency_def coordinate_jar_def
      type_to_extension_def cycle_candidate_def excluded_def pom_of_def)

lemma sample_display:
  "coordinate_display (coordinate_pom ''g'' ''a'' ''1'') = ''g:a:pom:1''"
  "coordinate_display (coordinate_jar ''g'' ''a'' ''1'') = ''g:a:1''"
  by code_simp+

lemma sample_model:
  "build_pom sample_resolver (coordinate_pom ''g'' ''a'' ''1'') (Map.empty, sample_memory) =
    Some (Inr plain_model, ([''g:a:pom:1'' \<mapsto> plain_model], sample_memory))"
proof -
  have "utf8_valid (cf_bytes (sample_entry ''pom''))"
    by (simp add: sample_entry_def) code_simp
  then have "load_pom sample_env cfg (coordinate_pom ''g'' ''a'' ''1'') sample_memory =
      (Inr ''pom'', sample_memory)" for cfg
    by (simp add: load_pom_def coordinate_pom_def step_bind_def step_of_def
        sample_fetch [unfolded coordinate_pom_def] sample_entry_def)
  then show ?thesis
    by (simp add: build_pom_def build_coordinate_def Let_def sample_display sample_parsed)
qed

definition sample_state :: resolve_state where
  "sample_state = \<lparr>q_queue = [], q_packages = [], q_selected = Map.empty,
     q_prefetched = [''g:a:pom:1''], q_downloads = []\<rparr>"

definition sample_visited :: resolve_state where
  "sample_visited = \<lparr>q_queue = [], q_packages = [sample_package],
     q_selected = [management_key (k_dependency (cycle_candidate ''a'')) \<mapsto> 0],
     q_prefetched = [''g:a:pom:1''], q_downloads = [(0, coordinate_jar ''g'' ''a'' ''1'')]\<rparr>"

lemma sample_visit:
  "visit sample_resolver sample_root [] (cycle_candidate ''a'') sample_state
      (Map.empty, sample_memory) =
    Some (Inr sample_visited, ([''g:a:pom:1'' \<mapsto> plain_model], sample_memory))"
  by (simp add: visit_def bind_build_def lift_build_def sample_candidate sample_model
      relocation_target_def visit_new_def Let_def pom_file_def find_module_def client_step_def
      sample_fetch prefetch_candidate_poms_def prefetch_coordinates_def enqueue_children_def
      List.map_filter_def add_edge_def schedule_artifact_def sample_state_def sample_visited_def
      sample_package_def)
     (simp add: coordinate_jar_def)

lemma sample_resolution:
  obtains g s' where "resolve_in_workspace 2 sample_resolver sample_root [] (Map.empty, sample_memory) =
      Some (Inr g, s')"
    and "map (coordinate_display \<circ> g_coordinate) (rg_packages g) = [''g:a:1'']"
    and "rg_runtime g = [sha256 sample_env ''jar'']"
proof -
  let ?q = "with_artifact (sample_entry ''jar'') sample_package"
  have start: "prefetch_candidate_poms sample_resolver (start_state sample_root)
      (Map.empty, sample_memory) =
      Some (Inr (sample_state\<lparr>q_queue := [cycle_candidate ''a'']\<rparr>), (Map.empty, sample_memory))"
    by (simp add: prefetch_candidate_poms_def start_state_def sample_roots prefetch_coordinates_def
        sample_candidate sample_display Let_def sample_fetch sample_state_def)
  have state: "sample_state\<lparr>q_queue := []\<rparr> = sample_state" "q_queue sample_visited = []"
    by (simp_all add: sample_state_def sample_visited_def)
  have fin: "finish_artifacts sample_resolver sample_visited sample_memory = (Inr [?q], sample_memory)"
    by (simp add: finish_artifacts_def step_bind_def step_of_def sample_fetch
        apply_artifacts_def sample_visited_def)
  show ?thesis
  proof (rule that)
    show "resolve_in_workspace 2 sample_resolver sample_root [] (Map.empty, sample_memory) =
        Some (Inr (build_classpaths [?q]), ([''g:a:pom:1'' \<mapsto> plain_model], sample_memory))"
      by (simp add: resolve_in_workspace_def bind_build_def start numeral_2_eq_2 sample_visit
          client_step_def fin lift_build_def state)
    show "map (coordinate_display \<circ> g_coordinate) (rg_packages (build_classpaths [?q])) = [''g:a:1'']"
      by (simp add: build_classpaths_def Let_def with_artifact_def new_package_def sample_display
          sample_package_def)
    show "rg_runtime (build_classpaths [?q]) = [sha256 sample_env ''jar'']"
      by (simp add: build_classpaths_def Let_def with_artifact_def new_package_def add_package_def
          sample_candidate add_scope_def push_unique_def sample_entry_def sample_package_def)
  qed
qed

section \<open>Properties\<close>

text \<open>
  Property C1. A finished graph is well formed: a package that was reached through
  another one has a smaller index as its parent, which lists it as a dependency; dependencies
  are listed once and name packages of the graph; every package has a scope. Exactly the
  packages that are neither POMs nor modules of the workspace carry an artifact checksum,
  whatever the order in which the downloads finish.
\<close>

theorem resolved_graph_ok:
  assumes run: "resolve_in_workspace n rv project workspace s = Some (Inr g, s')"
    and order: "\<And>ds. mset (rv_order rv ds) = mset ds"
  shows "packages_ok (rg_packages g) \<and>
    (\<forall>p \<in> set (rg_packages g). g_checksum p \<noteq> None \<longleftrightarrow> needs_artifact workspace (g_coordinate p))"
proof -
  from run obtain st0 s0 st s1 ps s2 where
    pre: "prefetch_candidate_poms rv (start_state project)
        (fold (\<lambda>m. remember (mp_effective m)) workspace (Map.empty, snd s)) = Some (Inr st0, s0)"
    and loop: "resolve_loop n rv project workspace st0 s0 = Some (Inr st, s1)"
    and fin: "finish_artifacts rv st (snd s1) = (Inr ps, s2)"
    and g: "g = build_classpaths ps"
    by (auto simp: resolve_in_workspace_def bind_build_Inr client_step_Inr)
  have "state_ok workspace st0"
    using state_ok_prefetch [OF pre] start_state_ok by simp
  with resolve_loop_ok [OF loop] have st: "state_ok workspace st" by simp
  have no_artifact: "g_checksum p = None" if "p \<in> set (q_packages st)" for p
    using resolve_loop_not_downloaded [OF loop] prefetch_Inr [OF pre] that
    by (simp add: start_state_def not_downloaded_def)
  from finish_artifacts_Inr [OF fin order] st
  have len: "length ps = length (q_packages st)"
    and nth: "\<And>i. i < length ps \<Longrightarrow> if needs_artifact workspace (g_coordinate (q_packages st ! i))
      then \<exists>f. ps ! i = with_artifact f (q_packages st ! i) else ps ! i = q_packages st ! i"
    by (auto simp: state_ok_def)
  have same: "g_scopes (ps ! i) = g_scopes (q_packages st ! i) \<and>
      g_dependencies (ps ! i) = g_dependencies (q_packages st ! i) \<and>
      g_coordinate (ps ! i) = g_coordinate (q_packages st ! i) \<and>
      g_parent (ps ! i) = g_parent (q_packages st ! i)" if "i < length (q_packages st)" for i
    using nth [of i] that len by (auto simp: with_artifact_def split: if_splits)
  have "packages_ok ps"
    using packages_ok_cong [OF len same] st by (simp add: state_ok_def)
  moreover have "g_checksum (ps ! i) \<noteq> None \<longleftrightarrow> needs_artifact workspace (g_coordinate (ps ! i))"
    if i: "i < length ps" for i
    using nth [OF i] same [of i] no_artifact [of "q_packages st ! i"] len i
    by (auto simp: with_artifact_def split: if_splits)
  ultimately show ?thesis
    unfolding g by (simp add: build_classpaths_def Let_def all_set_conv_all_nth)
qed

theorem resolved_graph_ok_witness:
  "\<exists>g s'. resolve_in_workspace 2 sample_resolver sample_root [] (Map.empty, sample_memory) =
     Some (Inr g, s') \<and> rg_packages g \<noteq> [] \<and> packages_ok (rg_packages g)"
proof -
  obtain g s' where run: "resolve_in_workspace 2 sample_resolver sample_root []
      (Map.empty, sample_memory) = Some (Inr g, s')"
    and "map (coordinate_display \<circ> g_coordinate) (rg_packages g) = [''g:a:1'']"
    by (rule sample_resolution)
  moreover have "packages_ok (rg_packages g)"
    using resolved_graph_ok [OF run] by (simp add: sample_resolver_def)
  ultimately show ?thesis by auto
qed

text \<open>
  Property C6. Mediation is nearest-first in the order of the queue: one
  iteration never changes the coordinate, source or parent of a selected package, a candidate
  whose key is selected adds no package, and a key gets selected only by a candidate with that
  very key, for the coordinate of its dependency, at the next free index.
\<close>

theorem first_selection_wins:
  assumes "visit rv project workspace k st s = Some (Inr st', s')"
    and "state_ok workspace st" and "valid_parent (k_parent k) (length (q_packages st))"
  shows "state_ok workspace st' \<and> state_extends st st' \<and>
    (q_selected st (management_key (k_dependency k)) \<noteq> None \<longrightarrow>
       q_selected st' = q_selected st \<and> length (q_packages st') = length (q_packages st)) \<and>
    (\<forall>key i. q_selected st key = None \<and> q_selected st' key = Some i \<longrightarrow>
       key = management_key (k_dependency k) \<and> i = length (q_packages st) \<and> \<not> excluded k \<and>
       dependency_coordinate (k_dependency k) = Inr (g_coordinate (q_packages st' ! i)))"
  using visit_ok [OF assms] visit_selection [OF assms(1,3)] by blast

theorem first_selection_wins_witness:
  "\<exists>s'. visit sample_resolver sample_root [] (cycle_candidate ''a'') sample_state
      (Map.empty, sample_memory) = Some (Inr sample_visited, s') \<and>
    q_selected sample_visited (management_key (k_dependency (cycle_candidate ''a''))) = Some 0 \<and>
    state_ok [] sample_visited"
proof -
  have "state_ok [] sample_state" "valid_parent (k_parent (cycle_candidate ''a'')) 0"
    using start_state_ok [of "[]" sample_root]
    by (simp_all add: state_ok_def sample_state_def start_state_def queue_ok_def valid_parent_def
        cycle_candidate_def)
  then have "state_ok [] sample_visited"
    using first_selection_wins [OF sample_visit] by (simp add: sample_state_def)
  then show ?thesis using sample_visit by (simp add: sample_visited_def)
qed

text \<open>
  Property C5. A candidate the resolution considers is skipped exactly when an
  exclusion of some dependency on the path that leads to it matches its dependency, so an
  excluded artifact is not reachable below the dependency that excludes it; and a candidate
  below another one has one of the five derived scopes.
\<close>

theorem exclusions_inherited:
  assumes "iterates rv project workspace (start_state project) st" and "k \<in> set (q_queue st)"
  shows "\<exists>path. derived project k path \<and>
    (excluded k \<longleftrightarrow> (\<exists>d \<in> set path. \<exists>x \<in> set (d_exclusions d). exclusion_matches x (k_dependency k))) \<and>
    (path \<noteq> [] \<longrightarrow> k_scope k \<in> {''compile'', ''runtime'', ''provided'', ''test'', ''processor''})"
proof -
  obtain path where path: "derived project k path"
    using iterates_derived [OF assms(1)] assms(2) by blast
  have "excluded k \<longleftrightarrow> (\<exists>d \<in> set path. \<exists>x \<in> set (d_exclusions d). exclusion_matches x (k_dependency k))"
    using derived_exclusions [OF path] by (auto simp: excluded_def list_ex_iff exclusions_on_def)
  with path derived_scope [OF path] show ?thesis by blast
qed

theorem exclusions_inherited_witness:
  "\<exists>path. derived sample_root (cycle_candidate ''a'') path \<and> \<not> excluded (cycle_candidate ''a'') \<and>
     \<not> (\<exists>d \<in> set path. \<exists>x \<in> set (d_exclusions d).
          exclusion_matches x (k_dependency (cycle_candidate ''a'')))"
proof -
  have start: "iterates sample_resolver sample_root [] (start_state sample_root) (start_state sample_root)"
    by (rule iterates.start)
  have queue: "cycle_candidate ''a'' \<in> set (q_queue (start_state sample_root))"
    by (simp add: start_state_def sample_roots)
  have "\<not> excluded (cycle_candidate ''a'')" by (simp add: excluded_def cycle_candidate_def)
  with exclusions_inherited [OF start queue] show ?thesis by blast
qed

text \<open>
  Property C3. Each classpath of a graph lists, once and in package order, exactly
  the artifact checksums of the packages with one of its scopes: compile and provided for
  compilation, compile and runtime at run time, these and test for tests, and processor for
  annotation processors.
\<close>

theorem classpaths_exact:
  "let g = build_classpaths ps
   in rg_packages g = ps \<and>
      rg_compile g = first_occurrences (concat (map (contributes [''compile'', ''provided'']) ps)) \<and>
      rg_runtime g = first_occurrences (concat (map (contributes [''compile'', ''runtime'']) ps)) \<and>
      rg_test g = first_occurrences
        (concat (map (contributes [''compile'', ''runtime'', ''provided'', ''test'']) ps)) \<and>
      rg_processor g = first_occurrences (concat (map (contributes [''processor'']) ps))"
  by (simp add: build_classpaths_def Let_def fold_add_package push_all_eq)

text \<open>
  The order in which the downloads finish does not show in the
  packages: two completion orders of the same artifacts give the same packages, each artifact
  at its own index.
\<close>

theorem downloads_any_order:
  assumes "mset fs = mset fs'" and "distinct (map fst fs)"
    and "\<forall>(i, f) \<in> set fs. i < length ps" and "j < length ps"
  shows "apply_artifacts fs ps = apply_artifacts fs' ps \<and>
    apply_artifacts fs ps ! j =
      (case map_of fs j of None \<Rightarrow> ps ! j | Some f \<Rightarrow> with_artifact f (ps ! j))"
proof
  have "distinct (map fst fs')"
    using assms(1,2) by (metis mset_map mset_eq_imp_distinct_iff)
  then have "sort_key fst fs = sort_key fst fs'"
    using assms(1,2) by (rule sort_key_unique)
  then show "apply_artifacts fs ps = apply_artifacts fs' ps"
    by (simp add: apply_artifacts_def)
  show "apply_artifacts fs ps ! j =
      (case map_of fs j of None \<Rightarrow> ps ! j | Some f \<Rightarrow> with_artifact f (ps ! j))"
    using assms(3) by (intro apply_artifacts_nth assms(2,4)) blast
qed

theorem downloads_any_order_witness:
  "apply_artifacts [(1, sample_entry ''b''), (0, sample_entry ''a'')] [sample_package, sample_package] =
     [with_artifact (sample_entry ''a'') sample_package, with_artifact (sample_entry ''b'') sample_package]"
proof -
  let ?f = "[(1, sample_entry ''b''), (0, sample_entry ''a'')]"
  have "apply_artifacts ?f [sample_package, sample_package] =
      apply_artifacts [(0, sample_entry ''a''), (1, sample_entry ''b'')] [sample_package, sample_package]"
    using downloads_any_order [of ?f "[(0, sample_entry ''a''), (1, sample_entry ''b'')]"
        "[sample_package, sample_package]" 0] by simp
  also have "\<dots> = [with_artifact (sample_entry ''a'') sample_package,
      with_artifact (sample_entry ''b'') sample_package]"
    by (simp add: apply_artifacts_def)
  finally show ?thesis .
qed

text \<open>
  Property C10. Resolving with an offline client sends no request, whatever
  the POMs say and whichever way the resolution ends.
\<close>

theorem offline_resolution_silent:
  assumes "resolve_in_workspace n rv project workspace s = Some (r, s')" and "rc_offline (rv_config rv)"
  shows "cs_requests (snd s') = cs_requests (snd s)"
  using offline_world.world_resolve [OF assms(1)] assms(2) by (simp add: offline_silent_def)

theorem offline_resolution_silent_witness:
  "\<exists>g s'. resolve_in_workspace 2 sample_resolver sample_root [] (Map.empty, sample_memory) =
     Some (Inr g, s') \<and> cs_requests (snd s') = []"
proof -
  obtain g s' where run: "resolve_in_workspace 2 sample_resolver sample_root []
      (Map.empty, sample_memory) = Some (Inr g, s')"
    by (rule sample_resolution)
  have "rc_offline (rv_config sample_resolver)" by (simp add: sample_config_def new_config_def)
  from offline_resolution_silent [OF run this] run show ?thesis
    by (simp add: sample_memory_def sample_client_def)
qed

text \<open>
  Property C39. Two artifacts that relocate to each other make the
  resolution run forever: the relocated candidate is pushed to the front of the queue without
  any record of the relocations already followed, so no number of iterations finishes.
\<close>

theorem relocation_cycle_diverges:
  "resolve_in_workspace n (sample_resolver\<lparr>rv_depth := Suc d\<rparr>) cycle_project cycle_workspace s = None"
proof -
  let ?rv = "sample_resolver\<lparr>rv_depth := Suc d\<rparr>"
  let ?s = "fold (\<lambda>m. remember (mp_effective m)) cycle_workspace (Map.empty, snd s)"
  have "cycle_cached ?s"
    by (simp add: cycle_workspace_def remember_def cycle_cached_def relocated_model_def
        coordinate_pom_def coordinate_display_def)
  then have cached: "cycle_cached (fst ?s, w)" for w by (simp add: cycle_cached_def)
  obtain cs pre where "prefetch_coordinates (q_queue (start_state cycle_project))
      (q_prefetched (start_state cycle_project)) = (cs, pre)"
    by fastforce
  then obtain st w where pre: "prefetch_candidate_poms ?rv (start_state cycle_project) ?s =
      Some (Inr st, (fst ?s, w))"
    unfolding prefetch_candidate_poms_def by simp
  have "q_queue st = [cycle_candidate ''a'']"
    using prefetch_Inr [OF pre] sample_roots by (simp add: start_state_def sample_root_def)
  then have "resolve_loop n ?rv cycle_project cycle_workspace st (fst ?s, w) = None"
    by (intro cycle_loop [OF cached, where d = d and y = "''b''"]) simp_all
  then show ?thesis
    by (simp add: resolve_in_workspace_def bind_build_def pre)
qed

end
