(* ===== verification/Config_Model.thy ===== *)
theory Config_Model
  imports Rust_Num Collections Files
begin

text \<open>
  The data of \<open>crates/jman-config/src/lib.rs\<close>: the project manifest \<open>jman.toml\<close>, the lockfile
  \<open>jman.lock\<close>, their parts and defaults, and the error type. Integers keep their width; a
  \<open>BTreeMap\<close> is a sorted association list, a \<open>PathBuf\<close> the list of its components.
\<close>

section \<open>Errors\<close>

datatype config_error =
    ReadError path read_error
  | ParseError path str
  | SerializeError str
  | UnsupportedVersion (schema_kind: str) (schema_actual: "32 word") (schema_supported: "32 word")
  | ToolchainOnly path
  | Validation str
  | JavaSelectionError path str

type_synonym 'a configured = "(config_error, 'a) result"

definition manifest_version :: "32 word" where
  "manifest_version = 1"

definition lock_version :: "32 word" where
  "lock_version = 3"

text \<open>Text between backticks in a message.\<close>

definition ticked :: "str \<Rightarrow> str" where
  "ticked s = ''`'' @ s @ ''`''"

section \<open>Defaults of the schema\<close>

definition default_packaging :: str where "default_packaging = ''jar''"
definition default_encoding :: str where "default_encoding = ''UTF-8''"
definition default_dependency_type :: str where "default_dependency_type = ''jar''"
definition default_compile_scope :: str where "default_compile_scope = ''compile''"
definition default_coverage_engine :: str where "default_coverage_engine = ''jacoco''"
definition default_jdk_vendor :: str where "default_jdk_vendor = ''temurin''"

definition is_jacoco :: "str \<Rightarrow> bool" where "is_jacoco value \<longleftrightarrow> value = ''jacoco''"
definition is_jar :: "str \<Rightarrow> bool" where "is_jar value \<longleftrightarrow> value = ''jar''"

section \<open>Manifest\<close>

record toolchain =
  tc_jdk :: str
  tc_vendor :: str

record toolchain_manifest =
  tm_manifest_version :: "32 word"
  tm_toolchain :: toolchain

record project =
  pj_group :: str
  pj_name :: str
  pj_version :: str
  pj_java_release :: "16 word"
  pj_packaging :: str
  pj_modules :: "str list"
  pj_main_class :: "str option"

record maven_dependency_metadata =
  md_dependency_type :: str
  md_classifier :: "str option"
  md_optional :: bool
  md_exclusions :: "str list"

definition default_dependency_metadata :: maven_dependency_metadata where
  "default_dependency_metadata =
     \<lparr>md_dependency_type = default_dependency_type, md_classifier = None, md_optional = False,
      md_exclusions = []\<rparr>"

record maven_managed_dependency =
  mm_group :: str
  mm_artifact :: str
  mm_version :: "str option"
  mm_scope :: str
  mm_dependency_type :: str
  mm_classifier :: "str option"
  mm_optional :: "bool option"
  mm_exclusions :: "str list"

record maven_compatibility =
  mv_parent :: "str option"
  mv_dependencies :: "(str, maven_dependency_metadata) btree_map"
  mv_dependency_management :: "maven_managed_dependency list"
  mv_bom_imports :: "str list"

datatype generator_output_kind = JavaSources | Resources

datatype generator_source_set = MainSet | TestSet | IntegrationTestSet

record generator_output =
  go_kind :: generator_output_kind
  go_source_set :: generator_source_set

record generator =
  gn_command :: "str list"
  gn_arguments :: "str list"
  gn_inputs :: "str list"
  gn_allow_empty_inputs :: bool
  gn_depends_on :: "str list"
  gn_working_directory :: "path option"
  gn_environment :: "(str, str) btree_map"
  gn_inherit_environment :: "str list"
  gn_outputs :: "(str, generator_output) btree_map"

definition default_generator :: generator where
  "default_generator =
     \<lparr>gn_command = [], gn_arguments = [], gn_inputs = [], gn_allow_empty_inputs = False,
      gn_depends_on = [], gn_working_directory = None, gn_environment = [],
      gn_inherit_environment = [], gn_outputs = []\<rparr>"

record build_config =
  bd_encoding :: str
  bd_compiler_args :: "str list"
  bd_generators :: "(str, generator) btree_map"

definition default_build :: build_config where
  "default_build = \<lparr>bd_encoding = default_encoding, bd_compiler_args = [], bd_generators = []\<rparr>"

datatype coverage_format = SummaryFormat | JsonFormat | XmlFormat | HtmlFormat

record coverage =
  cv_enabled :: bool
  cv_engine :: str
  cv_formats :: "coverage_format list"
  cv_minimum_line :: "8 word option"
  cv_minimum_branch :: "8 word option"
  cv_include :: "str list"
  cv_exclude :: "str list"

definition default_coverage :: coverage where
  "default_coverage =
     \<lparr>cv_enabled = False, cv_engine = default_coverage_engine, cv_formats = [],
      cv_minimum_line = None, cv_minimum_branch = None, cv_include = [], cv_exclude = []\<rparr>"

record test_config =
  ts_coverage :: "coverage option"

record license =
  li_name :: str
  li_url :: str
  li_distribution :: "str option"

record developer =
  dv_id :: "str option"
  dv_name :: str
  dv_email :: "str option"
  dv_organization :: "str option"
  dv_organization_url :: "str option"

record scm =
  sc_connection :: str
  sc_developer_connection :: str
  sc_url :: str
  sc_tag :: "str option"

record publishing =
  pb_name :: "str option"
  pb_description :: "str option"
  pb_url :: "str option"
  pb_licenses :: "license list"
  pb_developers :: "developer list"
  pb_scm :: "scm option"

record audit_suppression =
  su_id :: str
  su_reason :: str
  su_expires :: str

record audit =
  au_suppressions :: "audit_suppression list"

record config_repository =
  cr_id :: str
  cr_url :: str

record script_definition =
  sd_description :: "str option"
  sd_command :: "str list"
  sd_steps :: "str list"
  sd_working_directory :: "path option"
  sd_environment :: "(str, str) btree_map"

datatype script = Shell str | Structured script_definition

datatype dependency_spec = VersionSpec str | PathSpec str

definition dependency_spec_version :: "dependency_spec \<Rightarrow> str option" where
  "dependency_spec_version d = (case d of VersionSpec v \<Rightarrow> Some v | PathSpec _ \<Rightarrow> None)"

definition dependency_spec_path :: "dependency_spec \<Rightarrow> str option" where
  "dependency_spec_path d = (case d of VersionSpec _ \<Rightarrow> None | PathSpec p \<Rightarrow> Some p)"

record dependencies =
  dp_compile :: "(str, dependency_spec) btree_map"
  dp_runtime :: "(str, dependency_spec) btree_map"
  dp_provided :: "(str, dependency_spec) btree_map"
  dp_test :: "(str, dependency_spec) btree_map"

definition dependencies_is_empty :: "dependencies \<Rightarrow> bool" where
  "dependencies_is_empty d \<longleftrightarrow>
     dp_compile d = [] \<and> dp_runtime d = [] \<and> dp_provided d = [] \<and> dp_test d = []"

text \<open>The four tables one after the other, as the validation chains them.\<close>

definition all_dependencies :: "dependencies \<Rightarrow> (str \<times> dependency_spec) list" where
  "all_dependencies d = dp_compile d @ dp_runtime d @ dp_provided d @ dp_test d"

record manifest =
  mf_manifest_version :: "32 word"
  mf_project :: project
  mf_toolchain :: "toolchain option"
  mf_maven :: "maven_compatibility option"
  mf_build :: "build_config option"
  mf_test :: "test_config option"
  mf_publishing :: "publishing option"
  mf_audit :: "audit option"
  mf_scripts :: "(str, script) btree_map"
  mf_repositories :: "config_repository list"
  mf_dependencies :: dependencies
  mf_annotation_processors :: "(str, str) btree_map"

datatype manifest_file = ToolchainFile toolchain_manifest | ProjectFile manifest

definition manifest_file_toolchain :: "manifest_file \<Rightarrow> toolchain option" where
  "manifest_file_toolchain f =
     (case f of ToolchainFile m \<Rightarrow> Some (tm_toolchain m) | ProjectFile m \<Rightarrow> mf_toolchain m)"

definition is_project :: "manifest_file \<Rightarrow> bool" where
  "is_project f = (case f of ProjectFile _ \<Rightarrow> True | _ \<Rightarrow> False)"

section \<open>Lockfile\<close>

record locked_workspace_dependency =
  lw_coordinate :: str
  lw_scope :: str
  lw_path :: str
  lw_version :: str

record locked_toolchain =
  lt_java_release :: "16 word"

record locked_package =
  lp_group :: str
  lp_artifact :: str
  lp_version :: str
  lp_extension :: str
  lp_classifier :: "str option"
  lp_source :: str
  lp_pom_checksum :: str
  lp_artifact_checksum :: "str option"
  lp_artifact_size :: "64 word option"
  lp_dependencies :: "str list"
  lp_scopes :: "str list"
  lp_selected_parent :: "str option"

record locked_classpaths =
  lc_compile :: "str list"
  lc_runtime :: "str list"
  lc_test :: "str list"
  lc_processors :: "str list"

record lockfile =
  lf_lock_version :: "32 word"
  lf_manifest_hash :: str
  lf_workspace_hash :: str
  lf_platform :: str
  lf_toolchain :: locked_toolchain
  lf_packages :: "locked_package list"
  lf_workspace_dependencies :: "locked_workspace_dependency list"
  lf_classpath :: locked_classpaths

section \<open>Reading text files\<close>

text \<open>
  \<open>fs::read_to_string\<close>: a file that is not UTF-8 is an error. The entries of the model's disk
  are files, so \<open>Path::is_file\<close> is the presence of an entry.
\<close>

definition read_to_string :: "disk \<Rightarrow> path \<Rightarrow> str configured" where
  "read_to_string d p =
     (case read_file d p of
        Inl e \<Rightarrow> Inl (ReadError p e)
      | Inr b \<Rightarrow> if utf8_valid b then Inr b
                else Inl (ReadError p (ReadFailed ''stream did not contain valid UTF-8'')))"

definition is_file :: "disk \<Rightarrow> path \<Rightarrow> bool" where
  "is_file d p \<longleftrightarrow> d p \<noteq> None"

lemma read_to_string_Inr_iff:
  "read_to_string d p = Inr b \<longleftrightarrow> d p = Some (Bytes b) \<and> utf8_valid b"
  by (auto simp: read_to_string_def read_file_def split: option.splits disk_entry.splits)

end
