(* ===== verification/Config_Validate.thy ===== *)
theory Config_Validate
  imports Config_Model
begin

text \<open>
  The validation of manifests and lockfiles in \<open>crates/jman-config/src/lib.rs\<close>, check by check
  in the order of the source, and what a validated manifest promises to the rest of the
  program: paths stay inside the project, references are defined, the generators can be
  ordered.
\<close>

section \<open>Names and versions\<close>

definition invalid :: "str \<Rightarrow> config_error" where
  "invalid m = Validation m"

definition java_feature_version :: "str \<Rightarrow> 16 word option" where
  "java_feature_version version =
     (let digits = takeWhile is_digit version;
          suffix = dropWhile is_digit version
      in if digits = [] then None
         else (case parse_u16 digits of
                 None \<Rightarrow> None
               | Some major \<Rightarrow>
                   if major = 0 then None
                   else (case strip_prefix ''u'' suffix of
                           Some update \<Rightarrow>
                             if major = 8 \<and> update \<noteq> [] \<and> is_digit (hd update)
                             then Some (of_nat major) else None
                         | None \<Rightarrow>
                             if suffix \<noteq> [] \<and> hd suffix \<notin> {CHR ''.'', CHR ''+'', CHR ''-''}
                             then None else Some (of_nat major))))"

definition is_java_identifier :: "str \<Rightarrow> bool" where
  "is_java_identifier part =
     (case part of
        [] \<Rightarrow> False
      | c # cs \<Rightarrow>
          (c = CHR ''_'' \<or> c = CHR ''$'' \<or> is_alpha c) \<and>
          list_all (\<lambda>c. c = CHR ''_'' \<or> c = CHR ''$'' \<or> is_alnum c) cs)"

definition validate_java_name :: "str \<Rightarrow> str \<Rightarrow> unit configured" where
  "validate_java_name label value =
     ensure (list_all is_java_identifier (split_char (CHR ''.'') value))
       (invalid (label @ '' '' @ ticked value @ '' is not a valid dotted Java identifier''))"

definition validate_ga :: "str \<Rightarrow> unit configured" where
  "validate_ga coord =
     ensure (case split_char (CHR '':'') coord of [g, a] \<Rightarrow> g \<noteq> [] \<and> a \<noteq> [] | _ \<Rightarrow> False)
       (invalid (''dependency '' @ ticked coord @ '' must use group:artifact notation''))"

definition vendor_identifier :: "str \<Rightarrow> bool" where
  "vendor_identifier vendor \<longleftrightarrow>
     vendor \<noteq> [] \<and> list_all (\<lambda>c. is_lower c \<or> is_digit c \<or> c = CHR ''-'') vendor \<and>
     \<not> starts_with ''-'' vendor \<and> \<not> ends_with ''-'' vendor"

definition validate_jdk_vendor :: "str \<Rightarrow> unit configured" where
  "validate_jdk_vendor vendor =
     ensure (vendor_identifier vendor)
       (invalid (''JDK vendor '' @ ticked vendor @ '' must be a lowercase identifier''))"

section \<open>Scripts\<close>

definition blank :: "str \<Rightarrow> bool" where
  "blank s \<longleftrightarrow> trim s = []"

definition bad_variable :: "str \<Rightarrow> bool" where
  "bad_variable v \<longleftrightarrow> v = [] \<or> contains ''='' v \<or> contains [CHR 0x00] v"

definition leaves_directory :: "path \<Rightarrow> bool" where
  "leaves_directory p \<longleftrightarrow> is_absolute p \<or> ParentDir \<in> set p"

definition check_script :: "str \<times> script \<Rightarrow> unit configured" where
  "check_script = (\<lambda>(name, script).
     and_then
       (ensure (name \<noteq> [] \<and> \<not> list_ex (\<lambda>c. is_control c \<or> is_space c) name)
         (invalid (''script name '' @ ticked name @ '' must be non-empty and contain no whitespace'')))
       (\<lambda>_. case script of
          Shell command \<Rightarrow>
            ensure (\<not> blank command)
              (invalid (''script '' @ ticked name @ '' command cannot be empty''))
        | Structured s \<Rightarrow> checks
            [ensure ((sd_command s = []) \<noteq> (sd_steps s = []))
               (invalid (''script '' @ ticked name @
                  '' must define exactly one of `command` or `steps`'')),
             ensure (sd_command s = [] \<or> hd (sd_command s) \<noteq> [])
               (invalid (''script '' @ ticked name @ '' executable cannot be empty'')),
             ensure (\<not> list_ex (\<lambda>t. t = []) (sd_steps s))
               (invalid (''script '' @ ticked name @ '' contains an empty step'')),
             ensure (\<not> is_some_and blank (sd_description s))
               (invalid (''script '' @ ticked name @ '' description cannot be empty'')),
             ensure (\<not> is_some_and leaves_directory (sd_working_directory s))
               (invalid (''script '' @ ticked name @
                  '' working-directory must stay within the project'')),
             (case List.find bad_variable (bt_keys (sd_environment s)) of
                Some v \<Rightarrow> Inl (invalid (''script '' @ ticked name @
                            '' has invalid environment variable '' @ ticked v))
              | None \<Rightarrow> Inr ())]))"

definition check_steps :: "(str, script) btree_map \<Rightarrow> str \<times> script \<Rightarrow> unit configured" where
  "check_steps scripts = (\<lambda>(name, script).
     case script of
       Shell _ \<Rightarrow> Inr ()
     | Structured s \<Rightarrow>
         check_all (\<lambda>t. ensure (bt_contains scripts t)
           (invalid (''script '' @ ticked name @ '' references undefined step '' @ ticked t)))
           (sd_steps s))"

definition validate_scripts :: "(str, script) btree_map \<Rightarrow> unit configured" where
  "validate_scripts scripts =
     and_then (check_all check_script scripts) (\<lambda>_. check_all (check_steps scripts) scripts)"

section \<open>Generators\<close>

definition validate_generator_name :: "str \<Rightarrow> str \<Rightarrow> unit configured" where
  "validate_generator_name kind name =
     ensure (name \<noteq> [] \<and> list_all (\<lambda>c. is_alnum c \<or> c = CHR ''-'' \<or> c = CHR ''_'') name)
       (invalid (kind @ '' name '' @ ticked name @
          '' must use only ASCII letters, digits, `-`, or `_`''))"

text \<open>The expressions a template of a generator may use.\<close>

definition known_expression :: "generator \<Rightarrow> (str, generator) btree_map \<Rightarrow> str \<Rightarrow> bool" where
  "known_expression gen gens variable \<longleftrightarrow>
     variable \<in> {''project.root'', ''module.root'', ''generator.name'', ''input'', ''java.home''} \<or>
     (case strip_prefix ''output.'' variable of
        Some out \<Rightarrow> bt_contains (gn_outputs gen) out | None \<Rightarrow> False) \<or>
     (case strip_prefix ''env.'' variable of
        Some e \<Rightarrow> bt_contains (gn_environment gen) e \<or> e \<in> set (gn_inherit_environment gen)
      | None \<Rightarrow> False) \<or>
     (case strip_prefix ''dependency.'' variable of
        Some reference \<Rightarrow>
          (case split_once (CHR ''.'') reference of
             Some (dep, out) \<Rightarrow>
               dep \<in> set (gn_depends_on gen) \<and>
               (case bt_get gens dep of Some g \<Rightarrow> bt_contains (gn_outputs g) out | None \<Rightarrow> False)
           | None \<Rightarrow> False)
      | None \<Rightarrow> False)"

text \<open>
  The scan of a template: two dollars are an escaped one, a dollar before anything but a brace
  stands for itself, and an expression runs to the next closing brace.
\<close>

function scan_template ::
    "str \<Rightarrow> str \<Rightarrow> generator \<Rightarrow> (str, generator) btree_map \<Rightarrow> str \<Rightarrow> unit configured" where
  "scan_template name template gen gens remaining =
     (case split_once (CHR ''$'') remaining of
        None \<Rightarrow> Inr ()
      | Some (_, rest) \<Rightarrow>
          (case strip_prefix ''$'' rest of
             Some escaped \<Rightarrow> scan_template name template gen gens escaped
           | None \<Rightarrow>
               (case strip_prefix ''{'' rest of
                  None \<Rightarrow> scan_template name template gen gens rest
                | Some expression \<Rightarrow>
                    (case split_once (CHR ''}'') expression of
                       None \<Rightarrow> Inl (invalid (''generator '' @ ticked name @
                                '' contains an unterminated expression in '' @ ticked template))
                     | Some (variable, after) \<Rightarrow>
                         if \<not> known_expression gen gens variable
                         then Inl (invalid (''generator '' @ ticked name @
                                '' uses unknown expression `${'' @ variable @ ''}`''))
                         else if variable = ''input'' \<and> template \<noteq> ''${input}''
                         then Inl (invalid (''generator '' @ ticked name @
                                '' must use `${input}` as a complete argument''))
                         else scan_template name template gen gens after))))"
  by pat_completeness auto
termination
  by (relation "measure (\<lambda>(_, _, _, _, r). length r)")
     (auto simp: split_once_Some strip_prefix_Some_iff)

declare scan_template.simps [simp del]

definition validate_generator_template ::
    "str \<Rightarrow> str \<Rightarrow> generator \<Rightarrow> (str, generator) btree_map \<Rightarrow> unit configured" where
  "validate_generator_template name template gen gens = scan_template name template gen gens template"

definition reserved_variables :: "str list" where
  "reserved_variables =
     [''PATH'', ''JAVA_HOME'', ''JMAN_JAVA_HOME'', ''JMAN_PROJECT_ROOT'', ''JMAN_MODULE_ROOT'',
      ''JMAN_GENERATOR_NAME'']"

definition generator_input_ok :: "str \<Rightarrow> bool" where
  "generator_input_ok input \<longleftrightarrow>
     input \<noteq> [] \<and> \<not> contains [CHR 0x5C] input \<and> \<not> is_absolute (path_of input) \<and>
     \<not> list_ex (\<lambda>c. c = ParentDir \<or> c = RootDir) (path_of input)"

definition check_generator_variable :: "str \<Rightarrow> str \<Rightarrow> unit configured" where
  "check_generator_variable name v = checks
     [ensure (\<not> bad_variable v)
        (invalid (''generator '' @ ticked name @ '' has invalid environment variable '' @ ticked v)),
      ensure (v \<notin> set reserved_variables)
        (invalid (''generator '' @ ticked name @
           '' cannot override reserved environment variable '' @ ticked v))]"

definition check_generator_dependency ::
    "str \<Rightarrow> (str, generator) btree_map \<Rightarrow> str \<Rightarrow> unit configured" where
  "check_generator_dependency name gens dep = checks
     [ensure (dep \<noteq> name) (invalid (''generator '' @ ticked name @ '' cannot depend on itself'')),
      ensure (bt_contains gens dep)
        (invalid (''generator '' @ ticked name @ '' references undefined generator '' @ ticked dep))]"

definition validate_generator ::
    "(str, generator) btree_map \<Rightarrow> str \<times> generator \<Rightarrow> unit configured" where
  "validate_generator gens = (\<lambda>(name, gen). checks
     [validate_generator_name ''generator'' name,
      ensure (gn_command gen \<noteq> [] \<and> hd (gn_command gen) \<noteq> [])
        (invalid (''generator '' @ ticked name @ '' command must start with a non-empty executable'')),
      ensure (\<not> contains ''${'' (hd (gn_command gen)))
        (invalid (''generator '' @ ticked name @ '' executable cannot contain expressions'')),
      ensure (gn_outputs gen \<noteq> [])
        (invalid (''generator '' @ ticked name @ '' must declare at least one output'')),
      check_all (validate_generator_name ''generator output'') (bt_keys (gn_outputs gen)),
      ensure (\<not> is_some_and leaves_directory (gn_working_directory gen))
        (invalid (''generator '' @ ticked name @ '' working-directory must stay within the module'')),
      check_all (\<lambda>i. ensure (generator_input_ok i)
        (invalid (''generator '' @ ticked name @ '' input '' @ ticked i @
           '' must be a module-relative `/` path''))) (gn_inputs gen),
      check_all (check_generator_variable name)
        (bt_keys (gn_environment gen) @ gn_inherit_environment gen),
      check_all (check_generator_dependency name gens) (gn_depends_on gen),
      check_all (\<lambda>t. validate_generator_template name t gen gens)
        (gn_command gen @ gn_arguments gen)])"

definition ready_generators :: "(str, generator) btree_map \<Rightarrow> str list \<Rightarrow> str list" where
  "ready_generators gens complete =
     map fst (filter (\<lambda>(name, gen). name \<notin> set complete \<and>
                        list_all (\<lambda>d. d \<in> set complete) (gn_depends_on gen)) gens)"

lemma length_bs_insert: "length (bs_insert x xs) = (if x \<in> set xs then length xs else Suc (length xs))"
  by (simp add: bs_insert_def insort_insert_key_def)

lemma length_fold_bs_insert: "length xs \<le> length (fold bs_insert ys xs)"
proof (induction ys arbitrary: xs)
  case (Cons y ys)
  from Cons.IH [of "bs_insert y xs"] show ?case by (simp add: length_bs_insert split: if_splits)
qed simp

lemma ready_generators_grow:
  assumes "ready_generators gens complete \<noteq> []"
  shows "length complete < length (fold bs_insert (ready_generators gens complete) complete)"
proof -
  from assms obtain n ns where ready: "ready_generators gens complete = n # ns"
    by (cases "ready_generators gens complete") auto
  then have "n \<in> set (ready_generators gens complete)" by simp
  then have "n \<notin> set complete" by (auto simp: ready_generators_def)
  then show ?thesis
    using length_fold_bs_insert [of "bs_insert n complete" ns] by (simp add: ready length_bs_insert)
qed

text \<open>The loop that completes the generators layer by layer.\<close>

function complete_generators :: "(str, generator) btree_map \<Rightarrow> str list \<Rightarrow> unit configured" where
  "complete_generators gens complete =
     (if length complete < length gens
      then (if ready_generators gens complete = []
            then Inl (invalid (''generator dependency cycle detected involving: '' @
                   join_with '', '' (filter (\<lambda>n. n \<notin> set complete) (bt_keys gens))))
            else complete_generators gens
                   (fold bs_insert (ready_generators gens complete) complete))
      else Inr ())"
  by pat_completeness auto
termination
  by (relation "measure (\<lambda>(gens, complete). length gens - length complete)")
     (auto dest: ready_generators_grow)

declare complete_generators.simps [simp del]

definition validate_generators :: "(str, generator) btree_map \<Rightarrow> unit configured" where
  "validate_generators gens =
     and_then (check_all (validate_generator gens) gens) (\<lambda>_. complete_generators gens [])"

section \<open>Publishing, audit and coverage\<close>

definition validate_publishing :: "publishing \<Rightarrow> unit configured" where
  "validate_publishing p = checks
     [check_all (\<lambda>(label, value). ensure (\<not> is_some_and blank value)
        (invalid (label @ '' cannot be empty'')))
        [(''publishing name'', pb_name p), (''publishing description'', pb_description p),
         (''publishing URL'', pb_url p)],
      check_all (\<lambda>l. ensure (\<not> blank (li_name l) \<and> \<not> blank (li_url l))
        (invalid ''publishing licenses require non-empty name and URL'')) (pb_licenses p),
      check_all (\<lambda>d. ensure (\<not> blank (dv_name d))
        (invalid ''publishing developers require a non-empty name'')) (pb_developers p),
      (case pb_scm p of
         None \<Rightarrow> Inr ()
       | Some s \<Rightarrow>
           ensure (\<not> (blank (sc_connection s) \<or> blank (sc_developer_connection s) \<or> blank (sc_url s)))
             (invalid ''publishing SCM requires connection, developer-connection, and URL''))]"

definition is_leap_year :: "nat \<Rightarrow> bool" where
  "is_leap_year year \<longleftrightarrow> year mod 4 = 0 \<and> (year mod 100 \<noteq> 0 \<or> year mod 400 = 0)"

definition days_in_month :: "nat \<Rightarrow> nat \<Rightarrow> nat" where
  "days_in_month year month =
     (if month = 2 then (if is_leap_year year then 29 else 28)
      else if month = 4 \<or> month = 6 \<or> month = 9 \<or> month = 11 then 30 else 31)"

definition is_iso_date :: "str \<Rightarrow> bool" where
  "is_iso_date value =
     (case split_char (CHR ''-'') value of
        [y, m, d] \<Rightarrow>
          (case (parse_u32 y, parse_u32 m, parse_u32 d) of
             (Some year, Some month, Some day) \<Rightarrow>
               length value = 10 \<and> year \<noteq> 0 \<and> 1 \<le> month \<and> month \<le> 12 \<and>
               1 \<le> day \<and> day \<le> days_in_month year month
           | _ \<Rightarrow> False)
      | _ \<Rightarrow> False)"

fun check_suppressions :: "str list \<Rightarrow> audit_suppression list \<Rightarrow> unit configured" where
  "check_suppressions identifiers [] = Inr ()"
| "check_suppressions identifiers (s # rest) = checks
     [ensure (\<not> blank (su_id s)) (invalid ''audit suppression ID cannot be empty''),
      ensure (su_id s \<notin> set identifiers)
        (invalid (''duplicate audit suppression '' @ ticked (su_id s))),
      ensure (\<not> blank (su_reason s))
        (invalid (''audit suppression '' @ ticked (su_id s) @ '' requires a reason'')),
      ensure (is_iso_date (su_expires s))
        (invalid (''audit suppression '' @ ticked (su_id s) @
           '' expiry must use a valid YYYY-MM-DD date'')),
      check_suppressions (bs_insert (su_id s) identifiers) rest]"

definition validate_audit :: "audit \<Rightarrow> unit configured" where
  "validate_audit a = check_suppressions [] (au_suppressions a)"

definition validate_coverage :: "coverage \<Rightarrow> unit configured" where
  "validate_coverage c = checks
     [ensure (cv_engine c = ''jacoco'')
        (invalid (''unsupported coverage engine '' @ ticked (cv_engine c) @ ''; expected `jacoco`'')),
      check_all (\<lambda>(label, threshold). ensure (\<not> is_some_and (\<lambda>t. 100 < t) threshold)
        (invalid (''coverage minimum-'' @ label @ '' must be between 0 and 100'')))
        [(''line'', cv_minimum_line c), (''branch'', cv_minimum_branch c)],
      ensure (\<not> list_ex blank (cv_include c @ cv_exclude c))
        (invalid ''coverage include and exclude patterns cannot be empty''),
      ensure (length (remdups (cv_formats c)) = length (cv_formats c))
        (invalid ''coverage formats cannot contain duplicates'')]"

section \<open>Manifest and lockfile\<close>

definition dependency_scopes :: "str list" where
  "dependency_scopes = [''compile'', ''runtime'', ''provided'', ''test'']"

definition check_toolchain :: "project \<Rightarrow> toolchain \<Rightarrow> unit configured" where
  "check_toolchain p t = checks
     [ensure (case java_feature_version (tc_jdk t) of
                None \<Rightarrow> False | Some major \<Rightarrow> \<not> major < pj_java_release p)
        (invalid (''toolchain JDK '' @ ticked (tc_jdk t) @
           '' must be a valid version at least as new as Java release '' @
           show_nat (unat (pj_java_release p)))),
      validate_jdk_vendor (tc_vendor t)]"

definition check_dependency :: "str \<times> dependency_spec \<Rightarrow> unit configured" where
  "check_dependency = (\<lambda>(coord, dep).
     case dep of
       VersionSpec v \<Rightarrow>
         ensure (\<not> blank v) (invalid (''dependency '' @ ticked coord @ '' version cannot be empty''))
     | PathSpec p \<Rightarrow>
         ensure (\<not> (blank p \<or> is_absolute (path_of p)))
           (invalid (''workspace dependency '' @ ticked coord @
              '' path must be a non-empty relative path'')))"

definition check_maven_entry :: "str \<times> maven_dependency_metadata \<Rightarrow> unit configured" where
  "check_maven_entry = (\<lambda>(key, metadata).
     case split_once (CHR '':'') key of
       None \<Rightarrow> Inl (invalid (''Maven dependency metadata key '' @ ticked key @
                '' must use scope:group:artifact''))
     | Some (scope, coord) \<Rightarrow> checks
         [ensure (scope \<in> set dependency_scopes)
            (invalid (''unsupported dependency metadata scope '' @ ticked scope)),
          validate_ga coord,
          check_all validate_ga (md_exclusions metadata)])"

definition check_maven :: "maven_compatibility \<Rightarrow> unit configured" where
  "check_maven maven = checks
     [check_all check_maven_entry (mv_dependencies maven),
      check_all (\<lambda>m. checks
        [validate_ga (mm_group m @ '':'' @ mm_artifact m), check_all validate_ga (mm_exclusions m)])
        (mv_dependency_management maven)]"

definition check_opt :: "('a \<Rightarrow> unit configured) \<Rightarrow> 'a option \<Rightarrow> unit configured" where
  "check_opt f m = (case m of None \<Rightarrow> Inr () | Some x \<Rightarrow> f x)"

definition manifest_validate :: "manifest \<Rightarrow> unit configured" where
  "manifest_validate m = checks
     [ensure (mf_manifest_version m = manifest_version)
        (UnsupportedVersion ''manifest'' (mf_manifest_version m) manifest_version),
      validate_java_name ''project group'' (pj_group (mf_project m)),
      ensure (\<not> blank (pj_name (mf_project m))) (invalid ''project name cannot be empty''),
      check_opt (validate_java_name ''main class'') (pj_main_class (mf_project m)),
      check_opt (check_toolchain (mf_project m)) (mf_toolchain m),
      check_all validate_ga
        (map fst (all_dependencies (mf_dependencies m)) @ bt_keys (mf_annotation_processors m)),
      check_all check_dependency (all_dependencies (mf_dependencies m)),
      check_opt check_maven (mf_maven m),
      check_opt validate_publishing (mf_publishing m),
      check_opt validate_audit (mf_audit m),
      check_opt validate_coverage (Option.bind (mf_test m) ts_coverage),
      check_opt (\<lambda>b. validate_generators (bd_generators b)) (mf_build m),
      validate_scripts (mf_scripts m)]"

definition toolchain_manifest_validate :: "toolchain_manifest \<Rightarrow> unit configured" where
  "toolchain_manifest_validate m = checks
     [ensure (tm_manifest_version m = manifest_version)
        (UnsupportedVersion ''manifest'' (tm_manifest_version m) manifest_version),
      ensure (java_feature_version (tc_jdk (tm_toolchain m)) \<noteq> None)
        (invalid (''toolchain JDK '' @ ticked (tc_jdk (tm_toolchain m)) @
           '' must be a valid Java version'')),
      validate_jdk_vendor (tc_vendor (tm_toolchain m))]"

definition check_locked_package :: "locked_package \<Rightarrow> unit configured" where
  "check_locked_package p = checks
     [ensure (starts_with ''sha256:'' (lp_pom_checksum p))
        (invalid (''package '' @ lp_group p @ '':'' @ lp_artifact p @ '' has an invalid POM checksum'')),
      ensure (\<not> is_some_and (\<lambda>c. \<not> starts_with ''sha256:'' c) (lp_artifact_checksum p))
        (invalid (''package '' @ lp_group p @ '':'' @ lp_artifact p @
           '' has an invalid artifact checksum''))]"

fun check_workspace_edges ::
    "(str \<times> str) list \<Rightarrow> locked_workspace_dependency list \<Rightarrow> unit configured" where
  "check_workspace_edges edges [] = Inr ()"
| "check_workspace_edges edges (d # rest) = checks
     [validate_ga (lw_coordinate d),
      ensure (lw_scope d \<in> set dependency_scopes)
        (invalid (''workspace dependency '' @ lw_coordinate d @ '' has unsupported scope '' @
           ticked (lw_scope d))),
      ensure (\<not> (blank (lw_version d) \<or> blank (lw_path d) \<or> is_absolute (path_of (lw_path d))))
        (invalid (''workspace dependency '' @ lw_coordinate d @
           '' must have a version and relative path'')),
      ensure ((lw_scope d, lw_coordinate d) \<notin> set edges)
        (invalid (''duplicate '' @ lw_scope d @ '' workspace dependency '' @ lw_coordinate d)),
      check_workspace_edges ((lw_scope d, lw_coordinate d) # edges) rest]"

definition lockfile_validate :: "lockfile \<Rightarrow> unit configured" where
  "lockfile_validate l = checks
     [ensure (lf_lock_version l = lock_version)
        (UnsupportedVersion ''lockfile'' (lf_lock_version l) lock_version),
      ensure (starts_with ''sha256:'' (lf_manifest_hash l)) (invalid ''manifest hash must use sha256''),
      ensure (starts_with ''sha256:'' (lf_workspace_hash l))
        (invalid ''workspace hash must use sha256''),
      ensure (\<not> blank (lf_platform l)) (invalid ''resolution platform cannot be empty''),
      check_all check_locked_package (lf_packages l),
      check_workspace_edges [] (lf_workspace_dependencies l)]"

section \<open>Reading and writing\<close>

text \<open>
  A parsed TOML document without its layout: a table maps keys to values and to further
  tables. The scalars are kept as written.
\<close>

datatype toml_value = Scalar str | InlineTable "(str \<times> toml_value) list"

datatype toml_item = ItemValue toml_value | ItemTable "(str \<times> toml_item) list" | ItemOther str

text \<open>
  What the \<open>toml\<close> crates do with a text: the decoders of the three schemas, the probe for a
  \<open>[project]\<close> table, the encoders, and the parser and printer of documents. They are parameters
  of the model.
\<close>

record toml_codec =
  decode_probe :: "str \<Rightarrow> (str, bool) result"
  decode_manifest :: "str \<Rightarrow> (str, manifest) result"
  decode_toolchain :: "str \<Rightarrow> (str, toolchain_manifest) result"
  decode_lockfile :: "str \<Rightarrow> (str, lockfile) result"
  encode_manifest :: "manifest \<Rightarrow> (str, str) result"
  encode_toolchain :: "toolchain_manifest \<Rightarrow> (str, str) result"
  encode_lockfile :: "lockfile \<Rightarrow> (str, str) result"
  parse_document :: "str \<Rightarrow> (str, (str \<times> toml_item) list) result"
  print_document :: "(str \<times> toml_item) list \<Rightarrow> str"

text \<open>A table of one key \<open>path\<close> becomes an inline table; everything else stays.\<close>

definition inline_item :: "toml_item \<Rightarrow> toml_item" where
  "inline_item item =
     (case item of
        ItemTable [(k, ItemValue v)] \<Rightarrow>
          if k = ''path'' then ItemValue (InlineTable [(''path'', v)]) else item
      | _ \<Rightarrow> item)"

definition inline_entries :: "str \<times> toml_item \<Rightarrow> str \<times> toml_item" where
  "inline_entries = (\<lambda>(scope, item).
     (scope,
      case item of
        ItemTable entries \<Rightarrow>
          if scope \<in> set dependency_scopes
          then ItemTable (map (\<lambda>(k, i). (k, inline_item i)) entries) else item
      | _ \<Rightarrow> item))"

definition inline_path_dependency_specs :: "toml_codec \<Rightarrow> str \<Rightarrow> str configured" where
  "inline_path_dependency_specs codec serialized =
     and_then
       (map_err (\<lambda>e. invalid (''could not normalize serialized manifest: '' @ e))
         (parse_document codec serialized)) (\<lambda>document.
     case map_of document ''dependencies'' of
       Some (ItemTable tables) \<Rightarrow>
         Inr (print_document codec
           (map (\<lambda>(k, i). if k = ''dependencies''
                          then (k, ItemTable (map inline_entries tables)) else (k, i)) document))
     | _ \<Rightarrow> Inr serialized)"

definition manifest_file_read :: "toml_codec \<Rightarrow> disk \<Rightarrow> path \<Rightarrow> manifest_file configured" where
  "manifest_file_read codec d p =
     and_then (read_to_string d p) (\<lambda>txt.
     and_then (map_err (ParseError p) (decode_probe codec txt)) (\<lambda>has_project.
     if has_project
     then and_then (map_err (ParseError p) (decode_manifest codec txt)) (\<lambda>m.
          and_then (manifest_validate m) (\<lambda>_. Inr (ProjectFile m)))
     else and_then (map_err (ParseError p) (decode_toolchain codec txt)) (\<lambda>m.
          and_then (toolchain_manifest_validate m) (\<lambda>_. Inr (ToolchainFile m)))))"

definition manifest_read :: "toml_codec \<Rightarrow> disk \<Rightarrow> path \<Rightarrow> manifest configured" where
  "manifest_read codec d p =
     and_then (manifest_file_read codec d p) (\<lambda>f.
     case f of ProjectFile m \<Rightarrow> Inr m | ToolchainFile _ \<Rightarrow> Inl (ToolchainOnly p))"

definition lockfile_read :: "toml_codec \<Rightarrow> disk \<Rightarrow> path \<Rightarrow> lockfile configured" where
  "lockfile_read codec d p =
     and_then (read_to_string d p) (\<lambda>txt.
     and_then (map_err (ParseError p) (decode_lockfile codec txt)) (\<lambda>l.
     and_then (lockfile_validate l) (\<lambda>_. Inr l)))"

definition manifest_to_toml :: "toml_codec \<Rightarrow> manifest \<Rightarrow> str configured" where
  "manifest_to_toml codec m =
     and_then (manifest_validate m) (\<lambda>_.
     and_then (map_err SerializeError (encode_manifest codec m)) (\<lambda>serialized.
     inline_path_dependency_specs codec serialized))"

definition toolchain_manifest_to_toml :: "toml_codec \<Rightarrow> toolchain_manifest \<Rightarrow> str configured" where
  "toolchain_manifest_to_toml codec m =
     and_then (toolchain_manifest_validate m) (\<lambda>_.
     map_err SerializeError (encode_toolchain codec m))"

definition lockfile_to_toml :: "toml_codec \<Rightarrow> lockfile \<Rightarrow> str configured" where
  "lockfile_to_toml codec l =
     and_then (lockfile_validate l) (\<lambda>_.
     and_then (map_err SerializeError (encode_lockfile codec l)) (\<lambda>txt.
     Inr (''# Auto-generated by jman. DO NOT EDIT.'' @ [CHR 0x0A] @ txt)))"

section \<open>Lemmas\<close>

lemma is_ok_check_opt [simp]: "is_ok (check_opt f m) \<longleftrightarrow> (\<forall>x. m = Some x \<longrightarrow> is_ok (f x))"
  by (cases m) (simp_all add: check_opt_def)

text \<open>The dependency order of the generators: the first must run before the second.\<close>

definition generator_edges :: "(str, generator) btree_map \<Rightarrow> (str \<times> str) set" where
  "generator_edges gens = {(d, n). \<exists>g. (n, g) \<in> set gens \<and> d \<in> set (gn_depends_on g)}"

lemma finite_generator_edges: "finite (generator_edges gens)"
proof (rule finite_subset)
  show "generator_edges gens \<subseteq> (\<Union>(n, g) \<in> set gens. (\<lambda>d. (d, n)) ` set (gn_depends_on g))"
    by (auto simp: generator_edges_def)
qed auto

lemma ready_generators_iff:
  "n \<in> set (ready_generators gens complete) \<longleftrightarrow>
     n \<notin> set complete \<and> (\<exists>g. (n, g) \<in> set gens \<and> set (gn_depends_on g) \<subseteq> set complete)"
  by (force simp: ready_generators_def list_all_iff)

text \<open>
  What the loop keeps: the completed names are names of generators, and every chain of
  dependencies of a completed generator ends.
\<close>

definition completed_ok :: "(str, generator) btree_map \<Rightarrow> str list \<Rightarrow> bool" where
  "completed_ok gens complete \<longleftrightarrow>
     distinct complete \<and> set complete \<subseteq> fst ` set gens \<and>
     (\<forall>n \<in> set complete. n \<in> Wellfounded.acc (generator_edges gens))"

lemma set_fold_bs_insert: "set (fold bs_insert ys xs) = set ys \<union> set xs"
  by (induction ys arbitrary: xs) auto

lemma distinct_fold_bs_insert: "distinct xs \<Longrightarrow> distinct (fold bs_insert ys xs)"
  by (induction ys arbitrary: xs) (auto simp: bs_insert_def distinct_insort_insert)

lemma completed_ok_step:
  assumes ok: "completed_ok gens complete" and wf: "distinct (map fst gens)"
  shows "completed_ok gens (fold bs_insert (ready_generators gens complete) complete)"
proof -
  have "n \<in> Wellfounded.acc (generator_edges gens)"
    if n: "n \<in> set (ready_generators gens complete)" for n
  proof (rule accI)
    fix d assume "(d, n) \<in> generator_edges gens"
    then obtain g where g: "(n, g) \<in> set gens" "d \<in> set (gn_depends_on g)"
      by (auto simp: generator_edges_def)
    from n obtain g' where "(n, g') \<in> set gens" "set (gn_depends_on g') \<subseteq> set complete"
      by (auto simp: ready_generators_iff)
    then have "d \<in> set complete" using g wf by (auto dest: eq_key_imp_eq_value)
    then show "d \<in> Wellfounded.acc (generator_edges gens)"
      using ok by (simp add: completed_ok_def)
  qed
  moreover have "set (ready_generators gens complete) \<subseteq> fst ` set gens"
    by (auto simp: ready_generators_def)
  ultimately show ?thesis
    using ok distinct_fold_bs_insert unfolding completed_ok_def set_fold_bs_insert by blast
qed

lemma complete_generators_acc:
  assumes "completed_ok gens complete" "distinct (map fst gens)"
    "complete_generators gens complete = Inr u" "n \<in> fst ` set gens"
  shows "n \<in> Wellfounded.acc (generator_edges gens)"
  using assms
proof (induction gens complete rule: complete_generators.induct)
  case (1 gens complete)
  show ?case
  proof (cases "length complete < length gens")
    case True
    then show ?thesis using 1 completed_ok_step
      by (subst (asm) (2) complete_generators.simps) (auto split: if_splits)
  next
    case False
    have "card (fst ` set gens) = length gens"
      using distinct_card [OF "1.prems"(2)] by simp
    moreover have "card (set complete) = length complete"
      using "1.prems"(1) by (simp add: completed_ok_def distinct_card)
    ultimately have "set complete = fst ` set gens"
      using False "1.prems"(1)
      by (intro card_seteq) (auto simp: completed_ok_def)
    then show ?thesis using "1.prems"(1,4) unfolding completed_ok_def by blast
  qed
qed

lemma acyclic_ready:
  assumes "acyclic (generator_edges gens)"
    and closed: "\<And>n g. (n, g) \<in> set gens \<Longrightarrow> set (gn_depends_on g) \<subseteq> fst ` set gens"
    and open_name: "length complete < length gens" "completed_ok gens complete" "distinct (map fst gens)"
  shows "ready_generators gens complete \<noteq> []"
proof -
  let ?open = "fst ` set gens - set complete"
  have wf: "wf (generator_edges gens)"
    by (rule finite_acyclic_wf [OF finite_generator_edges assms(1)])
  have "?open \<noteq> {}"
  proof
    assume "?open = {}"
    then have "card (fst ` set gens) \<le> card (set complete)" by (intro card_mono) auto
    then show False
      using open_name distinct_card [OF open_name(3)] distinct_card [of complete]
      by (simp add: completed_ok_def)
  qed
  then obtain x where x: "x \<in> ?open" by blast
  obtain n where n: "n \<in> ?open" and least: "\<And>d. (d, n) \<in> generator_edges gens \<Longrightarrow> d \<notin> ?open"
    by (rule wfE_min [OF wf x]) blast
  from n obtain g where g: "(n, g) \<in> set gens" by auto
  have "set (gn_depends_on g) \<subseteq> set complete"
  proof
    fix d assume d: "d \<in> set (gn_depends_on g)"
    then have "d \<notin> ?open" using g by (intro least) (auto simp: generator_edges_def)
    then show "d \<in> set complete" using closed [OF g] d by auto
  qed
  then have "n \<in> set (ready_generators gens complete)" using n g by (auto simp: ready_generators_iff)
  then show ?thesis by auto
qed

lemma complete_generators_succeeds:
  assumes "acyclic (generator_edges gens)"
    and "\<And>n g. (n, g) \<in> set gens \<Longrightarrow> set (gn_depends_on g) \<subseteq> fst ` set gens"
    and "completed_ok gens complete" "distinct (map fst gens)"
  shows "complete_generators gens complete = Inr ()"
  using assms
proof (induction gens complete rule: complete_generators.induct)
  case (1 gens complete)
  show ?case
  proof (cases "length complete < length gens")
    case True
    then have ready: "ready_generators gens complete \<noteq> []"
      using acyclic_ready "1.prems" by blast
    have "complete_generators gens (fold bs_insert (ready_generators gens complete) complete) = Inr ()"
      using "1.IH" [OF True ready] "1.prems" completed_ok_step by blast
    then show ?thesis using True ready by (simp add: complete_generators.simps [of gens complete])
  qed (simp add: complete_generators.simps [of gens complete])
qed

lemma validate_generator_dependencies:
  assumes "is_ok (validate_generator gens (n, g))"
  shows "set (gn_depends_on g) \<subseteq> fst ` set gens"
  using assms by (auto simp: validate_generator_def check_generator_dependency_def bt_contains_iff bt_keys_def)

lemma completed_ok_Nil: "completed_ok gens []"
  by (simp add: completed_ok_def)

text \<open>
  C25: the generators of a manifest pass the validation exactly when each of
  them passes its own checks and their dependencies have no cycle. In particular the layered
  loop always ends, and its cycle message is given only for cycles.
\<close>
theorem generators_valid_iff:
  assumes "bt_wf gens"
  shows "validate_generators gens = Inr () \<longleftrightarrow>
           (\<forall>(name, gen) \<in> set gens. validate_generator gens (name, gen) = Inr ()) \<and>
           acyclic {(dep, name). \<exists>gen. (name, gen) \<in> set gens \<and> dep \<in> set (gn_depends_on gen)}"
proof -
  have dist: "distinct (map fst gens)"
    using assms by (simp add: bt_wf_def bt_keys_def strict_sorted_iff)
  have "acyclic (generator_edges gens)" if "complete_generators gens [] = Inr ()"
  proof -
    have "n \<in> Wellfounded.acc (generator_edges gens)" for n
    proof (cases "n \<in> fst ` set gens")
      case True
      then show ?thesis by (rule complete_generators_acc [OF completed_ok_Nil dist that])
    next
      case False
      then have "(d, n) \<notin> generator_edges gens" for d
        by (auto simp: generator_edges_def image_iff)
      then show ?thesis by (blast intro: accI)
    qed
    then have "wf (generator_edges gens)" unfolding wf_iff_acc by blast
    then show ?thesis by (rule wf_acyclic)
  qed
  moreover have "complete_generators gens [] = Inr ()"
    if "acyclic (generator_edges gens)" "\<forall>ng \<in> set gens. is_ok (validate_generator gens ng)"
    using that(1)
  proof (rule complete_generators_succeeds [OF _ _ completed_ok_Nil dist])
    show "set (gn_depends_on g) \<subseteq> fst ` set gens" if "(n, g) \<in> set gens" for n g
      using that \<open>\<forall>ng \<in> set gens. _\<close> by (intro validate_generator_dependencies) blast
  qed
  moreover have "validate_generators gens = Inr () \<longleftrightarrow>
      (\<forall>ng \<in> set gens. is_ok (validate_generator gens ng)) \<and> complete_generators gens [] = Inr ()"
    by (simp add: validate_generators_def and_then_Inr_iff check_all_Inr_iff)
  moreover have "(\<forall>(name, gen) \<in> set gens. validate_generator gens (name, gen) = Inr ()) \<longleftrightarrow>
      (\<forall>ng \<in> set gens. is_ok (validate_generator gens ng))"
    unfolding unit_ok by simp
  ultimately show ?thesis unfolding generator_edges_def [symmetric] by blast
qed

definition sample_generator :: "str list \<Rightarrow> generator" where
  "sample_generator deps =
     default_generator\<lparr>gn_command := [''tool'', ''${output.java}''], gn_depends_on := deps,
       gn_outputs := [(''java'', \<lparr>go_kind = JavaSources, go_source_set = MainSet\<rparr>)]\<rparr>"

definition sample_generators :: "(str, generator) btree_map" where
  "sample_generators = [(''a'', sample_generator []), (''b'', sample_generator [''a''])]"

theorem generators_valid_iff_witness:
  "validate_generators sample_generators = Inr () \<longleftrightarrow>
     (\<forall>(name, gen) \<in> set sample_generators. validate_generator sample_generators (name, gen) = Inr ()) \<and>
     acyclic {(dep, name). \<exists>gen. (name, gen) \<in> set sample_generators \<and> dep \<in> set (gn_depends_on gen)}"
  by (rule generators_valid_iff) code_simp

lemma generator_input_inside: "generator_input_ok i \<Longrightarrow> stays_inside (path_of i)"
  by (auto simp: generator_input_ok_def stays_inside_def list_ex_iff)

lemma not_leaves_directory: "\<not> leaves_directory p \<longleftrightarrow> stays_inside p"
  by (simp add: leaves_directory_def stays_inside_def)

lemma check_suppressions_ok:
  "is_ok (check_suppressions ids ss) \<Longrightarrow>
     distinct (map su_id ss) \<and> set ids \<inter> su_id ` set ss = {} \<and>
     (\<forall>s \<in> set ss. is_iso_date (su_expires s))"
  by (induction ids ss rule: check_suppressions.induct) auto

lemma validate_generator_inside:
  assumes "is_ok (validate_generator gens (n, g))"
  shows "\<forall>p \<in> set_option (gn_working_directory g). stays_inside p"
    and "\<forall>i \<in> set (gn_inputs g). stays_inside (path_of i)"
    and "\<forall>v \<in> set (bt_keys (gn_environment g)) \<union> set (gn_inherit_environment g).
           v \<notin> set reserved_variables"
  using assms
  by (auto simp: validate_generator_def is_some_and_iff not_leaves_directory
      check_generator_variable_def check_all_Inr_iff intro: generator_input_inside)

lemma validate_scripts_ok:
  assumes "is_ok (validate_scripts scripts)" "(n, Structured s) \<in> set scripts"
  shows "\<forall>p \<in> set_option (sd_working_directory s). stays_inside p"
    and "\<forall>t \<in> set (sd_steps s). bt_contains scripts t"
proof -
  have "is_ok (check_script (n, Structured s))" "is_ok (check_steps scripts (n, Structured s))"
    using assms by (auto simp: validate_scripts_def check_all_Inr_iff)
  then show "\<forall>p \<in> set_option (sd_working_directory s). stays_inside p"
    and "\<forall>t \<in> set (sd_steps s). bt_contains scripts t"
    by (auto simp: check_script_def check_steps_def is_some_and_iff not_leaves_directory)
qed

lemma manifest_validate_parts:
  assumes "manifest_validate m = Inr ()"
  shows "mf_toolchain m = Some t \<Longrightarrow> is_ok (check_toolchain (mf_project m) t)"
    and "\<forall>d \<in> set (all_dependencies (mf_dependencies m)). is_ok (check_dependency d)"
    and "mf_audit m = Some a \<Longrightarrow> is_ok (validate_audit a)"
    and "mf_build m = Some b \<Longrightarrow> is_ok (validate_generators (bd_generators b))"
    and "is_ok (validate_scripts (mf_scripts m))"
  using assms by (auto simp: manifest_validate_def checks_Inr_iff)

text \<open>
  C24: a manifest that passes the validation keeps every working directory
  of a generator or script and every generator input below the directory it is joined to, does
  not touch the environment variables jman sets itself, defines every step a script names,
  depends on workspace modules by relative paths only, suppresses an advisory at most once, and
  selects a JDK that is at least as new as the Java release of the project.
\<close>
theorem validated_manifest_safe:
  assumes "manifest_validate m = Inr ()"
  shows "(mf_build m = Some b \<longrightarrow> (\<forall>(n, g) \<in> set (bd_generators b).
            (\<forall>p \<in> set_option (gn_working_directory g) \<union> path_of ` set (gn_inputs g).
               path_starts_with (path_join root p) root \<and> ParentDir \<notin> set p) \<and>
            (\<forall>v \<in> set (bt_keys (gn_environment g)) \<union> set (gn_inherit_environment g).
               v \<notin> set reserved_variables))) \<and>
         (\<forall>(n, sc) \<in> set (mf_scripts m). \<forall>s. sc = Structured s \<longrightarrow>
            (\<forall>p \<in> set_option (sd_working_directory s).
               path_starts_with (path_join root p) root \<and> ParentDir \<notin> set p) \<and>
            (\<forall>t \<in> set (sd_steps s). bt_contains (mf_scripts m) t)) \<and>
         (\<forall>(coord, dep) \<in> set (all_dependencies (mf_dependencies m)).
            \<forall>p. dependency_spec_path dep = Some p \<longrightarrow> \<not> is_absolute (path_of p)) \<and>
         (mf_audit m = Some a \<longrightarrow> distinct (map su_id (au_suppressions a))) \<and>
         (mf_toolchain m = Some t \<longrightarrow>
            (\<exists>major. java_feature_version (tc_jdk t) = Some major \<and>
               pj_java_release (mf_project m) \<le> major))"
proof (intro conjI impI)
  have inside: "path_starts_with (path_join root p) root \<and> ParentDir \<notin> set p" if "stays_inside p" for p
    using that join_stays_inside by (simp add: stays_inside_def)
  show "\<forall>(n, g) \<in> set (bd_generators b).
            (\<forall>p \<in> set_option (gn_working_directory g) \<union> path_of ` set (gn_inputs g).
               path_starts_with (path_join root p) root \<and> ParentDir \<notin> set p) \<and>
            (\<forall>v \<in> set (bt_keys (gn_environment g)) \<union> set (gn_inherit_environment g).
               v \<notin> set reserved_variables)" if "mf_build m = Some b"
  proof -
    have "is_ok (validate_generator (bd_generators b) (n, g))" if "(n, g) \<in> set (bd_generators b)" for n g
      using manifest_validate_parts(4) [OF assms \<open>mf_build m = Some b\<close>] that
      by (simp add: validate_generators_def check_all_Inr_iff)
    then show ?thesis using validate_generator_inside inside by blast
  qed
  show "\<forall>(n, sc) \<in> set (mf_scripts m). \<forall>s. sc = Structured s \<longrightarrow>
            (\<forall>p \<in> set_option (sd_working_directory s).
               path_starts_with (path_join root p) root \<and> ParentDir \<notin> set p) \<and>
            (\<forall>t \<in> set (sd_steps s). bt_contains (mf_scripts m) t)"
    using validate_scripts_ok [OF manifest_validate_parts(5) [OF assms]] inside by blast
  show "\<forall>(coord, dep) \<in> set (all_dependencies (mf_dependencies m)).
            \<forall>p. dependency_spec_path dep = Some p \<longrightarrow> \<not> is_absolute (path_of p)"
    using manifest_validate_parts(2) [OF assms]
    by (fastforce simp: check_dependency_def dependency_spec_path_def split: dependency_spec.splits)
  show "distinct (map su_id (au_suppressions a))" if "mf_audit m = Some a"
    using manifest_validate_parts(3) [OF assms that] check_suppressions_ok
    by (auto simp: validate_audit_def)
  show "\<exists>major. java_feature_version (tc_jdk t) = Some major \<and> pj_java_release (mf_project m) \<le> major"
    if "mf_toolchain m = Some t"
    using manifest_validate_parts(1) [OF assms that]
    by (auto simp: check_toolchain_def not_less split: option.splits)
qed

definition sample_manifest :: manifest where
  "sample_manifest =
     \<lparr>mf_manifest_version = 1,
      mf_project = \<lparr>pj_group = ''org.example'', pj_name = ''app'', pj_version = ''1'',
        pj_java_release = 17, pj_packaging = ''jar'', pj_modules = [], pj_main_class = None\<rparr>,
      mf_toolchain = Some \<lparr>tc_jdk = ''21.0.2'', tc_vendor = ''temurin''\<rparr>, mf_maven = None,
      mf_build = Some (default_build\<lparr>bd_generators := sample_generators\<rparr>), mf_test = None,
      mf_publishing = None,
      mf_audit = Some \<lparr>au_suppressions =
        [\<lparr>su_id = ''A'', su_reason = ''r'', su_expires = ''2030-02-28''\<rparr>]\<rparr>,
      mf_scripts = [(''all'', Structured \<lparr>sd_description = None, sd_command = [],
        sd_steps = [''b''], sd_working_directory = Some [Normal ''x''], sd_environment = []\<rparr>),
        (''b'', Shell ''make'')],
      mf_repositories = [],
      mf_dependencies = \<lparr>dp_compile = [(''g:a'', PathSpec ''../lib'')], dp_runtime = [],
        dp_provided = [], dp_test = []\<rparr>,
      mf_annotation_processors = []\<rparr>"

lemma sample_manifest_valid: "manifest_validate sample_manifest = Inr ()"
  by code_simp

theorem validated_manifest_safe_witness:
  "\<exists>major. java_feature_version ''21.0.2'' = Some major \<and>
     pj_java_release (mf_project sample_manifest) \<le> major"
  using validated_manifest_safe [OF sample_manifest_valid, of default_build "[]" "\<lparr>au_suppressions = []\<rparr>"
      "\<lparr>tc_jdk = ''21.0.2'', tc_vendor = ''temurin''\<rparr>"]
  by (simp add: sample_manifest_def)

text \<open>A codec for concrete inputs, to be filled in.\<close>

definition no_toml :: toml_codec where
  "no_toml = \<lparr>decode_probe = \<lambda>_. Inl [], decode_manifest = \<lambda>_. Inl [], decode_toolchain = \<lambda>_. Inl [],
     decode_lockfile = \<lambda>_. Inl [], encode_manifest = \<lambda>_. Inl [], encode_toolchain = \<lambda>_. Inl [],
     encode_lockfile = \<lambda>_. Inl [], parse_document = \<lambda>_. Inl [], print_document = \<lambda>_. []\<rparr>"

end
