(* ===== verification/Java_Selection.thy ===== *)
theory Java_Selection
  imports Config_Validate
begin

text \<open>
  The choice of a Java version for a directory (\<open>find_java_selection\<close> of
  \<open>crates/jman-config/src/lib.rs\<close>): \<open>jman.toml\<close> before \<open>.sdkmanrc\<close> before \<open>.java-version\<close>, and
  within one format the nearest ancestor; with the normalisation of the names that SDKMAN and
  jenv use.
\<close>

section \<open>Definitions\<close>

datatype java_selection_source = JmanProject | JmanDirectory | Sdkmanrc | JavaVersion

definition source_label :: "java_selection_source \<Rightarrow> str" where
  "source_label s =
     (case s of JmanProject \<Rightarrow> ''JMAN project'' | JmanDirectory \<Rightarrow> ''JMAN directory''
      | Sdkmanrc \<Rightarrow> ''.sdkmanrc'' | JavaVersion \<Rightarrow> ''.java-version'')"

record java_selection =
  js_path :: path
  js_version :: str
  js_vendor :: "str option"
  js_source :: java_selection_source

definition java_selection_error :: "path \<Rightarrow> str \<Rightarrow> config_error" where
  "java_selection_error p message = JavaSelectionError p message"

definition sdkman_line :: "str \<Rightarrow> str option" where
  "sdkman_line text_line =
     (let l = trim text_line
      in if l = [] \<or> starts_with ''#'' l then None
         else (case split_once (CHR ''='') l of
                 None \<Rightarrow> None
               | Some (key, value) \<Rightarrow> if trim key = ''java'' then Some (trim value) else None))"

fun find_map :: "('a \<Rightarrow> 'b option) \<Rightarrow> 'a list \<Rightarrow> 'b option" where
  "find_map f [] = None"
| "find_map f (x # xs) = (case f x of Some y \<Rightarrow> Some y | None \<Rightarrow> find_map f xs)"

definition sdkman_java_value :: "str \<Rightarrow> str option" where
  "sdkman_java_value contents = find_map sdkman_line (rev (str_lines contents))"

definition selection_token :: "str \<Rightarrow> path \<Rightarrow> str configured" where
  "selection_token value p =
     (let v = trim value
      in if v = [] then Inl (java_selection_error p ''the Java version is empty'')
         else if length (split_whitespace v) \<noteq> 1
         then Inl (java_selection_error p ''the Java version must be one token'')
         else Inr v)"

definition normalize_compatibility_version :: "str \<Rightarrow> str" where
  "normalize_compatibility_version version =
     (case strip_prefix ''1.'' version of
        None \<Rightarrow> version
      | Some legacy \<Rightarrow>
          let major = takeWhile is_digit legacy;
              suffix = dropWhile is_digit legacy
          in if major = [] then version
             else if suffix = [] then major
             else (case (case strip_prefix ''.0_'' suffix of
                           Some update \<Rightarrow> Some update | None \<Rightarrow> strip_prefix ''.0.'' suffix) of
                     None \<Rightarrow> major
                   | Some update \<Rightarrow> major @ ''u'' @ update))"

definition validate_compatibility_version :: "str \<Rightarrow> path \<Rightarrow> unit configured" where
  "validate_compatibility_version version p =
     ensure (java_feature_version version \<noteq> None)
       (java_selection_error p (''unsupported Java version '' @ ticked version))"

definition canonical_vendor :: "str \<Rightarrow> str" where
  "canonical_vendor vendor = replace_all ''_'' ''-'' (lowercase (trim vendor))"

text \<open>The names of each distribution, in the order of the source's patterns.\<close>

definition vendor_names :: "(str list \<times> str) list" where
  "vendor_names =
     [([''adopt'', ''adoptopenjdk'', ''adpt'', ''tem'', ''temurin'', ''temurin64''], ''temurin''),
      ([''amazon'', ''amzn'', ''cor'', ''corretto'', ''corretto64''], ''corretto''),
      ([''graalce'', ''graalvm-community''], ''graalvm-community''),
      ([''graal'', ''graalvm'', ''graalvm64''], ''graalvm''),
      ([''lib'', ''liberica'', ''librca''], ''liberica''),
      ([''ms'', ''microsoft''], ''microsoft''),
      ([''open'', ''openjdk'', ''openjdk64'', ''oracle-open-jdk''], ''openjdk''),
      ([''oracle'', ''oracle64''], ''oracle''),
      ([''sap'', ''sap-machine'', ''sapmachine'', ''sapmchn''], ''sapmachine''),
      ([''sem'', ''semeru''], ''semeru''),
      ([''kona''], ''kona''),
      ([''nik''], ''nik''),
      ([''zulu'', ''zulu64''], ''zulu'')]"

definition normalize_compatibility_vendor :: "str \<Rightarrow> str option" where
  "normalize_compatibility_vendor vendor =
     find_map (\<lambda>(names, normalized). if canonical_vendor vendor \<in> set names
                                     then Some normalized else None) vendor_names"

definition validate_compatibility_vendor :: "str \<Rightarrow> path \<Rightarrow> unit configured" where
  "validate_compatibility_vendor vendor p =
     ensure (vendor_identifier vendor)
       (java_selection_error p (''unsupported Java distribution '' @ ticked vendor))"

definition parse_sdkman_java :: "str \<Rightarrow> path \<Rightarrow> (str \<times> str) configured" where
  "parse_sdkman_java raw p =
     and_then (selection_token raw p) (\<lambda>value.
     case rsplit_once (CHR ''-'') value of
       None \<Rightarrow> Inl (java_selection_error p
         ''SDKMAN Java candidates must include a distribution suffix, such as `21.0.8-tem`'')
     | Some (raw_version, raw_vendor) \<Rightarrow>
         (let version = normalize_compatibility_version raw_version;
              vendor = (case normalize_compatibility_vendor raw_vendor of
                          Some v \<Rightarrow> v | None \<Rightarrow> canonical_vendor raw_vendor)
          in and_then (validate_compatibility_version version p) (\<lambda>_.
             and_then (validate_compatibility_vendor vendor p) (\<lambda>_.
             Inr (version, vendor)))))"

definition jenv_parts :: "str \<Rightarrow> str \<times> str option" where
  "jenv_parts value =
     (let front = (case split_once (CHR ''-'') value of
                     None \<Rightarrow> None
                   | Some (before, remainder) \<Rightarrow>
                       map_option (\<lambda>v. (remainder, v)) (normalize_compatibility_vendor before));
          back = (case rsplit_once (CHR ''-'') value of
                    None \<Rightarrow> None
                  | Some (remainder, after) \<Rightarrow>
                      map_option (\<lambda>v. (remainder, v)) (normalize_compatibility_vendor after))
      in case front of
           Some (version, v) \<Rightarrow> (version, Some v)
         | None \<Rightarrow> (case back of Some (version, v) \<Rightarrow> (version, Some v) | None \<Rightarrow> (value, None)))"

definition parse_jenv_java :: "str \<Rightarrow> path \<Rightarrow> (str \<times> str option) configured" where
  "parse_jenv_java raw p =
     and_then (selection_token raw p) (\<lambda>value.
       let (raw_version, vendor) = jenv_parts value;
           version = normalize_compatibility_version raw_version
       in and_then (validate_compatibility_version version p) (\<lambda>_. Inr (version, vendor)))"

text \<open>
  The three searches walk through the ancestors of the directory; an ancestor whose file makes
  no choice is passed over, an unreadable or invalid file ends the search with its error.
\<close>

fun search_ancestors :: "(path \<Rightarrow> java_selection option configured) \<Rightarrow> path list \<Rightarrow>
    java_selection option configured" where
  "search_ancestors f [] = Inr None"
| "search_ancestors f (a # rest) =
     (case f a of Inl e \<Rightarrow> Inl e | Inr (Some s) \<Rightarrow> Inr (Some s)
      | Inr None \<Rightarrow> search_ancestors f rest)"

definition jman_selection :: "toml_codec \<Rightarrow> disk \<Rightarrow> path \<Rightarrow> java_selection option configured" where
  "jman_selection codec d ancestor =
     (let p = path_join ancestor (path_of ''jman.toml'')
      in if \<not> is_file d p then Inr None
         else and_then (manifest_file_read codec d p) (\<lambda>document.
           case manifest_file_toolchain document of
             None \<Rightarrow> Inr None
           | Some tc \<Rightarrow>
               Inr (Some \<lparr>js_path = p, js_version = tc_jdk tc, js_vendor = Some (tc_vendor tc),
                          js_source = (if is_project document then JmanProject
                                       else JmanDirectory)\<rparr>)))"

definition sdkman_selection :: "disk \<Rightarrow> path \<Rightarrow> java_selection option configured" where
  "sdkman_selection d ancestor =
     (let p = path_join ancestor (path_of ''.sdkmanrc'')
      in if \<not> is_file d p then Inr None
         else and_then (read_to_string d p) (\<lambda>contents.
           case sdkman_java_value contents of
             None \<Rightarrow> Inr None
           | Some value \<Rightarrow>
               and_then (parse_sdkman_java value p) (\<lambda>(version, vendor).
               Inr (Some \<lparr>js_path = p, js_version = version, js_vendor = Some vendor,
                          js_source = Sdkmanrc\<rparr>))))"

definition java_version_line :: "str \<Rightarrow> str option" where
  "java_version_line contents =
     List.find (\<lambda>l. l \<noteq> [] \<and> \<not> starts_with ''#'' l) (map trim (str_lines contents))"

definition java_version_selection :: "disk \<Rightarrow> path \<Rightarrow> java_selection option configured" where
  "java_version_selection d ancestor =
     (let p = path_join ancestor (path_of ''.java-version'')
      in if \<not> is_file d p then Inr None
         else and_then (read_to_string d p) (\<lambda>contents.
           and_then (ok_or (java_selection_error p ''the file is empty'')
             (java_version_line contents)) (\<lambda>value.
           and_then (parse_jenv_java value p) (\<lambda>(version, vendor).
           Inr (Some \<lparr>js_path = p, js_version = version, js_vendor = vendor,
                      js_source = JavaVersion\<rparr>)))))"

definition find_java_selection :: "toml_codec \<Rightarrow> disk \<Rightarrow> path \<Rightarrow> java_selection option configured" where
  "find_java_selection codec d directory =
     (case search_ancestors (jman_selection codec d) (path_ancestors directory) of
        Inl e \<Rightarrow> Inl e
      | Inr (Some s) \<Rightarrow> Inr (Some s)
      | Inr None \<Rightarrow>
          (case search_ancestors (sdkman_selection d) (path_ancestors directory) of
             Inl e \<Rightarrow> Inl e
           | Inr (Some s) \<Rightarrow> Inr (Some s)
           | Inr None \<Rightarrow> search_ancestors (java_version_selection d) (path_ancestors directory)))"

section \<open>Lemmas\<close>

text \<open>The first ancestor that makes a choice, all nearer ones making none.\<close>

definition nearest ::
    "(path \<Rightarrow> java_selection option configured) \<Rightarrow> path list \<Rightarrow> java_selection \<Rightarrow> bool" where
  "nearest f ancestors s \<longleftrightarrow>
     (\<exists>near a far. ancestors = near @ a # far \<and> f a = Inr (Some s) \<and> (\<forall>b \<in> set near. f b = Inr None))"

lemma nearest_Cons:
  "nearest f (a # as) s \<longleftrightarrow> f a = Inr (Some s) \<or> (f a = Inr None \<and> nearest f as s)"
proof
  assume "nearest f (a # as) s"
  then obtain near b far where *: "a # as = near @ b # far" "f b = Inr (Some s)"
    "\<forall>b \<in> set near. f b = Inr None" by (auto simp: nearest_def)
  then show "f a = Inr (Some s) \<or> (f a = Inr None \<and> nearest f as s)"
    by (cases near) (auto simp: nearest_def)
next
  assume "f a = Inr (Some s) \<or> (f a = Inr None \<and> nearest f as s)"
  then show "nearest f (a # as) s"
  proof
    assume "f a = Inr (Some s)"
    then have "a # as = [] @ a # as \<and> f a = Inr (Some s) \<and> (\<forall>b \<in> set []. f b = Inr None)" by simp
    then show ?thesis unfolding nearest_def by blast
  next
    assume a: "f a = Inr None \<and> nearest f as s"
    then obtain near b far where "as = near @ b # far" "f b = Inr (Some s)"
      "\<forall>b \<in> set near. f b = Inr None" by (auto simp: nearest_def)
    then have "a # as = (a # near) @ b # far \<and> f b = Inr (Some s) \<and> (\<forall>b \<in> set (a # near). f b = Inr None)"
      using a by simp
    then show ?thesis unfolding nearest_def by blast
  qed
qed

lemma search_ancestors_Some: "search_ancestors f as = Inr (Some s) \<longleftrightarrow> nearest f as s"
  by (induction as) (auto simp: nearest_Cons nearest_def [of f "[]"] split: sum.splits option.splits)

lemma search_ancestors_None: "search_ancestors f as = Inr None \<longleftrightarrow> (\<forall>a \<in> set as. f a = Inr None)"
  by (induction as) (auto split: sum.splits option.splits)

lemma nearest_in: "nearest f as s \<Longrightarrow> \<exists>a \<in> set as. f a = Inr (Some s)"
  by (auto simp: nearest_def)

lemma find_map_Some: "find_map f xs = Some y \<Longrightarrow> \<exists>x \<in> set xs. f x = Some y"
  by (induction xs) (auto split: option.splits)

lemma vendor_names_identifiers: "list_all (\<lambda>(names, v). vendor_identifier v) vendor_names"
  by code_simp

lemma vendor_names_fixed:
  "list_all (\<lambda>(names, v). normalize_compatibility_vendor v = Some v) vendor_names"
  by code_simp

lemma normalized_vendor:
  assumes "normalize_compatibility_vendor vendor = Some v"
  shows "vendor_identifier v" "normalize_compatibility_vendor v = Some v"
proof -
  from assms obtain names where "(names, v) \<in> set vendor_names"
    by (auto simp: normalize_compatibility_vendor_def dest!: find_map_Some split: if_splits)
  then show "vendor_identifier v" "normalize_compatibility_vendor v = Some v"
    using vendor_names_identifiers vendor_names_fixed unfolding list_all_iff by blast+
qed

lemma parse_sdkman_java_ok:
  assumes "parse_sdkman_java raw p = Inr (version, vendor)"
  shows "java_feature_version version \<noteq> None \<and> vendor_identifier vendor"
  using assms
  by (auto simp: parse_sdkman_java_def and_then_Inr_iff validate_compatibility_version_def
      validate_compatibility_vendor_def Let_def split: option.splits prod.splits)

lemma jenv_parts_vendor: "snd (jenv_parts value) = Some v \<Longrightarrow> vendor_identifier v"
  by (auto simp: jenv_parts_def Let_def dest: normalized_vendor(1) split: option.splits prod.splits)

lemma parse_jenv_java_ok:
  assumes "parse_jenv_java raw p = Inr (version, vendor)"
  shows "java_feature_version version \<noteq> None \<and> (\<forall>v. vendor = Some v \<longrightarrow> vendor_identifier v)"
proof -
  from assms obtain token where "java_feature_version version \<noteq> None" "vendor = snd (jenv_parts token)"
    by (auto simp: parse_jenv_java_def and_then_Inr_iff validate_compatibility_version_def Let_def
        case_prod_beta)
  then show ?thesis using jenv_parts_vendor by simp
qed

lemma manifest_file_read_toolchain:
  assumes "manifest_file_read codec d p = Inr f" "manifest_file_toolchain f = Some t"
  shows "java_feature_version (tc_jdk t) \<noteq> None \<and> vendor_identifier (tc_vendor t)"
proof (cases f)
  case (ToolchainFile m)
  then show ?thesis using assms
    by (auto simp: manifest_file_read_def and_then_Inr_iff manifest_file_toolchain_def
        toolchain_manifest_validate_def checks_Inr_iff validate_jdk_vendor_def split: if_splits)
next
  case (ProjectFile m)
  then have "manifest_validate m = Inr ()"
    using assms by (auto simp: manifest_file_read_def and_then_Inr_iff split: if_splits)
  then have "is_ok (check_toolchain (mf_project m) t)"
    by (rule manifest_validate_parts(1)) (use assms ProjectFile in \<open>simp add: manifest_file_toolchain_def\<close>)
  then show ?thesis
    by (auto simp: check_toolchain_def validate_jdk_vendor_def split: option.splits)
qed

definition selection_ok :: "disk \<Rightarrow> path \<Rightarrow> java_selection \<Rightarrow> bool" where
  "selection_ok d a s \<longleftrightarrow>
     path_parent (js_path s) = Some a \<and> is_file d (js_path s) \<and>
     java_feature_version (js_version s) \<noteq> None \<and> (\<forall>v. js_vendor s = Some v \<longrightarrow> vendor_identifier v)"

lemma path_parent_join: "path_parent (path_join a [Normal n]) = Some a"
  by (simp add: path_join_def path_parent_def is_absolute_def)

lemma path_of_names:
  "path_of ''jman.toml'' = [Normal ''jman.toml'']" "path_of ''.sdkmanrc'' = [Normal ''.sdkmanrc'']"
  "path_of ''.java-version'' = [Normal ''.java-version'']"
  by code_simp+

lemma jman_selection_ok:
  assumes "jman_selection codec d a = Inr (Some s)"
  shows "selection_ok d a s \<and> js_source s \<in> {JmanProject, JmanDirectory}"
  using assms manifest_file_read_toolchain
  by (fastforce simp: jman_selection_def selection_ok_def Let_def and_then_Inr_iff path_of_names
      path_parent_join split: if_splits option.splits)

lemma sdkman_selection_ok:
  assumes "sdkman_selection d a = Inr (Some s)"
  shows "selection_ok d a s \<and> js_source s = Sdkmanrc"
  using assms parse_sdkman_java_ok
  by (fastforce simp: sdkman_selection_def selection_ok_def Let_def and_then_Inr_iff path_of_names
      path_parent_join split: if_splits option.splits)

lemma java_version_selection_ok:
  assumes "java_version_selection d a = Inr (Some s)"
  shows "selection_ok d a s \<and> js_source s = JavaVersion"
  using assms parse_jenv_java_ok
  by (fastforce simp: java_version_selection_def selection_ok_def Let_def and_then_Inr_iff path_of_names
      path_parent_join split: if_splits)

lemma find_java_selection_Some:
  "find_java_selection codec d dir = Inr (Some s) \<longleftrightarrow>
     (let as = path_ancestors dir;
          j = jman_selection codec d; k = sdkman_selection d; v = java_version_selection d
      in nearest j as s \<or>
         (\<forall>a \<in> set as. j a = Inr None) \<and>
           (nearest k as s \<or> (\<forall>a \<in> set as. k a = Inr None) \<and> nearest v as s))"
  unfolding find_java_selection_def Let_def search_ancestors_Some [symmetric]
    search_ancestors_None [symmetric]
  by (auto split: sum.splits option.splits)

text \<open>
  C34: a Java selection comes from a file in an ancestor of the directory,
  names a version with a feature number and a well-formed vendor, and follows the precedence of
  the formats: it is the nearest choice of a \<open>jman.toml\<close>, or no \<open>jman.toml\<close> above chooses and it
  is the nearest choice of a \<open>.sdkmanrc\<close>, or neither chooses and it is that of the nearest
  \<open>.java-version\<close>.
\<close>
theorem selected_java_precedence:
  assumes "find_java_selection codec d dir = Inr (Some s)"
  shows "(\<exists>a \<in> set (path_ancestors dir). path_parent (js_path s) = Some a) \<and>
         is_file d (js_path s) \<and> java_feature_version (js_version s) \<noteq> None \<and>
         (\<forall>v. js_vendor s = Some v \<longrightarrow> vendor_identifier v) \<and>
         (case js_source s of
            Sdkmanrc \<Rightarrow>
              (\<forall>a \<in> set (path_ancestors dir). jman_selection codec d a = Inr None) \<and>
              nearest (sdkman_selection d) (path_ancestors dir) s
          | JavaVersion \<Rightarrow>
              (\<forall>a \<in> set (path_ancestors dir).
                 jman_selection codec d a = Inr None \<and> sdkman_selection d a = Inr None) \<and>
              nearest (java_version_selection d) (path_ancestors dir) s
          | _ \<Rightarrow> nearest (jman_selection codec d) (path_ancestors dir) s)"
proof -
  let ?as = "path_ancestors dir"
  consider
    (jman) "nearest (jman_selection codec d) ?as s"
  | (sdkman) "\<forall>a \<in> set ?as. jman_selection codec d a = Inr None" "nearest (sdkman_selection d) ?as s"
  | (version) "\<forall>a \<in> set ?as. jman_selection codec d a = Inr None"
      "\<forall>a \<in> set ?as. sdkman_selection d a = Inr None" "nearest (java_version_selection d) ?as s"
    using assms unfolding find_java_selection_Some Let_def by blast
  then show ?thesis
  proof cases
    case jman
    then show ?thesis
      using nearest_in [OF jman] jman_selection_ok by (fastforce simp: selection_ok_def)
  next
    case sdkman
    then show ?thesis
      using nearest_in [OF sdkman(2)] sdkman_selection_ok by (fastforce simp: selection_ok_def)
  next
    case version
    then show ?thesis
      using nearest_in [OF version(3)] java_version_selection_ok by (fastforce simp: selection_ok_def)
  qed
qed

definition sample_tree :: disk where
  "sample_tree = [[RootDir, Normal ''.sdkmanrc''] \<mapsto> Bytes ''java=8.0.292-amzn'',
     [RootDir, Normal ''p'', Normal ''.java-version''] \<mapsto> Bytes ''temurin-17'']"

lemma sample_tree_selection:
  "find_java_selection no_toml sample_tree [RootDir, Normal ''p''] =
     Inr (Some \<lparr>js_path = [RootDir, Normal ''.sdkmanrc''], js_version = ''8.0.292'',
                js_vendor = Some ''corretto'', js_source = Sdkmanrc\<rparr>)"
  by code_simp

theorem selected_java_precedence_witness:
  "nearest (sdkman_selection sample_tree) (path_ancestors [RootDir, Normal ''p''])
     \<lparr>js_path = [RootDir, Normal ''.sdkmanrc''], js_version = ''8.0.292'',
      js_vendor = Some ''corretto'', js_source = Sdkmanrc\<rparr>"
  using selected_java_precedence [OF sample_tree_selection] by simp

end
