(* ===== verification/Build_Version.thy ===== *)
theory Build_Version
  imports Rust_Num Rust_Path
begin

text \<open>
  The version of a build of jman itself (\<open>crates/jman-version/src/versioning.rs\<close>): the output
  of \<open>git describe\<close>, semantic versions and the build metadata of development builds. Git is a
  parameter: a function from the arguments of a call to the bytes it prints when it succeeds.
\<close>

section \<open>Definitions\<close>

record version_info =
  vi_release_version :: str
  vi_build_version :: str
  vi_git_commit :: "str option"
  vi_git_distance :: "64 word option"
  vi_dirty :: bool

definition override_version :: "str \<Rightarrow> str \<Rightarrow> version_info" where
  "override_version release build =
     \<lparr>vi_release_version = release, vi_build_version = build, vi_git_commit = None,
      vi_git_distance = None, vi_dirty = False\<rparr>"

text \<open>\<open>{:?}\<close> of a string: quotes, backslashes and control characters are escaped.\<close>

definition hex_digit :: "nat \<Rightarrow> char" where
  "hex_digit d = (if d < 10 then char_of (48 + d) else char_of (87 + d))"

fun show_hex :: "nat \<Rightarrow> str" where
  "show_hex n = (if n < 16 then [hex_digit n] else show_hex (n div 16) @ [hex_digit (n mod 16)])"

declare show_hex.simps [simp del]

definition debug_char :: "char \<Rightarrow> str" where
  "debug_char c =
     (if c = CHR 0x22 \<or> c = CHR 0x5C then [CHR 0x5C, c]
      else if c = CHR 0x0A then [CHR 0x5C, CHR ''n'']
      else if c = CHR 0x0D then [CHR 0x5C, CHR ''r'']
      else if c = CHR 0x09 then [CHR 0x5C, CHR ''t'']
      else if c = CHR 0x00 then [CHR 0x5C, CHR ''0'']
      else if is_control c then [CHR 0x5C] @ ''u{'' @ show_hex (byte c) @ ''}''
      else [c])"

definition debug_str :: "str \<Rightarrow> str" where
  "debug_str s = [CHR 0x22] @ concat (map debug_char s) @ [CHR 0x22]"

definition show_option :: "('a \<Rightarrow> str) \<Rightarrow> 'a option \<Rightarrow> str" where
  "show_option f m = (case m of None \<Rightarrow> ''None'' | Some x \<Rightarrow> ''Some('' @ f x @ '')'')"

definition as_rust_source :: "version_info \<Rightarrow> str" where
  "as_rust_source v =
     ''pub const RELEASE_VERSION: &str = '' @ debug_str (vi_release_version v) @ '';'' @ [CHR 0x0A] @
     ''pub const BUILD_VERSION: &str = '' @ debug_str (vi_build_version v) @ '';'' @ [CHR 0x0A] @
     ''pub const GIT_COMMIT: Option<&str> = '' @ show_option debug_str (vi_git_commit v) @ '';'' @
       [CHR 0x0A] @
     ''pub const GIT_DISTANCE: Option<u64> = '' @
       show_option (\<lambda>d. show_nat (unat d)) (vi_git_distance v) @ '';'' @ [CHR 0x0A] @
     ''pub const DIRTY: bool = '' @ (if vi_dirty v then ''true'' else ''false'') @ '';'' @ [CHR 0x0A]"

definition valid_core_number :: "str \<Rightarrow> bool" where
  "valid_core_number s \<longleftrightarrow>
     s \<noteq> [] \<and> list_all is_digit s \<and> (s = ''0'' \<or> \<not> starts_with ''0'' s)"

definition valid_identifiers :: "str \<Rightarrow> bool \<Rightarrow> bool" where
  "valid_identifiers s reject_zero \<longleftrightarrow>
     s \<noteq> [] \<and>
     list_all (\<lambda>i. i \<noteq> [] \<and> list_all (\<lambda>c. is_alnum c \<or> c = CHR ''-'') i \<and>
       (\<not> reject_zero \<or> \<not> list_all is_digit i \<or> i = ''0'' \<or> \<not> starts_with ''0'' i))
       (split_char (CHR ''.'') s)"

definition valid_precedence :: "str \<Rightarrow> bool" where
  "valid_precedence before_build \<longleftrightarrow>
     (let (core, prerelease) =
            (case split_once (CHR ''-'') before_build of
               None \<Rightarrow> (before_build, None) | Some (c, p) \<Rightarrow> (c, Some p))
      in \<not> is_some_and (\<lambda>p. \<not> valid_identifiers p True) prerelease \<and>
         (case split_char (CHR ''.'') core of
            [a, b, c] \<Rightarrow> valid_core_number a \<and> valid_core_number b \<and> valid_core_number c
          | _ \<Rightarrow> False))"

definition is_semver :: "str \<Rightarrow> bool" where
  "is_semver version \<longleftrightarrow>
     version \<noteq> [] \<and> \<not> starts_with ''v'' version \<and>
     (case split_char (CHR ''+'') version of
        [before_build] \<Rightarrow> valid_precedence before_build
      | [before_build, build] \<Rightarrow> valid_identifiers build False \<and> valid_precedence before_build
      | _ \<Rightarrow> False)"

definition append_build_metadata :: "str \<Rightarrow> str \<Rightarrow> str" where
  "append_build_metadata version metadata =
     (if CHR ''+'' \<in> set version then version @ ''.'' @ metadata else version @ ''+'' @ metadata)"

definition development_suffix :: "nat \<Rightarrow> str \<Rightarrow> bool \<Rightarrow> str" where
  "development_suffix distance commit dirty =
     ''dev.'' @ show_nat distance @ ''.'' @ commit @ (if dirty then ''.dirty'' else [])"

definition parse_git_description :: "str \<Rightarrow> version_info option" where
  "parse_git_description text_line =
     (let (description, dirty) =
            (case strip_suffix ''-dirty'' text_line of
               None \<Rightarrow> (text_line, False) | Some clean \<Rightarrow> (clean, True))
      in case rsplit_once (CHR ''-'') description of
           None \<Rightarrow> None
         | Some (rest, commit) \<Rightarrow>
             (case rsplit_once (CHR ''-'') rest of
                None \<Rightarrow> None
              | Some (tag, distance_text) \<Rightarrow>
                  (case (parse_u64 distance_text, strip_prefix ''v'' tag) of
                     (Some distance, Some release) \<Rightarrow>
                       if \<not> is_semver release \<or> length commit < 2 \<or> \<not> starts_with ''g'' commit \<or>
                          \<not> list_all is_hex (tl commit)
                       then None
                       else Some
                         \<lparr>vi_release_version = release,
                          vi_build_version =
                            (if distance = 0 \<and> \<not> dirty then release
                             else append_build_metadata release
                                    (development_suffix distance commit dirty)),
                          vi_git_commit = strip_prefix ''g'' commit,
                          vi_git_distance = Some (of_nat distance), vi_dirty = dirty\<rparr>
                   | _ \<Rightarrow> None)))"

text \<open>
  \<open>git_output\<close> reads what a successful call prints, ill-formed bytes replaced. The calls carry
  \<open>-C repository\<close> in front of the arguments.
\<close>

type_synonym git = "path \<Rightarrow> str list \<Rightarrow> str option"

definition git_output :: "git \<Rightarrow> path \<Rightarrow> str list \<Rightarrow> str option" where
  "git_output git repository arguments = map_option utf8_lossy (git repository arguments)"

definition git_path :: "git \<Rightarrow> path \<Rightarrow> str \<Rightarrow> path option" where
  "git_path git repository name =
     map_option (\<lambda>out. let p = path_of (trim out)
                       in if is_absolute p then p else path_join repository p)
       (git_output git repository [''rev-parse'', ''--git-path'', name])"

definition tag_line :: "str \<Rightarrow> str option" where
  "tag_line text_line =
     (case split_once (CHR 0x09) text_line of
        None \<Rightarrow> None
      | Some (tag, object_type) \<Rightarrow>
          if object_type = ''tag'' \<and> is_some_and is_semver (strip_prefix ''v'' tag)
          then Some tag else None)"

definition annotated_semver_tags :: "git \<Rightarrow> path \<Rightarrow> str list" where
  "annotated_semver_tags git repository =
     (case git_output git repository
             [''for-each-ref'', ''--format=%(refname:short)%09%(objecttype)'', ''refs/tags''] of
        None \<Rightarrow> [] | Some out \<Rightarrow> List.map_filter tag_line (str_lines out))"

definition describe_arguments :: "str list \<Rightarrow> str list" where
  "describe_arguments tags =
     [''describe'', ''--long'', ''--dirty'', ''--first-parent'', ''--abbrev=12''] @
     concat (map (\<lambda>t. [''--match'', t]) tags)"

definition discover :: "git \<Rightarrow> path \<Rightarrow> str \<Rightarrow> version_info" where
  "discover git repository fallback =
     (let fallback_info = override_version fallback fallback;
          tags = annotated_semver_tags git repository
      in if tags = [] then fallback_info
         else (case git repository (describe_arguments tags) of
                 None \<Rightarrow> fallback_info
               | Some out \<Rightarrow>
                   if \<not> utf8_valid out then fallback_info
                   else (case parse_git_description (trim out) of
                           None \<Rightarrow> fallback_info | Some info \<Rightarrow> info)))"

text \<open>The lines \<open>emit_git_rerun_directives\<close> prints for the build script.\<close>

definition rerun_directive :: "path \<Rightarrow> str" where
  "rerun_directive p = ''cargo:rerun-if-changed='' @ show_path p"

definition emit_git_rerun_directives :: "git \<Rightarrow> path \<Rightarrow> str list" where
  "emit_git_rerun_directives git repository =
     List.map_filter (\<lambda>name. map_option rerun_directive (git_path git repository name))
       [''HEAD'', ''index'', ''packed-refs'', ''refs/tags''] @
     (case git_output git repository [''symbolic-ref'', ''--quiet'', ''HEAD''] of
        None \<Rightarrow> []
      | Some reference \<Rightarrow>
          (case git_path git repository (trim reference) of
             None \<Rightarrow> [] | Some p \<Rightarrow> [rerun_directive p])) @
     (case git_output git repository [''ls-files'', ''-z''] of
        None \<Rightarrow> []
      | Some files \<Rightarrow>
          map (\<lambda>f. rerun_directive (path_join repository (path_of f)))
            (filter (\<lambda>f. f \<noteq> []) (split_char (CHR 0x00) files)))"

section \<open>Lemmas\<close>

lemma split_char_single: "c \<notin> set s \<Longrightarrow> split_char c s = [s]"
  by (rule split_by_word) auto

lemma split_char_append:
  "c \<notin> set w \<Longrightarrow> split_char c (w @ c # s) = w # split_char c s"
  by (rule split_by_append_sep) auto

lemma split_char_snoc:
  "split_char c (s @ c # t) = split_char c s @ split_char c t"
  by (induction s) (auto simp: neq_Nil_conv split: list.splits)

lemma valid_identifiers_no_plus: "valid_identifiers s z \<Longrightarrow> CHR ''+'' \<notin> set s"
proof
  assume s: "valid_identifiers s z" "CHR ''+'' \<in> set s"
  let ?ws = "split_char (CHR ''.'') s"
  have "set s \<subseteq> set ''.'' \<union> \<Union> (set ` set ?ws)"
    using set_join_with [of "''.''" ?ws] by (simp only: join_split_char)
  then have "CHR ''+'' \<in> set ''.'' \<union> \<Union> (set ` set ?ws)" using s(2) by (rule subsetD)
  then have "CHR ''+'' \<in> \<Union> (set ` set ?ws)" by simp
  then obtain w where "w \<in> set ?ws" "CHR ''+'' \<in> set w" by blast
  then have "is_alnum (CHR ''+'') \<or> CHR ''+'' = CHR ''-''"
    using s(1) unfolding valid_identifiers_def list_all_iff by blast
  then show False by (simp add: char_class_defs)
qed

lemma is_semver_iff:
  "is_semver v \<longleftrightarrow> v \<noteq> [] \<and> \<not> starts_with ''v'' v \<and>
     (case split_once (CHR ''+'') v of
        None \<Rightarrow> valid_precedence v
      | Some (p, b) \<Rightarrow> valid_identifiers b False \<and> valid_precedence p)"
proof (cases "split_once (CHR ''+'') v")
  case None
  then have "CHR ''+'' \<notin> set v" by (simp add: split_once_None)
  then show ?thesis using None by (simp add: is_semver_def split_char_single)
next
  case (Some pb)
  then obtain p b where pb: "pb = (p, b)" and v: "v = p @ CHR ''+'' # b" "CHR ''+'' \<notin> set p"
    by (cases pb) (auto simp: split_once_Some)
  then have "split_char (CHR ''+'') v = p # split_char (CHR ''+'') b"
    by (simp add: split_char_append)
  moreover have "split_char (CHR ''+'') b = [b] \<or> CHR ''+'' \<in> set b \<and> length (split_char (CHR ''+'') b) \<noteq> 1"
  proof (cases "CHR ''+'' \<in> set b")
    case True
    then obtain q c where "b = q @ CHR ''+'' # c" "CHR ''+'' \<notin> set q"
      using split_list_first by metis
    then show ?thesis by (simp add: split_char_append)
  qed (simp add: split_char_single)
  ultimately show ?thesis using Some pb valid_identifiers_no_plus [of b False]
    by (auto simp: is_semver_def split: list.splits)
qed

lemma valid_identifiers_append:
  "valid_identifiers a False \<Longrightarrow> valid_identifiers b False \<Longrightarrow> valid_identifiers (a @ CHR ''.'' # b) False"
  by (auto simp: valid_identifiers_def split_char_snoc)

lemma hex_alnum: "is_hex c \<Longrightarrow> is_alnum c"
  by (auto simp: char_class_defs)

lemma identifier_word:
  "w \<noteq> [] \<Longrightarrow> list_all is_alnum w \<Longrightarrow> valid_identifiers w False"
proof -
  assume w: "w \<noteq> []" "list_all is_alnum w"
  then have "CHR ''.'' \<notin> set w" by (auto simp: list_all_iff char_class_defs)
  then show ?thesis using w by (auto simp: valid_identifiers_def split_char_single list_all_iff)
qed

lemma alnum_no_sep: "list_all is_alnum w \<Longrightarrow> CHR ''+'' \<notin> set w \<and> CHR ''-'' \<notin> set w \<and> CHR ''.'' \<notin> set w"
  by (auto simp: list_all_iff char_class_defs)

lemma show_nat_alnum: "list_all is_alnum (show_nat n)" "show_nat n \<noteq> []"
  using show_nat_set [of _ n] show_nat_props [of n] by (auto simp: list_all_iff is_alnum_def)

lemma development_suffix_identifiers:
  assumes "list_all is_alnum commit" "commit \<noteq> []"
  shows "valid_identifiers (development_suffix n commit dirty) False"
proof -
  have word: "valid_identifiers ''dev'' False" "valid_identifiers ''dirty'' False"
    by code_simp+
  have "valid_identifiers (''dev'' @ CHR ''.'' # show_nat n) False"
    by (intro valid_identifiers_append word identifier_word show_nat_alnum)
  then have base: "valid_identifiers ((''dev'' @ CHR ''.'' # show_nat n) @ CHR ''.'' # commit) False"
    by (rule valid_identifiers_append) (rule identifier_word [OF assms(2,1)])
  show ?thesis
  proof (cases dirty)
    case True
    then show ?thesis
      using valid_identifiers_append [OF base word(2)] by (simp add: development_suffix_def)
  next
    case False
    then show ?thesis using base by (simp add: development_suffix_def)
  qed
qed

lemma is_semver_append_metadata:
  assumes "is_semver v" "valid_identifiers m False"
  shows "is_semver (append_build_metadata v m) \<and>
     takeWhile (\<lambda>c. c \<noteq> CHR ''+'') (append_build_metadata v m) = takeWhile (\<lambda>c. c \<noteq> CHR ''+'') v"
proof (cases "split_once (CHR ''+'') v")
  case None
  then have plus: "CHR ''+'' \<notin> set v" by (simp add: split_once_None)
  then have app: "append_build_metadata v m = v @ CHR ''+'' # m"
    by (simp add: append_build_metadata_def)
  have "split_once (CHR ''+'') (v @ CHR ''+'' # m) = Some (v, m)"
    using plus by (simp add: split_once_Some)
  then have "is_semver (append_build_metadata v m)"
    using assms None unfolding app is_semver_iff by (cases v) auto
  then show ?thesis using plus by (auto simp: app takeWhile_tail)
next
  case (Some pb)
  then obtain p b where v: "v = p @ CHR ''+'' # b" "CHR ''+'' \<notin> set p" and pb: "pb = (p, b)"
    by (cases pb) (auto simp: split_once_Some)
  have app: "append_build_metadata v m = p @ CHR ''+'' # (b @ CHR ''.'' # m)"
    by (simp add: append_build_metadata_def v)
  have "split_once (CHR ''+'') (p @ CHR ''+'' # (b @ CHR ''.'' # m)) = Some (p, b @ CHR ''.'' # m)"
    using v by (simp add: split_once_Some)
  then have "is_semver (append_build_metadata v m)"
    using assms Some pb valid_identifiers_append v unfolding app is_semver_iff [of "_ @ _"]
    by (cases p) (auto simp: is_semver_iff [of v] is_semver_iff)
  moreover have part: "takeWhile (\<lambda>c. c \<noteq> CHR ''+'') (p @ CHR ''+'' # x) = p" for x
    using v(2) by (induction p) auto
  moreover have "takeWhile (\<lambda>c. c \<noteq> CHR ''+'') v = p"
    using part by (simp add: v(1))
  ultimately show ?thesis by (simp add: app)
qed

lemma parse_git_description_Some:
  assumes "parse_git_description description = Some i"
  obtains release distance commit dirty where
    "i = \<lparr>vi_release_version = release,
         vi_build_version = (if distance = 0 \<and> \<not> dirty then release
           else append_build_metadata release (development_suffix distance commit dirty)),
         vi_git_commit = strip_prefix ''g'' commit, vi_git_distance = Some (of_nat distance),
         vi_dirty = dirty\<rparr>"
    "is_semver release" "distance < 2 ^ 64"
    "\<not> length commit < 2" "starts_with ''g'' commit" "list_all is_hex (tl commit)"
proof -
  obtain clean dirty where clean:
    "(case strip_suffix ''-dirty'' description of None \<Rightarrow> (description, False) | Some c \<Rightarrow> (c, True)) =
       (clean, dirty)" by fastforce
  from assms obtain rest commit tag digits distance release where parts:
    "rsplit_once (CHR ''-'') clean = Some (rest, commit)" "rsplit_once (CHR ''-'') rest = Some (tag, digits)"
    "parse_u64 digits = Some distance" "strip_prefix ''v'' tag = Some release"
    by (auto simp: parse_git_description_def clean Let_def split: option.splits prod.splits)
  show ?thesis
    by (rule that [of release distance dirty commit])
      (use assms parts parse_uint_bound [OF parts(3)] in
        \<open>auto simp: parse_git_description_def clean Let_def split: if_splits\<close>)
qed

text \<open>
  Whatever \<open>git describe\<close> prints, a version read from it is a
  semantic version, for the release and for the build; both have the same precedence part (all
  before the build metadata), and the build is the release itself exactly on a clean tag.
\<close>
theorem described_version_semver:
  assumes "parse_git_description description = Some i"
  shows "is_semver (vi_release_version i) \<and> is_semver (vi_build_version i) \<and>
         takeWhile (\<lambda>c. c \<noteq> CHR ''+'') (vi_build_version i) =
           takeWhile (\<lambda>c. c \<noteq> CHR ''+'') (vi_release_version i) \<and>
         (vi_build_version i = vi_release_version i \<longleftrightarrow>
            vi_git_distance i = Some 0 \<and> \<not> vi_dirty i)"
proof -
  from assms obtain release distance commit dirty where
    i: "i = \<lparr>vi_release_version = release,
         vi_build_version = (if distance = 0 \<and> \<not> dirty then release
           else append_build_metadata release (development_suffix distance commit dirty)),
         vi_git_commit = strip_prefix ''g'' commit, vi_git_distance = Some (of_nat distance),
         vi_dirty = dirty\<rparr>"
    and semver: "is_semver release" and bound: "distance < 2 ^ 64"
    and commit: "\<not> length commit < 2" "starts_with ''g'' commit" "list_all is_hex (tl commit)"
    by (rule parse_git_description_Some)
  obtain hex where "commit = CHR ''g'' # hex" "hex \<noteq> []"
    using commit by (cases commit) (auto simp: starts_with_iff)
  then have alnum: "list_all is_alnum commit" "commit \<noteq> []"
    using commit(3) hex_alnum by (auto simp: list_all_iff char_class_defs)
  note metadata = is_semver_append_metadata
    [OF semver development_suffix_identifiers [OF alnum, of distance dirty]]
  have "append_build_metadata v m \<noteq> v" for v m
    by (simp add: append_build_metadata_def)
  moreover have "(of_nat distance :: 64 word) = 0 \<longleftrightarrow> distance = 0"
    using bound by (simp add: word_of_nat_eq_0_iff) (auto dest: dvd_imp_le)
  ultimately show ?thesis using metadata semver by (simp add: i)
qed

theorem described_version_semver_witness:
  "is_semver ''1.4.2-rc.1+dev.3.g8fa23cd12345.dirty''"
  using described_version_semver
    [of "''v1.4.2-rc.1-3-g8fa23cd12345-dirty''" "the (parse_git_description ''v1.4.2-rc.1-3-g8fa23cd12345-dirty'')"]
  by code_simp

lemma rsplit_once_dash: "CHR ''-'' \<notin> set r \<Longrightarrow> rsplit_once (CHR ''-'') (l @ CHR ''-'' # r) = Some (l, r)"
  by (simp add: rsplit_once_Some)

text \<open>
  A description with a semantic tag, a distance, an abbreviated commit
  and the dirty mark is read back into exactly these parts.
\<close>
theorem description_round_trip:
  assumes "is_semver release" "distance < 2 ^ 64" "commit \<noteq> []" "list_all is_hex commit"
  shows "parse_git_description
           (''v'' @ release @ ''-'' @ show_nat distance @ ''-g'' @ commit @
            (if dirty then ''-dirty'' else [])) =
         Some \<lparr>vi_release_version = release,
           vi_build_version =
             (if distance = 0 \<and> \<not> dirty then release
              else append_build_metadata release (development_suffix distance (''g'' @ commit) dirty)),
           vi_git_commit = Some commit, vi_git_distance = Some (of_nat distance), vi_dirty = dirty\<rparr>"
proof -
  let ?tag = "CHR ''v'' # release" and ?clean = "(CHR ''v'' # release @ ''-'' @ show_nat distance) @ CHR ''-'' # CHR ''g'' # commit"
  have dash: "CHR ''-'' \<notin> set (CHR ''g'' # commit)" "CHR ''-'' \<notin> set (show_nat distance)"
    using assms(4) show_nat_set [of "CHR ''-''" distance] by (auto simp: list_all_iff char_class_defs)
  have "strip_suffix ''-dirty'' ?clean = None"
  proof (cases "strip_suffix ''-dirty'' ?clean")
    case (Some r)
    then have "last ?clean = CHR ''y''" by (simp only: strip_suffix_Some_iff) simp
    then have "last commit = CHR ''y''" using assms(3) by simp
    then have "is_hex (CHR ''y'')" using assms(3,4) last_in_set [of commit] by (auto simp: list_all_iff)
    then show ?thesis by (simp add: char_class_defs)
  qed
  moreover have "strip_suffix ''-dirty'' (?clean @ ''-dirty'') = Some ?clean"
    by (simp add: strip_suffix_Some_iff)
  moreover have "rsplit_once (CHR ''-'') ?clean = Some (CHR ''v'' # release @ ''-'' @ show_nat distance, CHR ''g'' # commit)"
    by (rule rsplit_once_dash) (rule dash)
  moreover have "rsplit_once (CHR ''-'') (CHR ''v'' # release @ ''-'' @ show_nat distance) = Some (?tag, show_nat distance)"
    using rsplit_once_dash [OF dash(2), of ?tag] by simp
  ultimately show ?thesis
    using assms parse_uint_show_nat [of distance 64]
    by (cases dirty) (simp_all add: parse_git_description_def)
qed

theorem description_round_trip_witness:
  "parse_git_description ''v1.0.0-7-gabc'' =
     Some \<lparr>vi_release_version = ''1.0.0'', vi_build_version = ''1.0.0+dev.7.gabc'',
           vi_git_commit = Some ''abc'', vi_git_distance = Some 7, vi_dirty = False\<rparr>"
proof -
  have facts: "is_semver ''1.0.0''" "list_all is_hex ''abc''" "show_nat 7 = ''7''"
    "append_build_metadata ''1.0.0'' (development_suffix 7 ''gabc'' False) = ''1.0.0+dev.7.gabc''"
    by code_simp+
  show ?thesis
    using description_round_trip [OF facts(1) _ _ facts(2), of 7 False] by (simp add: facts)
qed

end
