(* ===== verification/Audit_Model.thy ===== *)
theory Audit_Model
  imports Rust_Num Collections Rust_Path "HOL-Library.Product_Lexorder"
begin

text \<open>
  The provider-neutral data of the vulnerability audit (\<open>crates/jman-audit/src/model.rs\<close>) and
  the contract of a provider (\<open>provider.rs\<close>): severities with their order, packages, advisories,
  findings, errors, and a locale for the trait \<open>VulnerabilityProvider\<close>.
\<close>

section \<open>Severities\<close>

datatype severity = Unknown | Low | Medium | High | Critical

fun severity_rank :: "severity \<Rightarrow> nat" where
  "severity_rank Unknown = 0"
| "severity_rank Low = 1"
| "severity_rank Medium = 2"
| "severity_rank High = 3"
| "severity_rank Critical = 4"

instantiation severity :: linorder
begin

definition less_eq_severity :: "severity \<Rightarrow> severity \<Rightarrow> bool" where
  "less_eq_severity a b \<longleftrightarrow> severity_rank a \<le> severity_rank b"

definition less_severity :: "severity \<Rightarrow> severity \<Rightarrow> bool" where
  "less_severity a b \<longleftrightarrow> severity_rank a < severity_rank b"

instance
proof
  fix a b :: severity
  show "a \<le> b \<Longrightarrow> b \<le> a \<Longrightarrow> a = b"
    by (cases a; cases b) (simp_all add: less_eq_severity_def)
qed (auto simp: less_eq_severity_def less_severity_def)

end

definition severity_from_label :: "str \<Rightarrow> severity" where
  "severity_from_label label =
     (let l = lowercase (trim label)
      in if l = ''low'' then Low
         else if l = ''medium'' \<or> l = ''moderate'' then Medium
         else if l = ''high'' then High
         else if l = ''critical'' then Critical
         else Unknown)"

definition severity_name :: "severity \<Rightarrow> str" where
  "severity_name s =
     (case s of Unknown \<Rightarrow> ''unknown'' | Low \<Rightarrow> ''low'' | Medium \<Rightarrow> ''medium'' | High \<Rightarrow> ''high''
      | Critical \<Rightarrow> ''critical'')"

text \<open>
  Floating point: the IEEE arithmetic of \<open>f64\<close> is a parameter, a record of its operations;
  \<open>fl n k\<close> is the literal \<open>n / 10 ^ k\<close>.
\<close>

record 'f float_ops =
  fl :: "int \<Rightarrow> nat \<Rightarrow> 'f"
  fl_parse :: "str \<Rightarrow> 'f option"
  fl_add :: "'f \<Rightarrow> 'f \<Rightarrow> 'f"
  fl_sub :: "'f \<Rightarrow> 'f \<Rightarrow> 'f"
  fl_mul :: "'f \<Rightarrow> 'f \<Rightarrow> 'f"
  fl_div :: "'f \<Rightarrow> 'f \<Rightarrow> 'f"
  fl_min :: "'f \<Rightarrow> 'f \<Rightarrow> 'f"
  fl_powi :: "'f \<Rightarrow> nat \<Rightarrow> 'f"
  fl_ceil :: "'f \<Rightarrow> 'f"
  fl_le :: "'f \<Rightarrow> 'f \<Rightarrow> bool"
  fl_less :: "'f \<Rightarrow> 'f \<Rightarrow> bool"

definition severity_from_score :: "'f float_ops \<Rightarrow> 'f \<Rightarrow> severity" where
  "severity_from_score F score =
     (if fl_le F (fl F 9 0) score then Critical
      else if fl_le F (fl F 7 0) score then High
      else if fl_le F (fl F 4 0) score then Medium
      else if fl_less F (fl F 0 0) score then Low
      else Unknown)"

section \<open>Packages and findings\<close>

datatype audit_package = AuditPackage (ap_group: str) (ap_artifact: str) (ap_version: str)

definition package_key :: "audit_package \<Rightarrow> str list" where
  "package_key p = [ap_group p, ap_artifact p, ap_version p]"

lemma package_key_inj: "package_key p = package_key q \<longleftrightarrow> p = q"
  by (cases p; cases q) (simp add: package_key_def)

text \<open>The derived order: by group, then artifact, then version.\<close>

instantiation audit_package :: linorder
begin

definition less_eq_audit_package :: "audit_package \<Rightarrow> audit_package \<Rightarrow> bool" where
  "less_eq_audit_package p q \<longleftrightarrow> package_key p \<le> package_key q"

definition less_audit_package :: "audit_package \<Rightarrow> audit_package \<Rightarrow> bool" where
  "less_audit_package p q \<longleftrightarrow> package_key p < package_key q"

instance
proof
  fix p q :: audit_package
  show "p \<le> q \<Longrightarrow> q \<le> p \<Longrightarrow> p = q"
    by (simp add: less_eq_audit_package_def flip: package_key_inj)
qed (auto simp: less_eq_audit_package_def less_audit_package_def)

end

definition package_name :: "audit_package \<Rightarrow> str" where
  "package_name p = ap_group p @ '':'' @ ap_artifact p"

definition package_coordinate :: "audit_package \<Rightarrow> str" where
  "package_coordinate p = ap_group p @ '':'' @ ap_artifact p @ '':'' @ ap_version p"

record advisory =
  ad_id :: str
  ad_aliases :: "str list"
  ad_summary :: str
  ad_severity :: severity
  ad_fixed_versions :: "str list"
  ad_references :: "str list"
  ad_modified :: "str option"

record finding =
  fd_package :: audit_package
  fd_advisory :: advisory

datatype audit_source = Network | Cache | StaleCache

record audit_result =
  ar_provider :: str
  ar_source :: audit_source
  ar_findings :: "finding list"

section \<open>Errors and providers\<close>

datatype audit_error =
    AuditRequest (ae_url: str) (ae_source: str)
  | AuditHttpStatus str nat
  | InvalidResponse str
  | AuditCacheError path str
  | InvalidCache path str
  | AuditOfflineMiss

text \<open>
  A provider has a name, an identity for its cache, and a query over a state of its own (for a
  provider on the network, the requests it has sent). A query that never returns is \<open>None\<close>.
\<close>

type_synonym 's provider_query =
  "audit_package list \<Rightarrow> 's \<Rightarrow> ((audit_error, finding list) result \<times> 's) option"

record 's vulnerability_provider =
  vp_name :: str
  vp_identity :: str
  vp_query :: "'s provider_query"

text \<open>
  What a provider promises to the auditor: every finding is about a package of the query and
  carries an identifier that is not blank. The auditor's lemmas are proved from this alone.
\<close>

definition finding_for :: "audit_package list \<Rightarrow> finding \<Rightarrow> bool" where
  "finding_for ps f \<longleftrightarrow> fd_package f \<in> set ps \<and> trim (ad_id (fd_advisory f)) \<noteq> []"

locale sound_provider =
  fixes query :: "'s provider_query"
  assumes query_sound: "query ps s = Some (Inr fs, s') \<Longrightarrow> list_all (finding_for ps) fs"

end
