(* ===== verification/Audit_Osv.thy ===== *)
theory Audit_Osv
  imports Audit_Model Complex_Main
begin

text \<open>
  The provider for the OSV database, \<open>crates/jman-audit/src/osv.rs\<close>: batched queries with
  pagination, the advisories behind the identifiers, and their translation. The HTTP client with
  its JSON decoder, the URL parser and floating-point arithmetic are parameters. The eight
  concurrent loads of advisories run one after the other, in the order of the identifiers.
\<close>

section \<open>Data\<close>

datatype json =
  JNull | JBool bool | JNumber str | JString str | JArray "json list" | JObject "(str \<times> json) list"

record osv_provider =
  op_base_url :: str

record pending_query =
  pq_index :: nat
  pq_package :: audit_package
  pq_page_token :: "str option"

record osv_query =
  oq_version :: str
  oq_name :: str
  oq_ecosystem :: str
  oq_page_token :: "str option"

record batch_result =
  br_vulns :: "str list"
  br_next_page_token :: "str option"

record osv_affected =
  oa_ecosystem :: str
  oa_name :: str
  oa_severity :: "str list"
  oa_ranges :: "str option list list"
  oa_database_specific :: json
  oa_ecosystem_specific :: json

record osv_advisory =
  os_id :: str
  os_aliases :: "str list"
  os_summary :: "str option"
  os_details :: "str option"
  os_modified :: "str option"
  os_withdrawn :: "str option"
  os_severity :: "str list"
  os_affected :: "osv_affected list"
  os_references :: "str list"
  os_database_specific :: json

section \<open>The endpoint\<close>

text \<open>The parts of a parsed URL that the check looks at.\<close>

record parsed_url =
  pu_scheme :: str
  pu_username :: str
  pu_password :: "str option"
  pu_host :: "str option"
  pu_query :: "str option"
  pu_fragment :: "str option"

definition with_base_url ::
    "(str \<Rightarrow> (str, parsed_url) result) \<Rightarrow> (str, unit) result \<Rightarrow> str \<Rightarrow> (audit_error, osv_provider) result" where
  "with_base_url parse_url build_client base_url =
     and_then
       (map_err (\<lambda>e. InvalidResponse (''invalid OSV base URL `'' @ base_url @ ''`: '' @ e))
         (parse_url base_url)) (\<lambda>u.
     and_then
       (ensure (pu_username u = [] \<and> pu_password u = None \<and> pu_query u = None \<and> pu_fragment u = None)
         (InvalidResponse ''OSV base URL cannot contain credentials, a query, or a fragment'')) (\<lambda>_.
     and_then
       (ensure (pu_scheme u = ''https'' \<or>
                pu_scheme u = ''http'' \<and>
                is_some_and (\<lambda>h. h \<in> {''localhost'', ''127.0.0.1'', ''::1''}) (pu_host u))
         (InvalidResponse
           ''OSV base URL must use HTTPS (HTTP is allowed only for loopback testing)'')) (\<lambda>_.
     and_then
       (map_err (AuditRequest ''<OSV client initialization>'') build_client) (\<lambda>_.
     Inr \<lparr>op_base_url = trim_end_char (CHR ''/'') base_url\<rparr>))))"

section \<open>Requests\<close>

text \<open>
  The answers of the server, by the requests sent before. A payload has been decoded from JSON;
  a transport or decoding error is a text.
\<close>

datatype osv_request = BatchRequest str "osv_query list" | AdvisoryRequest str

datatype 'a osv_answer = Payload 'a | Status nat | Failed str

record osv_env =
  oe_batch :: "osv_request list \<Rightarrow> str \<Rightarrow> osv_query list \<Rightarrow> batch_result list osv_answer"
  oe_advisory :: "osv_request list \<Rightarrow> str \<Rightarrow> osv_advisory osv_answer"

type_synonym 'a osv_step = "(osv_request list, audit_error, 'a) step"

definition answered :: "str \<Rightarrow> 'a osv_answer \<Rightarrow> (audit_error, 'a) result" where
  "answered url answer =
     (case answer of
        Payload x \<Rightarrow> Inr x | Status n \<Rightarrow> Inl (AuditHttpStatus url n)
      | Failed e \<Rightarrow> Inl (AuditRequest url e))"

definition osv_query_of :: "pending_query \<Rightarrow> osv_query" where
  "osv_query_of q =
     \<lparr>oq_version = ap_version (pq_package q), oq_name = package_name (pq_package q),
      oq_ecosystem = ''Maven'', oq_page_token = pq_page_token q\<rparr>"

definition query_batch ::
    "osv_env \<Rightarrow> osv_provider \<Rightarrow> pending_query list \<Rightarrow> batch_result list osv_step" where
  "query_batch env p pending sent =
     (let url = op_base_url p @ ''/v1/querybatch'';
          queries = map osv_query_of pending
      in (answered url (oe_batch env sent url queries), sent @ [BatchRequest url queries]))"

definition safe_identifier :: "str \<Rightarrow> bool" where
  "safe_identifier i \<longleftrightarrow>
     list_all (\<lambda>c. is_alnum c \<or> c = CHR ''-'' \<or> c = CHR ''_'' \<or> c = CHR ''.'') i"

definition load_advisory :: "osv_env \<Rightarrow> osv_provider \<Rightarrow> str \<Rightarrow> osv_advisory osv_step" where
  "load_advisory env p identifier sent =
     (if \<not> safe_identifier identifier
      then (Inl (InvalidResponse (''OSV returned unsafe advisory ID `'' @ identifier @ ''`'')), sent)
      else (let url = op_base_url p @ ''/v1/vulns/'' @ identifier
            in (answered url (oe_advisory env sent url), sent @ [AdvisoryRequest url])))"

section \<open>Severities and translation\<close>

definition json_get :: "json \<Rightarrow> str \<Rightarrow> json option" where
  "json_get v k = (case v of JObject es \<Rightarrow> map_of es k | _ \<Rightarrow> None)"

definition severity_from_database :: "json \<Rightarrow> severity" where
  "severity_from_database v =
     (case json_get v ''severity'' of Some (JString s) \<Rightarrow> severity_from_label s | _ \<Rightarrow> Unknown)"

definition metric :: "(str \<times> str) list \<Rightarrow> str \<Rightarrow> (str \<times> 'f) list \<Rightarrow> 'f option" where
  "metric metrics name values =
     (case bt_get metrics name of None \<Rightarrow> None | Some selected \<Rightarrow> map_of values selected)"

definition cvss_metrics :: "str \<Rightarrow> (str, str) btree_map" where
  "cvss_metrics vector =
     bt_of_list (List.map_filter (split_once (CHR '':'')) (tl (split_char (CHR ''/'') vector)))"

definition cvss_impact :: "'f float_ops \<Rightarrow> bool \<Rightarrow> 'f \<Rightarrow> 'f \<Rightarrow> 'f \<Rightarrow> 'f" where
  "cvss_impact F scope_changed c i a =
     (let one = fl F 1 0;
          base = fl_sub F one
            (fl_mul F (fl_mul F (fl_sub F one c) (fl_sub F one i)) (fl_sub F one a))
      in if scope_changed
         then fl_sub F (fl_mul F (fl F 752 2) (fl_sub F base (fl F 29 3)))
                (fl_mul F (fl F 325 2) (fl_powi F (fl_sub F base (fl F 2 2)) 15))
         else fl_mul F (fl F 642 2) base)"

definition cvss_base :: "'f float_ops \<Rightarrow> bool \<Rightarrow> 'f \<Rightarrow> 'f \<Rightarrow> 'f" where
  "cvss_base F scope_changed impact exploitability =
     (let sum = fl_add F impact exploitability
      in fl_min F (if scope_changed then fl_mul F (fl F 108 2) sum else sum) (fl F 10 0))"

definition cvss_v3_score :: "'f float_ops \<Rightarrow> str \<Rightarrow> 'f option" where
  "cvss_v3_score F vector =
     (if \<not> starts_with ''CVSS:3.0/'' vector \<and> \<not> starts_with ''CVSS:3.1/'' vector then None
      else (let m = cvss_metrics vector;
                cia = [(''N'', fl F 0 1), (''L'', fl F 22 2), (''H'', fl F 56 2)]
            in Option.bind (bt_get m ''S'') (\<lambda>s. let scope_changed = (s = ''C'') in
               Option.bind (metric m ''AV'' [(''N'', fl F 85 2), (''A'', fl F 62 2),
                                            (''L'', fl F 55 2), (''P'', fl F 2 1)]) (\<lambda>av.
               Option.bind (metric m ''AC'' [(''L'', fl F 77 2), (''H'', fl F 44 2)]) (\<lambda>ac.
               Option.bind
                 (metric m ''PR''
                   (if scope_changed
                    then [(''N'', fl F 85 2), (''L'', fl F 68 2), (''H'', fl F 5 1)]
                    else [(''N'', fl F 85 2), (''L'', fl F 62 2), (''H'', fl F 27 2)])) (\<lambda>pr.
               Option.bind (metric m ''UI'' [(''N'', fl F 85 2), (''R'', fl F 62 2)]) (\<lambda>ui.
               Option.bind (metric m ''C'' cia) (\<lambda>c.
               Option.bind (metric m ''I'' cia) (\<lambda>i.
               Option.bind (metric m ''A'' cia) (\<lambda>a.
                 let impact = cvss_impact F scope_changed c i a
                 in if fl_le F impact (fl F 0 1) then Some (fl F 0 1)
                    else (let exploitability =
                                fl_mul F (fl_mul F (fl_mul F (fl_mul F (fl F 822 2) av) ac) pr) ui;
                              base = cvss_base F scope_changed impact exploitability
                          in Some (fl_div F (fl_ceil F (fl_mul F base (fl F 10 0))) (fl F 10 0)))
               ))))))))))"

definition severity_of_score_text :: "'f float_ops \<Rightarrow> str \<Rightarrow> severity" where
  "severity_of_score_text F txt =
     (case (case fl_parse F txt of Some x \<Rightarrow> Some x | None \<Rightarrow> cvss_v3_score F txt) of
        Some x \<Rightarrow> severity_from_score F x | None \<Rightarrow> severity_from_label txt)"

definition is_affected :: "audit_package \<Rightarrow> osv_affected \<Rightarrow> bool" where
  "is_affected p a \<longleftrightarrow> eq_ignore_case (oa_ecosystem a) ''Maven'' \<and> oa_name a = package_name p"

definition advisory_severity :: "'f float_ops \<Rightarrow> osv_advisory \<Rightarrow> osv_affected list \<Rightarrow> severity" where
  "advisory_severity F r affected =
     fold (\<lambda>a s. fold (\<lambda>t s. max s (severity_of_score_text F t)) (oa_severity a)
                   (max (max s (severity_from_database (oa_database_specific a)))
                        (severity_from_database (oa_ecosystem_specific a))))
       affected
       (fold (\<lambda>t s. max s (severity_of_score_text F t)) (os_severity r)
         (severity_from_database (os_database_specific r)))"

definition advisory_summary :: "osv_advisory \<Rightarrow> str" where
  "advisory_summary r =
     trim (case (if is_some_and (\<lambda>s. trim s \<noteq> []) (os_summary r) then os_summary r
                 else Option.bind (os_details r)
                   (\<lambda>d. case str_lines d of [] \<Rightarrow> None | l # _ \<Rightarrow> Some l)) of
             Some s \<Rightarrow> s | None \<Rightarrow> ''No advisory summary supplied'')"

definition translate_advisory :: "'f float_ops \<Rightarrow> osv_advisory \<Rightarrow> audit_package \<Rightarrow> advisory" where
  "translate_advisory F r p =
     (let affected = filter (is_affected p) (os_affected r)
      in \<lparr>ad_id = os_id r, ad_aliases = sort_dedup (os_aliases r), ad_summary = advisory_summary r,
          ad_severity = advisory_severity F r affected,
          ad_fixed_versions =
            sort_dedup (concat (map (\<lambda>a. List.map_filter (\<lambda>e. e) (concat (oa_ranges a))) affected)),
          ad_references = sort_dedup (os_references r), ad_modified = os_modified r\<rparr>)"

section \<open>Queries\<close>

text \<open>
  What the loop over the pages accumulates: the identifiers of each package, the page tokens
  seen so far, and the queries for the next pages.
\<close>

record osv_progress =
  og_identifiers :: "str list list"
  og_seen :: "(nat \<times> str) list"
  og_next :: "pending_query list"

fun add_vulnerabilities :: "nat \<Rightarrow> str list \<Rightarrow> osv_progress \<Rightarrow> (audit_error, osv_progress) result" where
  "add_vulnerabilities i [] g = Inr g"
| "add_vulnerabilities i (v # vs) g =
     (if trim v = [] then Inl (InvalidResponse ''OSV returned a vulnerability without an ID'')
      else add_vulnerabilities i vs
             (g\<lparr>og_identifiers := (og_identifiers g)[i := bs_insert v (og_identifiers g ! i)]\<rparr>))"

definition add_page :: "pending_query \<Rightarrow> str option \<Rightarrow> osv_progress \<Rightarrow> (audit_error, osv_progress) result" where
  "add_page q token g =
     (case token of
        None \<Rightarrow> Inr g
      | Some t \<Rightarrow>
          if (pq_index q, t) \<in> set (og_seen g)
          then Inl (InvalidResponse (''OSV repeated a pagination token for '' @
                      package_coordinate (pq_package q)))
          else Inr (g\<lparr>og_seen := (pq_index q, t) # og_seen g,
                      og_next := og_next g @ [q\<lparr>pq_page_token := Some t\<rparr>]\<rparr>))"

fun add_results ::
    "(pending_query \<times> batch_result) list \<Rightarrow> osv_progress \<Rightarrow> (audit_error, osv_progress) result" where
  "add_results [] g = Inr g"
| "add_results ((q, r) # rest) g =
     and_then (add_vulnerabilities (pq_index q) (br_vulns r) g) (\<lambda>g.
     and_then (add_page q (br_next_page_token r) g) (\<lambda>g. add_results rest g))"

text \<open>\<open>slice::chunks\<close>.\<close>

function chunks :: "nat \<Rightarrow> 'a list \<Rightarrow> 'a list list" where
  "chunks n xs = (if xs = [] \<or> n = 0 then [] else take n xs # chunks n (drop n xs))"
  by pat_completeness auto
termination
  by (relation "measure (\<lambda>(n, xs). length xs)") auto

declare chunks.simps [simp del]

fun query_chunks ::
    "osv_env \<Rightarrow> osv_provider \<Rightarrow> pending_query list list \<Rightarrow> osv_progress \<Rightarrow> osv_progress osv_step" where
  "query_chunks env p [] g = step_of (Inr g)"
| "query_chunks env p (chunk # rest) g =
     step_bind (query_batch env p chunk) (\<lambda>results.
       if length results \<noteq> length chunk
       then step_of (Inl (InvalidResponse (''OSV returned '' @ show_nat (length results) @
              '' batch results for '' @ show_nat (length chunk) @ '' queries'')))
       else step_bind (step_of (add_results (zip chunk results) g)) (query_chunks env p rest))"

definition max_batch_size :: nat where
  "max_batch_size = 1000"

text \<open>The pages may never end; then the loop does not return.\<close>

partial_function (option) query_pages ::
    "osv_env \<Rightarrow> osv_provider \<Rightarrow> pending_query list \<Rightarrow> osv_progress \<Rightarrow> osv_request list \<Rightarrow>
     ((audit_error, osv_progress) result \<times> osv_request list) option" where
  "query_pages env p pending g sent =
     (if pending = [] then Some (Inr g, sent)
      else (case query_chunks env p (chunks max_batch_size pending) (g\<lparr>og_next := []\<rparr>) sent of
              (Inl e, sent') \<Rightarrow> Some (Inl e, sent')
            | (Inr g', sent') \<Rightarrow> query_pages env p (og_next g') g' sent'))"

declare query_pages.simps [code]

definition load_details ::
    "osv_env \<Rightarrow> osv_provider \<Rightarrow> str list \<Rightarrow> (str \<times> osv_advisory) list osv_step" where
  "load_details env p identifiers =
     step_traverse (\<lambda>i.
       step_bind (load_advisory env p i) (\<lambda>r.
         if os_id r \<noteq> i
         then step_of (Inl (InvalidResponse (''OSV returned advisory `'' @ os_id r @
                ''` for requested ID `'' @ i @ ''`'')))
         else step_of (Inr (i, r)))) identifiers"

definition package_findings ::
    "'f float_ops \<Rightarrow> (str \<times> osv_advisory) list \<Rightarrow> audit_package \<Rightarrow> str list \<Rightarrow>
     (audit_error, finding list) result" where
  "package_findings F details p identifiers =
     (case traverse (\<lambda>i.
        case map_of details i of
          None \<Rightarrow> Inl (InvalidResponse (''OSV details are missing for advisory '' @ i))
        | Some r \<Rightarrow> Inr (if os_withdrawn r \<noteq> None then []
                        else [\<lparr>fd_package = p, fd_advisory = translate_advisory F r p\<rparr>])) identifiers of
       Inl e \<Rightarrow> Inl e | Inr fss \<Rightarrow> Inr (concat fss))"

definition initial_progress :: "audit_package list \<Rightarrow> osv_progress" where
  "initial_progress packages =
     \<lparr>og_identifiers = replicate (length packages) [], og_seen = [], og_next = []\<rparr>"

definition initial_pending :: "audit_package list \<Rightarrow> pending_query list" where
  "initial_pending packages =
     map (\<lambda>(i, p). \<lparr>pq_index = i, pq_package = p, pq_page_token = None\<rparr>)
       (List.enumerate 0 packages)"

definition osv_findings ::
    "'f float_ops \<Rightarrow> osv_env \<Rightarrow> osv_provider \<Rightarrow> audit_package list \<Rightarrow> osv_progress \<Rightarrow>
     finding list osv_step" where
  "osv_findings F env p packages g =
     step_bind (load_details env p (bs_of_list (concat (og_identifiers g)))) (\<lambda>details.
       step_of
         (and_then (traverse (\<lambda>(package, ids). package_findings F details package ids)
                     (zip packages (og_identifiers g))) (\<lambda>fss. Inr (concat fss))))"

definition query_inner ::
    "'f float_ops \<Rightarrow> osv_env \<Rightarrow> osv_provider \<Rightarrow> osv_request list provider_query" where
  "query_inner F env p packages sent =
     (case query_pages env p (initial_pending packages) (initial_progress packages) sent of
        None \<Rightarrow> None
      | Some (Inl e, sent') \<Rightarrow> Some (Inl e, sent')
      | Some (Inr g, sent') \<Rightarrow> Some (osv_findings F env p packages g sent'))"

definition osv_name :: str where
  "osv_name = ''osv''"

definition osv_cache_identity :: "osv_provider \<Rightarrow> str" where
  "osv_cache_identity p = ''osv:'' @ op_base_url p"

definition osv ::
    "'f float_ops \<Rightarrow> osv_env \<Rightarrow> osv_provider \<Rightarrow> osv_request list vulnerability_provider" where
  "osv F env p =
     \<lparr>vp_name = osv_name, vp_identity = osv_cache_identity p, vp_query = query_inner F env p\<rparr>"

section \<open>Invariant of the pages\<close>

text \<open>
  With tokens from a set: the identifiers are not blank, one set per package, every token is
  seen once, and a query for a next page belongs to a package.
\<close>

definition progress_ok :: "nat \<Rightarrow> (nat \<times> str) set \<Rightarrow> osv_progress \<Rightarrow> bool" where
  "progress_ok n tokens g \<longleftrightarrow>
     length (og_identifiers g) = n \<and>
     (\<forall>ids \<in> set (og_identifiers g). \<forall>i \<in> set ids. trim i \<noteq> []) \<and>
     distinct (og_seen g) \<and> set (og_seen g) \<subseteq> tokens"

definition pending_ok :: "nat \<Rightarrow> pending_query list \<Rightarrow> bool" where
  "pending_ok n pending \<longleftrightarrow> (\<forall>q \<in> set pending. pq_index q < n)"

lemma add_vulnerabilities_ok:
  assumes "add_vulnerabilities i vs g = Inr g'" "progress_ok n T g"
  shows "progress_ok n T g' \<and> og_seen g' = og_seen g \<and> og_next g' = og_next g"
  using assms
proof (induction i vs g rule: add_vulnerabilities.induct)
  case (2 i v vs g)
  let ?g = "g\<lparr>og_identifiers := (og_identifiers g)[i := bs_insert v (og_identifiers g ! i)]\<rparr>"
  from 2 have v: "trim v \<noteq> []" by (auto split: if_splits)
  have "\<forall>ids \<in> set (og_identifiers ?g). \<forall>j \<in> set ids. trim j \<noteq> []"
  proof (cases "i < length (og_identifiers g)")
    case True
    then show ?thesis using 2(3) v nth_mem [OF True]
      by (fastforce simp: progress_ok_def dest!: set_update_subset_insert [THEN subsetD])
  next
    case False
    then show ?thesis using 2(3) by (auto simp: progress_ok_def list_update_beyond)
  qed
  then have "progress_ok n T ?g" using 2(3) by (simp add: progress_ok_def)
  then show ?case using 2 v by simp
qed simp

lemma add_page_ok:
  assumes "add_page q token g = Inr g'" "progress_ok n T g" "pending_ok n (og_next g)"
    and "pq_index q < n" "\<forall>t. token = Some t \<longrightarrow> (pq_index q, t) \<in> T"
  shows "progress_ok n T g' \<and> pending_ok n (og_next g') \<and>
    length (og_seen g') + length (og_next g) = length (og_seen g) + length (og_next g')"
  using assms
  by (auto simp: add_page_def progress_ok_def pending_ok_def split: option.splits if_splits)

lemma add_results_ok:
  assumes "add_results qrs g = Inr g'" "progress_ok n T g" "pending_ok n (og_next g)"
    and "\<forall>(q, r) \<in> set qrs. pq_index q < n \<and>
           (\<forall>t. br_next_page_token r = Some t \<longrightarrow> (pq_index q, t) \<in> T)"
  shows "progress_ok n T g' \<and> pending_ok n (og_next g') \<and>
    length (og_seen g') + length (og_next g) = length (og_seen g) + length (og_next g')"
  using assms
proof (induction qrs g rule: add_results.induct)
  case (2 q r rest g)
  then obtain g1 g2 where g1: "add_vulnerabilities (pq_index q) (br_vulns r) g = Inr g1"
    and g2: "add_page q (br_next_page_token r) g1 = Inr g2" and rest: "add_results rest g2 = Inr g'"
    by (auto simp: and_then_Inr_iff)
  have ok1: "progress_ok n T g1" "og_seen g1 = og_seen g" "og_next g1 = og_next g"
    using add_vulnerabilities_ok [OF g1] 2 by auto
  have ok2: "progress_ok n T g2" "pending_ok n (og_next g2)"
    "length (og_seen g2) + length (og_next g1) = length (og_seen g1) + length (og_next g2)"
    using add_page_ok [OF g2 ok1(1)] ok1(3) 2 by auto
  have "progress_ok n T g' \<and> pending_ok n (og_next g') \<and>
      length (og_seen g') + length (og_next g2) = length (og_seen g2) + length (og_next g')"
    using "2.IH" [OF rest ok2(1,2)] "2.prems"(4) by simp
  then show ?case using ok1 ok2 by simp
qed simp

text \<open>A server whose page tokens come from a set.\<close>

definition tokens_from :: "str set \<Rightarrow> osv_env \<Rightarrow> bool" where
  "tokens_from T env \<longleftrightarrow>
     (\<forall>sent url queries results. oe_batch env sent url queries = Payload results \<longrightarrow>
        (\<forall>r \<in> set results. \<forall>t. br_next_page_token r = Some t \<longrightarrow> t \<in> T))"

lemma query_chunks_ok:
  assumes "query_chunks env p cs g sent = (Inr g', sent')" "tokens_from T env"
    and "progress_ok n ({..<n} \<times> T) g" "pending_ok n (og_next g)" "\<forall>c \<in> set cs. pending_ok n c"
  shows "progress_ok n ({..<n} \<times> T) g' \<and> pending_ok n (og_next g') \<and>
    length (og_seen g') + length (og_next g) = length (og_seen g) + length (og_next g')"
  using assms
proof (induction env p cs g arbitrary: sent rule: query_chunks.induct)
  case (2 env p chunk rest g)
  then obtain results sent1 where
    batch: "query_batch env p chunk sent = (Inr results, sent1)"
    and len: "length results = length chunk"
    and body: "step_bind (step_of (add_results (zip chunk results) g)) (query_chunks env p rest) sent1 =
      (Inr g', sent')"
    by (auto simp: step_bind_Inr split: if_splits)
  from body obtain g1 where add: "add_results (zip chunk results) g = Inr g1"
    and rest: "query_chunks env p rest g1 sent1 = (Inr g', sent')"
    by (auto simp: step_bind_of split: sum.splits)
  have tokens: "\<forall>r \<in> set results. \<forall>t. br_next_page_token r = Some t \<longrightarrow> t \<in> T"
    using batch 2(3) unfolding tokens_from_def query_batch_def answered_def Let_def
    by (auto split: osv_answer.splits)
  have "\<forall>(q, r) \<in> set (zip chunk results). pq_index q < n \<and>
          (\<forall>t. br_next_page_token r = Some t \<longrightarrow> (pq_index q, t) \<in> {..<n} \<times> T)"
    using tokens 2(6) by (auto simp: pending_ok_def dest: set_zip_leftD set_zip_rightD)
  then have ok: "progress_ok n ({..<n} \<times> T) g1" "pending_ok n (og_next g1)"
    "length (og_seen g1) + length (og_next g) = length (og_seen g) + length (og_next g1)"
    using add_results_ok [OF add 2(4,5)] by auto
  have "progress_ok n ({..<n} \<times> T) g' \<and> pending_ok n (og_next g') \<and>
      length (og_seen g') + length (og_next g1) = length (og_seen g1) + length (og_next g')"
    using "2.IH" [OF _ rest 2(3) ok(1,2)] 2(6) len by simp
  then show ?case using ok by simp
qed simp

lemma chunks_subset: "c \<in> set (chunks n xs) \<Longrightarrow> set c \<subseteq> set xs"
proof (induction n xs rule: chunks.induct)
  case (1 n xs)
  show ?case
  proof (cases "xs = [] \<or> n = 0")
    case True
    then show ?thesis using "1.prems" by (simp add: chunks.simps [of n xs])
  next
    case False
    then have "c = take n xs \<or> c \<in> set (chunks n (drop n xs))"
      using "1.prems" by (simp add: chunks.simps [of n xs])
    then show ?thesis using "1.IH" [OF False] set_take_subset set_drop_subset by fast
  qed
qed

lemma pending_ok_chunks: "pending_ok n pending \<Longrightarrow> \<forall>c \<in> set (chunks k pending). pending_ok n c"
  unfolding pending_ok_def using chunks_subset by blast

lemma initial_ok:
  "progress_ok (length ps) T (initial_progress ps)" "pending_ok (length ps) (initial_pending ps)"
  by (auto simp: progress_ok_def initial_progress_def pending_ok_def initial_pending_def
      dest: in_set_enumerate_eq [THEN iffD1])

text \<open>Every round of pages sees new tokens, so finitely many tokens allow finitely many rounds.\<close>

lemma query_pages_returns:
  assumes "finite T" "tokens_from T env"
  shows "progress_ok n ({..<n} \<times> T) g \<Longrightarrow> pending_ok n pending \<Longrightarrow>
    \<exists>r. query_pages env p pending g sent = Some r"
proof (induction "card ({..<n} \<times> T) - length (og_seen g)" arbitrary: pending g sent rule: less_induct)
  case less
  show ?case
  proof (cases "pending = []")
    case True
    then show ?thesis by (subst query_pages.simps) simp
  next
    case False
    let ?round = "query_chunks env p (chunks max_batch_size pending) (g\<lparr>og_next := []\<rparr>) sent"
    show ?thesis
    proof (cases "fst ?round")
      case (Inl e)
      then obtain sent' where "?round = (Inl e, sent')" by (cases ?round) auto
      then show ?thesis using False by (subst query_pages.simps) simp
    next
      case (Inr g')
      then obtain sent' where round: "?round = (Inr g', sent')" by (cases ?round) auto
      have "progress_ok n ({..<n} \<times> T) (g\<lparr>og_next := []\<rparr>)" "pending_ok n (og_next (g\<lparr>og_next := []\<rparr>))"
        using less(2) by (simp_all add: progress_ok_def pending_ok_def)
      from query_chunks_ok [OF round assms(2) this pending_ok_chunks [OF less(3)]]
      have ok: "progress_ok n ({..<n} \<times> T) g'" "pending_ok n (og_next g')"
        "length (og_seen g') = length (og_seen g) + length (og_next g')" by auto
      have "length (og_seen g') \<le> card ({..<n} \<times> T)"
        using ok(1) assms(1) unfolding progress_ok_def
        by (metis card_mono distinct_card finite_SigmaI finite_lessThan)
      have "\<exists>r. query_pages env p (og_next g') g' sent' = Some r"
      proof (cases "og_next g' = []")
        case True
        then show ?thesis by (subst query_pages.simps) simp
      next
        case next_page: False
        then have "card ({..<n} \<times> T) - length (og_seen g') < card ({..<n} \<times> T) - length (og_seen g)"
          using ok(3) \<open>length (og_seen g') \<le> _\<close> by (cases "og_next g'") auto
        then show ?thesis using less(1) ok by blast
      qed
      then show ?thesis using False round by (subst query_pages.simps) simp
    qed
  qed
qed

text \<open>
  C30: when the page tokens of the server come from a finite set, a query
  returns, also when the server keeps sending page tokens.
\<close>
theorem osv_query_terminates:
  assumes "finite T" "tokens_from T env"
  shows "\<exists>r sent'. query_inner F env p packages sent = Some (r, sent')"
proof -
  obtain r sent1 where "query_pages env p (initial_pending packages) (initial_progress packages) sent = Some (r, sent1)"
    using query_pages_returns [OF assms initial_ok] by fastforce
  then show ?thesis by (cases r) (auto simp: query_inner_def split: prod.splits)
qed

section \<open>Findings\<close>

lemma query_pages_ok:
  assumes "query_pages env p pending g sent = Some (Inr g', sent')"
    and "progress_ok n ({..<n} \<times> UNIV) g" "pending_ok n pending"
  shows "progress_ok n ({..<n} \<times> UNIV) g'"
proof -
  have "progress_ok n ({..<n} \<times> UNIV) g \<longrightarrow> pending_ok n pending \<longrightarrow> fst r = Inr g' \<longrightarrow>
      progress_ok n ({..<n} \<times> UNIV) g'" if "query_pages env p pending g sent = Some r" for r
    using that
  proof (induction rule: query_pages.raw_induct [rotated, consumes 1, case_names 1])
    case (1 rec env p pending g sent r)
    show ?case
    proof (intro impI)
      assume g: "progress_ok n ({..<n} \<times> UNIV) g" and pending: "pending_ok n pending"
        and r: "fst r = Inr g'"
      show "progress_ok n ({..<n} \<times> UNIV) g'"
      proof (cases "pending = []")
        case True
        then have "r = (Inr g, sent)" using 1(2) by simp
        then show ?thesis using r g by simp
      next
        case False
        let ?round = "query_chunks env p (chunks max_batch_size pending) (g\<lparr>og_next := []\<rparr>) sent"
        obtain a sent1 where a: "?round = (a, sent1)" by fastforce
        then obtain g1 where round: "?round = (Inr g1, sent1)"
        proof (cases a)
          case (Inl e)
          then have "r = (Inl e, sent1)" using 1(2) False a by simp
          then show ?thesis using r by simp
        qed (use a that in blast)
        have "progress_ok n ({..<n} \<times> UNIV) (g\<lparr>og_next := []\<rparr>)"
          "pending_ok n (og_next (g\<lparr>og_next := []\<rparr>))" "tokens_from UNIV env"
          using g by (simp_all add: progress_ok_def pending_ok_def tokens_from_def)
        from query_chunks_ok [OF round this(3,1,2) pending_ok_chunks [OF pending]]
        have "progress_ok n ({..<n} \<times> UNIV) g1" "pending_ok n (og_next g1)" by auto
        moreover have "rec env p (og_next g1) g1 sent1 = Some r" using 1(2) False round by simp
        ultimately show ?thesis using 1(1) r by blast
      qed
    qed
  qed
  from this [OF assms(1)] show ?thesis using assms(2,3) by simp
qed

lemma load_advisory_ok:
  assumes "load_advisory env p i sent = (Inr r, sent')"
  shows "safe_identifier i \<and> oe_advisory env sent (op_base_url p @ ''/v1/vulns/'' @ i) = Payload r"
  using assms by (auto simp: load_advisory_def Let_def answered_def split: if_splits osv_answer.splits)

text \<open>A record the server gave for an identifier.\<close>

definition record_of :: "osv_env \<Rightarrow> osv_provider \<Rightarrow> str \<Rightarrow> osv_advisory \<Rightarrow> bool" where
  "record_of env p i r \<longleftrightarrow>
     os_id r = i \<and> safe_identifier i \<and>
     (\<exists>sent. oe_advisory env sent (op_base_url p @ ''/v1/vulns/'' @ i) = Payload r)"

lemma load_details_ok:
  assumes "load_details env p is sent = (Inr ds, sent')"
  shows "map fst ds = is \<and> (\<forall>(i, r) \<in> set ds. record_of env p i r)"
  using assms
proof (induction "is" arbitrary: ds sent)
  case Nil
  then show ?case by (simp add: load_details_def)
next
  case (Cons i rest)
  from Cons.prems obtain d sent1 ds' where
    one: "step_bind (load_advisory env p i) (\<lambda>r.
         if os_id r \<noteq> i
         then step_of (Inl (InvalidResponse (''OSV returned advisory `'' @ os_id r @
                ''` for requested ID `'' @ i @ ''`'')))
         else step_of (Inr (i, r))) sent = (Inr d, sent1)"
    and more: "load_details env p rest sent1 = (Inr ds', sent')" and ds: "ds = d # ds'"
    by (auto simp: load_details_def step_bind_Inr)
  from one obtain r where "load_advisory env p i sent = (Inr r, sent1)" "os_id r = i" "d = (i, r)"
    by (auto simp: step_bind_Inr split: if_splits)
  then have "fst d = i" "record_of env p (fst d) (snd d)"
    unfolding record_of_def by (auto dest!: load_advisory_ok)
  then show ?case using Cons.IH [OF more] by (auto simp: ds)
qed

lemma package_findings_ok:
  assumes "package_findings F details q is = Inr fs" "f \<in> set fs"
  shows "\<exists>r i. i \<in> set is \<and> map_of details i = Some r \<and> os_withdrawn r = None \<and>
    fd_package f = q \<and> fd_advisory f = translate_advisory F r q"
proof -
  from assms obtain fss where fss: "traverse (\<lambda>i.
        case map_of details i of
          None \<Rightarrow> Inl (InvalidResponse (''OSV details are missing for advisory '' @ i))
        | Some r \<Rightarrow> Inr (if os_withdrawn r \<noteq> None then []
                        else [\<lparr>fd_package = q, fd_advisory = translate_advisory F r q\<rparr>])) is = Inr fss"
    and fs: "fs = concat fss"
    by (auto simp: package_findings_def split: sum.splits)
  from assms(2) obtain x where x: "x \<in> set fss" "f \<in> set x" unfolding fs by auto
  from traverse_in_set [OF fss x(1)] show ?thesis
    using x(2) by (fastforce split: option.splits if_splits)
qed

lemma query_inner_parts:
  assumes "query_inner F env p packages sent = Some (Inr fs, sent')"
  obtains g sent1 details sent2 fss where
    "query_pages env p (initial_pending packages) (initial_progress packages) sent = Some (Inr g, sent1)"
    "load_details env p (bs_of_list (concat (og_identifiers g))) sent1 = (Inr details, sent2)"
    "traverse (\<lambda>(package, ids). package_findings F details package ids)
       (zip packages (og_identifiers g)) = Inr fss"
    "fs = concat fss"
  using assms
  by (auto simp: query_inner_def osv_findings_def step_bind_Inr and_then_Inr_iff
      eq_commute [of "Inr x" "and_then m f" for x m f]
      split: option.splits prod.splits sum.splits)

lemma query_inner_sound:
  assumes "query_inner F env p packages sent = Some (Inr fs, sent')" "f \<in> set fs"
  shows "\<exists>r. fd_package f \<in> set packages \<and> record_of env p (os_id r) r \<and> trim (os_id r) \<noteq> [] \<and>
    os_withdrawn r = None \<and> fd_advisory f = translate_advisory F r (fd_package f)"
proof -
  from assms(1) obtain g sent1 details sent2 fss where
    pages: "query_pages env p (initial_pending packages) (initial_progress packages) sent = Some (Inr g, sent1)"
    and details: "load_details env p (bs_of_list (concat (og_identifiers g))) sent1 = (Inr details, sent2)"
    and fss: "traverse (\<lambda>(package, ids). package_findings F details package ids)
       (zip packages (og_identifiers g)) = Inr fss" and fs: "fs = concat fss"
    by (rule query_inner_parts)
  have ok: "progress_ok (length packages) ({..<length packages} \<times> UNIV) g"
    by (rule query_pages_ok [OF pages initial_ok])
  from assms(2) obtain x where x: "x \<in> set fss" "f \<in> set x" unfolding fs by auto
  from traverse_in_set [OF fss x(1)] obtain q ids where
    q: "(q, ids) \<in> set (zip packages (og_identifiers g))" "package_findings F details q ids = Inr x"
    by auto
  from package_findings_ok [OF q(2) x(2)] obtain r i where
    r: "i \<in> set ids" "map_of details i = Some r" "os_withdrawn r = None" "fd_package f = q"
    "fd_advisory f = translate_advisory F r q" by blast
  have "record_of env p i r"
    using load_details_ok [OF details] map_of_SomeD [OF r(2)] by blast
  moreover have "trim i \<noteq> []"
    using ok r(1) set_zip_rightD [OF q(1)] by (auto simp: progress_ok_def)
  ultimately show ?thesis
    using r set_zip_leftD [OF q(1)] by (auto simp: record_of_def)
qed

text \<open>The OSV provider keeps the contract of a provider.\<close>

interpretation osv_sound: sound_provider "query_inner F env p" for F env p
proof
  fix ps s fs s'
  assume "query_inner F env p ps s = Some (Inr fs, s')"
  then show "list_all (finding_for ps) fs"
    unfolding list_all_iff
    by (fastforce dest!: query_inner_sound simp: finding_for_def translate_advisory_def Let_def)
qed

text \<open>
  C29: every finding of a query is about a package of the query and translates
  an advisory that the server returned under its own, safe and non-blank identifier and that is
  not withdrawn.
\<close>
theorem osv_findings_sound:
  assumes "query_inner F env p packages sent = Some (Inr findings, sent')" "f \<in> set findings"
  shows "\<exists>r sent1. fd_package f \<in> set packages \<and>
           oe_advisory env sent1 (op_base_url p @ ''/v1/vulns/'' @ os_id r) = Payload r \<and>
           safe_identifier (os_id r) \<and> trim (os_id r) \<noteq> [] \<and> os_withdrawn r = None \<and>
           fd_advisory f = translate_advisory F r (fd_package f)"
  using query_inner_sound [OF assms] by (auto simp: record_of_def)

text \<open>A server with one advisory, on the second page of the answer.\<close>

definition sample_advisory :: osv_advisory where
  "sample_advisory =
     \<lparr>os_id = ''A-1'', os_aliases = [''CVE''], os_summary = Some ''s'', os_details = None,
      os_modified = None, os_withdrawn = None, os_severity = [], os_affected = [],
      os_references = [], os_database_specific = JObject [(''severity'', JString ''HIGH'')]\<rparr>"

definition sample_osv :: osv_env where
  "sample_osv =
     \<lparr>oe_batch = \<lambda>sent url queries. Payload (map (\<lambda>q.
        if oq_page_token q = None then \<lparr>br_vulns = [], br_next_page_token = Some ''2''\<rparr>
        else \<lparr>br_vulns = [''A-1''], br_next_page_token = None\<rparr>) queries),
      oe_advisory = \<lambda>sent url. Payload sample_advisory\<rparr>"

definition exact_ops :: "rat float_ops" where
  "exact_ops =
     \<lparr>fl = \<lambda>n k. of_int n / 10 ^ k, fl_parse = \<lambda>s. map_option of_nat (parse_u32 s),
      fl_add = (+), fl_sub = (-), fl_mul = (*), fl_div = (/), fl_min = min, fl_powi = (^),
      fl_ceil = \<lambda>x. of_int (ceiling x), fl_le = (\<le>), fl_less = (<)\<rparr>"

theorem osv_query_terminates_witness:
  "\<exists>r sent'. query_inner exact_ops sample_osv \<lparr>op_base_url = ''u''\<rparr> [AuditPackage ''g'' ''a'' ''1''] [] =
     Some (r, sent')"
  by (rule osv_query_terminates [of "{''2''}"]) (auto simp: tokens_from_def sample_osv_def)

definition sample_package :: audit_package where
  "sample_package = AuditPackage ''g'' ''a'' ''1''"

lemma sample_query:
  "\<exists>sent'. query_inner exact_ops sample_osv \<lparr>op_base_url = ''u''\<rparr> [sample_package] [] =
     Some (Inr [\<lparr>fd_package = sample_package,
                 fd_advisory = translate_advisory exact_ops sample_advisory sample_package\<rparr>], sent')"
proof -
  have facts: "trim ''A-1'' = ''A-1''" "bs_insert ''A-1'' [] = [''A-1'']" "bs_of_list [''A-1''] = [''A-1'']"
    "safe_identifier ''A-1''" "os_id sample_advisory = ''A-1''" "os_withdrawn sample_advisory = None"
    by code_simp+
  show ?thesis
    by (simp add: query_inner_def initial_pending_def initial_progress_def query_pages.simps
        chunks.simps max_batch_size_def query_batch_def Let_def answered_def sample_osv_def step_bind_def
        step_of_def osv_query_of_def add_page_def osv_findings_def load_details_def
        load_advisory_def package_findings_def facts)
qed

theorem osv_findings_sound_witness:
  "\<exists>r. os_withdrawn r = None \<and>
     translate_advisory exact_ops sample_advisory sample_package = translate_advisory exact_ops r sample_package"
proof -
  obtain sent' where q: "query_inner exact_ops sample_osv \<lparr>op_base_url = ''u''\<rparr> [sample_package] [] =
     Some (Inr [\<lparr>fd_package = sample_package,
                 fd_advisory = translate_advisory exact_ops sample_advisory sample_package\<rparr>], sent')"
    using sample_query by blast
  show ?thesis
    using osv_findings_sound [OF q, of "\<lparr>fd_package = sample_package,
                 fd_advisory = translate_advisory exact_ops sample_advisory sample_package\<rparr>"] by auto
qed

end
