(* ===== verification/Audit_Cache.thy ===== *)
theory Audit_Cache
  imports Audit_Osv Files
begin

text \<open>
  The auditor of \<open>crates/jman-audit/src/cache.rs\<close>: it answers from the cache when it may, asks
  the provider otherwise, stores what it got, and falls back to an old answer when the provider
  fails. The provider is any vulnerability provider; the clock, SHA-256, the JSON codec and I/O
  faults are parameters.
\<close>

section \<open>Definitions\<close>

definition cache_schema_version :: "32 word" where
  "cache_schema_version = 1"

definition default_ttl :: "64 word" where
  "default_ttl = 3600"

record audit_options =
  ao_cache_dir :: path
  ao_offline :: bool
  ao_refresh :: bool
  ao_ttl :: "64 word"

text \<open>\<open>JMAN_CACHE_DIR\<close> and the cache directory of the platform are the first two arguments.\<close>

definition platform_default :: "path option \<Rightarrow> path option \<Rightarrow> bool \<Rightarrow> bool \<Rightarrow> audit_options" where
  "platform_default variable cache_dir offline refresh =
     \<lparr>ao_cache_dir =
        (case variable of
           Some p \<Rightarrow> p
         | None \<Rightarrow> path_join (case cache_dir of Some p \<Rightarrow> p | None \<Rightarrow> path_of ''.jman-cache'')
                    (path_of ''jman'')),
      ao_offline = offline, ao_refresh = refresh, ao_ttl = default_ttl\<rparr>"

record cached_audit =
  ca_schema_version :: "32 word"
  ca_fetched_at :: "64 word"
  ca_provider :: str
  ca_findings :: "finding list"

text \<open>The clock is read once for the age of a cached answer and once when an answer is stored.\<close>

record audit_env =
  an_sha256_hex :: "str \<Rightarrow> str"
  an_decode :: "str \<Rightarrow> (str, cached_audit) result"
  an_encode :: "cached_audit \<Rightarrow> str"
  an_checked_at :: "64 word"
  an_stored_at :: "64 word"
  an_faults :: io_faults
  an_process_id :: nat

record 's audit_state =
  as_disk :: disk
  as_sequence :: "64 word"
  as_provider :: 's

definition cache_directory_name :: "str \<Rightarrow> str" where
  "cache_directory_name provider =
     (let v = map (\<lambda>c. if is_alnum c \<or> c = CHR ''-'' \<or> c = CHR ''_'' then c else CHR ''_'') provider
      in if v = [] \<or> list_all (\<lambda>c. c = CHR ''.'') v then ''provider'' else v)"

definition cache_input :: "str \<Rightarrow> audit_package list \<Rightarrow> str" where
  "cache_input identity packages =
     identity @ concat (map (\<lambda>p. concat (map (\<lambda>t. CHR 0x00 # t) (package_key p))) packages)"

definition audit_cache_path ::
    "audit_env \<Rightarrow> audit_options \<Rightarrow> 's vulnerability_provider \<Rightarrow> audit_package list \<Rightarrow> path" where
  "audit_cache_path env opts provider packages =
     path_join (path_join (path_join (ao_cache_dir opts) (path_of ''audit''))
       (path_of (cache_directory_name (vp_name provider))))
       (path_of (an_sha256_hex env (cache_input (vp_identity provider) packages) @ ''.json''))"

definition cache_is_fresh :: "audit_env \<Rightarrow> 64 word \<Rightarrow> cached_audit \<Rightarrow> bool" where
  "cache_is_fresh env ttl cache \<longleftrightarrow>
     ca_schema_version cache = cache_schema_version \<and>
     ca_fetched_at cache \<le> sat_add64 (an_checked_at env) 300 \<and>
     sat_sub64 (an_checked_at env) (ca_fetched_at cache) \<le> ttl"

definition into_result :: "cached_audit \<Rightarrow> audit_source \<Rightarrow> audit_result" where
  "into_result cache source =
     \<lparr>ar_provider = ca_provider cache, ar_source = source, ar_findings = ca_findings cache\<rparr>"

definition read_cache :: "audit_env \<Rightarrow> disk \<Rightarrow> path \<Rightarrow> (audit_error, cached_audit option) result" where
  "read_cache env d p =
     (case read_file d p of
        Inl NotFound \<Rightarrow> Inr None
      | Inl (ReadFailed e) \<Rightarrow> Inl (AuditCacheError p e)
      | Inr bytes \<Rightarrow>
          and_then (map_err (InvalidCache p) (an_decode env bytes)) (\<lambda>cache.
          if ca_schema_version cache \<noteq> cache_schema_version
          then Inl (InvalidCache p (''unsupported schema version '' @
                     show_nat (unat (ca_schema_version cache))))
          else Inr (Some cache)))"

definition write_cache ::
    "audit_env \<Rightarrow> path \<Rightarrow> cached_audit \<Rightarrow> ('s audit_state, audit_error, unit) step" where
  "write_cache env p cache s =
     (let dir = butlast p
      in case mkdir_fault (an_faults env) dir of
           Some e \<Rightarrow> (Inl (AuditCacheError dir e), s)
         | None \<Rightarrow>
             (let temporary = with_extension p
                    (''tmp-'' @ show_nat (an_process_id env) @ ''-'' @ show_nat (unat (as_sequence s)));
                  s = s\<lparr>as_sequence := as_sequence s + 1\<rparr>
              in case write_fault (an_faults env) temporary of
                   Some (e, left) \<Rightarrow>
                     (Inl (AuditCacheError temporary e), s\<lparr>as_disk := failed_write (as_disk s) temporary left\<rparr>)
                 | None \<Rightarrow>
                     (let s = s\<lparr>as_disk := (as_disk s)(temporary \<mapsto> Bytes (an_encode env cache))\<rparr>
                      in case rename_fault (an_faults env) p of
                           Some e \<Rightarrow> (Inl (AuditCacheError p e), s)
                         | None \<Rightarrow>
                             (Inr (), s\<lparr>as_disk := (as_disk s)
                                (temporary := None, p \<mapsto> Bytes (an_encode env cache))\<rparr>))))"

definition finding_order :: "finding \<Rightarrow> audit_package \<times> str" where
  "finding_order f = (fd_package f, ad_id (fd_advisory f))"

definition stored_audit :: "audit_env \<Rightarrow> 's vulnerability_provider \<Rightarrow> finding list \<Rightarrow> cached_audit" where
  "stored_audit env provider findings =
     \<lparr>ca_schema_version = cache_schema_version, ca_fetched_at = an_stored_at env,
      ca_provider = vp_name provider, ca_findings = sort_key finding_order findings\<rparr>"

text \<open>The whole of \<open>Auditor::audit\<close>; \<open>None\<close> when the provider does not return.\<close>

definition audit_packages ::
    "audit_env \<Rightarrow> audit_options \<Rightarrow> 's vulnerability_provider \<Rightarrow> audit_package list \<Rightarrow> 's audit_state \<Rightarrow>
     ((audit_error, audit_result) result \<times> 's audit_state) option" where
  "audit_packages env opts provider requested s =
     (let packages = sort_dedup requested;
          p = audit_cache_path env opts provider packages;
          cached = read_cache env (as_disk s) p
      in if ao_offline opts
         then Some (and_then cached (\<lambda>c. and_then (ok_or AuditOfflineMiss c) (\<lambda>c.
                      Inr (into_result c Cache))), s)
         else (case (if ao_refresh opts then None
                     else (case cached of
                             Inr (Some c) \<Rightarrow> if cache_is_fresh env (ao_ttl opts) c then Some c else None
                           | _ \<Rightarrow> None)) of
                 Some c \<Rightarrow> Some (Inr (into_result c Cache), s)
               | None \<Rightarrow>
                   (case vp_query provider packages (as_provider s) of
                      None \<Rightarrow> None
                    | Some (Inr findings, v) \<Rightarrow>
                        (let cache = stored_audit env provider findings
                         in Some (step_bind (write_cache env p cache)
                              (\<lambda>_. step_of (Inr (into_result cache Network)))
                              (s\<lparr>as_provider := v\<rparr>)))
                    | Some (Inl e, v) \<Rightarrow>
                        Some ((case cached of
                                 Inr (Some c) \<Rightarrow> Inr (into_result c StaleCache) | _ \<Rightarrow> Inl e),
                              s\<lparr>as_provider := v\<rparr>))))"

section \<open>Lemmas\<close>

lemma audit_packages_cong: "set ps = set qs \<Longrightarrow> audit_packages env opts v ps = audit_packages env opts v qs"
  unfolding audit_packages_def by (simp add: sort_dedup_cong [of ps qs])

text \<open>
  The answer depends on the set of packages only, not on their order
  or on repetitions.
\<close>
theorem audit_order_irrelevant:
  assumes "set ps = set qs"
  shows "audit_packages env opts provider ps s = audit_packages env opts provider qs s"
  using audit_packages_cong [OF assms] by (rule fun_cong)

theorem audit_order_irrelevant_witness:
  "\<forall>env opts provider s. audit_packages env opts provider [sample_package, AuditPackage ''x'' ''y'' ''z''] s =
     audit_packages env opts provider
       [AuditPackage ''x'' ''y'' ''z'', sample_package, AuditPackage ''x'' ''y'' ''z''] s"
  by (intro allI audit_order_irrelevant) auto

lemma write_cache_ok:
  assumes "write_cache env p cache s = (Inr u, s')"
  shows "as_disk s' p = Some (Bytes (an_encode env cache)) \<and> as_provider s' = as_provider s"
  using assms by (auto simp: write_cache_def Let_def split: option.splits)

lemma read_cache_written:
  assumes "d p = Some (Bytes (an_encode env cache))" "an_decode env (an_encode env cache) = Inr cache"
    and "ca_schema_version cache = cache_schema_version"
  shows "read_cache env d p = Inr (Some cache)"
  using assms by (simp add: read_cache_def)

text \<open>The three ways to an answer.\<close>

lemma audit_packages_cases:
  assumes "audit_packages env opts provider ps s = Some (Inr r, s')"
  obtains
    (cache) c where "read_cache env (as_disk s) (audit_cache_path env opts provider (sort_dedup ps)) = Inr (Some c)"
      "r = into_result c Cache" "s' = s"
      "ao_offline opts \<or> \<not> ao_refresh opts \<and> cache_is_fresh env (ao_ttl opts) c"
  | (network) fs v where "\<not> ao_offline opts"
      "vp_query provider (sort_dedup ps) (as_provider s) = Some (Inr fs, v)"
      "r = into_result (stored_audit env provider fs) Network"
      "write_cache env (audit_cache_path env opts provider (sort_dedup ps))
         (stored_audit env provider fs) (s\<lparr>as_provider := v\<rparr>) = (Inr (), s')"
  | (stale) c e v where "\<not> ao_offline opts"
      "vp_query provider (sort_dedup ps) (as_provider s) = Some (Inl e, v)"
      "read_cache env (as_disk s) (audit_cache_path env opts provider (sort_dedup ps)) = Inr (Some c)"
      "r = into_result c StaleCache" "s' = s\<lparr>as_provider := v\<rparr>"
proof -
  let ?ps = "sort_dedup ps"
  let ?p = "audit_cache_path env opts provider ?ps"
  let ?cached = "read_cache env (as_disk s) ?p"
  let ?use = "if ao_refresh opts then None
    else (case ?cached of Inr (Some c) \<Rightarrow> if cache_is_fresh env (ao_ttl opts) c then Some c else None
          | _ \<Rightarrow> None)"
  show ?thesis
  proof (cases "ao_offline opts")
    case True
    then have "and_then ?cached (\<lambda>c. and_then (ok_or AuditOfflineMiss c) (\<lambda>c. Inr (into_result c Cache))) = Inr r"
      and s': "s' = s"
      using assms by (auto simp: audit_packages_def Let_def)
    then obtain c where "?cached = Inr (Some c)" "r = into_result c Cache"
      by (auto simp: and_then_Inr_iff)
    then show ?thesis using cache True s' by blast
  next
    case online: False
    show ?thesis
    proof (cases ?use)
      case (Some c)
      then have "?cached = Inr (Some c)" "\<not> ao_refresh opts" "cache_is_fresh env (ao_ttl opts) c"
        by (auto split: if_splits sum.splits option.splits)
      moreover from this have "r = into_result c Cache" "s' = s"
        using assms online by (simp_all add: audit_packages_def Let_def)
      ultimately show ?thesis using cache by blast
    next
      case None
      then have run: "(case vp_query provider ?ps (as_provider s) of
          None \<Rightarrow> None
        | Some (Inr findings, v) \<Rightarrow>
            (let cache = stored_audit env provider findings
             in Some (step_bind (write_cache env ?p cache)
                  (\<lambda>_. step_of (Inr (into_result cache Network))) (s\<lparr>as_provider := v\<rparr>)))
        | Some (Inl e, v) \<Rightarrow>
            Some ((case ?cached of Inr (Some c) \<Rightarrow> Inr (into_result c StaleCache) | _ \<Rightarrow> Inl e),
                  s\<lparr>as_provider := v\<rparr>)) = Some (Inr r, s')"
        using assms online unfolding audit_packages_def Let_def by (simp only: if_False option.case)
      then obtain a v where q: "vp_query provider ?ps (as_provider s) = Some (a, v)"
        by (cases "vp_query provider ?ps (as_provider s)") auto
      show ?thesis
      proof (cases a)
        case (Inl e)
        then obtain c where "?cached = Inr (Some c)" "r = into_result c StaleCache"
            "s' = s\<lparr>as_provider := v\<rparr>"
          using run q by (auto split: sum.splits option.splits)
        then show ?thesis using stale online q Inl by blast
      next
        case (Inr fs)
        then have "step_bind (write_cache env ?p (stored_audit env provider fs))
             (\<lambda>_. step_of (Inr (into_result (stored_audit env provider fs) Network)))
             (s\<lparr>as_provider := v\<rparr>) = (Inr r, s')"
          using run q by (simp add: Let_def)
        then have "write_cache env ?p (stored_audit env provider fs) (s\<lparr>as_provider := v\<rparr>) = (Inr (), s')"
          "r = into_result (stored_audit env provider fs) Network"
          by (auto simp: step_bind_Inr)
        then show ?thesis using network online q Inr by blast
      qed
    qed
  qed
qed

section \<open>The client of a provider\<close>

context sound_provider begin

lemma network_findings:
  assumes "vp_query provider = query"
    and "audit_packages env opts provider ps s = Some (Inr r, s')" "ar_source r = Network"
  shows "list_all (finding_for ps) (ar_findings r) \<and> sorted (map finding_order (ar_findings r))"
proof (rule audit_packages_cases [OF assms(2)])
  fix fs v
  assume q: "vp_query provider (sort_dedup ps) (as_provider s) = Some (Inr fs, v)"
    and r: "r = into_result (stored_audit env provider fs) Network"
  have "list_all (finding_for (sort_dedup ps)) fs"
    using query_sound q unfolding assms(1) by blast
  then show ?thesis
    by (simp add: r into_result_def stored_audit_def list_all_iff finding_for_def)
qed (use assms(3) in \<open>simp_all add: into_result_def\<close>)

end

text \<open>
  How an OSV audit came to its answer. From the cache: the provider was not
  asked and nothing changed. From the network: the sorted findings concern requested packages
  only. From a stale cache: the provider failed, and the cache file was readable. An offline
  audit always answers from the cache.
\<close>
theorem audit_sources:
  assumes "audit_packages env opts (osv F web p) packages s = Some (Inr r, s')"
  shows "(ar_source r = Cache \<longrightarrow> s' = s) \<and>
         (ar_source r = Network \<longrightarrow>
            (\<forall>f \<in> set (ar_findings r). fd_package f \<in> set packages) \<and>
            sorted (map finding_order (ar_findings r))) \<and>
         (ar_source r = StaleCache \<longrightarrow>
            (\<exists>e v. query_inner F web p (sort_dedup packages) (as_provider s) = Some (Inl e, v) \<and>
               s' = s\<lparr>as_provider := v\<rparr>) \<and>
            (\<exists>c. read_cache env (as_disk s)
                   (audit_cache_path env opts (osv F web p) (sort_dedup packages)) = Inr (Some c) \<and>
                 ar_findings r = ca_findings c)) \<and>
         (ao_offline opts \<longrightarrow> ar_source r = Cache)"
proof -
  have net: "list_all (finding_for packages) (ar_findings r) \<and> sorted (map finding_order (ar_findings r))"
    if "ar_source r = Network"
    using osv_sound.network_findings [OF _ assms that, of F web p] by (simp add: osv_def)
  show ?thesis
    by (rule audit_packages_cases [OF assms])
      (use net in \<open>auto simp: into_result_def osv_def list_all_iff finding_for_def\<close>)
qed

text \<open>What the cache file of an answer holds.\<close>

definition stored_answer :: "audit_env \<Rightarrow> audit_result \<Rightarrow> cached_audit" where
  "stored_answer env r =
     \<lparr>ca_schema_version = cache_schema_version, ca_fetched_at = an_stored_at env,
      ca_provider = ar_provider r, ca_findings = ar_findings r\<rparr>"

text \<open>
  C31: what an audit got from the network is what the next audits of the same
  packages answer from the cache, offline, and online while it is fresh and no refresh is asked
  for; they do not ask the provider and change nothing.
\<close>
theorem audit_replays:
  assumes "audit_packages env opts provider packages s = Some (Inr r, s')" "ar_source r = Network"
    and codec: "an_decode env (an_encode env (stored_answer env r)) = Inr (stored_answer env r)"
    and "set again = set packages"
    and later: "an_stored_at env \<le> an_checked_at later"
      "an_checked_at later - an_stored_at env \<le> ao_ttl opts"
      "an_sha256_hex later = an_sha256_hex env" "an_decode later = an_decode env"
  shows "audit_packages env (opts\<lparr>ao_offline := True\<rparr>) provider again s' =
           Some (Inr (r\<lparr>ar_source := Cache\<rparr>), s') \<and>
         audit_packages later (opts\<lparr>ao_refresh := False\<rparr>) provider again s' =
           Some (Inr (r\<lparr>ar_source := Cache\<rparr>), s')"
proof
  let ?p = "audit_cache_path env opts provider (sort_dedup packages)"
  let ?c = "stored_answer env r"
  have s': "as_disk s' ?p = Some (Bytes (an_encode env ?c))"
  proof (rule audit_packages_cases [OF assms(1)])
    fix fs v
    assume r: "r = into_result (stored_audit env provider fs) Network"
      and "write_cache env ?p (stored_audit env provider fs) (s\<lparr>as_provider := v\<rparr>) = (Inr (), s')"
    moreover have "stored_audit env provider fs = ?c"
      by (simp add: r stored_answer_def into_result_def stored_audit_def)
    ultimately show ?thesis using write_cache_ok by metis
  qed (use assms(2) in \<open>simp_all add: into_result_def\<close>)
  have schema: "ca_schema_version ?c = cache_schema_version" by (simp add: stored_answer_def)
  have again: "sort_dedup again = sort_dedup packages" using assms(4) by (rule sort_dedup_cong)
  have c: "into_result ?c Cache = r\<lparr>ar_source := Cache\<rparr>" by (simp add: stored_answer_def into_result_def)
  have paths: "audit_cache_path e (opts\<lparr>ao_offline := True\<rparr>) provider ps = audit_cache_path e opts provider ps"
    "audit_cache_path e (opts\<lparr>ao_refresh := False\<rparr>) provider ps = audit_cache_path e opts provider ps" for e ps
    by (simp_all add: audit_cache_path_def)
  show "audit_packages env (opts\<lparr>ao_offline := True\<rparr>) provider again s' =
           Some (Inr (r\<lparr>ar_source := Cache\<rparr>), s')"
    using read_cache_written [of "as_disk s'" ?p, OF s' codec schema]
    by (simp add: audit_packages_def again paths c)
  have "audit_cache_path later opts provider (sort_dedup packages) = ?p"
    using later by (simp add: audit_cache_path_def)
  moreover have "read_cache later (as_disk s') ?p = Inr (Some ?c)"
    using later s' codec schema by (simp add: read_cache_def)
  moreover have "cache_is_fresh later (ao_ttl opts) ?c"
    using later schema by (simp add: cache_is_fresh_def stored_answer_def sat_sub64_ge sat_add64_ge)
  ultimately show "audit_packages later (opts\<lparr>ao_refresh := False\<rparr>) provider again s' =
           Some (Inr (r\<lparr>ar_source := Cache\<rparr>), s')"
    by (simp add: audit_packages_def Let_def again paths c)
qed

definition sample_stored :: cached_audit where
  "sample_stored =
     \<lparr>ca_schema_version = cache_schema_version, ca_fetched_at = 100, ca_provider = ''osv'',
      ca_findings = [\<lparr>fd_package = sample_package,
         fd_advisory = translate_advisory exact_ops sample_advisory sample_package\<rparr>]\<rparr>"

definition sample_audit_env :: audit_env where
  "sample_audit_env =
     \<lparr>an_sha256_hex = \<lambda>s. ''00'', an_decode = \<lambda>s. Inr sample_stored, an_encode = \<lambda>c. ''{}'',
      an_checked_at = 100, an_stored_at = 100, an_faults = no_faults, an_process_id = 1\<rparr>"

definition sample_options :: audit_options where
  "sample_options = platform_default None None False False"

definition sample_audit_state :: "osv_request list audit_state" where
  "sample_audit_state = \<lparr>as_disk = Map.empty, as_sequence = 0, as_provider = []\<rparr>"

abbreviation sample_provider :: "osv_request list vulnerability_provider" where
  "sample_provider \<equiv> osv exact_ops sample_osv \<lparr>op_base_url = ''u''\<rparr>"

lemma sample_audit:
  "\<exists>s'. audit_packages sample_audit_env sample_options sample_provider [sample_package] sample_audit_state =
     Some (Inr (into_result sample_stored Network), s')"
proof -
  obtain sent' where q: "query_inner exact_ops sample_osv \<lparr>op_base_url = ''u''\<rparr> [sample_package] [] =
     Some (Inr [\<lparr>fd_package = sample_package,
                 fd_advisory = translate_advisory exact_ops sample_advisory sample_package\<rparr>], sent')"
    using sample_query by blast
  have sort: "sort_dedup [sample_package] = [sample_package]" by (simp add: sort_dedup_def)
  show ?thesis
    by (simp add: audit_packages_def Let_def sort sample_options_def platform_default_def read_cache_def
        sample_audit_state_def osv_def q stored_audit_def write_cache_def sample_audit_env_def
        step_bind_def step_of_def sample_stored_def osv_name_def read_file_def)
qed

theorem audit_sources_witness:
  "fd_package (hd (ca_findings sample_stored)) = sample_package"
proof -
  obtain s' where "audit_packages sample_audit_env sample_options sample_provider [sample_package]
     sample_audit_state = Some (Inr (into_result sample_stored Network), s')"
    using sample_audit by blast
  from audit_sources [OF this] have "\<forall>f \<in> set (ca_findings sample_stored). fd_package f = sample_package"
    by (simp add: into_result_def)
  then show ?thesis by (simp add: sample_stored_def)
qed

theorem audit_replays_witness:
  "\<exists>s'. audit_packages sample_audit_env (sample_options\<lparr>ao_offline := True\<rparr>) sample_provider
     [sample_package, sample_package] s' = Some (Inr (into_result sample_stored Cache), s')"
proof -
  obtain s' where audit: "audit_packages sample_audit_env sample_options sample_provider [sample_package]
     sample_audit_state = Some (Inr (into_result sample_stored Network), s')"
    using sample_audit by blast
  have answer: "(into_result sample_stored Network)\<lparr>ar_source := Cache\<rparr> = into_result sample_stored Cache"
    "ar_source (into_result sample_stored Network) = Network" by (simp_all add: into_result_def)
  have "stored_answer sample_audit_env (into_result sample_stored Network) = sample_stored"
    by (simp add: stored_answer_def into_result_def sample_stored_def sample_audit_env_def)
  then have codec: "an_decode sample_audit_env (an_encode sample_audit_env
      (stored_answer sample_audit_env (into_result sample_stored Network))) =
      Inr (stored_answer sample_audit_env (into_result sample_stored Network))"
    by (simp add: sample_audit_env_def)
  have clock: "an_stored_at sample_audit_env \<le> an_checked_at sample_audit_env"
    "an_checked_at sample_audit_env - an_stored_at sample_audit_env \<le> ao_ttl sample_options"
    by (simp_all add: sample_audit_env_def)
  have same: "set [sample_package, sample_package] = set [sample_package]" by simp
  show ?thesis
    using audit_replays [OF audit answer(2) codec same clock refl refl] by (auto simp: answer(1))
qed

end
