(* ===== verification/Audit_Report.thy ===== *)
theory Audit_Report
  imports Audit_Model Config_Validate
begin

text \<open>
  The report of \<open>jman audit\<close> (\<open>crates/jman-cli/src/main.rs\<close>): suppressions and their expiry, the
  severity thresholds, the counts and the order of the findings.
\<close>

section \<open>Definitions\<close>

record audit_dependency_path =
  dp_module :: str
  dp_coordinates :: "str list"

record applied_audit_suppression =
  as_reason :: str
  as_expires :: str

record audit_finding_report =
  fr_package :: audit_package
  fr_advisory :: advisory
  fr_paths :: "audit_dependency_path list"
  fr_active :: bool
  fr_suppression :: "applied_audit_suppression option"

record dependency_audit_report =
  rp_provider :: str
  rp_source :: audit_source
  rp_packages_checked :: nat
  rp_total_findings :: nat
  rp_reported_findings :: nat
  rp_active :: nat
  rp_suppressed :: nat
  rp_denied :: nat
  rp_suppression_warnings :: "str list"
  rp_findings :: "audit_finding_report list"

definition validate_audit_thresholds :: "severity \<Rightarrow> severity option \<Rightarrow> (str, unit) result" where
  "validate_audit_thresholds minimum deny =
     (if is_some_and (\<lambda>d. d < minimum) deny
      then Inl ''--severity cannot be higher than --deny because denied findings would be hidden''
      else Inr ())"

text \<open>The first suppression that names the advisory or one of its aliases.\<close>

definition matching_suppression :: "audit_suppression list \<Rightarrow> finding \<Rightarrow> audit_suppression option" where
  "matching_suppression suppressions f =
     List.find (\<lambda>s. su_id s = ad_id (fd_advisory f) \<or> su_id s \<in> set (ad_aliases (fd_advisory f)))
       suppressions"

text \<open>Dates are compared as strings.\<close>

definition applied_suppression ::
    "audit_suppression list \<Rightarrow> str \<Rightarrow> finding \<Rightarrow> audit_suppression option" where
  "applied_suppression suppressions today f =
     Option.bind (matching_suppression suppressions f)
       (\<lambda>s. if su_expires s < today then None else Some s)"

definition finding_report ::
    "(audit_package, audit_dependency_path list) btree_map \<Rightarrow> audit_suppression list \<Rightarrow> str \<Rightarrow>
     finding \<Rightarrow> audit_finding_report" where
  "finding_report paths suppressions today f =
     (let applied = applied_suppression suppressions today f
      in \<lparr>fr_package = fd_package f, fr_advisory = fd_advisory f,
          fr_paths = (case bt_get paths (fd_package f) of Some ps \<Rightarrow> ps | None \<Rightarrow> []),
          fr_active = (applied = None),
          fr_suppression =
            map_option (\<lambda>s. \<lparr>as_reason = su_reason s, as_expires = su_expires s\<rparr>) applied\<rparr>)"

definition used_suppressions :: "audit_suppression list \<Rightarrow> str \<Rightarrow> finding list \<Rightarrow> str list" where
  "used_suppressions suppressions today fs =
     bs_of_list (map su_id (List.map_filter (applied_suppression suppressions today) fs))"

definition suppression_warnings ::
    "audit_suppression list \<Rightarrow> str \<Rightarrow> str list \<Rightarrow> str list" where
  "suppression_warnings suppressions today used =
     bs_of_list
       (map (\<lambda>s. ''audit suppression '' @ [CHR 0x27] @ su_id s @ [CHR 0x27] @ '' expired on '' @
               su_expires s @ '' and no longer applies'')
          (filter (\<lambda>s. su_expires s < today) suppressions) @
        map (\<lambda>s. ''audit suppression '' @ [CHR 0x27] @ su_id s @ [CHR 0x27] @
               '' did not match any finding'')
          (filter (\<lambda>s. today \<le> su_expires s \<and> su_id s \<notin> set used) suppressions))"

text \<open>Worst first, then by package and identifier.\<close>

definition report_order :: "audit_finding_report \<Rightarrow> nat \<times> audit_package \<times> str" where
  "report_order r =
     (severity_rank Critical - severity_rank (ad_severity (fr_advisory r)), fr_package r,
      ad_id (fr_advisory r))"

definition at_least :: "severity \<Rightarrow> audit_finding_report \<Rightarrow> bool" where
  "at_least t r \<longleftrightarrow> t \<le> ad_severity (fr_advisory r)"

definition evaluate_audit ::
    "audit_result \<Rightarrow> (audit_package, audit_dependency_path list) btree_map \<Rightarrow>
     audit_suppression list \<Rightarrow> severity \<Rightarrow> severity option \<Rightarrow> str \<Rightarrow> dependency_audit_report" where
  "evaluate_audit result paths suppressions minimum deny today =
     (let all_reports = map (finding_report paths suppressions today) (ar_findings result);
          denied = (case deny of
                      None \<Rightarrow> 0
                    | Some t \<Rightarrow> length (filter (\<lambda>r. fr_active r \<and> at_least t r) all_reports));
          kept = sort_key report_order (filter (at_least minimum) all_reports);
          active = length (filter fr_active kept)
      in \<lparr>rp_provider = ar_provider result, rp_source = ar_source result,
          rp_packages_checked = length paths, rp_total_findings = length (ar_findings result),
          rp_reported_findings = length kept, rp_active = active,
          rp_suppressed = length kept - active, rp_denied = denied,
          rp_suppression_warnings =
            suppression_warnings suppressions today
              (used_suppressions suppressions today (ar_findings result)),
          rp_findings = kept\<rparr>)"

text \<open>The exit of the command: denied findings are an error.\<close>

definition severity_debug :: "severity \<Rightarrow> str" where
  "severity_debug s =
     (case s of Unknown \<Rightarrow> ''Unknown'' | Low \<Rightarrow> ''Low'' | Medium \<Rightarrow> ''Medium'' | High \<Rightarrow> ''High''
      | Critical \<Rightarrow> ''Critical'')"

definition audit_exit :: "dependency_audit_report \<Rightarrow> severity option \<Rightarrow> (str, unit) result" where
  "audit_exit report deny =
     (if 0 < rp_denied report
      then Inl (''audit policy denied '' @ show_nat (rp_denied report) @ '' active finding'' @
                (if rp_denied report = 1 then [] else ''s'') @ '' at '' @
                (case deny of None \<Rightarrow> [] | Some t \<Rightarrow> severity_debug t) @ '' severity or higher'')
      else Inr ())"

section \<open>Lemmas\<close>

lemma filter_mset_sort_key: "length (filter P (sort_key f xs)) = length (filter P xs)"
  by (metis filter_sort length_sort)

lemma at_least_antimono: "s \<le> t \<Longrightarrow> at_least t r \<Longrightarrow> at_least s r"
  unfolding at_least_def by (rule order_trans)

lemma denied_kept:
  assumes "minimum \<le> t"
  shows "length (filter (\<lambda>r. fr_active r \<and> at_least t r) rs) =
    length (filter (\<lambda>r. fr_active r \<and> at_least t r) (sort_key report_order (filter (at_least minimum) rs)))"
proof -
  have "filter (\<lambda>r. fr_active r \<and> at_least t r) (filter (at_least minimum) rs) =
      filter (\<lambda>r. fr_active r \<and> at_least t r) rs"
    by (induction rs) (auto simp: at_least_antimono [OF assms])
  then show ?thesis by (simp only: filter_mset_sort_key)
qed

text \<open>
  C32: with thresholds that pass the check, the number of denied findings is
  the number of active findings of that severity among the reported ones, so no denied finding
  is hidden; the findings are sorted, and the counts add up.
\<close>
theorem denied_findings_shown:
  assumes "validate_audit_thresholds minimum (Some t) = Inr ()"
  shows "let report = evaluate_audit result paths suppressions minimum (Some t) today
         in rp_denied report =
              length (filter (\<lambda>r. fr_active r \<and> t \<le> ad_severity (fr_advisory r)) (rp_findings report)) \<and>
            sorted (map report_order (rp_findings report)) \<and>
            rp_active report + rp_suppressed report = length (rp_findings report) \<and>
            (\<forall>r \<in> set (rp_findings report). minimum \<le> ad_severity (fr_advisory r)) \<and>
            rp_total_findings report = length (ar_findings result)"
proof -
  have "minimum \<le> t"
    using assms by (auto simp: validate_audit_thresholds_def not_less split: if_splits)
  then show ?thesis
    using denied_kept [of minimum t] length_filter_le [of fr_active "sort_key report_order
      (filter (at_least minimum) (map (finding_report paths suppressions today) (ar_findings result)))"]
    by (simp add: evaluate_audit_def Let_def at_least_def)
qed

definition sample_finding :: finding where
  "sample_finding =
     \<lparr>fd_package = AuditPackage ''g'' ''a'' ''1'',
      fd_advisory = \<lparr>ad_id = ''GHSA-1'', ad_aliases = [''CVE-1''], ad_summary = [],
        ad_severity = High, ad_fixed_versions = [], ad_references = [], ad_modified = None\<rparr>\<rparr>"

definition sample_result :: audit_result where
  "sample_result = \<lparr>ar_provider = ''osv'', ar_source = Network, ar_findings = [sample_finding]\<rparr>"

theorem denied_findings_shown_witness:
  "rp_denied (evaluate_audit sample_result [] [] Low (Some High) ''2026-01-01'') =
     length (filter (\<lambda>r. fr_active r \<and> High \<le> ad_severity (fr_advisory r))
       (rp_findings (evaluate_audit sample_result [] [] Low (Some High) ''2026-01-01'')))"
proof -
  have "validate_audit_thresholds Low (Some High) = Inr ()" by code_simp
  from denied_findings_shown [OF this, of sample_result "[]" "[]" "''2026-01-01''"]
  show ?thesis by (simp add: Let_def)
qed

section \<open>Two flaws of the suppressions\<close>

definition suppression :: "str \<Rightarrow> str \<Rightarrow> audit_suppression" where
  "suppression i expires = \<lparr>su_id = i, su_reason = ''accepted'', su_expires = expires\<rparr>"

text \<open>
  Only the first suppression that names a finding is looked at. When
  it has expired the finding is active, whatever valid suppressions name it after that one.
\<close>
theorem expired_suppression_masks:
  assumes "matching_suppression before f = None" "matching_suppression [s] f = Some s" "su_expires s < today"
  shows "finding_report paths (before @ s # after) today f = finding_report paths [] today f"
proof -
  have "matching_suppression (before @ s # after) f = Some s"
    using assms(1,2) by (induction before) (auto simp: matching_suppression_def split: if_splits)
  then show ?thesis
    using assms(3) by (simp add: finding_report_def applied_suppression_def matching_suppression_def Let_def)
qed

text \<open>
  An example: an expired suppression hides a valid one that also names the finding by an alias, so
  that the finding is denied and the valid suppression is reported as unused; in the other order
  the finding is suppressed.
\<close>

theorem expired_suppression_example:
  "let old = suppression ''GHSA-1'' ''2025-01-01''; new = suppression ''CVE-1'' ''2027-01-01'';
       one = evaluate_audit sample_result [] [old, new] Unknown (Some High) ''2026-06-01'';
       two = evaluate_audit sample_result [] [new, old] Unknown (Some High) ''2026-06-01''
   in rp_denied one = 1 \<and> rp_suppressed one = 0 \<and> rp_denied two = 0 \<and> rp_suppressed two = 1 \<and>
      length (rp_suppression_warnings one) = 2"
  by code_simp

text \<open>
  The date check accepts a month of one digit and a day of three, but
  the expiry is compared as a string: a suppression that expired on the first of September 2026
  still applies on the last day of that year, and no warning is given.
\<close>
theorem malformed_expiry_outlives:
  "let s = suppression ''GHSA-1'' ''2026-9-001'';
       report = evaluate_audit sample_result [] [s] Unknown (Some High) ''2026-12-31''
   in validate_audit \<lparr>au_suppressions = [s]\<rparr> = Inr () \<and> rp_denied report = 0 \<and>
      rp_suppressed report = 1 \<and> rp_suppression_warnings report = []"
  by code_simp

end
