(* ===== verification/Civil_Date.thy ===== *)
theory Civil_Date
  imports Rust_Num
begin

text \<open>
  The date of a Unix time (\<open>utc_date\<close> and \<open>civil_date_from_unix_days\<close> of
  \<open>crates/jman-cli/src/main.rs\<close>), against a day count that adds up the lengths of the years and
  months. The \<open>i64\<close> computation cannot overflow: the days of a \<open>u64\<close> of seconds are below 2^48.
\<close>

section \<open>Definitions\<close>

text \<open>Division of \<open>i64\<close> truncates towards zero; the divisors here are positive.\<close>

definition quot :: "int \<Rightarrow> int \<Rightarrow> int" where
  "quot a b = (if 0 \<le> a then a div b else - ((- a) div b))"

definition year_of_era :: "int \<Rightarrow> int" where
  "year_of_era doe = quot (doe - quot doe 1460 + quot doe 36524 - quot doe 146096) 365"

definition civil_date_from_unix_days :: "int \<Rightarrow> int \<times> int \<times> int" where
  "civil_date_from_unix_days days =
     (let shifted = days + 719468;
          era = quot (if 0 \<le> shifted then shifted else shifted - 146096) 146097;
          day_of_era = shifted - era * 146097;
          yoe = year_of_era day_of_era;
          year = yoe + era * 400;
          day_of_year = day_of_era - (365 * yoe + quot yoe 4 - quot yoe 100);
          month_prime = quot (5 * day_of_year + 2) 153;
          day = day_of_year - quot (153 * month_prime + 2) 5 + 1;
          month = month_prime + (if month_prime < 10 then 3 else - 9)
      in (if month \<le> 2 then year + 1 else year, month, day))"

definition pad_zeros :: "nat \<Rightarrow> int \<Rightarrow> str" where
  "pad_zeros w n =
     (let s = show_nat (nat n) in replicate (w - length s) (CHR ''0'') @ s)"

text \<open>The seconds since the epoch are a parameter.\<close>

definition utc_date :: "64 word \<Rightarrow> str" where
  "utc_date seconds =
     (let (year, month, day) = civil_date_from_unix_days (uint seconds div 86400)
      in pad_zeros 4 year @ ''-'' @ pad_zeros 2 month @ ''-'' @ pad_zeros 2 day)"

section \<open>The reference day count\<close>

definition leap_year :: "int \<Rightarrow> bool" where
  "leap_year y \<longleftrightarrow> y mod 4 = 0 \<and> (y mod 100 \<noteq> 0 \<or> y mod 400 = 0)"

definition month_length :: "int \<Rightarrow> int \<Rightarrow> int" where
  "month_length y m =
     (if m = 2 then (if leap_year y then 29 else 28)
      else if m \<in> {4, 6, 9, 11} then 30 else 31)"

definition days_before_year :: "int \<Rightarrow> int" where
  "days_before_year y = 365 * (y - 1) + (y - 1) div 4 - (y - 1) div 100 + (y - 1) div 400"

text \<open>The days from 1 January 1970; that day is 719162 days after 1 January of year 1.\<close>

definition day_number :: "int \<Rightarrow> int \<Rightarrow> int \<Rightarrow> int" where
  "day_number y m d =
     days_before_year y + sum_list (map (month_length y) [1..m - 1]) + (d - 1) - 719162"

definition valid_date :: "int \<Rightarrow> int \<Rightarrow> int \<Rightarrow> bool" where
  "valid_date y m d \<longleftrightarrow> 1 \<le> m \<and> m \<le> 12 \<and> 1 \<le> d \<and> d \<le> month_length y m"

lemma div_bounds:
  fixes a k :: int
  assumes "0 < k"
  shows "k * (a div k) \<le> a" "a < k * (a div k) + k"
  using mult_div_mod_eq [of k a] pos_mod_sign [OF assms, of a] pos_mod_bound [OF assms, of a]
  by linarith+

lemma div_pred:
  fixes y k :: int
  assumes "0 < k"
  shows "y div k = (y - 1) div k + (if y mod k = 0 then 1 else 0)"
proof (cases "y mod k = 0")
  case True
  then have "k * (y div k) = y" using mult_div_mod_eq [of k y] by simp
  then have "k * (y div k - 1) = y - k" by (simp only: right_diff_distrib mult_1_right)
  then have "y - 1 = k * (y div k - 1) + (k - 1)" by linarith
  then have "(y - 1) div k = y div k - 1" by (rule int_div_pos_eq) (use assms in simp_all)
  then show ?thesis using True by simp
next
  case False
  then have pos: "0 < y mod k" using pos_mod_sign [OF assms, of y] by linarith
  have "y - 1 = k * (y div k) + (y mod k - 1)" using mult_div_mod_eq [of k y] by linarith
  then have "(y - 1) div k = y div k"
    by (rule int_div_pos_eq) (use pos pos_mod_bound [OF assms, of y] in linarith)+
  then show ?thesis using False by simp
qed

lemma mod_divides: "y mod (k * l) = 0 \<Longrightarrow> y mod k = 0" for y k l :: int
  by (metis dvd_imp_mod_0 dvd_mult_left mod_0_imp_dvd)

lemma leap_sum:
  fixes y a b c :: int
  assumes "a' = a + (if P then 1 else 0)" "b' = b + (if Q then 1 else 0)" "c' = c + (if R then 1 else 0)"
    and "Q \<Longrightarrow> P" "R \<Longrightarrow> Q"
  shows "365 * y + a' - b' + c' = 365 * (y - 1) + a - b + c + (if P \<and> (\<not> Q \<or> R) then 366 else 365)"
  using assms(4,5) unfolding assms(1-3) by (cases P; cases Q; cases R) simp_all

lemma days_before_next_year:
  "days_before_year (y + 1) = days_before_year y + (if leap_year y then 366 else 365)"
proof -
  have e: "(100::int) = 4 * 25" "(400::int) = 100 * 4" by simp_all
  have "y mod 100 = 0 \<Longrightarrow> y mod 4 = 0" unfolding e(1) by (rule mod_divides)
  moreover have "y mod 400 = 0 \<Longrightarrow> y mod 100 = 0" unfolding e(2) by (rule mod_divides)
  ultimately have "365 * y + y div 4 - y div 100 + y div 400 =
      365 * (y - 1) + (y - 1) div 4 - (y - 1) div 100 + (y - 1) div 400 +
      (if y mod 4 = 0 \<and> (\<not> y mod 100 = 0 \<or> y mod 400 = 0) then 366 else 365)"
    by (rule leap_sum [OF div_pred [OF zero_less_numeral] div_pred [OF zero_less_numeral]
          div_pred [OF zero_less_numeral]])
  then show ?thesis by (simp only: days_before_year_def leap_year_def add_diff_cancel_right')
qed

section \<open>Correctness\<close>

text \<open>The days before the March of a year of the era.\<close>

definition era_days :: "int \<Rightarrow> int" where
  "era_days y = 365 * y + y div 4 - y div 100 + y div 400"

lemma year_of_century:
  fixes b r k y q q' :: int
  assumes "0 \<le> b" "b \<le> 3" "0 \<le> r" "r < 36524"
    and "1460 * k \<le> 24 * b + r" "24 * b + r < 1460 * k + 1460"
    and "365 * y \<le> r - k" "r - k < 365 * y + 365" "4 * q \<le> y" "y < 4 * q + 4"
    and next_q: "4 * q' \<le> y + 1" "y + 1 < 4 * q' + 4"
  shows "0 \<le> y" "y \<le> 99" "365 * y + q \<le> r" "y < 99 \<Longrightarrow> r < 365 * (y + 1) + q'"
proof -
  show y0: "0 \<le> y" and y99: "y \<le> 99" using assms(1-8) by linarith+
  show "365 * y + q \<le> r" using assms(1-10) by linarith
  have k: "k \<le> 25" using assms(2,4,5) by linarith
  have "k \<le> q'"
  proof (rule ccontr)
    assume "\<not> k \<le> q'"
    then have "y + 2 \<le> 4 * k" using next_q(2) by linarith
    then have "r < 1461 * k - 365" using assms(8) by linarith
    then show False using assms(2,5) k by linarith
  qed
  then show "r < 365 * (y + 1) + q'" using assms(8) by (simp add: distrib_left)
qed

lemma era_days_100: "0 \<le> b \<Longrightarrow> b \<le> 3 \<Longrightarrow> 0 \<le> y \<Longrightarrow> y \<le> 99 \<Longrightarrow>
    era_days (100 * b + y) = 36524 * b + 365 * y + y div 4"
proof -
  assume b: "0 \<le> b" "b \<le> 3" and y: "0 \<le> y" "y \<le> 99"
  have "(100 * b + y) div 4 = 25 * b + y div 4"
    using div_mult_self2 [of 4 y "25 * b"] by (simp add: add.commute)
  moreover have "(100 * b + y) div 100 = b" using y by (intro int_div_pos_eq [of _ _ _ y]) auto
  moreover have "(100 * b + y) div 400 = 0" using b y by simp
  ultimately show ?thesis by (simp add: era_days_def)
qed

lemma year_of_era_correct:
  assumes "0 \<le> doe" "doe < 146097"
  shows "0 \<le> year_of_era doe \<and> year_of_era doe \<le> 399 \<and>
    era_days (year_of_era doe) \<le> doe \<and> doe < era_days (year_of_era doe + 1)"
proof (cases "doe = 146096")
  case True
  then show ?thesis by (simp add: year_of_era_def quot_def era_days_def)
next
  case False
  define b where "b = doe div 36524"
  define r where "r = doe mod 36524"
  define k where "k = (24 * b + r) div 1460"
  define y where "y = (r - k) div 365"
  define q where "q = y div 4"
  have doe: "doe = 36524 * b + r" and r: "0 \<le> r" "r < 36524"
    by (simp_all add: b_def r_def)
  have "doe < 146096" using assms(2) False by simp
  then have b: "b \<le> 3" using doe r by linarith
  have b0: "0 \<le> b" using assms(1) by (simp add: b_def pos_imp_zdiv_nonneg_iff)
  note b = b0 b
  have k: "1460 * k \<le> 24 * b + r" "24 * b + r < 1460 * k + 1460"
    using div_bounds [of 1460 "24 * b + r"] by (simp_all add: k_def)
  have y: "365 * y \<le> r - k" "r - k < 365 * y + 365" using div_bounds [of 365 "r - k"] by (simp_all add: y_def)
  have q: "4 * q \<le> y" "y < 4 * q + 4" using div_bounds [of 4 y] by (simp_all add: q_def)
  note century = year_of_century [OF b r k y q div_bounds [of 4 "y + 1"], simplified]
  have "doe = 24 * b + r + 1460 * (25 * b)" by (simp add: doe)
  then have d1: "doe div 1460 = k + 25 * b" by (simp add: k_def)
  have d2: "doe div 146096 = 0" using assms False by simp
  have "doe - doe div 1460 + doe div 36524 - doe div 146096 = r - k + 365 * (100 * b)"
    by (simp add: d1 d2 b_def [symmetric]) (simp add: doe)
  moreover have "0 \<le> r - k" using y century(1) by linarith
  ultimately have year: "year_of_era doe = 100 * b + y"
    using assms b by (simp add: year_of_era_def quot_def y_def)
  have low: "era_days (100 * b + y) = 36524 * b + 365 * y + q"
    using era_days_100 [OF b century(1,2)] by (simp add: q_def)
  have "r < era_days (100 * b + y + 1) - 36524 * b"
  proof (cases "y < 99")
    case True
    have "era_days (100 * b + (y + 1)) = 36524 * b + 365 * (y + 1) + (y + 1) div 4"
      using b century(1) True by (intro era_days_100) auto
    then show ?thesis using century(4) [OF True] by (simp add: add.assoc)
  next
    case False
    then have "y = 99" using century(2) by simp
    moreover have "b = 0 \<or> b = 1 \<or> b = 2 \<or> b = 3" using b by linarith
    ultimately show ?thesis using r by (auto simp: era_days_def)
  qed
  then have "doe < era_days (100 * b + y + 1)" using doe by linarith
  then show ?thesis using century b low unfolding year by (simp add: doe)
qed

lemma era_days_period: "era_days (y + 400 * e) = era_days y + 146097 * e"
proof -
  have "(y + 400 * e) div k = y div k + l * e" if "k * l = 400" "0 < k" for k l
    using that div_mult_self2 [of k y "l * e"] by (simp add: mult.assoc [symmetric])
  from this [of 4 100] this [of 100 4] this [of 400 1] show ?thesis
    by (simp add: era_days_def)
qed

lemma days_before_era_days: "days_before_year (y + 1) = era_days y"
  by (simp add: days_before_year_def era_days_def)

lemma month_sums:
  "sum_list (map (month_length y) [1..0]) = 0"
  "sum_list (map (month_length y) [1..1]) = 31"
  "sum_list (map (month_length y) [1..2]) = (if leap_year y then 60 else 59)"
  "sum_list (map (month_length y) [1..3]) = (if leap_year y then 91 else 90)"
  "sum_list (map (month_length y) [1..4]) = (if leap_year y then 121 else 120)"
  "sum_list (map (month_length y) [1..5]) = (if leap_year y then 152 else 151)"
  "sum_list (map (month_length y) [1..6]) = (if leap_year y then 182 else 181)"
  "sum_list (map (month_length y) [1..7]) = (if leap_year y then 213 else 212)"
  "sum_list (map (month_length y) [1..8]) = (if leap_year y then 244 else 243)"
  "sum_list (map (month_length y) [1..9]) = (if leap_year y then 274 else 273)"
  "sum_list (map (month_length y) [1..10]) = (if leap_year y then 305 else 304)"
  "sum_list (map (month_length y) [1..11]) = (if leap_year y then 335 else 334)"
  by (simp_all add: upto_rec1 month_length_def)

text \<open>From March on, the day of the year gives month and day without the leap day in between.\<close>

lemma month_of_day:
  fixes doy :: int
  assumes "0 \<le> doy" "doy \<le> 365"
  defines "mp \<equiv> (5 * doy + 2) div 153"
  shows "0 \<le> mp" "mp \<le> 11" "153 * mp \<le> 5 * doy + 2" "5 * doy + 2 < 153 * mp + 153"
proof -
  show "153 * mp \<le> 5 * doy + 2" "5 * doy + 2 < 153 * mp + 153"
    using div_bounds [of 153 "5 * doy + 2"] by (simp_all add: mp_def)
  then show "0 \<le> mp" "mp \<le> 11" using assms by linarith+
qed

lemma march_day_number:
  assumes doy: "0 \<le> doy" "doy \<le> 365" "doy = 365 \<Longrightarrow> leap_year (Y + 1)"
    and mp: "mp = (5 * doy + 2) div 153"
    and d: "d = doy - (153 * mp + 2) div 5 + 1"
    and m: "m = mp + (if mp < 10 then 3 else - 9)"
    and y: "y = (if m \<le> 2 then Y + 1 else Y)"
  shows "valid_date y m d \<and> day_number y m d = era_days Y + doy - 719468"
proof -
  note bounds = month_of_day [OF doy(1,2), folded mp]
  have years: "days_before_year Y = era_days Y - (if leap_year Y then 366 else 365)"
    "days_before_year (Y + 1) = era_days Y"
    using days_before_next_year [of Y] days_before_era_days [of Y] by simp_all
  have "mp \<in> set [0..11]" using bounds(1,2) by simp
  then have "mp \<in> {0, 1, 2, 3, 4, 5, 6, 7, 8, 9, 10, 11}" by (simp add: upto_rec1)
  then consider "mp = 0" | "mp = 1" | "mp = 2" | "mp = 3" | "mp = 4" | "mp = 5" | "mp = 6" | "mp = 7"
    | "mp = 8" | "mp = 9" | "mp = 10" | "mp = 11" by blast
  moreover have "\<not> leap_year (Y + 1) \<Longrightarrow> doy \<le> 364" using doy by force
  ultimately show ?thesis
    by cases (use bounds(3,4) doy(1,2) years in
      \<open>auto simp: d m y valid_date_def month_length_def day_number_def month_sums\<close>)
qed

lemma quot_nonneg: "0 \<le> a \<Longrightarrow> quot a b = a div b"
  by (simp add: quot_def)

text \<open>The source's idiom for division that rounds down.\<close>

lemma quot_floor:
  assumes "0 < k"
  shows "quot (if 0 \<le> a then a else a - (k - 1)) k = a div k"
proof (cases "0 \<le> a")
  case False
  have "k - 1 - a = k * (- (a div k)) + (k * (a div k) + k - 1 - a)" by simp
  then have "(k - 1 - a) div k = - (a div k)"
    by (rule int_div_pos_eq) (use div_bounds [OF assms, of a] in linarith)+
  moreover have "a - (k - 1) < 0" using False assms by linarith
  ultimately show ?thesis using False by (simp add: quot_def not_le algebra_simps)
qed (simp add: quot_def)

lemma leap_year_period: "leap_year (y + 400 * e) = leap_year y"
proof -
  have "(y + 400 * e) mod k = y mod k" if "k * l = 400" for k l
    using mod_mult_self2 [of y k "l * e"] that by (simp add: mult.assoc [symmetric])
  from this [of 4 100] this [of 100 4] this [of 400 1] show ?thesis by (simp add: leap_year_def)
qed

text \<open>
  For every number of days the computed date is a date of the calendar, and
  counting the days up to it gives the number back; so the computation inverts the calendar.
\<close>
theorem civil_date_correct:
  assumes "civil_date_from_unix_days days = (y, m, d)"
  shows "valid_date y m d \<and> day_number y m d = days"
proof -
  define shifted where "shifted = days + 719468"
  define era where "era = shifted div 146097"
  define doe where "doe = shifted - era * 146097"
  define yoe where "yoe = year_of_era doe"
  define doy where "doy = doe - (365 * yoe + yoe div 4 - yoe div 100)"
  define mp where "mp = (5 * doy + 2) div 153"
  define Y where "Y = yoe + 400 * era"
  have era: "quot (if 0 \<le> shifted then shifted else shifted - 146096) 146097 = era"
    using quot_floor [of 146097 shifted] by (simp add: era_def split: if_splits)
  have doe: "0 \<le> doe" "doe < 146097"
    using div_bounds [of 146097 shifted] by (simp_all add: doe_def era_def mult.commute)
  note yoe = year_of_era_correct [OF doe, folded yoe_def]
  have "yoe div 400 = 0" using yoe by simp
  then have doy: "doe = era_days yoe + doy" by (simp add: doy_def era_days_def)
  have next_year: "era_days (yoe + 1) = era_days yoe + (if leap_year (yoe + 1) then 366 else 365)"
    using days_before_next_year [of "yoe + 1"] by (simp only: days_before_era_days)
  have leap: "leap_year (Y + 1) = leap_year (yoe + 1)"
    using leap_year_period [of "yoe + 1" era] by (simp add: Y_def algebra_simps)
  have bounds: "0 \<le> doy" "doy \<le> 365" "doy = 365 \<Longrightarrow> leap_year (Y + 1)"
    using yoe doy next_year leap by (auto split: if_splits)
  have total: "era_days Y + doy = shifted"
    using doy by (simp add: Y_def era_days_period doe_def)
  have mp: "0 \<le> mp" using month_of_day(1) [OF bounds(1,2)] by (simp add: mp_def)
  have "civil_date_from_unix_days days =
      (let m = mp + (if mp < 10 then 3 else - 9)
       in (if m \<le> 2 then Y + 1 else Y, m, doy - (153 * mp + 2) div 5 + 1))"
  proof -
    have quots: "quot yoe 4 = yoe div 4" "quot yoe 100 = yoe div 100" "quot (5 * doy + 2) 153 = mp"
      "quot (153 * mp + 2) 5 = (153 * mp + 2) div 5"
      using yoe bounds(1) mp by (simp_all add: quot_nonneg mp_def)
    have year: "yoe + era * 400 = Y" by (simp add: Y_def)
    show ?thesis
      unfolding civil_date_from_unix_days_def Let_def shifted_def [symmetric] era doe_def [symmetric]
        yoe_def [symmetric] quots(1,2) doy_def [symmetric] quots(3,4) year ..
  qed
  then have "y = (if m \<le> 2 then Y + 1 else Y)" "m = mp + (if mp < 10 then 3 else - 9)"
    "d = doy - (153 * mp + 2) div 5 + 1"
    using assms by (simp_all add: Let_def)
  from march_day_number [OF bounds mp_def this(3,2,1)] total show ?thesis
    by (simp add: shifted_def)
qed

theorem civil_date_correct_witness:
  "civil_date_from_unix_days 20514 = (2026, 3, 2) \<and> day_number 2026 3 2 = 20514"
proof -
  have "civil_date_from_unix_days 20514 = (2026, 3, 2)" by code_simp
  then show ?thesis using civil_date_correct [of 20514 2026 3 2] by blast
qed

end
