(* ===== verification/Glob.thy ===== *)
theory Glob
  imports Rust_Str
begin

text \<open>
  The two matchers for file patterns in \<open>crates/jman-build/src/lib.rs\<close> against one reference:
  the greedy matcher with one backtracking point for coverage patterns (\<open>wildcard_matches\<close>) and
  the dynamic-programming matcher of the components of generator inputs
  (\<open>path_glob_matches\<close>).
\<close>

section \<open>Reference\<close>

text \<open>
  A star stands for any bytes, a question mark for one, anything else for itself. (Both matchers
  compare the bytes of the strings, so a character outside of ASCII needs several question marks.)
\<close>

fun glob :: "str \<Rightarrow> str \<Rightarrow> bool" where
  "glob [] v = (v = [])"
| "glob (c # p) [] = (c = CHR ''*'' \<and> glob p [])"
| "glob (c # p) (x # v) =
     (if c = CHR ''*'' then glob p (x # v) \<or> glob (c # p) v
      else (c = CHR ''?'' \<or> c = x) \<and> glob p v)"

lemma glob_star: "glob (CHR ''*'' # p) v \<longleftrightarrow> glob p v \<or> (v \<noteq> [] \<and> glob (CHR ''*'' # p) (tl v))"
  by (cases v) auto

lemma glob_star_suffix: "glob (CHR ''*'' # p) v \<longleftrightarrow> (\<exists>u w. v = u @ w \<and> glob p w)"
proof (induction v)
  case (Cons x v)
  show ?case
  proof
    assume "glob (CHR ''*'' # p) (x # v)"
    then consider "glob p (x # v)" | "glob (CHR ''*'' # p) v" by auto
    then show "\<exists>u w. x # v = u @ w \<and> glob p w"
      by cases (use Cons.IH in \<open>blast intro: append_Nil [symmetric] append_Cons [symmetric]\<close>)+
  next
    assume "\<exists>u w. x # v = u @ w \<and> glob p w"
    then obtain u w where "x # v = u @ w" "glob p w" by blast
    then show "glob (CHR ''*'' # p) (x # v)" using Cons.IH by (cases u) auto
  qed
qed simp

section \<open>The greedy matcher\<close>

text \<open>
  The loop over both indices, with the index of the last star and the value index to retry from.
  A step that finds no match goes back to the star; the loop is shown to return below.
\<close>

partial_function (option) wildcard_loop ::
    "str \<Rightarrow> str \<Rightarrow> nat \<Rightarrow> nat \<Rightarrow> nat option \<Rightarrow> nat \<Rightarrow> bool option" where
  "wildcard_loop p v pi vi star retry =
     (if vi < length v
      then (if pi < length p \<and> (p ! pi = CHR ''?'' \<or> p ! pi = v ! vi)
            then wildcard_loop p v (pi + 1) (vi + 1) star retry
            else if pi < length p \<and> p ! pi = CHR ''*''
            then wildcard_loop p v (pi + 1) vi (Some pi) vi
            else (case star of
                    Some s \<Rightarrow> wildcard_loop p v (s + 1) (retry + 1) star (retry + 1)
                  | None \<Rightarrow> Some False))
      else Some (dropWhile (\<lambda>c. c = CHR ''*'') (drop pi p) = []))"

declare wildcard_loop.simps [code]

definition wildcard_matches :: "str \<Rightarrow> str \<Rightarrow> bool option" where
  "wildcard_matches pattern v =
     wildcard_loop (map (\<lambda>c. if c = CHR ''/'' \<or> c = CHR 0x5C then CHR ''.'' else c) pattern) v 0 0 None 0"

text \<open>A pattern without stars matches character by character.\<close>

definition plain_match :: "str \<Rightarrow> str \<Rightarrow> bool" where
  "plain_match q w \<longleftrightarrow> list_all2 (\<lambda>c x. c \<noteq> CHR ''*'' \<and> (c = CHR ''?'' \<or> c = x)) q w"

lemma glob_plain:
  "CHR ''*'' \<notin> set q \<Longrightarrow> glob (q @ p) v \<Longrightarrow> \<exists>w u. v = w @ u \<and> length w = length q \<and> glob p u"
proof (induction q arbitrary: v)
  case (Cons c q)
  then obtain x v' where v: "v = x # v'" "glob (q @ p) v'"
    by (cases v) (auto split: if_splits)
  have "CHR ''*'' \<notin> set q" using Cons.prems(1) by simp
  from Cons.IH [OF this v(2)] obtain w u where "v' = w @ u" "length w = length q" "glob p u" by blast
  then have "v = (x # w) @ u \<and> length (x # w) = length (c # q) \<and> glob p u" using v by simp
  then show ?case by blast
qed simp

lemma plain_match_no_star: "plain_match q w \<Longrightarrow> CHR ''*'' \<notin> set q \<and> length w = length q"
  unfolding plain_match_def by (induction q w rule: list_all2_induct) auto

lemma glob_Nil: "glob p [] \<longleftrightarrow> dropWhile (\<lambda>c. c = CHR ''*'') p = []"
  by (induction p) auto

text \<open>What a state of the loop still has to decide, and what it keeps.\<close>

definition open_match :: "str \<Rightarrow> str \<Rightarrow> nat \<Rightarrow> nat \<Rightarrow> nat option \<Rightarrow> nat \<Rightarrow> bool" where
  "open_match p v pi vi star retry \<longleftrightarrow>
     glob (drop pi p) (drop vi v) \<or>
     (\<exists>s. star = Some s \<and> retry < length v \<and> glob (drop s p) (drop (Suc retry) v))"

definition loop_ok :: "str \<Rightarrow> str \<Rightarrow> nat \<Rightarrow> nat \<Rightarrow> nat option \<Rightarrow> nat \<Rightarrow> bool" where
  "loop_ok p v pi vi star retry \<longleftrightarrow>
     vi \<le> length v \<and> pi \<le> length p \<and>
     (\<forall>s. star = Some s \<longrightarrow> s < pi \<and> retry \<le> vi \<and>
        (\<exists>q w. drop s p = CHR ''*'' # q @ drop pi p \<and> drop retry v = w @ drop vi v \<and> plain_match q w))"

lemma older_star:
  assumes ok: "loop_ok p v pi vi (Some s) retry" and retry: "retry < length v"
    and old: "glob (drop s p) (drop (Suc retry) v)"
  shows "\<exists>z u. drop vi v = z @ u \<and> z \<noteq> [] \<and> glob (drop pi p) u"
proof -
  let ?V = "drop vi v"
  from ok obtain q w where q: "drop s p = CHR ''*'' # q @ drop pi p" and w: "drop retry v = w @ ?V"
    and m: "plain_match q w" by (auto simp: loop_ok_def)
  note plain = plain_match_no_star [OF m]
  from old q obtain a b where ab: "drop (Suc retry) v = a @ b" "glob (q @ drop pi p) b"
    by (auto simp: glob_star_suffix)
  from glob_plain [OF _ ab(2)] plain obtain w2 u where
    u: "b = w2 @ u" "length w2 = length q" "glob (drop pi p) u" by blast
  have cons: "w @ ?V = v ! retry # a @ w2 @ u"
    using w ab(1) u(1) Cons_nth_drop_Suc [OF retry] by simp
  have "length w + length ?V = Suc (length a + length w2 + length u)"
    using arg_cong [OF cons, where f = length] by (simp del: length_drop)
  then have less: "length u < length ?V" using plain u(2) by simp
  have "suffix u (w @ ?V)" unfolding cons suffix_def
    by (rule exI [of _ "v ! retry # a @ w2"]) simp
  moreover have "suffix ?V (w @ ?V)" by (simp add: suffix_def)
  ultimately have "suffix u ?V" by (rule suffix_length_suffix) (rule less_imp_le [OF less])
  then obtain z where "?V = z @ u" by (auto simp: suffix_def)
  moreover from this have "z \<noteq> []" using less by auto
  ultimately show ?thesis using u(3) by blast
qed

lemma wildcard_loop_correct:
  assumes "loop_ok p v pi vi star retry" "CHR ''*'' \<notin> set v"
  shows "wildcard_loop p v pi vi star retry = Some (open_match p v pi vi star retry)"
  using assms(1)
proof (induction "(pi, vi, star, retry)" arbitrary: pi vi star retry
    rule: wf_induct_rule [OF wf_measures, where fs1 = "[\<lambda>(pi, vi, star, retry).
        length p - (case star of None \<Rightarrow> 0 | Some s \<Rightarrow> Suc s),
      \<lambda>(pi, vi, star, retry). length v - retry, \<lambda>(pi, vi, star, retry). length v - vi]"])
  case (1 pi vi star retry)
  note ok = "1.prems"
  let ?V = "drop vi v" and ?P = "drop pi p"
  show ?case
  proof (cases "vi < length v")
    case False
    then have end_: "?V = []" by simp
    have "\<not> (\<exists>s. star = Some s \<and> retry < length v \<and> glob (drop s p) (drop (Suc retry) v))"
      using older_star [of p v pi vi _ retry] ok end_ by auto
    then have "open_match p v pi vi star retry \<longleftrightarrow> glob ?P ?V" unfolding open_match_def by blast
    then show ?thesis using False end_ by (subst wildcard_loop.simps) (simp add: glob_Nil)
  next
    case more: True
    then have V: "?V = v ! vi # drop (Suc vi) v" by (simp add: Cons_nth_drop_Suc)
    have not_star: "v ! vi \<noteq> CHR ''*''" using more assms(2) nth_mem by metis
    consider (char) "pi < length p" "p ! pi = CHR ''?'' \<or> p ! pi = v ! vi"
      | (star) "pi < length p" "p ! pi = CHR ''*''"
      | (no) "\<not> (pi < length p \<and> (p ! pi = CHR ''?'' \<or> p ! pi = v ! vi))"
          "\<not> (pi < length p \<and> p ! pi = CHR ''*'')" by blast
    then show ?thesis
    proof cases
      case char
      then have P: "?P = p ! pi # drop (Suc pi) p" by (simp add: Cons_nth_drop_Suc)
      have c: "p ! pi \<noteq> CHR ''*''" using char(2) not_star by auto
      have "loop_ok p v (pi + 1) (vi + 1) star retry"
        unfolding loop_ok_def
      proof (intro conjI allI impI)
        fix s assume s: "star = Some s"
        then obtain q w where qw: "drop s p = CHR ''*'' # q @ ?P" "drop retry v = w @ ?V" "plain_match q w"
          and le: "s < pi" "retry \<le> vi" using ok by (auto simp: loop_ok_def)
        have "drop s p = CHR ''*'' # (q @ [p ! pi]) @ drop (pi + 1) p"
          "drop retry v = (w @ [v ! vi]) @ drop (vi + 1) v" using qw P V by simp_all
        moreover have "plain_match (q @ [p ! pi]) (w @ [v ! vi])"
          using qw(3) c char(2) by (auto simp: plain_match_def intro: list_all2_appendI)
        ultimately show "\<exists>q w. drop s p = CHR ''*'' # q @ drop (pi + 1) p \<and>
            drop retry v = w @ drop (vi + 1) v \<and> plain_match q w" by blast
        show "s < pi + 1" "retry \<le> vi + 1" using le by simp_all
      qed (use more char in simp_all)
      then have "wildcard_loop p v (pi + 1) (vi + 1) star retry =
          Some (open_match p v (pi + 1) (vi + 1) star retry)"
        using more by (intro "1.hyps") simp_all
      moreover have "open_match p v (pi + 1) (vi + 1) star retry = open_match p v pi vi star retry"
        using P V c char(2) by (auto simp: open_match_def)
      ultimately show ?thesis using more char by (subst wildcard_loop.simps) auto
    next
      case star
      then have P: "?P = CHR ''*'' # drop (Suc pi) p" by (metis Cons_nth_drop_Suc)
      have "loop_ok p v (pi + 1) vi (Some pi) vi"
        unfolding loop_ok_def
      proof (intro conjI allI impI)
        fix s assume "Some pi = Some s"
        then show "\<exists>q w. drop s p = CHR ''*'' # q @ drop (pi + 1) p \<and> drop vi v = w @ drop vi v \<and> plain_match q w"
          using P by (intro exI [of _ "[]"]) (simp add: plain_match_def)
      qed (use more star in auto)
      then have "wildcard_loop p v (pi + 1) vi (Some pi) vi = Some (open_match p v (pi + 1) vi (Some pi) vi)"
        using star ok by (intro "1.hyps") (auto simp: loop_ok_def split: option.splits)
      moreover have "open_match p v (pi + 1) vi (Some pi) vi \<longleftrightarrow> glob ?P ?V"
        using P more glob_star [of "drop (Suc pi) p" ?V] by (simp add: open_match_def V)
      moreover have "glob ?P ?V" if "star = Some s" "retry < length v" "glob (drop s p) (drop (Suc retry) v)" for s
      proof -
        from older_star [of p v pi vi s retry] that ok obtain z u where
          z: "?V = z @ u" "z \<noteq> []" "glob ?P u" by auto
        from z(3) obtain a b where "u = a @ b" "glob (drop (Suc pi) p) b"
          unfolding P glob_star_suffix by blast
        then have "?V = (z @ a) @ b \<and> glob (drop (Suc pi) p) b" using z(1) by simp
        then show ?thesis unfolding P glob_star_suffix by blast
      qed
      then have "open_match p v pi vi star retry \<longleftrightarrow> glob ?P ?V" by (auto simp: open_match_def)
      ultimately show ?thesis using more star not_star
        by (subst wildcard_loop.simps) auto
    next
      case no
      have here: "\<not> glob ?P ?V"
      proof (cases "pi < length p")
        case True
        then have "?P = p ! pi # drop (Suc pi) p" by (simp add: Cons_nth_drop_Suc)
        then show ?thesis using no True V by auto
      qed (use V in simp)
      show ?thesis
      proof (cases star)
        case None
        then show ?thesis using more no here by (subst wildcard_loop.simps) (auto simp: open_match_def)
      next
        case (Some s)
        then have le: "s < pi" "retry \<le> vi" "pi \<le> length p" using ok by (auto simp: loop_ok_def)
        from ok Some obtain q where "drop s p = CHR ''*'' # q @ ?P" by (auto simp: loop_ok_def)
        then have S: "drop s p = CHR ''*'' # drop (Suc s) p"
          by (metis drop_Suc list.sel(3) tl_drop)
        have "loop_ok p v (s + 1) (retry + 1) star (retry + 1)"
          unfolding loop_ok_def
        proof (intro conjI allI impI)
          fix s' assume "star = Some s'"
          then show "\<exists>q w. drop s' p = CHR ''*'' # q @ drop (s + 1) p \<and>
              drop (retry + 1) v = w @ drop (retry + 1) v \<and> plain_match q w"
            using S Some by (intro exI [of _ "[]"]) (simp add: plain_match_def)
        qed (use more le Some in auto)
        then have "wildcard_loop p v (s + 1) (retry + 1) star (retry + 1) =
            Some (open_match p v (s + 1) (retry + 1) star (retry + 1))"
          using le more Some by (intro "1.hyps") auto
        moreover have "open_match p v (s + 1) (retry + 1) star (retry + 1) = open_match p v pi vi star retry"
          using here le more Some glob_star [of "drop (Suc s) p" "drop (Suc retry) v"]
          by (auto simp: open_match_def S drop_Suc tl_drop)
        ultimately show ?thesis using more no Some
          by (subst wildcard_loop.simps) auto
      qed
    qed
  qed
qed

section \<open>The matcher of path components\<close>

text \<open>
  One row of flags per token of the pattern: the flag at \<open>i\<close> says whether the tokens so far match
  the first \<open>i\<close> bytes of the value.
\<close>

fun star_row :: "bool \<Rightarrow> bool list \<Rightarrow> bool list" where
  "star_row before [] = []"
| "star_row before (b # bs) = (b \<or> before) # star_row (b \<or> before) bs"

definition next_row :: "str \<Rightarrow> char \<Rightarrow> bool list \<Rightarrow> bool list" where
  "next_row v token current =
     (if token = CHR ''*'' then star_row False current
      else if token = CHR ''?'' then False # butlast current
      else False # map2 (\<lambda>b x. b \<and> x = token) (butlast current) v)"

definition component_matches :: "str \<Rightarrow> str \<Rightarrow> bool" where
  "component_matches pattern v =
     last (fold (next_row v) pattern (True # replicate (length v) False))"

fun path_matches :: "str list \<Rightarrow> str list \<Rightarrow> bool" where
  "path_matches [] ps = (ps = [])"
| "path_matches (first # remaining) [] = (first = ''**'' \<and> path_matches remaining [])"
| "path_matches (first # remaining) (p # ps) =
     (if first = ''**'' then path_matches remaining (p # ps) \<or> path_matches (first # remaining) ps
      else component_matches first p \<and> path_matches remaining ps)"

definition path_glob_matches :: "str \<Rightarrow> str \<Rightarrow> bool" where
  "path_glob_matches pattern p =
     path_matches (split_char (CHR ''/'') pattern) (split_char (CHR ''/'') p)"

lemma glob_append: "glob (p @ q) v \<longleftrightarrow> (\<exists>u w. v = u @ w \<and> glob p u \<and> glob q w)"
proof (induction p v rule: glob.induct)
  case (1 v)
  then show ?case by simp
next
  case (2 c p)
  then show ?case by auto
next
  case (3 c p x v)
  show ?case
  proof
    assume "glob ((c # p) @ q) (x # v)"
    then consider "c = CHR ''*''" "glob (p @ q) (x # v)" | "c = CHR ''*''" "glob ((c # p) @ q) v"
      | "c \<noteq> CHR ''*''" "c = CHR ''?'' \<or> c = x" "glob (p @ q) v" by (auto split: if_splits)
    then show "\<exists>u w. x # v = u @ w \<and> glob (c # p) u \<and> glob q w"
    proof cases
      case 1
      then obtain u w where "x # v = u @ w" "glob p u" "glob q w" using 3(1) by blast
      moreover from this 1(1) have "glob (c # p) u" by (subst 1(1), subst glob_star) simp
      ultimately show ?thesis by blast
    next
      case 2
      then obtain u w where "v = u @ w" "glob (c # p) u" "glob q w" using 3(2) by blast
      then have "x # v = (x # u) @ w \<and> glob (c # p) (x # u) \<and> glob q w" using 2(1) by simp
      then show ?thesis by blast
    next
      case 3
      then obtain u w where "v = u @ w" "glob p u" "glob q w" using "3.IH"(3) by blast
      then have "x # v = (x # u) @ w \<and> glob (c # p) (x # u) \<and> glob q w" using 3 by simp
      then show ?thesis by blast
    qed
  next
    assume "\<exists>u w. x # v = u @ w \<and> glob (c # p) u \<and> glob q w"
    then obtain u w where uw: "x # v = u @ w" "glob (c # p) u" "glob q w" by blast
    show "glob ((c # p) @ q) (x # v)"
    proof (cases u)
      case Nil
      then have "c = CHR ''*''" "glob p []" using uw(2) by simp_all
      moreover have "glob (p @ q) (x # v)" using 3(1) uw Nil calculation by auto
      ultimately show ?thesis by simp
    next
      case (Cons y u')
      then show ?thesis using 3 uw by (auto split: if_splits)
    qed
  qed
qed

lemma glob_single: "glob [t] w \<longleftrightarrow> t = CHR ''*'' \<or> (\<exists>x. w = [x] \<and> (t = CHR ''?'' \<or> t = x))"
proof (cases w)
  case (Cons x w')
  show ?thesis
  proof (cases "t = CHR ''*''")
    case True
    then show ?thesis using glob_star_suffix [of "[]" w] by simp
  qed (use Cons in auto)
qed auto

lemma glob_snoc:
  "glob (p @ [t]) w \<longleftrightarrow>
     (if t = CHR ''*'' then \<exists>j \<le> length w. glob p (take j w)
      else w \<noteq> [] \<and> (t = CHR ''?'' \<or> last w = t) \<and> glob p (butlast w))"
proof (cases "t = CHR ''*''")
  case True
  have "(\<exists>u r. w = u @ r \<and> glob p u) \<longleftrightarrow> (\<exists>j \<le> length w. glob p (take j w))"
    by (metis append_eq_conv_conj append_take_drop_id length_append le_add1)
  then show ?thesis using True by (simp add: glob_append glob_single)
next
  case False
  then show ?thesis
    by (cases w rule: rev_cases) (auto simp: glob_append glob_single)
qed

lemma length_star_row [simp]: "length (star_row b bs) = length bs"
  by (induction b bs rule: star_row.induct) auto

lemma star_row_nth: "i < length bs \<Longrightarrow> star_row b bs ! i \<longleftrightarrow> b \<or> (\<exists>j \<le> i. bs ! j)"
proof (induction b bs arbitrary: i rule: star_row.induct)
  case (2 before b bs)
  show ?case
  proof (cases i)
    case (Suc k)
    then have "(\<exists>j \<le> i. (b # bs) ! j) \<longleftrightarrow> b \<or> (\<exists>j \<le> k. bs ! j)"
      by (metis Suc_le_mono le0 nat.exhaust nth_Cons_0 nth_Cons_Suc)
    then show ?thesis using 2 Suc by auto
  qed auto
qed simp

text \<open>The flags of a pattern.\<close>

definition glob_row :: "str \<Rightarrow> str \<Rightarrow> bool list" where
  "glob_row v p = map (\<lambda>i. glob p (take i v)) [0..<Suc (length v)]"

lemma glob_row_simps:
  "length (glob_row v p) = Suc (length v)" "i \<le> length v \<Longrightarrow> glob_row v p ! i = glob p (take i v)"
  by (simp_all add: glob_row_def nth_append less_Suc_eq_le del: upt_Suc)

lemma next_row_step: "next_row v t (glob_row v p) = glob_row v (p @ [t])"
proof (rule nth_equalityI)
  show "length (next_row v t (glob_row v p)) = length (glob_row v (p @ [t]))"
    by (simp add: next_row_def glob_row_simps)
  fix i assume "i < length (next_row v t (glob_row v p))"
  then have i: "i \<le> length v"
    by (simp add: next_row_def glob_row_simps split: if_splits)
  show "next_row v t (glob_row v p) ! i = glob_row v (p @ [t]) ! i"
  proof (cases "t = CHR ''*''")
    case True
    have "(\<exists>j \<le> i. glob_row v p ! j) \<longleftrightarrow> (\<exists>j \<le> length (take i v). glob p (take j (take i v)))"
      using i by (auto simp: min_def glob_row_simps)
    then show ?thesis using True i
      by (simp add: next_row_def star_row_nth glob_row_simps glob_snoc)
  next
    case False
    show ?thesis
    proof (cases i)
      case 0
      then show ?thesis using False by (simp add: next_row_def glob_row_simps glob_snoc)
    next
      case (Suc k)
      then have k: "k < length v" using i by simp
      have "take i v = take k v @ [v ! k]" using k Suc by (simp add: take_Suc_conv_app_nth)
      then have "glob (p @ [t]) (take i v) \<longleftrightarrow> (t = CHR ''?'' \<or> v ! k = t) \<and> glob p (take k v)"
        using False by (simp add: glob_snoc)
      moreover have "butlast (glob_row v p) ! k = glob p (take k v)"
        using k by (simp add: nth_butlast glob_row_simps)
      ultimately show ?thesis using False i k Suc
        by (auto simp: next_row_def glob_row_simps)
    qed
  qed
qed

lemma fold_next_row: "fold (next_row v) p (glob_row v q) = glob_row v (q @ p)"
  by (induction p arbitrary: q) (simp_all add: next_row_step)

lemma glob_row_Nil: "glob_row v [] = True # replicate (length v) False"
proof (rule nth_equalityI)
  fix i assume "i < length (glob_row v [])"
  then show "glob_row v [] ! i = (True # replicate (length v) False) ! i"
    by (cases i) (auto simp: glob_row_simps)
qed (simp add: glob_row_simps)

lemma component_matches_glob: "component_matches p v = glob p v"
proof -
  have "component_matches p v = last (glob_row v p)"
    using fold_next_row [of v p "[]"] by (simp add: component_matches_def glob_row_Nil)
  also have "\<dots> = glob_row v p ! length v"
    by (subst last_conv_nth) (auto simp: glob_row_simps simp flip: length_0_conv)
  finally show ?thesis by (simp add: glob_row_simps)
qed

section \<open>The greedy loop returns\<close>

definition past_star :: "nat option \<Rightarrow> nat" where
  "past_star star = (case star of None \<Rightarrow> 0 | Some s \<Rightarrow> Suc s)"

text \<open>A new star is further right, a retry starts further right, a match goes on.\<close>

lemma wildcard_loop_returns:
  "past_star star \<le> pi \<Longrightarrow> pi \<le> length p \<Longrightarrow> retry \<le> vi \<Longrightarrow> \<exists>b. wildcard_loop p v pi vi star retry = Some b"
proof (induction "(length p - past_star star, length v - retry, length v - vi)" arbitrary: pi vi star retry
    rule: wf_induct_rule [OF wf_lex_prod [OF wf_less_than wf_lex_prod [OF wf_less_than wf_less_than]]])
  case (1 vi star retry pi)
  note step = wildcard_loop.simps [of p v pi vi star retry]
  consider "length v \<le> vi"
    | "vi < length v" "pi < length p \<and> (p ! pi = CHR ''?'' \<or> p ! pi = v ! vi)"
    | "vi < length v" "\<not> (pi < length p \<and> (p ! pi = CHR ''?'' \<or> p ! pi = v ! vi))" "pi < length p" "p ! pi = CHR ''*''"
    | "vi < length v" "\<not> (pi < length p \<and> (p ! pi = CHR ''?'' \<or> p ! pi = v ! vi))"
      "\<not> (pi < length p \<and> p ! pi = CHR ''*'')"
    by linarith
  then show ?case
  proof cases
    case 1
    then show ?thesis using step by simp
  next
    case 2
    have "\<exists>b. wildcard_loop p v (pi + 1) (vi + 1) star retry = Some b"
      by (rule "1.hyps") (use 2 "1.prems" in auto)
    then show ?thesis using step 2 by simp
  next
    case 3
    have "\<exists>b. wildcard_loop p v (pi + 1) vi (Some pi) vi = Some b"
      by (rule "1.hyps") (use 3 "1.prems" in \<open>auto simp: past_star_def\<close>)
    then show ?thesis using step 3 by simp
  next
    case 4
    show ?thesis
    proof (cases star)
      case None
      then have "wildcard_loop p v pi vi star retry = Some False" using step 4 by simp
      then show ?thesis by blast
    next
      case (Some s)
      have "\<exists>b. wildcard_loop p v (s + 1) (retry + 1) (Some s) (retry + 1) = Some b"
        by (rule "1.hyps") (use 4 Some "1.prems" in \<open>auto simp: past_star_def\<close>)
      then show ?thesis using step 4 Some by simp
    qed
  qed
qed

text \<open>
  C33: the dynamic programming decides the reference for every pattern and value. The
  greedy loop returns for every pattern and value; for values without a star (class names have
  none) it decides the reference for the pattern with slashes and backslashes read as dots. The
  reference is bytewise, as both matchers are: a question mark stands for one byte.
\<close>
theorem matchers_agree:
  "component_matches pattern v = glob pattern v \<and>
   (\<exists>b. wildcard_matches pattern v = Some b) \<and>
   (CHR ''*'' \<notin> set v \<longrightarrow>
      wildcard_matches pattern v =
        Some (glob (map (\<lambda>c. if c = CHR ''/'' \<or> c = CHR 0x5C then CHR ''.'' else c) pattern) v))"
proof -
  have "wildcard_loop p v 0 0 None 0 = Some (glob p v)" if "CHR ''*'' \<notin> set v" for p
    using wildcard_loop_correct [of p v 0 0 None 0, OF _ that]
    by (simp add: loop_ok_def open_match_def)
  moreover have "\<exists>b. wildcard_matches pattern v = Some b"
    unfolding wildcard_matches_def by (rule wildcard_loop_returns) (simp_all add: past_star_def)
  ultimately show ?thesis by (simp add: component_matches_glob wildcard_matches_def)
qed

theorem matchers_agree_witness:
  "wildcard_matches ''com/*Test?'' ''com.a.MyTests'' = Some True"
proof -
  have facts: "CHR ''*'' \<notin> set ''com.a.MyTests''"
    "glob (map (\<lambda>c. if c = CHR ''/'' \<or> c = CHR 0x5C then CHR ''.'' else c) ''com/*Test?'') ''com.a.MyTests''"
    by code_simp+
  then have "wildcard_matches ''com/*Test?'' ''com.a.MyTests'' = Some (glob (map (\<lambda>c. if c = CHR ''/'' \<or>
      c = CHR 0x5C then CHR ''.'' else c) ''com/*Test?'') ''com.a.MyTests'')"
    using matchers_agree [of "''com/*Test?''" "''com.a.MyTests''"] by blast
  then show ?thesis by (simp only: facts(2))
qed

end
