(* ===== verification/Build_Modules.thy ===== *)
theory Build_Modules
  imports Config_Validate
begin

text \<open>
  The modules of a workspace in \<open>crates/jman-build/src/lib.rs\<close>: their discovery from the
  manifests, their dependencies on each other, the closure of these dependencies, the layers in
  which they are built, and the cached artifacts on their classpaths. \<open>fs::canonicalize\<close> and the
  TOML decoders are parameters.
\<close>

section \<open>Errors and data\<close>

datatype build_error =
    Invalid str
  | BuildIo path str
  | ConfigFailed path str
  | JavacFailed path str
  | CompilationFailed str str

type_synonym 'a built = "(build_error, 'a) result"

datatype workspace_scope = CompileScope | RuntimeScope | ProvidedScope | TestScope

record workspace_dependency =
  wd_index :: nat
  wd_scope :: workspace_scope

record workspace_module =
  bm_directory :: path
  bm_manifest :: manifest
  bm_dependencies :: "workspace_dependency list"

datatype dependency_usage = CompileUsage | RuntimeUsage | TestUsage

fun usage_includes :: "dependency_usage \<Rightarrow> workspace_scope \<Rightarrow> bool" where
  "usage_includes CompileUsage scope = (scope \<in> {CompileScope, ProvidedScope})"
| "usage_includes RuntimeUsage scope = (scope \<in> {CompileScope, RuntimeScope})"
| "usage_includes TestUsage scope = True"

definition bm_name :: "workspace_module \<Rightarrow> str" where
  "bm_name m = pj_name (mf_project (bm_manifest m))"

text \<open>The operating system and the codecs, as the build sees them.\<close>

record build_env =
  be_disk :: disk
  be_codec :: toml_codec
  be_canonical :: "path \<Rightarrow> (str, path) result"

definition config_error_text :: "config_error \<Rightarrow> str" where
  "config_error_text e =
     (case e of
        ReadError p source \<Rightarrow> ''could not read '' @ show_path p @ '': '' @ read_error_text source
      | ParseError p source \<Rightarrow> ''could not parse '' @ show_path p @ '': '' @ source
      | SerializeError s \<Rightarrow> ''could not serialize configuration: '' @ s
      | UnsupportedVersion kind actual supported \<Rightarrow>
          ''unsupported '' @ kind @ '' schema version '' @ show_nat (unat actual) @
          ''; this jman supports version '' @ show_nat (unat supported)
      | ToolchainOnly p \<Rightarrow>
          show_path p @ '' selects a Java toolchain but does not define a JMAN project; add [project] or run `jman init`''
      | Validation s \<Rightarrow> ''invalid configuration: '' @ s
      | JavaSelectionError p message \<Rightarrow>
          ''invalid Java selection in '' @ show_path p @ '': '' @ message)"

definition read_module_manifest :: "build_env \<Rightarrow> path \<Rightarrow> manifest built" where
  "read_module_manifest env p =
     map_err (\<lambda>e. ConfigFailed p (config_error_text e)) (manifest_read (be_codec env) (be_disk env) p)"

definition read_lock :: "build_env \<Rightarrow> path \<Rightarrow> lockfile built" where
  "read_lock env p =
     map_err (\<lambda>e. ConfigFailed p (config_error_text e @ ''; run `jman sync`''))
       (lockfile_read (be_codec env) (be_disk env) p)"

definition canonicalize :: "build_env \<Rightarrow> path \<Rightarrow> path built" where
  "canonicalize env p = map_err (BuildIo p) (be_canonical env p)"

section \<open>Closure of dependencies\<close>

text \<open>
  The closure is a work list. Indexing outside of the modules panics in the source, which is
  the value \<open>None\<close>; discovered modules never do (below).
\<close>

definition used_dependencies :: "workspace_module list \<Rightarrow> dependency_usage \<Rightarrow> nat \<Rightarrow> nat list" where
  "used_dependencies modules usage index =
     map wd_index (filter (\<lambda>d. usage_includes usage (wd_scope d)) (bm_dependencies (modules ! index)))"

definition pending_bound :: "workspace_module list \<Rightarrow> nat list \<Rightarrow> nat list \<Rightarrow> nat set" where
  "pending_bound modules pending found =
     (set pending \<union> (\<Union>m \<in> set modules. wd_index ` set (bm_dependencies m))) - set found"

lemma finite_pending_bound [simp, intro]: "finite (pending_bound modules pending found)"
  by (simp add: pending_bound_def)

function closure_loop ::
    "workspace_module list \<Rightarrow> dependency_usage \<Rightarrow> nat list \<Rightarrow> nat list \<Rightarrow> nat list option" where
  "closure_loop modules usage pending found =
     (if pending = [] then Some found
      else if last pending \<in> set found then closure_loop modules usage (butlast pending) found
      else if last pending < length modules
           then closure_loop modules usage
                  (butlast pending @ used_dependencies modules usage (last pending))
                  (bs_insert (last pending) found)
           else None)"
  by pat_completeness auto
termination
proof (relation "measures [\<lambda>(ms, _, pending, found). card (pending_bound ms pending found),
    \<lambda>(_, _, pending, _). length pending]", goal_cases)
  case (2 modules usage pending found)
  have "pending_bound modules (butlast pending) found \<subseteq> pending_bound modules pending found"
    by (auto simp: pending_bound_def dest: in_set_butlastD)
  then have "card (pending_bound modules (butlast pending) found) \<le> card (pending_bound modules pending found)"
    by (intro card_mono) auto
  then show ?case using 2 by auto
next
  case (3 modules usage pending found)
  let ?p = "butlast pending @ used_dependencies modules usage (last pending)"
  have "set (used_dependencies modules usage (last pending)) \<subseteq>
      (\<Union>m \<in> set modules. wd_index ` set (bm_dependencies m))"
    using 3 by (auto simp: used_dependencies_def intro!: bexI [of _ "modules ! last pending"])
  then have "pending_bound modules ?p (bs_insert (last pending) found) \<subseteq>
      pending_bound modules pending found - {last pending}"
    by (auto simp: pending_bound_def dest: in_set_butlastD)
  moreover have "last pending \<in> pending_bound modules pending found"
    using 3 by (simp add: pending_bound_def)
  ultimately have "pending_bound modules ?p (bs_insert (last pending) found) \<subset>
      pending_bound modules pending found" by blast
  then show ?case by (auto intro: psubset_card_mono)
qed simp

declare closure_loop.simps [simp del]

definition transitive_dependencies ::
    "nat \<Rightarrow> workspace_module list \<Rightarrow> dependency_usage \<Rightarrow> nat list option" where
  "transitive_dependencies index modules usage =
     (if index < length modules
      then closure_loop modules usage (used_dependencies modules usage index) [] else None)"

definition in_range :: "workspace_module list \<Rightarrow> bool" where
  "in_range modules \<longleftrightarrow>
     (\<forall>m \<in> set modules. \<forall>d \<in> set (bm_dependencies m). wd_index d < length modules)"

text \<open>\<open>i\<close> depends on \<open>j\<close> for the usage.\<close>

definition uses :: "workspace_module list \<Rightarrow> dependency_usage \<Rightarrow> nat \<Rightarrow> nat \<Rightarrow> bool" where
  "uses modules usage i j \<longleftrightarrow> i < length modules \<and> j \<in> set (used_dependencies modules usage i)"

lemma used_in_range:
  "in_range modules \<Longrightarrow> i < length modules \<Longrightarrow> j \<in> set (used_dependencies modules usage i) \<Longrightarrow>
     j < length modules"
  by (auto simp: in_range_def used_dependencies_def)

definition closure_ok :: "workspace_module list \<Rightarrow> dependency_usage \<Rightarrow> nat \<Rightarrow> nat list \<Rightarrow> nat list \<Rightarrow> bool" where
  "closure_ok modules usage i pending found \<longleftrightarrow>
     bs_wf found \<and> (\<forall>j \<in> set pending \<union> set found. tranclp (uses modules usage) i j \<and> j < length modules) \<and>
     (\<forall>j. uses modules usage i j \<longrightarrow> j \<in> set pending \<union> set found) \<and>
     (\<forall>j \<in> set found. \<forall>k. uses modules usage j k \<longrightarrow> k \<in> set pending \<union> set found)"
lemma closure_loop_ok:
  assumes "in_range modules" "closure_ok modules usage i pending found"
  shows "\<exists>r. closure_loop modules usage pending found = Some r \<and> closure_ok modules usage i [] r"
  using assms
proof (induction modules usage pending found rule: closure_loop.induct)
  case (1 modules usage pending found)
  show ?case
  proof (cases "pending = []")
    case True
    then show ?thesis using "1.prems" by (simp add: closure_loop.simps)
  next
    case False
    let ?x = "last pending"
    have pending: "set pending = insert ?x (set (butlast pending))"
      using False by (metis append_butlast_last_id list.set(1,2) set_append sup_commute insert_is_Un)
    have x: "tranclp (uses modules usage) i ?x" "?x < length modules"
      using "1.prems"(2) False by (auto simp: closure_ok_def)
    show ?thesis
    proof (cases "?x \<in> set found")
      case True
      then have "closure_ok modules usage i (butlast pending) found"
        using "1.prems"(2) unfolding closure_ok_def pending by blast
      then show ?thesis using "1.IH"(1) [OF False True "1.prems"(1)] False True
        by (simp add: closure_loop.simps [of modules usage pending found])
    next
      case new: False
      let ?new = "used_dependencies modules usage ?x"
      have "tranclp (uses modules usage) i j \<and> j < length modules" if "j \<in> set ?new" for j
        using that x used_in_range [OF "1.prems"(1) x(2) that]
        by (auto simp: uses_def intro: tranclp.trancl_into_trancl)
      moreover have "uses modules usage ?x k \<longleftrightarrow> k \<in> set ?new" for k
        using x by (simp add: uses_def)
      ultimately have "closure_ok modules usage i (butlast pending @ ?new) (bs_insert ?x found)"
        using "1.prems"(2) bs_wf_insert unfolding closure_ok_def pending set_append set_bs_insert
        by blast
      then show ?thesis using "1.IH"(2) [OF False new x(2) "1.prems"(1)] False new x(2)
        by (simp add: closure_loop.simps [of modules usage pending found])
    qed
  qed
qed

text \<open>
  C14: the transitive dependencies of a module are exactly the modules
  reachable from it over the dependencies of the usage, in ascending order and without
  repetition, and the work list always becomes empty, also on cyclic dependencies.
\<close>
theorem closure_is_reachability:
  assumes "in_range modules" "index < length modules"
  shows "\<exists>found. transitive_dependencies index modules usage = Some found \<and> bs_wf found \<and>
    set found = {j. tranclp (\<lambda>i j. i < length modules \<and>
      (\<exists>d \<in> set (bm_dependencies (modules ! i)). usage_includes usage (wd_scope d) \<and> wd_index d = j))
      index j}"
proof -
  have uses: "uses modules usage = (\<lambda>i j. i < length modules \<and>
      (\<exists>d \<in> set (bm_dependencies (modules ! i)). usage_includes usage (wd_scope d) \<and> wd_index d = j))"
    by (auto simp: fun_eq_iff uses_def used_dependencies_def)
  have "closure_ok modules usage index (used_dependencies modules usage index) []"
    using used_in_range [OF assms] assms(2) by (auto simp: closure_ok_def uses_def)
  then obtain r where r: "closure_loop modules usage (used_dependencies modules usage index) [] = Some r"
    "closure_ok modules usage index [] r"
    using closure_loop_ok [OF assms(1)] by blast
  have "j \<in> set r" if "tranclp (uses modules usage) index j" for j
    using that r(2) by (induction rule: tranclp_induct) (auto simp: closure_ok_def)
  then have "set r = {j. tranclp (uses modules usage) index j}"
    using r(2) unfolding closure_ok_def by blast
  moreover have "transitive_dependencies index modules usage = Some r" "bs_wf r"
    using r assms(2) by (simp_all add: transitive_dependencies_def closure_ok_def)
  ultimately show ?thesis unfolding uses by blast
qed

section \<open>Layers\<close>

definition module_edge :: "workspace_module list \<Rightarrow> nat \<Rightarrow> nat \<Rightarrow> bool" where
  "module_edge modules i j \<longleftrightarrow> j \<in> wd_index ` set (bm_dependencies (modules ! i))"

text \<open>
  The search for a cycle among the candidates, depth first: the stack is the current path, the
  completed modules lie on no cycle.
\<close>

function visit_module ::
    "workspace_module list \<Rightarrow> nat list \<Rightarrow> nat \<Rightarrow> nat list \<Rightarrow> nat list \<Rightarrow> nat list option \<times> nat list"
  and visit_dependencies ::
    "workspace_module list \<Rightarrow> nat list \<Rightarrow> nat list \<Rightarrow> nat list \<Rightarrow> nat list \<Rightarrow> nat list option \<times> nat list" where
  "visit_module modules candidates index complete stack =
     (if index \<in> set stack
      then (Some (dropWhile (\<lambda>c. c \<noteq> index) stack @ [index]), complete)
      else if index \<in> set complete then (None, complete)
      else (case visit_dependencies modules candidates
                   (map wd_index (bm_dependencies (modules ! index))) complete (stack @ [index]) of
              (Some cycle, complete') \<Rightarrow> (Some cycle, complete')
            | (None, complete') \<Rightarrow> (None, bs_insert index complete')))"
| "visit_dependencies modules candidates [] complete stack = (None, complete)"
| "visit_dependencies modules candidates (d # ds) complete stack =
     (if d \<in> set candidates
      then (case visit_module modules candidates d complete stack of
              (Some cycle, complete') \<Rightarrow> (Some cycle, complete')
            | (None, complete') \<Rightarrow> visit_dependencies modules candidates ds complete' stack)
      else visit_dependencies modules candidates ds complete stack)"
  by pat_completeness auto
termination
proof (relation "measures
    [case_sum (\<lambda>(_, cs, i, _, stack). card (insert i (set cs) - set stack))
       (\<lambda>(_, cs, _, _, stack). card (set cs - set stack)),
     case_sum (\<lambda>_. 0) (\<lambda>(_, _, ds, _, _). Suc (length ds))]", goal_cases)
  case (2 modules candidates index complete stack)
  have "set candidates - set (stack @ [index]) \<subset> insert index (set candidates) - set stack"
    using 2 by auto
  then show ?case by (auto intro: psubset_card_mono)
qed (auto simp: insert_absorb)

declare visit_module.simps [simp del]

fun first_cycle :: "workspace_module list \<Rightarrow> nat list \<Rightarrow> nat list \<Rightarrow> nat list \<Rightarrow> nat list option" where
  "first_cycle modules candidates [] complete = None"
| "first_cycle modules candidates (i # rest) complete =
     (case visit_module modules candidates i complete [] of
        (Some cycle, _) \<Rightarrow> Some cycle
      | (None, complete') \<Rightarrow> first_cycle modules candidates rest complete')"

definition module_dependency_cycle :: "workspace_module list \<Rightarrow> nat list \<Rightarrow> nat list" where
  "module_dependency_cycle modules candidates =
     (case first_cycle modules candidates candidates [] of Some cycle \<Rightarrow> cycle | None \<Rightarrow> candidates)"

definition ready_modules :: "workspace_module list \<Rightarrow> nat list \<Rightarrow> nat list \<Rightarrow> nat list" where
  "ready_modules modules remaining complete =
     filter (\<lambda>i. list_all (\<lambda>d. wd_index d \<in> set complete) (bm_dependencies (modules ! i))) remaining"

function layers_loop ::
    "workspace_module list \<Rightarrow> nat list \<Rightarrow> nat list \<Rightarrow> nat list list \<Rightarrow> nat list list built" where
  "layers_loop modules remaining complete layers =
     (if remaining = [] then Inr layers
      else if ready_modules modules remaining complete = []
           then Inl (Invalid (''module dependency cycle detected: '' @
                  join_with '' -> '' (map (\<lambda>i. bm_name (modules ! i))
                    (module_dependency_cycle modules remaining))))
           else layers_loop modules
                  (filter (\<lambda>i. i \<notin> set (ready_modules modules remaining complete)) remaining)
                  (fold bs_insert (ready_modules modules remaining complete) complete)
                  (layers @ [ready_modules modules remaining complete]))"
  by pat_completeness auto
termination
proof (relation "measure (\<lambda>(_, remaining, _, _). length remaining)", goal_cases)
  case (2 modules remaining complete layers)
  then obtain x where "x \<in> set (ready_modules modules remaining complete)"
    by (cases "ready_modules modules remaining complete") auto
  then have "x \<in> set remaining" "x \<in> set (ready_modules modules remaining complete)"
    by (auto simp: ready_modules_def)
  then show ?case by (auto intro!: length_filter_less)
qed simp

declare layers_loop.simps [simp del]

definition topological_layers :: "workspace_module list \<Rightarrow> nat list list built" where
  "topological_layers modules = layers_loop modules [0..<length modules] [] []"

text \<open>A closed walk over dependencies, first and last module the same.\<close>

definition real_cycle :: "workspace_module list \<Rightarrow> nat list \<Rightarrow> bool" where
  "real_cycle modules c \<longleftrightarrow> 2 \<le> length c \<and> hd c = last c \<and> successively (module_edge modules) c"

lemma stack_cycle:
  assumes "index \<in> set stack" "successively (module_edge modules) (stack @ [index])"
  shows "real_cycle modules (dropWhile (\<lambda>c. c \<noteq> index) stack @ [index])"
proof -
  from assms(1) obtain u v where stack: "stack = u @ index # v" "index \<notin> set u"
    by (blast dest: split_list_first)
  then have "dropWhile (\<lambda>c. c \<noteq> index) stack = index # v"
    by (simp add: dropWhile_append3 dropWhile_append)
  with assms(2) show ?thesis
    by (simp add: real_cycle_def stack successively_append_iff)
qed

lemma visit_real:
  "visit_module modules cs index complete stack = (Some c, k) \<Longrightarrow>
     successively (module_edge modules) (stack @ [index]) \<Longrightarrow> set (index # stack) \<subseteq> set cs \<Longrightarrow>
     real_cycle modules c \<and> set c \<subseteq> set cs"
  "visit_dependencies modules cs ds complete stack = (Some c, k) \<Longrightarrow>
     successively (module_edge modules) stack \<Longrightarrow> stack \<noteq> [] \<Longrightarrow> set stack \<subseteq> set cs \<Longrightarrow>
     list_all (module_edge modules (last stack)) ds \<Longrightarrow>
     real_cycle modules c \<and> set c \<subseteq> set cs"
proof (induction modules cs index complete stack and modules cs ds complete stack
    arbitrary: c k and c k rule: visit_module_visit_dependencies.induct)
  case (1 modules cs index complete stack)
  show ?case
  proof (cases "index \<in> set stack")
    case True
    then have "c = dropWhile (\<lambda>c. c \<noteq> index) stack @ [index]"
      using "1.prems"(1) by (simp add: visit_module.simps)
    then show ?thesis using stack_cycle [OF True "1.prems"(2)] "1.prems"(3)
      by (auto dest: set_dropWhileD)
  next
    case False
    have "list_all (module_edge modules (last (stack @ [index])))
        (map wd_index (bm_dependencies (modules ! index)))"
      by (simp add: list_all_iff module_edge_def)
    moreover obtain k' where "index \<notin> set complete" "visit_dependencies modules cs
        (map wd_index (bm_dependencies (modules ! index))) complete (stack @ [index]) = (Some c, k')"
      using "1.prems"(1) False
      by (auto simp: visit_module.simps [of modules cs index] split: prod.splits option.splits if_splits)
    ultimately show ?thesis using "1.IH" [OF False, of c k'] "1.prems" by simp
  qed
next
  case (3 modules cs d ds complete stack)
  then show ?case
    by (auto simp: successively_append_iff split: if_splits prod.splits option.splits)
qed simp

lemma visit_finds:
  "(\<forall>i \<in> set cs. \<exists>d \<in> set cs. module_edge modules i d) \<Longrightarrow> complete = [] \<Longrightarrow> index \<in> set cs \<Longrightarrow>
     fst (visit_module modules cs index complete stack) \<noteq> None"
  "(\<forall>i \<in> set cs. \<exists>d \<in> set cs. module_edge modules i d) \<Longrightarrow> complete = [] \<Longrightarrow>
     set ds \<inter> set cs \<noteq> {} \<Longrightarrow> fst (visit_dependencies modules cs ds complete stack) \<noteq> None"
proof (induction modules cs index complete stack and modules cs ds complete stack
    rule: visit_module_visit_dependencies.induct)
  case (1 modules cs index complete stack)
  have "set (map wd_index (bm_dependencies (modules ! index))) \<inter> set cs \<noteq> {}"
    using "1.prems" by (auto simp: module_edge_def)
  then show ?case using "1.prems" "1.IH"
    by (subst visit_module.simps) (auto split: prod.splits option.splits)
next
  case (3 modules cs d ds complete stack)
  then show ?case by (auto split: prod.splits option.splits)
qed simp

lemma cycle_found:
  assumes "cs \<noteq> []" "\<forall>i \<in> set cs. \<exists>d \<in> set cs. module_edge modules i d"
  shows "real_cycle modules (module_dependency_cycle modules cs) \<and>
    set (module_dependency_cycle modules cs) \<subseteq> set cs"
proof -
  from assms(1) obtain i rest where cs: "cs = i # rest" by (cases cs) auto
  obtain c k where c: "visit_module modules cs i [] [] = (Some c, k)"
    using visit_finds(1) [OF assms(2) refl, of i "[]"] cs
    by (cases "visit_module modules cs i [] []") auto
  then have "module_dependency_cycle modules cs = c"
    by (simp add: module_dependency_cycle_def cs)
  then show ?thesis using visit_real(1) [OF c] cs by simp
qed

text \<open>The state of the loop: finished layers in order, and nothing left behind in them.\<close>

definition layers_ok :: "workspace_module list \<Rightarrow> nat list list \<Rightarrow> bool" where
  "layers_ok modules layers \<longleftrightarrow>
     distinct (concat layers) \<and>
     (\<forall>k < length layers. \<forall>i \<in> set (layers ! k).
        (\<forall>d. module_edge modules i d \<longrightarrow> (\<exists>j < k. d \<in> set (layers ! j))) \<and>
        (0 < k \<longrightarrow> (\<exists>d \<in> set (layers ! (k - 1)). module_edge modules i d)))"

definition layering ::
    "workspace_module list \<Rightarrow> nat list \<Rightarrow> nat list \<Rightarrow> nat list list \<Rightarrow> bool" where
  "layering modules remaining complete layers \<longleftrightarrow>
     layers_ok modules layers \<and> distinct remaining \<and> set complete = set (concat layers) \<and>
     set remaining \<inter> set complete = {} \<and> set remaining \<union> set complete = {..<length modules} \<and>
     (layers \<noteq> [] \<longrightarrow> (\<forall>i \<in> set remaining. \<exists>d. module_edge modules i d \<and>
         d \<notin> set (concat (butlast layers))))"

lemma in_set_concat_nth: "d \<in> set (concat xs) \<longleftrightarrow> (\<exists>j < length xs. d \<in> set (xs ! j))"
  unfolding set_concat UN_iff by (metis in_set_conv_nth)

lemma ready_modules_iff:
  "i \<in> set (ready_modules modules remaining complete) \<longleftrightarrow>
     i \<in> set remaining \<and> (\<forall>d. module_edge modules i d \<longrightarrow> d \<in> set complete)"
  by (auto simp: ready_modules_def list_all_iff module_edge_def)

lemma layers_ok_snoc:
  assumes ok: "layering modules remaining complete layers"
  defines "ready \<equiv> ready_modules modules remaining complete"
  shows "layers_ok modules (layers @ [ready])"
proof -
  have distinct: "distinct (concat (layers @ [ready]))"
    using ok by (auto simp: layering_def layers_ok_def ready_def ready_modules_def)
  have "(\<forall>d. module_edge modules i d \<longrightarrow> (\<exists>j < k. d \<in> set ((layers @ [ready]) ! j))) \<and>
      (0 < k \<longrightarrow> (\<exists>d \<in> set ((layers @ [ready]) ! (k - 1)). module_edge modules i d))"
    if "k < length (layers @ [ready])" and i: "i \<in> set ((layers @ [ready]) ! k)" for k i
  proof (cases "k = length layers")
    case True
    then have ready: "i \<in> set remaining" "\<forall>d. module_edge modules i d \<longrightarrow> d \<in> set (concat layers)"
      using i ok by (simp_all add: ready_def ready_modules_iff layering_def)
    have "\<exists>j < k. d \<in> set ((layers @ [ready]) ! j)" if "module_edge modules i d" for d
    proof -
      have "d \<in> set (concat layers)" using ready(2) that by blast
      then obtain j where "j < length layers" "d \<in> set (layers ! j)"
        unfolding in_set_concat_nth by blast
      then show ?thesis using True by (auto simp: nth_append)
    qed
    moreover have "\<exists>d \<in> set ((layers @ [ready]) ! (k - 1)). module_edge modules i d" if "0 < k"
    proof -
      have ne: "layers \<noteq> []" using that True by auto
      then obtain d where d: "module_edge modules i d" "d \<notin> set (concat (butlast layers))"
        using ok ready(1) unfolding layering_def by blast
      have "concat layers = concat (butlast layers) @ last layers"
        using ne by (metis append_butlast_last_id concat.simps concat_append append_Nil2)
      then have "d \<in> set (last layers)" using d ready(2) by auto
      then show ?thesis using d(1) ne True by (auto simp: nth_append last_conv_nth)
    qed
    ultimately show ?thesis by blast
  next
    case False
    then have "k < length layers" using that by simp
    then show ?thesis using i ok
      by (auto simp: nth_append layering_def layers_ok_def) (metis less_trans)+
  qed
  with distinct show ?thesis unfolding layers_ok_def by blast
qed

lemma layering_step:
  assumes ok: "layering modules remaining complete layers"
    and ready: "ready = ready_modules modules remaining complete"
  shows "layering modules (filter (\<lambda>i. i \<notin> set ready) remaining) (fold bs_insert ready complete)
    (layers @ [ready])"
proof -
  have "layers_ok modules (layers @ [ready])" using layers_ok_snoc [OF ok] ready by simp
  moreover have "set ready \<subseteq> set remaining" by (auto simp: ready ready_modules_iff)
  moreover have "\<exists>d. module_edge modules i d \<and> d \<notin> set (concat layers)"
    if "i \<in> set remaining" "i \<notin> set ready" for i
    using that ok by (auto simp: ready ready_modules_iff layering_def)
  ultimately show ?thesis using ok
    by (auto simp: layering_def set_fold_bs_insert)
qed

lemma layers_loop_ok:
  assumes "in_range modules" "layering modules remaining complete layers"
  shows "case layers_loop modules remaining complete layers of
      Inr ls \<Rightarrow> layers_ok modules ls \<and> set (concat ls) = {..<length modules}
    | Inl e \<Rightarrow> (\<exists>c. real_cycle modules c \<and> set c \<subseteq> {..<length modules} \<and>
        e = Invalid (''module dependency cycle detected: '' @
              join_with '' -> '' (map (\<lambda>i. bm_name (modules ! i)) c)))"
  using assms
proof (induction modules remaining complete layers rule: layers_loop.induct)
  case (1 modules remaining complete layers)
  let ?ready = "ready_modules modules remaining complete"
  consider "remaining = []" | "remaining \<noteq> []" "?ready = []" | "remaining \<noteq> []" "?ready \<noteq> []"
    by blast
  then show ?case
  proof cases
    case 1
    have "set (concat layers) = {..<length modules}"
      using 1 "1.prems"(2) unfolding layering_def by (metis empty_set sup_bot_left)
    then show ?thesis using 1 "1.prems"(2) by (simp add: layers_loop.simps layering_def)
  next
    case 2
    have "\<exists>d \<in> set remaining. module_edge modules i d" if i: "i \<in> set remaining" for i
    proof -
      have "i \<notin> set ?ready" using 2 by simp
      then obtain d where d: "module_edge modules i d" "d \<notin> set complete"
        using i by (auto simp: ready_modules_iff)
      have "i < length modules" using i "1.prems"(2) by (auto simp: layering_def)
      then have "d < length modules"
        using d(1) "1.prems"(1) by (auto simp: module_edge_def in_range_def)
      then show ?thesis using d "1.prems"(2) by (auto simp: layering_def)
    qed
    then have "real_cycle modules (module_dependency_cycle modules remaining)"
      "set (module_dependency_cycle modules remaining) \<subseteq> set remaining"
      using cycle_found [OF 2(1)] by blast+
    moreover have "set remaining \<subseteq> {..<length modules}"
      using "1.prems"(2) by (auto simp: layering_def)
    ultimately show ?thesis using 2 by (auto simp: layers_loop.simps [of modules remaining])
  next
    case 3
    then show ?thesis
      using "1.IH" [OF 3 "1.prems"(1) layering_step [OF "1.prems"(2) refl]]
      by (simp add: layers_loop.simps [of modules remaining])
  qed
qed

lemma layering_start: "layering modules [0..<length modules] [] []"
  by (auto simp: layering_def layers_ok_def)

text \<open>
  C11: the build order of the modules. Either every module is in
  exactly one layer, after all modules it depends on and no later than its dependencies require
  (one of them is in the layer just before), or the error names a real cycle of dependencies.
\<close>
theorem layers_respect_dependencies:
  assumes "in_range modules"
  shows "case topological_layers modules of
      Inr layers \<Rightarrow>
        distinct (concat layers) \<and> set (concat layers) = {..<length modules} \<and>
        (\<forall>k < length layers. \<forall>i \<in> set (layers ! k).
           (\<forall>d. module_edge modules i d \<longrightarrow> (\<exists>j < k. d \<in> set (layers ! j))) \<and>
           (0 < k \<longrightarrow> (\<exists>d \<in> set (layers ! (k - 1)). module_edge modules i d)))
    | Inl e \<Rightarrow>
        (\<exists>c. 2 \<le> length c \<and> hd c = last c \<and> successively (module_edge modules) c \<and>
           set c \<subseteq> {..<length modules} \<and>
           e = Invalid (''module dependency cycle detected: '' @
                 join_with '' -> '' (map (\<lambda>i. bm_name (modules ! i)) c)))"
  using layers_loop_ok [OF assms layering_start]
  by (auto simp: topological_layers_def layers_ok_def real_cycle_def split: sum.splits)

section \<open>Discovery\<close>

type_synonym raw_module = "path \<times> manifest"

definition module_children :: "build_env \<Rightarrow> path \<Rightarrow> path \<Rightarrow> str list \<Rightarrow> path list built" where
  "module_children env root directory children =
     traverse (\<lambda>child.
       and_then (canonicalize env (path_join directory (path_of child))) (\<lambda>p.
       and_then (ensure (path_starts_with p root)
         (Invalid (''module '' @ show_path p @ '' escapes workspace '' @ show_path root)))
         (\<lambda>_. Inr p))) (rev children)"

partial_function (option) discover_loop ::
    "build_env \<Rightarrow> path \<Rightarrow> path list \<Rightarrow> path list \<Rightarrow> raw_module list \<Rightarrow> raw_module list built option" where
  "discover_loop env root pending seen raw =
     (if pending = [] then Some (Inr raw)
      else if last pending \<in> set seen
           then Some (Inl (Invalid (''duplicate or cyclic module declaration at '' @
                  show_path (last pending))))
           else (case read_module_manifest env (path_join (last pending) [Normal ''jman.toml'']) of
                   Inl e \<Rightarrow> Some (Inl e)
                 | Inr m \<Rightarrow>
                     (case module_children env root (last pending) (pj_modules (mf_project m)) of
                        Inl e \<Rightarrow> Some (Inl e)
                      | Inr children \<Rightarrow>
                          discover_loop env root (butlast pending @ children)
                            (bs_insert (last pending) seen) (raw @ [(last pending, m)]))))"

declare discover_loop.simps [code]

definition scope_text :: "workspace_scope \<Rightarrow> str" where
  "scope_text s =
     (case s of CompileScope \<Rightarrow> ''Compile'' | RuntimeScope \<Rightarrow> ''Runtime''
      | ProvidedScope \<Rightarrow> ''Provided'' | TestScope \<Rightarrow> ''Test'')"

definition scoped_entries :: "dependencies \<Rightarrow> (workspace_scope \<times> str \<times> dependency_spec) list" where
  "scoped_entries d =
     map (Pair CompileScope) (dp_compile d) @ map (Pair RuntimeScope) (dp_runtime d) @
     map (Pair ProvidedScope) (dp_provided d) @ map (Pair TestScope) (dp_test d)"

text \<open>The target of a dependency on a path: a declared module below the root, not the module itself.\<close>

definition dependency_target ::
    "build_env \<Rightarrow> path \<Rightarrow> manifest \<Rightarrow> path \<Rightarrow> (path, nat) btree_map \<Rightarrow> str list \<Rightarrow> str \<Rightarrow> str \<Rightarrow> nat built" where
  "dependency_target env directory m root indices coordinates coord relative =
     and_then (canonicalize env (path_join directory (path_of relative))) (\<lambda>dep.
     and_then (ensure (path_starts_with dep root)
       (Invalid (''workspace dependency '' @ coord @ '' from '' @ show_path directory @
          '' escapes workspace '' @ show_path root))) (\<lambda>_.
     and_then (ok_or
       (Invalid (''workspace dependency '' @ coord @ '' at '' @ show_path dep @ '' from '' @
          show_path directory @ '' is not a declared workspace module''))
       (bt_get indices dep)) (\<lambda>index.
     and_then (ensure (bt_get indices directory \<noteq> Some index)
       (Invalid (''module '' @ ticked (pj_name (mf_project m)) @ '' cannot depend on itself''))) (\<lambda>_.
     and_then (ensure (coord = coordinates ! index)
       (Invalid (''workspace dependency '' @ ticked coord @ '' points to '' @
          ticked (coordinates ! index) @ '' at '' @ show_path dep)))
       (\<lambda>_. Inr index)))))"

fun dependencies_loop ::
    "(str \<Rightarrow> str \<Rightarrow> nat built) \<Rightarrow> (workspace_scope \<times> str \<times> dependency_spec) list \<Rightarrow>
     (nat, workspace_scope) btree_map \<Rightarrow> workspace_dependency list \<Rightarrow> workspace_dependency list built" where
  "dependencies_loop target [] targets found = Inr found"
| "dependencies_loop target ((scope, coord, spec) # rest) targets found =
     (case dependency_spec_path spec of
        None \<Rightarrow> dependencies_loop target rest targets found
      | Some relative \<Rightarrow>
          (case target coord relative of
             Inl e \<Rightarrow> Inl e
           | Inr index \<Rightarrow>
               (case bt_get targets index of
                  Some previous \<Rightarrow>
                    Inl (Invalid (''workspace dependency '' @ ticked coord @ '' is declared in both '' @
                      scope_text previous @ '' and '' @ scope_text scope @ '' scopes''))
                | None \<Rightarrow>
                    dependencies_loop target rest (bt_insert index scope targets)
                      (found @ [\<lparr>wd_index = index, wd_scope = scope\<rparr>]))))"

definition discover_workspace_dependencies ::
    "build_env \<Rightarrow> path \<Rightarrow> manifest \<Rightarrow> path \<Rightarrow> (path, nat) btree_map \<Rightarrow> str list \<Rightarrow>
     workspace_dependency list built" where
  "discover_workspace_dependencies env directory m root indices coordinates =
     and_then (dependencies_loop (dependency_target env directory m root indices coordinates)
       (scoped_entries (mf_dependencies m)) [] []) (\<lambda>found.
     Inr (sort_key wd_index found))"

definition module_coordinate :: "manifest \<Rightarrow> str" where
  "module_coordinate m = pj_group (mf_project m) @ '':'' @ pj_name (mf_project m)"

definition link_modules :: "build_env \<Rightarrow> path \<Rightarrow> raw_module list \<Rightarrow> workspace_module list built" where
  "link_modules env root raw =
     (let indices = bt_of_list (map (\<lambda>(index, directory, _). (directory, index)) (enumerate 0 raw));
          coordinates = map (\<lambda>(_, m). module_coordinate m) raw
      in traverse (\<lambda>(directory, m).
           and_then (discover_workspace_dependencies env directory m root indices coordinates) (\<lambda>deps.
           Inr \<lparr>bm_directory = directory, bm_manifest = m, bm_dependencies = deps\<rparr>)) raw)"

definition discover_modules :: "build_env \<Rightarrow> path \<Rightarrow> workspace_module list built option" where
  "discover_modules env root =
     (case canonicalize env root of
        Inl e \<Rightarrow> Some (Inl e)
      | Inr root' \<Rightarrow>
          map_option (\<lambda>r. and_then r (link_modules env root')) (discover_loop env root' [root'] [] []))"

text \<open>What discovery keeps: every declared module is listed or pending, every listed one declared.\<close>

definition child_of :: "build_env \<Rightarrow> raw_module \<Rightarrow> path \<Rightarrow> bool" where
  "child_of env r p \<longleftrightarrow>
     (\<exists>child \<in> set (pj_modules (mf_project (snd r))).
        canonicalize env (path_join (fst r) (path_of child)) = Inr p)"

definition listed :: "build_env \<Rightarrow> path set \<Rightarrow> raw_module \<Rightarrow> bool" where
  "listed env S r \<longleftrightarrow>
     read_module_manifest env (path_join (fst r) [Normal ''jman.toml'']) = Inr (snd r) \<and>
     (\<forall>child \<in> set (pj_modules (mf_project (snd r))). \<exists>p \<in> S.
        canonicalize env (path_join (fst r) (path_of child)) = Inr p)"

lemma listed_mono: "listed env S r \<Longrightarrow> S \<subseteq> T \<Longrightarrow> listed env T r"
  by (fastforce simp: listed_def)

definition discovering :: "build_env \<Rightarrow> path \<Rightarrow> path list \<Rightarrow> path list \<Rightarrow> raw_module list \<Rightarrow> bool" where
  "discovering env root pending seen raw \<longleftrightarrow>
     set seen = fst ` set raw \<and> distinct (map fst raw) \<and> root \<in> set pending \<union> fst ` set raw \<and>
     (\<forall>p \<in> set pending \<union> fst ` set raw. prefix root p \<and> (p = root \<or> (\<exists>r \<in> set raw. child_of env r p))) \<and>
     (\<forall>r \<in> set raw. listed env (set pending \<union> fst ` set raw) r)"

lemma module_children_ok:
  assumes "module_children env root directory cs = Inr ps"
  shows "\<forall>p \<in> set ps. prefix root p \<and> (\<exists>c \<in> set cs. canonicalize env (path_join directory (path_of c)) = Inr p)"
    and "\<forall>c \<in> set cs. \<exists>p \<in> set ps. canonicalize env (path_join directory (path_of c)) = Inr p"
proof -
  let ?f = "\<lambda>child. and_then (canonicalize env (path_join directory (path_of child))) (\<lambda>p.
       and_then (ensure (path_starts_with p root)
         (Invalid (''module '' @ show_path p @ '' escapes workspace '' @ show_path root)))
         (\<lambda>_. Inr p))"
  have tr: "traverse ?f (rev cs) = Inr ps" using assms by (simp add: module_children_def)
  have "?f c = Inr p \<longleftrightarrow> canonicalize env (path_join directory (path_of c)) = Inr p \<and> prefix root p" for c p
    by (auto simp: and_then_Inr_iff path_starts_with_def)
  then show "\<forall>p \<in> set ps. prefix root p \<and> (\<exists>c \<in> set cs. canonicalize env (path_join directory (path_of c)) = Inr p)"
    and "\<forall>c \<in> set cs. \<exists>p \<in> set ps. canonicalize env (path_join directory (path_of c)) = Inr p"
    using traverse_in_set [OF tr] traverse_set_in [OF tr] by auto
qed

lemma discovering_step:
  assumes inv: "discovering env root pending seen raw" and ne: "pending \<noteq> []"
    and new: "last pending \<notin> set seen"
    and m: "read_module_manifest env (path_join (last pending) [Normal ''jman.toml'']) = Inr m"
    and cs: "module_children env root (last pending) (pj_modules (mf_project m)) = Inr children"
  shows "discovering env root (butlast pending @ children) (bs_insert (last pending) seen)
    (raw @ [(last pending, m)])"
proof -
  let ?x = "last pending"
  have pending: "set pending = insert ?x (set (butlast pending))"
    using ne by (metis append_butlast_last_id list.set(1,2) set_append sup_commute insert_is_Un)
  have all: "set (butlast pending @ children) \<union> fst ` set (raw @ [(?x, m)]) =
      set pending \<union> fst ` set raw \<union> set children"
    by (auto simp: pending)
  have children: "\<forall>p \<in> set children. prefix root p \<and> child_of env (?x, m) p"
    using module_children_ok(1) [OF cs] by (auto simp: child_of_def)
  show ?thesis unfolding discovering_def all
  proof (intro conjI)
    show "\<forall>p \<in> set pending \<union> fst ` set raw \<union> set children. prefix root p \<and>
        (p = root \<or> (\<exists>r \<in> set (raw @ [(?x, m)]). child_of env r p))"
      using inv children unfolding discovering_def set_append by auto
    have "listed env (set children) (?x, m)"
      using m module_children_ok(2) [OF cs] by (simp add: listed_def)
    then show "\<forall>r \<in> set (raw @ [(?x, m)]). listed env (set pending \<union> fst ` set raw \<union> set children) r"
      using inv unfolding discovering_def by (auto intro: listed_mono)
  qed (use inv new in \<open>auto simp: discovering_def\<close>)
qed

lemma discover_loop_ok:
  assumes "discover_loop env root pending seen raw = Some (Inr raw')"
    and "discovering env root pending seen raw"
  shows "\<exists>seen'. discovering env root [] seen' raw'"
proof -
  have "discovering env root pending seen raw \<longrightarrow> r = Inr raw' \<longrightarrow>
      (\<exists>seen'. discovering env root [] seen' raw')"
    if "discover_loop env root pending seen raw = Some r" for r
    using that
  proof (induction rule: discover_loop.raw_induct [rotated, consumes 1, case_names 1])
    case (1 rec env root pending seen raw r)
    show ?case
    proof (intro impI)
      assume inv: "discovering env root pending seen raw" and r: "r = Inr raw'"
      show "\<exists>seen'. discovering env root [] seen' raw'"
      proof (cases "pending = []")
        case True
        then show ?thesis using 1(2) inv r by auto
      next
        case False
        obtain m children where
          step: "last pending \<notin> set seen"
          "read_module_manifest env (path_join (last pending) [Normal ''jman.toml'']) = Inr m"
          "module_children env root (last pending) (pj_modules (mf_project m)) = Inr children"
          and rec: "rec env root (butlast pending @ children) (bs_insert (last pending) seen)
            (raw @ [(last pending, m)]) = Some r"
          using 1(2) False r by (auto split: if_splits sum.splits)
        then show ?thesis using 1(1) [OF rec] discovering_step [OF inv False step] r by blast
      qed
    qed
  qed
  then show ?thesis using assms by blast
qed

text \<open>Every round reads a manifest that no round before has read.\<close>

lemma manifest_needs_file:
  assumes "read_module_manifest env p = Inr m"
  shows "be_disk env p \<noteq> None"
  using assms
  by (auto simp: read_module_manifest_def manifest_read_def manifest_file_read_def
      and_then_Inr_iff read_to_string_Inr_iff)

lemma discover_loop_returns:
  assumes "finite {p. be_disk env p \<noteq> None}" and "set seen = fst ` set raw"
  shows "discover_loop env root pending seen raw \<noteq> None"
proof -
  define dirs where "dirs = {p. be_disk env (p @ [Normal ''jman.toml'']) \<noteq> None}"
  have fin: "finite dirs"
    using finite_vimageI [OF assms(1), of "\<lambda>p. p @ [Normal ''jman.toml'']"]
    by (simp add: dirs_def vimage_def inj_on_def)
  show ?thesis using assms(2)
  proof (induction "card (dirs - set seen)" arbitrary: pending seen raw rule: less_induct)
    case less
    show ?case
    proof (cases "pending = [] \<or> last pending \<in> set seen")
      case True
      then show ?thesis by (auto simp: discover_loop.simps [of env root pending])
    next
      case False
      show ?thesis
      proof (cases "read_module_manifest env (path_join (last pending) [Normal ''jman.toml''])")
        case (Inl e)
        then show ?thesis using False by (simp add: discover_loop.simps [of env root pending])
      next
        case (Inr m)
        then have "last pending \<in> dirs"
          using manifest_needs_file [OF Inr] by (simp add: dirs_def path_join_name)
        then have "dirs - set (bs_insert (last pending) seen) \<subset> dirs - set seen"
          using False by auto
        then have "card (dirs - set (bs_insert (last pending) seen)) < card (dirs - set seen)"
          using fin by (intro psubset_card_mono) auto
        then have "discover_loop env root pending' (bs_insert (last pending) seen)
            (raw @ [(last pending, m)]) \<noteq> None" for pending'
          by (rule less.hyps) (simp add: less.prems)
        then show ?thesis using False Inr
          by (auto simp: discover_loop.simps [of env root pending] split: sum.splits)
      qed
    qed
  qed
qed

text \<open>The dependencies found in the tables: one per target, each from an entry with a path.\<close>

lemma dependencies_loop_ok:
  assumes "dependencies_loop target entries targets found = Inr ds"
    and "distinct (map wd_index found)" "set (bt_keys targets) = wd_index ` set found"
  shows "distinct (map wd_index ds) \<and>
    (\<forall>d \<in> set ds. d \<in> set found \<or> (\<exists>coord spec relative. (wd_scope d, coord, spec) \<in> set entries \<and>
       dependency_spec_path spec = Some relative \<and> target coord relative = Inr (wd_index d)))"
  using assms
proof (induction target entries targets found rule: dependencies_loop.induct)
  case (2 target scope coord spec rest targets found)
  show ?case
  proof (cases "dependency_spec_path spec")
    case None
    then have "distinct (map wd_index ds) \<and>
        (\<forall>d \<in> set ds. d \<in> set found \<or>
          (\<exists>coord spec relative. (wd_scope d, coord, spec) \<in> set rest \<and>
            dependency_spec_path spec = Some relative \<and> target coord relative = Inr (wd_index d)))"
      using "2.IH"(1) "2.prems" by simp
    then show ?thesis by (meson list.set_intros(2))
  next
    case (Some relative)
    then obtain i where i: "target coord relative = Inr i" "bt_get targets i = None"
      "dependencies_loop target rest (bt_insert i scope targets)
         (found @ [\<lparr>wd_index = i, wd_scope = scope\<rparr>]) = Inr ds"
      using "2.prems"(1) by (auto split: sum.splits option.splits)
    then have "i \<notin> wd_index ` set found"
      using "2.prems"(3) bt_contains_iff [of targets i] by (simp add: bt_contains_def)
    then have "distinct (map wd_index ds) \<and>
        (\<forall>d \<in> set ds. d \<in> set (found @ [\<lparr>wd_index = i, wd_scope = scope\<rparr>]) \<or>
          (\<exists>coord spec relative. (wd_scope d, coord, spec) \<in> set rest \<and>
            dependency_spec_path spec = Some relative \<and> target coord relative = Inr (wd_index d)))"
      using "2.IH"(2) [OF Some i] "2.prems" by (simp add: bt_keys_insert)
    then show ?thesis using Some i(1) by fastforce
  qed
qed simp

lemma indices_get:
  fixes raw :: "raw_module list"
  assumes "distinct (map fst raw)"
  shows "bt_get (bt_of_list (map (\<lambda>(i, d, _). (d, i)) (enumerate 0 raw))) d = Some i \<longleftrightarrow>
    i < length raw \<and> fst (raw ! i) = d"
proof -
  let ?es = "map (\<lambda>(i, d, _). (d, i)) (enumerate 0 raw)"
  have es: "?es = map (\<lambda>i. (fst (raw ! i), i)) [0..<length raw]"
    by (rule nth_equalityI) (simp_all add: nth_enumerate_eq split: prod.splits)
  have "map fst ?es = map fst raw"
    unfolding es by (rule nth_equalityI) simp_all
  then have "distinct (map fst (rev ?es))" using assms by (metis distinct_rev rev_map)
  then have "map_of (rev ?es) d = Some i \<longleftrightarrow> (d, i) \<in> set ?es"
    by (subst map_of_eq_Some_iff) simp_all
  also have "\<dots> \<longleftrightarrow> i < length raw \<and> fst (raw ! i) = d"
    unfolding es by auto
  finally have "map_of (rev ?es) d = Some i \<longleftrightarrow> i < length raw \<and> fst (raw ! i) = d" .
  moreover have "bt_get ([] :: (path, nat) btree_map) = Map.empty" by (simp add: fun_eq_iff)
  ultimately show ?thesis by (simp add: bt_of_list_def bt_get_extend)
qed

text \<open>A dependency of the module on its target, as the manifest declares it.\<close>

definition declares :: "build_env \<Rightarrow> workspace_module \<Rightarrow> workspace_module \<Rightarrow> workspace_scope \<Rightarrow> bool" where
  "declares env m target scope \<longleftrightarrow>
     (\<exists>coord spec relative. (scope, coord, spec) \<in> set (scoped_entries (mf_dependencies (bm_manifest m))) \<and>
        dependency_spec_path spec = Some relative \<and> coord = module_coordinate (bm_manifest target) \<and>
        canonicalize env (path_join (bm_directory m) (path_of relative)) = Inr (bm_directory target))"

lemma link_modules_ok:
  assumes link: "link_modules env root raw = Inr ms" and dist: "distinct (map fst raw)"
  shows "map (\<lambda>m. (bm_directory m, bm_manifest m)) ms = raw \<and>
    (\<forall>i < length ms. sorted_wrt (<) (map wd_index (bm_dependencies (ms ! i))) \<and>
      (\<forall>d \<in> set (bm_dependencies (ms ! i)). wd_index d < length ms \<and> wd_index d \<noteq> i \<and>
         declares env (ms ! i) (ms ! wd_index d) (wd_scope d)))"
proof -
  let ?indices = "bt_of_list (map (\<lambda>(i, d, _). (d, i)) (enumerate 0 raw))"
  let ?coordinates = "map (\<lambda>(_, m). module_coordinate m) raw"
  have all: "list_all2 (\<lambda>(directory, m) r. \<exists>deps.
      discover_workspace_dependencies env directory m root ?indices ?coordinates = Inr deps \<and>
      r = \<lparr>bm_directory = directory, bm_manifest = m, bm_dependencies = deps\<rparr>) raw ms"
    using link unfolding link_modules_def Let_def traverse_Inr_iff
    by (elim list_all2_mono) (auto simp: and_then_Inr_iff)
  then have len: "length ms = length raw" by (simp add: list_all2_lengthD)
  have nth: "\<exists>deps. discover_workspace_dependencies env (fst (raw ! i)) (snd (raw ! i)) root
        ?indices ?coordinates = Inr deps \<and>
      ms ! i = \<lparr>bm_directory = fst (raw ! i), bm_manifest = snd (raw ! i), bm_dependencies = deps\<rparr>"
    if "i < length raw" for i
    using list_all2_nthD [OF all that] by (auto split: prod.splits)
  have raw: "map (\<lambda>m. (bm_directory m, bm_manifest m)) ms = raw"
    by (rule nth_equalityI) (use len nth in fastforce)+
  have "sorted_wrt (<) (map wd_index (bm_dependencies (ms ! i))) \<and>
      (\<forall>d \<in> set (bm_dependencies (ms ! i)). wd_index d < length ms \<and> wd_index d \<noteq> i \<and>
         declares env (ms ! i) (ms ! wd_index d) (wd_scope d))" if i: "i < length ms" for i
  proof -
    let ?dir = "fst (raw ! i)" and ?m = "snd (raw ! i)"
    from nth [of i] i len obtain found where
      found: "dependencies_loop (dependency_target env ?dir ?m root ?indices ?coordinates)
        (scoped_entries (mf_dependencies ?m)) [] [] = Inr found"
      and ms_i: "ms ! i = \<lparr>bm_directory = ?dir, bm_manifest = ?m, bm_dependencies = sort_key wd_index found\<rparr>"
      by (auto simp: discover_workspace_dependencies_def and_then_Inr_iff)
    have loop: "distinct (map wd_index found)"
      "d \<in> set found \<Longrightarrow> \<exists>coord spec relative. (wd_scope d, coord, spec) \<in> set (scoped_entries (mf_dependencies ?m)) \<and>
        dependency_spec_path spec = Some relative \<and>
        dependency_target env ?dir ?m root ?indices ?coordinates coord relative = Inr (wd_index d)" for d
      using dependencies_loop_ok [OF found] by (auto simp: bt_keys_def)
    have "distinct (map wd_index (sort_key wd_index found))"
      using loop(1) by (simp add: distinct_map)
    then have "sorted_wrt (<) (map wd_index (sort_key wd_index found))"
      by (simp add: strict_sorted_iff)
    moreover have "wd_index d < length ms \<and> wd_index d \<noteq> i \<and>
        declares env (ms ! i) (ms ! wd_index d) (wd_scope d)" if d: "d \<in> set found" for d
    proof -
      obtain coord spec relative where
        entry: "(wd_scope d, coord, spec) \<in> set (scoped_entries (mf_dependencies ?m))"
          "dependency_spec_path spec = Some relative"
        and target: "dependency_target env ?dir ?m root ?indices ?coordinates coord relative = Inr (wd_index d)"
        using loop(2) [OF d] by blast
      then obtain dep where
        dep: "canonicalize env (path_join ?dir (path_of relative)) = Inr dep"
          "wd_index d < length raw" "fst (raw ! wd_index d) = dep"
          "bt_get ?indices ?dir \<noteq> Some (wd_index d)" "coord = ?coordinates ! wd_index d"
        by (auto simp: dependency_target_def and_then_Inr_iff indices_get [OF dist])
      have "bt_get ?indices ?dir = Some i" using i len by (simp add: indices_get [OF dist])
      moreover obtain deps where "ms ! wd_index d = \<lparr>bm_directory = dep,
          bm_manifest = snd (raw ! wd_index d), bm_dependencies = deps\<rparr>"
        using nth [OF dep(2)] dep(3) by auto
      ultimately show ?thesis using dep entry len
        by (auto simp: declares_def ms_i split: prod.splits)
    qed
    ultimately show ?thesis by (simp add: ms_i)
  qed
  with raw show ?thesis by blast
qed

lemma discovered_in_range:
  assumes "discover_modules env root = Some (Inr ms)"
  shows "in_range ms"
proof -
  obtain root' raw where *: "discover_loop env root' [root'] [] [] = Some (Inr raw)"
    "link_modules env root' raw = Inr ms"
    using assms by (auto simp: discover_modules_def and_then_Inr_iff split: sum.splits)
  have "discovering env root' [root'] [] []" by (simp add: discovering_def)
  then have "distinct (map fst raw)" using discover_loop_ok [OF *(1)] by (auto simp: discovering_def)
  from link_modules_ok [OF *(2) this] show ?thesis
    by (fastforce simp: in_range_def in_set_conv_nth)
qed

text \<open>
  C12: discovery returns for every disk with finitely many files, also when
  modules declare each other in a cycle. The modules it returns have distinct directories below
  the canonical root, come from the manifests of these directories, and are exactly the root and
  what the manifests declare. The dependencies of a module are sorted, name each target once,
  never the module itself, and lead to the module whose coordinate the manifest wrote down; so
  the layers and closures of these modules never index out of range.
\<close>
theorem discovered_modules_ok:
  assumes "finite {p. be_disk env p \<noteq> None}"
  shows "\<exists>r. discover_modules env root = Some r \<and>
    (\<forall>ms. r = Inr ms \<longrightarrow>
      in_range ms \<and> distinct (map bm_directory ms) \<and>
      (\<exists>root'. canonicalize env root = Inr root' \<and> root' \<in> bm_directory ` set ms \<and>
        (\<forall>m \<in> set ms. path_starts_with (bm_directory m) root' \<and>
          read_module_manifest env (path_join (bm_directory m) [Normal ''jman.toml'']) = Inr (bm_manifest m) \<and>
          (bm_directory m = root' \<or>
             (\<exists>p \<in> set ms. child_of env (bm_directory p, bm_manifest p) (bm_directory m))) \<and>
          (\<forall>child \<in> set (pj_modules (mf_project (bm_manifest m))). \<exists>p \<in> set ms.
             canonicalize env (path_join (bm_directory m) (path_of child)) = Inr (bm_directory p)))) \<and>
      (\<forall>i < length ms. sorted_wrt (<) (map wd_index (bm_dependencies (ms ! i))) \<and>
        (\<forall>d \<in> set (bm_dependencies (ms ! i)). wd_index d \<noteq> i \<and>
           declares env (ms ! i) (ms ! wd_index d) (wd_scope d))))"
proof -
  have "discover_modules env root \<noteq> None"
    using discover_loop_returns [OF assms, of "[]" "[]"]
    by (auto simp: discover_modules_def split: sum.splits)
  then obtain r where r: "discover_modules env root = Some r" by blast
  show ?thesis
  proof (intro exI [of _ r] conjI allI impI)
    fix ms assume ms: "r = Inr ms"
    obtain root' raw where *: "canonicalize env root = Inr root'"
      "discover_loop env root' [root'] [] [] = Some (Inr raw)" "link_modules env root' raw = Inr ms"
      using r ms by (auto simp: discover_modules_def and_then_Inr_iff split: sum.splits)
    have "discovering env root' [root'] [] []" by (simp add: discovering_def)
    then obtain seen where inv: "discovering env root' [] seen raw" using discover_loop_ok [OF *(2)] by blast
    then have dist: "distinct (map fst raw)" by (simp add: discovering_def)
    note link = link_modules_ok [OF *(3) dist]
    then have raw: "raw = map (\<lambda>m. (bm_directory m, bm_manifest m)) ms" by simp
    show "in_range ms" using discovered_in_range r ms by blast
    show "distinct (map bm_directory ms)" using dist by (simp add: raw comp_def)
    show "\<exists>root'. canonicalize env root = Inr root' \<and> root' \<in> bm_directory ` set ms \<and>
        (\<forall>m \<in> set ms. path_starts_with (bm_directory m) root' \<and>
          read_module_manifest env (path_join (bm_directory m) [Normal ''jman.toml'']) = Inr (bm_manifest m) \<and>
          (bm_directory m = root' \<or>
             (\<exists>p \<in> set ms. child_of env (bm_directory p, bm_manifest p) (bm_directory m))) \<and>
          (\<forall>child \<in> set (pj_modules (mf_project (bm_manifest m))). \<exists>p \<in> set ms.
             canonicalize env (path_join (bm_directory m) (path_of child)) = Inr (bm_directory p)))"
      using inv *(1) unfolding discovering_def listed_def raw path_starts_with_def
      by (auto simp: image_image)
    fix i assume "i < length ms"
    then show "sorted_wrt (<) (map wd_index (bm_dependencies (ms ! i)))"
      and "\<forall>d \<in> set (bm_dependencies (ms ! i)). wd_index d \<noteq> i \<and>
        declares env (ms ! i) (ms ! wd_index d) (wd_scope d)"
      using link by blast+
  qed (rule r)
qed

text \<open>Two modules: the library is declared by the root, which depends on it.\<close>

definition two_modules :: build_env where
  "two_modules =
     (let m = sample_manifest\<lparr>mf_toolchain := None, mf_build := None, mf_audit := None,
          mf_scripts := [], mf_dependencies := \<lparr>dp_compile = [], dp_runtime = [],
            dp_provided = [], dp_test = []\<rparr>\<rparr>;
          app = m\<lparr>mf_project := (mf_project m)\<lparr>pj_modules := [''lib'']\<rparr>,
                  mf_dependencies := \<lparr>dp_compile = [(''org.example:lib'', PathSpec ''lib'')],
                    dp_runtime = [], dp_provided = [], dp_test = []\<rparr>\<rparr>;
          lib = m\<lparr>mf_project := (mf_project m)\<lparr>pj_name := ''lib''\<rparr>\<rparr>
      in \<lparr>be_disk = [[RootDir, Normal ''jman.toml''] \<mapsto> Bytes ''app'',
                     [RootDir, Normal ''lib'', Normal ''jman.toml''] \<mapsto> Bytes ''lib''],
          be_codec = no_toml\<lparr>decode_probe := \<lambda>_. Inr True,
            decode_manifest := \<lambda>t. Inr (if t = ''app'' then app else lib)\<rparr>,
          be_canonical = Inr\<rparr>)"

definition two_module_list :: "workspace_module list" where
  "two_module_list =
     (case discover_modules two_modules [RootDir] of Some (Inr ms) \<Rightarrow> ms | _ \<Rightarrow> [])"

lemma two_modules_run:
  "case discover_modules two_modules [RootDir] of
     Some (Inr ms) \<Rightarrow> map bm_dependencies ms = [[\<lparr>wd_index = 1, wd_scope = CompileScope\<rparr>], []]
   | _ \<Rightarrow> False"
  by code_simp

lemma two_modules_discovered:
  "discover_modules two_modules [RootDir] = Some (Inr two_module_list)"
  "map bm_dependencies two_module_list = [[\<lparr>wd_index = 1, wd_scope = CompileScope\<rparr>], []]"
  using two_modules_run
  by (auto simp: two_module_list_def split: option.splits sum.splits)

theorem discovered_modules_ok_witness:
  "in_range two_module_list \<and> distinct (map bm_directory two_module_list)"
proof -
  have "finite {p. be_disk two_modules p \<noteq> None}"
    by (rule finite_subset [of _ "{[RootDir, Normal ''jman.toml''], [RootDir, Normal ''lib'', Normal ''jman.toml'']}"])
       (auto simp: two_modules_def Let_def split: if_splits)
  from discovered_modules_ok [OF this, of "[RootDir]"] show ?thesis
    unfolding two_modules_discovered(1) by blast
qed

lemma two_modules_in_range: "in_range two_module_list"
  by (rule discovered_in_range [OF two_modules_discovered(1)])

theorem layers_respect_dependencies_witness:
  "\<exists>layers. topological_layers two_module_list = Inr layers \<and> distinct (concat layers)"
proof -
  have "topological_layers two_module_list = Inr [[1], [0]]" by code_simp
  then show ?thesis
    using layers_respect_dependencies [OF two_modules_in_range] by auto
qed

theorem closure_is_reachability_witness:
  "\<exists>found. transitive_dependencies 0 two_module_list RuntimeUsage = Some found \<and> bs_wf found"
proof -
  have "0 < length two_module_list"
    using arg_cong [OF two_modules_discovered(2), of length] by simp
  from closure_is_reachability [OF two_modules_in_range this, of RuntimeUsage] show ?thesis by blast
qed

end
