(* ===== verification/Build_Tree.thy ===== *)
theory Build_Tree
  imports Build_Modules "HOL-Library.Multiset"
begin

text \<open>
  The file system of a build: files, directories and symbolic links, and the operations on it
  that \<open>crates/jman-build/src/lib.rs\<close> uses and defines. The operations of \<open>std::fs\<close> follow POSIX;
  each can also be refused by the environment (a fault). The target of a link is not modelled: an
  operation that would follow a link finds nothing there.
\<close>

section \<open>Trees\<close>

datatype node = FileNode (node_bytes: str) | DirNode | LinkNode

type_synonym tree = "(path, node) btree_map"

text \<open>
  An operation (by name) on a path may fail for a reason outside of the model. A write that fails
  may have left a part of the contents (the answer for \<open>''partial''\<close>), and a removal that fails may
  have deleted a part of the directory (all but what the answers for \<open>''kept''\<close> keep).
\<close>

type_synonym faults = "str \<Rightarrow> path \<Rightarrow> str option"

type_synonym 'a tree_op = "(tree, str, 'a) step"
type_synonym 'a tree_step = "(tree, build_error, 'a) step"

definition tree_disk :: "tree \<Rightarrow> disk" where
  "tree_disk t p = (case bt_get t p of Some (FileNode b) \<Rightarrow> Some (Bytes b) | _ \<Rightarrow> None)"

definition fs_is_dir :: "tree \<Rightarrow> path \<Rightarrow> bool" where
  "fs_is_dir t p \<longleftrightarrow> bt_get t p = Some DirNode"

definition fs_is_file :: "tree \<Rightarrow> path \<Rightarrow> bool" where
  "fs_is_file t p \<longleftrightarrow> (case bt_get t p of Some (FileNode _) \<Rightarrow> True | _ \<Rightarrow> False)"

definition fs_exists :: "tree \<Rightarrow> path \<Rightarrow> bool" where
  "fs_exists t p \<longleftrightarrow> fs_is_dir t p \<or> fs_is_file t p"

definition path_extension :: "path \<Rightarrow> str option" where
  "path_extension p =
     (case path_file_name p of
        None \<Rightarrow> None
      | Some n \<Rightarrow> (case rsplit_once (CHR ''.'') n of
                    None \<Rightarrow> None | Some (stem, e) \<Rightarrow> if stem = [] then None else Some e))"

definition path_strip_prefix :: "path \<Rightarrow> path \<Rightarrow> path option" where
  "path_strip_prefix base p = (if prefix base p then Some (drop (length base) p) else None)"

text \<open>The entries below a path, the path itself included.\<close>

definition below :: "path \<Rightarrow> path \<times> node \<Rightarrow> bool" where
  "below p e \<longleftrightarrow> prefix p (fst e)"

definition drop_subtree :: "path \<Rightarrow> tree \<Rightarrow> tree" where
  "drop_subtree p t = filter (\<lambda>e. \<not> below p e) t"

definition move_subtree :: "path \<Rightarrow> path \<Rightarrow> tree \<Rightarrow> tree" where
  "move_subtree a b t =
     bt_extend (drop_subtree a (drop_subtree b t))
       (map (\<lambda>(p, n). (b @ drop (length a) p, n)) (filter (below a) t))"

section \<open>Operations of the standard library\<close>

definition parent_ready :: "tree \<Rightarrow> path \<Rightarrow> bool" where
  "parent_ready t p \<longleftrightarrow>
     (case path_parent p of None \<Rightarrow> True | Some q \<Rightarrow> q = [] \<or> q = [RootDir] \<or> fs_is_dir t q)"

definition guarded :: "faults \<Rightarrow> str \<Rightarrow> path \<Rightarrow> 'a tree_op \<Rightarrow> 'a tree_op" where
  "guarded faults op p m t = (case faults op p of Some e \<Rightarrow> (Inl e, t) | None \<Rightarrow> m t)"

definition fs_read :: "faults \<Rightarrow> path \<Rightarrow> str tree_op" where
  "fs_read faults p = guarded faults ''read'' p (\<lambda>t.
     (case bt_get t p of
        Some (FileNode b) \<Rightarrow> Inr b
      | Some DirNode \<Rightarrow> Inl ''is a directory''
      | _ \<Rightarrow> Inl ''no such file'', t))"

definition left_part :: "faults \<Rightarrow> path \<Rightarrow> str \<Rightarrow> tree \<Rightarrow> tree" where
  "left_part faults p old t =
     (case faults ''partial'' p of None \<Rightarrow> t | Some part \<Rightarrow> bt_insert p (FileNode (old @ part)) t)"

definition fs_write :: "faults \<Rightarrow> path \<Rightarrow> str \<Rightarrow> unit tree_op" where
  "fs_write faults p b t =
     (if \<not> parent_ready t p then (Inl ''no such directory'', t)
      else if bt_get t p \<noteq> None \<and> \<not> fs_is_file t p then (Inl ''not a file'', t)
      else (case faults ''write'' p of
              Some e \<Rightarrow> (Inl e, left_part faults p [] t)
            | None \<Rightarrow> (Inr (), bt_insert p (FileNode b) t)))"

definition fs_copy :: "faults \<Rightarrow> path \<Rightarrow> path \<Rightarrow> unit tree_op" where
  "fs_copy faults src dst = step_bind (fs_read faults src) (\<lambda>b. fs_write faults dst b)"

text \<open>The missing ancestors are created one after the other; those before an error stay.\<close>

fun make_directories :: "faults \<Rightarrow> path list \<Rightarrow> unit tree_op" where
  "make_directories faults [] t = (Inr (), t)"
| "make_directories faults (q # qs) t =
     (if fs_is_dir t q then make_directories faults qs t
      else if bt_get t q \<noteq> None then (Inl ''not a directory'', t)
      else (case faults ''create'' q of
              Some e \<Rightarrow> (Inl e, t)
            | None \<Rightarrow> make_directories faults qs (bt_insert q DirNode t)))"

definition fs_create_dir_all :: "faults \<Rightarrow> path \<Rightarrow> unit tree_op" where
  "fs_create_dir_all faults p =
     make_directories faults (filter (\<lambda>q. q \<noteq> [] \<and> q \<noteq> [RootDir]) (prefixes p))"

text \<open>
  What a removal that fails has left below the directory: with an entry that is kept, those above.
\<close>

definition kept_below :: "faults \<Rightarrow> path \<Rightarrow> tree \<Rightarrow> path \<Rightarrow> bool" where
  "kept_below faults p t q \<longleftrightarrow>
     q = p \<or> (\<exists>e \<in> set t. prefix q (fst e) \<and> faults ''kept'' (fst e) \<noteq> None)"

definition remove_part :: "faults \<Rightarrow> path \<Rightarrow> tree \<Rightarrow> tree" where
  "remove_part faults p t = filter (\<lambda>e. below p e \<longrightarrow> kept_below faults p t (fst e)) t"

definition fs_remove_dir_all :: "faults \<Rightarrow> path \<Rightarrow> unit tree_op" where
  "fs_remove_dir_all faults p t =
     (if \<not> fs_is_dir t p \<and> bt_get t p \<noteq> Some LinkNode then (Inl ''no such directory'', t)
      else (case faults ''remove'' p of
              Some e \<Rightarrow> (Inl e, remove_part faults p t)
            | None \<Rightarrow> (Inr (), drop_subtree p t)))"

definition fs_remove_file :: "faults \<Rightarrow> path \<Rightarrow> unit tree_op" where
  "fs_remove_file faults p = guarded faults ''unlink'' p (\<lambda>t.
     if fs_is_file t p \<or> bt_get t p = Some LinkNode then (Inr (), drop_subtree p t)
     else (Inl ''no such file'', t))"

definition empty_dir :: "tree \<Rightarrow> path \<Rightarrow> bool" where
  "empty_dir t p \<longleftrightarrow> fs_is_dir t p \<and> (\<forall>e \<in> set t. \<not> strict_prefix p (fst e))"

definition rename_allowed :: "tree \<Rightarrow> path \<Rightarrow> path \<Rightarrow> bool" where
  "rename_allowed t a b \<longleftrightarrow>
     \<not> prefix a b \<and> \<not> prefix b a \<and> parent_ready t b \<and>
     (case bt_get t a of
        None \<Rightarrow> False
      | Some DirNode \<Rightarrow> bt_get t b = None \<or> empty_dir t b
      | Some _ \<Rightarrow> \<not> fs_is_dir t b)"

definition fs_rename :: "faults \<Rightarrow> path \<Rightarrow> path \<Rightarrow> unit tree_op" where
  "fs_rename faults a b = guarded faults ''rename'' b (\<lambda>t.
     if rename_allowed t a b then (Inr (), move_subtree a b t) else (Inl ''cannot rename'', t))"

text \<open>The entries of a directory; the model lists them in path order.\<close>

definition fs_read_dir :: "faults \<Rightarrow> path \<Rightarrow> (path \<times> node) list tree_op" where
  "fs_read_dir faults p = guarded faults ''list'' p (\<lambda>t.
     (if fs_is_dir t p then Inr (filter (\<lambda>e. path_parent (fst e) = Some p) t)
      else Inl ''not a directory'', t))"

text \<open>An error of an operation, reported for a path.\<close>

definition io :: "path \<Rightarrow> 'a tree_op \<Rightarrow> 'a tree_step" where
  "io p m t = (case m t of (r, t') \<Rightarrow> (map_err (BuildIo p) r, t'))"

text \<open>\<open>let _ = ...\<close>: the result is dropped.\<close>

definition ignore :: "('s, 'e, 'a) step \<Rightarrow> ('s, 'f, unit) step" where
  "ignore m s = (Inr (), snd (m s))"

definition when_step :: "bool \<Rightarrow> ('s, 'e, unit) step \<Rightarrow> ('s, 'e, unit) step" where
  "when_step b m = (if b then m else step_of (Inr ()))"

definition gets :: "('s \<Rightarrow> 'a) \<Rightarrow> ('s, 'e, 'a) step" where
  "gets f s = (Inr (f s), s)"

section \<open>Input files\<close>

text \<open>
  A listing of one directory: a link is an error, directories are pending, files with the
  wanted extension are collected.
\<close>

fun list_entries ::
    "str option \<Rightarrow> (path \<times> node) list \<Rightarrow> path list \<Rightarrow> path list \<Rightarrow> (path list \<times> path list) built" where
  "list_entries extension [] pending sources = Inr (pending, sources)"
| "list_entries extension ((p, n) # es) pending sources =
     (case n of
        LinkNode \<Rightarrow>
          Inl (Invalid (''symbolic links are not allowed in build inputs: '' @ show_path p))
      | DirNode \<Rightarrow> list_entries extension es (pending @ [p]) sources
      | FileNode _ \<Rightarrow>
          list_entries extension es pending
            (if extension = None \<or> path_extension p = extension then sources @ [p] else sources))"

definition depth_bound :: "tree \<Rightarrow> nat" where
  "depth_bound t = Suc (Max (insert 0 (length ` fst ` set t)))"

lemma list_entries_pending:
  "list_entries extension es pending sources = Inr (pending', sources') \<Longrightarrow>
     \<exists>ds. pending' = pending @ ds \<and> set ds \<subseteq> fst ` set es"
  by (induction extension es pending sources arbitrary: pending' sources' rule: list_entries.induct)
     (fastforce split: node.splits)+

lemma path_parent_Some: "path_parent p = Some q \<longleftrightarrow> (\<exists>c. p = q @ [c] \<and> c \<noteq> RootDir)"
  by (cases p rule: rev_cases) (auto simp: path_parent_def)

lemma path_parent_length: "path_parent p = Some q \<Longrightarrow> length p = Suc (length q)"
  by (auto simp: path_parent_Some)

text \<open>A work list of directories gets smaller when one of them gives way to its children.\<close>

definition depths :: "tree \<Rightarrow> path list \<Rightarrow> nat multiset" where
  "depths t pending = mset (map (\<lambda>p. depth_bound t - length p) pending)"

lemma depths_decrease:
  assumes "pending \<noteq> []" "\<forall>d \<in> set ds. d \<in> fst ` set t \<and> path_parent d = Some (last pending)"
  shows "(depths t (butlast pending @ ds), depths t pending) \<in> mult less_than"
proof -
  let ?x = "last pending" and ?w = "\<lambda>p :: path. depth_bound t - length p"
  have "?w d < ?w ?x" if "d \<in> set ds" for d
  proof -
    from that assms(2) obtain e where e: "e \<in> set t" "fst e = d" "path_parent d = Some ?x"
      by force
    then have "length d = Suc (length ?x)" by (simp add: path_parent_length)
    moreover have "length d \<le> Max (insert 0 (length ` fst ` set t))"
      using e by (intro Max_ge) auto
    ultimately show ?thesis by (simp add: depth_bound_def)
  qed
  then have "(mset (map ?w (butlast pending)) + mset (map ?w ds),
      mset (map ?w (butlast pending)) + {#?w ?x#}) \<in> mult less_than"
    by (intro one_step_implies_mult) auto
  moreover have "mset (map ?w pending) = mset (map ?w (butlast pending)) + {#?w ?x#}"
  proof -
    have "butlast pending @ [?x] = pending" using assms(1) by simp
    from arg_cong [OF this, of "\<lambda>ps. mset (map ?w ps)"] show ?thesis by simp
  qed
  ultimately show ?thesis by (simp add: depths_def)
qed

function scan_directories ::
    "faults \<Rightarrow> str option \<Rightarrow> tree \<Rightarrow> path list \<Rightarrow> path list \<Rightarrow> path list built" where
  "scan_directories faults extension t pending sources =
     (if pending = [] then Inr sources
      else (case fst (io (last pending) (fs_read_dir faults (last pending)) t) of
              Inl e \<Rightarrow> Inl e
            | Inr es \<Rightarrow>
                (case list_entries extension es (butlast pending) sources of
                   Inl e \<Rightarrow> Inl e
                 | Inr (pending', sources') \<Rightarrow>
                     scan_directories faults extension t pending' sources')))"
  by pat_completeness auto
termination
proof (relation "inv_image (mult less_than) (\<lambda>(_, _, t, pending, _). depths t pending)", goal_cases)
  case (2 faults extension t pending sources es step pending' sources')
  from 2(2) have es: "es = filter (\<lambda>e. path_parent (fst e) = Some (last pending)) t"
    by (auto simp: io_def fs_read_dir_def guarded_def split: option.splits if_splits)
  from 2(3,4) obtain ds where ds: "pending' = butlast pending @ ds" "set ds \<subseteq> fst ` set es"
    using list_entries_pending by blast
  then show ?case using depths_decrease [OF 2(1), of ds t] by (force simp: es)
qed (simp add: wf_mult)

declare scan_directories.simps [simp del]

definition input_files :: "faults \<Rightarrow> tree \<Rightarrow> path \<Rightarrow> str option \<Rightarrow> path list built" where
  "input_files faults t root extension =
     (case faults ''stat'' root of
        Some e \<Rightarrow> Inl (BuildIo root e)
      | None \<Rightarrow>
          (case bt_get t root of
             None \<Rightarrow> Inr []
           | Some LinkNode \<Rightarrow>
               Inl (Invalid (''symbolic links are not allowed in build inputs: '' @ show_path root))
           | Some (FileNode _) \<Rightarrow> Inr []
           | Some DirNode \<Rightarrow>
               and_then (scan_directories faults extension t [root] []) (\<lambda>fs. Inr (sort fs))))"

definition java_sources :: "faults \<Rightarrow> tree \<Rightarrow> path \<Rightarrow> path list built" where
  "java_sources faults t root = input_files faults t root (Some ''java'')"

section \<open>Replacing\<close>

text \<open>\<open>Path::with_extension\<close> with \<open>old.<pid>\<close>.\<close>

definition backup_path :: "nat \<Rightarrow> path \<Rightarrow> path" where
  "backup_path pid output = with_extension output (''old.'' @ show_nat pid)"

text \<open>
  The common part of replacing a directory and a file: the present entry moves to a backup, the
  new one takes its place, the backup is removed; when the new one cannot take the place, the
  backup is moved back.
\<close>

definition clear_backup :: "(path \<Rightarrow> unit tree_op) \<Rightarrow> path \<Rightarrow> unit tree_step" where
  "clear_backup remove backup =
     step_bind (gets (\<lambda>t. fs_exists t backup)) (\<lambda>stale. when_step stale (io backup (remove backup)))"

definition put_back :: "faults \<Rightarrow> path \<Rightarrow> path \<Rightarrow> str \<Rightarrow> unit tree_step" where
  "put_back faults backup output e =
     step_bind (gets (\<lambda>t. fs_exists t backup)) (\<lambda>present.
     step_bind (when_step present (ignore (fs_rename faults backup output))) (\<lambda>_.
     step_of (Inl (BuildIo output e))))"

definition replace_entry ::
    "(path \<Rightarrow> unit tree_op) \<Rightarrow> faults \<Rightarrow> nat \<Rightarrow> path \<Rightarrow> path \<Rightarrow> unit tree_step" where
  "replace_entry remove faults pid temporary output =
     (let backup = backup_path pid output
      in step_bind (clear_backup remove backup) (\<lambda>_.
         step_bind (gets (\<lambda>t. fs_exists t output)) (\<lambda>present.
         step_bind (when_step present (io output (fs_rename faults output backup))) (\<lambda>_ t.
         case fs_rename faults temporary output t of
           (Inr _, t') \<Rightarrow> clear_backup remove backup t'
         | (Inl e, t') \<Rightarrow> put_back faults backup output e t'))))"

definition replace_directory :: "faults \<Rightarrow> nat \<Rightarrow> path \<Rightarrow> path \<Rightarrow> unit tree_step" where
  "replace_directory faults = replace_entry (fs_remove_dir_all faults) faults"

definition replace_file :: "faults \<Rightarrow> nat \<Rightarrow> path \<Rightarrow> path \<Rightarrow> unit tree_step" where
  "replace_file faults pid temporary output t =
     (case fs_rename faults temporary output t of
        (Inr _, t') \<Rightarrow> (Inr (), t')
      | (Inl _, t') \<Rightarrow> replace_entry (fs_remove_file faults) faults pid temporary output t')"

section \<open>Lookups\<close>

lemma bt_get_filter: "bt_get (filter (\<lambda>e. P (fst e)) t) k = (if P k then bt_get t k else None)"
  unfolding bt_get_def by (induction t) auto

lemma bt_wf_filter [simp, intro]: "bt_wf t \<Longrightarrow> bt_wf (filter P t)"
  unfolding bt_wf_def bt_keys_def
  by (induction t) auto

lemma bt_get_drop_subtree:
  "bt_get (drop_subtree p t) k = (if prefix p k then None else bt_get t k)"
  using bt_get_filter [of "\<lambda>k. \<not> prefix p k" t k] by (simp add: drop_subtree_def below_def)

lemma bt_wf_drop_subtree [simp, intro]: "bt_wf t \<Longrightarrow> bt_wf (drop_subtree p t)"
  unfolding drop_subtree_def by (rule bt_wf_filter)

text \<open>Two paths neither of which contains the other.\<close>

definition apart :: "path \<Rightarrow> path \<Rightarrow> bool" where
  "apart p q \<longleftrightarrow> \<not> prefix p q \<and> \<not> prefix q p"

lemma apart_sym: "apart p q \<Longrightarrow> apart q p"
  by (simp add: apart_def)

lemma apart_below: "apart p q \<Longrightarrow> prefix p x \<Longrightarrow> \<not> prefix q x"
  using prefix_same_cases unfolding apart_def by blast

lemma apart_append:
  assumes "apart p c"
  shows "\<not> prefix p (c @ x)" "\<not> prefix c (p @ x)"
  using apart_below [OF assms, of "c @ x"] apart_below [OF assms, of "p @ x"] by auto

lemma map_of_moved:
  assumes "distinct (map fst t)"
  shows "map_of (rev (map (\<lambda>(p, n). (b @ drop (length a) p, n)) (filter (below a) t))) k =
    (if prefix b k then map_of t (a @ drop (length b) k) else None)"
proof -
  let ?es = "map (\<lambda>(p, n). (b @ drop (length a) p, n)) (filter (below a) t)"
  have inj: "p = q" if "prefix a p" "prefix a q" "drop (length a) p = drop (length a) q" for p q
    using that by (auto simp: prefix_def)
  have "distinct (map fst ?es)"
  proof -
    have "inj_on (\<lambda>p. b @ drop (length a) p) {p. prefix a p}"
      by (rule inj_onI) (auto intro: inj)
    moreover have "set (map fst (filter (below a) t)) \<subseteq> {p. prefix a p}" by (auto simp: below_def)
    moreover have "distinct (map fst (filter (below a) t))"
      using assms by (metis distinct_map_filter)
    ultimately have "distinct (map (\<lambda>p. b @ drop (length a) p) (map fst (filter (below a) t)))"
      by (simp only: distinct_map) (blast intro: inj_on_subset)
    then show ?thesis by (simp add: comp_def case_prod_unfold)
  qed
  then have dist: "distinct (map fst (rev ?es))" by (simp add: rev_map [symmetric])
  have "map_of (rev ?es) k = Some n \<longleftrightarrow> (if prefix b k then map_of t (a @ drop (length b) k) else None) = Some n" for n
  proof -
    have "map_of (rev ?es) k = Some n \<longleftrightarrow> (k, n) \<in> set ?es"
      using dist by (simp del: map_map)
    also have "\<dots> \<longleftrightarrow> (\<exists>p. (p, n) \<in> set t \<and> prefix a p \<and> k = b @ drop (length a) p)"
      by (force simp: below_def)
    also have "\<dots> \<longleftrightarrow> (\<exists>r. (a @ r, n) \<in> set t \<and> k = b @ r)"
      by (auto simp: prefix_def)
    also have "\<dots> \<longleftrightarrow> prefix b k \<and> (a @ drop (length b) k, n) \<in> set t"
      by (auto simp: prefix_def)
    also have "\<dots> \<longleftrightarrow> (if prefix b k then map_of t (a @ drop (length b) k) else None) = Some n"
      using assms by simp
    finally show ?thesis .
  qed
  then show ?thesis by (metis not_Some_eq)
qed

lemma bt_get_move_subtree:
  assumes "bt_wf t"
  shows "bt_get (move_subtree a b t) k =
    (if prefix b k then bt_get t (a @ drop (length b) k)
     else if prefix a k then None else bt_get t k)"
proof -
  have "distinct (map fst t)" using assms by (simp add: bt_wf_def bt_keys_def strict_sorted_iff)
  from map_of_moved [OF this, of b a k] show ?thesis
    unfolding move_subtree_def bt_get_extend
    by (auto simp: map_add_def bt_get_drop_subtree bt_get_def [of t] split: option.splits)
qed

lemma bt_wf_move_subtree [simp, intro]: "bt_wf t \<Longrightarrow> bt_wf (move_subtree a b t)"
  by (simp add: move_subtree_def)

text \<open>What is below a path, as a function of the rest of the path.\<close>

definition subtree :: "tree \<Rightarrow> path \<Rightarrow> path \<Rightarrow> node option" where
  "subtree t p r = bt_get t (p @ r)"

lemma subtree_move:
  assumes "bt_wf t"
  shows "subtree (move_subtree a b t) b = subtree t a"
    and "apart a b \<Longrightarrow> subtree (move_subtree a b t) a = (\<lambda>_. None)"
    and "apart a c \<Longrightarrow> apart b c \<Longrightarrow> subtree (move_subtree a b t) c = subtree t c"
proof -
  show "subtree (move_subtree a b t) b = subtree t a"
    by (simp add: fun_eq_iff subtree_def bt_get_move_subtree [OF assms])
  show "subtree (move_subtree a b t) a = (\<lambda>_. None)" if "apart a b"
    using apart_append [OF that] by (simp add: fun_eq_iff subtree_def bt_get_move_subtree [OF assms])
  show "subtree (move_subtree a b t) c = subtree t c" if "apart a c" "apart b c"
    using apart_append [OF that(1)] apart_append [OF that(2)]
    by (simp add: fun_eq_iff subtree_def bt_get_move_subtree [OF assms])
qed

lemma subtree_drop:
  "subtree (drop_subtree p t) p = (\<lambda>_. None)"
  "apart p c \<Longrightarrow> subtree (drop_subtree p t) c = subtree t c"
  using apart_append [of p c] by (auto simp: fun_eq_iff subtree_def bt_get_drop_subtree)

text \<open>A filter that concerns only what is below a path.\<close>

lemma bt_get_below:
  "bt_get (filter (\<lambda>e. below p e \<longrightarrow> Q (fst e)) t) k = (if prefix p k \<and> \<not> Q k then None else bt_get t k)"
  using bt_get_filter [of "\<lambda>k. prefix p k \<longrightarrow> Q k" t k] by (simp add: below_def)

lemma subtree_filter:
  "apart p c \<Longrightarrow> subtree (filter (\<lambda>e. below p e \<longrightarrow> Q (fst e)) t) c = subtree t c"
  using apart_append [of p c] by (auto simp: fun_eq_iff subtree_def bt_get_below)

lemma fs_rename_cases:
  obtains e where "fs_rename faults a b t = (Inl e, t)"
  | "fs_rename faults a b t = (Inr (), move_subtree a b t)" "rename_allowed t a b"
  by (cases "faults ''rename'' b"; cases "rename_allowed t a b")
    (auto simp: fs_rename_def guarded_def)

section \<open>Replacing loses nothing\<close>

text \<open>
  What replacing relies on: a removal removes the whole subtree, or it fails and may have removed
  a part of it.
\<close>

locale entry_remover =
  fixes remove :: "path \<Rightarrow> unit tree_op"
  assumes removes: "(\<exists>e Q. remove p t = (Inl e, filter (\<lambda>e. below p e \<longrightarrow> Q (fst e)) t)) \<or>
      remove p t = (Inr (), drop_subtree p t)"
begin

lemma clear_backup_cases:
  obtains e Q where "clear_backup remove p t = (Inl (BuildIo p e), filter (\<lambda>e. below p e \<longrightarrow> Q (fst e)) t)"
      "fs_exists t p"
  | t1 where "clear_backup remove p t = (Inr (), t1)" "\<not> fs_exists t1 p"
      "t1 = t \<or> t1 = drop_subtree p t"
proof (cases "fs_exists t p")
  case True
  from removes [of p t] show ?thesis
  proof
    assume "\<exists>e Q. remove p t = (Inl e, filter (\<lambda>e. below p e \<longrightarrow> Q (fst e)) t)"
    then show ?thesis using True that(1)
      by (auto simp: clear_backup_def step_bind_def gets_def when_step_def io_def)
  next
    assume "remove p t = (Inr (), drop_subtree p t)"
    then have "clear_backup remove p t = (Inr (), drop_subtree p t)" using True
      by (simp add: clear_backup_def step_bind_def gets_def when_step_def io_def)
    moreover have "\<not> fs_exists (drop_subtree p t) p"
      by (simp add: fs_exists_def fs_is_dir_def fs_is_file_def bt_get_drop_subtree)
    ultimately show ?thesis using that(2) by blast
  qed
next
  case False
  then have "clear_backup remove p t = (Inr (), t)"
    by (simp add: clear_backup_def step_bind_def gets_def when_step_def step_of_def)
  with False show ?thesis using that(2) by blast
qed

lemma clear_backup_apart:
  assumes "apart p c"
  shows "subtree (snd (clear_backup remove p t)) c = subtree t c"
  by (rule clear_backup_cases [of p t]) (use subtree_drop(2) [OF assms] subtree_filter [OF assms] in auto)

lemma clear_backup_wf: "bt_wf t \<Longrightarrow> bt_wf (snd (clear_backup remove p t))"
  by (rule clear_backup_cases [of p t]) auto

end

lemma put_back_cases:
  obtains "put_back faults backup output e t = (Inl (BuildIo output e), t)"
  | "put_back faults backup output e t = (Inl (BuildIo output e), move_subtree backup output t)"
      "fs_exists t backup"
  by (rule fs_rename_cases [of faults backup "output" t]; cases "fs_exists t backup")
    (auto simp: put_back_def step_bind_def gets_def when_step_def ignore_def step_of_def)

lemma fs_exists_subtree: "fs_exists t p \<Longrightarrow> subtree t p = subtree u q \<Longrightarrow> fs_exists u q"
  by (auto simp: fs_exists_def fs_is_dir_def fs_is_file_def subtree_def dest!: fun_cong [where x = "[]"])

text \<open>Where the old and the new content are after a replacement.\<close>

definition replaced :: "path \<Rightarrow> path \<Rightarrow> path \<Rightarrow> tree \<Rightarrow> unit built \<Rightarrow> tree \<Rightarrow> bool" where
  "replaced temporary output backup t r t' \<longleftrightarrow>
     (if r = Inr () then subtree t' output = subtree t temporary \<and> subtree t' temporary = (\<lambda>_. None)
      else subtree t' output = subtree t temporary \<or>
           subtree t' temporary = subtree t temporary \<and>
           (subtree t' output = subtree t output \<or> subtree t' backup = subtree t output))"

context entry_remover
begin

lemma swap_replaced:
  assumes wf: "bt_wf t" and apart: "apart temporary output" "apart temporary backup" "apart output backup"
    and old: "subtree t output = old \<and> \<not> fs_exists t backup \<or> subtree t backup = old"
    and new: "subtree t temporary = new"
    and run: "(case fs_rename faults temporary output t of
           (Inr _, t') \<Rightarrow> clear_backup remove backup t'
         | (Inl e, t') \<Rightarrow> put_back faults backup output e t') = (r, t')"
  shows "(r = Inr () \<longrightarrow> subtree t' output = new \<and> subtree t' temporary = (\<lambda>_. None)) \<and>
    (r \<noteq> Inr () \<longrightarrow> subtree t' output = new \<or> subtree t' temporary = new \<and>
       (subtree t' output = old \<or> subtree t' backup = old))"
proof (rule fs_rename_cases [of faults temporary "output" t])
  assume ok: "fs_rename faults temporary output t = (Inr (), move_subtree temporary output t)"
  let ?t = "move_subtree temporary output t"
  have "subtree t' output = subtree ?t output" "subtree t' temporary = subtree ?t temporary"
    using run ok clear_backup_apart [OF apart_sym [OF apart(3)], of ?t]
      clear_backup_apart [OF apart_sym [OF apart(2)], of ?t]
    by (simp_all add: prod_eq_iff)
  then show ?thesis using subtree_move(1,2) [OF wf] apart(1) new by simp
next
  fix e assume "fs_rename faults temporary output t = (Inl e, t)"
  then have run: "put_back faults backup output e t = (r, t')" using run by simp
  show ?thesis
  proof (rule put_back_cases [of faults backup "output" e t])
    assume "put_back faults backup output e t = (Inl (BuildIo output e), t)"
    then show ?thesis using run old new by auto
  next
    assume *: "put_back faults backup output e t =
        (Inl (BuildIo output e), move_subtree backup output t)" "fs_exists t backup"
    then have "subtree t' output = old" "subtree t' temporary = new"
      using run old new subtree_move(1) [OF wf, of backup "output"]
        subtree_move(3) [OF wf apart_sym [OF apart(2)] apart_sym [OF apart(1)]] by auto
    then show ?thesis using * run by auto
  qed
qed

lemma replace_entry_replaced:
  assumes wf: "bt_wf t" and backup: "backup = backup_path pid output"
    and apart: "apart temporary output" "apart temporary backup" "apart output backup"
    and run: "replace_entry remove faults pid temporary output t = (r, t')"
  shows "replaced temporary output backup t r t'"
proof (rule clear_backup_cases [of backup t])
  fix e Q assume "clear_backup remove backup t = (Inl (BuildIo backup e), filter (\<lambda>e. below backup e \<longrightarrow> Q (fst e)) t)"
  then have "r \<noteq> Inr ()" "t' = filter (\<lambda>e. below backup e \<longrightarrow> Q (fst e)) t" using run
    by (auto simp: replace_entry_def Let_def backup [symmetric] step_bind_def)
  then show ?thesis
    using subtree_filter [OF apart_sym [OF apart(2)], of Q t] subtree_filter [OF apart_sym [OF apart(3)], of Q t]
    by (simp add: replaced_def)
next
  fix t1 assume t1: "clear_backup remove backup t = (Inr (), t1)" "\<not> fs_exists t1 backup"
    "t1 = t \<or> t1 = drop_subtree backup t"
  have wf1: "bt_wf t1" using t1(3) wf by auto
  have same: "subtree t1 output = subtree t output" "subtree t1 temporary = subtree t temporary"
    using t1(3) subtree_drop(2) [OF apart_sym [OF apart(3)]] subtree_drop(2) [OF apart_sym [OF apart(2)]]
    by auto
  let ?swap = "\<lambda>t. case fs_rename faults temporary output t of
           (Inr _, t') \<Rightarrow> clear_backup remove backup t'
         | (Inl e, t') \<Rightarrow> put_back faults backup output e t'"
  consider e where "fs_exists t1 output" "fs_rename faults output backup t1 = (Inl e, t1)"
    | "fs_exists t1 output"
      "fs_rename faults output backup t1 = (Inr (), move_subtree output backup t1)"
    | "\<not> fs_exists t1 output"
    by (metis fs_rename_cases)
  then show ?thesis
  proof cases
    case 1
    then have "r \<noteq> Inr ()" "t' = t1" using run t1(1)
      by (auto simp: replace_entry_def Let_def backup [symmetric] step_bind_def gets_def when_step_def io_def)
    then show ?thesis using same by (simp add: replaced_def)
  next
    case 2
    let ?t = "move_subtree output backup t1"
    have swap: "?swap ?t = (r, t')" using 2 run t1(1)
      by (simp add: replace_entry_def Let_def backup [symmetric] step_bind_def gets_def when_step_def io_def)
    have new: "subtree ?t temporary = subtree t temporary"
      using subtree_move(3) [OF wf1 apart_sym [OF apart(1)] apart_sym [OF apart(2)]] same by simp
    have "subtree ?t backup = subtree t output"
      using subtree_move(1) [OF wf1] same by simp
    then have "subtree ?t output = subtree t output \<and> \<not> fs_exists ?t backup \<or>
        subtree ?t backup = subtree t output" by (rule disjI2)
    from swap_replaced [OF bt_wf_move_subtree [OF wf1] apart this new swap]
    show ?thesis by (simp add: replaced_def)
  next
    case 3
    have swap: "?swap t1 = (r, t')" using 3 run t1(1)
      by (simp add: replace_entry_def Let_def backup [symmetric] step_bind_def gets_def when_step_def step_of_def)
    have "subtree t1 output = subtree t output \<and> \<not> fs_exists t1 backup \<or>
        subtree t1 backup = subtree t output" using t1(2) same by blast
    from swap_replaced [OF wf1 apart this same(2) swap]
    show ?thesis by (simp add: replaced_def)
  qed
qed

end

interpretation dir_remover: entry_remover "fs_remove_dir_all faults"
proof (unfold_locales, goal_cases)
  case (1 p t)
  have "t = filter (\<lambda>e. below p e \<longrightarrow> (\<lambda>_. True) (fst e)) t" by simp
  then show ?case
    by (auto simp: fs_remove_dir_all_def remove_part_def split: option.splits
        intro: exI [of _ "\<lambda>_. True"] exI [of _ "kept_below faults p t"])
qed

interpretation file_remover: entry_remover "fs_remove_file faults"
  by unfold_locales (auto simp: fs_remove_file_def guarded_def split: option.splits intro: exI [of _ "\<lambda>_. True"])

lemma replace_file_replaced:
  assumes wf: "bt_wf t" and backup: "backup = backup_path pid output"
    and apart: "apart temporary output" "apart temporary backup" "apart output backup"
    and run: "replace_file faults pid temporary output t = (r, t')"
  shows "replaced temporary output backup t r t'"
proof (rule fs_rename_cases [of faults temporary "output" t])
  fix e assume "fs_rename faults temporary output t = (Inl e, t)"
  then show ?thesis using run file_remover.replace_entry_replaced [OF wf backup apart]
    by (simp add: replace_file_def)
next
  assume "fs_rename faults temporary output t = (Inr (), move_subtree temporary output t)"
  then show ?thesis using run subtree_move(1,2) [OF wf] apart(1)
    by (auto simp: replace_file_def replaced_def)
qed

text \<open>
  C18: replacing a directory or a file, whatever the environment refuses on
  the way: success puts the new content at the output and removes the temporary entry; after an
  error either the new content is at the output already, or it is still at the temporary path and
  the old content is at the output or at the backup path. Nothing outside of the three is touched
  by the renames.
\<close>
theorem replacing_loses_nothing:
  assumes "bt_wf t" and "backup = backup_path pid output"
    and "apart temporary output" "apart temporary backup" "apart output backup"
    and "replace_directory faults pid temporary output t = (r, t') \<or>
         replace_file faults pid temporary output t = (r, t')"
  shows "(r = Inr () \<longrightarrow>
            subtree t' output = subtree t temporary \<and> subtree t' temporary = (\<lambda>_. None)) \<and>
         (r \<noteq> Inr () \<longrightarrow>
            subtree t' output = subtree t temporary \<or>
            subtree t' temporary = subtree t temporary \<and>
            (subtree t' output = subtree t output \<or> subtree t' backup = subtree t output))"
  using assms(6) dir_remover.replace_entry_replaced [OF assms(1-5)]
    replace_file_replaced [OF assms(1-5)]
  unfolding replace_directory_def replaced_def by metis

definition no_io_faults :: faults where
  "no_io_faults op p = None"

definition sample_build_tree :: tree where
  "sample_build_tree =
     [([RootDir, Normal ''w''], DirNode),
      ([RootDir, Normal ''w'', Normal ''new''], DirNode),
      ([RootDir, Normal ''w'', Normal ''new'', Normal ''A.java''], FileNode ''class A {}''),
      ([RootDir, Normal ''w'', Normal ''out''], DirNode),
      ([RootDir, Normal ''w'', Normal ''out'', Normal ''B.java''], FileNode ''class B {}'')]"

theorem replacing_loses_nothing_witness:
  "subtree (snd (replace_directory no_io_faults 7 [RootDir, Normal ''w'', Normal ''new'']
       [RootDir, Normal ''w'', Normal ''out''] sample_build_tree)) [RootDir, Normal ''w'', Normal ''out''] =
     subtree sample_build_tree [RootDir, Normal ''w'', Normal ''new'']"
proof -
  let ?new = "[RootDir, Normal ''w'', Normal ''new'']" and ?out = "[RootDir, Normal ''w'', Normal ''out'']"
  obtain t' where run: "replace_directory no_io_faults 7 ?new ?out sample_build_tree = (Inr (), t')"
  proof -
    have "fst (replace_directory no_io_faults 7 ?new ?out sample_build_tree) = Inr ()" by code_simp
    then show ?thesis using that by (metis prod.collapse)
  qed
  have "bt_wf sample_build_tree" by code_simp
  moreover have "backup_path 7 ?out = [RootDir, Normal ''w'', Normal ''out.old.7'']" by code_simp
  ultimately show ?thesis
    using replacing_loses_nothing [of sample_build_tree _ 7 ?out ?new no_io_faults "Inr ()" t', OF _ refl]
      run by (simp add: apart_def)
qed

section \<open>Input files are complete\<close>

text \<open>Below the root every entry lies in a directory.\<close>

definition closed_below :: "tree \<Rightarrow> path \<Rightarrow> bool" where
  "closed_below t root \<longleftrightarrow>
     (\<forall>e \<in> set t. strict_prefix root (fst e) \<longrightarrow>
        (\<exists>q. path_parent (fst e) = Some q \<and> fs_is_dir t q))"

lemma ancestors_are_directories:
  assumes "bt_wf t" "closed_below t root" "bt_get t p = Some n" "prefix root q" "strict_prefix q p"
  shows "bt_get t q = Some DirNode"
  using assms(3,5)
proof (induction "length p" arbitrary: p n rule: less_induct)
  case less
  have "strict_prefix root p"
    using assms(4) less.prems(2) by (rule prefix_order.le_less_trans)
  then obtain r where r: "path_parent p = Some r" "bt_get t r = Some DirNode"
    using assms(2) bt_get_in_set [OF less.prems(1)]
    by (fastforce simp: closed_below_def fs_is_dir_def)
  from r(1) obtain c where p: "p = r @ [c]" by (auto simp: path_parent_Some)
  with less.prems(2) have "q = r \<or> strict_prefix q r"
    by (metis prefix_order.le_imp_less_or_eq prefix_snoc strict_prefix_def)
  then show ?case using r(2) less.hyps [of r] p by auto
qed

lemma nothing_below:
  assumes "bt_wf t" "closed_below t root" "\<not> fs_is_dir t root" "bt_get t p = Some n"
  shows "\<not> strict_prefix root p"
  using ancestors_are_directories [OF assms(1,2,4), of root] assms(3) by (auto simp: fs_is_dir_def)

definition wanted :: "str option \<Rightarrow> tree \<Rightarrow> path \<Rightarrow> bool" where
  "wanted extension t p \<longleftrightarrow> fs_is_file t p \<and> (extension = None \<or> path_extension p = extension)"

lemma list_entries_result:
  "list_entries extension es pending sources =
     (case List.find (\<lambda>e. snd e = LinkNode) es of
        Some e \<Rightarrow> Inl (Invalid (''symbolic links are not allowed in build inputs: '' @ show_path (fst e)))
      | None \<Rightarrow> Inr (pending @ map fst (filter (\<lambda>e. snd e = DirNode) es),
          sources @ map fst (filter (\<lambda>e. (\<exists>b. snd e = FileNode b) \<and>
            (extension = None \<or> path_extension (fst e) = extension)) es)))"
  by (induction extension es pending sources rule: list_entries.induct) (auto split: node.splits option.splits)

lemma apart_extend: "apart x y \<Longrightarrow> prefix x c \<Longrightarrow> apart c y"
  using prefix_same_cases prefix_order.trans unfolding apart_def by blast

text \<open>The entries of a directory and what is below them are what is below the directory.\<close>

lemma below_directory:
  assumes wf: "bt_wf t" and closed: "closed_below t root" and x: "prefix root x"
    and p: "bt_get t p = Some n"
  shows "strict_prefix x p \<longleftrightarrow>
    path_parent p = Some x \<or>
    (\<exists>c. path_parent c = Some x \<and> bt_get t c = Some DirNode \<and> strict_prefix c p)"
proof
  assume sp: "strict_prefix x p"
  then obtain zs where "p = x @ zs" "zs \<noteq> []" by (auto simp: strict_prefix_def prefix_def)
  then obtain c r where pc: "p = (x @ [c]) @ r" by (cases zs) auto
  have entry: "\<exists>n. bt_get t (x @ [c]) = Some n"
    using ancestors_are_directories [OF wf closed p, of "x @ [c]"] x pc p
    by (cases r) (auto simp: strict_prefix_def)
  then obtain n' where n': "bt_get t (x @ [c]) = Some n'" by blast
  have "strict_prefix root (x @ [c])" using x by (auto simp: strict_prefix_def)
  then have "path_parent (x @ [c]) = Some x"
    using closed bt_get_in_set [OF n'] by (fastforce simp: closed_below_def path_parent_Some)
  moreover have "bt_get t (x @ [c]) = Some DirNode" if "r \<noteq> []"
    using ancestors_are_directories [OF wf closed p, of "x @ [c]"] x pc that
    by (auto simp: strict_prefix_def)
  ultimately show "path_parent p = Some x \<or>
      (\<exists>c. path_parent c = Some x \<and> bt_get t c = Some DirNode \<and> strict_prefix c p)"
    using pc by (cases "r = []") (auto simp: strict_prefix_def)
next
  assume "path_parent p = Some x \<or>
      (\<exists>c. path_parent c = Some x \<and> bt_get t c = Some DirNode \<and> strict_prefix c p)"
  then show "strict_prefix x p"
    by (auto simp: path_parent_Some strict_prefix_def prefix_def)
qed

text \<open>What is still to be listed.\<close>

definition linked_below :: "tree \<Rightarrow> path list \<Rightarrow> bool" where
  "linked_below t pending \<longleftrightarrow> (\<exists>d \<in> set pending. \<exists>p. strict_prefix d p \<and> bt_get t p = Some LinkNode)"

definition files_below :: "str option \<Rightarrow> tree \<Rightarrow> path list \<Rightarrow> path set" where
  "files_below extension t pending = {p. wanted extension t p \<and> (\<exists>d \<in> set pending. strict_prefix d p)}"

definition scanning :: "tree \<Rightarrow> path \<Rightarrow> path list \<Rightarrow> path list \<Rightarrow> bool" where
  "scanning t root pending sources \<longleftrightarrow>
     (\<forall>d \<in> set pending. fs_is_dir t d \<and> prefix root d) \<and> distinct pending \<and> distinct sources \<and>
     (\<forall>d \<in> set pending. \<forall>e \<in> set pending. d \<noteq> e \<longrightarrow> apart d e) \<and>
     (\<forall>s \<in> set sources. \<forall>d \<in> set pending. \<not> prefix d s)"

lemma siblings_apart: "path_parent c = Some x \<Longrightarrow> path_parent d = Some x \<Longrightarrow> c \<noteq> d \<Longrightarrow> apart c d"
  by (auto simp: path_parent_Some apart_def)

lemma child_prefix: "path_parent c = Some x \<Longrightarrow> prefix x c"
  by (auto simp: path_parent_Some)

text \<open>One directory listed: its subdirectories join the pending ones, its files the sources.\<close>

definition children :: "tree \<Rightarrow> path \<Rightarrow> (path \<times> node) list" where
  "children t x = filter (\<lambda>e. path_parent (fst e) = Some x) t"

definition child_dirs :: "tree \<Rightarrow> path \<Rightarrow> path list" where
  "child_dirs t x = map fst (filter (\<lambda>e. snd e = DirNode) (children t x))"

definition child_files :: "str option \<Rightarrow> tree \<Rightarrow> path \<Rightarrow> path list" where
  "child_files extension t x = map fst (filter (\<lambda>e. (\<exists>b. snd e = FileNode b) \<and>
     (extension = None \<or> path_extension (fst e) = extension)) (children t x))"

lemma fs_is_file_iff: "fs_is_file t p \<longleftrightarrow> (\<exists>b. bt_get t p = Some (FileNode b))"
  by (auto simp: fs_is_file_def split: option.splits node.splits)

lemma child_lists:
  assumes "bt_wf t"
  shows "set (child_dirs t x) = {c. path_parent c = Some x \<and> bt_get t c = Some DirNode}"
    and "set (child_files extension t x) = {c. path_parent c = Some x \<and> wanted extension t c}"
    and "distinct (child_dirs t x)" "distinct (child_files extension t x)"
    and "(\<exists>e \<in> set (children t x). snd e = LinkNode) \<longleftrightarrow>
      (\<exists>c. path_parent c = Some x \<and> bt_get t c = Some LinkNode)"
proof -
  note get = bt_in_set_get [OF assms]
  have keys: "distinct (map fst t)" using assms by (simp add: bt_wf_def bt_keys_def strict_sorted_iff)
  show "distinct (child_dirs t x)" "distinct (child_files extension t x)"
    unfolding child_dirs_def child_files_def children_def filter_filter
    using keys by (auto intro!: distinct_map_filter)
  show "set (child_dirs t x) = {c. path_parent c = Some x \<and> bt_get t c = Some DirNode}"
    by (auto simp: child_dirs_def children_def image_iff Bex_def split_paired_Ex get)
  show "set (child_files extension t x) = {c. path_parent c = Some x \<and> wanted extension t c}"
    by (auto simp: child_files_def children_def image_iff Bex_def split_paired_Ex get wanted_def
        fs_is_file_iff)
  show "(\<exists>e \<in> set (children t x). snd e = LinkNode) \<longleftrightarrow>
      (\<exists>c. path_parent c = Some x \<and> bt_get t c = Some LinkNode)"
    by (auto simp: children_def Bex_def split_paired_Ex get)
qed

lemma scanning_step:
  assumes wf: "bt_wf t" and inv: "scanning t root (rest @ [x]) sources"
  shows "scanning t root (rest @ child_dirs t x) (sources @ child_files extension t x)"
proof -
  note lists = child_lists [OF wf]
  have x: "prefix root x" "x \<notin> set rest" and apart: "d \<in> set rest \<Longrightarrow> apart x d"
    and src: "s \<in> set sources \<Longrightarrow> \<not> prefix x s" for d s
    using inv by (auto simp: scanning_def)
  have below: "apart c d" if "path_parent c = Some x" "d \<in> set rest" for c d
    using apart_extend [OF apart child_prefix] that by blast
  have dirs: "fs_is_dir t d \<and> prefix root d" if "d \<in> set (rest @ child_dirs t x)" for d
    using that inv x(1) prefix_order.trans [OF x(1) child_prefix]
    by (auto simp: scanning_def lists fs_is_dir_def)
  have "set rest \<inter> set (child_dirs t x) = {}" "set sources \<inter> set (child_files extension t x) = {}"
    using below src child_prefix by (auto simp: lists apart_def) blast+
  then have dist: "distinct (rest @ child_dirs t x)" "distinct (sources @ child_files extension t x)"
    using inv lists by (auto simp: scanning_def)
  have pairs: "apart d e" if "d \<in> set (rest @ child_dirs t x)" "e \<in> set (rest @ child_dirs t x)" "d \<noteq> e" for d e
    using that inv below apart_sym siblings_apart by (auto simp: scanning_def lists)
  have "\<not> prefix d s" if "s \<in> set (sources @ child_files extension t x)" "d \<in> set (rest @ child_dirs t x)" for s d
  proof -
    have "\<not> prefix d s" if "s \<in> set sources" "path_parent d = Some x"
      using that src child_prefix prefix_order.trans by blast
    moreover have "\<not> prefix d s" if "path_parent s = Some x" "wanted extension t s"
        "path_parent d = Some x" "bt_get t d = Some DirNode"
    proof -
      have "s \<noteq> d" using that by (auto simp: wanted_def fs_is_file_def)
      then show ?thesis using siblings_apart [OF that(1,3)] by (auto simp: apart_def)
    qed
    moreover have "\<not> prefix d s" if "path_parent s = Some x" "d \<in> set rest"
      using below [OF that] by (simp add: apart_def)
    ultimately show ?thesis using that inv by (auto simp: scanning_def lists)
  qed
  with dirs dist pairs show ?thesis unfolding scanning_def by blast
qed

lemma files_below_step:
  assumes "bt_wf t" "closed_below t root" "prefix root x"
  shows "files_below extension t (rest @ [x]) =
    files_below extension t (rest @ child_dirs t x) \<union> set (child_files extension t x)"
    and "linked_below t (rest @ [x]) \<longleftrightarrow>
      linked_below t (rest @ child_dirs t x) \<or> (\<exists>e \<in> set (children t x). snd e = LinkNode)"
proof -
  have below: "strict_prefix x p \<longleftrightarrow> path_parent p = Some x \<or> (\<exists>c \<in> set (child_dirs t x). strict_prefix c p)"
    if "bt_get t p = Some n" for p n
    using below_directory [OF assms that] unfolding child_lists(1) [OF assms(1)] by blast
  have "wanted extension t p \<Longrightarrow> strict_prefix x p \<longleftrightarrow>
      path_parent p = Some x \<or> (\<exists>c \<in> set (child_dirs t x). strict_prefix c p)" for p
    using below by (auto simp: wanted_def fs_is_file_iff)
  then show "files_below extension t (rest @ [x]) =
      files_below extension t (rest @ child_dirs t x) \<union> set (child_files extension t x)"
    unfolding files_below_def child_lists(2) [OF assms(1)] by (auto simp: bex_Un)
  show "linked_below t (rest @ [x]) \<longleftrightarrow>
      linked_below t (rest @ child_dirs t x) \<or> (\<exists>e \<in> set (children t x). snd e = LinkNode)"
    using below unfolding child_lists(5) [OF assms(1)] linked_below_def by (auto simp: bex_Un) blast
qed

lemma scan_directories_step:
  assumes "pending \<noteq> []" "fs_is_dir t (last pending)"
  shows "scan_directories no_io_faults extension t pending sources =
    (case List.find (\<lambda>e. snd e = LinkNode) (children t (last pending)) of
       Some e \<Rightarrow> Inl (Invalid (''symbolic links are not allowed in build inputs: '' @ show_path (fst e)))
     | None \<Rightarrow> scan_directories no_io_faults extension t
         (butlast pending @ child_dirs t (last pending))
         (sources @ child_files extension t (last pending)))"
  using assms
  by (simp add: scan_directories.simps [of no_io_faults extension t pending] io_def fs_read_dir_def
      guarded_def no_io_faults_def list_entries_result children_def [symmetric]
      child_dirs_def [symmetric] child_files_def [symmetric] split: option.splits)

lemma scan_directories_complete:
  assumes wf: "bt_wf t" and closed: "closed_below t root"
  shows "faults = no_io_faults \<Longrightarrow> scanning t root pending sources \<Longrightarrow>
    if linked_below t pending then \<exists>e. scan_directories faults extension t pending sources = Inl e
    else \<exists>fs. scan_directories faults extension t pending sources = Inr fs \<and> distinct fs \<and>
      set fs = set sources \<union> files_below extension t pending"
  using assms
proof (induction faults extension t pending sources rule: scan_directories.induct)
  case (1 faults extension t pending sources)
  show ?case
  proof (cases "pending = []")
    case True
    then show ?thesis using "1.prems"
      by (auto simp: scan_directories.simps linked_below_def files_below_def scanning_def)
  next
    case False
    let ?x = "last pending"
    have x: "butlast pending @ [?x] = pending" using False by simp
    have dir: "fs_is_dir t ?x" "prefix root ?x"
      using "1.prems"(2) False by (auto simp: scanning_def)
    note step = scan_directories_step [OF False dir(1), of extension sources]
    note parts = files_below_step(1) [OF "1.prems"(3,4) dir(2), of extension "butlast pending", unfolded x]
      files_below_step(2) [OF "1.prems"(3,4) dir(2), of "butlast pending", unfolded x]
    show ?thesis
    proof (cases "List.find (\<lambda>e. snd e = LinkNode) (children t ?x)")
      case (Some e)
      then have "linked_below t pending" unfolding parts using find_Some_in [OF Some] by blast
      then show ?thesis using step Some "1.prems"(1) by simp
    next
      case None
      have none: "\<not> (\<exists>e \<in> set (children t ?x). snd e = LinkNode)" using None by (simp add: find_None_all)
      have listed: "fst (io ?x (fs_read_dir faults ?x) t) = Inr (children t ?x)"
        "list_entries extension (children t ?x) (butlast pending) sources =
           Inr (butlast pending @ child_dirs t ?x, sources @ child_files extension t ?x)"
        using dir(1) None "1.prems"(1)
        by (simp_all add: io_def fs_read_dir_def guarded_def no_io_faults_def list_entries_result
            children_def child_dirs_def child_files_def)
      have "scanning t root (butlast pending @ child_dirs t ?x) (sources @ child_files extension t ?x)"
        using scanning_step [OF "1.prems"(3), of root "butlast pending" ?x] "1.prems"(2) x by simp
      from "1.IH" [OF False listed(1) listed(2) refl "1.prems"(1) this "1.prems"(3,4)]
      show ?thesis using step None none "1.prems"(1) unfolding parts by (auto simp: Un_assoc)
    qed
  qed
qed

text \<open>
  C37: for a root whose entries lie in directories, the input files are read
  exactly when no symbolic link is below the root (or is the root), and then they are all files
  below it with the wanted extension, once each and in order; the listing always ends.
\<close>
theorem input_files_complete:
  assumes "bt_wf t" "closed_below t root"
  shows "input_files no_io_faults t root extension = Inr fs \<longleftrightarrow>
    (\<forall>p. prefix root p \<longrightarrow> bt_get t p \<noteq> Some LinkNode) \<and> sorted fs \<and> distinct fs \<and>
    set fs = {p. strict_prefix root p \<and> fs_is_file t p \<and>
                 (extension = None \<or> path_extension p = extension)}"
proof -
  have root: "prefix root p \<longleftrightarrow> p = root \<or> strict_prefix root p" for p
    by (auto simp: strict_prefix_def)
  show ?thesis
  proof (cases "fs_is_dir t root")
    case True
    then have "scanning t root [root] []" by (simp add: scanning_def)
    from scan_directories_complete [OF assms refl this, of extension]
    have scan: "if linked_below t [root]
        then \<exists>e. scan_directories no_io_faults extension t [root] [] = Inl e
        else \<exists>fs. scan_directories no_io_faults extension t [root] [] = Inr fs \<and> distinct fs \<and>
          set fs = files_below extension t [root]"
      by (cases "linked_below t [root]") simp_all
    have result: "input_files no_io_faults t root extension =
        and_then (scan_directories no_io_faults extension t [root] []) (\<lambda>fs. Inr (sort fs))"
      using True by (simp add: input_files_def no_io_faults_def fs_is_dir_def)
    have link: "(\<forall>p. prefix root p \<longrightarrow> bt_get t p \<noteq> Some LinkNode) \<longleftrightarrow> \<not> linked_below t [root]"
      using True unfolding root by (auto simp: linked_below_def fs_is_dir_def)
    show ?thesis
    proof (cases "linked_below t [root]")
      case True
      then show ?thesis using scan unfolding result link by auto
    next
      case False
      then obtain gs where gs: "scan_directories no_io_faults extension t [root] [] = Inr gs"
        "distinct gs" "set gs = files_below extension t [root]" using scan by auto
      have "sort gs = fs \<longleftrightarrow> sorted fs \<and> distinct fs \<and> set fs = set gs"
        using gs(2) sorted_distinct_set_unique [of "sort gs" fs] by auto
      moreover have "set gs = {p. strict_prefix root p \<and> fs_is_file t p \<and>
          (extension = None \<or> path_extension p = extension)}"
        using gs(3) by (auto simp: files_below_def wanted_def)
      ultimately show ?thesis using False unfolding result link gs(1) by simp
    qed
  next
    case False
    note none_below = nothing_below [OF assms False]
    then have none: "{p. strict_prefix root p \<and> fs_is_file t p \<and>
        (extension = None \<or> path_extension p = extension)} = {}"
      unfolding fs_is_file_iff by blast
    have link: "(\<forall>p. prefix root p \<longrightarrow> bt_get t p \<noteq> Some LinkNode) \<longleftrightarrow> bt_get t root \<noteq> Some LinkNode"
      using none_below unfolding root by blast
    have "fs = [] \<longleftrightarrow> sorted fs \<and> distinct fs \<and> set fs = {}" by auto
    then show ?thesis using False unfolding none link
      by (auto simp: input_files_def no_io_faults_def fs_is_dir_def split: option.splits node.splits)
  qed
qed

theorem input_files_complete_witness:
  "java_sources no_io_faults sample_build_tree [RootDir, Normal ''w'', Normal ''new''] =
     Inr [[RootDir, Normal ''w'', Normal ''new'', Normal ''A.java'']]"
proof -
  let ?root = "[RootDir, Normal ''w'', Normal ''new'']"
  let ?file = "[RootDir, Normal ''w'', Normal ''new'', Normal ''A.java'']"
  have wf: "bt_wf sample_build_tree" by code_simp
  have closed: "closed_below sample_build_tree ?root"
    by (simp add: closed_below_def sample_build_tree_def path_parent_def fs_is_dir_def bt_get_def)
  have ext: "path_extension ?file = Some ''java''" by code_simp
  have present: "fs_is_file sample_build_tree ?file"
    by (simp add: fs_is_file_iff sample_build_tree_def bt_get_def)
  have "p = ?file" if "strict_prefix ?root p" "fs_is_file sample_build_tree p" for p
    using that by (auto simp: fs_is_file_iff sample_build_tree_def bt_get_def split: if_splits)
  then have wanted: "set [?file] = {p. strict_prefix ?root p \<and> fs_is_file sample_build_tree p \<and>
      (Some ''java'' = None \<or> path_extension p = Some ''java'')}"
    using ext present by (auto simp: strict_prefix_def)
  have order: "sorted [?file]" "distinct [?file]" by simp_all
  have links: "bt_get sample_build_tree p \<noteq> Some LinkNode" for p
    by (auto simp: sample_build_tree_def bt_get_def split: if_splits)
  have "input_files no_io_faults sample_build_tree ?root (Some ''java'') = Inr [?file]"
    unfolding input_files_complete [OF wf closed] by (intro conjI allI impI links order wanted)
  then show ?thesis by (simp add: java_sources_def)
qed

end
