(* ===== verification/Build_Archive.thy ===== *)
theory Build_Archive
  imports Build_Tree
begin

text \<open>
  The contents of JAR files in \<open>crates/jman-build/src/lib.rs\<close>: safe entry names, the manifest
  with its folded header lines, the rules that merge the resources of several JARs into one
  archive (line registries, properties, lists of properties, first one wins), and the order in
  which an archive is written. Strings are UTF-8; JAR bytes are read with \<open>from_utf8_lossy\<close>.
\<close>

section \<open>Entry names\<close>

definition unsafe_entry :: "str \<Rightarrow> build_error" where
  "unsafe_entry name = Invalid (''unsafe JAR entry path '' @ ticked name)"

definition safe_zip_name :: "str \<Rightarrow> str built" where
  "safe_zip_name name =
     (if name = [] \<or> starts_with ''/'' name \<or> contains [CHR 0x5C] name then Inl (unsafe_entry name)
      else if list_ex (\<lambda>p. p = [] \<or> p = ''.'' \<or> p = ''..'') (split_char (CHR ''/'') name)
           then Inl (unsafe_entry name)
           else Inr (join_with ''/'' (split_char (CHR ''/'') name)))"

fun archive_parts :: "path \<Rightarrow> path \<Rightarrow> str list built" where
  "archive_parts whole [] = Inr []"
| "archive_parts whole (c # cs) =
     (case c of
        Normal part \<Rightarrow>
          if \<not> utf8_valid part
          then Inl (Invalid (''JAR entry path is not UTF-8: '' @ show_path whole))
          else if part = [] \<or> contains [CHR 0x5C] part
               then Inl (Invalid (''unsafe JAR entry path '' @ show_path whole))
               else and_then (archive_parts whole cs) (\<lambda>parts. Inr (part # parts))
      | _ \<Rightarrow> Inl (Invalid (''unsafe JAR entry path '' @ show_path whole)))"

definition archive_name :: "path \<Rightarrow> str built" where
  "archive_name p =
     and_then (archive_parts p p) (\<lambda>parts.
     if parts = [] then Inl (Invalid ''empty JAR entry path'') else Inr (join_with ''/'' parts))"

definition name_extension :: "str \<Rightarrow> str option" where
  "name_extension name = path_extension (path_of name)"

definition ignored_fat_entry :: "str \<Rightarrow> bool" where
  "ignored_fat_entry name \<longleftrightarrow>
     (let upper = uppercase name
      in upper = ''META-INF/MANIFEST.MF'' \<or> upper = ''META-INF/INDEX.LIST'' \<or>
         upper = ''MODULE-INFO.CLASS'' \<or> ends_with ''/MODULE-INFO.CLASS'' upper \<or>
         is_some_and (\<lambda>e. e \<in> {''SF'', ''RSA'', ''DSA'', ''EC''}) (name_extension upper))"

definition is_license_entry :: "str \<Rightarrow> bool" where
  "is_license_entry name \<longleftrightarrow>
     (let upper = uppercase name
      in starts_with ''META-INF/LICENSE'' upper \<or> starts_with ''META-INF/NOTICE'' upper \<or>
         starts_with ''META-INF/COPYING'' upper)"

definition relocated_dependency_entry :: "str \<Rightarrow> str \<Rightarrow> str" where
  "relocated_dependency_entry name coord =
     (let coord' = replace_all '':'' ''/'' coord;
          leaf = last (split_char (CHR ''/'') name)
      in if is_license_entry name then ''META-INF/jman/licenses/'' @ coord' @ ''/'' @ leaf else name)"

section \<open>Merge strategies\<close>

datatype merge_strategy = KeepFirst | MergeLines | MergeProperties | MergePropertyLists

definition resource_merge_strategy :: "str \<Rightarrow> merge_strategy" where
  "resource_merge_strategy name =
     (if starts_with ''META-INF/services/'' name \<or>
         starts_with ''META-INF/spring/'' name \<and> (ends_with ''.imports'' name \<or> ends_with ''.includes'' name)
      then MergeLines
      else if name \<in> {''META-INF/spring.factories'', ''META-INF/spring/aot.factories'',
                      ''META-INF/spring.components''}
      then MergePropertyLists
      else if name \<in> {''META-INF/io.netty.versions.properties'', ''META-INF/spring.handlers'',
                      ''META-INF/spring.schemas'', ''META-INF/spring.tooling'',
                      ''META-INF/spring-autoconfigure-metadata.properties''}
      then MergeProperties
      else KeepFirst)"

record fat_entry =
  fe_bytes :: str
  fe_source :: str

record fat_archive =
  fa_entries :: "(str, fat_entry) btree_map"
  fa_warnings :: "str list"

definition empty_archive :: fat_archive where
  "empty_archive = \<lparr>fa_entries = [], fa_warnings = []\<rparr>"

definition newline :: str where
  "newline = [CHR 0x0A]"

text \<open>The lines of a registry: trimmed, not empty, no comments.\<close>

definition registry_lines :: "str \<Rightarrow> str list" where
  "registry_lines bytes =
     filter (\<lambda>l. l \<noteq> [] \<and> \<not> starts_with ''#'' l) (map trim (str_lines (utf8_lossy bytes)))"

definition render_lines :: "str list \<Rightarrow> str" where
  "render_lines ls = (let merged = join_with newline ls in if merged = [] then merged else merged @ newline)"

definition put_entry :: "str \<Rightarrow> str \<Rightarrow> str \<Rightarrow> fat_archive \<Rightarrow> fat_archive" where
  "put_entry name bytes source a =
     a\<lparr>fa_entries := bt_insert name \<lparr>fe_bytes = bytes, fe_source = source\<rparr> (fa_entries a)\<rparr>"

definition existing_bytes :: "fat_archive \<Rightarrow> str \<Rightarrow> str" where
  "existing_bytes a name = (case bt_get (fa_entries a) name of None \<Rightarrow> [] | Some e \<Rightarrow> fe_bytes e)"

definition merge_line_entry :: "fat_archive \<Rightarrow> str \<Rightarrow> str \<Rightarrow> fat_archive" where
  "merge_line_entry a name bytes =
     put_entry name
       (render_lines (bs_of_list (registry_lines (existing_bytes a name) @ registry_lines bytes)))
       ''merged line registry'' a"

section \<open>Properties\<close>

text \<open>The first character that ends a key: not escaped, a separator or whitespace.\<close>

fun split_key :: "bool \<Rightarrow> str \<Rightarrow> (str \<times> char \<times> str) option" where
  "split_key escaped [] = None"
| "split_key escaped (c # s) =
     (if escaped then map_option (\<lambda>(k, r). (c # k, r)) (split_key False s)
      else if c = CHR 0x5C then map_option (\<lambda>(k, r). (c # k, r)) (split_key True s)
      else if c = CHR ''='' \<or> c = CHR '':'' \<or> is_space c then Some ([], c, s)
      else map_option (\<lambda>(k, r). (c # k, r)) (split_key False s))"

definition parse_property_entry :: "str \<Rightarrow> str \<Rightarrow> str \<Rightarrow> (str \<times> str) option built" where
  "parse_property_entry raw source name =
     (let line = trim raw
      in if line = [] \<or> starts_with ''#'' line \<or> starts_with ''!'' line then Inr None
         else (case split_key False line of
                 None \<Rightarrow> Inl (Invalid (''unsupported property syntax in '' @ ticked name @ '' from '' @
                          source @ '': '' @ ticked line))
               | Some (before, separator, rest) \<Rightarrow>
                   let key = trim_end before;
                       value = (if is_space separator
                                then (let v = trim_start rest
                                      in if starts_with ''='' v \<or> starts_with '':'' v then tl v else v)
                                else rest)
                   in if key = []
                      then Inl (Invalid (''empty property key in '' @ ticked name @ '' from '' @ source))
                      else Inr (Some (key, trim value))))"

definition trailing_slashes :: "str \<Rightarrow> nat" where
  "trailing_slashes s = length (takeWhile (\<lambda>c. c = CHR 0x5C) (rev s))"

text \<open>The loop over physical lines: an odd number of backslashes at the end continues a line.\<close>

fun property_loop ::
    "str \<Rightarrow> str \<Rightarrow> str list \<Rightarrow> str \<Rightarrow> (str \<times> str) list \<Rightarrow> ((str \<times> str) list \<times> str) built" where
  "property_loop source name [] logical entries = Inr (entries, logical)"
| "property_loop source name (physical # rest) logical entries =
     (let logical' = (if logical = [] then physical else logical @ trim_start physical)
      in if odd (trailing_slashes logical')
         then property_loop source name rest (butlast logical') entries
         else (case parse_property_entry logical' source name of
                 Inl e \<Rightarrow> Inl e
               | Inr None \<Rightarrow> property_loop source name rest [] entries
               | Inr (Some entry) \<Rightarrow> property_loop source name rest [] (entries @ [entry])))"

definition property_entries :: "str \<Rightarrow> str \<Rightarrow> str \<Rightarrow> (str \<times> str) list built" where
  "property_entries bytes source name =
     and_then (property_loop source name (str_lines (utf8_lossy bytes)) [] []) (\<lambda>(entries, logical).
     if logical \<noteq> []
     then Inl (Invalid (''unterminated property continuation in '' @ ticked name @ '' from '' @ source))
     else Inr entries)"

fun add_properties ::
    "str \<Rightarrow> str \<Rightarrow> (str \<times> str) list \<Rightarrow> (str, str) btree_map \<Rightarrow> (str, str) btree_map built" where
  "add_properties source name [] properties = Inr properties"
| "add_properties source name ((key, value) # rest) properties =
     (case bt_get properties key of
        Some old \<Rightarrow>
          if old \<noteq> value
          then Inl (Invalid (''conflicting property '' @ ticked key @ '' in '' @ ticked name @
                 '' from '' @ source))
          else add_properties source name rest properties
      | None \<Rightarrow> add_properties source name rest (bt_insert key value properties))"

definition parse_property_map ::
    "(str, str) btree_map \<Rightarrow> str \<Rightarrow> str \<Rightarrow> str \<Rightarrow> (str, str) btree_map built" where
  "parse_property_map properties bytes source name =
     and_then (property_entries bytes source name) (\<lambda>entries.
     add_properties source name entries properties)"

definition render_properties :: "(str \<times> str) list \<Rightarrow> str" where
  "render_properties entries =
     ''# Merged by JMAN'' @ newline @ concat (map (\<lambda>(k, v). k @ ''='' @ v @ newline) entries)"

definition merge_properties_entry :: "fat_archive \<Rightarrow> str \<Rightarrow> str \<Rightarrow> str \<Rightarrow> fat_archive built" where
  "merge_properties_entry a name bytes source =
     and_then (case bt_get (fa_entries a) name of
                 None \<Rightarrow> Inr []
               | Some old \<Rightarrow> parse_property_map [] (fe_bytes old) (fe_source old) name) (\<lambda>properties.
     and_then (parse_property_map properties bytes source name) (\<lambda>properties'.
     Inr (put_entry name (render_properties properties') ''merged properties'' a)))"

definition list_values :: "str \<Rightarrow> str list" where
  "list_values value = filter (\<lambda>v. v \<noteq> []) (map trim (split_char (CHR '','') value))"

definition add_list :: "str \<times> str \<Rightarrow> (str, str list) btree_map \<Rightarrow> (str, str list) btree_map" where
  "add_list = (\<lambda>(key, value) properties.
     bt_insert key
       (fold bs_insert (list_values value)
         (case bt_get properties key of None \<Rightarrow> [] | Some vs \<Rightarrow> vs)) properties)"

definition parse_property_lists ::
    "(str, str list) btree_map \<Rightarrow> str \<Rightarrow> str \<Rightarrow> str \<Rightarrow> (str, str list) btree_map built" where
  "parse_property_lists properties bytes source name =
     and_then (property_entries bytes source name) (\<lambda>entries. Inr (fold add_list entries properties))"

definition merge_property_list_entry :: "fat_archive \<Rightarrow> str \<Rightarrow> str \<Rightarrow> str \<Rightarrow> fat_archive built" where
  "merge_property_list_entry a name bytes source =
     and_then (case bt_get (fa_entries a) name of
                 None \<Rightarrow> Inr []
               | Some old \<Rightarrow> parse_property_lists [] (fe_bytes old) (fe_source old) name) (\<lambda>properties.
     and_then (parse_property_lists properties bytes source name) (\<lambda>properties'.
     Inr (put_entry name
       (render_properties (map (\<lambda>(k, vs). (k, join_with '','' vs)) properties'))
       ''merged property list registry'' a)))"

section \<open>Merging entries\<close>

definition is_class_entry :: "str \<Rightarrow> bool" where
  "is_class_entry name \<longleftrightarrow> is_some_and (\<lambda>e. eq_ignore_case e ''class'') (name_extension name)"

definition insert_fat_entry :: "fat_archive \<Rightarrow> str \<Rightarrow> str \<Rightarrow> str \<Rightarrow> fat_archive built" where
  "insert_fat_entry a name bytes source =
     (case bt_get (fa_entries a) name of
        None \<Rightarrow> Inr (put_entry name bytes source a)
      | Some old \<Rightarrow>
          if fe_bytes old = bytes then Inr a
          else if is_class_entry name
               then Inl (Invalid (''conflicting class '' @ ticked name @ '' from '' @ fe_source old @
                      '' and '' @ source))
               else Inr (a\<lparr>fa_warnings := fa_warnings a @
                      [ticked name @ '': kept '' @ fe_source old @ '', ignored '' @ source]\<rparr>))"

definition merge_fat_entry :: "fat_archive \<Rightarrow> str \<Rightarrow> str \<Rightarrow> str \<Rightarrow> fat_archive built" where
  "merge_fat_entry a name bytes source =
     (case resource_merge_strategy name of
        KeepFirst \<Rightarrow> insert_fat_entry a name bytes source
      | MergeLines \<Rightarrow> Inr (merge_line_entry a name bytes)
      | MergeProperties \<Rightarrow> merge_properties_entry a name bytes source
      | MergePropertyLists \<Rightarrow> merge_property_list_entry a name bytes source)"

fun merge_entries :: "fat_archive \<Rightarrow> (str \<times> str \<times> str) list \<Rightarrow> fat_archive built" where
  "merge_entries a [] = Inr a"
| "merge_entries a ((name, bytes, context) # rest) =
     and_then (merge_fat_entry a name bytes context) (\<lambda>a'. merge_entries a' rest)"

definition insert_entry :: "(str, str) btree_map \<Rightarrow> str \<Rightarrow> str \<Rightarrow> str \<Rightarrow> (str, str) btree_map built" where
  "insert_entry archive name bytes context =
     (case bt_get archive name of
        Some old \<Rightarrow>
          if old \<noteq> bytes
          then Inl (Invalid (''conflicting JAR entry '' @ ticked name @ '' from '' @ context))
          else Inr archive
      | None \<Rightarrow> Inr (bt_insert name bytes archive))"

text \<open>
  The entries of a dependency JAR: an unsafe name is an error, ignored entries are skipped,
  licenses move to a directory of their own, and the rest is sorted by name. A JAR that was
  opened is the list of its entries (name, whether it is a directory, and contents).
\<close>

fun jar_entries :: "str \<Rightarrow> (str \<times> bool \<times> str) list \<Rightarrow> (str \<times> str \<times> str) list built" where
  "jar_entries coord [] = Inr []"
| "jar_entries coord ((raw, directory, bytes) # rest) =
     (if directory then jar_entries coord rest
      else and_then (safe_zip_name raw) (\<lambda>name.
           if ignored_fat_entry name then jar_entries coord rest
           else and_then (jar_entries coord rest) (\<lambda>es.
                Inr ((relocated_dependency_entry name coord, bytes, ''dependency '' @ coord) # es))))"

definition read_jar_entries :: "str \<Rightarrow> (str \<times> bool \<times> str) list \<Rightarrow> (str \<times> str \<times> str) list built" where
  "read_jar_entries coord opened =
     and_then (jar_entries coord opened) (\<lambda>es. Inr (sort_key fst es))"

section \<open>The manifest of a JAR\<close>

definition crlf :: str where
  "crlf = [CHR 0x0D, CHR 0x0A]"

text \<open>The characters of a UTF-8 text.\<close>

function utf8_chars :: "str \<Rightarrow> str list" where
  "utf8_chars s =
     (if s = [] then []
      else take (max 1 (utf8_width (byte (hd s)))) s #
           utf8_chars (drop (max 1 (utf8_width (byte (hd s)))) s))"
  by pat_completeness auto
termination
  by (relation "measure length") auto

declare utf8_chars.simps [simp del]

text \<open>A header line is folded before the character that would make it longer than 70 bytes.\<close>

fun fold_header :: "str \<Rightarrow> str list \<Rightarrow> str \<Rightarrow> str" where
  "fold_header out [] line = out @ line @ crlf"
| "fold_header out (c # cs) line =
     (if 70 < length line + length c then fold_header (out @ line @ crlf) cs ('' '' @ c)
      else fold_header out cs (line @ c))"

definition append_manifest_header :: "str \<Rightarrow> str \<Rightarrow> str \<Rightarrow> str" where
  "append_manifest_header out name value = fold_header out (utf8_chars value) (name @ '': '')"

definition jar_manifest :: "manifest \<Rightarrow> str" where
  "jar_manifest m =
     (let out = append_manifest_header (append_manifest_header [] ''Manifest-Version'' ''1.0'')
                  ''Created-By'' ''JMAN''
      in (case pj_main_class (mf_project m) of
            None \<Rightarrow> out | Some main \<Rightarrow> append_manifest_header out ''Main-Class'' main) @ crlf)"

section \<open>Writing an archive\<close>

text \<open>The calls on the writer of the \<open>zip\<close> crate: a directory before the first entry below it.\<close>

datatype zip_op = AddDirectory str | AddFile str str

fun add_directories :: "str list \<Rightarrow> str list \<Rightarrow> zip_op list \<times> str list" where
  "add_directories [] seen = ([], seen)"
| "add_directories (d # ds) seen =
     (if d \<in> set seen then add_directories ds seen
      else (let (ops, seen') = add_directories ds (bs_insert d seen) in (AddDirectory d # ops, seen')))"

text \<open>The parts of a name up to and including each slash.\<close>

definition parent_names :: "str \<Rightarrow> str list" where
  "parent_names name = filter (ends_with ''/'') (prefixes name)"

fun write_jar :: "(str \<times> str) list \<Rightarrow> str list \<Rightarrow> zip_op list" where
  "write_jar [] seen = []"
| "write_jar ((name, bytes) # rest) seen =
     (let (ops, seen') = add_directories (parent_names name) seen
      in ops @ AddFile name bytes # write_jar rest seen')"

end
