(* ===== verification/Utf8_Facts.thy ===== *)
theory Utf8_Facts
  imports Rust_Str
begin

text \<open>
  Facts on well-formed UTF-8: it may be cut and joined at ASCII characters, trimming keeps it, and
  \<open>from_utf8_lossy\<close> yields it and is the identity on it.
\<close>

lemma utf8_valid_Nil [simp]: "utf8_valid []"
  by (simp add: utf8_valid.simps)

lemma utf8_valid_Cons:
  "utf8_valid (b # r) \<longleftrightarrow>
     utf8_width (byte b) \<noteq> 0 \<and> utf8_width (byte b) - 1 \<le> length r \<and>
     (utf8_width (byte b) - 1 \<noteq> 0 \<longrightarrow> utf8_second (byte b) (byte (hd r))) \<and>
     list_all utf8_tail (take (utf8_width (byte b) - 1) r) \<and>
     utf8_valid (drop (utf8_width (byte b) - 1) r)"
  by (subst utf8_valid.simps) (auto simp: Let_def not_le)

lemma utf8_valid_append: "utf8_valid u \<Longrightarrow> utf8_valid (u @ v) \<longleftrightarrow> utf8_valid v"
proof (induction u rule: utf8_valid.induct)
  case (1 u)
  show ?case
  proof (cases u)
    case (Cons b r)
    let ?n = "utf8_width (byte b) - 1"
    from "1.prems" Cons have n: "?n \<le> length r" "utf8_width (byte b) \<noteq> 0"
      "?n \<noteq> 0 \<longrightarrow> utf8_second (byte b) (byte (hd r))" "list_all utf8_tail (take ?n r)"
      "utf8_valid (drop ?n r)" by (simp_all add: utf8_valid_Cons)
    have "utf8_valid (drop ?n r @ v) \<longleftrightarrow> utf8_valid v"
      using "1.IH" [OF Cons refl] n by blast
    moreover have "hd (r @ v) = hd r" if "?n \<noteq> 0" using n(1) that by (cases r) auto
    ultimately show ?thesis using n by (auto simp: Cons utf8_valid_Cons)
  qed simp
qed

lemma utf8_valid_ascii_Cons: "byte c < 128 \<Longrightarrow> utf8_valid (c # s) \<longleftrightarrow> utf8_valid s"
  by (simp add: utf8_valid_Cons utf8_width_def)

text \<open>A text can be cut at an ASCII character.\<close>

lemma utf8_valid_cut:
  "utf8_valid (u @ c # v) \<Longrightarrow> byte c < 128 \<Longrightarrow> utf8_valid u \<and> utf8_valid v"
proof (induction u rule: length_induct)
  case (1 u)
  show ?case
  proof (cases u)
    case Nil
    then show ?thesis using "1.prems" by (simp add: utf8_valid_ascii_Cons)
  next
    case (Cons b r)
    let ?n = "utf8_width (byte b) - 1"
    from "1.prems"(1) Cons have n: "utf8_width (byte b) \<noteq> 0" "?n \<le> length (r @ c # v)"
      "?n \<noteq> 0 \<longrightarrow> utf8_second (byte b) (byte (hd (r @ c # v)))"
      "list_all utf8_tail (take ?n (r @ c # v))" "utf8_valid (drop ?n (r @ c # v))"
      by (simp_all add: utf8_valid_Cons)
    have le: "?n \<le> length r"
    proof (rule ccontr)
      assume "\<not> ?n \<le> length r"
      then obtain k where "?n = length r + Suc k" by (metis less_iff_Suc_add not_le add_Suc_right)
      then have "c \<in> set (take ?n (r @ c # v))" by simp
      then have "utf8_tail c" using n(4) by (simp add: list_all_iff)
      then show False using "1.prems"(2) by (simp add: utf8_tail_def)
    qed
    then have "utf8_valid (drop ?n r @ c # v)" using n(5) by simp
    then have "utf8_valid (drop ?n r) \<and> utf8_valid v"
      using "1.IH" [rule_format, of "drop ?n r"] "1.prems"(2) Cons by simp
    moreover have "hd (r @ c # v) = hd r" if "?n \<noteq> 0" using le that by (cases r) auto
    ultimately show ?thesis using n le by (auto simp: Cons utf8_valid_Cons)
  qed
qed

lemma utf8_valid_split:
  assumes "utf8_valid s" "\<And>c. P c \<Longrightarrow> byte c < 128" "w \<in> set (split_by P s)"
  shows "utf8_valid w"
  using assms(1,3)
proof (induction "split_by P s" arbitrary: s w)
  case (Cons w' ws)
  show ?case
  proof (cases "\<exists>u c v. s = u @ c # v \<and> P c \<and> (\<forall>x \<in> set u. \<not> P x)")
    case True
    then obtain u c v where s: "s = u @ c # v" "P c" "\<forall>x \<in> set u. \<not> P x" by blast
    then have split: "split_by P s = u # split_by P v" by (simp add: split_by_append_sep)
    have "utf8_valid u" "utf8_valid v" using utf8_valid_cut [of u c v] Cons.prems(1) assms(2) s by auto
    moreover have "ws = split_by P v" using split Cons.hyps(2) by simp
    ultimately show ?thesis using split Cons.prems(2) Cons.hyps(1) by auto
  next
    case False
    then have "\<forall>x \<in> set s. \<not> P x" by (metis split_list_first_prop)
    then show ?thesis using Cons.prems by (simp add: split_by_word)
  qed
qed simp

lemma utf8_valid_space: "is_space c \<Longrightarrow> byte c < 128"
  by (auto simp: is_space_def)

lemma utf8_valid_dropWhile:
  "utf8_valid s \<Longrightarrow> (\<And>c. P c \<Longrightarrow> byte c < 128) \<Longrightarrow> utf8_valid (dropWhile P s)"
  by (induction s) (auto simp: utf8_valid_ascii_Cons)

lemma utf8_valid_drop_end:
  "utf8_valid s \<Longrightarrow> (\<And>c. P c \<Longrightarrow> byte c < 128) \<Longrightarrow> utf8_valid (rev (dropWhile P (rev s)))"
proof (induction s rule: rev_induct)
  case (snoc c s)
  show ?case
  proof (cases "P c")
    case True
    then have "utf8_valid s" using utf8_valid_cut [of s c "[]"] snoc.prems by simp
    then show ?thesis using True snoc by simp
  qed (use snoc.prems(1) in simp)
qed simp

lemma utf8_valid_trim: "utf8_valid s \<Longrightarrow> utf8_valid (trim s)"
  unfolding trim_def trim_end_def trim_start_def
  by (intro utf8_valid_drop_end utf8_valid_dropWhile utf8_valid_space)

lemma utf8_valid_join:
  "(\<And>w. w \<in> set ws \<Longrightarrow> utf8_valid w) \<Longrightarrow> utf8_valid sep \<Longrightarrow> utf8_valid (join_with sep ws)"
  by (induction sep ws rule: join_with.induct) (auto simp: utf8_valid_append)

lemma utf8_lossy_valid: "utf8_valid s \<Longrightarrow> utf8_lossy s = s"
proof (induction s rule: length_induct)
  case (1 s)
  show ?case
  proof (cases s)
    case (Cons b r)
    let ?w = "utf8_width (byte b)"
    have v: "?w \<noteq> 0" "?w \<le> length s" "utf8_valid (drop ?w s)" "utf8_valid (take ?w s)"
    proof -
      show "?w \<noteq> 0" "?w \<le> length s" using "1.prems" by (auto simp: Cons utf8_valid_Cons)
      then show "utf8_valid (drop ?w s)" "utf8_valid (take ?w s)"
        using "1.prems" by (auto simp: Cons utf8_valid_Cons drop_Cons' take_Cons' hd_take min_def)
    qed
    then have "utf8_lossy (drop ?w s) = drop ?w s" using "1.IH" Cons by simp
    then show ?thesis using v by (subst utf8_lossy.simps) (simp add: Cons Let_def)
  qed (simp add: utf8_lossy.simps)
qed

lemma utf8_lossy_is_valid: "utf8_valid (utf8_lossy s)"
proof (induction s rule: utf8_lossy.induct)
  case (1 s)
  show ?case
  proof (cases s)
    case (Cons b r)
    have bad: "utf8_valid [CHR 0xEF, CHR 0xBF, CHR 0xBD]" by code_simp
    show ?thesis
    proof (cases "utf8_width (byte b) \<noteq> 0 \<and> utf8_width (byte b) \<le> length s \<and>
        utf8_valid (take (utf8_width (byte b)) s)")
      case True
      then show ?thesis using "1.IH"(1) [OF Cons refl]
        by (subst utf8_lossy.simps) (simp add: Cons Let_def utf8_valid_append)
    next
      case False
      have "utf8_lossy s = [CHR 0xEF, CHR 0xBF, CHR 0xBD] @ utf8_lossy (drop (utf8_bad_length s) s)"
        by (subst utf8_lossy.simps)
          (simp only: Cons list.case Let_def if_not_P [OF False [unfolded Cons]])
      then show ?thesis using "1.IH"(2) [OF Cons refl False] utf8_valid_append [OF bad] by simp
    qed
  qed (simp add: utf8_lossy.simps)
qed

end
