(* ===== verification/Archive_Facts.thy ===== *)
theory Archive_Facts
  imports Build_Archive Utf8_Facts
begin

text \<open>
  Properties of the merged archive: registries are the union of their providers in any order, a
  class is never replaced or dropped, what is written as properties is read back, header lines
  are folded without loss, and entry names stay inside of the archive.
\<close>

section \<open>Line registries\<close>

lemma set_trim: "set (trim s) \<subseteq> set s"
proof -
  have "set (trim_end s) \<subseteq> set s" for s
    unfolding trim_end_def by (auto dest: set_dropWhileD)
  then show ?thesis unfolding trim_def trim_start_def by (meson order_trans set_dropWhileD subsetI)
qed

lemma set_strip_cr: "set (strip_cr s) \<subseteq> set s"
  by (auto simp: strip_cr_def strip_suffix_Some_iff split: option.splits)

lemma str_line_part:
  assumes "l \<in> set (str_lines s)"
  obtains w where "w \<in> set (split_char (CHR 0x0A) s)" "l = strip_cr w \<or> l = w"
proof -
  let ?ps = "split_char (CHR 0x0A) s"
  have "?ps \<noteq> []" by simp
  then have "last ?ps \<in> set ?ps" by (rule last_in_set)
  moreover have "l \<in> strip_cr ` set (butlast ?ps) \<or> l = last ?ps"
    using assms by (auto simp: str_lines_def Let_def split: if_splits)
  ultimately show thesis using that in_set_butlastD by fast
qed

lemma set_str_lines: "l \<in> set (str_lines s) \<Longrightarrow> CHR 0x0A \<notin> set l"
proof -
  assume "l \<in> set (str_lines s)"
  then obtain w where w: "w \<in> set (split_char (CHR 0x0A) s)" "l = strip_cr w \<or> l = w"
    by (rule str_line_part)
  then show ?thesis using split_by_no_sep [OF w(1)] set_strip_cr by blast
qed

lemma utf8_valid_str_lines: "utf8_valid s \<Longrightarrow> l \<in> set (str_lines s) \<Longrightarrow> utf8_valid l"
proof -
  assume s: "utf8_valid s" and l: "l \<in> set (str_lines s)"
  from l obtain w where w: "w \<in> set (split_char (CHR 0x0A) s)" "l = strip_cr w \<or> l = w"
    by (rule str_line_part)
  have "utf8_valid w" by (rule utf8_valid_split [OF s _ w(1)]) (simp add: byte_def)
  then show ?thesis using w(2) unfolding strip_cr_def
    using utf8_valid_cut [of _ "CHR 0x0D" "[]"]
    by (auto simp: strip_suffix_Some_iff byte_def split: option.splits)
qed

text \<open>A line as a registry keeps it.\<close>

definition registry_line :: "str \<Rightarrow> bool" where
  "registry_line l \<longleftrightarrow>
     l \<noteq> [] \<and> trimmed l \<and> \<not> starts_with ''#'' l \<and> CHR 0x0A \<notin> set l \<and> utf8_valid l"

lemma registry_lines_ok: "l \<in> set (registry_lines b) \<Longrightarrow> registry_line l"
  using set_str_lines set_trim utf8_valid_str_lines [OF utf8_lossy_is_valid]
  by (fastforce simp: registry_lines_def registry_line_def trimmed_trim utf8_valid_trim)

lemma lines_rendered:
  assumes "\<forall>l \<in> set ls. CHR 0x0A \<notin> set l \<and> strip_cr l = l" "ls \<noteq> []"
  shows "str_lines (join_with newline ls @ newline) = ls"
proof -
  have "split_char (CHR 0x0A) (join_with [CHR 0x0A] (ls @ [[]])) = ls @ [[]]"
    using assms by (intro split_char_join) auto
  moreover have "join_with [CHR 0x0A] (ls @ [[]]) = join_with newline ls @ newline"
    using assms(2) by (induction "newline" ls rule: join_with.induct) (auto simp: newline_def)
  ultimately have "split_char (CHR 0x0A) (join_with newline ls @ newline) = ls @ [[]]" by simp
  then show ?thesis using assms by (simp add: str_lines_def Let_def map_idI)
qed

lemma trimmed_no_cr: "trimmed l \<Longrightarrow> strip_cr l = l"
proof (cases "strip_suffix [CHR 13] l")
  case (Some r)
  assume "trimmed l"
  then have False using Some by (auto simp: strip_suffix_Some_iff trimmed_def is_space_def byte_def)
  then show ?thesis ..
qed (simp add: strip_cr_def)

lemma registry_lines_rendered:
  assumes "\<forall>l \<in> set ls. registry_line l"
  shows "registry_lines (render_lines ls) = ls"
proof (cases "ls = []")
  case True
  then show ?thesis by (simp add: registry_lines_def render_lines_def str_lines_def utf8_lossy_valid)
next
  case False
  have lines: "str_lines (join_with newline ls @ newline) = ls"
    using assms False by (intro lines_rendered) (auto simp: registry_line_def trimmed_no_cr)
  have "utf8_valid (join_with newline ls)"
    using assms by (intro utf8_valid_join) (auto simp: registry_line_def newline_def utf8_valid_ascii_Cons byte_def)
  then have "utf8_valid (join_with newline ls @ newline)"
    by (simp add: utf8_valid_append newline_def utf8_valid_ascii_Cons byte_def)
  moreover have "join_with newline ls \<noteq> []"
    using False assms by (cases ls; cases "tl ls") (auto simp: registry_line_def)
  moreover have "map trim ls = ls" using assms by (auto simp: registry_line_def trim_trimmed intro: map_idI)
  moreover have "filter (\<lambda>l. l \<noteq> [] \<and> \<not> starts_with ''#'' l) ls = ls"
    using assms by (auto simp: registry_line_def filter_id_conv)
  ultimately show ?thesis
    by (simp add: registry_lines_def render_lines_def Let_def utf8_lossy_valid lines)
qed

lemma existing_bytes_put: "existing_bytes (put_entry n b c a) m = (if m = n then b else existing_bytes a m)"
  by (simp add: existing_bytes_def put_entry_def)

section \<open>The whole merge\<close>

definition provided :: "str \<Rightarrow> (str \<times> str \<times> str) list \<Rightarrow> (str \<times> str) list" where
  "provided name es = map snd (filter (\<lambda>e. fst e = name) es)"

lemma provided_simps [simp]:
  "provided name [] = []"
  "provided name ((n, b, c) # es) = (if n = name then (b, c) # provided name es else provided name es)"
  by (simp_all add: provided_def)

lemma get_put: "bt_get (fa_entries (put_entry n b c a)) m =
    (if m = n then Some \<lparr>fe_bytes = b, fe_source = c\<rparr> else bt_get (fa_entries a) m)"
  by (simp add: put_entry_def)

text \<open>An entry changes nothing but the entry of its name.\<close>

lemma merge_fat_entry_other:
  assumes "merge_fat_entry a n b c = Inr a'" "m \<noteq> n"
  shows "bt_get (fa_entries a') m = bt_get (fa_entries a) m"
  using assms
  by (auto simp: merge_fat_entry_def insert_fat_entry_def merge_line_entry_def merge_properties_entry_def
      merge_property_list_entry_def and_then_Inr_iff get_put
      split: merge_strategy.splits option.splits if_splits)

lemma merge_fat_entry_present:
  assumes "merge_fat_entry a n b c = Inr a'"
  shows "bt_get (fa_entries a') n \<noteq> None"
  using assms
  by (auto simp: merge_fat_entry_def insert_fat_entry_def merge_line_entry_def merge_properties_entry_def
      merge_property_list_entry_def and_then_Inr_iff get_put
      split: merge_strategy.splits option.splits if_splits)

lemma put_entry_wf: "bt_wf (fa_entries a) \<Longrightarrow> bt_wf (fa_entries (put_entry n b c a))"
  by (simp add: put_entry_def)

lemma merge_fat_entry_wf:
  assumes "merge_fat_entry a n b c = Inr a'" "bt_wf (fa_entries a)"
  shows "bt_wf (fa_entries a')"
  using assms
  by (auto simp: merge_fat_entry_def insert_fat_entry_def merge_line_entry_def merge_properties_entry_def
      merge_property_list_entry_def and_then_Inr_iff put_entry_wf
      split: merge_strategy.splits option.splits if_splits)

text \<open>The names, and for each name what its providers determine.\<close>

lemma merge_entries_names:
  "merge_entries a es = Inr a' \<Longrightarrow>
     {n. bt_get (fa_entries a') n \<noteq> None} = {n. bt_get (fa_entries a) n \<noteq> None} \<union> fst ` set es"
proof (induction a es rule: merge_entries.induct)
  case (2 a n b c es)
  then obtain a1 where a1: "merge_fat_entry a n b c = Inr a1" "merge_entries a1 es = Inr a'"
    by (auto simp: and_then_Inr_iff)
  have "{m. bt_get (fa_entries a1) m \<noteq> None} = insert n {m. bt_get (fa_entries a) m \<noteq> None}"
  proof (rule set_eqI)
    show "m \<in> {m. bt_get (fa_entries a1) m \<noteq> None} \<longleftrightarrow> m \<in> insert n {m. bt_get (fa_entries a) m \<noteq> None}" for m
      using merge_fat_entry_other [OF a1(1), of m] merge_fat_entry_present [OF a1(1)]
      by (cases "m = n") auto
  qed
  then show ?case using "2.IH" [OF a1(2)] by simp
qed simp

lemma merge_entries_wf: "merge_entries a es = Inr a' \<Longrightarrow> bt_wf (fa_entries a) \<Longrightarrow> bt_wf (fa_entries a')"
  by (induction a es rule: merge_entries.induct) (auto simp: and_then_Inr_iff intro: merge_fat_entry_wf)

lemma merge_entries_lines:
  assumes "merge_entries a es = Inr a'" "resource_merge_strategy name = MergeLines"
    and "existing_bytes a name = render_lines (bs_of_list ls)" "\<forall>l \<in> set ls. registry_line l"
  shows "existing_bytes a' name =
    render_lines (bs_of_list (ls @ concat (map (registry_lines \<circ> fst) (provided name es))))"
  using assms
proof (induction a es arbitrary: ls rule: merge_entries.induct)
  case (2 a n b c es)
  then obtain a1 where a1: "merge_fat_entry a n b c = Inr a1" "merge_entries a1 es = Inr a'"
    by (auto simp: and_then_Inr_iff)
  show ?case
  proof (cases "n = name")
    case True
    have "registry_lines (existing_bytes a name) = bs_of_list ls"
      using "2.prems"(3,4) by (simp add: registry_lines_rendered)
    then have "existing_bytes a1 name = render_lines (bs_of_list (bs_of_list ls @ registry_lines b))"
      using a1(1) "2.prems"(2) True
      by (auto simp: merge_fat_entry_def merge_line_entry_def existing_bytes_put)
    also have "bs_of_list (bs_of_list ls @ registry_lines b) = bs_of_list (ls @ registry_lines b)"
      unfolding bs_of_list_sort_dedup by (rule sort_dedup_cong) simp
    finally have step: "existing_bytes a1 name = render_lines (bs_of_list (ls @ registry_lines b))" .
    have "\<forall>l \<in> set (ls @ registry_lines b). registry_line l"
      using "2.prems"(4) registry_lines_ok by auto
    from "2.IH" [OF a1(2) "2.prems"(2) step this] show ?thesis using True by simp
  next
    case False
    then have "existing_bytes a1 name = existing_bytes a name"
      using merge_fat_entry_other [OF a1(1)] by (simp add: existing_bytes_def)
    then show ?thesis using "2.IH" [OF a1(2) "2.prems"(2)] "2.prems"(3,4) False by simp
  qed
qed simp

lemma merge_entries_first:
  assumes "merge_entries a es = Inr a'" "resource_merge_strategy name = KeepFirst"
  shows "bt_get (fa_entries a') name =
    (case bt_get (fa_entries a) name of
       Some e \<Rightarrow> Some e
     | None \<Rightarrow> (case provided name es of [] \<Rightarrow> None | (b, c) # _ \<Rightarrow> Some \<lparr>fe_bytes = b, fe_source = c\<rparr>))"
  using assms
proof (induction a es rule: merge_entries.induct)
  case (2 a n b c es)
  then obtain a1 where a1: "merge_fat_entry a n b c = Inr a1" "merge_entries a1 es = Inr a'"
    by (auto simp: and_then_Inr_iff)
  show ?case
    using "2.IH" [OF a1(2) "2.prems"(2)] "2.prems"(2) a1(1) merge_fat_entry_other [OF a1(1), of name]
    by (cases "n = name")
      (auto simp: merge_fat_entry_def insert_fat_entry_def get_put split: option.splits if_splits)
qed (auto split: option.splits)

lemma merge_entries_classes:
  assumes "merge_entries a es = Inr a'" "resource_merge_strategy name = KeepFirst"
    and "is_class_entry name" "(b, c) \<in> set (provided name es)"
  shows "map_option fe_bytes (bt_get (fa_entries a') name) = Some b"
  using assms
proof (induction a es rule: merge_entries.induct)
  case (2 a n b' c' es)
  then obtain a1 where a1: "merge_fat_entry a n b' c' = Inr a1" "merge_entries a1 es = Inr a'"
    by (auto simp: and_then_Inr_iff)
  show ?case
  proof (cases "n = name \<and> (b, c) = (b', c')")
    case True
    then have "map_option fe_bytes (bt_get (fa_entries a1) name) = Some b"
      using a1(1) "2.prems"(2,3)
      by (auto simp: merge_fat_entry_def insert_fat_entry_def get_put split: option.splits if_splits)
    then show ?thesis using merge_entries_first [OF a1(2) "2.prems"(2)] by (auto split: option.splits)
  next
    case False
    then show ?thesis using "2.IH" [OF a1(2)] "2.prems" by (auto split: if_splits)
  qed
qed auto

text \<open>
  C26: a successful merge of the entries of several JARs. The archive has exactly the
  names of the entries, in order. A service or import registry holds the trimmed lines of all its
  providers once and sorted, so neither the order of the JARs nor repeated lines show. Any other
  plain resource is the one of its first provider, and if it is a class, all providers agree.
\<close>
theorem merged_archive:
  assumes "merge_entries empty_archive es = Inr a"
  shows "bt_wf (fa_entries a) \<and> set (bt_keys (fa_entries a)) = fst ` set es \<and>
    (\<forall>name. resource_merge_strategy name = MergeLines \<longrightarrow>
       existing_bytes a name =
         render_lines (sort_dedup (concat (map (registry_lines \<circ> fst) (provided name es))))) \<and>
    (\<forall>name. resource_merge_strategy name = KeepFirst \<longrightarrow>
       bt_get (fa_entries a) name =
         (case provided name es of [] \<Rightarrow> None | (b, c) # _ \<Rightarrow> Some \<lparr>fe_bytes = b, fe_source = c\<rparr>) \<and>
       (is_class_entry name \<longrightarrow>
          (\<forall>(b, c) \<in> set (provided name es). map_option fe_bytes (bt_get (fa_entries a) name) = Some b)))"
proof (intro conjI allI impI)
  show "bt_wf (fa_entries a)" using merge_entries_wf [OF assms] by (simp add: empty_archive_def)
  show "set (bt_keys (fa_entries a)) = fst ` set es"
    using merge_entries_names [OF assms]
    by (auto simp: empty_archive_def bt_contains_iff [symmetric] bt_contains_def set_eq_iff)
next
  fix name assume lines: "resource_merge_strategy name = MergeLines"
  have "existing_bytes empty_archive name = render_lines (bs_of_list [])"
    by (simp add: existing_bytes_def empty_archive_def render_lines_def bs_of_list_def)
  from merge_entries_lines [OF assms lines this]
  show "existing_bytes a name =
      render_lines (sort_dedup (concat (map (registry_lines \<circ> fst) (provided name es))))"
    by (simp add: bs_of_list_sort_dedup)
next
  fix name assume keep: "resource_merge_strategy name = KeepFirst"
  show "bt_get (fa_entries a) name =
      (case provided name es of [] \<Rightarrow> None | (b, c) # _ \<Rightarrow> Some \<lparr>fe_bytes = b, fe_source = c\<rparr>)"
    using merge_entries_first [OF assms keep] by (simp add: empty_archive_def)
  show "\<forall>(b, c) \<in> set (provided name es). map_option fe_bytes (bt_get (fa_entries a) name) = Some b"
    if "is_class_entry name"
    using merge_entries_classes [OF assms keep that] by blast
qed

definition sample_providers :: "(str \<times> str \<times> str) list" where
  "sample_providers =
     [(''META-INF/services/S'', ''b'' @ newline, ''x''), (''A.class'', ''1'', ''x''),
      (''META-INF/services/S'', ''#'' @ newline @ '' a '', ''y''), (''A.class'', ''1'', ''y'')]"

theorem merged_archive_witness:
  "\<exists>a. merge_entries empty_archive sample_providers = Inr a \<and>
     existing_bytes a ''META-INF/services/S'' = ''a'' @ newline @ ''b'' @ newline"
proof -
  have "is_ok (merge_entries empty_archive sample_providers)" by code_simp
  then obtain a where a: "merge_entries empty_archive sample_providers = Inr a" by (auto simp: is_ok_iff)
  have "resource_merge_strategy ''META-INF/services/S'' = MergeLines" by code_simp
  moreover have "render_lines (sort_dedup (concat (map (registry_lines \<circ> fst)
      (provided ''META-INF/services/S'' sample_providers)))) = ''a'' @ newline @ ''b'' @ newline"
    by code_simp
  ultimately show ?thesis using a merged_archive [OF a] by metis
qed

section \<open>The manifest\<close>

text \<open>Unfolding a header: a line break followed by a space continues the line.\<close>

abbreviation continuation :: str where
  "continuation \<equiv> crlf @ '' ''"

lemma unfold_plain: "CHR 0x0D \<notin> set s \<Longrightarrow>
    replace_nonempty continuation [] (s @ t) = s @ replace_nonempty continuation [] t"
  by (induction s) (auto simp: crlf_def)

lemma unfold_continuation:
  "replace_nonempty continuation [] (crlf @ '' '' @ t) = replace_nonempty continuation [] t"
  by (simp add: crlf_def)

lemma unfold_break: "\<not> starts_with '' '' t \<Longrightarrow>
    replace_nonempty continuation [] (crlf @ t) = crlf @ replace_nonempty continuation [] t"
  by (simp add: crlf_def)

lemma fold_header_out: "fold_header out cs line = out @ fold_header [] cs line"
proof (induction cs arbitrary: out line)
  case (Cons c cs)
  show ?case
    using Cons.IH [of "out @ line @ crlf"] Cons.IH [of "line @ crlf"] Cons.IH [of out] by simp
qed simp

text \<open>Unfolding yields the header as one line, whatever prefix the first line has.\<close>

lemma header_unfold:
  assumes "CHR 0x0D \<notin> set l \<union> \<Union> (set ` set cs)" "\<not> starts_with '' '' t"
  shows "\<exists>F. fold_header [] cs (p @ l) = p @ F \<and>
    replace_nonempty continuation [] (F @ t) = l @ concat cs @ crlf @ replace_nonempty continuation [] t"
  using assms(1)
proof (induction cs arbitrary: p l)
  case Nil
  then show ?case using unfold_plain [of l "crlf @ t"] unfold_break [OF assms(2)]
    by (intro exI [of _ "l @ crlf"]) simp
next
  case (Cons c cs)
  show ?case
  proof (cases "70 < length (p @ l) + length c")
    case True
    obtain F where F: "fold_header [] cs ('' '' @ c) = '' '' @ F"
      "replace_nonempty continuation [] (F @ t) = c @ concat cs @ crlf @ replace_nonempty continuation [] t"
      using Cons.IH [of c "'' ''"] Cons.prems by auto
    have "fold_header [] (c # cs) (p @ l) = p @ l @ crlf @ '' '' @ F"
      using True F(1) fold_header_out [of "p @ l @ crlf"] by simp
    moreover have "replace_nonempty continuation [] ((l @ crlf @ '' '' @ F) @ t) =
        l @ c @ concat cs @ crlf @ replace_nonempty continuation [] t"
      using unfold_plain [of l "crlf @ '' '' @ F @ t"] unfold_continuation [of "F @ t"] F(2) Cons.prems
      by simp
    ultimately show ?thesis by (intro exI [of _ "l @ crlf @ '' '' @ F"]) simp
  next
    case False
    then show ?thesis using Cons.IH [of "l @ c" p] Cons.prems by auto
  qed
qed

lemma header_lines:
  assumes "length line \<le> 70" "\<forall>c \<in> set cs. length c \<le> 69"
    and "set line \<union> \<Union> (set ` set cs) \<subseteq> - {CHR 0x0D, CHR 0x0A}"
  shows "\<exists>ls. fold_header [] cs line = concat (map (\<lambda>l. l @ crlf) ls) \<and>
    (\<forall>l \<in> set ls. length l \<le> 70 \<and> set l \<subseteq> - {CHR 0x0D, CHR 0x0A})"
  using assms
proof (induction cs arbitrary: line)
  case Nil
  then show ?case by (intro exI [of _ "[line]"]) simp
next
  case (Cons c cs)
  show ?case
  proof (cases "70 < length line + length c")
    case True
    have "length ('' '' @ c) \<le> 70" "set ('' '' @ c) \<union> \<Union> (set ` set cs) \<subseteq> - {CHR 0x0D, CHR 0x0A}"
      using Cons.prems by auto
    then obtain ls where ls: "fold_header [] cs ('' '' @ c) = concat (map (\<lambda>l. l @ crlf) ls)"
      "\<forall>l \<in> set ls. length l \<le> 70 \<and> set l \<subseteq> - {CHR 0x0D, CHR 0x0A}"
      using Cons.IH [of "'' '' @ c"] Cons.prems by auto
    then show ?thesis using True fold_header_out [of "line @ crlf" cs "'' '' @ c"] Cons.prems
      by (intro exI [of _ "line # ls"]) simp
  next
    case False
    then show ?thesis using Cons.IH [of "line @ c"] Cons.prems by auto
  qed
qed

lemma utf8_chars_Nil [simp]: "utf8_chars [] = []"
  by (simp add: utf8_chars.simps)

lemma concat_utf8_chars: "concat (utf8_chars s) = s"
proof (induction s rule: utf8_chars.induct)
  case (1 s)
  then show ?case by (cases "s = []") (simp_all add: utf8_chars.simps [of s])
qed

lemma length_utf8_chars: "c \<in> set (utf8_chars s) \<Longrightarrow> length c \<le> 4"
proof (induction s rule: utf8_chars.induct)
  case (1 s)
  let ?w = "max 1 (utf8_width (byte (hd s)))"
  have "?w \<le> 4" by (simp add: utf8_width_def)
  then have "length (take ?w s) \<le> 4" by (metis length_take min.cobounded2 order_trans)
  then show ?case using 1 by (cases "s = []") (auto simp: utf8_chars.simps [of s])
qed

lemma append_header:
  assumes "set v \<subseteq> - {CHR 0x0D, CHR 0x0A}" "set name \<subseteq> - {CHR 0x0D, CHR 0x0A}" "length name \<le> 68"
  shows "\<exists>ls. append_manifest_header out name v = out @ concat (map (\<lambda>l. l @ crlf) ls) \<and>
      (\<forall>l \<in> set ls. length l \<le> 70 \<and> set l \<subseteq> - {CHR 0x0D, CHR 0x0A})"
    and "\<not> starts_with '' '' t \<Longrightarrow>
      \<exists>F. append_manifest_header out name v = out @ F \<and>
        replace_nonempty continuation [] (F @ t) =
          name @ '': '' @ v @ crlf @ replace_nonempty continuation [] t"
proof -
  have chars: "\<Union> (set ` set (utf8_chars v)) = set v"
    using concat_utf8_chars [of v] by (metis set_concat)
  show "\<exists>ls. append_manifest_header out name v = out @ concat (map (\<lambda>l. l @ crlf) ls) \<and>
      (\<forall>l \<in> set ls. length l \<le> 70 \<and> set l \<subseteq> - {CHR 0x0D, CHR 0x0A})"
  proof -
    have "\<forall>c \<in> set (utf8_chars v). length c \<le> 69" using length_utf8_chars by fastforce
    moreover have "set (name @ '': '') \<union> \<Union> (set ` set (utf8_chars v)) \<subseteq> - {CHR 0x0D, CHR 0x0A}"
      using assms(1,2) unfolding chars by auto
    moreover have "length (name @ '': '') \<le> 70" using assms(3) by simp
    ultimately show ?thesis
      using header_lines [of "name @ '': ''" "utf8_chars v"]
        fold_header_out [of out "utf8_chars v" "name @ '': ''"]
      by (metis append_manifest_header_def)
  qed
  show "\<exists>F. append_manifest_header out name v = out @ F \<and>
        replace_nonempty continuation [] (F @ t) =
          name @ '': '' @ v @ crlf @ replace_nonempty continuation [] t"
    if "\<not> starts_with '' '' t"
    using header_unfold [of "name @ '': ''" "utf8_chars v" t "[]"] assms that chars
      fold_header_out [of out "utf8_chars v" "name @ '': ''"] concat_utf8_chars [of v]
    unfolding append_manifest_header_def by auto
qed

lemma identifier_plain: "is_java_identifier part \<Longrightarrow> set part \<subseteq> - {CHR 0x0D, CHR 0x0A}"
proof -
  assume "is_java_identifier part"
  then have "c \<in> {CHR ''_'', CHR ''$''} \<or> is_alnum c" if "c \<in> set part" for c
    using that by (auto simp: is_java_identifier_def list_all_iff is_alnum_def split: list.splits)
  moreover have "\<not> is_alnum (CHR 0x0D)" "\<not> is_alnum (CHR 0x0A)" by code_simp+
  ultimately show ?thesis by auto
qed

lemma java_name_plain:
  assumes "is_ok (validate_java_name label name)"
  shows "set name \<subseteq> - {CHR 0x0D, CHR 0x0A}"
proof -
  have "\<forall>w \<in> set (split_char (CHR ''.'') name). set w \<subseteq> - {CHR 0x0D, CHR 0x0A}"
    using assms identifier_plain by (simp add: validate_java_name_def list_all_iff)
  moreover have "set name \<subseteq> {CHR ''.''} \<union> \<Union> (set ` set (split_char (CHR ''.'') name))"
    using set_join_with [of "''.''" "split_char (CHR ''.'') name"] join_split_char [of "CHR ''.''" name]
    by simp
  ultimately show ?thesis by auto
qed

definition unfolds :: "str \<Rightarrow> str \<Rightarrow> bool" where
  "unfolds out txt \<longleftrightarrow>
     (\<exists>ls. out = concat (map (\<lambda>l. l @ crlf) ls) \<and>
       (\<forall>l \<in> set ls. length l \<le> 70 \<and> set l \<subseteq> - {CHR 0x0D, CHR 0x0A})) \<and>
     (\<forall>t. \<not> starts_with '' '' t \<longrightarrow>
       replace_nonempty continuation [] (out @ t) = txt @ replace_nonempty continuation [] t)"

lemma unfolds_Nil: "unfolds [] []"
  by (auto simp: unfolds_def intro: exI [of _ "[]"])

lemma unfolds_header:
  assumes out: "unfolds out txt" and v: "set v \<subseteq> - {CHR 0x0D, CHR 0x0A}"
    and name: "set name \<subseteq> - {CHR 0x0D, CHR 0x0A}" "length name \<le> 68" "\<not> starts_with '' '' (name @ ''x'')"
  shows "unfolds (append_manifest_header out name v) (txt @ name @ '': '' @ v @ crlf)"
proof -
  obtain ls ls' where ls: "out = concat (map (\<lambda>l. l @ crlf) ls)"
      "append_manifest_header out name v = out @ concat (map (\<lambda>l. l @ crlf) ls')"
      "\<forall>l \<in> set (ls @ ls'). length l \<le> 70 \<and> set l \<subseteq> - {CHR 0x0D, CHR 0x0A}"
    using out append_header(1) [OF v name(1,2), of out] by (fastforce simp: unfolds_def)
  have "replace_nonempty continuation [] (append_manifest_header out name v @ t) =
      txt @ name @ '': '' @ v @ crlf @ replace_nonempty continuation [] t" if t: "\<not> starts_with '' '' t" for t
  proof -
    obtain F where F: "append_manifest_header out name v = out @ F"
      "replace_nonempty continuation [] (F @ t) = name @ '': '' @ v @ crlf @ replace_nonempty continuation [] t"
      using append_header(2) [OF v name(1,2) t, of out] by blast
    have "\<not> starts_with '' '' (F @ t)"
    proof
      assume "starts_with '' '' (F @ t)"
      then obtain r where "F @ t = CHR '' '' # r" by (auto simp: starts_with_iff)
      then have head: "hd (replace_nonempty continuation [] (F @ t)) = CHR '' ''" by (simp add: crlf_def)
      show False using head [unfolded F(2)] name(3) by (cases name) auto
    qed
    then show ?thesis using out F by (simp add: unfolds_def)
  qed
  moreover have "append_manifest_header out name v = concat (map (\<lambda>l. l @ crlf) (ls @ ls'))"
    using ls(1,2) by simp
  ultimately show ?thesis using ls(3) unfolding unfolds_def by (metis append.assoc)
qed

lemma unfolds_end:
  assumes "unfolds out txt"
  shows "(\<exists>ls. out @ crlf = concat (map (\<lambda>l. l @ crlf) ls) \<and>
      (\<forall>l \<in> set ls. length l \<le> 70 \<and> set l \<subseteq> - {CHR 0x0D, CHR 0x0A})) \<and>
    replace_all continuation [] (out @ crlf) = txt @ crlf"
proof -
  obtain ls where "out = concat (map (\<lambda>l. l @ crlf) ls)"
    "\<forall>l \<in> set ls. length l \<le> 70 \<and> set l \<subseteq> - {CHR 0x0D, CHR 0x0A}"
    using assms by (auto simp: unfolds_def)
  then have "out @ crlf = concat (map (\<lambda>l. l @ crlf) (ls @ [[]]))"
    "\<forall>l \<in> set (ls @ [[]]). length l \<le> 70 \<and> set l \<subseteq> - {CHR 0x0D, CHR 0x0A}" by auto
  then have "\<exists>ls. out @ crlf = concat (map (\<lambda>l. l @ crlf) ls) \<and>
      (\<forall>l \<in> set ls. length l \<le> 70 \<and> set l \<subseteq> - {CHR 0x0D, CHR 0x0A})" by blast
  moreover have "\<not> starts_with '' '' crlf" "replace_nonempty continuation [] crlf = crlf"
    by (simp_all add: crlf_def)
  ultimately show ?thesis using assms unfolding unfolds_def replace_all_def by simp
qed

text \<open>
  The manifest of a JAR that is built from a validated project consists
  of lines of at most 70 bytes and their line breaks, and unfolded it has exactly the headers
  for the manifest version, the creator and the main class, each with its value: a main class
  cannot add headers.
\<close>
theorem jar_manifest_headers:
  assumes "manifest_validate m = Inr ()"
  shows "(\<exists>ls. jar_manifest m = concat (map (\<lambda>l. l @ crlf) ls) \<and>
      (\<forall>l \<in> set ls. length l \<le> 70 \<and> set l \<subseteq> - {CHR 0x0D, CHR 0x0A})) \<and>
    replace_all (crlf @ '' '') [] (jar_manifest m) =
      ''Manifest-Version: 1.0'' @ crlf @ ''Created-By: JMAN'' @ crlf @
      (case pj_main_class (mf_project m) of None \<Rightarrow> [] | Some c \<Rightarrow> ''Main-Class: '' @ c @ crlf) @ crlf"
proof -
  let ?out = "append_manifest_header
    (append_manifest_header [] ''Manifest-Version'' ''1.0'') ''Created-By'' ''JMAN''"
  have out: "unfolds ?out (([] @ ''Manifest-Version'' @ '': '' @ ''1.0'' @ crlf) @
      ''Created-By'' @ '': '' @ ''JMAN'' @ crlf)"
    by (intro unfolds_header unfolds_Nil) auto
  show ?thesis
  proof (cases "pj_main_class (mf_project m)")
    case None
    then have "jar_manifest m = ?out @ crlf" by (simp add: jar_manifest_def)
    then show ?thesis using unfolds_end [OF out] None by simp
  next
    case (Some c)
    then have "set c \<subseteq> - {CHR 0x0D, CHR 0x0A}"
      using assms java_name_plain [of "''main class''" c]
      by (simp add: manifest_validate_def checks_Inr_iff)
    from unfolds_header [OF out this, of "''Main-Class''"]
    have "unfolds (append_manifest_header ?out ''Main-Class'' c)
        ((([] @ ''Manifest-Version'' @ '': '' @ ''1.0'' @ crlf) @ ''Created-By'' @ '': '' @ ''JMAN'' @ crlf) @
          ''Main-Class'' @ '': '' @ c @ crlf)" by auto
    moreover have "jar_manifest m = append_manifest_header ?out ''Main-Class'' c @ crlf"
      using Some by (simp add: jar_manifest_def)
    ultimately show ?thesis using unfolds_end Some by fastforce
  qed
qed

theorem jar_manifest_headers_witness:
  "replace_all (crlf @ '' '') [] (jar_manifest sample_manifest) =
     ''Manifest-Version: 1.0'' @ crlf @ ''Created-By: JMAN'' @ crlf @ crlf"
  using jar_manifest_headers [OF sample_manifest_valid] by (simp add: sample_manifest_def)

section \<open>Writing\<close>

lemma add_directories_ok:
  "add_directories ds seen = (ops, seen') \<Longrightarrow>
     \<exists>new. ops = map AddDirectory new \<and> distinct new \<and> set new = set ds - set seen \<and>
       set seen' = set seen \<union> set ds"
proof (induction ds seen arbitrary: ops rule: add_directories.induct)
  case (2 d ds seen)
  show ?case
  proof (cases "d \<in> set seen")
    case True
    then show ?thesis using 2 by (auto simp: insert_absorb)
  next
    case False
    then obtain ops1 where ops: "add_directories ds (bs_insert d seen) = (ops1, seen')"
      "ops = AddDirectory d # ops1" using "2.prems" by (auto split: prod.splits)
    with "2.IH"(2) [OF False ops(1)] obtain new where
      "ops1 = map AddDirectory new" "distinct new" "set new = set ds - insert d (set seen)"
      "set seen' = insert d (set seen) \<union> set ds" by auto
    then show ?thesis using ops(2) False by (intro exI [of _ "d # new"]) auto
  qed
qed simp

fun written_files :: "zip_op list \<Rightarrow> (str \<times> str) list" where
  "written_files [] = []"
| "written_files (AddFile n b # ops) = (n, b) # written_files ops"
| "written_files (AddDirectory d # ops) = written_files ops"

fun written_directories :: "zip_op list \<Rightarrow> str list" where
  "written_directories [] = []"
| "written_directories (AddFile n b # ops) = written_directories ops"
| "written_directories (AddDirectory d # ops) = d # written_directories ops"

lemma written_append [simp]:
  "written_files (xs @ ys) = written_files xs @ written_files ys"
  "written_directories (xs @ ys) = written_directories xs @ written_directories ys"
  by (induction xs rule: written_files.induct) auto

lemma written_map [simp]:
  "written_files (map AddDirectory ds) = []" "written_directories (map AddDirectory ds) = ds"
  by (induction ds) auto

lemma file_after_directories:
  "map AddDirectory ds @ xs = pre @ AddFile n b # post \<Longrightarrow>
     \<exists>us. pre = map AddDirectory ds @ us \<and> xs = us @ AddFile n b # post"
proof (induction ds arbitrary: pre)
  case (Cons d ds)
  then show ?case by (cases pre) auto
qed simp

lemma write_jar_ok:
  "written_files (write_jar es seen) = es \<and>
   distinct (written_directories (write_jar es seen)) \<and>
   set (written_directories (write_jar es seen)) =
     (\<Union>(n, b) \<in> set es. set (parent_names n)) - set seen \<and>
   (\<forall>pre n b post. write_jar es seen = pre @ AddFile n b # post \<longrightarrow>
      set (parent_names n) \<subseteq> set seen \<union> set (written_directories pre))"
proof (induction es seen rule: write_jar.induct)
  case (2 n b es seen)
  obtain ops seen' where add: "add_directories (parent_names n) seen = (ops, seen')" by fastforce
  then obtain new where new: "ops = map AddDirectory new" "distinct new"
    "set new = set (parent_names n) - set seen" "set seen' = set seen \<union> set (parent_names n)"
    using add_directories_ok by blast
  note IH = "2.IH" [OF add [symmetric] refl]
  have w: "write_jar ((n, b) # es) seen = map AddDirectory new @ AddFile n b # write_jar es seen'"
    using add new(1) by simp
  have "set (parent_names n') \<subseteq> set seen \<union> set (written_directories pre)"
    if split: "write_jar ((n, b) # es) seen = pre @ AddFile n' b' # post" for pre n' b' post
  proof -
    from file_after_directories [OF split [unfolded w]] obtain us where
      us: "pre = map AddDirectory new @ us"
        "AddFile n b # write_jar es seen' = us @ AddFile n' b' # post" by blast
    show ?thesis
    proof (cases us)
      case Nil
      then show ?thesis using us new(3) by auto
    next
      case (Cons u us')
      then have "set (parent_names n') \<subseteq> set seen' \<union> set (written_directories us')" "u = AddFile n b"
        using us(2) IH by auto
      then show ?thesis using us(1) Cons new(3,4) by auto
    qed
  qed
  then show ?case using IH new unfolding w by auto
qed simp

text \<open>
  The calls on the ZIP writer write the given entries in the given order
  and every directory above them exactly once, before the first entry below it.
\<close>
theorem archive_well_ordered:
  "written_files (write_jar es []) = es \<and>
   distinct (written_directories (write_jar es [])) \<and>
   set (written_directories (write_jar es [])) = (\<Union>(n, b) \<in> set es. set (parent_names n)) \<and>
   (\<forall>pre n b post. write_jar es [] = pre @ AddFile n b # post \<longrightarrow>
      set (parent_names n) \<subseteq> set (written_directories pre))"
  using write_jar_ok [of es "[]"] by simp

theorem archive_well_ordered_witness:
  "set (parent_names ''a/b'') \<subseteq> set (written_directories [AddDirectory ''a/''])"
  using archive_well_ordered [of "[(''a/b'', ''1'')]"]
  by (auto simp: parent_names_def ends_with_def strip_suffix_def)

section \<open>Names\<close>

lemma safe_zip_name_iff:
  "safe_zip_name n = Inr m \<longleftrightarrow>
     m = n \<and> CHR 0x5C \<notin> set n \<and> (\<exists>ws. ws \<noteq> [] \<and> (\<forall>w \<in> set ws. proper_name w) \<and> n = join_with ''/'' ws)"
proof -
  have "safe_zip_name n = Inr m \<longleftrightarrow> m = n \<and> CHR 0x5C \<notin> set n \<and>
      (\<forall>w \<in> set (split_char (CHR ''/'') n). w \<notin> {[], ''.'', ''..''})"
  proof -
    have "[] \<in> set (split_char (CHR ''/'') n)" if "n = [] \<or> starts_with ''/'' n"
      using that by (auto simp: starts_with_iff)
    then show ?thesis
      by (auto simp: safe_zip_name_def join_split_char contains_single list_ex_iff)
  qed
  also have "(\<forall>w \<in> set (split_char (CHR ''/'') n). w \<notin> {[], ''.'', ''..''}) \<longleftrightarrow>
      (\<exists>ws. ws \<noteq> [] \<and> (\<forall>w \<in> set ws. proper_name w) \<and> n = join_with ''/'' ws)"
  proof
    assume "\<forall>w \<in> set (split_char (CHR ''/'') n). w \<notin> {[], ''.'', ''..''}"
    then have "\<forall>w \<in> set (split_char (CHR ''/'') n). proper_name w"
      using split_by_no_sep [of _ "\<lambda>x. x = CHR ''/''" n] by (fastforce simp: proper_name_def)
    then show "\<exists>ws. ws \<noteq> [] \<and> (\<forall>w \<in> set ws. proper_name w) \<and> n = join_with ''/'' ws"
      by (metis join_split_char split_by_not_Nil)
  next
    assume "\<exists>ws. ws \<noteq> [] \<and> (\<forall>w \<in> set ws. proper_name w) \<and> n = join_with ''/'' ws"
    then obtain ws where ws: "ws \<noteq> []" "\<forall>w \<in> set ws. proper_name w" "n = join_with ''/'' ws" by blast
    then have "split_char (CHR ''/'') n = ws"
      unfolding ws(3) by (intro split_char_join) (simp_all add: proper_name_def)
    then show "\<forall>w \<in> set (split_char (CHR ''/'') n). w \<notin> {[], ''.'', ''..''}"
      using ws(2) by (simp add: proper_name_def)
  qed
  finally show ?thesis .
qed

lemma archive_parts_ok:
  "archive_parts whole p = Inr parts \<Longrightarrow> p = map Normal parts \<and> (\<forall>s \<in> set parts. CHR 0x5C \<notin> set s)"
  by (induction whole p arbitrary: parts rule: archive_parts.induct)
     (auto simp: and_then_Inr_iff contains_single split: component.splits if_splits)

text \<open>
  C36: an accepted name of a JAR entry is kept as it is and denotes a path below
  the directory it is extracted to; and the name made of a relative path of a build is accepted
  and denotes this path.
\<close>
theorem entry_names_safe:
  "(safe_zip_name n = Inr m \<longrightarrow> m = n \<and> path_of n \<noteq> [] \<and> stays_inside (path_of n)) \<and>
   ((\<forall>s \<in> set names. proper_name s) \<and> archive_name (map Normal names) = Inr n \<longrightarrow>
      safe_zip_name n = Inr n \<and> path_of n = map Normal names)"
proof (intro conjI impI)
  assume safe: "safe_zip_name n = Inr m"
  then obtain ws where "ws \<noteq> []" "\<forall>w \<in> set ws. proper_name w" "n = join_with ''/'' ws"
    by (auto simp: safe_zip_name_iff)
  from path_of_joined [OF this(1,2)] this
  show "m = n" "path_of n \<noteq> []" "stays_inside (path_of n)"
    using safe by (auto simp: safe_zip_name_iff stays_inside_def is_absolute_def hd_map)
next
  assume "(\<forall>s \<in> set names. proper_name s) \<and> archive_name (map Normal names) = Inr n"
  then have names: "names \<noteq> []" "\<forall>s \<in> set names. proper_name s" "n = join_with ''/'' names"
    "\<forall>s \<in> set names. CHR 0x5C \<notin> set s"
    using archive_parts_ok inj_map_eq_map [of Normal]
    by (fastforce simp: archive_name_def and_then_Inr_iff inj_def split: if_splits)+
  then have "CHR 0x5C \<notin> set n" using set_join_with [of "''/''" names] by fastforce
  with names show "safe_zip_name n = Inr n" "path_of n = map Normal names"
    by (auto simp: safe_zip_name_iff path_of_joined)
qed

theorem entry_names_safe_witness:
  "path_of ''a/b.class'' = [Normal ''a'', Normal ''b.class''] \<and> stays_inside (path_of ''a/b.class'')"
proof -
  have "archive_name (map Normal [''a'', ''b.class'']) = Inr ''a/b.class''" by code_simp
  moreover have "\<forall>s \<in> set [''a'', ''b.class'']. proper_name s" by (simp add: proper_name_def)
  ultimately show ?thesis using entry_names_safe by fastforce
qed

end
