(* ===== verification/Property_Facts.thy ===== *)
theory Property_Facts
  imports Archive_Facts
begin

text \<open>
  What the merge of property resources keeps: what was parsed and written is parsed again
  unchanged, unless an escaped space ends a key or a value; and two inputs that show where the
  continuation of lines loses properties.
\<close>

section \<open>Keys and escapes\<close>

text \<open>Whether the character after a text is escaped.\<close>

fun escaped_after :: "bool \<Rightarrow> str \<Rightarrow> bool" where
  "escaped_after e [] = e"
| "escaped_after e (c # s) = escaped_after (\<not> e \<and> c = CHR 0x5C) s"

lemma escaped_after_append: "escaped_after e (s @ t) = escaped_after (escaped_after e s) t"
  by (induction e s rule: escaped_after.induct) auto

lemma trailing_slashes_simps [simp]:
  "trailing_slashes [] = 0"
  "trailing_slashes (s @ [c]) = (if c = CHR 0x5C then Suc (trailing_slashes s) else 0)"
  by (simp_all add: trailing_slashes_def)

lemma escaped_after_odd: "escaped_after False s \<longleftrightarrow> odd (trailing_slashes s)"
  by (induction s rule: rev_induct) (auto simp: escaped_after_append)

lemma split_key_append:
  "split_key e s = None \<Longrightarrow>
     split_key e (s @ t) = map_option (\<lambda>(k, r). (s @ k, r)) (split_key (escaped_after e s) t)"
proof (induction e s rule: split_key.induct)
  case (1 e)
  then show ?case by (simp add: option.map_id0 case_prod_unfold option.map_ident)
next
  case (2 e c s)
  then show ?case
    by (auto simp: option.map_comp comp_def case_prod_unfold split: if_splits)
qed

lemma split_key_prefix: "split_key e (s @ t) = None \<Longrightarrow> split_key e s = None"
  by (induction e s rule: split_key.induct) (auto split: if_splits)

lemma split_key_Some:
  "split_key e s = Some (k, c, r) \<Longrightarrow>
     s = k @ c # r \<and> split_key e k = None \<and> \<not> escaped_after e k \<and> (c = CHR ''='' \<or> c = CHR '':'' \<or> is_space c)"
  by (induction e s arbitrary: k rule: split_key.induct) (auto split: if_splits)

lemma backslash_no_separator: "\<not> is_space (CHR 0x5C)"
  by (simp add: is_space_def byte_def)

section \<open>Entries that survive\<close>

definition entry_ok :: "str \<times> str \<Rightarrow> bool" where
  "entry_ok = (\<lambda>(k, v).
     k \<noteq> [] \<and> trimmed k \<and> trimmed v \<and> \<not> starts_with ''#'' k \<and> \<not> starts_with ''!'' k \<and>
     CHR 0x0A \<notin> set k \<union> set v \<and> utf8_valid k \<and> utf8_valid v \<and> split_key False k = None)"

definition unescaped :: "str \<times> str \<Rightarrow> bool" where
  "unescaped = (\<lambda>(k, v). even (trailing_slashes k) \<and> even (trailing_slashes v))"

lemma trim_prefix_suffix: "\<exists>u w. s = u @ trim s @ w \<and> (\<forall>c \<in> set u \<union> set w. is_space c)"
proof -
  have a: "s = takeWhile is_space s @ trim_start s" by (simp add: trim_start_def)
  have "rev (trim_start s) = takeWhile is_space (rev (trim_start s)) @ dropWhile is_space (rev (trim_start s))"
    by simp
  then have "trim_start s = trim s @ rev (takeWhile is_space (rev (trim_start s)))"
    unfolding trim_def trim_end_def by (metis rev_append rev_rev_ident)
  with a have "s = takeWhile is_space s @ trim s @ rev (takeWhile is_space (rev (trim_start s)))" by simp
  then show ?thesis by (intro exI) (auto dest: set_takeWhileD)
qed

lemma trim_end_suffix: "\<exists>w. s = trim_end s @ w \<and> (\<forall>c \<in> set w. is_space c)"
proof -
  have "rev s = takeWhile is_space (rev s) @ dropWhile is_space (rev s)" by simp
  then have "s = trim_end s @ rev (takeWhile is_space (rev s))"
    unfolding trim_end_def by (metis rev_append rev_rev_ident)
  then show ?thesis by (intro exI) (auto dest: set_takeWhileD)
qed

lemma trim_end_last: "trim_end s \<noteq> [] \<Longrightarrow> \<not> is_space (last (trim_end s))"
  using dropWhile_hd [of is_space "rev s"] by (simp add: trim_end_def last_rev)

lemma utf8_valid_trim_end: "utf8_valid s \<Longrightarrow> utf8_valid (trim_end s)"
  unfolding trim_end_def by (intro utf8_valid_drop_end utf8_valid_space)

lemma utf8_valid_trim_start: "utf8_valid s \<Longrightarrow> utf8_valid (trim_start s)"
  unfolding trim_start_def by (intro utf8_valid_dropWhile utf8_valid_space)

lemma parsed_entry_ok:
  assumes "parse_property_entry raw source name = Inr (Some (k, v))"
    and "CHR 0x0A \<notin> set raw" "utf8_valid raw" "even (trailing_slashes k)"
  shows "entry_ok (k, v)"
proof -
  let ?line = "trim raw"
  from assms(1) obtain before c rest where
    line: "?line \<noteq> []" "\<not> starts_with ''#'' ?line" "\<not> starts_with ''!'' ?line"
    and split: "split_key False ?line = Some (before, c, rest)"
    and k: "k = trim_end before" "k \<noteq> []"
    and v: "v = trim (if is_space c
        then (let v = trim_start rest in if starts_with ''='' v \<or> starts_with '':'' v then tl v else v)
        else rest)"
    by (auto simp: parse_property_entry_def Let_def split: option.splits if_splits)
  from split_key_Some [OF split] have
    eq: "?line = before @ c # rest" and none: "split_key False before = None"
    and c: "c = CHR ''='' \<or> c = CHR '':'' \<or> is_space c" by auto
  have ascii: "byte c < 128" using c utf8_valid_space by (auto simp: byte_def)
  have "utf8_valid ?line" using assms(3) by (rule utf8_valid_trim)
  then have valid: "utf8_valid before" "utf8_valid rest"
    using utf8_valid_cut ascii unfolding eq by blast+
  have newline: "CHR 0x0A \<notin> set ?line" using assms(2) set_trim by blast
  obtain w where w: "before = k @ w" "\<forall>x \<in> set w. is_space x"
    using trim_end_suffix [of before] k(1) by auto
  have knone: "split_key False k = None" using none w(1) split_key_prefix by blast
  have "w = []"
  proof (cases w)
    case (Cons x xs)
    have "split_key (escaped_after False k) w = Some ([], x, xs)"
      using Cons w(2) assms(4) backslash_no_separator by (auto simp: escaped_after_odd)
    then have "split_key False before \<noteq> None"
      using split_key_append [OF knone, of w] w(1) by simp
    then show ?thesis using none by simp
  qed simp
  then have kb: "before = k" using w by simp
  have hd: "hd ?line = hd k" using eq kb k(2) by (cases k) auto
  have "\<not> is_space (hd ?line)" using trimmed_trim [of raw] line(1) by (simp add: trimmed_def)
  then have "trimmed k" using hd k(1,2) trim_end_last [of before] by (simp add: trimmed_def)
  moreover have "\<not> starts_with ''#'' k" "\<not> starts_with ''!'' k"
    using line(2,3) eq kb k(2) by (cases k; simp)+
  moreover have "utf8_valid v"
  proof -
    have start: "utf8_valid (trim_start rest)" using valid(2) by (rule utf8_valid_trim_start)
    have "utf8_valid (tl (trim_start rest))"
      if "starts_with ''='' (trim_start rest) \<or> starts_with '':'' (trim_start rest)"
    proof -
      from that obtain d r where "trim_start rest = d # r" "byte d < 128"
        by (auto simp: starts_with_iff byte_def)
      then show ?thesis using start by (simp add: utf8_valid_ascii_Cons)
    qed
    then show ?thesis unfolding v using start valid(2) by (auto simp: Let_def intro!: utf8_valid_trim)
  qed
  moreover have "CHR 0x0A \<notin> set v"
  proof -
    have start: "set (trim_start rest) \<subseteq> set rest"
      by (auto simp: trim_start_def dest: set_dropWhileD)
    have "set (tl (trim_start rest)) \<subseteq> set (trim_start rest)" by (cases "trim_start rest") auto
    then obtain x where "v = trim x" "set x \<subseteq> set rest"
      using v start by (auto simp: Let_def split: if_splits)
    then have "set v \<subseteq> set rest" using set_trim by blast
    then show ?thesis using newline eq by auto
  qed
  moreover have "CHR 0x0A \<notin> set k" using newline eq kb by auto
  moreover have "utf8_valid k" using valid(1) kb by simp
  ultimately show ?thesis using k(2) knone trimmed_trim v by (auto simp: entry_ok_def)
qed

lemma even_butlast: "odd (trailing_slashes s) \<Longrightarrow> \<exists>r. s = r @ [CHR 0x5C]"
  by (cases s rule: rev_cases) (auto split: if_splits)

lemma set_trim_start: "set (trim_start s) \<subseteq> set s"
  by (auto simp: trim_start_def dest: set_dropWhileD)

lemma property_loop_ok:
  assumes "property_loop source name ls logical es = Inr (es', logical')"
    and "\<forall>l \<in> set ls. CHR 0x0A \<notin> set l \<and> utf8_valid l" "CHR 0x0A \<notin> set logical" "utf8_valid logical"
    and "\<forall>e \<in> set es. even (trailing_slashes (fst e)) \<longrightarrow> entry_ok e"
  shows "\<forall>e \<in> set es'. even (trailing_slashes (fst e)) \<longrightarrow> entry_ok e"
  using assms
proof (induction source name ls logical es rule: property_loop.induct)
  case (2 source name physical rest logical es)
  let ?l = "if logical = [] then physical else logical @ trim_start physical"
  have l: "CHR 0x0A \<notin> set ?l" "utf8_valid ?l"
    using "2.prems"(2-4) set_trim_start [of physical]
    by (auto simp: utf8_valid_append utf8_valid_trim_start)
  show ?case
  proof (cases "odd (trailing_slashes ?l)")
    case True
    then obtain r where r: "?l = r @ [CHR 0x5C]" using even_butlast by blast
    then have "CHR 0x0A \<notin> set (butlast ?l)" "utf8_valid (butlast ?l)"
      using l utf8_valid_cut [of r "CHR 0x5C" "[]"] by (auto simp: byte_def)
    then show ?thesis using "2.IH"(1) [OF refl True] "2.prems" True by (simp add: Let_def)
  next
    case False
    show ?thesis
    proof (cases "parse_property_entry ?l source name")
      case (Inr m)
      show ?thesis
      proof (cases m)
        case None
        then show ?thesis using "2.IH"(2) [OF refl False Inr None] "2.prems" False Inr
          by (simp add: Let_def)
      next
        case (Some e)
        have "even (trailing_slashes (fst e)) \<longrightarrow> entry_ok e"
          using parsed_entry_ok [of ?l source name "fst e" "snd e"] Inr Some l by auto
        then show ?thesis using "2.IH"(3) [OF refl False Inr Some] "2.prems" False Inr Some
          by (simp add: Let_def)
      qed
    qed (use "2.prems" False in \<open>simp add: Let_def\<close>)
  qed
qed simp

lemma property_entries_ok:
  assumes "property_entries bytes source name = Inr es" "e \<in> set es" "unescaped e"
  shows "entry_ok e"
proof -
  obtain logical where "property_loop source name (str_lines (utf8_lossy bytes)) [] [] = Inr (es, logical)"
    using assms(1) by (auto simp: property_entries_def and_then_Inr_iff split: if_splits)
  from property_loop_ok [OF this] show ?thesis
    using assms(2,3) set_str_lines utf8_valid_str_lines [OF utf8_lossy_is_valid]
    by (auto simp: unescaped_def split: prod.splits)
qed

text \<open>The line of an entry is complete and is parsed to the entry.\<close>

lemma trailing_slashes_stop: "c \<noteq> CHR 0x5C \<Longrightarrow> trailing_slashes (s @ c # t) = trailing_slashes t"
  by (induction t rule: rev_induct) (simp_all flip: append_assoc append_Cons)

lemma rendered_entry:
  assumes "entry_ok (k, v)" "unescaped (k, v)"
  shows "parse_property_entry (k @ ''='' @ v) source name = Inr (Some (k, v))"
    and "even (trailing_slashes (k @ ''='' @ v))"
    and "CHR 0x0A \<notin> set (k @ ''='' @ v)" "utf8_valid (k @ ''='' @ v)" "strip_cr (k @ ''='' @ v) = k @ ''='' @ v"
proof -
  let ?l = "k @ ''='' @ v"
  have k: "k \<noteq> []" "trimmed k" "trimmed v" and none: "split_key False k = None"
    and even: "even (trailing_slashes k)" "even (trailing_slashes v)"
    using assms by (auto simp: entry_ok_def unescaped_def)
  have eq: "\<not> is_space (CHR ''='')" by (simp add: is_space_def byte_def)
  have "last ?l = (if v = [] then CHR ''='' else last v)" by simp
  then have trimmed: "trimmed ?l" using k eq by (auto simp: trimmed_def)
  have split: "split_key False ?l = Some (k, CHR ''='', v)"
    using split_key_append [OF none, of "''='' @ v"] even(1) by (simp add: escaped_after_odd)
  have "\<not> starts_with ''#'' ?l" "\<not> starts_with ''!'' ?l"
    using assms(1) k(1) by (cases k; auto simp: entry_ok_def)+
  moreover have "trim_end k = k"
  proof -
    have rev: "rev k = last k # rev (butlast k)" using k(1) by (simp add: rev_eq_Cons_iff)
    have "\<not> is_space (last k)" using k(1,2) by (simp add: trimmed_def)
    then have "dropWhile is_space (rev k) = rev k" unfolding rev by simp
    then show ?thesis by (simp add: trim_end_def)
  qed
  ultimately show "parse_property_entry ?l source name = Inr (Some (k, v))"
    using trim_trimmed [OF trimmed] trim_trimmed [OF k(3)] split k(1) eq
    by (simp add: parse_property_entry_def)
  show "even (trailing_slashes ?l)" using even(2) trailing_slashes_stop [of "CHR ''=''" k v] by simp
  show "CHR 0x0A \<notin> set ?l" "utf8_valid ?l"
    using assms(1) by (auto simp: entry_ok_def utf8_valid_append utf8_valid_ascii_Cons byte_def)
  show "strip_cr ?l = ?l" by (rule trimmed_no_cr [OF trimmed])
qed

lemma rendered_loop:
  assumes "\<forall>e \<in> set es. entry_ok e \<and> unescaped e"
  shows "property_loop source name (map (\<lambda>(k, v). k @ ''='' @ v) es) [] done =
    Inr (done @ es, [])"
  using assms
proof (induction es arbitrary: "done")
  case (Cons e es)
  obtain k v where e: "e = (k, v)" by (cases e)
  have "entry_ok (k, v)" "unescaped (k, v)" using Cons.prems e by auto
  from rendered_entry(1,2) [OF this] show ?case using Cons e by (simp add: Let_def)
qed simp

lemma concat_lines: "ls \<noteq> [] \<Longrightarrow> concat (map (\<lambda>l. l @ newline) ls) = join_with newline ls @ newline"
  by (induction "newline" ls rule: join_with.induct) auto

lemma render_properties_lines:
  assumes "\<forall>e \<in> set es. entry_ok e \<and> unescaped e"
  shows "str_lines (utf8_lossy (render_properties es)) =
    ''# Merged by JMAN'' # map (\<lambda>(k, v). k @ ''='' @ v) es"
proof -
  let ?ls = "''# Merged by JMAN'' # map (\<lambda>(k, v). k @ ''='' @ v) es"
  have comment: "CHR 0x0A \<notin> set ''# Merged by JMAN''" "strip_cr ''# Merged by JMAN'' = ''# Merged by JMAN''"
    "utf8_valid ''# Merged by JMAN''" by code_simp+
  have "\<forall>l \<in> set ?ls. CHR 0x0A \<notin> set l \<and> strip_cr l = l \<and> utf8_valid l"
    using assms rendered_entry(3-5) comment by fastforce
  moreover have "render_properties es = join_with newline ?ls @ newline"
  proof -
    have "concat (map (\<lambda>(k, v). k @ ''='' @ v @ newline) es) =
        concat (map (\<lambda>l. l @ newline) (map (\<lambda>(k, v). k @ ''='' @ v) es))"
      by (simp add: comp_def case_prod_unfold)
    then show ?thesis using concat_lines [of ?ls] by (simp add: render_properties_def)
  qed
  moreover have "utf8_valid newline" by (simp add: newline_def utf8_valid_ascii_Cons byte_def)
  ultimately have "utf8_valid (render_properties es)"
    by (metis utf8_valid_append utf8_valid_join)
  then show ?thesis
    using lines_rendered [of ?ls] \<open>\<forall>l \<in> set ?ls. _\<close> \<open>render_properties es = _\<close>
    by (simp add: utf8_lossy_valid)
qed

text \<open>
  C38: the entries that were parsed from a properties resource and that do not
  end a key or a value with an escaped space are written by the merge such that the next merge
  parses exactly these entries again.
\<close>
theorem properties_round_trip:
  assumes "property_entries bytes source name = Inr es"
    and "\<forall>(k, v) \<in> set es. even (trailing_slashes k) \<and> even (trailing_slashes v)"
  shows "property_entries (render_properties es) source' name' = Inr es"
proof -
  have ok: "\<forall>e \<in> set es. entry_ok e \<and> unescaped e"
    using assms property_entries_ok by (fastforce simp: unescaped_def)
  have "parse_property_entry ''# Merged by JMAN'' source' name' = Inr None"
    "trailing_slashes ''# Merged by JMAN'' = 0"
    by (simp add: parse_property_entry_def trim_trimmed trimmed_def is_space_def byte_def,
        simp add: trailing_slashes_def)
  then have "property_loop source' name'
      (''# Merged by JMAN'' # map (\<lambda>(k, v). k @ ''='' @ v) es) [] [] = Inr (es, [])"
    using rendered_loop [OF ok, of source' name' "[]"] by (simp add: Let_def)
  then show ?thesis by (simp add: property_entries_def render_properties_lines [OF ok])
qed

theorem properties_round_trip_witness:
  "property_entries (render_properties [(''a'', ''1''), (''b'', ''c:d'')]) ''x'' ''y'' =
     Inr [(''a'', ''1''), (''b'', ''c:d'')]"
proof -
  have "property_entries (''a : 1'' @ newline @ ''#c'' @ newline @ ''b=c:d'') [] [] =
      Inr [(''a'', ''1''), (''b'', ''c:d'')]" by code_simp
  from properties_round_trip [OF this] show ?thesis by (simp add: trailing_slashes_def)
qed

text \<open>
  A comment line with an odd number of backslashes at its end swallows the
  line after it, whatever property this line defines.
\<close>

theorem comment_swallows_line:
  assumes "odd (trailing_slashes c)"
    and "even (trailing_slashes (butlast (CHR ''#'' # c) @ trim_start line))"
  shows "property_loop source name ((CHR ''#'' # c) # line # rest) [] entries =
    property_loop source name rest [] entries"
proof -
  have slashes: "trailing_slashes (CHR ''#'' # c) = trailing_slashes c" by (simp add: trailing_slashes_def takeWhile_append takeWhile_eq_all_conv [THEN iffD2])
  have ne: "c \<noteq> []" using assms(1) by (auto simp: trailing_slashes_def)
  then have joined: "butlast (CHR ''#'' # c) @ trim_start line = CHR ''#'' # butlast c @ trim_start line" by simp
  have "parse_property_entry (CHR ''#'' # butlast c @ trim_start line) source name = Inr None"
  proof -
    have "\<not> is_space (CHR ''#'')" by (simp add: is_space_def byte_def)
    then have "\<exists>w. trim (CHR ''#'' # u) = CHR ''#'' # w" for u
      by (simp add: trim_def trim_start_def trim_end_def dropWhile_append) (metis rev_rev_ident)
    then obtain w where "trim (CHR ''#'' # butlast c @ trim_start line) = CHR ''#'' # w" by blast
    then show ?thesis by (simp add: parse_property_entry_def)
  qed
  then show ?thesis using assms ne unfolding joined by (simp add: slashes Let_def)
qed

text \<open>
  A comment line that ends with a backslash swallows the property
  on the next line, and a value that ends with an escaped space is written without it, so that the
  next merge joins the following property to it: three JARs that define a, c and e leave a file
  that defines only a and e.
\<close>
theorem continuations_lose_properties:
  "property_entries (''# note '' @ [CHR 0x5C] @ newline @ ''key=v'') source name = Inr [] \<and>
   (let first = ''a=b'' @ [CHR 0x5C, CHR '' ''] @ newline @ ''c=d'';
        merged = and_then (merge_entries empty_archive
          [(''META-INF/spring.schemas'', first, ''x''), (''META-INF/spring.schemas'', ''e=f'', ''y'')])
          (\<lambda>a. Inr (existing_bytes a ''META-INF/spring.schemas''))
    in merged = Inr (''# Merged by JMAN'' @ newline @ ''a=bc=d'' @ newline @ ''e=f'' @ newline))"
  by code_simp

end
