(* ===== verification/Jdk_Catalog.thy ===== *)
theory Jdk_Catalog
  imports Build_Modules Rust_Num "HOL-Library.Product_Lexorder"
begin

text \<open>
  The catalog of Java distributions: \<open>crates/jman-build/src/toolchain/catalog.rs\<close> (the data, the
  contract of a provider, the hosts that may be downloaded from) and \<open>catalog/foojay.rs\<close> (the
  provider that asks the Foojay service and translates its names and versions), with the version
  keys of \<open>toolchain.rs\<close>. Sending requests, decoding JSON and parsing URLs are parameters.
\<close>

section \<open>Versions\<close>

text \<open>The numbers of a version: four of its core, then those after the plus sign.\<close>

definition version_numbers :: "str \<Rightarrow> nat list" where
  "version_numbers s =
     List.map_filter parse_u32 (filter (\<lambda>p. p \<noteq> []) (split_by (\<lambda>c. \<not> is_digit c) s))"

definition version_key :: "str \<Rightarrow> nat list" where
  "version_key value =
     (let (core, suffix) = (case split_once (CHR ''+'') value of Some cs \<Rightarrow> cs | None \<Rightarrow> (value, []))
      in take 4 (version_numbers core @ replicate 4 0) @ version_numbers suffix)"

text \<open>\<open>{:02}\<close>.\<close>

definition show_two :: "nat \<Rightarrow> str" where
  "show_two n = (if n < 10 then CHR ''0'' # show_nat n else show_nat n)"

section \<open>The catalog\<close>

record catalog_validators =
  va_etag :: "str option"
  va_last_modified :: "str option"

record catalog_release =
  cr_vendor :: str
  cr_version :: str
  cr_major :: "16 word"
  cr_lts :: bool
  cr_os :: str
  cr_architecture :: str
  cr_archive_type :: str
  cr_filename :: str
  cr_source_id :: str

text \<open>The parts of a parsed URL that are looked at, and its text.\<close>

record url =
  ur_text :: str
  ur_scheme :: str
  ur_port :: "nat option"
  ur_username :: str
  ur_password :: "str option"
  ur_host :: "str option"
  ur_path :: str

record resolved_artifact =
  ra_release :: catalog_release
  ra_url :: url
  ra_checksum :: str

datatype provider_catalog =
    NotModified
  | Modified catalog_validators "catalog_release list"

record jdk_platform =
  jp_os :: str
  jp_architecture :: str
  jp_libc :: str
  jp_archive_type :: str

record jdk_provider =
  jv_id :: str
  jv_fetch :: "jdk_platform \<Rightarrow> catalog_validators option \<Rightarrow> provider_catalog built"
  jv_resolve :: "jdk_platform \<Rightarrow> str \<Rightarrow> str \<Rightarrow> bool \<Rightarrow> resolved_artifact built"

text \<open>Newest first within a vendor.\<close>

definition release_order :: "catalog_release \<Rightarrow> catalog_release \<Rightarrow> cmp_result" where
  "release_order a b =
     then_cmp (ord_cmp (cr_vendor a) (cr_vendor b))
       (ord_cmp (unat (cr_major b), version_key (cr_version b))
                (unat (cr_major a), version_key (cr_version a)))"

section \<open>Trusted downloads\<close>

datatype url_stage = InitialUrl | RedirectUrl

definition github_org :: "str \<Rightarrow> str option" where
  "github_org vendor =
     (if vendor = ''temurin'' then Some ''adoptium''
      else if vendor \<in> {''adoptopenjdk'', ''adoptopenjdk-openj9''} then Some ''adoptopenjdk''
      else if vendor = ''dragonwell'' then Some ''dragonwell-project''
      else if vendor = ''eliya'' then Some ''asymmsystems''
      else if vendor = ''gluon-graalvm'' then Some ''gluonhq''
      else if vendor \<in> {''graalvm-community'', ''graalvm-ce-8'', ''graalvm-ce-11'', ''graalvm-ce-16'',
                        ''graalvm-ce-17'', ''graalvm-ce-19'', ''mandrel''} then Some ''graalvm''
      else if vendor = ''kona'' then Some ''tencent''
      else if vendor \<in> {''liberica'', ''liberica-native''} then Some ''bell-sw''
      else if vendor = ''sapmachine'' then Some ''sap''
      else if vendor \<in> {''semeru'', ''semeru-certified''} then Some ''ibmruntimes''
      else if vendor = ''trava'' then Some ''travaopenjdk''
      else None)"

definition trusted_host :: "str \<Rightarrow> url_stage \<Rightarrow> str \<Rightarrow> bool" where
  "trusted_host vendor stage host \<longleftrightarrow>
     (if vendor = ''bisheng'' then host = ''mirror.iscas.ac.cn''
      else if vendor = ''corretto'' then host = ''corretto.aws'' \<or> ends_with ''.amazonaws.com'' host
      else if vendor = ''graalvm''
           then host \<in> {''gds.oracle.com'', ''download.oracle.com'', ''objectstorage.oraclecloud.com''} \<or>
                starts_with ''objectstorage.'' host \<and> ends_with ''.oraclecloud.com'' host
      else if vendor = ''jetbrains''
           then host \<in> {''cache-redirector.jetbrains.com'', ''download.jetbrains.com''} \<or>
                stage = RedirectUrl \<and> ends_with ''.cloudfront.net'' host
      else if vendor = ''microsoft''
           then host \<in> {''aka.ms'', ''download.visualstudio.microsoft.com''} \<or>
                ends_with ''.blob.core.windows.net'' host
      else if vendor = ''openlogic'' then host = ''builds.openlogic.com''
      else if vendor = ''openjdk'' then host = ''download.java.net''
      else if vendor = ''oracle'' then host = ''download.oracle.com''
      else if vendor \<in> {''zulu'', ''zulu-prime''} then host = ''cdn.azul.com''
      else False)"

definition untrusted_url :: "str \<Rightarrow> url \<Rightarrow> str \<Rightarrow> build_error" where
  "untrusted_url vendor u reason =
     Invalid (''refusing untrusted '' @ vendor @ '' JDK download URL `'' @ ur_text u @ ''`: '' @ reason)"

definition github_trusted :: "str \<Rightarrow> url_stage \<Rightarrow> str \<Rightarrow> str \<Rightarrow> bool" where
  "github_trusted vendor stage host path \<longleftrightarrow>
     (case github_org vendor of
        None \<Rightarrow> False
      | Some org \<Rightarrow>
          host = ''github.com'' \<and> starts_with (''/'' @ org @ ''/'') path \<or>
          stage = RedirectUrl \<and>
            host \<in> {''release-assets.githubusercontent.com'', ''objects.githubusercontent.com''})"

definition validate_download_url :: "str \<Rightarrow> url \<Rightarrow> url_stage \<Rightarrow> unit built" where
  "validate_download_url vendor u stage =
     (if ur_scheme u \<noteq> ''https'' then Inl (untrusted_url vendor u ''HTTPS is required'')
      else if ur_port u \<noteq> Some 443 then Inl (untrusted_url vendor u ''HTTPS must use port 443'')
      else if ur_username u \<noteq> [] \<or> ur_password u \<noteq> None
           then Inl (untrusted_url vendor u ''credentials are not allowed'')
      else (case map_option lowercase (ur_host u) of
              None \<Rightarrow> Inl (untrusted_url vendor u ''URL has no host'')
            | Some host \<Rightarrow>
                if github_trusted vendor stage host (lowercase (ur_path u)) \<or>
                   trusted_host vendor stage host
                then Inr ()
                else Inl (untrusted_url vendor u ''host is not approved for this distribution'')))"

section \<open>The Foojay provider\<close>

record foojay_package =
  fp_id :: str
  fp_archive_type :: str
  fp_distribution :: str
  fp_major_version :: "16 word"
  fp_java_version :: str
  fp_release_status :: str
  fp_term_of_support :: str
  fp_operating_system :: str
  fp_lib_c_type :: str
  fp_architecture :: str
  fp_package_type :: str
  fp_javafx_bundled :: bool
  fp_directly_downloadable :: bool
  fp_filename :: str
  fp_free_use_in_production :: bool

record foojay_package_info =
  fi_direct_download_uri :: str
  fi_checksum :: str
  fi_checksum_type :: str

text \<open>The names of the distributions, translated in both directions by two tables.\<close>

definition canonical_table :: "(str \<times> str) list" where
  "canonical_table =
     [(''aoj'', ''adoptopenjdk''), (''aoj_openj9'', ''adoptopenjdk-openj9''), (''bisheng'', ''bisheng''),
      (''corretto'', ''corretto''), (''dragonwell'', ''dragonwell''), (''eliya'', ''eliya''),
      (''gluon_graalvm'', ''gluon-graalvm''), (''graalvm'', ''graalvm''),
      (''graalvm_community'', ''graalvm-community''), (''graalvm_ce8'', ''graalvm-ce-8''),
      (''graalvm_ce11'', ''graalvm-ce-11''), (''graalvm_ce16'', ''graalvm-ce-16''),
      (''graalvm_ce17'', ''graalvm-ce-17''), (''graalvm_ce19'', ''graalvm-ce-19''),
      (''jetbrains'', ''jetbrains''), (''kona'', ''kona''), (''liberica'', ''liberica''),
      (''liberica_native'', ''liberica-native''), (''mandrel'', ''mandrel''), (''microsoft'', ''microsoft''),
      (''openlogic'', ''openlogic''), (''oracle'', ''oracle''), (''oracle_open_jdk'', ''openjdk''),
      (''sap_machine'', ''sapmachine''), (''semeru'', ''semeru''), (''semeru_certified'', ''semeru-certified''),
      (''temurin'', ''temurin''), (''trava'', ''trava''), (''zulu'', ''zulu''), (''zulu_prime'', ''zulu-prime'')]"

definition provider_table :: "(str \<times> str) list" where
  "provider_table =
     [(''adoptopenjdk'', ''aoj''), (''adoptopenjdk-openj9'', ''aoj_openj9''), (''bisheng'', ''bisheng''),
      (''corretto'', ''corretto''), (''dragonwell'', ''dragonwell''), (''eliya'', ''eliya''),
      (''gluon-graalvm'', ''gluon_graalvm''), (''graalvm'', ''graalvm''),
      (''graalvm-community'', ''graalvm_community''), (''graalvm-ce-8'', ''graalvm_ce8''),
      (''graalvm-ce-11'', ''graalvm_ce11''), (''graalvm-ce-16'', ''graalvm_ce16''),
      (''graalvm-ce-17'', ''graalvm_ce17''), (''graalvm-ce-19'', ''graalvm_ce19''),
      (''jetbrains'', ''jetbrains''), (''kona'', ''kona''), (''liberica'', ''liberica''),
      (''liberica-native'', ''liberica_native''), (''mandrel'', ''mandrel''), (''microsoft'', ''microsoft''),
      (''openlogic'', ''openlogic''), (''oracle'', ''oracle''), (''openjdk'', ''oracle_open_jdk''),
      (''sapmachine'', ''sap_machine''), (''semeru'', ''semeru''), (''semeru-certified'', ''semeru_certified''),
      (''temurin'', ''temurin''), (''trava'', ''trava''), (''zulu'', ''zulu''), (''zulu-prime'', ''zulu_prime'')]"

definition canonical_distribution :: "str \<Rightarrow> str option" where
  "canonical_distribution value = map_of canonical_table value"

definition provider_distribution :: "str \<Rightarrow> str option" where
  "provider_distribution value = map_of provider_table value"

definition provider_os :: "str \<Rightarrow> str" where
  "provider_os value = (if value = ''mac'' then ''macos'' else value)"

definition provider_arch :: "str \<Rightarrow> str" where
  "provider_arch value = value"

definition normalize_os :: "str \<Rightarrow> str option" where
  "normalize_os value =
     (if value = ''macos'' then Some ''mac''
      else if value \<in> {''linux'', ''windows''} then Some value else None)"

definition normalize_arch :: "str \<Rightarrow> str option" where
  "normalize_arch value =
     (if value \<in> {''x64'', ''amd64'', ''x86-64''} then Some ''x64''
      else if value \<in> {''aarch64'', ''arm64''} then Some ''aarch64''
      else if value = ''arm'' then Some ''arm''
      else if value \<in> {''ppc64le'', ''ppc64el''} then Some ''ppc64le''
      else if value = ''s390x'' then Some ''s390x''
      else if value = ''riscv64'' then Some ''riscv64''
      else None)"

definition libc_matches :: "str \<Rightarrow> str \<Rightarrow> bool" where
  "libc_matches expected actual \<longleftrightarrow>
     expected = actual \<or>
     expected = ''glibc'' \<and> actual \<in> {''c_std_lib'', ''libc''} \<or>
     expected = ''libc'' \<and> actual \<in> {''c_std_lib'', ''glibc''}"

text \<open>Versions of Java 8 are written \<open>8u504-b01\<close>; the service calls them \<open>8.0.504+1\<close>.\<close>

definition normalize_version :: "str \<Rightarrow> 16 word \<Rightarrow> str" where
  "normalize_version version major =
     (let numbers = version_key version
      in if major = 8 \<and> length numbers \<ge> 3 \<and> numbers ! 0 = 8 \<and> numbers ! 1 = 0
         then (if length numbers > 4
               then ''8u'' @ show_nat (numbers ! 2) @ ''-b'' @ show_two (numbers ! 4)
               else ''8u'' @ show_nat (numbers ! 2))
         else version)"

definition split_build :: "str \<Rightarrow> str \<times> str" where
  "split_build s =
     (case find_sub ''-b'' s of Some i \<Rightarrow> (take i s, drop (i + 2) s) | None \<Rightarrow> (s, []))"

definition provider_version :: "str \<Rightarrow> str" where
  "provider_version version =
     (case strip_prefix ''8u'' version of
        None \<Rightarrow> version
      | Some rest \<Rightarrow>
          (let (update, build) = split_build rest;
               number = dropWhile (\<lambda>c. c = CHR ''0'') build
           in if build = [] then ''8.0.'' @ update
              else ''8.0.'' @ update @ ''+'' @ (if number = [] then ''0'' else number)))"

definition wanted_package :: "jdk_platform \<Rightarrow> foojay_package \<Rightarrow> bool" where
  "wanted_package pf p \<longleftrightarrow>
     \<not> (fp_package_type p \<noteq> ''jdk'' \<or> fp_release_status p \<noteq> ''ga'' \<or> \<not> fp_directly_downloadable p \<or>
        fp_javafx_bundled p \<or> \<not> fp_free_use_in_production p \<or>
        fp_archive_type p \<noteq> jp_archive_type pf \<or>
        normalize_os (fp_operating_system p) \<noteq> Some (jp_os pf) \<or>
        normalize_arch (fp_architecture p) \<noteq> Some (jp_architecture pf) \<or>
        \<not> libc_matches (jp_libc pf) (fp_lib_c_type p))"

definition release_of_package :: "jdk_platform \<Rightarrow> str \<Rightarrow> foojay_package \<Rightarrow> catalog_release" where
  "release_of_package pf vendor p =
     \<lparr>cr_vendor = vendor,
      cr_version = normalize_version (fp_java_version p) (fp_major_version p),
      cr_major = fp_major_version p, cr_lts = (fp_term_of_support p = ''lts''),
      cr_os = jp_os pf, cr_architecture = jp_architecture pf,
      cr_archive_type = fp_archive_type p, cr_filename = fp_filename p, cr_source_id = fp_id p\<rparr>"

definition add_jdk_package ::
    "jdk_platform \<Rightarrow> foojay_package \<Rightarrow> (str \<times> str, catalog_release) btree_map \<Rightarrow>
       (str \<times> str, catalog_release) btree_map" where
  "add_jdk_package pf p releases =
     (case canonical_distribution (fp_distribution p) of
        None \<Rightarrow> releases
      | Some vendor \<Rightarrow>
          if \<not> wanted_package pf p then releases
          else (let r = release_of_package pf vendor p
                in bt_or_insert (cr_vendor r, cr_version r) r releases))"

definition translate_packages :: "foojay_package list \<Rightarrow> jdk_platform \<Rightarrow> catalog_release list" where
  "translate_packages packages pf =
     sort_by release_order (map snd (fold (add_jdk_package pf) packages []))"

text \<open>
  The service: a request to the path below the API root with a query and headers, the text of a
  failed status, the JSON decoders and the URL parser.
\<close>

record http_reply =
  hp_status :: nat
  hp_header :: "str \<Rightarrow> str option"
  hp_body :: str

record foojay_api =
  fj_send :: "str list \<Rightarrow> (str \<times> str) list \<Rightarrow> (str \<times> str) list \<Rightarrow> (str, http_reply) result"
  fj_status_error :: "nat \<Rightarrow> str"
  fj_packages :: "str \<Rightarrow> (str, foojay_package list) result"
  fj_infos :: "str \<Rightarrow> (str, foojay_package_info list) result"
  fj_parse_url :: "str \<Rightarrow> (str, url) result"

definition metadata_request_error :: "str \<Rightarrow> build_error" where
  "metadata_request_error message = Invalid (''Foojay metadata request failed: '' @ message)"

text \<open>\<open>Response::error_for_status\<close>.\<close>

definition error_for_status :: "(nat \<Rightarrow> str) \<Rightarrow> http_reply \<Rightarrow> (str, http_reply) result" where
  "error_for_status describe reply =
     (if 400 \<le> hp_status reply \<and> hp_status reply < 600 then Inl (describe (hp_status reply))
      else Inr reply)"

definition package_request :: "jdk_platform \<Rightarrow> (str \<times> str) list" where
  "package_request pf =
     [(''package_type'', ''jdk''), (''directly_downloadable'', ''true''),
      (''operating_system'', provider_os (jp_os pf)), (''architecture'', provider_arch (jp_architecture pf)),
      (''archive_type'', jp_archive_type pf), (''release_status'', ''ga''), (''javafx_bundled'', ''false''),
      (''libc_type'', jp_libc pf)]"

definition conditional_headers :: "catalog_validators option \<Rightarrow> (str \<times> str) list" where
  "conditional_headers validators =
     (case Option.bind validators va_etag of Some v \<Rightarrow> [(''if-none-match'', v)] | None \<Rightarrow> []) @
     (case Option.bind validators va_last_modified of Some v \<Rightarrow> [(''if-modified-since'', v)] | None \<Rightarrow> [])"

definition foojay_fetch ::
    "foojay_api \<Rightarrow> jdk_platform \<Rightarrow> catalog_validators option \<Rightarrow> provider_catalog built" where
  "foojay_fetch api pf validators =
     and_then (map_err metadata_request_error
       (fj_send api [''packages''] (package_request pf @ [(''latest'', ''available'')])
          (conditional_headers validators))) (\<lambda>reply.
     if hp_status reply = 304 then Inr NotModified
     else and_then (map_err metadata_request_error (error_for_status (fj_status_error api) reply)) (\<lambda>reply.
          and_then (map_err (\<lambda>e. Invalid (''invalid Foojay catalog metadata: '' @ e))
            (fj_packages api (hp_body reply))) (\<lambda>packages.
          Inr (Modified \<lparr>va_etag = hp_header reply ''etag'', va_last_modified = hp_header reply ''last-modified''\<rparr>
                 (translate_packages packages pf)))))"

definition matching_release :: "str \<Rightarrow> str \<Rightarrow> bool \<Rightarrow> catalog_release \<Rightarrow> bool" where
  "matching_release vendor version exact r \<longleftrightarrow>
     cr_vendor r = vendor \<and>
     (if exact then cr_version r = version else show_nat (unat (cr_major r)) = version)"

definition newest_first :: "catalog_release \<Rightarrow> catalog_release \<Rightarrow> cmp_result" where
  "newest_first a b = ord_cmp (version_key (cr_version b)) (version_key (cr_version a))"

text \<open>A reply with a successful status, decoded.\<close>

definition decoded ::
    "foojay_api \<Rightarrow> (str \<Rightarrow> (str, 'a) result) \<Rightarrow> str \<Rightarrow> (str, http_reply) result \<Rightarrow> 'a built" where
  "decoded api decode what r =
     and_then (map_err metadata_request_error r) (\<lambda>reply.
     and_then (map_err metadata_request_error (error_for_status (fj_status_error api) reply)) (\<lambda>reply.
     map_err (\<lambda>e. Invalid (''invalid Foojay '' @ what @ '' metadata: '' @ e)) (decode (hp_body reply))))"

definition valid_checksum :: "foojay_package_info \<Rightarrow> bool" where
  "valid_checksum d \<longleftrightarrow>
     eq_ignore_case (fi_checksum_type d) ''sha256'' \<and> length (fi_checksum d) = 64 \<and>
     list_all is_hex (fi_checksum d)"

definition foojay_resolve ::
    "foojay_api \<Rightarrow> jdk_platform \<Rightarrow> str \<Rightarrow> str \<Rightarrow> bool \<Rightarrow> resolved_artifact built" where
  "foojay_resolve api pf vendor version exact =
     and_then (ok_or (Invalid (''unsupported JDK distribution '' @ ticked vendor))
       (provider_distribution vendor)) (\<lambda>distribution.
     and_then (decoded api (fj_packages api) ''package''
       (fj_send api [''packages'']
          (package_request pf @ [(''distro'', distribution), (''version'', provider_version version),
             (''latest'', ''available'')]) [])) (\<lambda>packages.
     let releases = sort_by newest_first
           (filter (matching_release vendor version exact) (translate_packages packages pf))
     in case releases of
          [] \<Rightarrow> Inl (Invalid (''no '' @ vendor @ '' JDK found for '' @ version))
        | release # _ \<Rightarrow>
            and_then (decoded api (fj_infos api) ''download''
              (fj_send api [''ids'', cr_source_id release] [] [])) (\<lambda>infos.
            case infos of
              [] \<Rightarrow> Inl (Invalid (''Foojay returned no download metadata for '' @ cr_source_id release))
            | detail # _ \<Rightarrow>
                if \<not> valid_checksum detail
                then Inl (Invalid (''Foojay returned no valid SHA-256 checksum for '' @ cr_source_id release))
                else and_then (map_err (\<lambda>e. Invalid (''invalid Foojay JDK download URL: '' @ e))
                       (fj_parse_url api (fi_direct_download_uri detail))) (\<lambda>u.
                     Inr \<lparr>ra_release = release, ra_url = u, ra_checksum = lowercase (fi_checksum detail)\<rparr>))))"

definition foojay_provider :: "foojay_api \<Rightarrow> jdk_provider" where
  "foojay_provider api = \<lparr>jv_id = ''foojay'', jv_fetch = foojay_fetch api, jv_resolve = foojay_resolve api\<rparr>"

end
