(* ===== verification/Jdk_Store.thy ===== *)
theory Jdk_Store
  imports Jdk_Catalog Build_Tree
begin

text \<open>
  The store of Java installations in \<open>crates/jman-build/src/toolchain.rs\<close>: requests, the list of
  valid installations, the cached catalog, verified downloads, installation, removal with
  rollback, and the choice of the compiler for a build. The file system is the tree of
  \<open>Build_Tree\<close>; HTTP, JSON, TOML, SHA-256, the archive formats and the compiler process are
  parameters. The progress callback of a download is left out.
\<close>

section \<open>Requests\<close>

record toolchain_request =
  tr_version :: str
  tr_vendor :: str

record managed_jdk =
  jd_vendor :: str
  jd_version :: str
  jd_major :: "16 word"
  jd_os :: str
  jd_architecture :: str
  jd_checksum :: str
  jd_home :: path

record available_jdk =
  av_vendor :: str
  av_version :: str
  av_major :: "16 word"
  av_lts :: bool
  av_os :: str
  av_architecture :: str

definition requested_major :: "toolchain_request \<Rightarrow> 16 word built" where
  "requested_major request =
     (case parse_u16 (takeWhile is_digit (tr_version request)) of
        Some n \<Rightarrow> Inr (of_nat n)
      | None \<Rightarrow> Inl (Invalid (''invalid JDK version '' @ ticked (tr_version request))))"

definition exact_request :: "toolchain_request \<Rightarrow> bool" where
  "exact_request request \<longleftrightarrow> \<not> list_all is_digit (tr_version request)"

definition validate_vendor :: "toolchain_request \<Rightarrow> unit built" where
  "validate_vendor request =
     ensure (tr_vendor request \<noteq> [] \<and>
         list_all (\<lambda>c. is_lower c \<or> is_digit c \<or> c = CHR ''-'') (tr_vendor request) \<and>
         \<not> starts_with ''-'' (tr_vendor request) \<and> \<not> ends_with ''-'' (tr_vendor request))
       (Invalid (''invalid JDK distribution '' @ ticked (tr_vendor request)))"

definition is_lts_major :: "16 word \<Rightarrow> bool" where
  "is_lts_major major \<longleftrightarrow> major \<in> {8, 11, 17, 21, 25}"

definition normalize_vendor :: "str \<Rightarrow> str" where
  "normalize_vendor vendor =
     (let v = replace_all ''_'' ''-'' (lowercase (trim vendor))
      in if v \<in> {''amzn'', ''amazon'', ''cor'', ''corretto''} then ''corretto''
         else if v \<in> {''lib'', ''liberica''} then ''liberica''
         else if v \<in> {''ms'', ''microsoft''} then ''microsoft''
         else if v \<in> {''open'', ''ojdk'', ''openjdk'', ''oracle-open-jdk''} then ''openjdk''
         else if v \<in> {''sap'', ''sap-machine'', ''sapmachine''} then ''sapmachine''
         else if v \<in> {''tem'', ''temurin''} then ''temurin''
         else v)"

definition normalize_managed_version :: "str \<Rightarrow> 16 word \<Rightarrow> str" where
  "normalize_managed_version version major =
     (let numbers = version_key version
      in if major = 8 \<and> length numbers \<ge> 5 \<and> numbers ! 0 = 8
         then ''8u'' @ show_nat (numbers ! 2) @ ''-b'' @ show_two (numbers ! 4)
         else (case strip_suffix ''.0.LTS'' version of
                 None \<Rightarrow> version
               | Some without_lts \<Rightarrow>
                   (case rsplit_once (CHR ''+'') without_lts of
                      None \<Rightarrow> version
                    | Some (core, encoded) \<Rightarrow>
                        (case parse_u32 encoded of
                           None \<Rightarrow> version
                         | Some build \<Rightarrow>
                             if build \<ge> 100
                             then core @ ''.'' @ show_nat (build div 100) @ ''+'' @ show_nat (build mod 100)
                             else core @ ''+'' @ show_nat build))))"

definition sanitize :: "str \<Rightarrow> str" where
  "sanitize value = map (\<lambda>c. if is_alnum c \<or> c \<in> {CHR ''.'', CHR ''-'', CHR ''_''} then c else CHR ''_'') value"

section \<open>The environment\<close>

datatype catalog_source = FromNetwork | FromCache | Revalidated | StaleCache

record catalog_status =
  cs_provider :: str
  cs_source :: catalog_source
  cs_fetched_at :: "64 word"
  cs_warning :: "str option"

record available_catalog =
  ac_jdks :: "available_jdk list"
  ac_status :: catalog_status

record catalog_cache =
  cc_schema :: "32 word"
  cc_fetched_at :: "64 word"
  cc_provider :: str
  cc_os :: str
  cc_architecture :: str
  cc_validators :: catalog_validators
  cc_releases :: "catalog_release list"

record removal_result =
  rr_removed :: "managed_jdk list"
  rr_reclaimed_bytes :: "64 word"

text \<open>A response of a download: status, location header (when readable), the chunks of the body.\<close>

record download_reply =
  dl_status :: nat
  dl_location :: "str option"
  dl_chunks :: "(str, str) result list"

record zip_item =
  zi_name :: str
  zi_enclosed :: "path option"
  zi_is_dir :: bool
  zi_bytes :: "(str, str) result"

record jdk_env =
  je_faults :: faults
  je_pid :: nat
  je_platform :: jdk_platform
  je_root :: path
  je_catalog_root :: path
  je_provider :: jdk_provider
  je_parse_jdk :: "str \<Rightarrow> managed_jdk option"
  je_print_jdk :: "managed_jdk \<Rightarrow> (str, str) result"
  je_parse_cache :: "str \<Rightarrow> catalog_cache option"
  je_print_cache :: "catalog_cache \<Rightarrow> (str, str) result"
  je_get :: "url \<Rightarrow> (str, download_reply) result"
  je_status_error :: "nat \<Rightarrow> str"
  je_join_url :: "url \<Rightarrow> str \<Rightarrow> (str, url) result"
  je_sha256_hex :: "str \<Rightarrow> str"
  je_zip :: "str \<Rightarrow> (str, (str, zip_item) result list) result"
  je_untar :: "str \<Rightarrow> path \<Rightarrow> unit tree_op"

definition metadata_name :: str where
  "metadata_name = ''.jman-toolchain.json''"

definition catalog_cache_schema :: "32 word" where
  "catalog_cache_schema = 2"

definition catalog_cache_ttl :: "64 word" where
  "catalog_cache_ttl = 900"

text \<open>The manager of a cache and a data directory.\<close>

definition store_root :: "path \<Rightarrow> path" where
  "store_root data_dir = path_join data_dir (path_of ''jdks'')"

definition store_catalog_root :: "path \<Rightarrow> path" where
  "store_catalog_root cache_dir = path_join cache_dir (path_of ''catalog'')"

definition javac_path :: "path \<Rightarrow> path" where
  "javac_path home = path_join (path_join home (path_of ''bin'')) (path_of ''javac'')"

section \<open>Installations\<close>

definition valid_install :: "jdk_env \<Rightarrow> tree \<Rightarrow> path \<Rightarrow> managed_jdk \<Rightarrow> bool" where
  "valid_install env t p jdk \<longleftrightarrow>
     jd_os jdk = jp_os (je_platform env) \<and> jd_architecture jdk = jp_architecture (je_platform env) \<and>
     jd_home jdk = p \<and> fs_is_file t (javac_path (jd_home jdk))"

text \<open>The installation in an entry of the store, if it is one.\<close>

definition entry_jdk :: "jdk_env \<Rightarrow> tree \<Rightarrow> path \<Rightarrow> managed_jdk list built" where
  "entry_jdk env t p =
     (let metadata = path_join p (path_of metadata_name)
      in if \<not> fs_is_file t metadata then Inr []
         else and_then (fst (io metadata (fs_read (je_faults env) metadata) t)) (\<lambda>bytes.
              case je_parse_jdk env bytes of
                None \<Rightarrow> Inr []
              | Some parsed \<Rightarrow>
                  (let jdk = parsed\<lparr>jd_version :=
                         normalize_managed_version (jd_version parsed) (jd_major parsed)\<rparr>
                   in Inr (if valid_install env t p jdk then [jdk] else []))))"

definition jdk_key :: "managed_jdk \<Rightarrow> str \<times> nat \<times> nat list" where
  "jdk_key jdk = (jd_vendor jdk, unat (jd_major jdk), version_key (jd_version jdk))"

definition list_jdks :: "jdk_env \<Rightarrow> tree \<Rightarrow> managed_jdk list built" where
  "list_jdks env t =
     (if \<not> fs_is_dir t (je_root env) then Inr []
      else and_then (fst (io (je_root env) (fs_read_dir (je_faults env) (je_root env)) t)) (\<lambda>entries.
           and_then (traverse (\<lambda>e. entry_jdk env t (fst e)) entries) (\<lambda>found.
           Inr (sort_key jdk_key (concat found)))))"

definition satisfies :: "toolchain_request \<Rightarrow> 16 word \<Rightarrow> managed_jdk \<Rightarrow> bool" where
  "satisfies request major jdk \<longleftrightarrow>
     jd_vendor jdk = tr_vendor request \<and> jd_major jdk = major \<and>
     (\<not> exact_request request \<or> jd_version jdk = tr_version request)"

definition find_jdk :: "jdk_env \<Rightarrow> toolchain_request \<Rightarrow> tree \<Rightarrow> managed_jdk option built" where
  "find_jdk env request t =
     and_then (validate_vendor request) (\<lambda>_.
     and_then (requested_major request) (\<lambda>major.
     and_then (list_jdks env t) (\<lambda>jdks. Inr (List.find (satisfies request major) (rev jdks)))))"

definition removal_candidates ::
    "jdk_env \<Rightarrow> toolchain_request \<Rightarrow> bool \<Rightarrow> tree \<Rightarrow> managed_jdk list built" where
  "removal_candidates env request all t =
     and_then (validate_vendor request) (\<lambda>_.
     and_then (requested_major request) (\<lambda>major.
     and_then (list_jdks env t) (\<lambda>jdks.
     (let candidates = filter (satisfies request major) jdks
      in Inr (if \<not> all \<and> \<not> exact_request request
              then (if candidates = [] then [] else [last candidates])
              else candidates)))))"

section \<open>Removal\<close>

text \<open>\<open>File::create\<close> followed by an exclusive lock.\<close>

definition acquire_install_lock :: "jdk_env \<Rightarrow> path \<Rightarrow> unit tree_step" where
  "acquire_install_lock env p =
     step_bind (io p (fs_write (je_faults env) p [])) (\<lambda>_.
     io p (guarded (je_faults env) ''lock'' p (\<lambda>t. (Inr (), t))))"

definition lock_path :: "jdk_env \<Rightarrow> toolchain_request \<Rightarrow> path built" where
  "lock_path env request =
     and_then (requested_major request) (\<lambda>major.
     Inr (path_join (je_root env) (path_of (''.install-'' @ tr_vendor request @ ''-'' @
            show_nat (unat major) @ ''-'' @ jp_os (je_platform env) @ ''-'' @
            jp_architecture (je_platform env) @ ''.lock''))))"

text \<open>One directory: subdirectories are pending, the sizes of files are added.\<close>

fun size_entries ::
    "faults \<Rightarrow> (path \<times> node) list \<Rightarrow> path list \<Rightarrow> 64 word \<Rightarrow> (path list \<times> 64 word) built" where
  "size_entries faults [] pending bytes = Inr (pending, bytes)"
| "size_entries faults ((p, n) # es) pending bytes =
     (case faults ''stat'' p of
        Some e \<Rightarrow> Inl (BuildIo p e)
      | None \<Rightarrow>
          (case n of
             DirNode \<Rightarrow> size_entries faults es (pending @ [p]) bytes
           | FileNode b \<Rightarrow> size_entries faults es pending (sat_add64 bytes (of_nat (length b)))
           | LinkNode \<Rightarrow> size_entries faults es pending bytes))"

lemma size_entries_pending:
  "size_entries faults es pending bytes = Inr (pending', bytes') \<Longrightarrow>
     \<exists>ds. pending' = pending @ ds \<and> set ds \<subseteq> fst ` set es"
  by (induction faults es pending bytes arbitrary: pending' bytes' rule: size_entries.induct)
     (fastforce split: node.splits option.splits)+

function size_loop :: "faults \<Rightarrow> tree \<Rightarrow> path list \<Rightarrow> 64 word \<Rightarrow> 64 word built" where
  "size_loop faults t pending bytes =
     (if pending = [] then Inr bytes
      else (case fst (io (last pending) (fs_read_dir faults (last pending)) t) of
              Inl e \<Rightarrow> Inl e
            | Inr es \<Rightarrow>
                (case size_entries faults es (butlast pending) bytes of
                   Inl e \<Rightarrow> Inl e
                 | Inr (pending', bytes') \<Rightarrow> size_loop faults t pending' bytes')))"
  by pat_completeness auto
termination
proof (relation "inv_image (mult less_than) (\<lambda>(_, t, pending, _). depths t pending)", goal_cases)
  case (2 faults t pending bytes es step pending' bytes')
  from 2(2) have es: "es = filter (\<lambda>e. path_parent (fst e) = Some (last pending)) t"
    by (auto simp: io_def fs_read_dir_def guarded_def split: option.splits if_splits)
  from 2(3,4) obtain ds where ds: "pending' = butlast pending @ ds" "set ds \<subseteq> fst ` set es"
    using size_entries_pending by blast
  then show ?case using depths_decrease [OF 2(1), of ds t] by (force simp: es)
qed (simp add: wf_mult)

declare size_loop.simps [simp del]

definition directory_size :: "faults \<Rightarrow> tree \<Rightarrow> path \<Rightarrow> 64 word built" where
  "directory_size faults t root = size_loop faults t [root] 0"

fun rollback_staged :: "faults \<Rightarrow> (path \<times> path) list \<Rightarrow> tree \<Rightarrow> tree" where
  "rollback_staged faults [] t = t"
| "rollback_staged faults ((temporary, original) # rest) t =
     snd (fs_rename faults temporary original (rollback_staged faults rest t))"

text \<open>The sizes; a home outside of the store is refused.\<close>

fun reclaimed_sizes :: "jdk_env \<Rightarrow> managed_jdk list \<Rightarrow> 64 word \<Rightarrow> tree \<Rightarrow> 64 word built" where
  "reclaimed_sizes env [] reclaimed t = Inr reclaimed"
| "reclaimed_sizes env (jdk # rest) reclaimed t =
     (if path_parent (jd_home jdk) \<noteq> Some (je_root env)
      then Inl (Invalid (''refusing to remove JDK outside '' @ show_path (je_root env)))
      else and_then (directory_size (je_faults env) t (jd_home jdk)) (\<lambda>size.
           reclaimed_sizes env rest (sat_add64 reclaimed size) t))"

definition staged_path :: "jdk_env \<Rightarrow> nat \<Rightarrow> path" where
  "staged_path env index =
     path_join (je_root env) (path_of (''.remove-'' @ show_nat (je_pid env) @ ''-'' @ show_nat index))"

fun stage_jdks ::
    "jdk_env \<Rightarrow> nat \<Rightarrow> managed_jdk list \<Rightarrow> (path \<times> path) list \<Rightarrow> (path \<times> path) list tree_step" where
  "stage_jdks env index [] staged t = (Inr staged, t)"
| "stage_jdks env index (jdk # rest) staged t =
     (let temporary = staged_path env index
      in if fs_exists t temporary
         then (Inl (Invalid (''stale JDK removal path exists at '' @ show_path temporary)),
               rollback_staged (je_faults env) staged t)
         else (case fs_rename (je_faults env) (jd_home jdk) temporary t of
                 (Inl e, t') \<Rightarrow> (Inl (BuildIo (jd_home jdk) e), rollback_staged (je_faults env) staged t')
               | (Inr _, t') \<Rightarrow> stage_jdks env (Suc index) rest (staged @ [(temporary, jd_home jdk)]) t'))"

fun delete_staged :: "faults \<Rightarrow> (path \<times> path) list \<Rightarrow> unit tree_step" where
  "delete_staged faults [] t = (Inr (), t)"
| "delete_staged faults ((temporary, original) # rest) t =
     (case fs_remove_dir_all faults temporary t of
        (Inl e, t') \<Rightarrow>
          (Inl (BuildIo temporary e), rollback_staged faults ((temporary, original) # rest) t')
      | (Inr _, t') \<Rightarrow> delete_staged faults rest t')"

text \<open>The removal proper, under the lock.\<close>

definition remove_locked :: "jdk_env \<Rightarrow> toolchain_request \<Rightarrow> bool \<Rightarrow> removal_result tree_step" where
  "remove_locked env request all =
     step_bind (\<lambda>t. (removal_candidates env request all t, t)) (\<lambda>candidates.
     if candidates = []
     then step_of (Inl (Invalid (''no JMAN-managed '' @ tr_vendor request @ '' JDK '' @
            tr_version request @ '' installation was found'')))
     else step_bind (\<lambda>t. (reclaimed_sizes env candidates 0 t, t)) (\<lambda>reclaimed.
          step_bind (stage_jdks env 0 candidates []) (\<lambda>staged.
          step_bind (delete_staged (je_faults env) staged) (\<lambda>_.
          step_of (Inr \<lparr>rr_removed = candidates, rr_reclaimed_bytes = reclaimed\<rparr>)))))"

definition remove_jdks :: "jdk_env \<Rightarrow> toolchain_request \<Rightarrow> bool \<Rightarrow> removal_result tree_step" where
  "remove_jdks env request all =
     step_bind (io (je_root env) (fs_create_dir_all (je_faults env) (je_root env))) (\<lambda>_.
     step_bind (step_of (lock_path env request)) (\<lambda>lock.
     step_bind (acquire_install_lock env lock) (\<lambda>_.
     remove_locked env request all)))"

section \<open>The cached catalog\<close>

definition catalog_result ::
    "catalog_cache \<Rightarrow> 16 word option \<Rightarrow> bool \<Rightarrow> catalog_source \<Rightarrow> str option \<Rightarrow> available_catalog" where
  "catalog_result cache major lts_only src warning =
     \<lparr>ac_jdks = map (\<lambda>r. \<lparr>av_vendor = cr_vendor r, av_version = cr_version r, av_major = cr_major r,
           av_lts = cr_lts r, av_os = cr_os r, av_architecture = cr_architecture r\<rparr>)
        (sort_by release_order
          (filter (\<lambda>r. \<not> lts_only \<or> cr_lts r)
            (filter (\<lambda>r. case major of None \<Rightarrow> True | Some m \<Rightarrow> cr_major r = m)
              (filter (\<lambda>r. cr_os r = cc_os cache \<and> cr_architecture r = cc_architecture cache)
                (cc_releases cache))))),
      ac_status = \<lparr>cs_provider = cc_provider cache, cs_source = src,
        cs_fetched_at = cc_fetched_at cache, cs_warning = warning\<rparr>\<rparr>"

definition catalog_is_fresh :: "catalog_cache \<Rightarrow> 64 word \<Rightarrow> bool" where
  "catalog_is_fresh cache now \<longleftrightarrow> sat_sub64 now (cc_fetched_at cache) \<le> catalog_cache_ttl"

definition catalog_cache_path :: "jdk_env \<Rightarrow> path" where
  "catalog_cache_path env =
     path_join (je_catalog_root env) (path_of (jv_id (je_provider env) @ ''-'' @
       jp_os (je_platform env) @ ''-'' @ jp_architecture (je_platform env) @ ''.json''))"

definition missing_file :: "faults \<Rightarrow> tree \<Rightarrow> path \<Rightarrow> bool" where
  "missing_file faults t p \<longleftrightarrow>
     faults ''read'' p = None \<and> (bt_get t p = None \<or> bt_get t p = Some LinkNode)"

definition usable_cache :: "jdk_env \<Rightarrow> catalog_cache \<Rightarrow> bool" where
  "usable_cache env cache \<longleftrightarrow>
     \<not> (cc_schema cache \<noteq> catalog_cache_schema \<or> cc_provider cache \<noteq> jv_id (je_provider env) \<or>
        cc_os cache \<noteq> jp_os (je_platform env) \<or> cc_architecture cache \<noteq> jp_architecture (je_platform env))"

definition read_catalog_cache :: "jdk_env \<Rightarrow> tree \<Rightarrow> catalog_cache option built" where
  "read_catalog_cache env t =
     (let p = catalog_cache_path env
      in if missing_file (je_faults env) t p then Inr None
         else and_then (fst (io p (fs_read (je_faults env) p) t)) (\<lambda>bytes.
              case je_parse_cache env bytes of
                None \<Rightarrow> Inr None
              | Some cache \<Rightarrow> Inr (if usable_cache env cache then Some cache else None)))"

definition write_catalog_cache :: "jdk_env \<Rightarrow> catalog_cache \<Rightarrow> unit tree_step" where
  "write_catalog_cache env cache =
     (let root = je_catalog_root env; p = catalog_cache_path env;
          temporary = path_join root (path_of (''.catalog-'' @ show_nat (je_pid env) @ ''.tmp''))
      in step_bind (io root (fs_create_dir_all (je_faults env) root)) (\<lambda>_.
         step_bind (step_of (map_err (\<lambda>e. Invalid (''could not encode JDK catalog: '' @ e))
           (je_print_cache env cache))) (\<lambda>bytes.
         step_bind (io temporary (fs_write (je_faults env) temporary bytes)) (\<lambda>_ t.
         case fs_rename (je_faults env) temporary p t of
           (Inr _, t') \<Rightarrow> (Inr (), t')
         | (Inl e, t') \<Rightarrow>
             if fs_exists t' p
             then step_bind (io p (fs_remove_file (je_faults env) p)) (\<lambda>_.
                  io p (fs_rename (je_faults env) temporary p)) t'
             else (Inl (BuildIo p e), t')))))"

definition fetch_catalog ::
    "jdk_env \<Rightarrow> catalog_cache option \<Rightarrow> 64 word \<Rightarrow> catalog_cache built" where
  "fetch_catalog env cached now =
     and_then (jv_fetch (je_provider env) (je_platform env) (map_option cc_validators cached)) (\<lambda>r.
     case r of
       NotModified \<Rightarrow>
         (case cached of
            None \<Rightarrow> Inl (Invalid ''JDK catalog returned 304 without cached metadata'')
          | Some cache \<Rightarrow> Inr (cache\<lparr>cc_fetched_at := now\<rparr>))
     | Modified validators releases \<Rightarrow>
         Inr \<lparr>cc_schema = catalog_cache_schema, cc_fetched_at = now,
              cc_provider = jv_id (je_provider env), cc_os = jp_os (je_platform env),
              cc_architecture = jp_architecture (je_platform env), cc_validators = validators,
              cc_releases = releases\<rparr>)"

text \<open>The text of an error is a parameter of the warnings.\<close>

definition build_error_text :: "build_error \<Rightarrow> str" where
  "build_error_text e =
     (case e of
        Invalid m \<Rightarrow> m
      | BuildIo p m \<Rightarrow> ''could not read '' @ show_path p @ '': '' @ m
      | ConfigFailed p m \<Rightarrow> ''could not parse '' @ show_path p @ '': '' @ m
      | JavacFailed p m \<Rightarrow> ''could not execute Java compiler '' @ ticked (show_path p) @ '': '' @ m
      | CompilationFailed m d \<Rightarrow> ''Java compilation failed for '' @ m @ [CHR 0x0A] @ d)"

definition available_at ::
    "jdk_env \<Rightarrow> 16 word option \<Rightarrow> bool \<Rightarrow> bool \<Rightarrow> 64 word \<Rightarrow> available_catalog tree_step" where
  "available_at env major lts_only refresh now t =
     (case read_catalog_cache env t of
        Inl e \<Rightarrow> (Inl e, t)
      | Inr cached \<Rightarrow>
          if \<not> refresh \<and> is_some_and (\<lambda>c. catalog_is_fresh c now) cached
          then (Inr (catalog_result (the cached) major lts_only FromCache None), t)
          else (case fetch_catalog env cached now of
                  Inr cache \<Rightarrow>
                    (let (written, t') = write_catalog_cache env cache t
                     in (Inr (catalog_result cache major lts_only
                           (if cached = None then FromNetwork else Revalidated)
                           (case written of
                              Inl e \<Rightarrow> Some (''could not update JDK catalog cache: '' @ build_error_text e)
                            | Inr _ \<Rightarrow> None)), t'))
                | Inl e \<Rightarrow>
                    (case cached of
                       None \<Rightarrow> (Inl e, t)
                     | Some cache \<Rightarrow>
                         (Inr (catalog_result cache major lts_only StaleCache
                            (Some (''remote JDK catalog unavailable; using cached data: '' @
                               build_error_text e))), t))))"

section \<open>Downloads\<close>

text \<open>The redirects of a download, followed by hand; the counter is a byte.\<close>

function follow_redirects ::
    "jdk_env \<Rightarrow> str \<Rightarrow> url \<Rightarrow> 8 word \<Rightarrow> download_reply built" where
  "follow_redirects env vendor u redirects =
     (case je_get env u of
        Inl e \<Rightarrow> Inl (Invalid (''JDK download failed: '' @ e))
      | Inr reply \<Rightarrow>
          if \<not> (300 \<le> dl_status reply \<and> dl_status reply < 400)
          then (if 400 \<le> dl_status reply \<and> dl_status reply < 600
                then Inl (Invalid (''JDK download failed: '' @ je_status_error env (dl_status reply)))
                else Inr reply)
          else if redirects \<ge> 10 then Inl (Invalid ''JDK download exceeded 10 redirects'')
          else (case dl_location reply of
                  None \<Rightarrow> Inl (Invalid ''JDK download redirect had no valid location'')
                | Some location \<Rightarrow>
                    (case je_join_url env u location of
                       Inl e \<Rightarrow> Inl (Invalid (''invalid JDK download redirect: '' @ e))
                     | Inr next_url \<Rightarrow>
                         (case validate_download_url vendor next_url RedirectUrl of
                            Inl e \<Rightarrow> Inl e
                          | Inr _ \<Rightarrow> follow_redirects env vendor next_url (redirects + 1)))))"
  by pat_completeness auto
termination
  by (relation "measure (\<lambda>(_, _, _, n). 10 - unat n)")
    (auto simp: word_le_nat_alt not_le unat_word_ariths)

declare follow_redirects.simps [simp del]

definition fs_append :: "faults \<Rightarrow> path \<Rightarrow> str \<Rightarrow> unit tree_op" where
  "fs_append faults p b t =
     (case bt_get t p of
        Some (FileNode old) \<Rightarrow>
          (case faults ''append'' p of
             Some e \<Rightarrow> (Inl e, left_part faults p old t)
           | None \<Rightarrow> (Inr (), bt_insert p (FileNode (old @ b)) t))
      | _ \<Rightarrow> (Inl ''no such file'', t))"

text \<open>The chunks go to the file and into the hash.\<close>

fun write_chunks :: "faults \<Rightarrow> path \<Rightarrow> (str, str) result list \<Rightarrow> str \<Rightarrow> str tree_step" where
  "write_chunks faults p [] hashed = step_of (Inr hashed)"
| "write_chunks faults p (c # cs) hashed =
     (case c of
        Inl e \<Rightarrow> step_of (Inl (Invalid (''JDK download failed: '' @ e)))
      | Inr b \<Rightarrow>
          step_bind (io p (fs_append faults p b)) (\<lambda>_. write_chunks faults p cs (hashed @ b)))"

definition download_verified :: "jdk_env \<Rightarrow> resolved_artifact \<Rightarrow> path \<Rightarrow> unit tree_step" where
  "download_verified env artifact destination =
     (let vendor = cr_vendor (ra_release artifact); faults = je_faults env
      in step_bind (step_of (validate_download_url vendor (ra_url artifact) InitialUrl)) (\<lambda>_.
         step_bind (step_of (follow_redirects env vendor (ra_url artifact) 0)) (\<lambda>reply.
         step_bind (io destination (fs_write faults destination [])) (\<lambda>_.
         step_bind (write_chunks faults destination (dl_chunks reply) []) (\<lambda>hashed.
         step_bind (io destination (guarded faults ''flush'' destination (\<lambda>t. (Inr (), t)))) (\<lambda>_.
         if je_sha256_hex env hashed \<noteq> ra_checksum artifact
         then step_bind (ignore (fs_remove_file faults destination)) (\<lambda>_.
              step_of (Inl (Invalid (''JDK checksum mismatch: expected '' @ ra_checksum artifact @
                '', received '' @ je_sha256_hex env hashed))))
         else step_of (Inr ())))))))"

section \<open>Extraction\<close>

definition unsafe_component :: "component \<Rightarrow> bool" where
  "unsafe_component c \<longleftrightarrow> c = ParentDir \<or> c = RootDir"

fun extract_entries :: "faults \<Rightarrow> path \<Rightarrow> (str, zip_item) result list \<Rightarrow> unit tree_step" where
  "extract_entries faults destination [] = step_of (Inr ())"
| "extract_entries faults destination (r # rs) =
     step_bind (step_of (map_err (\<lambda>e. Invalid (''invalid JDK ZIP entry: '' @ e)) r)) (\<lambda>item.
     step_bind (step_of (ok_or (Invalid (''unsafe path in JDK ZIP: '' @ zi_name item))
       (zi_enclosed item))) (\<lambda>relative.
     if list_ex unsafe_component relative
     then step_of (Inl (Invalid ''unsafe path in JDK ZIP''))
     else (let out = path_join destination relative
           in step_bind
                (if zi_is_dir item then io out (fs_create_dir_all faults out)
                 else step_bind (case path_parent out of
                          None \<Rightarrow> step_of (Inr ())
                        | Some parent \<Rightarrow> io parent (fs_create_dir_all faults parent)) (\<lambda>_.
                      step_bind (io out (fs_write faults out [])) (\<lambda>_.
                      step_bind (step_of (map_err (BuildIo out) (zi_bytes item))) (\<lambda>bytes.
                      io out (fs_append faults out bytes)))))
                (\<lambda>_. extract_entries faults destination rs))))"

definition extract_zip :: "jdk_env \<Rightarrow> str \<Rightarrow> path \<Rightarrow> unit tree_step" where
  "extract_zip env bytes destination =
     step_bind (step_of (map_err (\<lambda>e. Invalid (''invalid JDK ZIP: '' @ e)) (je_zip env bytes)))
       (extract_entries (je_faults env) destination)"

definition extract_archive :: "jdk_env \<Rightarrow> path \<Rightarrow> path \<Rightarrow> unit tree_step" where
  "extract_archive env archive destination =
     step_bind (io archive (fs_read (je_faults env) archive)) (\<lambda>bytes.
     if ends_with ''.zip'' (show_path archive) then extract_zip env bytes destination
     else io destination (je_untar env bytes destination))"

definition single_root :: "faults \<Rightarrow> tree \<Rightarrow> path \<Rightarrow> path built" where
  "single_root faults t directory =
     and_then (fst (io directory (fs_read_dir faults directory) t)) (\<lambda>entries.
     case entries of
       [] \<Rightarrow> Inl (Invalid ''JDK archive was empty'')
     | [e] \<Rightarrow> Inr (fst e)
     | _ \<Rightarrow> Inl (Invalid ''JDK archive must contain one root directory''))"

definition extracted_jdk_home :: "faults \<Rightarrow> tree \<Rightarrow> path \<Rightarrow> path built" where
  "extracted_jdk_home faults t directory =
     and_then (single_root faults t directory) (\<lambda>root.
     if fs_is_file t (javac_path root) then Inr root
     else (let macos = path_join root (path_of ''Contents/Home'')
           in if fs_is_file t (javac_path macos) then Inr macos
              else Inl (Invalid (''downloaded JDK archive has no compiler at '' @
                     show_path (javac_path root) @ '' or '' @ show_path (javac_path macos)))))"

section \<open>Installation\<close>

definition resolve_asset :: "jdk_env \<Rightarrow> toolchain_request \<Rightarrow> resolved_artifact built" where
  "resolve_asset env request =
     and_then (jv_resolve (je_provider env) (je_platform env) (tr_vendor request) (tr_version request)
       (exact_request request)) (\<lambda>artifact.
     (let r = ra_release artifact; pf = je_platform env
      in if cr_os r \<noteq> jp_os pf \<or> cr_architecture r \<noteq> jp_architecture pf \<or>
            cr_archive_type r \<noteq> jp_archive_type pf
         then Inl (Invalid (''JDK catalog returned '' @ cr_os r @ ''-'' @ cr_architecture r @ '' ('' @
                cr_archive_type r @ '') for a '' @ jp_os pf @ ''-'' @ jp_architecture pf @ '' ('' @
                jp_archive_type pf @ '') installation''))
         else Inr artifact))"

definition install_path :: "jdk_env \<Rightarrow> toolchain_request \<Rightarrow> resolved_artifact \<Rightarrow> path" where
  "install_path env request artifact =
     path_join (je_root env) (path_of (tr_vendor request @ ''-'' @
       sanitize (cr_version (ra_release artifact)) @ ''-'' @ jp_os (je_platform env) @ ''-'' @
       jp_architecture (je_platform env)))"

definition download_path :: "jdk_env \<Rightarrow> resolved_artifact \<Rightarrow> path" where
  "download_path env artifact =
     path_join (je_root env) (path_of (''.download-'' @ cr_vendor (ra_release artifact) @ ''-'' @
       sanitize (cr_source_id (ra_release artifact)) @ ''-'' @
       sanitize (cr_filename (ra_release artifact))))"

definition extraction_path :: "jdk_env \<Rightarrow> resolved_artifact \<Rightarrow> path" where
  "extraction_path env artifact =
     path_join (je_root env) (path_of (''.extract-'' @ show_nat (je_pid env) @ ''-'' @
       cr_vendor (ra_release artifact) @ ''-'' @ show_nat (unat (cr_major (ra_release artifact)))))"

definition jdk_of_artifact :: "jdk_env \<Rightarrow> toolchain_request \<Rightarrow> resolved_artifact \<Rightarrow> managed_jdk" where
  "jdk_of_artifact env request artifact =
     \<lparr>jd_vendor = tr_vendor request, jd_version = cr_version (ra_release artifact),
      jd_major = cr_major (ra_release artifact), jd_os = jp_os (je_platform env),
      jd_architecture = jp_architecture (je_platform env),
      jd_checksum = ''sha256:'' @ ra_checksum artifact,
      jd_home = install_path env request artifact\<rparr>"

text \<open>What follows the download: extraction next to the store and the move into it.\<close>

definition place_jdk :: "jdk_env \<Rightarrow> toolchain_request \<Rightarrow> resolved_artifact \<Rightarrow> unit tree_step" where
  "place_jdk env request artifact =
     (let faults = je_faults env; extraction = extraction_path env artifact;
          archive = download_path env artifact; destination = install_path env request artifact
      in step_bind (gets (\<lambda>t. fs_exists t extraction)) (\<lambda>stale.
         step_bind (when_step stale (io extraction (fs_remove_dir_all faults extraction))) (\<lambda>_.
         step_bind (io extraction (fs_create_dir_all faults extraction)) (\<lambda>_.
         step_bind (extract_archive env archive extraction) (\<lambda>_.
         step_bind (\<lambda>t. (extracted_jdk_home faults t extraction, t)) (\<lambda>home.
         step_bind (gets (\<lambda>t. fs_exists t destination)) (\<lambda>present.
         step_bind (when_step present (io destination (fs_remove_dir_all faults destination))) (\<lambda>_.
         step_bind (io destination (fs_rename faults home destination)) (\<lambda>_.
         step_bind (ignore (fs_remove_dir_all faults extraction)) (\<lambda>_.
         ignore (fs_remove_file faults archive)))))))))))"

definition record_jdk :: "jdk_env \<Rightarrow> managed_jdk \<Rightarrow> managed_jdk tree_step" where
  "record_jdk env jdk =
     (let p = path_join (jd_home jdk) (path_of metadata_name)
      in step_bind (step_of (map_err (\<lambda>e. Invalid (''could not record JDK: '' @ e))
           (je_print_jdk env jdk))) (\<lambda>metadata.
         step_bind (io p (fs_write (je_faults env) p metadata)) (\<lambda>_.
         step_of (Inr jdk))))"

definition install :: "jdk_env \<Rightarrow> toolchain_request \<Rightarrow> bool \<Rightarrow> managed_jdk tree_step" where
  "install env request offline =
     step_bind (\<lambda>t. (find_jdk env request t, t)) (\<lambda>found.
     case found of
       Some jdk \<Rightarrow> step_of (Inr jdk)
     | None \<Rightarrow>
         if offline
         then step_of (Inl (Invalid (''JDK '' @ tr_version request @
                '' is not installed and offline mode forbids downloading it'')))
         else step_bind (io (je_root env) (fs_create_dir_all (je_faults env) (je_root env))) (\<lambda>_.
              step_bind (step_of (lock_path env request)) (\<lambda>lock.
              step_bind (acquire_install_lock env lock) (\<lambda>_.
              step_bind (\<lambda>t. (find_jdk env request t, t)) (\<lambda>found.
              case found of
                Some jdk \<Rightarrow> step_of (Inr jdk)
              | None \<Rightarrow>
                  step_bind (step_of (resolve_asset env request)) (\<lambda>artifact.
                  step_bind (download_verified env artifact (download_path env artifact)) (\<lambda>_.
                  step_bind (place_jdk env request artifact) (\<lambda>_.
                  record_jdk env (jdk_of_artifact env request artifact)))))))))"

section \<open>The compiler of a build\<close>

record active_toolchain =
  at_javac :: path
  at_version :: str
  at_major :: "16 word"
  at_managed :: "managed_jdk option"

record command_output =
  co_success :: bool
  co_status :: str
  co_stdout :: str
  co_stderr :: str

definition parse_javac_major :: "str \<Rightarrow> 16 word option" where
  "parse_javac_major out =
     (case split_whitespace out of
        _ # version # _ \<Rightarrow>
          (let parts = split_char (CHR ''.'') version
           in case parse_u16 (hd parts) of
                None \<Rightarrow> None
              | Some first \<Rightarrow>
                  if first = 1
                  then (case tl parts of
                          [] \<Rightarrow> None
                        | second # _ \<Rightarrow> map_option of_nat (parse_u16 second))
                  else Some (of_nat first))
      | _ \<Rightarrow> None)"

text \<open>The process \<open>javac -version\<close> is a parameter.\<close>

definition probe_javac ::
    "(path \<Rightarrow> (str, command_output) result) \<Rightarrow> path \<Rightarrow> 16 word \<Rightarrow> active_toolchain built" where
  "probe_javac run javac requested =
     and_then (map_err (JavacFailed javac) (run javac)) (\<lambda>result.
     if \<not> co_success result
     then Inl (Invalid (ticked (show_path javac) @ '' -version exited with '' @ co_status result))
     else (let version = trim (utf8_lossy
                 (if co_stderr result = [] then co_stdout result else co_stderr result))
           in case parse_javac_major version of
                None \<Rightarrow> Inl (Invalid (''could not parse Java compiler version '' @ ticked version))
              | Some major \<Rightarrow>
                  if major < requested
                  then Inl (Invalid (''project requires Java '' @ show_nat (unat requested) @
                         '', but '' @ version @ '' was found''))
                  else Inr \<lparr>at_javac = javac, at_version = version, at_major = major, at_managed = None\<rparr>))"

definition discover_toolchain ::
    "(path \<Rightarrow> (str, command_output) result) \<Rightarrow> path option \<Rightarrow> 16 word \<Rightarrow> active_toolchain built" where
  "discover_toolchain run java_home requested =
     probe_javac run
       (case java_home of None \<Rightarrow> path_of ''javac'' | Some home \<Rightarrow> javac_path home) requested"

definition managed_toolchain ::
    "(path \<Rightarrow> (str, command_output) result) \<Rightarrow> managed_jdk \<Rightarrow> 16 word \<Rightarrow> active_toolchain built" where
  "managed_toolchain run jdk requested =
     and_then (probe_javac run (javac_path (jd_home jdk)) requested) (\<lambda>tc.
     Inr (tc\<lparr>at_managed := Some jdk\<rparr>))"

definition resolve_toolchain ::
    "(path \<Rightarrow> (str, command_output) result) \<Rightarrow> jdk_env \<Rightarrow> toolchain_request \<Rightarrow> bool \<Rightarrow> bool \<Rightarrow>
       active_toolchain tree_step" where
  "resolve_toolchain run env given auto_install offline =
     (let request = given\<lparr>tr_vendor := normalize_vendor (tr_vendor given)\<rparr>
      in step_bind (\<lambda>t. (find_jdk env request t, t)) (\<lambda>found.
         case found of
           Some jdk \<Rightarrow> step_of (and_then (requested_major request) (managed_toolchain run jdk))
         | None \<Rightarrow>
             if auto_install
             then step_bind (install env request offline) (\<lambda>jdk.
                  step_of (and_then (requested_major request) (managed_toolchain run jdk)))
             else step_of (Inl (Invalid (tr_vendor request @ '' JDK '' @ tr_version request @
                    '' is not installed; run `jman java install '' @ tr_version request @
                    '' --vendor '' @ tr_vendor request @ ''`'')))))"

text \<open>The user-wide selection (the content of the user configuration) comes first.\<close>

record global_java_selection =
  gj_jdk :: str
  gj_vendor :: str

definition read_user_config ::
    "faults \<Rightarrow> (str \<Rightarrow> (str, global_java_selection option) result) \<Rightarrow> path \<Rightarrow> tree \<Rightarrow>
       global_java_selection option built" where
  "read_user_config faults parse p t =
     (if missing_file faults t p then Inr None
      else and_then (fst (io p (fs_read faults p) t)) (\<lambda>text.
           map_err (\<lambda>e. Invalid (''could not parse user configuration '' @ show_path p @ '': '' @ e))
             (parse text)))"

definition resolve_default ::
    "(path \<Rightarrow> (str, command_output) result) \<Rightarrow> jdk_env \<Rightarrow> global_java_selection option built \<Rightarrow>
       path option \<Rightarrow> 16 word \<Rightarrow> tree \<Rightarrow> active_toolchain built" where
  "resolve_default run env selected java_home requested t =
     and_then selected (\<lambda>selection.
     case selection of
       Some s \<Rightarrow>
         (let request = \<lparr>tr_version = gj_jdk s, tr_vendor = normalize_vendor (gj_vendor s)\<rparr>
          in and_then (find_jdk env request t) (\<lambda>found.
             case found of
               None \<Rightarrow> Inl (Invalid (''globally selected '' @ tr_vendor request @ '' JDK '' @
                        tr_version request @ '' is not installed; run `jman java install '' @
                        tr_version request @ '' --vendor '' @ tr_vendor request @ '' --global`''))
             | Some jdk \<Rightarrow> managed_toolchain run jdk requested))
     | None \<Rightarrow>
         (let request = \<lparr>tr_version = show_nat (unat requested), tr_vendor = ''temurin''\<rparr>
          in and_then (find_jdk env request t) (\<lambda>found.
             case found of
               Some jdk \<Rightarrow> managed_toolchain run jdk requested
             | None \<Rightarrow> discover_toolchain run java_home requested)))"

end
