(* ===== verification/Jdk_Facts.thy ===== *)
theory Jdk_Facts
  imports Jdk_Store
begin

text \<open>
  What the Java store guarantees: names and versions survive the translation to the Foojay
  service and back, a provider's answer fits the request, every download comes from an approved
  host and has the announced checksum, the newest installation is found, and a removal touches
  only what it was asked to remove, with at most one installation left damaged when it fails.
\<close>

section \<open>Names and versions\<close>

text \<open>
  The two tables of distribution names are inverse to each other, so
  every distribution of the catalog can be requested from the service.
\<close>
theorem distributions_inverse:
  "canonical_distribution name = Some vendor \<longleftrightarrow> provider_distribution vendor = Some name"
proof -
  have distinct: "distinct (map fst canonical_table)" "distinct (map fst provider_table)"
    by code_simp+
  have "set (map prod.swap canonical_table) = set provider_table"
    by (simp add: canonical_table_def provider_table_def)
  then have "(name, vendor) \<in> set canonical_table \<longleftrightarrow> (vendor, name) \<in> set provider_table"
    by (metis (no_types, lifting) image_iff prod.swap_def set_map swap_simp swap_swap)
  then show ?thesis
    by (simp add: canonical_distribution_def provider_distribution_def distinct)
qed

lemma split_digits: "split_by (\<lambda>c. \<not> is_digit c) w = [w]" if "list_all is_digit w"
  using that by (intro split_by_word) (auto simp: list_all_iff)

lemma split_digits_sep:
  "list_all is_digit w \<Longrightarrow> \<not> is_digit a \<Longrightarrow>
     split_by (\<lambda>c. \<not> is_digit c) (w @ a # s) = w # split_by (\<lambda>c. \<not> is_digit c) s"
  by (intro split_by_append_sep) (auto simp: list_all_iff)

lemma show_nat_digits: "list_all is_digit (show_nat n)" "show_nat n \<noteq> []"
  using show_nat_props [of n] by auto

lemma show_two_digits: "list_all is_digit (show_two n)" "show_two n \<noteq> []"
  using show_nat_digits [of n] by (auto simp: show_two_def is_digit_def byte_def)

lemma digits_val_Cons_zero: "digits_val (CHR ''0'' # s) = digits_val s"
  by (simp add: digits_val_def digit_val_def byte_def)

lemma show_two_val: "digits_val (show_two n) = n"
  using show_nat_props [of n] by (simp add: show_two_def digits_val_Cons_zero)

lemma digits_val_trim: "digits_val (dropWhile (\<lambda>c. c = CHR ''0'') s) = digits_val s"
  by (induction s) (auto simp: digits_val_Cons_zero)

lemma split_build_digits: "list_all is_digit d \<Longrightarrow> split_build (d @ ''-b'' @ w) = (d, w)"
proof -
  assume d: "list_all is_digit d"
  then have "find_sub ''-b'' (d @ ''-b'' @ w) = Some (length d)"
  proof (induction d)
    case (Cons c d)
    then have "c \<noteq> CHR ''-''" by (auto simp: is_digit_def byte_def)
    with Cons show ?case by simp
  qed (simp add: starts_with_def)
  then show ?thesis by (simp add: split_build_def)
qed

lemma parse_digits:
  "list_all is_digit s \<Longrightarrow> s \<noteq> [] \<Longrightarrow> digits_val s < 2 ^ 32 \<Longrightarrow> parse_u32 s = Some (digits_val s)"
  by (simp add: parse_uint_digits)

lemma version_numbers_digits:
  assumes "list_all is_digit s" "s \<noteq> []" "digits_val s < 2 ^ 32"
  shows "version_numbers s = [digits_val s]"
  using assms by (simp add: version_numbers_def split_digits parse_digits map_filter_simps)

lemma java8_core:
  assumes "n < 2 ^ 32"
  shows "version_numbers (''8.0.'' @ show_nat n) = [8, 0, n]"
proof -
  have "split_by (\<lambda>c. \<not> is_digit c) (''8.0.'' @ show_nat n) = [''8'', ''0'', show_nat n]"
    using split_digits [OF show_nat_digits(1), of n] by (simp add: is_digit_def byte_def)
  moreover have "parse_u32 ''8'' = Some 8" "parse_u32 ''0'' = Some 0" by code_simp+
  ultimately show ?thesis using assms show_nat_digits [of n] show_nat_props [of n]
    by (simp add: version_numbers_def map_filter_simps parse_uint_show_nat)
qed

text \<open>
  A Java 8 version in jman's notation (\<open>8u<update>-b<build>\<close>) is
  translated to the notation of the service and back without a change.
\<close>
theorem java8_version_round_trip:
  assumes "update < 2 ^ 32" "build < 2 ^ 32"
  shows "normalize_version (provider_version (''8u'' @ show_nat update @ ''-b'' @ show_two build)) 8 =
      ''8u'' @ show_nat update @ ''-b'' @ show_two build"
proof -
  define number where "number = dropWhile (\<lambda>c. c = CHR ''0'') (show_two build)"
  define s where "s = (if number = [] then ''0'' else number)"
  have digits: "list_all is_digit number" "digits_val number = build"
    using show_two_digits [of build] digits_val_trim [of "show_two build"]
    by (auto simp: number_def show_two_val list_all_iff dest: set_dropWhileD)
  then have s: "list_all is_digit s" "s \<noteq> []" "digits_val s = build"
    by (auto simp: s_def is_digit_def byte_def digit_val_def)
  have provider: "provider_version (''8u'' @ show_nat update @ ''-b'' @ show_two build) =
      ''8.0.'' @ show_nat update @ ''+'' @ s"
    using split_build_digits [OF show_nat_digits(1), of update "show_two build"] show_two_digits(2)
    by (simp add: provider_version_def number_def s_def)
  have plus: "split_once (CHR ''+'') (''8.0.'' @ show_nat update @ ''+'' @ s) =
      Some (''8.0.'' @ show_nat update, s)"
    unfolding split_once_Some using show_nat_set [of "CHR ''+''" update]
    by (auto simp: is_digit_def byte_def)
  have key: "version_key (''8.0.'' @ show_nat update @ ''+'' @ s) = [8, 0, update, 0, build]"
    unfolding version_key_def plus using java8_core [OF assms(1)] version_numbers_digits [OF s(1,2)] s(3) assms(2)
    by simp
  show ?thesis unfolding provider normalize_version_def key by simp
qed

theorem java8_version_round_trip_witness:
  "normalize_version (provider_version ''8u504-b01'') 8 = ''8u504-b01''"
proof -
  have "''8u'' @ show_nat 504 @ ''-b'' @ show_two 1 = ''8u504-b01''" by code_simp
  then show ?thesis using java8_version_round_trip [of 504 1] by simp
qed

section \<open>Providers\<close>

text \<open>
  The contract of a catalog provider: an answer is a release of the requested vendor and version
  with a checksum of 64 hexadecimal digits.
\<close>

locale jdk_catalog_provider =
  fixes resolve :: "jdk_platform \<Rightarrow> str \<Rightarrow> str \<Rightarrow> bool \<Rightarrow> resolved_artifact built"
  assumes resolve_matches:
      "resolve pf vendor version exact = Inr a \<Longrightarrow> matching_release vendor version exact (ra_release a)"
    and resolve_checksum:
      "resolve pf vendor version exact = Inr a \<Longrightarrow> length (ra_checksum a) = 64 \<and> list_all is_hex (ra_checksum a)"
begin

text \<open>The installation that is made of an answer satisfies the request.\<close>

lemma asset_satisfies:
  assumes "jv_resolve (je_provider env) = resolve" "resolve_asset env request = Inr a"
    and "requested_major request = Inr major"
    and "exact_request request \<Longrightarrow> cr_major (ra_release a) = major"
  shows "satisfies request major (jdk_of_artifact env request a)"
proof -
  have "resolve (je_platform env) (tr_vendor request) (tr_version request) (exact_request request) = Inr a"
    using assms(1,2) by (auto simp: resolve_asset_def and_then_Inr_iff Let_def split: if_splits)
  note found = resolve_matches [OF this]
  show ?thesis
  proof (cases "exact_request request")
    case True
    then show ?thesis using found assms(4)
      by (simp add: satisfies_def jdk_of_artifact_def matching_release_def)
  next
    case False
    then have digits: "takeWhile is_digit (tr_version request) = tr_version request"
      by (simp add: exact_request_def list_all_iff takeWhile_eq_all_conv)
    have shown: "tr_version request = show_nat (unat (cr_major (ra_release a)))"
      using found False by (simp add: matching_release_def)
    have "unat (cr_major (ra_release a)) < 2 ^ 16" using unsigned_less [of "cr_major (ra_release a)"] by simp
    then have "parse_u16 (tr_version request) = Some (unat (cr_major (ra_release a)))"
      unfolding shown by (rule parse_uint_show_nat)
    then have "major = cr_major (ra_release a)"
      using assms(3) digits by (simp add: requested_major_def)
    then show ?thesis using False by (simp add: satisfies_def jdk_of_artifact_def)
  qed
qed

end

lemma is_hex_lower: "is_hex c \<Longrightarrow> is_hex (to_lower c)"
proof -
  assume hex: "is_hex c"
  show ?thesis
  proof (cases "is_upper c")
    case True
    then have "byte (to_lower c) = byte c + 32"
      by (simp add: to_lower_def is_upper_def byte_char_of)
    with hex True show ?thesis by (auto simp: is_hex_def is_upper_def is_digit_def)
  qed (use hex in \<open>simp add: to_lower_def\<close>)
qed

lemma foojay_resolve_ok:
  assumes "foojay_resolve api pf vendor version exact = Inr a"
  shows "matching_release vendor version exact (ra_release a) \<and>
    length (ra_checksum a) = 64 \<and> list_all is_hex (ra_checksum a)"
proof -
  let ?sorted = "\<lambda>packages. sort_by newest_first (filter (matching_release vendor version exact)
       (translate_packages packages pf))"
  from assms obtain packages where
    run: "(case ?sorted packages of
          [] \<Rightarrow> Inl (Invalid (''no '' @ vendor @ '' JDK found for '' @ version))
        | release # _ \<Rightarrow>
            and_then (decoded api (fj_infos api) ''download''
              (fj_send api [''ids'', cr_source_id release] [] [])) (\<lambda>infos.
            case infos of
              [] \<Rightarrow> Inl (Invalid (''Foojay returned no download metadata for '' @ cr_source_id release))
            | detail # _ \<Rightarrow>
                if \<not> valid_checksum detail
                then Inl (Invalid (''Foojay returned no valid SHA-256 checksum for '' @ cr_source_id release))
                else and_then (map_err (\<lambda>e. Invalid (''invalid Foojay JDK download URL: '' @ e))
                       (fj_parse_url api (fi_direct_download_uri detail))) (\<lambda>u.
                     Inr \<lparr>ra_release = release, ra_url = u, ra_checksum = lowercase (fi_checksum detail)\<rparr>))) = Inr a"
    unfolding foojay_resolve_def Let_def and_then_Inr_iff [of "ok_or _ _"] and_then_Inr_iff [of "decoded _ _ ''package'' _"]
    by blast
  then obtain release rest where sorted: "?sorted packages = release # rest"
    by (cases "?sorted packages") auto
  from run obtain infos where
    "(case infos of
        [] \<Rightarrow> Inl (Invalid (''Foojay returned no download metadata for '' @ cr_source_id release))
      | detail # _ \<Rightarrow>
          if \<not> valid_checksum detail
          then Inl (Invalid (''Foojay returned no valid SHA-256 checksum for '' @ cr_source_id release))
          else and_then (map_err (\<lambda>e. Invalid (''invalid Foojay JDK download URL: '' @ e))
                 (fj_parse_url api (fi_direct_download_uri detail))) (\<lambda>u.
               Inr \<lparr>ra_release = release, ra_url = u, ra_checksum = lowercase (fi_checksum detail)\<rparr>)) = Inr a"
    unfolding sorted list.case and_then_Inr_iff [of "decoded _ _ _ _"] by blast
  then obtain detail where a: "ra_release a = release" "valid_checksum detail"
      "ra_checksum a = lowercase (fi_checksum detail)"
    by (cases infos) (auto simp: and_then_Inr_iff split: if_splits)
  have "release \<in> set (sort_by newest_first (filter (matching_release vendor version exact)
       (translate_packages packages pf)))" by (simp add: sorted)
  then have "matching_release vendor version exact release" by simp
  with a show ?thesis
    by (auto simp: valid_checksum_def lowercase_def list_all_iff is_hex_lower)
qed

interpretation foojay: jdk_catalog_provider "foojay_resolve api"
  using foojay_resolve_ok by unfold_locales blast+

text \<open>So the release that the Foojay service gives for a request makes an installation that fits.\<close>

lemma foojay_asset_satisfies:
  assumes "je_provider env = foojay_provider api" "resolve_asset env request = Inr a"
    and "requested_major request = Inr major"
    and "exact_request request \<Longrightarrow> cr_major (ra_release a) = major"
  shows "satisfies request major (jdk_of_artifact env request a)"
proof -
  have "jv_resolve (je_provider env) = foojay_resolve api"
    using assms(1) by (simp add: foojay_provider_def)
  from foojay.asset_satisfies [OF this assms(2-4)] show ?thesis .
qed

section \<open>Downloads\<close>

definition trusted_download :: "str \<Rightarrow> url \<Rightarrow> bool" where
  "trusted_download vendor u \<longleftrightarrow>
     ur_scheme u = ''https'' \<and> ur_port u = Some 443 \<and> ur_username u = [] \<and> ur_password u = None \<and>
     (\<exists>host. map_option lowercase (ur_host u) = Some host \<and>
        (github_trusted vendor RedirectUrl host (lowercase (ur_path u)) \<or>
         trusted_host vendor RedirectUrl host))"

lemma redirect_trusts_more:
  "trusted_host vendor stage host \<Longrightarrow> trusted_host vendor RedirectUrl host"
  "github_trusted vendor stage host path \<Longrightarrow> github_trusted vendor RedirectUrl host path"
proof -
  show "trusted_host vendor RedirectUrl host" if "trusted_host vendor stage host"
  proof (cases "vendor = ''jetbrains''")
    case True
    show ?thesis using that unfolding trusted_host_def True by simp blast
  next
    case False
    then have "vendor = ''jetbrains'' \<longleftrightarrow> False" by simp
    then show ?thesis using that by (simp only: trusted_host_def if_False)
  qed
  show "github_trusted vendor RedirectUrl host path" if "github_trusted vendor stage host path"
    using that by (auto simp: github_trusted_def split: option.splits)
qed

lemma validated_trusted: "validate_download_url vendor u stage = Inr () \<Longrightarrow> trusted_download vendor u"
  using redirect_trusts_more [of vendor stage]
  by (auto simp: validate_download_url_def trusted_download_def split: if_splits option.splits)

definition restricted :: "str \<Rightarrow> str \<Rightarrow> jdk_env \<Rightarrow> jdk_env" where
  "restricted e vendor env =
     env\<lparr>je_get := \<lambda>u. if trusted_download vendor u then je_get env u else Inl e\<rparr>"

lemma follow_restricted:
  "trusted_download vendor u \<Longrightarrow>
     follow_redirects (restricted e vendor env) vendor u n = follow_redirects env vendor u n"
proof (induction env vendor u n rule: follow_redirects.induct)
  case (1 env vendor u n)
  let ?env = "restricted e vendor env"
  have get: "je_get ?env u = je_get env u" using "1.prems" by (simp add: restricted_def)
  have other: "je_join_url ?env = je_join_url env" "je_status_error ?env = je_status_error env"
    by (simp_all add: restricted_def)
  show ?case
    unfolding follow_redirects.simps [of ?env vendor u n] follow_redirects.simps [of env vendor u n]
      get other
    using "1.IH" validated_trusted
    by (auto split: sum.splits option.splits)
qed

lemma write_chunks_content:
  "write_chunks faults p cs hashed t = (Inr h, t') \<Longrightarrow> bt_get t p = Some (FileNode hashed) \<Longrightarrow>
     bt_get t' p = Some (FileNode h)"
proof (induction cs arbitrary: hashed t)
  case (Cons c cs)
  then obtain b where c: "c = Inr b"
    by (cases c) (simp_all add: step_of_def)
  then obtain t1 where "fs_append faults p b t = (Inr (), t1)"
    "write_chunks faults p cs (hashed @ b) t1 = (Inr h, t')"
    using Cons.prems(1) by (auto simp: step_bind_Inr io_def split: prod.splits)
  moreover have "bt_get t1 p = Some (FileNode (hashed @ b))"
    using calculation(1) Cons.prems(2)
    by (auto simp: fs_append_def guarded_def split: option.splits)
  ultimately show ?case using Cons.IH by blast
qed (simp add: step_of_def)

text \<open>
  C20: a download asks only trusted addresses (HTTPS on port 443, without
  credentials, on a host approved for the distribution, for redirects too): with every other
  address out of reach its outcome is the same. When it succeeds, the file has the announced
  checksum.
\<close>
theorem downloads_trusted:
  "download_verified (env\<lparr>je_get := \<lambda>u. if trusted_download (cr_vendor (ra_release artifact)) u
       then je_get env u else Inl e\<rparr>) artifact destination t =
     download_verified env artifact destination t \<and>
    (\<forall>t'. download_verified env artifact destination t = (Inr (), t') \<longrightarrow>
       (\<exists>b. bt_get t' destination = Some (FileNode b) \<and> je_sha256_hex env b = ra_checksum artifact))"
proof (intro conjI allI impI)
  let ?vendor = "cr_vendor (ra_release artifact)"
  let ?env = "env\<lparr>je_get := \<lambda>u. if trusted_download ?vendor u then je_get env u else Inl e\<rparr>"
  have follow: "follow_redirects ?env ?vendor (ra_url artifact) 0 = follow_redirects env ?vendor (ra_url artifact) 0"
    if "validate_download_url ?vendor (ra_url artifact) InitialUrl = Inr ()"
    using follow_restricted [OF validated_trusted [OF that], of e env 0] by (simp add: restricted_def)
  show "download_verified ?env artifact destination t = download_verified env artifact destination t"
  proof (cases "validate_download_url ?vendor (ra_url artifact) InitialUrl")
    case (Inl x)
    then show ?thesis by (simp add: download_verified_def Let_def step_bind_of)
  next
    case (Inr x)
    then show ?thesis using follow
      by (simp add: download_verified_def Let_def step_bind_of cong: if_cong)
  qed
next
  fix t' assume run: "download_verified env artifact destination t = (Inr (), t')"
  let ?vendor = "cr_vendor (ra_release artifact)"
  have valid: "validate_download_url ?vendor (ra_url artifact) InitialUrl = Inr ()"
    using run by (cases "validate_download_url ?vendor (ra_url artifact) InitialUrl")
      (simp_all add: download_verified_def Let_def step_bind_of)
  obtain reply where reply: "follow_redirects env ?vendor (ra_url artifact) 0 = Inr reply"
    using run by (cases "follow_redirects env ?vendor (ra_url artifact) 0")
      (simp_all add: download_verified_def Let_def step_bind_of valid)
  obtain t1 t2 hashed where
    wrote: "fs_write (je_faults env) destination [] t = (Inr (), t1)"
    and chunks: "write_chunks (je_faults env) destination (dl_chunks reply) [] t1 = (Inr hashed, t2)"
    and sum: "je_sha256_hex env hashed = ra_checksum artifact" "t' = t2"
    using run unfolding download_verified_def Let_def step_bind_of valid reply sum.case
    by (auto simp: step_bind_Inr io_def guarded_def split: prod.splits if_splits option.splits)
  have "bt_get t1 destination = Some (FileNode [])"
    using wrote by (auto simp: fs_write_def guarded_def split: option.splits if_splits)
  then show "\<exists>b. bt_get t' destination = Some (FileNode b) \<and> je_sha256_hex env b = ra_checksum artifact"
    using write_chunks_content [OF chunks] sum by blast
qed

section \<open>Finding\<close>

definition installed :: "jdk_env \<Rightarrow> tree \<Rightarrow> managed_jdk \<Rightarrow> bool" where
  "installed env t jdk \<longleftrightarrow> fs_is_dir t (je_root env) \<and>
     (\<exists>p n bytes parsed. (p, n) \<in> set t \<and> path_parent p = Some (je_root env) \<and>
        bt_get t (path_join p (path_of metadata_name)) = Some (FileNode bytes) \<and>
        je_parse_jdk env bytes = Some parsed \<and>
        jdk = parsed\<lparr>jd_version := normalize_managed_version (jd_version parsed) (jd_major parsed)\<rparr> \<and>
        valid_install env t p jdk)"

lemma read_content:
  "bt_get t p = Some (FileNode b) \<Longrightarrow>
     fst (io p (fs_read faults p) t) = (case faults ''read'' p of None \<Rightarrow> Inr b | Some e \<Rightarrow> Inl (BuildIo p e))"
  by (simp add: io_def fs_read_def guarded_def split: option.splits)

lemma entry_jdk_set:
  assumes "entry_jdk env t p = Inr js"
  shows "length js \<le> 1 \<and> (\<forall>jdk. jdk \<in> set js \<longleftrightarrow>
    (\<exists>bytes parsed. bt_get t (path_join p (path_of metadata_name)) = Some (FileNode bytes) \<and>
       je_parse_jdk env bytes = Some parsed \<and>
       jdk = parsed\<lparr>jd_version := normalize_managed_version (jd_version parsed) (jd_major parsed)\<rparr> \<and>
       valid_install env t p jdk))"
proof (cases "fs_is_file t (path_join p (path_of metadata_name))")
  case True
  then obtain bytes where bytes: "bt_get t (path_join p (path_of metadata_name)) = Some (FileNode bytes)"
    by (auto simp: fs_is_file_iff)
  have run: "entry_jdk env t p = Inr js \<longleftrightarrow> je_faults env ''read'' (path_join p (path_of metadata_name)) = None \<and>
      (case je_parse_jdk env bytes of
         None \<Rightarrow> js = []
       | Some parsed \<Rightarrow>
           (let jdk = parsed\<lparr>jd_version := normalize_managed_version (jd_version parsed) (jd_major parsed)\<rparr>
            in js = (if valid_install env t p jdk then [jdk] else [])))"
    unfolding entry_jdk_def Let_def read_content [OF bytes] using True
    by (auto split: option.splits)
  show ?thesis
  proof (cases "je_parse_jdk env bytes")
    case None
    then show ?thesis using assms run bytes by simp
  next
    case (Some parsed)
    define jdk where "jdk = parsed\<lparr>jd_version := normalize_managed_version (jd_version parsed) (jd_major parsed)\<rparr>"
    have "js = (if valid_install env t p jdk then [jdk] else [])"
      using assms run Some by (simp add: jdk_def Let_def)
    then show ?thesis using Some bytes by (auto simp: jdk_def)
  qed
next
  case False
  then show ?thesis using assms by (auto simp: entry_jdk_def Let_def fs_is_file_iff)
qed

lemma list_jdks_parts:
  assumes "list_jdks env t = Inr jdks" "fs_is_dir t (je_root env)"
  obtains found where
    "traverse (\<lambda>e. entry_jdk env t (fst e))
       (filter (\<lambda>e. path_parent (fst e) = Some (je_root env)) t) = Inr found"
    "jdks = sort_key jdk_key (concat found)"
  using assms
  by (auto simp: list_jdks_def and_then_Inr_iff io_def fs_read_dir_def guarded_def
      split: option.splits)

lemma list_jdks_set:
  assumes "list_jdks env t = Inr jdks"
  shows "jdk \<in> set jdks \<longleftrightarrow> installed env t jdk"
proof (cases "fs_is_dir t (je_root env)")
  case True
  from list_jdks_parts [OF assms True] obtain found where
    found: "traverse (\<lambda>e. entry_jdk env t (fst e))
       (filter (\<lambda>e. path_parent (fst e) = Some (je_root env)) t) = Inr found"
    and jdks: "jdks = sort_key jdk_key (concat found)" .
  let ?es = "filter (\<lambda>e. path_parent (fst e) = Some (je_root env)) t"
  have "jdk \<in> set jdks \<longleftrightarrow> (\<exists>js \<in> set found. jdk \<in> set js)" by (simp add: jdks)
  also have "\<dots> \<longleftrightarrow> (\<exists>e \<in> set ?es. \<exists>js. entry_jdk env t (fst e) = Inr js \<and> jdk \<in> set js)"
    using traverse_in_set [OF found] traverse_set_in [OF found] by (metis Inr_inject)
  also have "\<dots> \<longleftrightarrow> (\<exists>e \<in> set ?es. \<exists>bytes parsed.
       bt_get t (path_join (fst e) (path_of metadata_name)) = Some (FileNode bytes) \<and>
       je_parse_jdk env bytes = Some parsed \<and>
       jdk = parsed\<lparr>jd_version := normalize_managed_version (jd_version parsed) (jd_major parsed)\<rparr> \<and>
       valid_install env t (fst e) jdk)"
  proof (rule bex_cong [OF refl])
    fix e assume "e \<in> set ?es"
    then obtain js where "entry_jdk env t (fst e) = Inr js"
      using traverse_set_in [OF found] by blast
    then show "(\<exists>js. entry_jdk env t (fst e) = Inr js \<and> jdk \<in> set js) \<longleftrightarrow> (\<exists>bytes parsed.
       bt_get t (path_join (fst e) (path_of metadata_name)) = Some (FileNode bytes) \<and>
       je_parse_jdk env bytes = Some parsed \<and>
       jdk = parsed\<lparr>jd_version := normalize_managed_version (jd_version parsed) (jd_major parsed)\<rparr> \<and>
       valid_install env t (fst e) jdk)"
      using entry_jdk_set by simp
  qed
  also have "\<dots> \<longleftrightarrow> installed env t jdk" using True unfolding installed_def by force
  finally show ?thesis .
next
  case False
  then show ?thesis using assms by (simp add: list_jdks_def installed_def)
qed

lemma find_rev: "List.find P (rev xs) = (if filter P xs = [] then None else Some (last (filter P xs)))"
  by (induction xs) (auto simp: find_append filter_empty_conv split: option.splits)

lemma last_greatest: "sorted (map f xs) \<Longrightarrow> x \<in> set xs \<Longrightarrow> f x \<le> f (last xs)"
  by (induction xs) auto

lemma satisfying_keys:
  assumes "satisfies request major j" "satisfies request major k" "jdk_key k \<le> jdk_key j"
  shows "version_key (jd_version k) \<le> version_key (jd_version j)"
  using assms by (auto simp: satisfies_def jdk_key_def less_eq_prod_def)

text \<open>
  A search finds the newest valid installation that satisfies the request, and
  none exactly when there is none; a removal that is not exact affects exactly the installation
  the search finds.
\<close>
theorem newest_found:
  assumes "find_jdk env request t = Inr found"
  shows "\<exists>major. requested_major request = Inr major \<and>
    (case found of
       None \<Rightarrow> \<not> (\<exists>k. installed env t k \<and> satisfies request major k)
     | Some j \<Rightarrow> installed env t j \<and> satisfies request major j \<and>
         (\<forall>k. installed env t k \<and> satisfies request major k \<longrightarrow>
            version_key (jd_version k) \<le> version_key (jd_version j))) \<and>
    (\<not> exact_request request \<longrightarrow>
       removal_candidates env request False t = Inr (case found of None \<Rightarrow> [] | Some j \<Rightarrow> [j]))"
proof -
  from assms obtain major jdks where valid: "validate_vendor request = Inr ()"
    and major: "requested_major request = Inr major" and jdks: "list_jdks env t = Inr jdks"
    and found: "found = List.find (satisfies request major) (rev jdks)"
    by (auto simp: find_jdk_def and_then_Inr_iff)
  let ?sat = "filter (satisfies request major) jdks"
  have in_sat: "k \<in> set ?sat \<longleftrightarrow> installed env t k \<and> satisfies request major k" for k
    using list_jdks_set [OF jdks] by auto
  have "sorted (map jdk_key jdks)"
    using jdks by (auto simp: list_jdks_def and_then_Inr_iff split: if_splits)
  then have sorted: "sorted (map jdk_key ?sat)" by (rule sorted_filter)
  have "removal_candidates env request False t = Inr (case found of None \<Rightarrow> [] | Some j \<Rightarrow> [j])"
    if "\<not> exact_request request"
    using that by (simp add: removal_candidates_def valid major jdks found find_rev)
  moreover have "case found of
       None \<Rightarrow> \<not> (\<exists>k. installed env t k \<and> satisfies request major k)
     | Some j \<Rightarrow> installed env t j \<and> satisfies request major j \<and>
         (\<forall>k. installed env t k \<and> satisfies request major k \<longrightarrow>
            version_key (jd_version k) \<le> version_key (jd_version j))"
  proof (cases "?sat = []")
    case True
    then show ?thesis using in_sat by (auto simp: found find_rev)
  next
    case False
    have "version_key (jd_version k) \<le> version_key (jd_version (last ?sat))"
      if "installed env t k \<and> satisfies request major k" for k
    proof (rule satisfying_keys)
      show "satisfies request major (last ?sat)" using in_sat last_in_set [OF False] by blast
      show "satisfies request major k" using that by blast
      have "k \<in> set ?sat" using that in_sat by blast
      then show "jdk_key k \<le> jdk_key (last ?sat)" by (rule last_greatest [OF sorted])
    qed
    then show ?thesis using in_sat last_in_set [OF False] False by (simp add: found find_rev)
  qed
  ultimately show ?thesis using major by blast
qed

section \<open>Removal\<close>

lemma bt_ext:
  assumes "bt_wf s" "bt_wf t" "\<forall>k. bt_get s k = bt_get t k"
  shows "s = t"
proof -
  have "set s = set t"
    using assms by (auto simp: bt_in_set_get [OF assms(1)] bt_in_set_get [OF assms(2)])
  moreover have "distinct (map fst s)" "distinct (map fst t)" "sorted (map fst s)" "sorted (map fst t)"
    using assms(1,2) by (simp_all add: bt_wf_def bt_keys_def strict_sorted_iff)
  ultimately show ?thesis
    by (intro map_sorted_distinct_set_unique [of fst]) (auto simp: distinct_map)
qed

lemma move_back:
  assumes "bt_wf t" "apart a b" "\<forall>p. prefix b p \<longrightarrow> bt_get t p = None"
  shows "move_subtree b a (move_subtree a b t) = t"
proof (rule bt_ext)
  show "\<forall>k. bt_get (move_subtree b a (move_subtree a b t)) k = bt_get t k"
  proof
    fix k
    have inner: "bt_get (move_subtree b a (move_subtree a b t)) k =
      (if prefix a k then bt_get (move_subtree a b t) (b @ drop (length a) k)
       else if prefix b k then None else bt_get (move_subtree a b t) k)"
      by (rule bt_get_move_subtree [OF bt_wf_move_subtree [OF assms(1)]])
    show "bt_get (move_subtree b a (move_subtree a b t)) k = bt_get t k"
      unfolding inner bt_get_move_subtree [OF assms(1)]
      using assms(3) apart_below [OF assms(2)] by (auto simp: prefix_def)
  qed
qed (use assms(1) in auto)

lemma drop_moved:
  assumes "bt_wf t" "apart a b" "\<forall>p. prefix b p \<longrightarrow> bt_get t p = None"
  shows "drop_subtree b (move_subtree a b t) = drop_subtree a t"
proof (rule bt_ext)
  show "\<forall>k. bt_get (drop_subtree b (move_subtree a b t)) k = bt_get (drop_subtree a t) k"
    unfolding bt_get_drop_subtree bt_get_move_subtree [OF assms(1)] using assms(3) by auto
qed (use assms(1) in auto)

lemma drop_move_commute:
  assumes "bt_wf t" "apart a x" "apart b x"
  shows "drop_subtree x (move_subtree a b t) = move_subtree a b (drop_subtree x t)"
proof (rule bt_ext)
  show "\<forall>k. bt_get (drop_subtree x (move_subtree a b t)) k = bt_get (move_subtree a b (drop_subtree x t)) k"
    unfolding bt_get_drop_subtree bt_get_move_subtree [OF assms(1)]
      bt_get_move_subtree [OF bt_wf_drop_subtree [OF assms(1)]]
    using apart_below [OF assms(2)] apart_below [OF assms(3)] apart_append [OF apart_sym [OF assms(2)]]
    by (auto simp: bt_get_drop_subtree)
qed (use assms(1) in auto)

text \<open>A part of what is below a path is kept.\<close>

definition keep_part :: "path \<Rightarrow> (path \<Rightarrow> bool) \<Rightarrow> tree \<Rightarrow> tree" where
  "keep_part p Q t = filter (\<lambda>e. below p e \<longrightarrow> Q (fst e)) t"

lemma bt_get_keep_part: "bt_get (keep_part p Q t) k = (if prefix p k \<and> \<not> Q k then None else bt_get t k)"
  by (simp add: keep_part_def bt_get_below)

lemma bt_wf_keep_part [simp, intro]: "bt_wf t \<Longrightarrow> bt_wf (keep_part p Q t)"
  unfolding keep_part_def by (rule bt_wf_filter)

lemma part_move_commute:
  assumes "bt_wf t" "apart a x" "apart b x"
  shows "keep_part x Q (move_subtree a b t) = move_subtree a b (keep_part x Q t)"
proof (rule bt_ext)
  show "\<forall>k. bt_get (keep_part x Q (move_subtree a b t)) k = bt_get (move_subtree a b (keep_part x Q t)) k"
    unfolding bt_get_keep_part bt_get_move_subtree [OF assms(1)]
      bt_get_move_subtree [OF bt_wf_keep_part [OF assms(1)]]
    using apart_below [OF assms(2)] apart_below [OF assms(3)] apart_append [OF apart_sym [OF assms(2)]]
    by auto
qed (use assms(1) in auto)

lemma part_moved:
  assumes "bt_wf t" "apart a b" "\<forall>p. prefix b p \<longrightarrow> bt_get t p = None"
  shows "keep_part b Q (move_subtree a b t) = move_subtree a b (keep_part a (\<lambda>q. Q (b @ drop (length a) q)) t)"
proof (rule bt_ext)
  show "\<forall>k. bt_get (keep_part b Q (move_subtree a b t)) k =
      bt_get (move_subtree a b (keep_part a (\<lambda>q. Q (b @ drop (length a) q)) t)) k"
    unfolding bt_get_keep_part bt_get_move_subtree [OF assms(1)]
      bt_get_move_subtree [OF bt_wf_keep_part [OF assms(1)]]
    using apart_below [OF assms(2)] by (auto simp: prefix_def)
qed (use assms(1) in auto)

text \<open>What a removal that fails keeps: the directory, and with an entry those above it.\<close>

definition upward :: "path \<Rightarrow> (path \<Rightarrow> bool) \<Rightarrow> bool" where
  "upward p Q \<longleftrightarrow> Q p \<and> (\<forall>x y. prefix p x \<longrightarrow> prefix x y \<longrightarrow> Q y \<longrightarrow> Q x)"

lemma remove_dir_all_cases:
  obtains "fs_remove_dir_all faults p t = (Inr (), drop_subtree p t)"
  | e Q where "fs_remove_dir_all faults p t = (Inl e, keep_part p Q t)" "upward p Q"
proof -
  have all: "t = keep_part p (\<lambda>_. True) t" by (simp add: keep_part_def)
  have kept: "upward p (kept_below faults p t)"
    by (auto simp: upward_def kept_below_def intro: prefix_order.trans dest: prefix_order.antisym)
  show ?thesis
  proof (cases "fs_is_dir t p \<or> bt_get t p = Some LinkNode")
    case False
    then show ?thesis using that(2) [of "''no such directory''" "\<lambda>_. True"] all
      by (simp add: fs_remove_dir_all_def upward_def)
  next
    case True
    then show ?thesis using that kept
      by (cases "faults ''remove'' p") (auto simp: fs_remove_dir_all_def remove_part_def keep_part_def)
  qed
qed

lemma closed_below_iff:
  assumes "bt_wf t"
  shows "closed_below t root \<longleftrightarrow> (\<forall>p n. bt_get t p = Some n \<and> strict_prefix root p \<longrightarrow>
    (\<exists>q. path_parent p = Some q \<and> bt_get t q = Some DirNode))"
  using bt_in_set_get [OF assms] unfolding closed_below_def fs_is_dir_def by fastforce

lemma child_not_above: "path_parent c = Some r \<Longrightarrow> \<not> prefix c r"
  by (auto simp: path_parent_Some prefix_def)

lemma path_parent_append: "path_parent (p @ r @ [c]) = (if c = RootDir then None else Some (p @ r))"
  by (auto simp: path_parent_def butlast_append)

lemma closed_below_drop:
  assumes "bt_wf t" "closed_below t root"
  shows "closed_below (drop_subtree h t) root"
  unfolding closed_below_iff [OF bt_wf_drop_subtree [OF assms(1)]]
proof (intro allI impI)
  fix p n assume p: "bt_get (drop_subtree h t) p = Some n \<and> strict_prefix root p"
  then have "bt_get t p = Some n" "\<not> prefix h p" by (auto simp: bt_get_drop_subtree split: if_splits)
  moreover obtain q where q: "path_parent p = Some q" "bt_get t q = Some DirNode"
    using p calculation assms(2) unfolding closed_below_iff [OF assms(1)] by blast
  ultimately show "\<exists>q. path_parent p = Some q \<and> bt_get (drop_subtree h t) q = Some DirNode"
    using child_prefix [OF q(1)] prefix_order.trans [of h q p]
    by (auto simp: bt_get_drop_subtree)
qed

lemma closed_below_part:
  assumes "bt_wf t" "closed_below t root" "upward h Q"
  shows "closed_below (keep_part h Q t) root"
  unfolding closed_below_iff [OF bt_wf_keep_part [OF assms(1)]]
proof (intro allI impI)
  fix p n assume p: "bt_get (keep_part h Q t) p = Some n \<and> strict_prefix root p"
  then have "bt_get t p = Some n" "prefix h p \<longrightarrow> Q p" by (auto simp: bt_get_keep_part split: if_splits)
  moreover obtain q where q: "path_parent p = Some q" "bt_get t q = Some DirNode"
    using p calculation assms(2) unfolding closed_below_iff [OF assms(1)] by blast
  ultimately have "prefix h q \<longrightarrow> Q q"
    using child_prefix [OF q(1)] prefix_order.trans [of h q p] assms(3) by (auto simp: upward_def strict_prefix_def)
  then show "\<exists>q. path_parent p = Some q \<and> bt_get (keep_part h Q t) q = Some DirNode"
    using q by (auto simp: bt_get_keep_part)
qed

lemma closed_below_move:
  assumes wf: "bt_wf t" and closed: "closed_below t root" and dir: "fs_is_dir t root"
    and a: "path_parent a = Some root" and h: "path_parent h = Some root"
  shows "closed_below (move_subtree h a t) root"
  unfolding closed_below_iff [OF bt_wf_move_subtree [OF wf]]
proof (intro allI impI)
  let ?t = "move_subtree h a t"
  note get = bt_get_move_subtree [OF wf, of h a]
  note entry = closed [unfolded closed_below_iff [OF wf], rule_format]
  fix p n assume p: "bt_get ?t p = Some n \<and> strict_prefix root p"
  show "\<exists>q. path_parent p = Some q \<and> bt_get ?t q = Some DirNode"
  proof (cases "prefix a p")
    case True
    then obtain r where r: "p = a @ r" by (auto simp: prefix_def)
    then have hr: "bt_get t (h @ r) = Some n" using p by (simp add: get)
    show ?thesis
    proof (cases r rule: rev_cases)
      case Nil
      have "bt_get ?t root = Some DirNode"
        using dir child_not_above [OF a] child_not_above [OF h] by (simp add: get fs_is_dir_def)
      then show ?thesis using a r Nil by simp
    next
      case (snoc r' c)
      have "strict_prefix root (h @ r)" using h by (auto simp: path_parent_Some strict_prefix_def prefix_def)
      then obtain q where "path_parent (h @ r' @ [c]) = Some q" "bt_get t q = Some DirNode"
        using entry [of "h @ r" n] hr snoc by auto
      then have "c \<noteq> RootDir" "bt_get t (h @ r') = Some DirNode"
        by (auto simp: path_parent_append split: if_splits)
      then show ?thesis using r snoc by (auto simp: path_parent_append get)
    qed
  next
    case False
    then have "\<not> prefix h p" "bt_get t p = Some n" using p by (auto simp: get split: if_splits)
    moreover obtain q where q: "path_parent p = Some q" "bt_get t q = Some DirNode"
      using entry [of p n] p calculation by blast
    ultimately show ?thesis
      using False child_prefix [OF q(1)] prefix_order.trans [of h q p] prefix_order.trans [of a q p]
      by (auto simp: get)
  qed
qed

definition staged_tree :: "(path \<times> path) list \<Rightarrow> tree \<Rightarrow> tree" where
  "staged_tree xs t = fold (\<lambda>(a, h). move_subtree h a) xs t"

text \<open>The homes to move are directories of the store, the paths to move them to are free.\<close>

definition stageable :: "path \<Rightarrow> (path \<times> path) list \<Rightarrow> tree \<Rightarrow> bool" where
  "stageable root xs t \<longleftrightarrow>
     bt_wf t \<and> closed_below t root \<and> fs_is_dir t root \<and> distinct (map fst xs @ map snd xs) \<and>
     (\<forall>(a, h) \<in> set xs. path_parent a = Some root \<and> path_parent h = Some root \<and>
        bt_get t h = Some DirNode \<and> bt_get t a = None)"

lemma stageable_head:
  assumes "stageable root ((a, h) # xs) t"
  shows "apart h a" "\<forall>p. prefix a p \<longrightarrow> bt_get t p = None" "bt_wf t"
    "stageable root xs (move_subtree h a t)" "stageable root xs (drop_subtree h t)"
    "\<forall>(b, k) \<in> set xs. apart k a \<and> apart b a"
proof -
  have wf: "bt_wf t" and closed: "closed_below t root" and dir: "fs_is_dir t root"
    and a: "path_parent a = Some root" "bt_get t a = None"
    and h: "path_parent h = Some root" "bt_get t h = Some DirNode"
    and ne: "a \<noteq> h" and dist: "distinct (map fst xs @ map snd xs)"
    and free: "a \<notin> set (map fst xs @ map snd xs)" "h \<notin> set (map fst xs @ map snd xs)"
    and all: "\<forall>(b, k) \<in> set xs. path_parent b = Some root \<and> path_parent k = Some root \<and>
        bt_get t k = Some DirNode \<and> bt_get t b = None"
    using assms unfolding stageable_def by simp_all
  have xs: "\<forall>(b, k) \<in> set xs. path_parent b = Some root \<and> path_parent k = Some root \<and>
        bt_get t k = Some DirNode \<and> bt_get t b = None \<and> b \<noteq> a \<and> k \<noteq> a \<and> b \<noteq> h \<and> k \<noteq> h"
  proof (clarify)
    fix b k assume bk: "(b, k) \<in> set xs"
    then have "b \<in> set (map fst xs @ map snd xs)" "k \<in> set (map fst xs @ map snd xs)" by force+
    with bk all free show "path_parent b = Some root \<and> path_parent k = Some root \<and>
        bt_get t k = Some DirNode \<and> bt_get t b = None \<and> b \<noteq> a \<and> k \<noteq> a \<and> b \<noteq> h \<and> k \<noteq> h" by blast
  qed
  show "bt_wf t" by (rule wf)
  show apart: "apart h a" using siblings_apart [OF h(1) a(1)] ne by simp
  show others: "\<forall>(b, k) \<in> set xs. apart k a \<and> apart b a"
    using xs siblings_apart [OF _ a(1)] by fastforce
  have others': "\<forall>(b, k) \<in> set xs. apart k h \<and> apart b h"
    using xs siblings_apart [OF _ h(1)] by fastforce
  have "closed_below t a"
    using closed a(1) unfolding closed_below_iff [OF wf]
    by (meson child_prefix prefix_order.le_less_trans)
  then have "\<not> strict_prefix a p" if "bt_get t p = Some n" for p n
    using nothing_below [OF wf _ _ that] a(2) by (simp add: fs_is_dir_def)
  then show "\<forall>p. prefix a p \<longrightarrow> bt_get t p = None"
    using a(2) unfolding prefix_order.le_less by (metis not_Some_eq)
  have "bt_get (move_subtree h a t) p = bt_get t p" if "apart p a" "apart p h" for p
    using that by (simp add: bt_get_move_subtree [OF wf] apart_def)
  moreover have "bt_get (drop_subtree h t) p = bt_get t p" if "apart p h" for p
    using that by (simp add: bt_get_drop_subtree apart_def)
  moreover have "fs_is_dir (move_subtree h a t) root" "fs_is_dir (drop_subtree h t) root"
    using dir child_not_above [OF a(1)] child_not_above [OF h(1)]
    by (simp_all add: fs_is_dir_def bt_get_move_subtree [OF wf] bt_get_drop_subtree)
  ultimately show "stageable root xs (move_subtree h a t)" "stageable root xs (drop_subtree h t)"
    using xs others others' dist wf closed_below_move [OF wf closed dir a(1) h(1)] closed_below_drop [OF wf closed]
    unfolding stageable_def by fastforce+
qed

lemma stageable_part:
  assumes "stageable root xs t" "path_parent h = Some root" "upward h Q"
    and "\<forall>k \<in> snd ` set xs. k = h \<or> apart k h"
  shows "stageable root xs (keep_part h Q t)"
proof -
  have "\<not> prefix h root" by (rule child_not_above [OF assms(2)])
  moreover have "Q h" using assms(3) by (simp add: upward_def)
  ultimately show ?thesis
    using assms closed_below_part [of t root h Q]
    unfolding stageable_def by (fastforce simp: bt_get_keep_part fs_is_dir_def apart_def)
qed

lemma staged_part:
  "\<forall>(b, k) \<in> set ys. apart k a \<and> apart b a \<Longrightarrow> bt_wf t \<Longrightarrow>
     keep_part a Q (staged_tree ys t) = staged_tree ys (keep_part a Q t)"
proof (induction ys arbitrary: t)
  case (Cons y ys)
  then show ?case using part_move_commute [of t "snd y" a "fst y" Q]
    by (auto simp: staged_tree_def split: prod.splits)
qed (simp add: staged_tree_def)

lemma rename_back:
  assumes "stageable root ((a, h) # xs) t" "faults ''rename'' h = None"
  shows "fs_rename faults a h (move_subtree h a t) = (Inr (), t)"
proof -
  note head = stageable_head [OF assms(1)]
  have h: "path_parent h = Some root" "path_parent a = Some root" "bt_get t h = Some DirNode" "fs_is_dir t root"
    using assms(1) by (auto simp: stageable_def)
  have get: "bt_get (move_subtree h a t) a = Some DirNode" "bt_get (move_subtree h a t) h = None"
    "bt_get (move_subtree h a t) root = Some DirNode"
    using h head(1) child_not_above [OF h(1)] child_not_above [OF h(2)]
    by (auto simp: bt_get_move_subtree [OF head(3)] apart_def fs_is_dir_def)
  have "rename_allowed (move_subtree h a t) a h"
    using head(1) h get by (auto simp: rename_allowed_def apart_def parent_ready_def fs_is_dir_def)
  then show ?thesis using assms(2) move_back [OF head(3,1,2)]
    by (simp add: fs_rename_def guarded_def)
qed

lemma rollback_restores:
  "stageable root xs t \<Longrightarrow> \<forall>h \<in> set (map snd xs). faults ''rename'' h = None \<Longrightarrow>
     rollback_staged faults xs (staged_tree xs t) = t"
proof (induction xs arbitrary: t)
  case (Cons x xs)
  obtain a h where x: "x = (a, h)" by fastforce
  note head = stageable_head [OF Cons.prems(1) [unfolded x]]
  have "rollback_staged faults xs (staged_tree xs (move_subtree h a t)) = move_subtree h a t"
    using Cons.IH [OF head(4)] Cons.prems(2) by simp
  then show ?case using rename_back [OF Cons.prems(1) [unfolded x]] Cons.prems(2)
    by (simp add: x staged_tree_def)
qed (simp add: staged_tree_def)

lemma staged_tree_other:
  "bt_wf t \<Longrightarrow> \<forall>(a, h) \<in> set xs. apart p a \<and> apart p h \<Longrightarrow> bt_get (staged_tree xs t) p = bt_get t p"
proof (induction xs arbitrary: t)
  case (Cons x xs)
  obtain a h where x: "x = (a, h)" by fastforce
  have "bt_get (staged_tree xs (move_subtree h a t)) p = bt_get (move_subtree h a t) p"
    using Cons by auto
  moreover have "bt_get (move_subtree h a t) p = bt_get t p"
    using Cons.prems(2) by (simp add: x apart_def bt_get_move_subtree [OF Cons.prems(1)])
  ultimately show ?case by (simp add: x staged_tree_def)
qed (simp add: staged_tree_def)

lemma proper_digits: "CHR ''/'' \<notin> set (show_nat n)"
  using show_nat_set [of "CHR ''/''" n] by (auto simp: is_digit_def byte_def)

lemma staged_path_child: "staged_path env i = je_root env @ [Normal (''.remove-'' @ show_nat (je_pid env) @ ''-'' @ show_nat i)]"
proof -
  have "proper_name (''.remove-'' @ show_nat (je_pid env) @ ''-'' @ show_nat i)"
    using proper_digits by (auto simp: proper_name_def)
  then show ?thesis by (simp add: staged_path_def path_of_name path_join_name del: append.simps)
qed

lemma staged_path_parent: "path_parent (staged_path env i) = Some (je_root env)"
  by (simp add: staged_path_child path_parent_Some)

lemma staged_path_inj: "staged_path env i = staged_path env j \<longleftrightarrow> i = j"
  using show_nat_inj [of i j] by (auto simp: staged_path_child)

lemma stage_jdks_ok:
  assumes "stage_jdks env i jdks staged (staged_tree staged B) = (r, t')"
    and "stageable (je_root env) staged B"
    and "\<forall>j \<in> set jdks. path_parent (jd_home j) = Some (je_root env) \<and> bt_get B (jd_home j) = Some DirNode \<and>
       jd_home j \<notin> set (map snd staged)"
    and "distinct (map jd_home jdks)"
    and "\<forall>a \<in> set (map fst staged). \<exists>k < i. a = staged_path env k"
    and "\<forall>h \<in> set (map snd staged) \<union> jd_home ` set jdks.
       je_faults env ''rename'' h = None \<and> (\<forall>k. h \<noteq> staged_path env k)"
  shows "(\<forall>e. r = Inl e \<longrightarrow> t' = B) \<and>
    (\<forall>xs. r = Inr xs \<longrightarrow> t' = staged_tree xs B \<and> stageable (je_root env) xs B \<and>
       map snd xs = map snd staged @ map jd_home jdks)"
  using assms
proof (induction jdks arbitrary: i staged)
  case (Cons j jdks)
  let ?t = "staged_tree staged B" and ?a = "staged_path env i" and ?h = "jd_home j"
  have restore: "rollback_staged (je_faults env) staged ?t = B"
    using rollback_restores [OF Cons.prems(2)] Cons.prems(6) by blast
  have h: "path_parent ?h = Some (je_root env)" "bt_get B ?h = Some DirNode" "?h \<notin> set (map snd staged)"
    "\<forall>k. ?h \<noteq> staged_path env k"
    using Cons.prems(3,6) by simp_all
  have a: "?a \<notin> set (map fst staged)" using Cons.prems(5) staged_path_inj by fastforce
  have a2: "?a \<notin> set (map snd staged)" using Cons.prems(6) by blast
  have parents: "path_parent b = Some (je_root env) \<and> path_parent k = Some (je_root env)"
    if "(b, k) \<in> set staged" for b k
    using that Cons.prems(2) by (auto simp: stageable_def)
  have wf: "bt_wf B" using Cons.prems(2) by (simp add: stageable_def)
  have h': "bt_get ?t ?h = Some DirNode"
  proof -
    have "apart ?h b \<and> apart ?h k" if "(b, k) \<in> set staged" for b k
      using that parents [OF that] h Cons.prems(5) siblings_apart [OF h(1)] by force
    then show ?thesis using staged_tree_other [OF wf, of staged ?h] h(2) by auto
  qed
  show ?case
  proof (cases "fs_exists ?t ?a")
    case True
    then show ?thesis using Cons.prems(1) restore by (auto simp: Let_def)
  next
    case free: False
    show ?thesis
    proof (rule fs_rename_cases [of "je_faults env" ?h ?a ?t])
      fix e assume "fs_rename (je_faults env) ?h ?a ?t = (Inl e, ?t)"
      then show ?thesis using Cons.prems(1) restore free by (auto simp: Let_def)
    next
      assume moved: "fs_rename (je_faults env) ?h ?a ?t = (Inr (), move_subtree ?h ?a ?t)"
        and allowed: "rename_allowed ?t ?h ?a"
      have none: "bt_get ?t ?a = None"
        using allowed h' free by (auto simp: rename_allowed_def fs_exists_def empty_dir_def)
      have "apart ?a b \<and> apart ?a k" if "(b, k) \<in> set staged" for b k
      proof -
        have "?a \<noteq> b" "?a \<noteq> k" using that a a2 by force+
        then show ?thesis using parents [OF that] siblings_apart [OF staged_path_parent] by blast
      qed
      then have "bt_get ?t ?a = bt_get B ?a"
        by (intro staged_tree_other [OF wf]) blast
      with none have noneB: "bt_get B ?a = None" by simp
      let ?staged = "staged @ [(?a, ?h)]"
      have tree: "move_subtree ?h ?a ?t = staged_tree ?staged B" by (simp add: staged_tree_def)
      have run: "stage_jdks env (Suc i) jdks ?staged (staged_tree ?staged B) = (r, t')"
        using Cons.prems(1) free moved by (simp add: Let_def tree)
      have ok: "stageable (je_root env) ?staged B"
        using Cons.prems(2) h a a2 noneB Cons.prems(5) staged_path_parent
        by (fastforce simp: stageable_def)
      have names: "\<forall>x \<in> set (map fst ?staged). \<exists>k < Suc i. x = staged_path env k"
        using Cons.prems(5) less_Suc_eq by auto
      have homes: "\<forall>j \<in> set jdks. path_parent (jd_home j) = Some (je_root env) \<and>
          bt_get B (jd_home j) = Some DirNode \<and> jd_home j \<notin> set (map snd ?staged)"
        using Cons.prems(3,4) by (auto simp: image_iff)
      have "distinct (map jd_home jdks)" "\<forall>h \<in> set (map snd ?staged) \<union> jd_home ` set jdks.
          je_faults env ''rename'' h = None \<and> (\<forall>k. h \<noteq> staged_path env k)"
        using Cons.prems(4,6) by auto
      from Cons.IH [OF run ok homes this(1) names this(2)] show ?thesis by simp
    qed
  qed
qed auto

lemma drop_part: "drop_subtree p t = keep_part p (\<lambda>_. False) t"
  by (simp add: drop_subtree_def keep_part_def)

lemma delete_staged_ok:
  assumes "delete_staged faults xs (staged_tree xs B) = (r, t')" "stageable root xs B"
    and "\<forall>h \<in> set (map snd xs). faults ''rename'' h = None"
  shows "(r = Inr () \<and> t' = fold drop_subtree (map snd xs) B) \<or>
    (\<exists>e n Q. r = Inl e \<and> n < length xs \<and> upward (map snd xs ! n) Q \<and>
       t' = keep_part (map snd xs ! n) Q (fold drop_subtree (take n (map snd xs)) B))"
  using assms
proof (induction xs arbitrary: B)
  case Nil
  then show ?case by (auto simp: staged_tree_def)
next
  case (Cons x xs)
  obtain a h where x: "x = (a, h)" by fastforce
  note head = stageable_head [OF Cons.prems(2) [unfolded x]]
  let ?t = "staged_tree ((a, h) # xs) B"
  have wf: "bt_wf (move_subtree h a B)" using head(3) by blast
  have part: "keep_part a Q ?t = staged_tree xs (move_subtree h a (keep_part h (\<lambda>q. Q (a @ drop (length h) q)) B))" for Q
    using staged_part [OF head(6) wf] part_moved [OF head(3,1,2)] by (simp add: staged_tree_def)
  show ?case
  proof (rule remove_dir_all_cases [of faults a ?t])
    fix e Q assume removed: "fs_remove_dir_all faults a ?t = (Inl e, keep_part a Q ?t)" and Q: "upward a Q"
    let ?Q = "\<lambda>q. Q (a @ drop (length h) q)"
    have up: "upward h ?Q"
      unfolding upward_def
    proof (intro conjI allI impI)
      show "Q (a @ drop (length h) h)" using Q by (simp add: upward_def)
      fix u v assume "prefix h u" "prefix u v" "Q (a @ drop (length h) v)"
      moreover have "prefix (a @ drop (length h) u) (a @ drop (length h) v)"
        using calculation(1,2) by (auto simp: prefix_def)
      ultimately show "Q (a @ drop (length h) u)" using Q unfolding upward_def by (meson prefixI)
    qed
    have apart: "\<forall>k \<in> snd ` set ((a, h) # xs). k = h \<or> apart k h"
    proof -
      have "distinct (map snd ((a, h) # xs))" "path_parent h = Some root"
        "\<forall>k \<in> snd ` set xs. path_parent k = Some root"
        using Cons.prems(2) by (auto simp: x stageable_def)
      then show ?thesis using siblings_apart by fastforce
    qed
    have "path_parent h = Some root" using Cons.prems(2) by (simp add: x stageable_def)
    from stageable_part [OF Cons.prems(2) [unfolded x] this up apart]
    have "stageable root ((a, h) # xs) (keep_part h ?Q B)" .
    from rollback_restores [OF this] Cons.prems(3)
    have "rollback_staged faults ((a, h) # xs) (staged_tree ((a, h) # xs) (keep_part h ?Q B)) = keep_part h ?Q B"
      by (simp add: x)
    moreover have "keep_part a Q ?t = staged_tree ((a, h) # xs) (keep_part h ?Q B)"
      unfolding part by (simp add: staged_tree_def)
    ultimately have "r = Inl (BuildIo a e) \<and> t' = keep_part h ?Q B"
      using Cons.prems(1) removed by (simp add: x)
    then show ?thesis using up by (intro disjI2 exI [of _ "BuildIo a e"] exI [of _ 0] exI [of _ ?Q]) (simp add: x)
  next
    assume removed: "fs_remove_dir_all faults a ?t = (Inr (), drop_subtree a ?t)"
    have "drop_subtree a (move_subtree h a B) = drop_subtree h B" by (rule drop_moved [OF head(3,1,2)])
    then have "drop_subtree a ?t = staged_tree xs (drop_subtree h B)"
      using staged_part [OF head(6) wf, of "\<lambda>_. False"] by (simp add: drop_part staged_tree_def)
    then have "delete_staged faults xs (staged_tree xs (drop_subtree h B)) = (r, t')"
      using Cons.prems(1) removed by (simp add: x)
    from Cons.IH [OF this head(5)] Cons.prems(3) consider
        "r = Inr ()" "t' = fold drop_subtree (map snd xs) (drop_subtree h B)"
      | e n Q where "r = Inl e" "n < length xs" "upward (map snd xs ! n) Q"
          "t' = keep_part (map snd xs ! n) Q (fold drop_subtree (take n (map snd xs)) (drop_subtree h B))"
      by auto
    then show ?thesis
    proof cases
      case 2
      then show ?thesis
        by (intro disjI2 exI [of _ e] exI [of _ "Suc n"] exI [of _ Q]) (simp add: x)
    qed (simp add: x)
  qed
qed

lemma homes_distinct:
  assumes "list_all2 (\<lambda>e js. length js \<le> 1 \<and> (\<forall>j \<in> set js. jd_home j = fst e)) es found"
    and "distinct (map fst es)"
  shows "distinct (map jd_home (concat found)) \<and> jd_home ` set (concat found) \<subseteq> fst ` set es"
  using assms
proof (induction es found rule: list_all2_induct)
  case (Cons e es js found)
  from Cons.hyps(1) have js: "js = [] \<or> (\<exists>j. js = [j] \<and> jd_home j = fst e)"
    by (cases js) auto
  have rest: "distinct (map jd_home (concat found))" "jd_home ` set (concat found) \<subseteq> fst ` set es"
    using Cons.IH Cons.prems by simp_all
  have "fst e \<notin> jd_home ` set (concat found)" using Cons.prems rest(2) by auto
  with js rest show ?case by auto
qed simp

lemma list_jdks_distinct:
  assumes "list_jdks env t = Inr jdks" "bt_wf t"
  shows "distinct (map jd_home jdks)"
proof (cases "fs_is_dir t (je_root env)")
  case True
  from list_jdks_parts [OF assms(1) True] obtain found where
    found: "traverse (\<lambda>e. entry_jdk env t (fst e))
       (filter (\<lambda>e. path_parent (fst e) = Some (je_root env)) t) = Inr found"
    and jdks: "jdks = sort_key jdk_key (concat found)" .
  have "list_all2 (\<lambda>e js. length js \<le> 1 \<and> (\<forall>j \<in> set js. jd_home j = fst e))
      (filter (\<lambda>e. path_parent (fst e) = Some (je_root env)) t) found"
    using found unfolding traverse_Inr_iff
    by (rule list_all2_mono) (use entry_jdk_set in \<open>fastforce simp: valid_install_def\<close>)
  moreover have "distinct (map fst (filter (\<lambda>e. path_parent (fst e) = Some (je_root env)) t))"
    using assms(2) by (intro distinct_map_filter) (simp add: bt_wf_def bt_keys_def strict_sorted_iff)
  ultimately have "distinct (map jd_home (concat found))" using homes_distinct by blast
  moreover have "mset (map jd_home jdks) = mset (map jd_home (concat found))" by (simp add: jdks)
  ultimately show ?thesis by (metis mset_eq_imp_distinct_iff)
next
  case False
  then show ?thesis using assms(1) by (simp add: list_jdks_def)
qed

lemma metadata_name_path: "path_join p (path_of metadata_name) = p @ [Normal metadata_name]"
proof -
  have "proper_name metadata_name" by code_simp
  then show ?thesis by (simp add: path_of_name path_join_name)
qed

lemma installed_home:
  assumes "installed env t j" "bt_wf t" "closed_below t (je_root env)"
  shows "path_parent (jd_home j) = Some (je_root env) \<and> bt_get t (jd_home j) = Some DirNode"
proof -
  from assms(1) obtain bytes where p: "path_parent (jd_home j) = Some (je_root env)"
    and meta: "bt_get t (jd_home j @ [Normal metadata_name]) = Some (FileNode bytes)"
    by (auto simp: installed_def valid_install_def metadata_name_path)
  have "strict_prefix (je_root env) (jd_home j @ [Normal metadata_name])"
    using p by (auto simp: path_parent_Some strict_prefix_def)
  then show ?thesis
    using p assms(3) meta unfolding closed_below_iff [OF assms(2)] by (fastforce simp: path_parent_Some)
qed

lemma bt_get_fold_dirs:
  "bt_get (fold (\<lambda>q. bt_insert q DirNode) ds t) p = (if p \<in> set ds then Some DirNode else bt_get t p)"
  by (induction ds arbitrary: t) auto

lemma bt_wf_fold_dirs: "bt_wf t \<Longrightarrow> bt_wf (fold (\<lambda>q. bt_insert q DirNode) ds t)"
  by (induction ds arbitrary: t) auto

lemma make_directories_made:
  "make_directories faults qs t = (r, t') \<Longrightarrow>
     \<exists>ds. set ds \<subseteq> set qs \<and> t' = fold (\<lambda>q. bt_insert q DirNode) ds t"
proof (induction faults qs t rule: make_directories.induct)
  case (1 faults t)
  then show ?case by (auto intro: exI [of _ "[]"])
next
  case (2 faults q qs t)
  consider "fs_is_dir t q" | "\<not> fs_is_dir t q" "bt_get t q \<noteq> None \<or> faults ''create'' q \<noteq> None"
    | "\<not> fs_is_dir t q" "bt_get t q = None" "faults ''create'' q = None" by blast
  then show ?case
  proof cases
    case 1
    then obtain ds where "set ds \<subseteq> set qs" "t' = fold (\<lambda>q. bt_insert q DirNode) ds t"
      using "2.IH"(1) "2.prems" by auto
    then show ?thesis by (intro exI [of _ ds]) auto
  next
    case 2
    then have "t' = t" using "2.prems" by (auto split: if_splits option.splits)
    then show ?thesis by (auto intro: exI [of _ "[]"])
  next
    case 3
    then obtain ds where "set ds \<subseteq> set qs" "t' = fold (\<lambda>q. bt_insert q DirNode) ds (bt_insert q DirNode t)"
      using "2.IH"(2) "2.prems" by auto
    then show ?thesis by (intro exI [of _ "q # ds"]) auto
  qed
qed

lemma create_dir_all_ok:
  assumes "fs_create_dir_all faults root t = (r, t')" "bt_wf t" "closed_below t root"
  shows "bt_wf t' \<and> closed_below t' root \<and> (\<forall>p. \<not> prefix p root \<longrightarrow> bt_get t' p = bt_get t p)"
proof -
  obtain ds where ds: "set ds \<subseteq> set (filter (\<lambda>q. q \<noteq> [] \<and> q \<noteq> [RootDir]) (prefixes root))"
    and t': "t' = fold (\<lambda>q. bt_insert q DirNode) ds t"
    using make_directories_made [OF assms(1) [unfolded fs_create_dir_all_def]] by blast
  then have wf: "bt_wf t'" using assms(2) bt_wf_fold_dirs by blast
  have get: "bt_get t' p = (if p \<in> set ds then Some DirNode else bt_get t p)" for p
    by (simp only: t' bt_get_fold_dirs)
  have "closed_below t' root"
    unfolding closed_below_iff [OF wf]
  proof (intro allI impI)
    fix p n assume p: "bt_get t' p = Some n \<and> strict_prefix root p"
    then have "p \<notin> set ds" using ds by (auto simp: strict_prefix_def)
    then have "bt_get t p = Some n" using p get [of p] by simp
    then obtain q where "path_parent p = Some q" "bt_get t q = Some DirNode"
      using assms(3) p unfolding closed_below_iff [OF assms(2)] by blast
    then show "\<exists>q. path_parent p = Some q \<and> bt_get t' q = Some DirNode" using get by auto
  qed
  then show ?thesis using wf get ds by auto
qed

lemma lock_path_child:
  assumes "lock_path env request = Inr lock" "validate_vendor request = Inr ()"
    and "CHR ''/'' \<notin> set (jp_os (je_platform env)) \<union> set (jp_architecture (je_platform env))"
  shows "\<exists>n. lock = je_root env @ [Normal n]"
proof -
  from assms(1) obtain major where lock: "lock = path_join (je_root env) (path_of (''.install-'' @
      tr_vendor request @ ''-'' @ show_nat (unat (major :: 16 word)) @ ''-'' @ jp_os (je_platform env) @ ''-'' @
      jp_architecture (je_platform env) @ ''.lock''))"
    by (auto simp: lock_path_def and_then_Inr_iff)
  have "CHR ''/'' \<notin> set (tr_vendor request)"
    using assms(2) by (auto simp: validate_vendor_def list_all_iff is_lower_def is_digit_def byte_def)
  then have "proper_name (''.install-'' @
      tr_vendor request @ ''-'' @ show_nat (unat major) @ ''-'' @ jp_os (je_platform env) @ ''-'' @
      jp_architecture (je_platform env) @ ''.lock'')"
    using assms(3) proper_digits by (auto simp: proper_name_def)
  then show ?thesis unfolding lock by (simp only: path_of_name path_join_name) blast
qed

lemma closed_below_file:
  assumes "bt_wf t" "closed_below t root" "fs_is_dir t root" "\<not> fs_is_dir t (root @ [Normal n])"
  shows "closed_below (bt_insert (root @ [Normal n]) (FileNode b) t) root"
proof -
  have wf: "bt_wf (bt_insert (root @ [Normal n]) (FileNode b) t)" using assms(1) by blast
  show ?thesis
    unfolding closed_below_iff [OF wf]
  proof (intro allI impI)
    fix p m assume p: "bt_get (bt_insert (root @ [Normal n]) (FileNode b) t) p = Some m \<and> strict_prefix root p"
    show "\<exists>q. path_parent p = Some q \<and> bt_get (bt_insert (root @ [Normal n]) (FileNode b) t) q = Some DirNode"
    proof (cases "p = root @ [Normal n]")
      case True
      then show ?thesis using assms(3) by (simp add: path_parent_Some fs_is_dir_def)
    next
      case False
      then obtain q where "path_parent p = Some q" "bt_get t q = Some DirNode"
        using p assms(2) unfolding closed_below_iff [OF assms(1)] by auto
      then show ?thesis using assms(4) by (auto simp: fs_is_dir_def)
    qed
  qed
qed

lemma acquire_lock_ok:
  assumes "acquire_install_lock env p t = (r, t')"
  shows "t' = t \<or> (\<not> fs_is_dir t p \<and> (\<exists>b. t' = bt_insert p (FileNode b) t))"
  using assms
  by (auto simp: acquire_install_lock_def step_bind_def io_def fs_write_def left_part_def guarded_def fs_is_dir_def fs_is_file_iff
      split: option.splits if_splits sum.splits prod.splits)

lemma bt_get_fold_drop:
  "bt_get (fold drop_subtree hs t) p = (if \<exists>h \<in> set hs. prefix h p then None else bt_get t p)"
  by (induction hs arbitrary: t) (auto simp: bt_get_drop_subtree)

text \<open>
  Which homes are gone after a run, which one may have lost a part, and that nothing else has
  changed.
\<close>

definition removed_only ::
    "toolchain_request \<Rightarrow> path \<Rightarrow> path set \<Rightarrow> tree \<Rightarrow> removal_result built \<Rightarrow> tree \<Rightarrow> bool" where
  "removed_only request root exempt t r t' \<longleftrightarrow>
     (\<exists>gone damaged. length damaged \<le> 1 \<and>
        (\<forall>j \<in> set (gone @ damaged). path_parent (jd_home j) = Some root \<and>
          (\<exists>major. requested_major request = Inr major \<and> satisfies request major j)) \<and>
        (\<forall>p. p \<notin> exempt \<longrightarrow>
          (if \<exists>j \<in> set gone. prefix (jd_home j) p then bt_get t' p = None
           else if \<exists>j \<in> set damaged. prefix (jd_home j) p then bt_get t' p \<in> {None, bt_get t p}
           else bt_get t' p = bt_get t p)) \<and>
        (\<forall>j \<in> set damaged. bt_get t' (jd_home j) = Some DirNode) \<and>
        (\<forall>res. r = Inr res \<longrightarrow> damaged = [] \<and> gone = rr_removed res \<and> gone \<noteq> []))"

lemma unchanged: "\<forall>p. p \<notin> exempt \<longrightarrow> bt_get t' p = bt_get t p \<Longrightarrow> removed_only request root exempt t (Inl e) t'"
  unfolding removed_only_def by (intro exI [of _ "[]"]) simp

lemma removed_only_exempt:
  assumes "removed_only request root {} u r t'" "\<forall>p. p \<notin> exempt \<longrightarrow> bt_get u p = bt_get t p"
  shows "removed_only request root exempt t r t'"
proof -
  obtain gone damaged where *: "length damaged \<le> 1"
    "\<forall>j \<in> set (gone @ damaged). path_parent (jd_home j) = Some root \<and>
      (\<exists>major. requested_major request = Inr major \<and> satisfies request major j)"
    "\<forall>j \<in> set damaged. bt_get t' (jd_home j) = Some DirNode"
    "\<forall>res. r = Inr res \<longrightarrow> damaged = [] \<and> gone = rr_removed res \<and> gone \<noteq> []"
    and get: "\<forall>p. p \<notin> {} \<longrightarrow>
       (if \<exists>j \<in> set gone. prefix (jd_home j) p then bt_get t' p = None
        else if \<exists>j \<in> set damaged. prefix (jd_home j) p then bt_get t' p \<in> {None, bt_get u p}
        else bt_get t' p = bt_get u p)"
    using assms(1) unfolding removed_only_def by (elim exE conjE)
  have "if \<exists>j \<in> set gone. prefix (jd_home j) p then bt_get t' p = None
        else if \<exists>j \<in> set damaged. prefix (jd_home j) p then bt_get t' p \<in> {None, bt_get t p}
        else bt_get t' p = bt_get t p" if "p \<notin> exempt" for p
    using get [THEN spec, THEN mp, OF empty_iff [THEN iffD1, THEN notI], of p] unfolding assms(2) [rule_format, OF that]
    by assumption
  with * show ?thesis unfolding removed_only_def by blast
qed

lemma remove_locked_ok:
  assumes run: "remove_locked env request all t = (r, t')"
    and wf: "bt_wf t" and closed: "closed_below t (je_root env)"
    and homes: "\<And>j. installed env t j \<Longrightarrow>
      je_faults env ''rename'' (jd_home j) = None \<and> (\<forall>k. jd_home j \<noteq> staged_path env k)"
  shows "removed_only request (je_root env) {} t r t'"
proof (cases "removal_candidates env request all t")
  case (Inl e)
  then show ?thesis using run unchanged by (auto simp: remove_locked_def step_bind_def)
next
  case (Inr cands)
  show ?thesis
  proof (cases "cands = [] \<or> (\<exists>e. reclaimed_sizes env cands 0 t = Inl e)")
    case True
    then show ?thesis using run Inr unchanged
      by (cases "cands = []") (auto simp: remove_locked_def step_bind_def step_of_def)
  next
    case False
    then obtain bytes where ne: "cands \<noteq> []" and bytes: "reclaimed_sizes env cands 0 t = Inr bytes"
      by (cases "reclaimed_sizes env cands 0 t") auto
    from Inr obtain major jdks where major: "requested_major request = Inr major"
      and jdks: "list_jdks env t = Inr jdks"
      and cands: "cands = (let sat = filter (satisfies request major) jdks
          in if \<not> all \<and> \<not> exact_request request then (if sat = [] then [] else [last sat]) else sat)"
      by (auto simp: removal_candidates_def and_then_Inr_iff Let_def)
    have sub: "set cands \<subseteq> set (filter (satisfies request major) jdks)"
      using last_in_set [of "filter (satisfies request major) jdks"] by (auto simp: cands Let_def split: if_splits)
    then have inst: "installed env t j \<and> satisfies request major j" if "j \<in> set cands" for j
      using that list_jdks_set [OF jdks] by auto
    have dist: "distinct (map jd_home cands)"
      using list_jdks_distinct [OF jdks wf] by (auto simp: cands Let_def distinct_map_filter)
    have dir: "fs_is_dir t (je_root env)" using inst ne by (cases cands) (auto simp: installed_def)
    have start: "stageable (je_root env) [] t" using wf closed dir by (simp add: stageable_def)
    obtain staged t1 where stage: "stage_jdks env 0 cands [] (staged_tree [] t) = (staged, t1)" by fastforce
    have staging: "(\<forall>e. staged = Inl e \<longrightarrow> t1 = t) \<and> (\<forall>xs. staged = Inr xs \<longrightarrow> t1 = staged_tree xs t \<and>
        stageable (je_root env) xs t \<and> map snd xs = map jd_home cands)"
      using stage_jdks_ok [OF stage start _ dist] homes inst installed_home [OF _ wf closed] by auto
    show ?thesis
    proof (cases staged)
      case (Inl e)
      then have "r = Inl e" "t' = t"
        using run Inr ne bytes stage staging
        by (auto simp: remove_locked_def step_bind_def staged_tree_def)
      then show ?thesis using unchanged by simp
    next
      case xs: (Inr xs)
      then have t1: "t1 = staged_tree xs t" "stageable (je_root env) xs t" "map snd xs = map jd_home cands"
        using staging by auto
      obtain d t2 where deleted: "delete_staged (je_faults env) xs t1 = (d, t2)" by fastforce
      have run': "t' = t2" "r = (case d of Inl e \<Rightarrow> Inl e
          | Inr _ \<Rightarrow> Inr \<lparr>rr_removed = cands, rr_reclaimed_bytes = bytes\<rparr>)"
        using run Inr ne bytes stage xs deleted
        by (auto simp: remove_locked_def step_bind_def staged_tree_def step_of_def split: sum.splits)
      have "\<forall>h \<in> set (map snd xs). je_faults env ''rename'' h = None"
        unfolding t1(3) using homes inst by auto
      note outcome = delete_staged_ok [OF deleted [unfolded t1(1)] t1(2) this, unfolded t1(3)]
      have len: "length xs = length cands" using arg_cong [OF t1(3), of length] by simp
      have homes: "path_parent (jd_home j) = Some (je_root env) \<and> bt_get t (jd_home j) = Some DirNode \<and>
          (\<exists>major. requested_major request = Inr major \<and> satisfies request major j)" if "j \<in> set cands" for j
        using inst [OF that] installed_home [of env t j, OF _ wf closed] major by blast
      from outcome show ?thesis
      proof (elim disjE exE conjE)
        assume "d = Inr ()" "t2 = fold drop_subtree (map jd_home cands) t"
        then show ?thesis
          unfolding removed_only_def run' using homes ne
          by - (rule exI [of _ cands], rule exI [of _ "[]"], simp add: bt_get_fold_drop)
      next
        fix e n Q assume d: "d = Inl e" and n: "n < length xs" and Q: "upward (map jd_home cands ! n) Q"
          and t2: "t2 = keep_part (map jd_home cands ! n) Q (fold drop_subtree (take n (map jd_home cands)) t)"
        let ?j = "cands ! n"
        have j: "?j \<in> set cands" "map jd_home cands ! n = jd_home ?j" using n len by simp_all
        have sub: "set (take n cands) \<subseteq> set cands" by (rule set_take_subset)
        have get: "bt_get t2 p = (if prefix (jd_home ?j) p \<and> \<not> Q p then None
            else if \<exists>k \<in> set (take n cands). prefix (jd_home k) p then None else bt_get t p)" for p
          by (simp add: t2 j(2) bt_get_keep_part bt_get_fold_drop take_map)
        have "\<not> prefix (jd_home k) (jd_home ?j)" if "k \<in> set (take n cands)" for k
        proof -
          from that obtain i where "i < length (take n cands)" "take n cands ! i = k"
            unfolding in_set_conv_nth by blast
          then have i: "i < n" "k = cands ! i" by simp_all
          then have "jd_home k \<noteq> jd_home ?j" using dist n len nth_eq_iff_index_eq [OF dist, of i n] by simp
          moreover have "path_parent (jd_home k) = Some (je_root env)" "path_parent (jd_home ?j) = Some (je_root env)"
            using homes [of k] homes [OF j(1)] sub that by blast+
          ultimately have "apart (jd_home k) (jd_home ?j)" using siblings_apart by simp
          then show ?thesis by (simp add: apart_def)
        qed
        moreover have "Q (jd_home ?j)" using Q by (simp add: upward_def j(2))
        ultimately have kept: "bt_get t2 (jd_home ?j) = Some DirNode"
          using homes [OF j(1)] by (simp add: get)
        have all: "\<forall>k \<in> set (take n cands @ [?j]). path_parent (jd_home k) = Some (je_root env) \<and>
            (\<exists>major. requested_major request = Inr major \<and> satisfies request major k)"
        proof
          fix k assume "k \<in> set (take n cands @ [?j])"
          then have "k \<in> set cands" using sub j(1) by auto
          then show "path_parent (jd_home k) = Some (je_root env) \<and>
            (\<exists>major. requested_major request = Inr major \<and> satisfies request major k)" using homes by blast
        qed
        have parts: "if \<exists>k \<in> set (take n cands). prefix (jd_home k) p then bt_get t2 p = None
            else if \<exists>k \<in> set [?j]. prefix (jd_home k) p then bt_get t2 p \<in> {None, bt_get t p}
            else bt_get t2 p = bt_get t p" for p
          by (simp add: get)
        show ?thesis
          unfolding removed_only_def run' d
        proof (rule exI [of _ "take n cands"], rule exI [of _ "[?j]"], intro conjI allI impI)
          show "if \<exists>k \<in> set (take n cands). prefix (jd_home k) p then bt_get t2 p = None
            else if \<exists>k \<in> set [?j]. prefix (jd_home k) p then bt_get t2 p \<in> {None, bt_get t p}
            else bt_get t2 p = bt_get t p" for p by (rule parts)
        qed (use all kept in simp_all)
      qed
    qed
  qed
qed

text \<open>
  C19: a removal touches nothing but the lock file, the ancestors of the store and
  the homes of installations that satisfy the request. On success exactly the reported
  installations are gone and nothing else has changed. When it stops with an error, some of them
  may be gone, all others are back at their homes, and at most one of these, whose deletion failed
  half-way, may have lost a part of its files. (Assumed: renaming an installation back to its home
  is not refused, and no installation is named like a staging directory.)
\<close>
theorem removal_confined:
  assumes "remove_jdks env request all t = (r, t')"
    and "bt_wf t" "closed_below t (je_root env)"
    and "CHR ''/'' \<notin> set (jp_os (je_platform env)) \<union> set (jp_architecture (je_platform env))"
    and "\<forall>b jdk. je_parse_jdk env b = Some jdk \<longrightarrow>
      je_faults env ''rename'' (jd_home jdk) = None \<and> (\<forall>k. jd_home jdk \<noteq> staged_path env k)"
  shows "\<exists>gone damaged. length damaged \<le> 1 \<and>
      (\<forall>j \<in> set (gone @ damaged). path_parent (jd_home j) = Some (je_root env) \<and>
        (\<exists>major. requested_major request = Inr major \<and> satisfies request major j)) \<and>
      (\<forall>p. \<not> prefix p (je_root env) \<and> lock_path env request \<noteq> Inr p \<longrightarrow>
        (if \<exists>j \<in> set gone. prefix (jd_home j) p then bt_get t' p = None
         else if \<exists>j \<in> set damaged. prefix (jd_home j) p then bt_get t' p \<in> {None, bt_get t p}
         else bt_get t' p = bt_get t p)) \<and>
      (\<forall>j \<in> set damaged. bt_get t' (jd_home j) = Some DirNode) \<and>
      (\<forall>res. r = Inr res \<longrightarrow> damaged = [] \<and> gone = rr_removed res \<and> gone \<noteq> [])"
proof -
  let ?root = "je_root env" and ?exempt = "{p. prefix p (je_root env) \<or> lock_path env request = Inr p}"
  have none: "removed_only request ?root ?exempt t r t'" if "r = Inl e"
    "\<forall>p. \<not> prefix p ?root \<and> lock_path env request \<noteq> Inr p \<longrightarrow> bt_get t' p = bt_get t p" for e
    using that unchanged by simp
  obtain c1 t1 where created: "fs_create_dir_all (je_faults env) ?root t = (c1, t1)" by fastforce
  note t1 = create_dir_all_ok [OF created assms(2,3)]
  have "removed_only request ?root ?exempt t r t'"
  proof (cases "is_ok c1 \<and> is_ok (lock_path env request)")
    case False
    then have "t' = t1 \<and> (\<exists>e. r = Inl e)" using assms(1) created
      by (cases c1; cases "lock_path env request")
        (auto simp: remove_jdks_def step_bind_def io_def step_of_def)
    then show ?thesis using none t1 by blast
  next
    case True
    then obtain lock where lock: "lock_path env request = Inr lock" and c1: "c1 = Inr ()"
      by (cases "lock_path env request"; cases c1) auto
    obtain c2 t2 where acquired: "acquire_install_lock env lock t1 = (c2, t2)" by fastforce
    note t2 = acquire_lock_ok [OF acquired]
    have same: "bt_get t2 p = bt_get t p" if "\<not> prefix p ?root" "lock_path env request \<noteq> Inr p" for p
      using that t1 t2 lock by auto
    show ?thesis
    proof (cases "is_ok c2 \<and> is_ok (removal_candidates env request all t2)")
      case False
      then have "t' = t2 \<and> (\<exists>e. r = Inl e)" using assms(1) created c1 lock acquired
        by (cases c2; cases "removal_candidates env request all t2")
          (auto simp: remove_jdks_def remove_locked_def step_bind_def io_def step_of_def)
      then show ?thesis using none same by blast
    next
      case True
      then have valid: "validate_vendor request = Inr ()"
        and empty: "\<not> fs_is_dir t2 ?root \<Longrightarrow> removal_candidates env request all t2 = Inr []"
        by (auto simp: is_ok_iff removal_candidates_def and_then_Inr_iff list_jdks_def Let_def)
      have run: "remove_locked env request all t2 = (r, t')"
        using assms(1) created c1 lock acquired True
        by (cases c2) (auto simp: remove_jdks_def step_bind_def io_def step_of_def)
      show ?thesis
      proof (cases "fs_is_dir t2 ?root")
        case False
        then have "t' = t2 \<and> (\<exists>e. r = Inl e)" using run empty
          by (auto simp: remove_locked_def step_bind_def step_of_def)
        then show ?thesis using none same by blast
      next
        case dir: True
        obtain n where n: "lock = ?root @ [Normal n]" using lock_path_child [OF lock valid assms(4)] by blast
        have "fs_is_dir t1 ?root" using dir t2 by (auto simp: n fs_is_dir_def)
        then have wf2: "bt_wf t2" and closed2: "closed_below t2 ?root"
          using t1 t2 closed_below_file [of t1 ?root n] by (auto simp: n)
        have "removed_only request ?root {} t2 r t'"
          by (rule remove_locked_ok [OF run wf2 closed2])
            (use assms(5) in \<open>auto simp: installed_def\<close>)
        then show ?thesis by (rule removed_only_exempt) (simp add: same)
      qed
    qed
  qed
  then show ?thesis unfolding removed_only_def mem_Collect_eq de_Morgan_disj .
qed

section \<open>Samples\<close>

definition sample_jdk_home :: path where
  "sample_jdk_home = [Normal ''s'', Normal ''t'']"

definition sample_jdk :: managed_jdk where
  "sample_jdk = \<lparr>jd_vendor = ''temurin'', jd_version = ''21.0.8+9'', jd_major = 21, jd_os = ''linux'',
     jd_architecture = ''x64'', jd_checksum = ''sha256:00'', jd_home = sample_jdk_home\<rparr>"

definition sample_release :: catalog_release where
  "sample_release = \<lparr>cr_vendor = ''zulu'', cr_version = ''21'', cr_major = 21, cr_lts = True,
     cr_os = ''linux'', cr_architecture = ''x64'', cr_archive_type = ''tar.gz'', cr_filename = ''z.gz'',
     cr_source_id = ''i''\<rparr>"

definition sample_url :: url where
  "sample_url = \<lparr>ur_text = ''https://cdn.azul.com/z.gz'', ur_scheme = ''https'', ur_port = Some 443,
     ur_username = [], ur_password = None, ur_host = Some ''cdn.azul.com'', ur_path = ''/z.gz''\<rparr>"

definition sample_artifact :: resolved_artifact where
  "sample_artifact = \<lparr>ra_release = sample_release, ra_url = sample_url, ra_checksum = ''ab''\<rparr>"

text \<open>The checksum of the sample is the content itself; the other services are out of reach.\<close>

definition sample_jdk_env :: jdk_env where
  "sample_jdk_env =
     \<lparr>je_faults = no_io_faults, je_pid = 7,
      je_platform = \<lparr>jp_os = ''linux'', jp_architecture = ''x64'', jp_libc = ''glibc'',
        jp_archive_type = ''tar.gz''\<rparr>,
      je_root = [Normal ''s''], je_catalog_root = [Normal ''c''],
      je_provider = \<lparr>jv_id = ''none'', jv_fetch = \<lambda>_ _. Inl (Invalid ''off''),
        jv_resolve = \<lambda>_ _ _ _. Inl (Invalid ''off'')\<rparr>,
      je_parse_jdk = \<lambda>b. if b = ''j'' then Some sample_jdk else None, je_print_jdk = \<lambda>_. Inr ''j'',
      je_parse_cache = \<lambda>_. None, je_print_cache = \<lambda>_. Inr ''c'',
      je_get = \<lambda>_. Inr \<lparr>dl_status = 200, dl_location = None, dl_chunks = [Inr ''a'', Inr ''b'']\<rparr>,
      je_status_error = \<lambda>_. ''status'', je_join_url = \<lambda>_ _. Inl ''url'', je_sha256_hex = \<lambda>b. b,
      je_zip = \<lambda>_. Inl ''zip'', je_untar = \<lambda>_ _ t. (Inr (), t)\<rparr>"

definition sample_jdk_tree :: tree where
  "sample_jdk_tree =
     [([Normal ''s''], DirNode), (sample_jdk_home, DirNode),
      (sample_jdk_home @ [Normal ''.jman-toolchain.json''], FileNode ''j''),
      (sample_jdk_home @ [Normal ''bin''], DirNode),
      (sample_jdk_home @ [Normal ''bin'', Normal ''javac''], FileNode ''x'')]"

definition sample_jdk_request :: toolchain_request where
  "sample_jdk_request = \<lparr>tr_version = ''21'', tr_vendor = ''temurin''\<rparr>"

theorem downloads_trusted_witness:
  "\<exists>b. bt_get (snd (download_verified sample_jdk_env sample_artifact [Normal ''s'', Normal ''z''] sample_jdk_tree))
     [Normal ''s'', Normal ''z''] = Some (FileNode b) \<and> je_sha256_hex sample_jdk_env b = ''ab''"
proof -
  let ?run = "download_verified sample_jdk_env sample_artifact [Normal ''s'', Normal ''z''] sample_jdk_tree"
  have "is_ok (fst ?run)" by code_simp
  then have "?run = (Inr (), snd ?run)" by (cases ?run) (auto simp: is_ok_iff)
  then have "\<exists>b. bt_get (snd ?run) [Normal ''s'', Normal ''z''] = Some (FileNode b) \<and>
      je_sha256_hex sample_jdk_env b = ra_checksum sample_artifact"
    by (rule downloads_trusted [THEN conjunct2, rule_format])
  then show ?thesis by (simp only: sample_artifact_def resolved_artifact.select_convs)
qed

theorem newest_found_witness:
  "\<exists>j. find_jdk sample_jdk_env sample_jdk_request sample_jdk_tree = Inr (Some j) \<and>
     installed sample_jdk_env sample_jdk_tree j"
proof -
  have "(case find_jdk sample_jdk_env sample_jdk_request sample_jdk_tree of
      Inr (Some j) \<Rightarrow> True | _ \<Rightarrow> False)" by code_simp
  then obtain j where j: "find_jdk sample_jdk_env sample_jdk_request sample_jdk_tree = Inr (Some j)"
    by (auto split: sum.splits option.splits)
  then have "\<exists>major. installed sample_jdk_env sample_jdk_tree j \<and> satisfies sample_jdk_request major j"
    using newest_found [of sample_jdk_env sample_jdk_request sample_jdk_tree "Some j"] by simp metis
  with j show ?thesis by blast
qed

theorem removal_confined_witness:
  "case remove_jdks sample_jdk_env sample_jdk_request False sample_jdk_tree of
     (Inr res, t') \<Rightarrow> rr_removed res = [sample_jdk] \<and>
       bt_get t' (sample_jdk_home @ [Normal ''bin'', Normal ''javac'']) = None
   | _ \<Rightarrow> False"
proof -
  let ?run = "remove_jdks sample_jdk_env sample_jdk_request False sample_jdk_tree"
  let ?p = "sample_jdk_home @ [Normal ''bin'', Normal ''javac'']"
  have "(case fst ?run of Inr res \<Rightarrow> rr_removed res = [sample_jdk] | _ \<Rightarrow> False)" by code_simp
  then obtain res where run: "?run = (Inr res, snd ?run)" and one: "rr_removed res = [sample_jdk]"
    by (cases ?run) (auto split: sum.splits)
  have wf: "bt_wf sample_jdk_tree" by code_simp
  have closed: "closed_below sample_jdk_tree (je_root sample_jdk_env)"
    by (simp add: closed_below_def sample_jdk_tree_def sample_jdk_env_def sample_jdk_home_def
        path_parent_def fs_is_dir_def bt_get_def)
  have platform: "CHR ''/'' \<notin> set (jp_os (je_platform sample_jdk_env)) \<union> set (jp_architecture (je_platform sample_jdk_env))"
    by (simp add: sample_jdk_env_def)
  have homes: "\<forall>b jdk. je_parse_jdk sample_jdk_env b = Some jdk \<longrightarrow>
      je_faults sample_jdk_env ''rename'' (jd_home jdk) = None \<and>
      (\<forall>k. jd_home jdk \<noteq> staged_path sample_jdk_env k)"
    by (auto simp: sample_jdk_env_def staged_path_child no_io_faults_def sample_jdk_def sample_jdk_home_def
        split: if_splits)
  have "\<not> prefix ?p (je_root sample_jdk_env) \<and> lock_path sample_jdk_env sample_jdk_request \<noteq> Inr ?p"
    by (intro conjI notI; code_simp)
  moreover have "prefix (jd_home sample_jdk) ?p" by (simp add: sample_jdk_def)
  ultimately have "bt_get (snd ?run) ?p = None"
    using removal_confined [OF run wf closed platform homes] one by fastforce
  then show ?thesis using one by (subst run) simp
qed

text \<open>
  A JDK whose deletion fails half-way is moved back to its home and is
  found as an installation again, although a file of it is missing.
\<close>

theorem damaged_jdk_restored:
  "let modules = sample_jdk_home @ [Normal ''modules''];
       env = sample_jdk_env\<lparr>je_faults := \<lambda>op p. if op = ''remove'' then Some ''busy''
         else if op = ''kept'' \<and> path_file_name p \<noteq> Some ''modules'' then Some ''busy'' else None\<rparr>;
       (r, t') = remove_jdks env sample_jdk_request False (bt_insert modules (FileNode ''m'') sample_jdk_tree)
   in \<not> is_ok r \<and> bt_get t' modules = None \<and> find_jdk env sample_jdk_request t' = Inr (Some sample_jdk)"
  by code_simp

end
