(* ===== verification/Build_Tools.thy ===== *)
theory Build_Tools
  imports Jdk_Store Build_Archive
begin

text \<open>
  What the build steps of \<open>crates/jman-build/src/lib.rs\<close> share: the environment (process
  environment, codecs, SHA-256, processes), the bytes that are fed into the hashes of caches,
  and the artifacts of a lockfile in the cache directory. A file is read at once; that it
  changes while it is read is a fault.
\<close>

section \<open>The environment\<close>

text \<open>A process to run; without an environment of its own it inherits the one of jman.\<close>

record process =
  pr_program :: path
  pr_arguments :: "str list"
  pr_directory :: "path option"
  pr_environment :: "(str, str) btree_map option"

record generator_record =
  gr_key :: str
  gr_outputs :: "(str, str) btree_map"

record package_record =
  pk_key :: str
  pk_checksum :: str
  pk_size :: "64 word"
  pk_warnings :: "str list"

record build_tools =
  bo_faults :: faults
  bo_pid :: nat
  bo_sequence :: nat
  bo_package_version :: str
  bo_variable :: "str \<Rightarrow> str option"
  bo_codec :: toml_codec
  bo_canonical :: "tree \<Rightarrow> path \<Rightarrow> (str, path) result"
  bo_sha256_hex :: "str \<Rightarrow> str"
  bo_run :: "process \<Rightarrow> tree \<Rightarrow> (str, command_output) result \<times> tree"
  bo_generator_json :: "generator \<Rightarrow> (str, str) result"
  bo_print_generator_record :: "generator_record \<Rightarrow> (str, str) result"
  bo_parse_generator_record :: "str \<Rightarrow> generator_record option"
  bo_print_package_record :: "package_record \<Rightarrow> (str, str) result"
  bo_parse_package_record :: "str \<Rightarrow> package_record option"
  bo_zip :: "zip_op list \<Rightarrow> (build_error, str) result"
  bo_unzip :: "path \<Rightarrow> str \<Rightarrow> (build_error, (str \<times> bool \<times> str) list) result"

text \<open>The files as readers of whole files see them.\<close>

definition faulty_disk :: "faults \<Rightarrow> tree \<Rightarrow> disk" where
  "faulty_disk faults t p =
     (case faults ''read'' p of Some e \<Rightarrow> Some (Unreadable e) | None \<Rightarrow> tree_disk t p)"

definition env_at :: "build_tools \<Rightarrow> tree \<Rightarrow> build_env" where
  "env_at tools t =
     \<lparr>be_disk = faulty_disk (bo_faults tools) t, be_codec = bo_codec tools,
      be_canonical = bo_canonical tools t\<rparr>"

definition read_bytes :: "build_tools \<Rightarrow> tree \<Rightarrow> path \<Rightarrow> str built" where
  "read_bytes tools t p = fst (io p (fs_read (bo_faults tools) p) t)"

text \<open>\<open>env::join_paths\<close>: a path with a colon cannot be joined.\<close>

definition join_paths :: "path list \<Rightarrow> str built" where
  "join_paths ps =
     (if list_ex (\<lambda>p. CHR '':'' \<in> set (show_path p)) ps
      then Inl (Invalid ''could not construct Java classpath: path segment contains separator `:`'')
      else Inr (join_with '':'' (map show_path ps)))"

section \<open>Hash inputs\<close>

text \<open>\<open>u64::to_le_bytes\<close>.\<close>

definition le_bytes64 :: "nat \<Rightarrow> str" where
  "le_bytes64 n = map (\<lambda>i. char_of (n div 256 ^ i mod 256)) [0..<8]"

text \<open>A hash is the bytes it has been fed.\<close>

definition hash_part :: "str \<Rightarrow> str \<Rightarrow> str" where
  "hash_part hashed bytes = hashed @ le_bytes64 (length bytes) @ bytes"

definition hash_file :: "build_tools \<Rightarrow> tree \<Rightarrow> str \<Rightarrow> path \<Rightarrow> str built" where
  "hash_file tools t hashed p =
     and_then (read_bytes tools t p) (\<lambda>bytes.
     if bo_faults tools ''resized'' p \<noteq> None
     then Inl (Invalid (''package input changed while reading '' @ show_path p))
     else Inr (hashed @ le_bytes64 (length bytes) @ bytes))"

definition sha256_text :: "build_tools \<Rightarrow> str \<Rightarrow> str" where
  "sha256_text tools bytes = ''sha256:'' @ bo_sha256_hex tools bytes"

definition digest_file :: "build_tools \<Rightarrow> tree \<Rightarrow> path \<Rightarrow> (str \<times> 64 word) built" where
  "digest_file tools t p =
     and_then (read_bytes tools t p) (\<lambda>bytes. Inr (sha256_text tools bytes, of_nat (length bytes)))"

text \<open>A loop over files that feeds a hash.\<close>

fun hash_all :: "('a \<Rightarrow> str \<Rightarrow> str built) \<Rightarrow> 'a list \<Rightarrow> str \<Rightarrow> str built" where
  "hash_all f [] hashed = Inr hashed"
| "hash_all f (x # xs) hashed = and_then (f x hashed) (hash_all f xs)"

definition hash_tree_file :: "build_tools \<Rightarrow> tree \<Rightarrow> path \<Rightarrow> path \<Rightarrow> str \<Rightarrow> str built" where
  "hash_tree_file tools t root p hashed =
     and_then (ok_or (Invalid (''package input escaped '' @ show_path root)) (path_strip_prefix root p)) (\<lambda>relative.
     and_then (archive_name relative) (\<lambda>name. hash_file tools t (hash_part hashed name) p))"

definition hash_tree ::
    "build_tools \<Rightarrow> tree \<Rightarrow> str \<Rightarrow> path \<Rightarrow> str option \<Rightarrow> str \<Rightarrow> str built" where
  "hash_tree tools t label root extension hashed =
     and_then (input_files (bo_faults tools) t root extension) (\<lambda>files.
     hash_all (hash_tree_file tools t root) files
       (hash_part hashed label @ le_bytes64 (length files)))"

definition tree_digest :: "build_tools \<Rightarrow> tree \<Rightarrow> path \<Rightarrow> str built" where
  "tree_digest tools t root =
     and_then (input_files (bo_faults tools) t root None) (\<lambda>files.
     and_then (hash_all (\<lambda>p hashed.
          and_then (ok_or (Invalid (''generator output '' @ show_path p @ '' escaped '' @ show_path root))
            (path_strip_prefix root p)) (\<lambda>relative.
          hash_file tools t (hash_part hashed (utf8_lossy (show_path relative))) p)) files []) (\<lambda>hashed.
     Inr (sha256_text tools hashed)))"

section \<open>Artifacts\<close>

text \<open>The first package with a checksum, its file in the cache.\<close>

definition locked_artifact_path :: "path \<Rightarrow> lockfile \<Rightarrow> tree \<Rightarrow> str \<Rightarrow> path built" where
  "locked_artifact_path cache_dir lock t checksum =
     and_then (ok_or (Invalid (''classpath checksum '' @ ticked checksum @
         '' has no package in jman.lock; run `jman sync`''))
       (List.find (\<lambda>p. lp_artifact_checksum p = Some checksum) (lf_packages lock))) (\<lambda>package.
     and_then (ok_or (Invalid (''invalid classpath checksum '' @ ticked checksum))
       (strip_prefix ''sha256:'' checksum)) (\<lambda>digest.
     (let p = path_join (path_join cache_dir (path_of ''artifacts''))
                (path_of (digest @ ''.'' @ lp_extension package))
      in if fs_is_file t p then Inr p
         else Inl (Invalid (''cached artifact is missing at '' @ show_path p @ ''; run `jman sync`'')))))"

definition artifact_paths :: "str list \<Rightarrow> lockfile \<Rightarrow> path \<Rightarrow> tree \<Rightarrow> path list built" where
  "artifact_paths checksums lock cache_dir t = traverse (locked_artifact_path cache_dir lock t) checksums"

definition workspace_module_directory :: "path \<Rightarrow> path option" where
  "workspace_module_directory out =
     Option.bind (path_parent out) (\<lambda>output_directory.
     Option.bind (path_parent output_directory) (\<lambda>state_directory.
     if path_file_name out \<noteq> Some ''classes'' \<or> path_file_name output_directory \<noteq> Some ''output'' \<or>
        path_file_name state_directory \<noteq> Some ''.jman''
     then None else path_parent state_directory))"

definition usage_classpath :: "dependency_usage \<Rightarrow> lockfile \<Rightarrow> str list" where
  "usage_classpath usage lock =
     (case usage of
        CompileUsage \<Rightarrow> lc_compile (lf_classpath lock)
      | RuntimeUsage \<Rightarrow> lc_runtime (lf_classpath lock)
      | TestUsage \<Rightarrow> lc_test (lf_classpath lock))"

definition lock_name :: path where
  "lock_name = path_of ''jman.lock''"

fun upstream_artifacts ::
    "build_tools \<Rightarrow> tree \<Rightarrow> path \<Rightarrow> dependency_usage \<Rightarrow> path list \<Rightarrow> path list \<Rightarrow> path list built" where
  "upstream_artifacts tools t cache_dir usage [] found = Inr found"
| "upstream_artifacts tools t cache_dir usage (out # outs) found =
     (case workspace_module_directory out of
        None \<Rightarrow> upstream_artifacts tools t cache_dir usage outs found
      | Some module \<Rightarrow>
          and_then (read_lock (env_at tools t) (path_join module lock_name)) (\<lambda>lock.
          and_then (artifact_paths (usage_classpath usage lock) lock cache_dir t) (\<lambda>ps.
          upstream_artifacts tools t cache_dir usage outs (fold bs_insert ps found))))"

definition upstream_artifact_paths ::
    "build_tools \<Rightarrow> tree \<Rightarrow> path list \<Rightarrow> path \<Rightarrow> dependency_usage \<Rightarrow> path list built" where
  "upstream_artifact_paths tools t outputs cache_dir usage =
     upstream_artifacts tools t cache_dir usage outputs []"

end
