(* ===== verification/Build_Generators.thy ===== *)
theory Build_Generators
  imports Build_Tools Glob
begin

text \<open>
  The generators of \<open>crates/jman-build/src/lib.rs\<close>: which generators a build needs and in which
  order they run, the files a pattern matches, the environment and the arguments of the tool, the
  cache of its outputs, and the run that replaces the outputs only when everything succeeded.
  The tool itself is the parameter \<open>bo_run\<close>; the counter of temporary names is \<open>bo_sequence\<close>.
\<close>

section \<open>Results\<close>

record generator_result =
  gs_module :: str
  gs_generator :: str
  gs_inputs :: nat
  gs_outputs :: nat
  gs_cached :: bool

text \<open>The roots of generated files, by source set.\<close>

record generated_inputs =
  gi_java_sources :: "generator_source_set \<Rightarrow> path list"
  gi_resources :: "generator_source_set \<Rightarrow> path list"

definition no_generated_inputs :: generated_inputs where
  "no_generated_inputs = \<lparr>gi_java_sources = \<lambda>_. [], gi_resources = \<lambda>_. []\<rparr>"

fun add_generated ::
    "generator_source_set \<Rightarrow> generator_output_kind \<Rightarrow> path \<Rightarrow> generated_inputs \<Rightarrow> generated_inputs" where
  "add_generated src JavaSources p g =
     g\<lparr>gi_java_sources := (gi_java_sources g)(src := gi_java_sources g src @ [p])\<rparr>"
| "add_generated src Resources p g =
     g\<lparr>gi_resources := (gi_resources g)(src := gi_resources g src @ [p])\<rparr>"

fun generated_roots :: "generated_inputs \<Rightarrow> generator_output_kind \<Rightarrow> generator_source_set \<Rightarrow> path list" where
  "generated_roots g JavaSources src = gi_java_sources g src"
| "generated_roots g Resources src = gi_resources g src"

definition generator_output_root :: "path \<Rightarrow> str \<Rightarrow> str \<Rightarrow> path" where
  "generator_output_root module gen out =
     path_join (path_join (path_join module (path_of ''.jman/generated'')) (path_of gen)) (path_of out)"

section \<open>Inputs\<close>

text \<open>The components below the root, from the top: a link is refused, a missing one ends the walk.\<close>

fun reject_links :: "faults \<Rightarrow> tree \<Rightarrow> path \<Rightarrow> component list \<Rightarrow> unit built" where
  "reject_links faults t candidate [] = Inr ()"
| "reject_links faults t candidate (c # cs) =
     (let inner = candidate @ [c]
      in case faults ''stat'' inner of
           Some e \<Rightarrow> Inl (BuildIo inner e)
         | None \<Rightarrow>
             if fs_is_file t candidate then Inl (BuildIo inner ''not a directory'')
             else (case bt_get t inner of
                     None \<Rightarrow> Inr ()
                   | Some LinkNode \<Rightarrow>
                       Inl (Invalid (''symbolic links are not allowed in build inputs: '' @ show_path inner))
                   | Some _ \<Rightarrow> reject_links faults t inner cs))"

definition reject_symlink_components :: "faults \<Rightarrow> tree \<Rightarrow> path \<Rightarrow> path \<Rightarrow> unit built" where
  "reject_symlink_components faults t root p =
     and_then (ok_or (Invalid (''generator input path '' @ show_path p @ '' escaped '' @ show_path root))
       (path_strip_prefix root p)) (reject_links faults t root)"

text \<open>The leading components of a pattern without wildcards.\<close>

definition has_wildcard :: "str \<Rightarrow> bool" where
  "has_wildcard s \<longleftrightarrow> CHR ''*'' \<in> set s \<or> CHR ''?'' \<in> set s"

definition pattern_prefix :: "str \<Rightarrow> str" where
  "pattern_prefix pattern =
     join_with ''/'' (takeWhile (\<lambda>c. \<not> has_wildcard c) (split_char (CHR ''/'') pattern))"

definition slashed :: "path \<Rightarrow> str" where
  "slashed p = replace_all [CHR 0x5C] ''/'' (utf8_lossy (show_path p))"

fun match_candidates ::
    "build_tools \<Rightarrow> tree \<Rightarrow> path \<Rightarrow> str \<Rightarrow> path list \<Rightarrow> path list \<Rightarrow> path list built" where
  "match_candidates tools t module pattern [] found = Inr found"
| "match_candidates tools t module pattern (candidate # rest) found =
     (case path_strip_prefix module candidate of
        None \<Rightarrow> Inl (Invalid (''generator input '' @ show_path candidate @ '' escaped '' @ show_path module))
      | Some relative \<Rightarrow>
          if path_glob_matches pattern (slashed relative)
          then and_then (canonicalize (env_at tools t) candidate) (\<lambda>p.
               match_candidates tools t module pattern rest (bs_insert p found))
          else match_candidates tools t module pattern rest found)"

definition pattern_inputs ::
    "build_tools \<Rightarrow> tree \<Rightarrow> path \<Rightarrow> str \<Rightarrow> path list \<Rightarrow> path list built" where
  "pattern_inputs tools t module pattern found =
     (let pre = pattern_prefix pattern; root = path_join module (path_of pre)
      in and_then (reject_symlink_components (bo_faults tools) t module root) (\<lambda>_.
         if fs_is_file t root
         then (if path_glob_matches pattern pre
               then and_then (canonicalize (env_at tools t) root) (\<lambda>p. Inr (bs_insert p found))
               else Inr found)
         else if fs_is_dir t root
         then and_then (input_files (bo_faults tools) t root None) (\<lambda>files.
              match_candidates tools t module pattern files found)
         else Inr found))"

fun patterns_inputs ::
    "build_tools \<Rightarrow> tree \<Rightarrow> path \<Rightarrow> str list \<Rightarrow> path list \<Rightarrow> path list built" where
  "patterns_inputs tools t module [] found = Inr found"
| "patterns_inputs tools t module (pattern # ps) found =
     and_then (pattern_inputs tools t module pattern found) (patterns_inputs tools t module ps)"

definition generator_inputs :: "build_tools \<Rightarrow> tree \<Rightarrow> path \<Rightarrow> generator \<Rightarrow> path list built" where
  "generator_inputs tools t module gen = patterns_inputs tools t module (gn_inputs gen) []"

section \<open>The environment of the tool\<close>

definition generator_working_directory :: "build_tools \<Rightarrow> tree \<Rightarrow> path \<Rightarrow> path \<Rightarrow> path built" where
  "generator_working_directory tools t module relative =
     and_then (canonicalize (env_at tools t) (path_join module relative)) (\<lambda>directory.
     if \<not> path_starts_with directory module \<or> \<not> fs_is_dir t directory
     then Inl (Invalid (''generator working directory '' @ show_path directory @
            '' must be an existing directory inside '' @ show_path module))
     else Inr directory)"

text \<open>\<open>env::split_paths\<close> and \<open>env::join_paths\<close> on the parts of a search path.\<close>

definition split_paths :: "str \<Rightarrow> str list" where
  "split_paths s = split_char (CHR '':'') s"

definition generator_environment ::
    "build_tools \<Rightarrow> path \<Rightarrow> path \<Rightarrow> str \<Rightarrow> path \<Rightarrow> generator \<Rightarrow> (str, str) btree_map built" where
  "generator_environment tools workspace_root module_root name java_home gen =
     (let bin = show_path (path_join java_home (path_of ''bin''));
          paths = bin # (case bo_variable tools ''PATH'' of Some p \<Rightarrow> split_paths p | None \<Rightarrow> [])
      in if CHR '':'' \<in> set bin
         then Inl (Invalid ''could not construct generator PATH: path segment contains separator `:`'')
         else (let inherited = List.map_filter (\<lambda>v. map_option (Pair v) (bo_variable tools v))
                     (gn_inherit_environment gen)
               in Inr (bt_of_list ((''PATH'', join_with '':'' paths) # inherited @ gn_environment gen @
                    [(''JMAN_PROJECT_ROOT'', show_path workspace_root),
                     (''JMAN_MODULE_ROOT'', show_path module_root),
                     (''JMAN_GENERATOR_NAME'', name),
                     (''JMAN_JAVA_HOME'', show_path java_home),
                     (''JAVA_HOME'', show_path java_home)]))))"

text \<open>The first entry of a search path that has a file of this name.\<close>

definition on_path :: "tree \<Rightarrow> str \<Rightarrow> path \<Rightarrow> path option" where
  "on_path t search p =
     List.find (fs_is_file t) (map (\<lambda>d. path_join (path_of d) p) (split_paths search))"

definition canonical_or_same :: "build_tools \<Rightarrow> tree \<Rightarrow> path \<Rightarrow> path" where
  "canonical_or_same tools t p = (case bo_canonical tools t p of Inr q \<Rightarrow> q | Inl _ \<Rightarrow> p)"

definition selected_javac :: "build_tools \<Rightarrow> tree \<Rightarrow> path \<Rightarrow> path built" where
  "selected_javac tools t javac =
     (if length javac > 1 \<or> is_absolute javac then Inr (canonical_or_same tools t javac)
      else (case bo_variable tools ''PATH'' of
              None \<Rightarrow> Inl (Invalid ''cannot locate the selected javac because PATH is unset'')
            | Some search \<Rightarrow>
                (case on_path t search javac of
                   None \<Rightarrow> Inl (Invalid (''cannot locate selected Java compiler '' @
                             ticked (show_path javac) @ '' on PATH''))
                 | Some p \<Rightarrow> Inr (canonical_or_same tools t p))))"

definition generator_java_home :: "build_tools \<Rightarrow> tree \<Rightarrow> active_toolchain \<Rightarrow> path built" where
  "generator_java_home tools t tc =
     (case at_managed tc of
        Some jdk \<Rightarrow> Inr (jd_home jdk)
      | None \<Rightarrow>
          and_then (selected_javac tools t (at_javac tc)) (\<lambda>javac.
          ok_or (Invalid (''cannot derive JAVA_HOME from selected compiler '' @ show_path javac))
            (Option.bind (path_parent javac) path_parent)))"

definition resolve_generator_executable ::
    "build_tools \<Rightarrow> tree \<Rightarrow> str \<Rightarrow> path \<Rightarrow> (str, str) btree_map \<Rightarrow> path built" where
  "resolve_generator_executable tools t command working_directory environment =
     (let candidate = path_of command
      in if length candidate > 1 \<or> is_absolute candidate
         then canonicalize (env_at tools t)
                (if is_absolute candidate then candidate else path_join working_directory candidate)
         else and_then (ok_or (Invalid (''cannot find generator executable '' @ ticked command @
                  '' because PATH is unset'')) (bt_get environment ''PATH'')) (\<lambda>search.
              case on_path t search candidate of
                None \<Rightarrow> Inl (Invalid (''generator executable '' @ ticked command @ '' was not found on PATH''))
              | Some p \<Rightarrow> canonicalize (env_at tools t) p))"

section \<open>The key of a run\<close>

definition hash_input :: "build_tools \<Rightarrow> tree \<Rightarrow> path \<Rightarrow> path \<Rightarrow> str \<Rightarrow> str built" where
  "hash_input tools t module p hashed =
     and_then (ok_or (Invalid (''generator input '' @ show_path p @ '' escaped the module''))
       (path_strip_prefix module p)) (\<lambda>relative.
     hash_file tools t (hash_part hashed (utf8_lossy (show_path relative))) p)"

definition generator_state_path :: "path \<Rightarrow> str \<Rightarrow> path" where
  "generator_state_path module name =
     path_join (path_join module (path_of ''.jman/generator-state'')) (path_of (name @ ''.json''))"

definition generator_key_input ::
    "build_tools \<Rightarrow> tree \<Rightarrow> path \<Rightarrow> str \<Rightarrow> generator \<Rightarrow> path list \<Rightarrow> path \<Rightarrow> (str, str) btree_map \<Rightarrow> str built" where
  "generator_key_input tools t module name gen inputs executable environment =
     and_then (map_err (\<lambda>e. Invalid (''could not serialize generator: '' @ e))
       (bo_generator_json tools gen)) (\<lambda>json.
     and_then (hash_file tools t (hash_part (hash_part (hash_part [] ''jman-generator-v1'') name) json)
       executable) (\<lambda>hashed.
     and_then (hash_all (hash_input tools t module) inputs hashed) (\<lambda>hashed.
     hash_all (\<lambda>dependency hashed. hash_file tools t hashed (generator_state_path module dependency))
       (gn_depends_on gen)
       (fold (\<lambda>(variable, val) hashed. hash_part (hash_part hashed (utf8_lossy variable)) (utf8_lossy val))
          environment hashed))))"

definition generator_key ::
    "build_tools \<Rightarrow> tree \<Rightarrow> path \<Rightarrow> str \<Rightarrow> generator \<Rightarrow> path list \<Rightarrow> path \<Rightarrow> (str, str) btree_map \<Rightarrow> str built" where
  "generator_key tools t module name gen inputs executable environment =
     and_then (generator_key_input tools t module name gen inputs executable environment)
       (\<lambda>hashed. Inr (sha256_text tools hashed))"

section \<open>Arguments\<close>

record generator_expansion =
  ge_project_root :: path
  ge_module_root :: path
  ge_generator_name :: str
  ge_java_home :: path
  ge_inputs :: "path list"
  ge_outputs :: "(str, path) btree_map"
  ge_dependency_outputs :: "(str, path) btree_map"
  ge_environment :: "(str, str) btree_map"

definition lossy_path :: "path \<Rightarrow> str" where
  "lossy_path p = utf8_lossy (show_path p)"

definition expression_value :: "generator_expansion \<Rightarrow> str \<Rightarrow> str built" where
  "expression_value ex variable =
     (if variable = ''project.root'' then Inr (lossy_path (ge_project_root ex))
      else if variable = ''module.root'' then Inr (lossy_path (ge_module_root ex))
      else if variable = ''generator.name'' then Inr (ge_generator_name ex)
      else if variable = ''java.home'' then Inr (lossy_path (ge_java_home ex))
      else if variable = ''input'' then Inl (Invalid ''`${input}` must be a complete generator argument'')
      else (case strip_prefix ''output.'' variable of
              Some name \<Rightarrow>
                ok_or (Invalid (''unknown generator output '' @ ticked name))
                  (map_option lossy_path (bt_get (ge_outputs ex) name))
            | None \<Rightarrow>
                (case strip_prefix ''env.'' variable of
                   Some name \<Rightarrow>
                     ok_or (Invalid (''generator environment variable '' @ ticked name @ '' is unavailable''))
                       (map_option utf8_lossy (bt_get (ge_environment ex) name))
                 | None \<Rightarrow>
                     (case strip_prefix ''dependency.'' variable of
                        Some reference \<Rightarrow>
                          ok_or (Invalid (''unknown generator dependency output '' @ ticked reference))
                            (map_option lossy_path (bt_get (ge_dependency_outputs ex) reference))
                      | None \<Rightarrow> Inl (Invalid (''unknown generator expression `${'' @ variable @ ''}`''))))))"

function expand_rest :: "str \<Rightarrow> generator_expansion \<Rightarrow> str \<Rightarrow> str \<Rightarrow> str built" where
  "expand_rest template ex out remaining =
     (case split_once (CHR ''$'') remaining of
        None \<Rightarrow> Inr (out @ remaining)
      | Some (before, rest) \<Rightarrow>
          (case strip_prefix ''$'' rest of
             Some escaped \<Rightarrow> expand_rest template ex (out @ before @ ''$'') escaped
           | None \<Rightarrow>
               (case strip_prefix ''{'' rest of
                  None \<Rightarrow> expand_rest template ex (out @ before @ ''$'') rest
                | Some expression \<Rightarrow>
                    (case split_once (CHR ''}'') expression of
                       None \<Rightarrow> Inl (Invalid (''unterminated generator expression in '' @ ticked template))
                     | Some (variable, after) \<Rightarrow>
                         (case expression_value ex variable of
                            Inl e \<Rightarrow> Inl e
                          | Inr val \<Rightarrow> expand_rest template ex (out @ before @ val) after)))))"
  by pat_completeness auto
termination
  by (relation "measure (\<lambda>(_, _, _, r). length r)")
     (auto simp: split_once_Some strip_prefix_Some_iff)

declare expand_rest.simps [simp del]

definition expand_generator_template :: "str \<Rightarrow> generator_expansion \<Rightarrow> str list built" where
  "expand_generator_template template ex =
     (if template = ''${input}'' then Inr (map show_path (ge_inputs ex))
      else and_then (expand_rest template ex [] template) (\<lambda>s. Inr [s]))"

section \<open>The cached outputs\<close>

fun actual_outputs :: "faults \<Rightarrow> (path \<times> node) list \<Rightarrow> str list \<Rightarrow> str list option built" where
  "actual_outputs faults [] found = Inr (Some found)"
| "actual_outputs faults ((p, n) # es) found =
     (case faults ''stat'' p of
        Some e \<Rightarrow> Inl (BuildIo p e)
      | None \<Rightarrow>
          if n \<noteq> DirNode then Inr None
          else actual_outputs faults es
                 (bs_insert (case path_file_name p of Some s \<Rightarrow> utf8_lossy s | None \<Rightarrow> []) found))"

fun digests_match :: "build_tools \<Rightarrow> tree \<Rightarrow> path \<Rightarrow> (str \<times> str) list \<Rightarrow> bool built" where
  "digests_match tools t root [] = Inr True"
| "digests_match tools t root ((name, expected) # rest) =
     (let out = path_join root (path_of name)
      in if \<not> fs_is_dir t out then Inr False
         else and_then (tree_digest tools t out) (\<lambda>actual.
              if actual \<noteq> expected then Inr False else digests_match tools t root rest))"

definition generator_outputs_match ::
    "build_tools \<Rightarrow> tree \<Rightarrow> path \<Rightarrow> generator_record \<Rightarrow> bool built" where
  "generator_outputs_match tools t root record =
     (if \<not> fs_is_dir t root then Inr False
      else and_then (fst (io root (fs_read_dir (bo_faults tools) root) t)) (\<lambda>entries.
           and_then (actual_outputs (bo_faults tools) entries []) (\<lambda>actual.
           case actual of
             None \<Rightarrow> Inr False
           | Some names \<Rightarrow>
               if names \<noteq> bs_of_list (bt_keys (gr_outputs record)) then Inr False
               else digests_match tools t root (gr_outputs record))))"

definition output_file_count :: "build_tools \<Rightarrow> tree \<Rightarrow> path \<Rightarrow> nat built" where
  "output_file_count tools t root =
     and_then (input_files (bo_faults tools) t root None) (\<lambda>files. Inr (length files))"

section \<open>One run\<close>

definition module_generators :: "workspace_module \<Rightarrow> (str, generator) btree_map" where
  "module_generators m =
     (case mf_build (bm_manifest m) of None \<Rightarrow> [] | Some b \<Rightarrow> bd_generators b)"

text \<open>\<open>OpenOptions::create\<close> without truncation, then an exclusive lock.\<close>

definition open_lock :: "faults \<Rightarrow> path \<Rightarrow> unit tree_step" where
  "open_lock faults p =
     step_bind (io p (guarded faults ''open'' p (\<lambda>t.
       if fs_is_file t p then (Inr (), t)
       else if bt_get t p = None \<and> parent_ready t p then (Inr (), bt_insert p (FileNode []) t)
       else (Inl ''cannot open'', t)))) (\<lambda>_.
     io p (guarded faults ''lock'' p (\<lambda>t. (Inr (), t))))"

text \<open>What a run has found out before the tool starts.\<close>

record generator_setup =
  st_inputs :: "path list"
  st_working_directory :: path
  st_java_home :: path
  st_environment :: "(str, str) btree_map"
  st_executable :: path
  st_key :: str

text \<open>Indexing an empty command panics; validated manifests have none, the panic is an error here.\<close>

definition command_head :: "generator \<Rightarrow> str built" where
  "command_head gen =
     (case gn_command gen of
        [] \<Rightarrow> Inl (Invalid ''index out of bounds: the len is 0 but the index is 0'')
      | c # _ \<Rightarrow> Inr c)"

definition setup_generator ::
    "build_tools \<Rightarrow> workspace_module \<Rightarrow> path \<Rightarrow> active_toolchain \<Rightarrow> str \<Rightarrow> generator \<Rightarrow> tree \<Rightarrow>
       generator_setup built" where
  "setup_generator tools m workspace_root tc name gen t =
     and_then (generator_inputs tools t (bm_directory m) gen) (\<lambda>inputs.
     if inputs = [] \<and> \<not> gn_allow_empty_inputs gen
     then Inl (Invalid (''generator '' @ ticked name @ '' in module '' @ bm_name m @ '' matched no inputs''))
     else and_then (case gn_working_directory gen of
              None \<Rightarrow> Inr (bm_directory m)
            | Some relative \<Rightarrow> generator_working_directory tools t (bm_directory m) relative) (\<lambda>directory.
          and_then (generator_java_home tools t tc) (\<lambda>java_home.
          and_then (generator_environment tools workspace_root (bm_directory m) name java_home gen) (\<lambda>environment.
          and_then (command_head gen) (\<lambda>command.
          and_then (resolve_generator_executable tools t command directory environment) (\<lambda>executable.
          and_then (generator_key tools t (bm_directory m) name gen inputs executable environment) (\<lambda>key.
          Inr \<lparr>st_inputs = inputs, st_working_directory = directory, st_java_home = java_home,
               st_environment = environment, st_executable = executable, st_key = key\<rparr>)))))))"

definition generated_directory :: "path \<Rightarrow> path" where
  "generated_directory module = path_join module (path_of ''.jman/generated'')"

definition state_directory :: "path \<Rightarrow> path" where
  "state_directory module = path_join module (path_of ''.jman/generator-state'')"

text \<open>The record of an earlier run with this key whose outputs are still there; other read errors
  count as no record.\<close>

definition cached_run :: "build_tools \<Rightarrow> path \<Rightarrow> str \<Rightarrow> str \<Rightarrow> tree \<Rightarrow> bool built" where
  "cached_run tools module name key t =
     (case read_bytes tools t (generator_state_path module name) of
        Inl _ \<Rightarrow> Inr False
      | Inr bytes \<Rightarrow>
          (case bo_parse_generator_record tools bytes of
             None \<Rightarrow> Inr False
           | Some record \<Rightarrow>
               if gr_key record = key
               then generator_outputs_match tools t (path_join (generated_directory module) (path_of name)) record
               else Inr False))"

definition dependency_outputs ::
    "path \<Rightarrow> (str, generator) btree_map \<Rightarrow> str list \<Rightarrow> (str, path) btree_map built" where
  "dependency_outputs module gens deps =
     and_then (traverse (\<lambda>d. ok_or (Invalid (''generator dependency '' @ ticked d @ '' is missing''))
       (bt_get gens d)) deps) (\<lambda>gs.
     Inr (bt_of_list (concat (map (\<lambda>(d, g). map (\<lambda>out. (d @ ''.'' @ out, generator_output_root module d out))
       (bt_keys (gn_outputs g))) (zip deps gs)))))"

definition create_outputs :: "faults \<Rightarrow> path \<Rightarrow> str list \<Rightarrow> (str \<times> path) list tree_step" where
  "create_outputs faults temporary_root =
     step_traverse (\<lambda>out. let p = path_join temporary_root (path_of out)
       in step_bind (io p (fs_create_dir_all faults p)) (\<lambda>_. step_of (Inr (out, p))))"

definition expand_arguments :: "generator_expansion \<Rightarrow> generator \<Rightarrow> str list built" where
  "expand_arguments ex gen =
     and_then (traverse (\<lambda>t. expand_generator_template t ex) (tl (gn_command gen) @ gn_arguments gen))
       (\<lambda>parts. Inr (concat parts))"

definition failed_tool :: "str \<Rightarrow> command_output \<Rightarrow> build_error" where
  "failed_tool name result =
     (let stderr = trim (utf8_lossy (co_stderr result)); stdout = trim (utf8_lossy (co_stdout result));
          details = (if stderr = [] then stdout else stderr)
      in Invalid (''generator '' @ ticked name @ '' failed with '' @ co_status result @
           (if details = [] then [] else [CHR 0x0A] @ details)))"

text \<open>The part of a run whose errors remove the temporary directory: outputs, tool, digests.\<close>

definition generate ::
    "build_tools \<Rightarrow> workspace_module \<Rightarrow> path \<Rightarrow> str \<Rightarrow> generator \<Rightarrow> generator_setup \<Rightarrow> path \<Rightarrow>
       (str, path) btree_map \<Rightarrow> (str, str) btree_map tree_step" where
  "generate tools m workspace_root name gen setup temporary_root deps =
     step_bind (create_outputs (bo_faults tools) temporary_root (bt_keys (gn_outputs gen))) (\<lambda>outputs.
     step_bind (step_of (expand_arguments
         \<lparr>ge_project_root = workspace_root, ge_module_root = bm_directory m, ge_generator_name = name,
          ge_java_home = st_java_home setup, ge_inputs = st_inputs setup,
          ge_outputs = bt_of_list outputs, ge_dependency_outputs = deps,
          ge_environment = st_environment setup\<rparr> gen)) (\<lambda>arguments t.
     case bo_run tools \<lparr>pr_program = st_executable setup, pr_arguments = arguments,
            pr_directory = Some (st_working_directory setup),
            pr_environment = Some (st_environment setup)\<rparr> t of
       (Inl e, t') \<Rightarrow>
         (Inl (Invalid (''could not execute generator '' @ ticked name @ '' with '' @
            show_path (st_executable setup) @ '': '' @ e)), t')
     | (Inr result, t') \<Rightarrow>
         if \<not> co_success result then (Inl (failed_tool name result), t')
         else (and_then (traverse (\<lambda>out. and_then (tree_digest tools t'
                   (path_join temporary_root (path_of out))) (\<lambda>d. Inr (out, d)))
                 (bt_keys (gn_outputs gen))) (\<lambda>ds. Inr (bt_of_list ds)), t')))"

text \<open>An error after which the leftovers at the given paths are removed, whatever that gives.\<close>

definition discard :: "faults \<Rightarrow> path \<Rightarrow> build_error \<Rightarrow> 'a tree_step" where
  "discard faults root e =
     step_bind (ignore (fs_remove_dir_all faults root)) (\<lambda>_. step_of (Inl e))"

definition discard_both :: "faults \<Rightarrow> path \<Rightarrow> path \<Rightarrow> build_error \<Rightarrow> 'a tree_step" where
  "discard_both faults root p e =
     step_bind (ignore (fs_remove_dir_all faults root)) (\<lambda>_.
     step_bind (ignore (fs_remove_file faults p)) (\<lambda>_. step_of (Inl e)))"

text \<open>The commit: the record is written next to its place, then outputs and record are replaced.\<close>

definition commit_run ::
    "build_tools \<Rightarrow> path \<Rightarrow> str \<Rightarrow> path \<Rightarrow> generator_record \<Rightarrow> unit tree_step" where
  "commit_run tools module name temporary_root record =
     (let faults = bo_faults tools; pid = bo_pid tools;
          final_root = path_join (generated_directory module) (path_of name);
          state = generator_state_path module name;
          temporary_state = path_join (state_directory module)
            (path_of (''.'' @ name @ ''.tmp.'' @ show_nat pid @ ''.'' @ show_nat (bo_sequence tools) @ ''.json''))
      in case bo_print_generator_record tools record of
           Inl e \<Rightarrow> discard faults temporary_root (Invalid (''could not serialize generator state: '' @ e))
         | Inr bytes \<Rightarrow> (\<lambda>t.
             case fs_write faults temporary_state bytes t of
               (Inl e, t') \<Rightarrow> discard_both faults temporary_root temporary_state (BuildIo temporary_state e) t'
             | (Inr _, t1) \<Rightarrow>
                 (case replace_directory faults pid temporary_root final_root t1 of
                    (Inl e, t') \<Rightarrow> discard_both faults temporary_root temporary_state e t'
                  | (Inr _, t2) \<Rightarrow>
                      (case replace_file faults pid temporary_state state t2 of
                         (Inl e, t') \<Rightarrow> step_bind (ignore (fs_remove_file faults temporary_state))
                                          (\<lambda>_. step_of (Inl e)) t'
                       | (Inr _, t3) \<Rightarrow> (Inr (), t3)))))"

definition temporary_root_of :: "build_tools \<Rightarrow> path \<Rightarrow> str \<Rightarrow> path" where
  "temporary_root_of tools module name =
     path_join (generated_directory module)
       (path_of (''.'' @ name @ ''.tmp.'' @ show_nat (bo_pid tools) @ ''.'' @ show_nat (bo_sequence tools)))"

definition verified_commit ::
    "build_tools \<Rightarrow> workspace_module \<Rightarrow> str \<Rightarrow> generator \<Rightarrow> generator_setup \<Rightarrow> path \<Rightarrow>
       (str, str) btree_map \<Rightarrow> unit tree_step" where
  "verified_commit tools m name gen setup temporary_root hashes t =
     (case generator_key tools t (bm_directory m) name gen (st_inputs setup) (st_executable setup)
             (st_environment setup) of
        Inl e \<Rightarrow> discard (bo_faults tools) temporary_root e t
      | Inr key \<Rightarrow>
          if key \<noteq> st_key setup
          then discard (bo_faults tools) temporary_root (Invalid (''generator '' @ ticked name @
                 '' inputs changed while it was running; retry the build'')) t
          else commit_run tools (bm_directory m) name temporary_root
                 \<lparr>gr_key = st_key setup, gr_outputs = hashes\<rparr> t)"

text \<open>A run that is not answered from the cache.\<close>

definition fresh_run ::
    "build_tools \<Rightarrow> workspace_module \<Rightarrow> path \<Rightarrow> str \<Rightarrow> generator \<Rightarrow> generator_setup \<Rightarrow>
       generator_result tree_step" where
  "fresh_run tools m workspace_root name gen setup =
     (let faults = bo_faults tools; module = bm_directory m;
          temporary_root = temporary_root_of tools module name
      in step_bind (io (generated_directory module) (fs_create_dir_all faults (generated_directory module))) (\<lambda>_.
         step_bind (gets (\<lambda>t. fs_exists t temporary_root)) (\<lambda>stale.
         step_bind (when_step stale (io temporary_root (fs_remove_dir_all faults temporary_root))) (\<lambda>_.
         step_bind (step_of (if mf_build (bm_manifest m) = None
             then Inl (Invalid ''generator build configuration is missing'') else Inr ())) (\<lambda>_.
         step_bind (step_of (dependency_outputs module (module_generators m) (gn_depends_on gen))) (\<lambda>deps.
         step_bind (\<lambda>t. case generate tools m workspace_root name gen setup temporary_root deps t of
             (Inl e, t') \<Rightarrow> discard faults temporary_root e t'
           | (Inr hashes, t') \<Rightarrow> verified_commit tools m name gen setup temporary_root hashes t') (\<lambda>_.
         step_bind (\<lambda>t. (output_file_count tools t (path_join (generated_directory module) (path_of name)), t))
           (\<lambda>outputs. step_of (Inr \<lparr>gs_module = bm_name m, gs_generator = name,
              gs_inputs = length (st_inputs setup), gs_outputs = outputs, gs_cached = False\<rparr>)))))))))"

definition run_generator ::
    "build_tools \<Rightarrow> workspace_module \<Rightarrow> path \<Rightarrow> active_toolchain \<Rightarrow> str \<Rightarrow> generator \<Rightarrow> bool \<Rightarrow>
       generator_result tree_step" where
  "run_generator tools m workspace_root tc name gen rebuild =
     (let faults = bo_faults tools; module = bm_directory m; state = state_directory module
      in step_bind (io state (fs_create_dir_all faults state)) (\<lambda>_.
         step_bind (open_lock faults (path_join state (path_of (name @ ''.lock'')))) (\<lambda>_.
         step_bind (\<lambda>t. (setup_generator tools m workspace_root tc name gen t, t)) (\<lambda>setup.
         step_bind (\<lambda>t. (if rebuild then Inr False else cached_run tools module name (st_key setup) t, t)) (\<lambda>cached.
         if cached
         then step_bind (\<lambda>t. (output_file_count tools t (path_join (generated_directory module) (path_of name)), t))
                (\<lambda>outputs. step_of (Inr \<lparr>gs_module = bm_name m, gs_generator = name,
                   gs_inputs = length (st_inputs setup), gs_outputs = outputs, gs_cached = True\<rparr>))
         else fresh_run tools m workspace_root name gen setup)))))"

section \<open>All generators of a module\<close>

text \<open>The dependencies that are not required yet, each once.\<close>

fun new_dependencies :: "str list \<Rightarrow> str list \<Rightarrow> str list" where
  "new_dependencies [] required = []"
| "new_dependencies (d # ds) required =
     (if d \<in> set required then new_dependencies ds required
      else d # new_dependencies ds (bs_insert d required))"

lemma set_new_dependencies: "set (new_dependencies ds required) = set ds - set required"
  by (induction ds required rule: new_dependencies.induct) auto

definition named_dependencies :: "(str, generator) btree_map \<Rightarrow> str set" where
  "named_dependencies gens = (\<Union>(n, g) \<in> set gens. set (gn_depends_on g))"

lemma finite_named_dependencies [simp]: "finite (named_dependencies gens)"
  by (auto simp: named_dependencies_def)

lemma depends_all: "bt_get gens n = Some g \<Longrightarrow> set (gn_depends_on g) \<subseteq> named_dependencies gens"
  using bt_get_in_set [of gens n g] by (fastforce simp: named_dependencies_def)

function require_loop ::
    "(str, generator) btree_map \<Rightarrow> str \<Rightarrow> str list \<Rightarrow> str list \<Rightarrow> str list built" where
  "require_loop gens module pending required =
     (if pending = [] then Inr required
      else (case bt_get gens (last pending) of
              None \<Rightarrow> Inl (Invalid (''unknown generator '' @ ticked (last pending) @ '' in module '' @ module))
            | Some g \<Rightarrow>
                require_loop gens module
                  (butlast pending @ new_dependencies (gn_depends_on g) required)
                  (fold bs_insert (new_dependencies (gn_depends_on g) required) required)))"
  by pat_completeness auto
termination
proof (relation "measures [\<lambda>(gens, _, _, required). card (named_dependencies gens - set required),
    \<lambda>(_, _, pending, _). length pending]", goal_cases)
  case (2 gens module pending required g)
  let ?new = "new_dependencies (gn_depends_on g) required"
  show ?case
  proof (cases "?new = []")
    case True
    then show ?thesis using 2(1) by simp
  next
    case False
    then obtain d where d: "d \<in> set ?new" by (cases ?new) auto
    have "named_dependencies gens - set (fold bs_insert ?new required) \<subset> named_dependencies gens - set required"
      using d depends_all [OF 2(2)] by (auto simp: set_new_dependencies set_fold_bs_insert)
    then show ?thesis by (auto intro: psubset_card_mono)
  qed
qed simp

declare require_loop.simps [simp del]

definition directly_required ::
    "(str, generator) btree_map \<Rightarrow> generator_source_set list \<Rightarrow> str list option \<Rightarrow> str list" where
  "directly_required gens source_sets selected =
     map fst (filter (\<lambda>(name, g). (case selected of None \<Rightarrow> True | Some names \<Rightarrow> name \<in> set names) \<and>
       list_ex (\<lambda>(_, out). go_source_set out \<in> set source_sets) (gn_outputs g)) gens)"

definition ready_required :: "(str, generator) btree_map \<Rightarrow> str list \<Rightarrow> str list \<Rightarrow> str list" where
  "ready_required gens required complete =
     filter (\<lambda>name. name \<notin> set complete \<and>
       (case bt_get gens name of
          None \<Rightarrow> False | Some g \<Rightarrow> list_all (\<lambda>d. d \<in> set complete) (gn_depends_on g))) required"

lemma ready_required_grow:
  assumes "ready_required gens required complete \<noteq> []"
  shows "length complete < length (fold bs_insert (ready_required gens required complete) complete)"
proof -
  from assms obtain n ns where ready: "ready_required gens required complete = n # ns"
    by (cases "ready_required gens required complete") auto
  then have "n \<in> set (ready_required gens required complete)" by simp
  then have "n \<notin> set complete" by (auto simp: ready_required_def)
  then show ?thesis
    using length_fold_bs_insert [of "bs_insert n complete" ns] by (simp add: ready length_bs_insert)
qed

text \<open>The layers of a module; a run is given the name of its generator.\<close>

function generate_layers ::
    "(str \<Rightarrow> generator_result tree_step) \<Rightarrow> (str, generator) btree_map \<Rightarrow> str \<Rightarrow> str list \<Rightarrow> str list \<Rightarrow>
       generator_result list \<Rightarrow> (str list \<times> generator_result list) tree_step" where
  "generate_layers run gens module required complete results t =
     (if length complete < length required
      then (if ready_required gens required complete = []
            then (Inl (Invalid (''generator dependency cycle in module '' @ module)), t)
            else (case step_traverse run (ready_required gens required complete) t of
                    (Inl e, t') \<Rightarrow> (Inl e, t')
                  | (Inr rs, t') \<Rightarrow>
                      generate_layers run gens module required
                        (fold bs_insert (ready_required gens required complete) complete)
                        (results @ rs) t'))
      else (Inr (complete, results), t))"
  by pat_completeness auto
termination
  by (relation "measure (\<lambda>(_, _, _, required, complete, _, _). length required - length complete)")
    (auto dest: ready_required_grow)

declare generate_layers.simps [simp del]

definition generated_of ::
    "path \<Rightarrow> (str, generator) btree_map \<Rightarrow> str list \<Rightarrow> generated_inputs" where
  "generated_of module gens complete =
     fold (\<lambda>(name, g) acc. if name \<notin> set complete then acc
       else fold (\<lambda>(out, decl) acc. add_generated (go_source_set decl) (go_kind decl)
              (generator_output_root module name out) acc) (gn_outputs g) acc) gens no_generated_inputs"

definition run_module_generators ::
    "build_tools \<Rightarrow> workspace_module \<Rightarrow> path \<Rightarrow> active_toolchain \<Rightarrow> generator_source_set list \<Rightarrow>
       str list option \<Rightarrow> bool \<Rightarrow> (generated_inputs \<times> generator_result list) tree_step" where
  "run_module_generators tools m workspace_root tc source_sets selected rebuild =
     (let gens = module_generators m; direct = directly_required gens source_sets selected
      in if gens = [] then step_of (Inr (no_generated_inputs, []))
         else step_bind (step_of (require_loop gens (bm_name m) direct direct)) (\<lambda>required.
              step_bind (generate_layers (\<lambda>name. run_generator tools m workspace_root tc name
                  (the (bt_get gens name)) rebuild) gens (bm_name m) required [] [])
                (\<lambda>(complete, results). step_of (Inr (generated_of (bm_directory m) gens complete, results)))))"

end
