(* ===== verification/Project_Model.thy ===== *)
theory Project_Model
  imports Graph Config_Validate
begin

text \<open>
  The translations between the Maven model, \<open>jman.toml\<close> and \<open>jman.lock\<close> in
  \<open>crates/jman-cli/src/main.rs\<close>: the manifest of an imported effective POM, the effective model
  of a manifest, the lockfile of a resolved graph, and the test whether a lockfile still holds.
  A wrapped error keeps the context it was given.
\<close>

section \<open>Errors and coordinates\<close>

datatype cli_error =
    Bail str
  | ConfigCause config_error
  | ResolverCause resolver_error
  | SystemCause str
  | Context str cli_error

type_synonym 'a cli = "(cli_error, 'a) result"

definition with_context :: "str \<Rightarrow> 'a cli \<Rightarrow> 'a cli" where
  "with_context m r = map_err (Context m) r"

text \<open>A coordinate \<open>group:artifact\<close> of two non-empty parts.\<close>

definition split_ga :: "str \<Rightarrow> (str \<times> str) cli" where
  "split_ga coord =
     ok_or (Bail (''invalid dependency coordinate '' @ ticked coord))
       (case split_once (CHR '':'') coord of
          None \<Rightarrow> None
        | Some (g, a) \<Rightarrow> if g \<noteq> [] \<and> a \<noteq> [] \<and> CHR '':'' \<notin> set a then Some (g, a) else None)"

definition manifest_exclusions :: "str list \<Rightarrow> exclusion list cli" where
  "manifest_exclusions exclusions =
     traverse (\<lambda>c. and_then (split_ga c) (\<lambda>(g, a). Inr \<lparr>x_group = g, x_artifact = a\<rparr>)) exclusions"

definition locked_coordinate :: "locked_package \<Rightarrow> str" where
  "locked_coordinate p =
     coordinate_display \<lparr>c_group = lp_group p, c_artifact = lp_artifact p, c_version = lp_version p,
       c_extension = lp_extension p, c_classifier = lp_classifier p\<rparr>"

text \<open>The first two fields of a printed coordinate.\<close>

definition printed_ga :: "str \<Rightarrow> str" where
  "printed_ga coord =
     (let parts = split_char (CHR '':'') coord
      in (case parts of p # _ \<Rightarrow> p | [] \<Rightarrow> []) @ '':'' @ (case parts of _ # q # _ \<Rightarrow> q | _ \<Rightarrow> []))"

section \<open>From a manifest to the effective model\<close>

definition manifest_scopes :: "dependencies \<Rightarrow> (str \<times> (str, dependency_spec) btree_map) list" where
  "manifest_scopes d =
     [(''compile'', dp_compile d), (''runtime'', dp_runtime d), (''provided'', dp_provided d),
      (''test'', dp_test d)]"

text \<open>The declarations of a manifest with their scope, in the order the loops visit them.\<close>

definition scoped_specs :: "dependencies \<Rightarrow> (str \<times> str \<times> dependency_spec) list" where
  "scoped_specs d = concat (map (\<lambda>(scope, entries). map (Pair scope) entries) (manifest_scopes d))"

definition metadata_of :: "manifest \<Rightarrow> str \<Rightarrow> str \<Rightarrow> maven_dependency_metadata option" where
  "metadata_of m scope ga =
     Option.bind (mf_maven m) (\<lambda>maven. bt_get (mv_dependencies maven) (scope @ '':'' @ ga))"

text \<open>A declared version; dependencies on a path have none and are left to the workspace.\<close>

definition declared_dependency :: "manifest \<Rightarrow> str \<times> str \<times> dependency_spec \<Rightarrow> dependency option cli" where
  "declared_dependency m = (\<lambda>(scope, ga, spec).
     case dependency_spec_version spec of
       None \<Rightarrow> Inr None
     | Some version \<Rightarrow>
         and_then (split_ga ga) (\<lambda>(g, a).
         let metadata = metadata_of m scope ga
         in and_then (case metadata of None \<Rightarrow> Inr [] | Some i \<Rightarrow> manifest_exclusions (md_exclusions i)) (\<lambda>xs.
            Inr (Some
              \<lparr>d_group = g, d_artifact = a, d_version = Some version, d_scope = scope,
               d_scope_explicit = (scope \<noteq> ''compile''),
               d_type = (case metadata of None \<Rightarrow> ''jar'' | Some i \<Rightarrow> md_dependency_type i),
               d_type_explicit = (case metadata of None \<Rightarrow> False | Some i \<Rightarrow> md_dependency_type i \<noteq> ''jar''),
               d_classifier = Option.bind metadata md_classifier,
               d_optional = (case metadata of None \<Rightarrow> None
                             | Some i \<Rightarrow> if md_optional i then Some True else None),
               d_exclusions = xs\<rparr>))))"

definition managed_of :: "maven_managed_dependency \<Rightarrow> dependency cli" where
  "managed_of x =
     and_then (manifest_exclusions (mm_exclusions x)) (\<lambda>xs.
     Inr \<lparr>d_group = mm_group x, d_artifact = mm_artifact x, d_version = mm_version x,
          d_scope = mm_scope x, d_scope_explicit = (mm_scope x \<noteq> ''compile''),
          d_type = mm_dependency_type x, d_type_explicit = (mm_dependency_type x \<noteq> ''jar''),
          d_classifier = mm_classifier x, d_optional = mm_optional x, d_exclusions = xs\<rparr>)"

definition processor_of :: "str \<times> str \<Rightarrow> annotation_processor cli" where
  "processor_of = (\<lambda>(ga, version).
     and_then (split_ga ga) (\<lambda>(g, a).
     Inr \<lparr>ap_dependency =
       \<lparr>d_group = g, d_artifact = a, d_version = Some version, d_scope = ''processor'',
        d_scope_explicit = True, d_type = ''jar'', d_type_explicit = False, d_classifier = None,
        d_optional = None, d_exclusions = []\<rparr>\<rparr>))"

definition parsed_coordinate :: "str \<Rightarrow> coordinate cli" where
  "parsed_coordinate s = map_err ResolverCause (coordinate_parse s)"

definition effective_from_manifest :: "manifest \<Rightarrow> effective_pom cli" where
  "effective_from_manifest m =
     and_then (traverse (declared_dependency m) (scoped_specs (mf_dependencies m))) (\<lambda>deps.
     and_then (case mf_maven m of None \<Rightarrow> Inr []
               | Some maven \<Rightarrow> traverse managed_of (mv_dependency_management maven)) (\<lambda>management.
     and_then (traverse processor_of (mf_annotation_processors m)) (\<lambda>processors.
     and_then (traverse_opt parsed_coordinate (Option.bind (mf_maven m) mv_parent)) (\<lambda>parent.
     and_then (case mf_maven m of None \<Rightarrow> Inr []
               | Some maven \<Rightarrow> traverse parsed_coordinate (mv_bom_imports maven)) (\<lambda>boms.
     Inr \<lparr>e_coordinate = coordinate_pom (pj_group (mf_project m)) (pj_name (mf_project m))
                           (pj_version (mf_project m)),
          e_parent = parent, e_packaging = pj_packaging (mf_project m),
          e_modules = pj_modules (mf_project m), e_property_templates = [], e_properties = [],
          e_dependencies = List.map_filter id deps, e_management = management,
          e_bom_imports = boms,
          e_repositories = map (\<lambda>r. \<lparr>r_id = cr_id r, r_url = cr_url r, r_releases_enabled = True,
            r_snapshots_enabled = True\<rparr>) (mf_repositories m),
          e_processors = processors,
          e_compiler_args = (case mf_build m of None \<Rightarrow> [] | Some b \<Rightarrow> bd_compiler_args b),
          e_relocation = None\<rparr>)))))"

section \<open>From an effective POM to a manifest\<close>

definition release_properties :: "str list" where
  "release_properties =
     [''maven.compiler.release'', ''maven.compiler.source'', ''java.version'', ''release.version'',
      ''jdk.version'']"

definition main_class_properties :: "str list" where
  "main_class_properties = [''exec.mainClass'', ''start-class'', ''main.class'']"

text \<open>\<open>find_map\<close> over the keys.\<close>

fun first_of :: "(str, str) btree_map \<Rightarrow> str list \<Rightarrow> str option" where
  "first_of properties [] = None"
| "first_of properties (k # ks) =
     (case bt_get properties k of Some v \<Rightarrow> Some v | None \<Rightarrow> first_of properties ks)"

definition maven_java_release :: "effective_pom \<Rightarrow> 16 word cli" where
  "maven_java_release e =
     (case first_of (e_properties e) release_properties of
        None \<Rightarrow> Inr 17
      | Some value \<Rightarrow>
          and_then (ok_or (Context (''Maven property for Java release is '' @ ticked value)
              (SystemCause ''invalid integer'')) (parse_u16 value)) (\<lambda>n. Inr (of_nat n)))"

text \<open>The scope a manifest has for a scope of Maven.\<close>

definition manifest_scope :: "str \<Rightarrow> str option" where
  "manifest_scope s =
     (if s = ''compile'' then Some ''compile''
      else if s = ''runtime'' then Some ''runtime''
      else if s = ''provided'' \<or> s = ''system'' then Some ''provided''
      else if s = ''test'' then Some ''test'' else None)"

definition update_scope ::
    "str \<Rightarrow> ((str, dependency_spec) btree_map \<Rightarrow> (str, dependency_spec) btree_map) \<Rightarrow> dependencies \<Rightarrow>
     dependencies" where
  "update_scope scope f d =
     (if scope = ''compile'' then d\<lparr>dp_compile := f (dp_compile d)\<rparr>
      else if scope = ''runtime'' then d\<lparr>dp_runtime := f (dp_runtime d)\<rparr>
      else if scope = ''provided'' then d\<lparr>dp_provided := f (dp_provided d)\<rparr>
      else d\<lparr>dp_test := f (dp_test d)\<rparr>)"

definition needs_metadata :: "dependency \<Rightarrow> bool" where
  "needs_metadata d \<longleftrightarrow>
     d_type d \<noteq> ''jar'' \<or> d_classifier d \<noteq> None \<or> d_optional d = Some True \<or> d_exclusions d \<noteq> []"

definition exclusion_text :: "exclusion \<Rightarrow> str" where
  "exclusion_text x = x_group x @ '':'' @ x_artifact x"

definition dependency_metadata :: "dependency \<Rightarrow> maven_dependency_metadata" where
  "dependency_metadata d =
     \<lparr>md_dependency_type = d_type d, md_classifier = d_classifier d,
      md_optional = (d_optional d = Some True), md_exclusions = map exclusion_text (d_exclusions d)\<rparr>"

text \<open>The loop over the dependencies; a later one with the same group and artifact wins.\<close>

type_synonym imported = "dependencies \<times> (str, maven_dependency_metadata) btree_map"

definition import_dependency :: "dependency \<Rightarrow> imported \<Rightarrow> imported cli" where
  "import_dependency d = (\<lambda>(deps, metadata).
     and_then (ok_or (Bail (''dependency '' @ dependency_ga d @ '' has no effective version''))
       (d_version d)) (\<lambda>version.
     and_then (ok_or (Bail (''dependency '' @ dependency_ga d @ '' uses unsupported Maven scope '' @
         ticked (d_scope d))) (manifest_scope (d_scope d))) (\<lambda>scope.
     Inr (update_scope scope (bt_insert (dependency_ga d) (VersionSpec version)) deps,
          if needs_metadata d
          then bt_insert (scope @ '':'' @ dependency_ga d) (dependency_metadata d) metadata
          else metadata))))"

fun import_dependencies :: "dependency list \<Rightarrow> imported \<Rightarrow> imported cli" where
  "import_dependencies [] acc = Inr acc"
| "import_dependencies (d # ds) acc = and_then (import_dependency d acc) (import_dependencies ds)"

definition no_dependencies :: dependencies where
  "no_dependencies = \<lparr>dp_compile = [], dp_runtime = [], dp_provided = [], dp_test = []\<rparr>"

definition managed_entry :: "dependency \<Rightarrow> maven_managed_dependency" where
  "managed_entry d =
     \<lparr>mm_group = d_group d, mm_artifact = d_artifact d, mm_version = d_version d,
      mm_scope = d_scope d, mm_dependency_type = d_type d, mm_classifier = d_classifier d,
      mm_optional = d_optional d, mm_exclusions = map exclusion_text (d_exclusions d)\<rparr>"

definition processor_entry :: "annotation_processor \<Rightarrow> (str \<times> str) cli" where
  "processor_entry p =
     and_then (ok_or (Bail (''annotation processor '' @ dependency_ga (ap_dependency p) @
         '' has no effective version'')) (d_version (ap_dependency p))) (\<lambda>version.
     Inr (dependency_ga (ap_dependency p), version))"

definition imported_manifest ::
    "effective_pom \<Rightarrow> bool \<Rightarrow> 16 word \<Rightarrow> imported \<Rightarrow> (str \<times> str) list \<Rightarrow> manifest" where
  "imported_manifest e authoritative release found processors =
     \<lparr>mf_manifest_version = manifest_version,
      mf_project =
        \<lparr>pj_group = c_group (e_coordinate e), pj_name = c_artifact (e_coordinate e),
         pj_version = c_version (e_coordinate e), pj_java_release = release,
         pj_packaging = e_packaging e, pj_modules = e_modules e,
         pj_main_class = (if authoritative then first_of (e_properties e) main_class_properties else None)\<rparr>,
      mf_toolchain = Some \<lparr>tc_jdk = show_nat (unat release), tc_vendor = ''temurin''\<rparr>,
      mf_maven = Some
        \<lparr>mv_parent = map_option (\<lambda>p. c_group p @ '':'' @ c_artifact p @ '':'' @ c_version p) (e_parent e),
         mv_dependencies = snd found,
         mv_dependency_management = map managed_entry (e_management e),
         mv_bom_imports = map coordinate_display (e_bom_imports e)\<rparr>,
      mf_build = Some
        \<lparr>bd_encoding = (case bt_get (e_properties e) ''project.build.sourceEncoding'' of
                          Some v \<Rightarrow> v | None \<Rightarrow> ''UTF-8''),
         bd_compiler_args = e_compiler_args e, bd_generators = []\<rparr>,
      mf_test = None, mf_publishing = None, mf_audit = None, mf_scripts = [],
      mf_repositories = map (\<lambda>r. \<lparr>cr_id = r_id r, cr_url = r_url r\<rparr>)
        (filter r_releases_enabled (e_repositories e)),
      mf_dependencies = fst found, mf_annotation_processors = bt_of_list processors\<rparr>"

definition manifest_from_maven :: "effective_pom \<Rightarrow> bool \<Rightarrow> manifest cli" where
  "manifest_from_maven e authoritative =
     and_then (maven_java_release e) (\<lambda>release.
     and_then (import_dependencies (e_dependencies e) (no_dependencies, [])) (\<lambda>found.
     and_then (traverse processor_entry (e_processors e)) (\<lambda>processors.
     let m = imported_manifest e authoritative release found processors
     in and_then (map_err ConfigCause (manifest_validate m)) (\<lambda>_. Inr m))))"

section \<open>The lockfile of a graph\<close>

definition locked_of :: "resolved_package list \<Rightarrow> resolved_package \<Rightarrow> locked_package" where
  "locked_of packages p =
     \<lparr>lp_group = c_group (g_coordinate p), lp_artifact = c_artifact (g_coordinate p),
      lp_version = c_version (g_coordinate p), lp_extension = c_extension (g_coordinate p),
      lp_classifier = c_classifier (g_coordinate p), lp_source = g_source p,
      lp_pom_checksum = g_pom_checksum p, lp_artifact_checksum = g_checksum p,
      lp_artifact_size = map_option of_nat (g_size p), lp_dependencies = g_dependencies p,
      lp_scopes = g_scopes p,
      lp_selected_parent = map_option (\<lambda>i. coordinate_display (g_coordinate (packages ! i))) (g_parent p)\<rparr>"

definition locked_order :: "locked_package \<Rightarrow> str list" where
  "locked_order p = [lp_group p, lp_artifact p, lp_version p, lp_extension p]"

definition lock_from_graph ::
    "repository_env \<Rightarrow> str \<Rightarrow> str \<Rightarrow> str \<Rightarrow> 16 word \<Rightarrow> locked_workspace_dependency list \<Rightarrow>
     resolved_graph \<Rightarrow> lockfile" where
  "lock_from_graph renv platform_id manifest_text workspace_hash java_release workspace_dependencies g =
     \<lparr>lf_lock_version = lock_version, lf_manifest_hash = sha256 renv manifest_text,
      lf_workspace_hash = workspace_hash, lf_platform = platform_id,
      lf_toolchain = \<lparr>lt_java_release = java_release\<rparr>,
      lf_packages = sort_key locked_order (map (locked_of (rg_packages g)) (rg_packages g)),
      lf_workspace_dependencies = workspace_dependencies,
      lf_classpath = \<lparr>lc_compile = rg_compile g, lc_runtime = rg_runtime g, lc_test = rg_test g,
        lc_processors = rg_processor g\<rparr>\<rparr>"

text \<open>The entry of the artifact cache for a locked package; an unreadable file has no metadata.\<close>

definition locked_artifact_ok :: "repository_env \<Rightarrow> disk \<Rightarrow> path \<Rightarrow> bool \<Rightarrow> locked_package \<Rightarrow> bool" where
  "locked_artifact_ok renv d cache_dir verify p =
     (case (lp_artifact_checksum p, lp_artifact_size p) of
        (None, None) \<Rightarrow> True
      | (Some checksum, Some expected) \<Rightarrow>
          (case strip_prefix ''sha256:'' checksum of
             None \<Rightarrow> False
           | Some digest \<Rightarrow>
               (case read_file d (path_join (path_join cache_dir (path_of ''artifacts''))
                        (path_of (digest @ ''.'' @ lp_extension p))) of
                  Inl _ \<Rightarrow> False
                | Inr bytes \<Rightarrow> of_nat (length bytes) = expected \<and>
                    (verify \<longrightarrow> sha256 renv bytes = checksum)))
      | _ \<Rightarrow> False)"

definition lock_is_current ::
    "repository_env \<Rightarrow> str \<Rightarrow> disk \<Rightarrow> lockfile \<Rightarrow> str \<Rightarrow> str \<Rightarrow> 16 word \<Rightarrow> path \<Rightarrow> bool \<Rightarrow> bool" where
  "lock_is_current renv platform_id d lock manifest_hash workspace_hash java_release cache_dir verify \<longleftrightarrow>
     lf_manifest_hash lock = manifest_hash \<and> lf_workspace_hash lock = workspace_hash \<and>
     lf_platform lock = platform_id \<and> lt_java_release (lf_toolchain lock) = java_release \<and>
     list_all (locked_artifact_ok renv d cache_dir verify) (lf_packages lock)"

definition locked_root_dependencies :: "lockfile \<Rightarrow> str list" where
  "locked_root_dependencies lock =
     map locked_coordinate (filter (\<lambda>p. lp_selected_parent p = None) (lf_packages lock))"

end
