(* ===== verification/Project_Sync.thy ===== *)
theory Project_Sync
  imports Project_Model Build_Tree
begin

text \<open>
  Workspaces and their synchronisation in \<open>crates/jman-cli/src/main.rs\<close>: the modules below a
  root, the hash of their manifests, \<open>jman sync\<close> with its cache of lockfiles, and the commands
  that change dependencies and take their changes back when the synchronisation fails. The
  commands run on the disk of the repository client. \<open>None\<close> means that the resolver ran out of
  fuel or that the walk over the modules does not end. Progress output is left out.
\<close>

section \<open>The environment\<close>

record cli_env =
  ce_codec :: toml_codec
  ce_resolver :: resolver
  ce_fuel :: nat
  ce_platform_id :: str
  ce_current_dir :: "path option"
  ce_client_error :: "str option"
  ce_remove_fault :: "path \<Rightarrow> str option"

type_synonym 'a command = "client_state \<Rightarrow> ('a cli \<times> client_state) option"

definition cmd_of :: "'a cli \<Rightarrow> 'a command" where
  "cmd_of r s = Some (r, s)"

definition cmd_bind :: "'a command \<Rightarrow> ('a \<Rightarrow> 'b command) \<Rightarrow> 'b command" where
  "cmd_bind m f s =
     (case m s of
        None \<Rightarrow> None
      | Some (Inl e, s') \<Rightarrow> Some (Inl e, s')
      | Some (Inr x, s') \<Rightarrow> f x s')"

definition cmd_reads :: "(disk \<Rightarrow> 'a cli) \<Rightarrow> 'a command" where
  "cmd_reads f s = Some (f (cs_disk s), s)"

definition cmd_try :: "'a command \<Rightarrow> 'a cli command" where
  "cmd_try m s = map_option (\<lambda>(r, s'). (Inr r, s')) (m s)"

fun cmd_traverse :: "('a \<Rightarrow> 'b command) \<Rightarrow> 'a list \<Rightarrow> 'b list command" where
  "cmd_traverse f [] = cmd_of (Inr [])"
| "cmd_traverse f (x # xs) =
     cmd_bind (f x) (\<lambda>y. cmd_bind (cmd_traverse f xs) (\<lambda>ys. cmd_of (Inr (y # ys))))"

abbreviation renv :: "cli_env \<Rightarrow> repository_env" where
  "renv env \<equiv> rv_env (ce_resolver env)"

definition canonical_path :: "cli_env \<Rightarrow> disk \<Rightarrow> str \<Rightarrow> path \<Rightarrow> path cli" where
  "canonical_path env d m p =
     with_context m (map_err SystemCause (rv_canonicalize (ce_resolver env) d p))"

definition manifest_name :: path where
  "manifest_name = path_of ''jman.toml''"

definition lock_file_name :: path where
  "lock_file_name = path_of ''jman.lock''"

definition manifest_at :: "cli_env \<Rightarrow> disk \<Rightarrow> path \<Rightarrow> manifest configured" where
  "manifest_at env d directory = manifest_read (ce_codec env) d (path_join directory manifest_name)"

definition cli_manifest :: "cli_env \<Rightarrow> disk \<Rightarrow> str \<Rightarrow> path \<Rightarrow> manifest cli" where
  "cli_manifest env d m directory = with_context m (map_err ConfigCause (manifest_at env d directory))"

definition could_not_read :: "path \<Rightarrow> str" where
  "could_not_read p = ''could not read '' @ show_path p"

definition absolute_path :: "cli_env \<Rightarrow> path \<Rightarrow> path cli" where
  "absolute_path env p =
     (if is_absolute p then Inr p
      else and_then (ok_or (Context ''could not determine current directory''
             (SystemCause ''not found'')) (ce_current_dir env)) (\<lambda>d. Inr (path_join d p)))"

section \<open>Modules\<close>

text \<open>The outermost ancestor that declares modules; manifests that cannot be read are passed over.\<close>

definition find_workspace_root :: "cli_env \<Rightarrow> disk \<Rightarrow> path \<Rightarrow> path" where
  "find_workspace_root env d target =
     fold (\<lambda>ancestor root. case manifest_at env d ancestor of
         Inl _ \<Rightarrow> root
       | Inr m \<Rightarrow> if pj_modules (mf_project m) = [] then root else ancestor)
       (path_ancestors target) target"

definition workspace_children :: "cli_env \<Rightarrow> disk \<Rightarrow> path \<Rightarrow> path \<Rightarrow> str list \<Rightarrow> path list cli" where
  "workspace_children env d root directory modules =
     traverse (\<lambda>m.
       and_then (canonical_path env d (''could not resolve module '' @ ticked m)
         (path_join directory (path_of m))) (\<lambda>p.
       and_then (ensure (path_starts_with p root)
         (Bail (''module '' @ show_path p @ '' escapes workspace '' @ show_path root)))
         (\<lambda>_. Inr p))) (rev modules)"

partial_function (option) directories_loop ::
    "cli_env \<Rightarrow> disk \<Rightarrow> path \<Rightarrow> path list \<Rightarrow> path list \<Rightarrow> path list \<Rightarrow> path list cli option" where
  "directories_loop env d root pending seen directories =
     (if pending = [] then Some (Inr directories)
      else if last pending \<in> set seen
           then Some (Inl (Bail (''duplicate or cyclic JMAN module '' @ show_path (last pending))))
           else (case cli_manifest env d (''could not read module '' @ show_path (last pending)) (last pending) of
                   Inl e \<Rightarrow> Some (Inl e)
                 | Inr m \<Rightarrow>
                     (case workspace_children env d root (last pending) (pj_modules (mf_project m)) of
                        Inl e \<Rightarrow> Some (Inl e)
                      | Inr below_it \<Rightarrow>
                          directories_loop env d root (butlast pending @ below_it)
                            (bs_insert (last pending) seen) (directories @ [last pending]))))"

declare directories_loop.simps [code]

definition workspace_directories :: "cli_env \<Rightarrow> disk \<Rightarrow> path \<Rightarrow> path list cli option" where
  "workspace_directories env d root =
     (case canonical_path env d (''could not canonicalize '' @ show_path root) root of
        Inl e \<Rightarrow> Some (Inl e)
      | Inr root' \<Rightarrow> directories_loop env d root' [root'] [] [])"

definition cmd_directories :: "cli_env \<Rightarrow> path \<Rightarrow> path list command" where
  "cmd_directories env root s = map_option (\<lambda>r. (r, s)) (workspace_directories env (cs_disk s) root)"

definition project_at :: "cli_env \<Rightarrow> disk \<Rightarrow> path \<Rightarrow> maven_project cli" where
  "project_at env d directory =
     and_then (cli_manifest env d (could_not_read (path_join directory manifest_name)) directory) (\<lambda>m.
     and_then (effective_from_manifest m) (\<lambda>e.
     Inr \<lparr>mp_source = path_join directory manifest_name, mp_effective = e\<rparr>))"

definition manifest_projects :: "cli_env \<Rightarrow> path \<Rightarrow> maven_project list command" where
  "manifest_projects env root =
     cmd_bind (cmd_directories env root) (\<lambda>directories.
     cmd_reads (\<lambda>d. traverse (project_at env d) directories))"

text \<open>The hash of all manifests, by their paths below the root.\<close>

definition manifest_input :: "path \<Rightarrow> disk \<Rightarrow> path \<Rightarrow> (path \<times> str) cli" where
  "manifest_input root d directory =
     (let p = path_join directory manifest_name
      in case read_file d p of
           Inl e \<Rightarrow> Inl (Context (could_not_read p) (SystemCause (read_error_text e)))
         | Inr bytes \<Rightarrow> Inr ((case path_strip_prefix root p of Some r \<Rightarrow> r | None \<Rightarrow> p), bytes))"

definition manifest_hash_input :: "(path \<times> str) list \<Rightarrow> str" where
  "manifest_hash_input inputs =
     concat (map (\<lambda>(p, bytes). utf8_lossy (show_path p) @ [CHR 0x00] @ bytes @ [CHR 0x00])
       (sort_key fst inputs))"

definition hash_workspace_manifests :: "cli_env \<Rightarrow> path \<Rightarrow> str command" where
  "hash_workspace_manifests env root =
     cmd_bind (cmd_reads (\<lambda>d. canonical_path env d (''could not canonicalize '' @ show_path root) root)) (\<lambda>root'.
     cmd_bind (cmd_directories env root') (\<lambda>directories.
     cmd_bind (cmd_reads (\<lambda>d. traverse (manifest_input root' d) directories)) (\<lambda>inputs.
     cmd_of (Inr (sha256 (renv env) (manifest_hash_input inputs))))))"

section \<open>Dependencies between modules\<close>

definition relative_components :: "path \<Rightarrow> path \<Rightarrow> path" where
  "relative_components origin target =
     (let shared = length (takeWhile (\<lambda>(x, y). x = y) (zip origin target));
          relative = replicate (length origin - shared) ParentDir @ drop shared target
      in if relative = [] then [CurDir] else relative)"

definition relative_workspace_path :: "cli_env \<Rightarrow> disk \<Rightarrow> path \<Rightarrow> path \<Rightarrow> str cli" where
  "relative_workspace_path env d origin target =
     and_then (canonical_path env d (''could not resolve workspace module '' @ show_path origin) origin) (\<lambda>x.
     and_then (canonical_path env d (''could not resolve workspace module '' @ show_path target) target) (\<lambda>y.
     if takeWhile (\<lambda>(u, v). u = v) (zip x y) = []
     then Inl (Bail (''workspace modules '' @ show_path x @ '' and '' @ show_path y @
            '' do not share a filesystem root''))
     else Inr (replace_all [CHR 0x5C] ''/'' (utf8_lossy (show_path (relative_components x y))))))"

definition locked_edge ::
    "cli_env \<Rightarrow> disk \<Rightarrow> path \<Rightarrow> path \<Rightarrow> manifest \<Rightarrow> maven_project list \<Rightarrow> str \<Rightarrow> str \<Rightarrow> str \<Rightarrow>
     (path \<times> locked_workspace_dependency) cli" where
  "locked_edge env d directory canonical_directory m projects scope coord relative =
     and_then (canonical_path env d (''could not resolve workspace dependency '' @ ticked coord @
         '' from '' @ show_path directory) (path_join directory (path_of relative))) (\<lambda>target.
     and_then (ok_or (Bail (''workspace dependency '' @ ticked coord @ '' at '' @ show_path target @
         '' is not a declared module''))
       (List.find (\<lambda>p. path_parent (mp_source p) = Some target) projects)) (\<lambda>project.
     if target = canonical_directory
     then Inl (Bail (''module '' @ ticked (pj_name (mf_project m)) @ '' cannot depend on itself''))
     else let actual = coordinate_ga (e_coordinate (mp_effective project))
       in if coord \<noteq> actual
          then Inl (Bail (''workspace dependency '' @ ticked coord @ '' points to '' @ ticked actual @
                 '' at '' @ show_path target))
          else Inr (target,
                 \<lparr>lw_coordinate = coord, lw_scope = scope, lw_path = [],
                  lw_version = c_version (e_coordinate (mp_effective project))\<rparr>)))"

fun locked_edges ::
    "cli_env \<Rightarrow> disk \<Rightarrow> path \<Rightarrow> path \<Rightarrow> manifest \<Rightarrow> maven_project list \<Rightarrow>
     (str \<times> str \<times> dependency_spec) list \<Rightarrow> (path, str) btree_map \<Rightarrow>
     locked_workspace_dependency list \<Rightarrow> locked_workspace_dependency list cli" where
  "locked_edges env d directory canonical_directory m projects [] targets locked = Inr locked"
| "locked_edges env d directory canonical_directory m projects ((scope, coord, spec) # rest) targets locked =
     (case dependency_spec_path spec of
        None \<Rightarrow> locked_edges env d directory canonical_directory m projects rest targets locked
      | Some relative \<Rightarrow>
          and_then (locked_edge env d directory canonical_directory m projects scope coord relative)
            (\<lambda>(target, edge).
          case bt_get targets target of
            Some previous \<Rightarrow>
              Inl (Bail (''workspace dependency '' @ ticked coord @ '' is declared in both '' @ previous @
                '' and '' @ scope @ '' scopes''))
          | None \<Rightarrow>
              and_then (relative_workspace_path env d directory target) (\<lambda>p.
              locked_edges env d directory canonical_directory m projects rest
                (bt_insert target scope targets) (locked @ [edge\<lparr>lw_path := p\<rparr>]))))"

definition edge_order :: "locked_workspace_dependency \<Rightarrow> str list" where
  "edge_order w = [lw_scope w, lw_coordinate w, lw_path w]"

definition workspace_dependencies_from_manifest ::
    "cli_env \<Rightarrow> disk \<Rightarrow> path \<Rightarrow> manifest \<Rightarrow> maven_project list \<Rightarrow> locked_workspace_dependency list cli" where
  "workspace_dependencies_from_manifest env d directory m projects =
     and_then (canonical_path env d (''could not resolve module '' @ show_path directory) directory)
       (\<lambda>canonical_directory.
     and_then (locked_edges env d directory canonical_directory m projects
         (scoped_specs (mf_dependencies m)) [] []) (\<lambda>locked.
     Inr (sort_key edge_order locked)))"

section \<open>Writing\<close>

text \<open>\<open>write_atomically\<close>: what a failed write or rename leaves behind stays.\<close>

definition write_atomically :: "cli_env \<Rightarrow> path \<Rightarrow> str \<Rightarrow> unit command" where
  "write_atomically env p contents s =
     (let temporary = with_extension p (''tmp-'' @ show_nat (process_id (renv env)))
      in Some (case write_fault (faults (renv env)) temporary of
           Some (e, left) \<Rightarrow>
             (Inl (Context (''could not write '' @ show_path temporary) (SystemCause e)),
              s\<lparr>cs_disk := failed_write (cs_disk s) temporary left\<rparr>)
         | None \<Rightarrow>
             (let s = s\<lparr>cs_disk := (cs_disk s)(temporary \<mapsto> Bytes contents)\<rparr>
              in case rename_fault (faults (renv env)) p of
                   Some e \<Rightarrow> (Inl (Context (''could not install '' @ show_path p) (SystemCause e)), s)
                 | None \<Rightarrow> (Inr (), s\<lparr>cs_disk := (cs_disk s)(temporary := None, p \<mapsto> Bytes contents)\<rparr>))))"

section \<open>Synchronisation\<close>

text \<open>A new client forgets what the last one kept in memory.\<close>

definition new_client_for :: "cli_env \<Rightarrow> str \<Rightarrow> str list \<Rightarrow> bool \<Rightarrow> resolver command" where
  "new_client_for env what repositories offline s =
     Some (case ce_client_error env of
         Some e \<Rightarrow> (Inl (Context what (SystemCause e)), s)
       | None \<Rightarrow>
           (Inr ((ce_resolver env)\<lparr>rv_config := new_config (rc_cache_dir (rv_config (ce_resolver env)))
                  repositories offline\<rparr>),
            s\<lparr>cs_memory := Map.empty\<rparr>))"

definition new_client :: "cli_env \<Rightarrow> str list \<Rightarrow> bool \<Rightarrow> resolver command" where
  "new_client env = new_client_for env ''could not initialize Maven repositories''"

definition cmd_resolve ::
    "cli_env \<Rightarrow> resolver \<Rightarrow> effective_pom \<Rightarrow> maven_project list \<Rightarrow> str \<Rightarrow> resolved_graph command" where
  "cmd_resolve env rv effective projects m s =
     map_option (\<lambda>(r, s'). (with_context m (map_err ResolverCause r), snd s'))
       (resolve_in_workspace (ce_fuel env) rv effective projects (Map.empty, s))"

definition stored_lock :: "cli_env \<Rightarrow> disk \<Rightarrow> path \<Rightarrow> lockfile option" where
  "stored_lock env d target =
     (case lockfile_read (ce_codec env) d (path_join target lock_file_name) of
        Inr l \<Rightarrow> Some l | Inl _ \<Rightarrow> None)"

text \<open>The resolution of one module and its lockfile.\<close>

definition resolve_lock ::
    "cli_env \<Rightarrow> path \<Rightarrow> path \<Rightarrow> resolver \<Rightarrow> manifest \<Rightarrow> str \<Rightarrow> str \<Rightarrow> lockfile command" where
  "resolve_lock env workspace_root target rv m manifest_text workspace_hash =
     cmd_bind (manifest_projects env workspace_root) (\<lambda>projects.
     cmd_bind (cmd_reads (\<lambda>d. canonical_path env d (''could not canonicalize '' @ show_path target) target))
       (\<lambda>canonical_target.
     cmd_bind (cmd_of (ok_or (Bail (show_path target @
         '' is not a module in the JMAN workspace rooted at '' @ show_path workspace_root))
       (List.find (\<lambda>p. path_parent (mp_source p) = Some canonical_target) projects))) (\<lambda>project.
     cmd_bind (cmd_resolve env rv (mp_effective project) projects ''dependency resolution failed'') (\<lambda>g.
     cmd_bind (cmd_reads (\<lambda>d. workspace_dependencies_from_manifest env d canonical_target m projects)) (\<lambda>edges.
     cmd_of (Inr (lock_from_graph (renv env) (ce_platform_id env) manifest_text workspace_hash
         (pj_java_release (mf_project m)) edges g)))))))"

definition sync_one :: "cli_env \<Rightarrow> path \<Rightarrow> bool \<Rightarrow> bool \<Rightarrow> (manifest \<times> lockfile \<times> bool) command" where
  "sync_one env target refresh offline =
     cmd_bind (cmd_reads (\<lambda>d. Inr (find_workspace_root env d target))) (\<lambda>workspace_root.
     cmd_bind (cmd_reads (\<lambda>d. cli_manifest env d (could_not_read (path_join target manifest_name)) target)) (\<lambda>m.
     cmd_bind (cmd_of (with_context ''could not serialize jman.toml''
         (map_err ConfigCause (manifest_to_toml (ce_codec env) m)))) (\<lambda>manifest_text.
     cmd_bind (hash_workspace_manifests env workspace_root) (\<lambda>workspace_hash.
     cmd_bind (new_client env (map cr_url (mf_repositories m)) offline) (\<lambda>rv.
     cmd_bind (cmd_reads (\<lambda>d. Inr (if refresh then None else
         (case stored_lock env d target of
            None \<Rightarrow> None
          | Some l \<Rightarrow>
              if lock_is_current (renv env) (ce_platform_id env) d l (sha256 (renv env) manifest_text)
                   workspace_hash (pj_java_release (mf_project m)) (rc_cache_dir (rv_config rv)) offline
              then Some l else None)))) (\<lambda>current.
     case current of
       Some l \<Rightarrow> cmd_of (Inr (m, l, True))
     | None \<Rightarrow>
         cmd_bind (resolve_lock env workspace_root target rv m manifest_text workspace_hash) (\<lambda>l.
         cmd_bind (cmd_of (with_context ''could not generate jman.lock''
             (map_err ConfigCause (lockfile_to_toml (ce_codec env) l)))) (\<lambda>lock_text.
         cmd_bind (write_atomically env (path_join target lock_file_name) lock_text) (\<lambda>_.
         cmd_of (Inr (m, l, False)))))))))))"

definition sync_project :: "cli_env \<Rightarrow> path \<Rightarrow> bool \<Rightarrow> bool \<Rightarrow> (path \<times> manifest \<times> lockfile \<times> bool) list command" where
  "sync_project env p refresh offline =
     cmd_bind (cmd_of (absolute_path env p)) (\<lambda>target.
     cmd_bind (cmd_reads (\<lambda>d. ok_or (Bail (''cannot synchronize '' @ show_path target @
         '': jman.toml was not found'')) (if is_file d (path_join target manifest_name) then Some () else None))) (\<lambda>_.
     cmd_bind (cmd_reads (\<lambda>d. Inr (find_workspace_root env d target))) (\<lambda>workspace_root.
     cmd_bind (if target \<noteq> workspace_root then cmd_of (Inr [])
               else cmd_bind (cmd_reads (\<lambda>d.
                   cli_manifest env d (could_not_read (path_join target manifest_name)) target)) (\<lambda>m.
                 cmd_of (Inr (pj_modules (mf_project m))))) (\<lambda>modules.
     cmd_bind (if modules = [] then cmd_of (Inr [target]) else cmd_directories env workspace_root) (\<lambda>directories.
     cmd_traverse (\<lambda>directory. cmd_bind (sync_one env directory refresh offline)
       (\<lambda>r. cmd_of (Inr (directory, r)))) directories)))))"

end
