(* ===== verification/Project_Facts.thy ===== *)
theory Project_Facts
  imports Project_Sync Graph_Results
begin

text \<open>
  Properties of imported manifests and of synchronised workspaces.
\<close>

section \<open>Importing and reading back\<close>

text \<open>What a manifest keeps of a dependency.\<close>

definition normal_dependency :: "dependency \<Rightarrow> dependency" where
  "normal_dependency d =
     (let scope = the (manifest_scope (d_scope d))
      in d\<lparr>d_scope := scope, d_scope_explicit := (scope \<noteq> ''compile''),
           d_type_explicit := (d_type d \<noteq> ''jar''),
           d_optional := (if d_optional d = Some True then Some True else None)\<rparr>)"

definition normal_managed :: "dependency \<Rightarrow> dependency" where
  "normal_managed d =
     d\<lparr>d_scope_explicit := (d_scope d \<noteq> ''compile''), d_type_explicit := (d_type d \<noteq> ''jar'')\<rparr>"

definition import_key :: "dependency \<Rightarrow> str \<times> str" where
  "import_key d = (the (manifest_scope (d_scope d)), dependency_ga d)"

lemma mset_bt_insert: "k \<notin> set (bt_keys m) \<Longrightarrow> mset (bt_insert k v m) = add_mset (k, v) (mset m)"
  by (induction k v m rule: bt_insert.induct) (auto simp: bt_keys_def)

lemma set_bt_insert_new: "k \<notin> set (bt_keys m) \<Longrightarrow> set (bt_insert k v m) = insert (k, v) (set m)"
  using mset_bt_insert [of k m v] by (metis set_mset_add_mset_insert set_mset_mset)

definition scope_table :: "str \<Rightarrow> dependencies \<Rightarrow> (str, dependency_spec) btree_map" where
  "scope_table scope d = the (map_of (manifest_scopes d) scope)"

lemma manifest_scope_cases:
  "manifest_scope s = Some scope \<Longrightarrow> scope \<in> {''compile'', ''runtime'', ''provided'', ''test''}"
  by (auto simp: manifest_scope_def split: if_splits)

lemma scoped_specs_eq:
  "scoped_specs d = map (Pair ''compile'') (dp_compile d) @ map (Pair ''runtime'') (dp_runtime d) @
     map (Pair ''provided'') (dp_provided d) @ map (Pair ''test'') (dp_test d)"
  by (simp add: scoped_specs_def manifest_scopes_def)

lemma update_scope_simps:
  "update_scope ''compile'' f d = d\<lparr>dp_compile := f (dp_compile d)\<rparr>"
  "update_scope ''runtime'' f d = d\<lparr>dp_runtime := f (dp_runtime d)\<rparr>"
  "update_scope ''provided'' f d = d\<lparr>dp_provided := f (dp_provided d)\<rparr>"
  "update_scope ''test'' f d = d\<lparr>dp_test := f (dp_test d)\<rparr>"
  by (simp_all add: update_scope_def)

lemma scope_table_simps:
  "scope_table ''compile'' d = dp_compile d" "scope_table ''runtime'' d = dp_runtime d"
  "scope_table ''provided'' d = dp_provided d" "scope_table ''test'' d = dp_test d"
  by (simp_all add: scope_table_def manifest_scopes_def)

lemma mset_update_scope:
  assumes "scope \<in> {''compile'', ''runtime'', ''provided'', ''test''}"
    and "ga \<notin> set (bt_keys (scope_table scope deps))"
  shows "mset (scoped_specs (update_scope scope (bt_insert ga spec) deps)) =
    add_mset (scope, ga, spec) (mset (scoped_specs deps))"
  using assms
  by (elim insertE emptyE)
     (simp_all add: scoped_specs_eq update_scope_simps scope_table_simps mset_bt_insert)

lemma scope_keys:
  assumes "scope \<in> {''compile'', ''runtime'', ''provided'', ''test''}"
  shows "ga \<in> set (bt_keys (scope_table scope deps)) \<longleftrightarrow> (\<exists>spec. (scope, ga, spec) \<in> set (scoped_specs deps))"
  using assms
  by (elim insertE emptyE)
     (simp_all add: scoped_specs_eq scope_table_simps bt_keys_def image_iff Bex_def)

definition spec_entry :: "dependency \<Rightarrow> str \<times> str \<times> dependency_spec" where
  "spec_entry d = (fst (import_key d), dependency_ga d, VersionSpec (the (d_version d)))"

definition metadata_key :: "dependency \<Rightarrow> str" where
  "metadata_key d = fst (import_key d) @ '':'' @ dependency_ga d"

definition importable :: "dependency \<Rightarrow> bool" where
  "importable d \<longleftrightarrow> d_version d \<noteq> None \<and> manifest_scope (d_scope d) \<noteq> None"

text \<open>What the loop over the dependencies has collected.\<close>

definition collected :: "dependency list \<Rightarrow> imported \<Rightarrow> bool" where
  "collected ds acc \<longleftrightarrow>
     list_all importable ds \<and>
     mset (scoped_specs (fst acc)) = mset (map spec_entry ds) \<and>
     (\<forall>d \<in> set ds. bt_get (snd acc) (metadata_key d) =
        (if needs_metadata d then Some (dependency_metadata d) else None)) \<and>
     (\<forall>k. bt_get (snd acc) k \<noteq> None \<longrightarrow> k \<in> metadata_key ` set ds)"

lemma importable_scope:
  "importable d \<Longrightarrow> fst (import_key d) \<in> {''compile'', ''runtime'', ''provided'', ''test''}"
  by (auto simp: importable_def import_key_def dest: manifest_scope_cases)

lemma scope_plain: "s \<in> {''compile'', ''runtime'', ''provided'', ''test''} \<Longrightarrow> CHR '':'' \<notin> set s"
  by auto

lemma metadata_key_inj:
  assumes "importable d" "importable d'"
  shows "metadata_key d = metadata_key d' \<longleftrightarrow> import_key d = import_key d'"
  using append_sep_inject [OF scope_plain scope_plain, OF importable_scope importable_scope, OF assms,
      of "dependency_ga d" "dependency_ga d'"]
  by (auto simp: metadata_key_def import_key_def)

lemma import_dependency_parts:
  assumes "import_dependency d acc = Inr acc'"
  shows "importable d \<and>
    acc' = (update_scope (fst (import_key d)) (bt_insert (dependency_ga d) (VersionSpec (the (d_version d))))
              (fst acc),
            if needs_metadata d then bt_insert (metadata_key d) (dependency_metadata d) (snd acc) else snd acc)"
  using assms
  by (cases acc) (auto simp: import_dependency_def and_then_Inr_iff importable_def import_key_def metadata_key_def)

lemma collected_step:
  assumes acc: "collected ds acc" and step: "import_dependency d acc = Inr acc'"
    and new: "import_key d \<notin> import_key ` set ds"
  shows "collected (ds @ [d]) acc'"
proof -
  note parts = import_dependency_parts [OF step]
  then have d: "importable d" by simp
  have old: "importable d'" if "d' \<in> set ds" for d'
    using acc that by (simp add: collected_def list_all_iff)
  have entries: "set (scoped_specs (fst acc)) = spec_entry ` set ds"
    using acc by (metis collected_def set_mset_mset list.set_map)
  have fresh: "dependency_ga d \<notin> set (bt_keys (scope_table (fst (import_key d)) (fst acc)))"
  proof
    assume "dependency_ga d \<in> set (bt_keys (scope_table (fst (import_key d)) (fst acc)))"
    then obtain d' where "d' \<in> set ds" "fst (import_key d') = fst (import_key d)"
      "dependency_ga d' = dependency_ga d"
      unfolding scope_keys [OF importable_scope [OF d]] entries by (auto simp: spec_entry_def)
    then have "import_key d = import_key d'" by (simp add: import_key_def)
    with new \<open>d' \<in> set ds\<close> show False by blast
  qed
  have unseen: "metadata_key d \<notin> metadata_key ` set ds"
    using new metadata_key_inj [OF d old] by blast
  then have none: "bt_get (snd acc) (metadata_key d) = None"
    using acc unfolding collected_def by blast
  show ?thesis unfolding collected_def
  proof (intro conjI)
    show "list_all importable (ds @ [d])" using acc d by (simp add: collected_def)
    show "mset (scoped_specs (fst acc')) = mset (map spec_entry (ds @ [d]))"
      using parts mset_update_scope [OF importable_scope [OF d] fresh] acc
      by (simp add: collected_def spec_entry_def)
    show "\<forall>d' \<in> set (ds @ [d]). bt_get (snd acc') (metadata_key d') =
        (if needs_metadata d' then Some (dependency_metadata d') else None)"
      using parts acc unseen none unfolding collected_def by (auto simp: image_iff)
    show "\<forall>k. bt_get (snd acc') k \<noteq> None \<longrightarrow> k \<in> metadata_key ` set (ds @ [d])"
      using parts acc unfolding collected_def by (auto split: if_splits)
  qed
qed

lemma import_dependencies_collected:
  assumes "import_dependencies ds acc = Inr acc'" "collected done_ds acc"
    and "distinct (map import_key (done_ds @ ds))"
  shows "collected (done_ds @ ds) acc'"
  using assms
proof (induction ds acc arbitrary: done_ds rule: import_dependencies.induct)
  case (2 d ds acc)
  then obtain acc1 where step: "import_dependency d acc = Inr acc1" and rest: "import_dependencies ds acc1 = Inr acc'"
    by (auto simp: and_then_Inr_iff)
  have "import_key d \<notin> import_key ` set done_ds" using "2.prems"(3) by auto
  from collected_step [OF "2.prems"(2) step this] show ?case
    using "2.IH" [OF rest, of "done_ds @ [d]"] "2.prems"(3) by simp
qed simp

lemma collected_start: "collected [] (no_dependencies, [])"
  by (simp add: collected_def no_dependencies_def scoped_specs_eq)

text \<open>A validated coordinate splits into its parts.\<close>

lemma split_valid_ga:
  assumes "is_ok (validate_ga (g @ '':'' @ a))"
  shows "split_ga (g @ '':'' @ a) = Inr (g, a)"
proof -
  obtain x y where split: "split_char (CHR '':'') (g @ '':'' @ a) = [x, y]" and ne: "x \<noteq> []" "y \<noteq> []"
    using assms by (auto simp: validate_ga_def split: list.splits)
  have "CHR '':'' \<notin> set w" if "w \<in> set (split_char (CHR '':'') (g @ '':'' @ a))" for w
    using split_by_no_sep [OF that] by blast
  then have plain: "CHR '':'' \<notin> set x" "CHR '':'' \<notin> set y" by (simp_all only: split) simp_all
  have eq: "g @ CHR '':'' # a = x @ CHR '':'' # y"
    using join_split_char [of "CHR '':''" "g @ '':'' @ a"] split by simp
  have "CHR '':'' \<notin> set g"
  proof
    assume "CHR '':'' \<in> set g"
    then obtain u v where g: "g = u @ CHR '':'' # v" and u: "CHR '':'' \<notin> set u" by (meson split_list_first)
    then have "u @ CHR '':'' # v @ CHR '':'' # a = x @ CHR '':'' # y" using eq by simp
    then have "y = v @ CHR '':'' # a" using append_sep_inject [OF u plain(1)] by blast
    with plain(2) show False by simp
  qed
  then have "g = x" "a = y" using append_sep_inject [OF _ plain(1)] eq by blast+
  then show ?thesis using ne plain split_once_Some [of "CHR '':''" "g @ CHR '':'' # a" g a]
    by (simp add: split_ga_def)
qed

lemmas split_valid_parts = split_valid_ga [simplified]

lemma parse_exclusion_texts:
  assumes "\<forall>x \<in> set xs. is_ok (validate_ga (exclusion_text x))"
  shows "manifest_exclusions (map exclusion_text xs) = Inr xs"
  using assms
  by (induction xs) (auto simp: manifest_exclusions_def exclusion_text_def split_valid_parts)

text \<open>What the validation of an imported manifest says about its parts.\<close>

lemma validated_parts:
  assumes "manifest_validate (imported_manifest e auth release found processors) = Inr ()"
  shows "\<forall>x \<in> set (all_dependencies (fst found)). is_ok (validate_ga (fst x))"
    and "\<forall>k \<in> set (bt_keys (bt_of_list processors)). is_ok (validate_ga k)"
    and "\<forall>x \<in> set (snd found). is_ok (check_maven_entry x)"
    and "\<forall>d \<in> set (e_management e). is_ok (validate_ga (d_group d @ '':'' @ d_artifact d)) \<and>
      (\<forall>x \<in> set (d_exclusions d). is_ok (validate_ga (exclusion_text x)))"
  using assms
  by (auto simp: unit_ok manifest_validate_def imported_manifest_def check_maven_def managed_entry_def
      bt_keys_def)

lemma import_key_listed:
  assumes "collected ds found" "d \<in> set ds"
  shows "spec_entry d \<in> set (scoped_specs (fst found))"
  using assms unfolding collected_def by (metis image_eqI list.set_map set_mset_mset)

lemma scoped_specs_all: "(scope, x) \<in> set (scoped_specs deps) \<Longrightarrow> x \<in> set (all_dependencies deps)"
  by (auto simp: scoped_specs_eq all_dependencies_def)

lemma read_back_dependency:
  assumes valid: "manifest_validate m = Inr ()" and m: "m = imported_manifest e auth release found processors"
    and found: "collected ds found" and d: "d \<in> set ds"
  shows "declared_dependency m (spec_entry d) = Inr (Some (normal_dependency d))"
proof -
  note parts = validated_parts [OF valid [unfolded m]]
  have "importable d" using found d by (simp add: collected_def list_all_iff)
  then obtain v scope where v: "d_version d = Some v" and scope: "manifest_scope (d_scope d) = Some scope"
    by (auto simp: importable_def)
  have "is_ok (validate_ga (dependency_ga d))"
    using parts(1) scoped_specs_all [of "fst (import_key d)"] import_key_listed [OF found d]
    unfolding spec_entry_def by fastforce
  then have ga: "split_ga (dependency_ga d) = Inr (d_group d, d_artifact d)"
    by (simp add: dependency_ga_def ga_of_def split_valid_parts)
  have meta: "metadata_of m scope (dependency_ga d) =
      (if needs_metadata d then Some (dependency_metadata d) else None)"
  proof -
    have "bt_get (snd found) (metadata_key d) =
        (if needs_metadata d then Some (dependency_metadata d) else None)"
      using found d by (simp add: collected_def)
    then show ?thesis
      by (simp add: metadata_of_def m imported_manifest_def metadata_key_def import_key_def scope)
  qed
  have exclusions: "manifest_exclusions (map exclusion_text (d_exclusions d)) = Inr (d_exclusions d)"
    if "needs_metadata d"
  proof -
    have "bt_get (snd found) (metadata_key d) = Some (dependency_metadata d)"
      using found d that by (simp add: collected_def)
    then have "is_ok (check_maven_entry (metadata_key d, dependency_metadata d))"
      using parts(3) bt_get_in_set by fastforce
    then have "\<forall>x \<in> set (d_exclusions d). is_ok (validate_ga (exclusion_text x))"
      by (auto simp: check_maven_entry_def dependency_metadata_def split: option.splits)
    then show ?thesis by (rule parse_exclusion_texts)
  qed
  show ?thesis
  proof (cases "needs_metadata d")
    case True
    then show ?thesis
      using exclusions v scope meta ga
      by (simp add: declared_dependency_def spec_entry_def import_key_def dependency_spec_version_def
          normal_dependency_def dependency_metadata_def Let_def)
  next
    case False
    then show ?thesis
      using v scope meta ga
      by (simp add: declared_dependency_def spec_entry_def import_key_def dependency_spec_version_def
          normal_dependency_def needs_metadata_def Let_def)
  qed
qed

lemma mset_map_filter_id: "mset (List.map_filter id xs) = image_mset the (filter_mset (\<lambda>x. x \<noteq> None) (mset xs))"
  by (induction xs) (auto simp: List.map_filter_def)

lemma read_back_dependencies:
  assumes valid: "manifest_validate m = Inr ()" and m: "m = imported_manifest e auth release found processors"
    and found: "collected ds found"
  shows "\<exists>rs. traverse (declared_dependency m) (scoped_specs (fst found)) = Inr rs \<and>
    mset (List.map_filter id rs) = mset (map normal_dependency ds)"
proof -
  let ?f = "declared_dependency m"
  have ms: "mset (scoped_specs (fst found)) = mset (map spec_entry ds)"
    using found by (simp add: collected_def)
  then have all: "set (scoped_specs (fst found)) = spec_entry ` set ds"
    using mset_eq_setD by fastforce
  have one: "?f (spec_entry d) = Inr (Some (normal_dependency d))" if "d \<in> set ds" for d
    using read_back_dependency [OF valid m found that] .
  have "traverse ?f (scoped_specs (fst found)) = Inr (map (\<lambda>x. projr (?f x)) (scoped_specs (fst found)))"
    using one by (intro traverse_pure) (auto simp: all)
  moreover have "mset (map (\<lambda>x. projr (?f x)) (scoped_specs (fst found))) =
      mset (map (\<lambda>d. Some (normal_dependency d)) ds)"
  proof -
    have "mset (map (\<lambda>x. projr (?f x)) (scoped_specs (fst found))) =
        image_mset (\<lambda>d. projr (?f (spec_entry d))) (mset ds)"
      using ms by (simp add: image_mset.compositionality comp_def)
    also have "\<dots> = image_mset (\<lambda>d. Some (normal_dependency d)) (mset ds)"
      by (rule image_mset_cong) (simp add: one)
    finally show ?thesis by simp
  qed
  then have "mset (List.map_filter id (map (\<lambda>x. projr (?f x)) (scoped_specs (fst found)))) =
      mset (map normal_dependency ds)"
    unfolding mset_map_filter_id by (simp add: filter_mset_image_mset image_mset.compositionality comp_def)
  ultimately show ?thesis by blast
qed

lemma read_back_managed:
  assumes "\<forall>x \<in> set (d_exclusions d). is_ok (validate_ga (exclusion_text x))"
  shows "managed_of (managed_entry d) = Inr (normal_managed d)"
  using parse_exclusion_texts [OF assms] by (simp add: managed_of_def managed_entry_def normal_managed_def)

lemma ga_split: "is_ok (validate_ga ga) \<Longrightarrow> \<exists>g a. split_ga ga = Inr (g, a)"
proof -
  assume ok: "is_ok (validate_ga ga)"
  then obtain x y where "split_char (CHR '':'') ga = [x, y]"
    by (auto simp: validate_ga_def split: list.splits)
  then have "ga = x @ '':'' @ y" using join_split_char [of "CHR '':''" ga] by simp
  then show ?thesis using ok split_valid_ga by blast
qed

lemma read_back_processors:
  assumes "\<forall>k \<in> set (bt_keys ps). is_ok (validate_ga k)"
  shows "\<exists>rs. traverse processor_of ps = Inr rs"
proof -
  have "\<exists>r. processor_of x = Inr r" if "x \<in> set ps" for x
    using assms that ga_split [of "fst x"] by (cases x) (fastforce simp: processor_of_def bt_keys_def)
  then have "traverse processor_of ps = Inr (map (\<lambda>x. projr (processor_of x)) ps)"
    by (intro traverse_pure) force
  then show ?thesis by blast
qed

lemma parse_displayed: "plain_coordinate c \<Longrightarrow> parsed_coordinate (coordinate_display c) = Inr c"
  using coordinate_parse_iff [of "coordinate_display c" c] by (simp add: parsed_coordinate_def)

text \<open>
  C17: An imported manifest stands for the POM it came from. When no two
  dependencies share scope, group and artifact (otherwise they are mixed, see below) and the
  coordinates of the parent and the BOMs are plain, reading the generated \<open>jman.toml\<close> back into the
  model gives the same dependencies and managed dependencies, up to the normal form that a manifest
  has for scopes and types, and the same BOM imports, coordinate, packaging, modules, compiler
  arguments, and the repositories that serve releases. The validation of the manifest is what makes the coordinates
  and exclusions split again.
\<close>

theorem import_round_trip:
  assumes run: "manifest_from_maven e authoritative = Inr m"
    and keys: "distinct (map import_key (e_dependencies e))"
    and boms: "list_all plain_coordinate (e_bom_imports e)"
    and par: "case e_parent e of None \<Rightarrow> True | Some p \<Rightarrow> plain_coordinate p"
  shows "\<exists>r. effective_from_manifest m = Inr r \<and>
    mset (e_dependencies r) = mset (map normal_dependency (e_dependencies e)) \<and>
    e_management r = map normal_managed (e_management e) \<and> e_bom_imports r = e_bom_imports e \<and>
    coordinate_ga (e_coordinate r) = coordinate_ga (e_coordinate e) \<and>
    c_version (e_coordinate r) = c_version (e_coordinate e) \<and> e_packaging r = e_packaging e \<and>
    e_modules r = e_modules e \<and> e_compiler_args r = e_compiler_args e \<and>
    map r_url (e_repositories r) = map r_url (filter r_releases_enabled (e_repositories e))"
proof -
  obtain release found processors where
    found: "import_dependencies (e_dependencies e) (no_dependencies, []) = Inr found"
    and m: "m = imported_manifest e authoritative release found processors"
    and valid: "manifest_validate m = Inr ()"
    using run by (auto simp: manifest_from_maven_def and_then_Inr_iff Let_def)
  have "collected (e_dependencies e) found"
    using import_dependencies_collected [OF found collected_start] keys by simp
  note deps = read_back_dependencies [OF valid m this] and parts = validated_parts [OF valid [unfolded m]]
  have management: "traverse managed_of (map managed_entry (e_management e)) =
      Inr (map normal_managed (e_management e))"
    using parts(4) read_back_managed by (simp add: traverse_Inr_iff list_all2_conv_all_nth all_set_conv_all_nth)
  obtain ps where ps: "traverse processor_of (bt_of_list processors) = Inr ps"
    using read_back_processors [OF parts(2)] by blast
  have bom: "traverse parsed_coordinate (map coordinate_display (e_bom_imports e)) = Inr (e_bom_imports e)"
    using boms parse_displayed by (simp add: traverse_Inr_iff list_all2_conv_all_nth list_all_length)
  have "\<exists>q. traverse_opt parsed_coordinate
      (map_option (\<lambda>p. c_group p @ '':'' @ c_artifact p @ '':'' @ c_version p) (e_parent e)) = Inr q"
  proof (cases "e_parent e")
    case (Some p)
    then have "plain_coordinate (coordinate_jar (c_group p) (c_artifact p) (c_version p))"
      using par by (simp add: plain_coordinate_def coordinate_jar_def plain_part_def)
    from parse_displayed [OF this] show ?thesis
      by (simp add: Some coordinate_display_def coordinate_jar_def)
  qed simp
  then show ?thesis
    using deps management ps bom
    by (auto simp: effective_from_manifest_def and_then_Inr_iff m imported_manifest_def
        coordinate_pom_def coordinate_ga_def comp_def)
qed

definition sample_dependency :: "str \<Rightarrow> str option \<Rightarrow> dependency" where
  "sample_dependency v classifier =
     \<lparr>d_group = ''g'', d_artifact = ''a'', d_version = Some v, d_scope = ''compile'',
      d_scope_explicit = False, d_type = ''jar'', d_type_explicit = False, d_classifier = classifier,
      d_optional = None, d_exclusions = []\<rparr>"

definition sample_import :: "dependency list \<Rightarrow> effective_pom" where
  "sample_import ds =
     \<lparr>e_coordinate = coordinate_pom ''org'' ''app'' ''1'', e_parent = None, e_packaging = ''jar'',
      e_modules = [], e_property_templates = [], e_properties = [], e_dependencies = ds,
      e_management = [], e_bom_imports = [], e_repositories = [], e_processors = [],
      e_compiler_args = [], e_relocation = None\<rparr>"

theorem import_round_trip_witness:
  "\<exists>r. effective_from_manifest (projr (manifest_from_maven
      (sample_import [sample_dependency ''1'' (Some ''linux'')]) False)) = Inr r \<and>
    map d_classifier (e_dependencies r) = [Some ''linux'']"
proof -
  let ?e = "sample_import [sample_dependency ''1'' (Some ''linux'')]"
  have "is_ok (manifest_from_maven ?e False)" by code_simp
  then obtain m where m: "manifest_from_maven ?e False = Inr m" by (auto simp: is_ok_iff)
  then obtain r where r: "effective_from_manifest m = Inr r"
    and "mset (e_dependencies r) = mset (map normal_dependency (e_dependencies ?e))"
    using import_round_trip [OF m] by (auto simp: sample_import_def import_key_def)
  then have "map d_classifier (e_dependencies r) = [Some ''linux'']"
    by (auto simp: sample_import_def normal_dependency_def sample_dependency_def Let_def)
  moreover have "projr (manifest_from_maven ?e False) = m" by (simp only: m sum.sel)
  ultimately show ?thesis using r by (intro exI [of _ r]) (simp only: simp_thms)
qed

text \<open>
  Two dependencies of one scope that differ only in their classifier or type are one entry of the
  manifest: the version of the last with the classifier of the first, so one artifact is lost and
  the other one is replaced by a file that was never asked for.
\<close>

theorem import_mixes_classifiers:
  "\<exists>m r. manifest_from_maven (sample_import [sample_dependency ''1'' (Some ''linux''),
       sample_dependency ''2'' None]) False = Inr m \<and>
     effective_from_manifest m = Inr r \<and>
     map (\<lambda>d. (d_version d, d_classifier d)) (e_dependencies r) = [(Some ''2'', Some ''linux'')]"
proof -
  let ?e = "sample_import [sample_dependency ''1'' (Some ''linux''), sample_dependency ''2'' None]"
  have "map_err (\<lambda>_. ()) (and_then (manifest_from_maven ?e False) (\<lambda>m. and_then (effective_from_manifest m)
      (\<lambda>r. Inr (map (\<lambda>d. (d_version d, d_classifier d)) (e_dependencies r))))) =
    Inr [(Some ''2'', Some ''linux'')]"
    by code_simp
  then show ?thesis by (auto simp: and_then_Inr_iff)
qed

section \<open>The modules of a workspace\<close>

text \<open>The environment of the build for the files the command line sees.\<close>

definition build_view :: "cli_env \<Rightarrow> disk \<Rightarrow> build_env" where
  "build_view env d =
     \<lparr>be_disk = d, be_codec = ce_codec env, be_canonical = rv_canonicalize (ce_resolver env) d\<rparr>"

definition ignoring_error :: "('e, 'a) result \<Rightarrow> 'a option" where
  "ignoring_error r = (case r of Inr x \<Rightarrow> Some x | Inl _ \<Rightarrow> None)"

lemma ignoring_error_simps [simp]:
  "ignoring_error (Inr x) = Some x" "ignoring_error (Inl e) = None"
  "ignoring_error (map_err f r) = ignoring_error r"
  "ignoring_error (with_context m r') = ignoring_error r'"
  by (auto simp: ignoring_error_def map_err_def with_context_def split: sum.splits)

lemma ignoring_error_eq:
  assumes "ignoring_error r = ignoring_error r'"
  shows "(\<exists>x. r = Inr x \<and> r' = Inr x) \<or> (\<exists>e e'. r = Inl e \<and> r' = Inl e')"
  using assms by (auto simp: ignoring_error_def split: sum.splits)

lemma same_manifests:
  "ignoring_error (cli_manifest env d m directory) =
   ignoring_error (read_module_manifest (build_view env d) (path_join directory [Normal ''jman.toml'']))"
proof -
  have "manifest_name = [Normal ''jman.toml'']" by code_simp
  then show ?thesis
    by (simp add: cli_manifest_def manifest_at_def read_module_manifest_def build_view_def)
qed

lemma same_canonical:
  "ignoring_error (canonical_path env d m p) = ignoring_error (canonicalize (build_view env d) p)"
  by (simp add: canonical_path_def canonicalize_def build_view_def)

lemma traverse_ignoring:
  assumes "\<And>x. x \<in> set xs \<Longrightarrow> ignoring_error (f x) = ignoring_error (g x)"
  shows "ignoring_error (traverse f xs) = ignoring_error (traverse g xs)"
  using assms
proof (induction xs)
  case (Cons x xs)
  from ignoring_error_eq [OF Cons.prems [of x]] ignoring_error_eq [OF Cons.IH] Cons.prems
  show ?case by (auto split: sum.splits)
qed simp

lemma same_children:
  "ignoring_error (workspace_children env d root directory ms) =
   ignoring_error (module_children (build_view env d) root directory ms)"
  unfolding workspace_children_def module_children_def
proof (rule traverse_ignoring)
  fix m
  from ignoring_error_eq [OF same_canonical [of env d "''could not resolve module '' @ ticked m"
      "path_join directory (path_of m)"]]
  show "ignoring_error (and_then (canonical_path env d (''could not resolve module '' @ ticked m)
         (path_join directory (path_of m))) (\<lambda>p.
       and_then (ensure (path_starts_with p root)
         (Bail (''module '' @ show_path p @ '' escapes workspace '' @ show_path root))) (\<lambda>_. Inr p))) =
    ignoring_error (and_then (canonicalize (build_view env d) (path_join directory (path_of m))) (\<lambda>p.
       and_then (ensure (path_starts_with p root)
         (Invalid (''module '' @ show_path p @ '' escapes workspace '' @ show_path root))) (\<lambda>_. Inr p)))"
    by (auto simp: ensure_def)
qed

definition same_walk :: "path list cli option \<Rightarrow> raw_module list built option \<Rightarrow> bool" where
  "same_walk ds raw \<longleftrightarrow>
     ds \<noteq> None \<and> raw \<noteq> None \<and>
     ignoring_error (the ds) = map_option (map fst) (ignoring_error (the raw))"

lemma loops_agree:
  assumes fin: "finite {p. d p \<noteq> None}" and "set seen = fst ` set raw"
  shows "same_walk (directories_loop env d root pending seen (map fst raw))
    (discover_loop (build_view env d) root pending seen raw)"
proof -
  define dirs where "dirs = {p. d (p @ [Normal ''jman.toml'']) \<noteq> None}"
  have dirs: "finite dirs"
    using finite_vimageI [OF fin, of "\<lambda>p. p @ [Normal ''jman.toml'']"]
    by (simp add: dirs_def vimage_def inj_on_def)
  show ?thesis using assms(2)
  proof (induction "card (dirs - set seen)" arbitrary: pending seen raw rule: less_induct)
    case less
    show ?case
    proof (cases "pending = [] \<or> last pending \<in> set seen")
      case True
      then show ?thesis
        by (auto simp: same_walk_def directories_loop.simps [of env d root pending]
            discover_loop.simps [of "build_view env d" root pending])
    next
      case False
      let ?x = "last pending"
      note unfold_loops = directories_loop.simps [of env d root pending]
        discover_loop.simps [of "build_view env d" root pending]
      from ignoring_error_eq [OF same_manifests [of env d "''could not read module '' @ show_path ?x" ?x]]
      show ?thesis
      proof (elim disjE exE conjE)
        fix m assume m: "cli_manifest env d (''could not read module '' @ show_path ?x) ?x = Inr m"
          "read_module_manifest (build_view env d) (path_join ?x [Normal ''jman.toml'']) = Inr m"
        from ignoring_error_eq [OF same_children [of env d root ?x "pj_modules (mf_project m)"]]
        show ?thesis
        proof (elim disjE exE conjE)
          fix cs assume cs: "workspace_children env d root ?x (pj_modules (mf_project m)) = Inr cs"
            "module_children (build_view env d) root ?x (pj_modules (mf_project m)) = Inr cs"
          have "?x \<in> dirs"
            using manifest_needs_file [OF m(2)] by (simp add: dirs_def path_join_name build_view_def)
          then have "dirs - set (bs_insert ?x seen) \<subset> dirs - set seen" using False by auto
          then have "card (dirs - set (bs_insert ?x seen)) < card (dirs - set seen)"
            using dirs by (intro psubset_card_mono) auto
          from less.hyps [OF this, of "raw @ [(?x, m)]" "butlast pending @ cs"] less.prems
          show ?thesis using False m cs by (simp add: unfold_loops)
        qed (use False m in \<open>simp add: unfold_loops same_walk_def\<close>)
      qed (use False in \<open>simp add: unfold_loops same_walk_def\<close>)
    qed
  qed
qed

lemma linked_directories:
  assumes "link_modules benv root raw = Inr ms"
  shows "map bm_directory ms = map fst raw"
proof -
  have "list_all2 (\<lambda>x y. bm_directory y = fst x) raw ms"
    using assms unfolding link_modules_def Let_def traverse_Inr_iff
    by (rule list_all2_mono) (auto simp: and_then_Inr_iff split: prod.splits)
  then show ?thesis by (induction rule: list_all2_induct) auto
qed

text \<open>
  C13: The command line and the builder walk the workspace alike. On a disk with
  finitely many files the walk of \<open>jman sync\<close> ends; it finds the same modules in the same order
  as the discovery of \<open>jman build\<close>, it succeeds whenever that does, and where only the walk
  succeeds the discovery has failed later, on a dependency between the modules.
\<close>

theorem modules_agree:
  assumes "finite {p. d p \<noteq> None}"
  shows "workspace_directories env d root \<noteq> None \<and>
    discover_modules (build_view env d) root \<noteq> None \<and>
    (\<forall>ms. discover_modules (build_view env d) root = Some (Inr ms) \<longrightarrow>
       workspace_directories env d root = Some (Inr (map bm_directory ms))) \<and>
    (\<forall>ds e. workspace_directories env d root = Some (Inr ds) \<and>
       discover_modules (build_view env d) root = Some (Inl e) \<longrightarrow>
       (\<exists>root' raw. discover_loop (build_view env d) root' [root'] [] [] = Some (Inr raw) \<and>
          map fst raw = ds \<and> link_modules (build_view env d) root' raw = Inl e))"
proof -
  let ?b = "build_view env d"
  from ignoring_error_eq [OF same_canonical [of env d "''could not canonicalize '' @ show_path root" root]]
  show ?thesis
  proof (elim disjE exE conjE)
    fix r assume r: "canonical_path env d (''could not canonicalize '' @ show_path root) root = Inr r"
      "canonicalize ?b root = Inr r"
    have "same_walk (directories_loop env d r [r] [] []) (discover_loop ?b r [r] [] [])"
      using loops_agree [OF assms, of "[]" "[]" env r "[r]"] by simp
    then obtain x y where x: "directories_loop env d r [r] [] [] = Some x"
      and y: "discover_loop ?b r [r] [] [] = Some y"
      and eq: "ignoring_error x = ignoring_error (and_then y (\<lambda>raw. Inr (map fst raw)))"
      by (cases "directories_loop env d r [r] [] []"; cases "discover_loop ?b r [r] [] []")
         (auto simp: same_walk_def ignoring_error_def split: sum.splits)
    have walk: "workspace_directories env d root = Some x"
      and find: "discover_modules ?b root = Some (and_then y (link_modules ?b r))"
      using r x y by (simp_all add: workspace_directories_def discover_modules_def)
    from ignoring_error_eq [OF eq] show ?thesis
    proof (elim disjE exE conjE)
      fix ds assume "x = Inr ds" "and_then y (\<lambda>raw. Inr (map fst raw)) = Inr ds"
      then obtain raw where raw: "y = Inr raw" "x = Inr (map fst raw)" by (auto simp: and_then_Inr_iff)
      then show ?thesis using walk find y linked_directories by fastforce
    qed (use walk find in \<open>auto simp: and_then_Inr_iff\<close>)
  qed (simp add: workspace_directories_def discover_modules_def)
qed

definition two_modules_cli :: cli_env where
  "two_modules_cli =
     \<lparr>ce_codec = be_codec two_modules,
      ce_resolver = sample_resolver\<lparr>rv_canonicalize := \<lambda>_. be_canonical two_modules\<rparr>, ce_fuel = 1,
      ce_platform_id = ''linux-x86_64'', ce_current_dir = None, ce_client_error = None,
      ce_remove_fault = Map.empty\<rparr>"

theorem modules_agree_witness:
  "workspace_directories two_modules_cli (be_disk two_modules) [RootDir] =
     Some (Inr (map bm_directory two_module_list))"
proof -
  have fin: "finite {p. be_disk two_modules p \<noteq> None}"
    by (rule finite_subset [of _ "{[RootDir, Normal ''jman.toml''], [RootDir, Normal ''lib'', Normal ''jman.toml'']}"])
       (auto simp: two_modules_def Let_def split: if_splits)
  have "build_view two_modules_cli (be_disk two_modules) = two_modules"
    by (simp add: build_view_def two_modules_cli_def)
  then show ?thesis
    using modules_agree [OF fin, of two_modules_cli "[RootDir]"] two_modules_discovered(1) by simp
qed

end
