(* ===== verification/Lock_Facts.thy ===== *)
theory Lock_Facts
  imports Project_Facts Build_Tools
begin

text \<open>
  What holds of a lockfile because it comes from a resolution: its checksums are the SHA-256 of
  bytes that were fetched, it passes the validation of the packages, and the build finds a package
  for every entry of a classpath.
\<close>

section \<open>Checksums through the resolution\<close>

definition digests :: "resolved_package \<Rightarrow> str \<times> str option \<times> nat option" where
  "digests p = (g_pom_checksum p, g_checksum p, g_size p)"

definition digest_ok :: "repository_env \<Rightarrow> str \<times> str option \<times> nat option \<Rightarrow> bool" where
  "digest_ok env = (\<lambda>(pom, sum, n).
     (\<exists>b. pom = sha256 env b) \<and>
     (case sum of None \<Rightarrow> n = None | Some c \<Rightarrow> \<exists>b. c = sha256 env b \<and> n = Some (length b)))"

definition sums_ok :: "repository_env \<Rightarrow> resolved_package list \<Rightarrow> bool" where
  "sums_ok env ps \<longleftrightarrow> (\<forall>x \<in> set (map digests ps). digest_ok env x)"

lemma digests_add_edge [simp]: "map digests (add_edge ps par child) = map digests ps"
  by (auto simp: add_edge_def Let_def digests_def intro: map_update_same split: option.split)

lemma sums_ok_cong: "map digests ps = map digests qs \<Longrightarrow> sums_ok env ps = sums_ok env qs"
  by (simp only: sums_ok_def)

definition keeps_memory :: "resolver \<Rightarrow> client_state \<Rightarrow> client_state \<Rightarrow> bool" where
  "keeps_memory rv w w' \<longleftrightarrow>
     (memory_ok (rv_env rv) (rv_config rv) w \<longrightarrow> memory_ok (rv_env rv) (rv_config rv) w')"

lemma reflp_keeps_memory: "reflp (keeps_memory rv)" and transp_keeps_memory: "transp (keeps_memory rv)"
  by (auto simp: keeps_memory_def reflp_def transp_def)

lemma fetch_memory: "keeps_memory rv w (snd (fetch (rv_env rv) (rv_config rv) c w))"
  using fetch_keeps_memory_ok by (simp add: keeps_memory_def)

lemma load_pom_memory: "keeps_memory rv w (snd (load_pom (rv_env rv) (rv_config rv) c w))"
  using fetch_memory by (simp add: load_pom_snd)

lemma build_pom_memory:
  assumes "build_pom rv c s = Some (r, s')"
  shows "keeps_memory rv (snd s) (snd s')"
proof -
  have "keeps (\<lambda>s s'. keeps_memory rv (snd s) (snd s'))
      (build_remote (parse_xml (rv_env rv)) (rv_platform rv) (load_pom (rv_env rv) (rv_config rv))
        (rv_depth rv) c [])"
    by (rule build_remote_world [OF reflp_keeps_memory transp_keeps_memory]) (rule load_pom_memory)
  from keepsD [OF this] assms show ?thesis by (simp only: build_pom_def build_coordinate_def)
qed

lemma prefetch_memory:
  assumes "prefetch_candidate_poms rv st s = Some (r, s')"
  shows "keeps_memory rv (snd s) (snd s')"
proof -
  have "keeps_memory rv w (fold (\<lambda>c w. snd (fetch (rv_env rv) (rv_config rv) c w)) cs w)" for cs w
  proof (induction cs arbitrary: w)
    case (Cons c cs)
    then show ?case using fetch_memory [of rv w c] by (simp add: keeps_memory_def)
  qed (simp add: keeps_memory_def)
  then show ?thesis using assms by (auto simp: prefetch_candidate_poms_def split: prod.splits)
qed

text \<open>What every step of the loop keeps.\<close>

definition checked :: "resolver \<Rightarrow> resolve_state \<Rightarrow> client_state \<Rightarrow> bool" where
  "checked rv st w \<longleftrightarrow> sums_ok (rv_env rv) (q_packages st) \<and> memory_ok (rv_env rv) (rv_config rv) w"

lemma checked_prefetch:
  assumes "prefetch_candidate_poms rv st s = Some (Inr st', s')" "checked rv st (snd s)"
  shows "checked rv st' (snd s')"
  using prefetch_memory [OF assms(1)] prefetch_Inr [OF assms(1)] assms(2)
  by (simp add: checked_def keeps_memory_def)

lemma fetched_digest:
  assumes "fetch (rv_env rv) (rv_config rv) c w = (Inr f, w')" "memory_ok (rv_env rv) (rv_config rv) w"
  shows "cf_checksum f = sha256 (rv_env rv) (cf_bytes f) \<and> memory_ok (rv_env rv) (rv_config rv) w'"
  using fetched_entry_sound [OF assms(2,1)] by (simp add: entry_ok_def)

lemma pom_file_digest:
  assumes "pom_file rv workspace c s = Some (Inr f, s')" "memory_ok (rv_env rv) (rv_config rv) (snd s)"
  shows "(\<exists>b. cf_checksum f = sha256 (rv_env rv) b) \<and> memory_ok (rv_env rv) (rv_config rv) (snd s')"
  using assms fetched_digest
  by (fastforce simp: pom_file_def client_step_def local_pom_file_def split: option.splits sum.splits prod.splits)

lemma checked_visit_selected:
  assumes run: "visit_selected rv project k c effective index st s = Some (Inr st', s')"
    and ok: "checked rv st (snd s)"
  shows "checked rv st' (snd s')"
proof -
  let ?ps = "add_edge (q_packages st) (k_parent k) index"
  let ?qs = "?ps[index := (?ps ! index)\<lparr>g_scopes := bs_insert (k_scope k) (g_scopes (?ps ! index))\<rparr>]"
  have "map digests ?qs = map digests (q_packages st)"
    using map_update_same [of digests "(?ps ! index)\<lparr>g_scopes := bs_insert (k_scope k) (g_scopes (?ps ! index))\<rparr>"
        ?ps index] by (simp add: digests_def)
  then have qs: "sums_ok (rv_env rv) ?qs" "sums_ok (rv_env rv) ?ps"
    using ok sums_ok_cong digests_add_edge unfolding checked_def by blast+
  show ?thesis
  proof (cases "k_scope k \<in> set (g_scopes (?ps ! index))")
    case True
    then show ?thesis using run ok qs by (auto simp: visit_selected_def Let_def lift_build_def checked_def)
  next
    case False
    then obtain e s1 where m: "(if c_version (g_coordinate (?ps ! index)) = c_version c
          then lift_build (Inr effective) else build_pom rv (pom_of (g_coordinate (?ps ! index)))) s = Some (Inr e, s1)"
      and pre: "prefetch_candidate_poms rv (st\<lparr>q_packages := ?qs, q_queue := enqueue_children (q_queue st) e k index
            (e_management project)\<rparr>) s1 = Some (Inr st', s')"
      using run by (auto simp: visit_selected_def Let_def bind_build_Inr)
    have "memory_ok (rv_env rv) (rv_config rv) (snd s1)"
      using m ok build_pom_memory
      by (fastforce simp: checked_def keeps_memory_def lift_build_def split: if_splits)
    then show ?thesis using checked_prefetch [OF pre] qs by (simp add: checked_def)
  qed
qed

lemma checked_visit_new:
  assumes run: "visit_new rv project workspace k c effective key st s = Some (Inr st', s')"
    and ok: "checked rv st (snd s)"
  shows "checked rv st' (snd s')"
proof -
  from run obtain f s1 st1 where f: "pom_file rv workspace c s = Some (Inr f, s1)"
    and pre: "prefetch_candidate_poms rv st1 s1 = Some (Inr st', s')"
    and st1: "q_packages st1 = add_edge (q_packages st @ [new_package k c f]) (k_parent k) (length (q_packages st))"
    by (auto simp: visit_new_def Let_def bind_build_Inr)
  have "sums_ok (rv_env rv) (q_packages st1)" "memory_ok (rv_env rv) (rv_config rv) (snd s1)"
    using pom_file_digest [OF f] ok
    by (simp_all add: checked_def sums_ok_def st1 digests_def new_package_def digest_ok_def)
  then show ?thesis using checked_prefetch [OF pre] by (simp add: checked_def)
qed

lemma checked_visit:
  assumes run: "visit rv project workspace k st s = Some (Inr st', s')" and ok: "checked rv st (snd s)"
  shows "checked rv st' (snd s')"
proof (cases "excluded k")
  case True
  with run ok show ?thesis by (auto simp: visit_def lift_build_def)
next
  case False
  with run obtain c effective s1 where pom: "build_pom rv (pom_of c) s = Some (Inr effective, s1)"
    and step: "(case relocation_target c effective of
        Some r \<Rightarrow> lift_build (Inr (st\<lparr>q_queue := relocate k r # q_queue st\<rparr>))
      | None \<Rightarrow>
          (let key = management_key (k_dependency k)
           in case q_selected st key of
                Some index \<Rightarrow> visit_selected rv project k c effective index st
              | None \<Rightarrow> visit_new rv project workspace k c effective key st)) s1 = Some (Inr st', s')"
    by (auto simp: visit_def bind_build_Inr lift_build_def)
  have "checked rv st (snd s1)" using build_pom_memory [OF pom] ok by (simp add: checked_def keeps_memory_def)
  then show ?thesis
    using step checked_visit_selected checked_visit_new
    by (auto simp: Let_def lift_build_def checked_def split: option.splits)
qed

lemma checked_loop:
  "resolve_loop n rv project workspace st s = Some (Inr st', s') \<Longrightarrow> checked rv st (snd s) \<Longrightarrow>
     checked rv st' (snd s')"
proof (induction n arbitrary: st s)
  case (Suc n)
  show ?case
  proof (cases "q_queue st")
    case (Cons k rest)
    with Suc.prems(1) obtain st1 s1 where
      step: "visit rv project workspace k (st\<lparr>q_queue := rest\<rparr>) s = Some (Inr st1, s1)"
      and loop: "resolve_loop n rv project workspace st1 s1 = Some (Inr st', s')"
      by (auto simp: bind_build_Inr)
    have "checked rv (st\<lparr>q_queue := rest\<rparr>) (snd s)" using Suc.prems(2) by (simp add: checked_def)
    from Suc.IH [OF loop checked_visit [OF step this]] show ?thesis .
  qed (use Suc.prems in auto)
qed simp

lemma downloads_digests:
  "run_downloads (rv_env rv) (rv_config rv) ds w = (Inr fs, w') \<Longrightarrow>
     memory_ok (rv_env rv) (rv_config rv) w \<Longrightarrow>
     \<forall>(i, f) \<in> set fs. cf_checksum f = sha256 (rv_env rv) (cf_bytes f)"
proof (induction ds arbitrary: w fs)
  case (Cons d ds)
  obtain i c where d: "d = (i, c)" by (cases d)
  from Cons.prems(1) obtain f w1 gs where f: "fetch (rv_env rv) (rv_config rv) c w = (Inr f, w1)"
    and gs: "run_downloads (rv_env rv) (rv_config rv) ds w1 = (Inr gs, w')" and fs: "fs = (i, f) # gs"
    by (auto simp: d step_bind_Inr)
  show ?case using Cons.IH [OF gs] fetched_digest [OF f Cons.prems(2)] by (simp add: fs)
qed simp

lemma apply_artifacts_sums:
  assumes "sums_ok env ps" "\<forall>(i, f) \<in> set fs. cf_checksum f = sha256 env (cf_bytes f)"
  shows "sums_ok env (apply_artifacts fs ps)"
proof -
  have "sums_ok env (fold (\<lambda>(i, f) ps. ps[i := with_artifact f (ps ! i)]) gs ps)"
    if "\<forall>(i, f) \<in> set gs. cf_checksum f = sha256 env (cf_bytes f)" "sums_ok env ps" for gs ps
    using that
  proof (induction gs arbitrary: ps)
    case (Cons a gs)
    obtain i f where a: "a = (i, f)" by (cases a)
    have "sums_ok env (ps[i := with_artifact f (ps ! i)])"
    proof (cases "i < length ps")
      case True
      have "digest_ok env (digests (with_artifact f (ps ! i)))"
        using Cons.prems True by (auto simp: a sums_ok_def digests_def with_artifact_def digest_ok_def)
      then show ?thesis using Cons.prems(2) set_update_subset_insert [of ps i]
        by (fastforce simp: sums_ok_def)
    next
      case False
      then show ?thesis using Cons.prems(2) by (simp add: list_update_beyond)
    qed
    then show ?case using Cons.IH [of "ps[i := with_artifact f (ps ! i)]"] Cons.prems(1) by (simp add: a)
  qed simp
  then show ?thesis using assms by (simp add: apply_artifacts_def)
qed

lemma resolved_sums:
  assumes run: "resolve_in_workspace n rv project workspace s = Some (Inr g, s')"
    and mem: "memory_ok (rv_env rv) (rv_config rv) (snd s)"
  shows "sums_ok (rv_env rv) (rg_packages g) \<and> g = build_classpaths (rg_packages g)"
proof -
  from run obtain st0 s0 st s1 ps s2 where
    pre: "prefetch_candidate_poms rv (start_state project)
        (fold (\<lambda>m. remember (mp_effective m)) workspace (Map.empty, snd s)) = Some (Inr st0, s0)"
    and loop: "resolve_loop n rv project workspace st0 s0 = Some (Inr st, s1)"
    and fin: "finish_artifacts rv st (snd s1) = (Inr ps, s2)"
    and g: "g = build_classpaths ps"
    by (auto simp: resolve_in_workspace_def bind_build_Inr client_step_Inr)
  have "snd (fold (\<lambda>m. remember (mp_effective m)) ws t) = snd t" for ws :: "maven_project list" and t :: "client_state builder_state"
    by (induction ws arbitrary: t) (simp_all add: remember_def split_beta)
  then have "checked rv (start_state project) (snd (fold (\<lambda>m. remember (mp_effective m)) workspace
      (Map.empty, snd s)))"
    using mem by (simp add: checked_def start_state_def sums_ok_def)
  from checked_loop [OF loop checked_prefetch [OF pre this]] have st: "checked rv st (snd s1)" .
  obtain fs w where fs: "run_downloads (rv_env rv) (rv_config rv) (rv_order rv (q_downloads st)) (snd s1) =
      (Inr fs, w)" and ps: "ps = apply_artifacts fs (q_packages st)"
    using fin by (auto simp: finish_artifacts_def step_bind_Inr)
  have "sums_ok (rv_env rv) ps"
    using st downloads_digests [OF fs] unfolding ps checked_def by (blast intro: apply_artifacts_sums)
  then show ?thesis by (simp add: g build_classpaths_def Let_def)
qed

section \<open>The lockfile\<close>

lemma starts_with_sha256: "starts_with ''sha256:'' (sha256 env b)"
  by (simp add: sha256_def starts_with_iff)

lemma classpath_checksums:
  assumes "g = build_classpaths ps"
    and "c \<in> set (rg_compile g) \<union> set (rg_runtime g) \<union> set (rg_test g) \<union> set (rg_processor g)"
  shows "\<exists>p \<in> set ps. g_checksum p = Some c"
  using assms classpaths_exact [of ps]
  by (auto simp: Let_def set_first_occurrences contributes_def split: option.splits if_splits)

text \<open>
  C4: What a resolution locks, the build can use. Every package of the lockfile has
  checksums that are the SHA-256 of fetched bytes, with their length as its size, so the packages
  pass the validation of lockfiles; every checksum on a classpath is one of a package; and the
  paths of a classpath are found as soon as the cache has a file for each package with a checksum.
\<close>

theorem locks_consumable:
  assumes run: "resolve_in_workspace n rv project workspace s = Some (Inr g, s')"
    and mem: "memory_ok (rv_env rv) (rv_config rv) (snd s)"
    and l: "l = lock_from_graph (rv_env rv) platform_id manifest_text workspace_hash release edges g"
  shows "check_all check_locked_package (lf_packages l) = Inr () \<and>
    (\<forall>p \<in> set (lf_packages l). (\<exists>b. lp_pom_checksum p = sha256 (rv_env rv) b) \<and>
       (case lp_artifact_checksum p of None \<Rightarrow> lp_artifact_size p = None
        | Some c \<Rightarrow> \<exists>b. c = sha256 (rv_env rv) b \<and> lp_artifact_size p = Some (of_nat (length b)))) \<and>
    (\<forall>usage. \<forall>c \<in> set (usage_classpath usage l) \<union> set (lc_processors (lf_classpath l)).
       \<exists>p \<in> set (lf_packages l). lp_artifact_checksum p = Some c) \<and>
    (\<forall>t cache usage. (\<forall>p \<in> set (lf_packages l). \<forall>c. lp_artifact_checksum p = Some c \<longrightarrow>
         fs_is_file t (path_join (path_join cache (path_of ''artifacts''))
           (path_of (strip_digest c @ ''.'' @ lp_extension p)))) \<longrightarrow>
       (\<exists>ps. artifact_paths (usage_classpath usage l) l cache t = Inr ps))"
proof -
  have sums: "sums_ok (rv_env rv) (rg_packages g)" and g: "g = build_classpaths (rg_packages g)"
    using resolved_sums [OF run mem] by simp_all
  have packages: "set (lf_packages l) = locked_of (rg_packages g) ` set (rg_packages g)"
    by (simp add: l lock_from_graph_def)
  have sound: "(\<exists>b. lp_pom_checksum p = sha256 (rv_env rv) b) \<and>
       (case lp_artifact_checksum p of None \<Rightarrow> lp_artifact_size p = None
        | Some c \<Rightarrow> \<exists>b. c = sha256 (rv_env rv) b \<and> lp_artifact_size p = Some (of_nat (length b)))"
    if "p \<in> set (lf_packages l)" for p
    using that sums unfolding packages
    by (fastforce simp: sums_ok_def digests_def digest_ok_def locked_of_def split: option.splits)
  have entries: "\<exists>p \<in> set (lf_packages l). lp_artifact_checksum p = Some c"
    if "c \<in> set (usage_classpath usage l) \<union> set (lc_processors (lf_classpath l))" for usage c
  proof -
    have "\<exists>p \<in> set (rg_packages g). g_checksum p = Some c"
      using classpath_checksums [OF g] that
      by (cases usage) (auto simp: usage_classpath_def l lock_from_graph_def)
    then show ?thesis by (auto simp: packages locked_of_def)
  qed
  have valid: "check_all check_locked_package (lf_packages l) = Inr ()"
    using sound starts_with_sha256
    by (fastforce simp: check_all_Inr_iff check_locked_package_def is_some_and_iff split: option.splits)
  have paths: "\<exists>ps. artifact_paths (usage_classpath usage l) l cache t = Inr ps"
    if files: "\<forall>p \<in> set (lf_packages l). \<forall>c. lp_artifact_checksum p = Some c \<longrightarrow>
         fs_is_file t (path_join (path_join cache (path_of ''artifacts''))
           (path_of (strip_digest c @ ''.'' @ lp_extension p)))" for t cache usage
  proof -
    have "\<exists>p. locked_artifact_path cache l t c = Inr p" if c: "c \<in> set (usage_classpath usage l)" for c
    proof -
      obtain p where p: "List.find (\<lambda>p. lp_artifact_checksum p = Some c) (lf_packages l) = Some p"
        and "p \<in> set (lf_packages l)" "lp_artifact_checksum p = Some c"
        using entries [of c usage] c
        by (cases "List.find (\<lambda>p. lp_artifact_checksum p = Some c) (lf_packages l)")
           (auto simp: find_None_iff find_Some_iff)
      then show ?thesis
        using sound [of p] files
        by (auto simp: locked_artifact_path_def p sha256_def strip_digest_def)
    qed
    then have "traverse (locked_artifact_path cache l t) (usage_classpath usage l) =
        Inr (map (\<lambda>c. projr (locked_artifact_path cache l t c)) (usage_classpath usage l))"
      by (intro traverse_pure) force
    then show ?thesis by (simp add: artifact_paths_def)
  qed
  show ?thesis using valid sound entries paths by blast
qed

theorem locks_consumable_witness:
  "\<exists>g s'. resolve_in_workspace 2 sample_resolver sample_root [] (Map.empty, sample_memory) =
     Some (Inr g, s') \<and>
   check_all check_locked_package (lf_packages
     (lock_from_graph sample_env ''linux-x86_64'' [] [] 17 [] g)) = Inr ()"
proof -
  obtain g s' where run: "resolve_in_workspace 2 sample_resolver sample_root []
      (Map.empty, sample_memory) = Some (Inr g, s')"
    by (rule sample_resolution)
  have env: "rv_env sample_resolver = sample_env" by (simp add: sample_resolver_def)
  have "memory_ok (rv_env sample_resolver) (rv_config sample_resolver) (snd (Map.empty, sample_memory))"
    by (auto simp: memory_ok_def entry_ok_def sample_resolver_def sample_memory_def sample_client_def
        sample_entry_def sample_config_def new_config_def split: if_splits)
  from locks_consumable [OF run this refl] show ?thesis using run unfolding env by blast
qed

section \<open>Where fetched files are stored\<close>

definition proper_coordinate :: "coordinate \<Rightarrow> bool" where
  "proper_coordinate c \<longleftrightarrow>
     list_all proper_name (split_char (CHR ''.'') (c_group c)) \<and> proper_name (c_artifact c) \<and>
     proper_name (c_version c) \<and>
     CHR ''/'' \<notin> set (classifier_suffix (c_classifier c)) \<and> CHR ''/'' \<notin> set (c_extension c)"

definition artifact_file_name :: "coordinate \<Rightarrow> str" where
  "artifact_file_name c =
     c_artifact c @ ''-'' @ c_version c @ classifier_suffix (c_classifier c) @ ''.'' @ c_extension c"

lemma group_directories: "replace_all ''.'' ''/'' g = join_with ''/'' (split_char (CHR ''.'') g)"
proof -
  have "map (\<lambda>c. if c = CHR ''.'' then CHR ''/'' else c) (join_with [CHR ''.''] ws) =
      join_with ''/'' ws" if "\<forall>w \<in> set ws. CHR ''.'' \<notin> set w" for ws
    using that
  proof (induction "[CHR ''.'']" ws rule: join_with.induct)
    case (2 w)
    then show ?case by (auto intro: map_idI)
  next
    case (3 w v ws)
    then have "map (\<lambda>c. if c = CHR ''.'' then CHR ''/'' else c) w = w" by (intro map_idI) auto
    with 3 show ?case by simp
  qed simp
  moreover have "CHR ''.'' \<notin> set w" if "w \<in> set (split_char (CHR ''.'') g)" for w
    using split_by_no_sep [OF that] by blast
  ultimately have "map (\<lambda>c. if c = CHR ''.'' then CHR ''/'' else c) (join_with [CHR ''.'']
      (split_char (CHR ''.'') g)) = join_with ''/'' (split_char (CHR ''.'') g)" by blast
  then show ?thesis unfolding group_path join_split_char .
qed

lemma join_with_append:
  "xs \<noteq> [] \<Longrightarrow> ys \<noteq> [] \<Longrightarrow> join_with sep (xs @ ys) = join_with sep xs @ sep @ join_with sep ys"
proof (induction sep xs rule: join_with.induct)
  case (2 sep w)
  then show ?case by (cases ys) simp_all
qed simp_all

text \<open>
  C35: The file a coordinate is cached at lies below the directory of its
  repository in the cache, at a path of plain names, provided that the parts of the group, the
  artifact and the version are file names and classifier and extension hold no separator.
\<close>

theorem cache_paths_confined:
  assumes "proper_coordinate c" and "base \<noteq> []"
  shows "path_join base (path_of (repository_path c)) =
    base @ map Normal (split_char (CHR ''.'') (c_group c) @
      [c_artifact c, c_version c, artifact_file_name c])"
proof -
  let ?ws = "split_char (CHR ''.'') (c_group c) @ [c_artifact c, c_version c, artifact_file_name c]"
  have ne: "split_char (CHR ''.'') (c_group c) \<noteq> []" by simp
  have "repository_path c = join_with ''/'' ?ws"
    unfolding join_with_append [OF ne list.simps(3)]
    by (simp add: repository_path_def group_directories artifact_file_name_def)
  moreover have name: "proper_name (artifact_file_name c)"
  proof -
    have "2 < length (artifact_file_name c)"
      using assms(1) by (cases "c_artifact c") (auto simp: proper_coordinate_def proper_name_def artifact_file_name_def)
    then have "artifact_file_name c \<notin> {[], ''.'', ''..''}" by auto
    then show ?thesis using assms(1)
      by (auto simp: proper_coordinate_def proper_name_def artifact_file_name_def)
  qed
  have "\<forall>w \<in> set ?ws. proper_name w"
    using assms(1) name by (auto simp: proper_coordinate_def list_all_iff)
  ultimately have "path_of (repository_path c) = map Normal ?ws"
    by (simp add: path_of_joined del: map_append)
  then show ?thesis using assms(2) ne
    by (auto simp: path_join_def is_absolute_def hd_append hd_map filter_id_conv)
qed

theorem cache_paths_confined_witness:
  "path_join (path_of ''/c'') (path_of (repository_path (coordinate_pom ''org.x'' ''a'' ''1''))) =
     path_of ''/c/org/x/a/1/a-1.pom''"
proof -
  have "proper_coordinate (coordinate_pom ''org.x'' ''a'' ''1'')" by code_simp
  moreover have "path_of ''/c'' \<noteq> []" by code_simp
  ultimately show ?thesis
    using cache_paths_confined [of "coordinate_pom ''org.x'' ''a'' ''1''" "path_of ''/c''"] by code_simp
qed

text \<open>
  Nothing checks these conditions before a coordinate of a POM is fetched: a group that starts
  with a dot makes the cache path absolute, outside the cache of whatever repository.
\<close>

theorem cache_paths_escape:
  "coordinate_parse ''.tmp.x:a:pom:1'' = Inr (coordinate_pom ''.tmp.x'' ''a'' ''1'') \<and>
   repository_cache_path env cfg repository (repository_path (coordinate_pom ''.tmp.x'' ''a'' ''1'')) =
     path_of ''/tmp/x/a/1/a-1.pom''"
proof
  show "coordinate_parse ''.tmp.x:a:pom:1'' = Inr (coordinate_pom ''.tmp.x'' ''a'' ''1'')" by code_simp
  have "repository_path (coordinate_pom ''.tmp.x'' ''a'' ''1'') = ''/tmp/x/a/1/a-1.pom''" by code_simp
  moreover have "is_absolute (path_of ''/tmp/x/a/1/a-1.pom'')" by code_simp
  ultimately show "repository_cache_path env cfg repository
      (repository_path (coordinate_pom ''.tmp.x'' ''a'' ''1'')) = path_of ''/tmp/x/a/1/a-1.pom''"
    by (simp add: repository_cache_path_def path_join_def)
qed

end
