(* ===== verification/Chain_Facts.thy ===== *)
theory Chain_Facts
  imports Audit_Workspace
begin

text \<open>
  The search of \<open>Audit_Workspace\<close> finds, for every package, all shortest chains of dependencies
  from the roots of the lockfile and nothing else.
\<close>

section \<open>Chains\<close>

definition chain_edge :: "(str, locked_package) btree_map \<Rightarrow> str \<Rightarrow> str \<Rightarrow> bool" where
  "chain_edge packages a b \<longleftrightarrow> (\<exists>p. bt_get packages a = Some p \<and> b \<in> set (lp_dependencies p))"

definition chain :: "(str, locked_package) btree_map \<Rightarrow> str list \<Rightarrow> str list \<Rightarrow> bool" where
  "chain packages roots cs \<longleftrightarrow> cs \<noteq> [] \<and> hd cs \<in> set roots \<and> successively (chain_edge packages) cs"

definition shortest_chain :: "(str, locked_package) btree_map \<Rightarrow> str list \<Rightarrow> str list \<Rightarrow> bool" where
  "shortest_chain packages roots cs \<longleftrightarrow>
     chain packages roots cs \<and>
     (\<forall>ds. chain packages roots ds \<and> last ds = last cs \<longrightarrow> length cs \<le> length ds)"

lemma chain_append:
  "ys \<noteq> [] \<Longrightarrow> chain packages roots (xs @ ys) \<Longrightarrow> chain packages roots zs \<Longrightarrow>
   xs \<noteq> [] \<Longrightarrow> last zs = last xs \<Longrightarrow> chain packages roots (zs @ ys)"
  by (auto simp: chain_def successively_append_iff)

lemma chain_prefix: "chain packages roots (xs @ ys) \<Longrightarrow> xs \<noteq> [] \<Longrightarrow> chain packages roots xs"
  by (auto simp: chain_def successively_append_iff)

lemma shortest_prefix:
  assumes "shortest_chain packages roots (xs @ ys)" "xs \<noteq> []"
  shows "shortest_chain packages roots xs"
proof (cases "ys = []")
  case False
  have "length xs \<le> length zs" if "chain packages roots zs" "last zs = last xs" for zs
  proof -
    have "chain packages roots (zs @ ys)"
      using chain_append [OF False _ that(1) assms(2) that(2)] assms(1) by (simp add: shortest_chain_def)
    then have "length (xs @ ys) \<le> length (zs @ ys)"
      using assms(1) False unfolding shortest_chain_def by (metis last_appendR)
    then show ?thesis by simp
  qed
  then show ?thesis using assms chain_prefix by (auto simp: shortest_chain_def)
qed (use assms in simp)

lemma shortest_distinct:
  assumes "shortest_chain packages roots (xs @ d # ys)" "xs \<noteq> []"
  shows "d \<notin> set xs"
proof
  assume "d \<in> set xs"
  then obtain us vs where xs: "xs = us @ d # vs" by (auto dest: split_list)
  have "shortest_chain packages roots ((us @ [d]) @ vs @ d # ys)" using assms(1) by (simp add: xs)
  then have "chain packages roots (us @ [d])"
    by (intro chain_prefix [of _ _ "us @ [d]" "vs @ d # ys"]) (auto simp: shortest_chain_def)
  moreover have "shortest_chain packages roots (xs @ [d])"
    using shortest_prefix [of packages roots "xs @ [d]" ys] assms(1) by simp
  ultimately have "length (xs @ [d]) \<le> length (us @ [d])" unfolding shortest_chain_def by (metis last_snoc)
  then show False by (simp add: xs)
qed

lemma shortest_exists:
  assumes "chain packages roots cs"
  shows "\<exists>ds. shortest_chain packages roots ds \<and> last ds = last cs \<and> length ds \<le> length cs"
proof -
  obtain ds where "chain packages roots ds \<and> last ds = last cs"
    "\<forall>es. chain packages roots es \<and> last es = last cs \<longrightarrow> length ds \<le> length es"
    using ex_has_least_nat [of "\<lambda>ds. chain packages roots ds \<and> last ds = last cs" cs length] assms by blast
  then show ?thesis using assms by (intro exI [of _ ds]) (auto simp: shortest_chain_def)
qed

section \<open>The search\<close>

definition searching ::
    "(str, locked_package) btree_map \<Rightarrow> str list \<Rightarrow> (str \<times> str list) list \<Rightarrow> (str, nat) btree_map \<Rightarrow>
     (str, str list list) btree_map \<Rightarrow> bool" where
  "searching packages roots queue shortest paths \<longleftrightarrow>
     (\<forall>(c, p) \<in> set queue. chain packages roots p \<and> last p = c) \<and>
     sorted (map (length \<circ> snd) queue) \<and>
     (\<forall>x \<in> set queue. \<forall>y \<in> set queue. length (snd x) \<le> Suc (length (snd y))) \<and>
     (\<forall>c n. bt_get shortest c = Some n \<longrightarrow> (\<forall>x \<in> set queue. n \<le> length (snd x))) \<and>
     (\<forall>c. bt_get shortest c = None \<longleftrightarrow> known_paths paths c = []) \<and>
     (\<forall>c. \<forall>p \<in> set (known_paths paths c). chain packages roots p \<and> last p = c \<and> bt_get shortest c = Some (length p)) \<and>
     (\<forall>cs. shortest_chain packages roots cs \<longrightarrow>
        cs \<in> set (known_paths paths (last cs)) \<or> (\<exists>(c, p) \<in> set queue. prefix p cs))"

lemma known_paths_insert [simp]:
  "known_paths (bt_insert c ps paths) d = (if d = c then ps else known_paths paths d)"
  by (simp add: known_paths_def)

lemma searching_minimal:
  assumes inv: "searching packages roots queue shortest paths" and n: "bt_get shortest c = Some n"
    and ds: "chain packages roots ds" "last ds = c"
  shows "n \<le> length ds"
proof -
  obtain es where es: "shortest_chain packages roots es" "last es = c" "length es \<le> length ds"
    using shortest_exists [OF ds(1)] ds(2) by blast
  then consider "es \<in> set (known_paths paths c)" | x p where "(x, p) \<in> set queue" "prefix p es"
    using inv unfolding searching_def by blast
  then show ?thesis
  proof cases
    case 1
    then have "bt_get shortest c = Some (length es)" using inv unfolding searching_def by blast
    then show ?thesis using n es(3) by simp
  next
    case 2
    then have "n \<le> length p" using inv n unfolding searching_def by fastforce
    then show ?thesis using prefix_length_le [OF 2(2)] es(3) by linarith
  qed
qed

lemma searching_skip:
  assumes inv: "searching packages roots ((c, p) # queue) shortest paths" and long: "too_long shortest c p"
  shows "searching packages roots queue shortest paths"
proof -
  obtain n where n: "bt_get shortest c = Some n" "n < length p"
    using long by (auto simp: too_long_def split: option.splits)
  then have "known_paths paths c \<noteq> []" using inv unfolding searching_def by (metis option.distinct(1))
  then obtain q where "q \<in> set (known_paths paths c)" by (cases "known_paths paths c") auto
  then have q: "chain packages roots q" "last q = c" "length q = n"
    using inv n(1) unfolding searching_def by auto
  have p: "chain packages roots p" "last p = c" using inv unfolding searching_def by auto
  have no: "\<not> prefix p cs" if "shortest_chain packages roots cs" for cs
  proof
    assume "prefix p cs"
    then obtain r where "cs = p @ r" by (auto simp: prefix_def)
    then have "shortest_chain packages roots p"
      using shortest_prefix that p(1) by (simp add: chain_def)
    then show False using q p(2) n(2) unfolding shortest_chain_def by fastforce
  qed
  show ?thesis using inv no unfolding searching_def by (auto 0 3)
qed

lemma bs_insert_not_Nil [simp]: "bs_insert x xs \<noteq> []"
  using set_bs_insert [of x xs] by (metis insert_not_empty set_empty)

lemma child_paths_iff:
  "(d, q) \<in> set (child_paths packages c p) \<longleftrightarrow> q = p @ [d] \<and> chain_edge packages c d \<and> d \<notin> set p"
  by (cases "bt_get packages c") (auto simp: child_paths_def chain_edge_def)

lemma child_lengths: "x \<in> set (child_paths packages c p) \<Longrightarrow> length (snd x) = Suc (length p)"
  by (auto simp: child_paths_def split: option.splits)

lemma sorted_replicate_append:
  assumes "sorted xs" "\<forall>x \<in> set xs. x \<le> n" "\<forall>y \<in> set ys. y = n"
  shows "sorted (xs @ ys)"
proof -
  have "ys = replicate (length ys) n" using assms(3) by (induction ys) auto
  then have "sorted ys" by (metis sorted_replicate)
  then show ?thesis using assms by (auto simp: sorted_append)
qed

lemma searching_complete:
  assumes inv: "searching packages roots ((c, p) # queue) shortest paths"
    and cs: "shortest_chain packages roots cs" "prefix p cs"
  shows "cs = p \<or> (\<exists>(d, q) \<in> set (child_paths packages c p). prefix q cs)"
proof -
  have p: "chain packages roots p" "last p = c" using inv unfolding searching_def by auto
  then have ne: "p \<noteq> []" by (simp add: chain_def)
  obtain r where r: "cs = p @ r" using cs(2) by (auto simp: prefix_def)
  show ?thesis
  proof (cases r)
    case (Cons d ys)
    have "chain_edge packages c d"
      using cs(1) p(2) ne by (auto simp: r Cons shortest_chain_def chain_def successively_append_iff)
    moreover have "d \<notin> set p" using shortest_distinct [OF cs(1) [unfolded r Cons] ne] .
    ultimately have "(d, p @ [d]) \<in> set (child_paths packages c p)" by (simp add: child_paths_iff)
    moreover have "prefix (p @ [d]) cs" by (simp add: r Cons)
    ultimately show ?thesis by blast
  qed (simp add: r)
qed

lemma searching_visit:
  assumes inv: "searching packages roots ((c, p) # queue) shortest paths" and short: "\<not> too_long shortest c p"
  shows "searching packages roots (queue @ child_paths packages c p) (bt_insert c (length p) shortest)
    (bt_insert c (bs_insert p (known_paths paths c)) paths)"
proof -
  let ?new = "child_paths packages c p"
  have p: "chain packages roots p" "last p = c" using inv unfolding searching_def by auto
  then have ne: "p \<noteq> []" by (simp add: chain_def)
  have same: "n = length p" if "bt_get shortest c = Some n" for n
    using inv short that unfolding searching_def too_long_def by fastforce
  have lens: "\<forall>x \<in> set queue. length p \<le> length (snd x) \<and> length (snd x) \<le> Suc (length p)"
    using inv unfolding searching_def by auto
  have new: "\<forall>x \<in> set ?new. length (snd x) = Suc (length p)" using child_lengths by blast
  show ?thesis unfolding searching_def
  proof (intro conjI)
    show "\<forall>(d, q) \<in> set (queue @ ?new). chain packages roots q \<and> last q = d"
      using inv p ne by (auto simp: searching_def child_paths_iff chain_def successively_append_iff)
    show "sorted (map (length \<circ> snd) (queue @ ?new))"
      using inv lens new unfolding map_append
      by (intro sorted_replicate_append [of _ "Suc (length p)"]) (auto simp: searching_def)
    show "\<forall>x \<in> set (queue @ ?new). \<forall>y \<in> set (queue @ ?new). length (snd x) \<le> Suc (length (snd y))"
    proof (intro ballI)
      have bounds: "\<forall>x \<in> set (queue @ ?new). length p \<le> length (snd x) \<and> length (snd x) \<le> Suc (length p)"
        using lens new by auto
      fix x y assume "x \<in> set (queue @ ?new)" "y \<in> set (queue @ ?new)"
      then have "length (snd x) \<le> Suc (length p)" "length p \<le> length (snd y)" using bounds by blast+
      then show "length (snd x) \<le> Suc (length (snd y))" by linarith
    qed
    show "\<forall>d n. bt_get (bt_insert c (length p) shortest) d = Some n \<longrightarrow>
        (\<forall>x \<in> set (queue @ ?new). n \<le> length (snd x))"
    proof (intro allI impI ballI)
      fix d n x assume n: "bt_get (bt_insert c (length p) shortest) d = Some n"
        and x: "x \<in> set (queue @ ?new)"
      have ge: "length p \<le> length (snd x)" using x lens new by auto
      show "n \<le> length (snd x)"
      proof (cases "d = c")
        case False
        then have "n \<le> length p" using n inv unfolding searching_def by auto
        then show ?thesis using ge by simp
      qed (use n ge in simp)
    qed
    show "\<forall>d. bt_get (bt_insert c (length p) shortest) d = None \<longleftrightarrow>
        known_paths (bt_insert c (bs_insert p (known_paths paths c)) paths) d = []"
      using inv unfolding searching_def by auto
    show "\<forall>d. \<forall>q \<in> set (known_paths (bt_insert c (bs_insert p (known_paths paths c)) paths) d).
        chain packages roots q \<and> last q = d \<and> bt_get (bt_insert c (length p) shortest) d = Some (length q)"
      using inv p same unfolding searching_def by (auto; blast)
    show "\<forall>cs. shortest_chain packages roots cs \<longrightarrow>
        cs \<in> set (known_paths (bt_insert c (bs_insert p (known_paths paths c)) paths) (last cs)) \<or>
        (\<exists>(d, q) \<in> set (queue @ ?new). prefix q cs)"
    proof (intro allI impI)
      fix cs assume cs: "shortest_chain packages roots cs"
      have "cs \<in> set (known_paths paths (last cs)) \<or> (\<exists>(d, q) \<in> set ((c, p) # queue). prefix q cs)"
        using inv cs unfolding searching_def by blast
      then consider "cs \<in> set (known_paths paths (last cs))" | "prefix p cs"
        | d q where "(d, q) \<in> set queue" "prefix q cs"
        by auto
      then show "cs \<in> set (known_paths (bt_insert c (bs_insert p (known_paths paths c)) paths) (last cs)) \<or>
        (\<exists>(d, q) \<in> set (queue @ ?new). prefix q cs)"
      proof cases
        case 2
        from searching_complete [OF inv cs 2] show ?thesis using p(2) by auto
      qed auto
    qed
  qed
qed

lemma paths_loop_ok:
  "searching packages roots queue shortest paths \<Longrightarrow>
     \<exists>s. searching packages roots [] s (paths_loop packages queue shortest paths)"
proof (induction packages queue shortest paths rule: paths_loop.induct)
  case (2 packages c path queue shortest paths)
  then show ?case using searching_skip searching_visit by (cases "too_long shortest c path") simp_all
qed auto

lemma searching_start: "searching (packages_by_coordinate lock) (locked_root_dependencies lock) (root_paths lock) [] []"
  unfolding searching_def root_paths_def
proof (intro conjI)
  let ?roots = "locked_root_dependencies lock"
  show "sorted (map (length \<circ> snd) (map (\<lambda>r. (r, [r])) ?roots))"
    by (rule sorted_replicate_append [of "[]" 1, simplified]) auto
  show "\<forall>cs. shortest_chain (packages_by_coordinate lock) ?roots cs \<longrightarrow>
      cs \<in> set (known_paths [] (last cs)) \<or> (\<exists>(c, p) \<in> set (map (\<lambda>r. (r, [r])) ?roots). prefix p cs)"
  proof (intro allI impI disjI2)
    fix cs assume "shortest_chain (packages_by_coordinate lock) ?roots cs"
    then obtain r rest where "cs = r # rest" "r \<in> set ?roots"
      by (cases cs) (auto simp: shortest_chain_def chain_def)
    then show "\<exists>(c, p) \<in> set (map (\<lambda>r. (r, [r])) ?roots). prefix p cs" by force
  qed
qed (auto simp: chain_def known_paths_def)

text \<open>
  C23: The dependency paths an audit reports are exactly the shortest ones. A list
  of coordinates is recorded for a package just when it is a chain from a root of the lockfile, each
  package depending on the next, that ends at the package, and no such chain is shorter; a package
  has an entry just when some chain leads to it.
\<close>

theorem audit_paths_exact:
  "let packages = packages_by_coordinate lock; roots = locked_root_dependencies lock;
       paths = shortest_dependency_paths lock
   in (\<forall>c cs. cs \<in> set (known_paths paths c) \<longleftrightarrow> shortest_chain packages roots cs \<and> last cs = c) \<and>
      (\<forall>c. known_paths paths c \<noteq> [] \<longleftrightarrow> (\<exists>cs. chain packages roots cs \<and> last cs = c))"
proof -
  let ?packages = "packages_by_coordinate lock"
  let ?roots = "locked_root_dependencies lock"
  let ?paths = "shortest_dependency_paths lock"
  obtain s where inv: "searching ?packages ?roots [] s ?paths"
    using paths_loop_ok [OF searching_start] by (auto simp: shortest_dependency_paths_def)
  have iff: "cs \<in> set (known_paths ?paths c) \<longleftrightarrow> shortest_chain ?packages ?roots cs \<and> last cs = c" for c cs
  proof
    assume cs: "cs \<in> set (known_paths ?paths c)"
    then have "chain ?packages ?roots cs" "last cs = c" "bt_get s c = Some (length cs)"
      using inv unfolding searching_def by auto
    then show "shortest_chain ?packages ?roots cs \<and> last cs = c"
      using searching_minimal [OF inv] by (auto simp: shortest_chain_def)
  next
    assume "shortest_chain ?packages ?roots cs \<and> last cs = c"
    then show "cs \<in> set (known_paths ?paths c)" using inv unfolding searching_def by auto
  qed
  have "known_paths ?paths c \<noteq> [] \<longleftrightarrow> (\<exists>cs. chain ?packages ?roots cs \<and> last cs = c)" for c
  proof
    assume "known_paths ?paths c \<noteq> []"
    then obtain cs where "cs \<in> set (known_paths ?paths c)" by (cases "known_paths ?paths c") auto
    then show "\<exists>cs. chain ?packages ?roots cs \<and> last cs = c"
      using iff by (auto simp: shortest_chain_def)
  next
    assume "\<exists>cs. chain ?packages ?roots cs \<and> last cs = c"
    then obtain ds where "shortest_chain ?packages ?roots ds" "last ds = c" using shortest_exists by metis
    then have "ds \<in> set (known_paths ?paths c)" using iff by blast
    then show "known_paths ?paths c \<noteq> []" by auto
  qed
  with iff show ?thesis by (simp add: Let_def)
qed

end
