(* ===== verification/Project_Commands.thy ===== *)
theory Project_Commands
  imports Project_Sync Versions
begin

text \<open>
  The commands of \<open>crates/jman-cli/src/main.rs\<close> that change a project: adding, removing and
  updating dependencies, the report of outdated ones, and the import of a Maven reactor, each with
  what it takes back when a later step fails.
\<close>

section \<open>Files\<close>

definition bt_remove :: "'k \<Rightarrow> ('k, 'v) btree_map \<Rightarrow> ('k, 'v) btree_map" where
  "bt_remove k m = filter (\<lambda>(k', _). k' \<noteq> k) m"

definition put_file :: "cli_env \<Rightarrow> path \<Rightarrow> str \<Rightarrow> unit command" where
  "put_file env p bytes s =
     Some (case write_fault (faults (renv env)) p of
         Some (e, left) \<Rightarrow> (Inl (SystemCause e), s\<lparr>cs_disk := failed_write (cs_disk s) p left\<rparr>)
       | None \<Rightarrow> (Inr (), s\<lparr>cs_disk := (cs_disk s)(p \<mapsto> Bytes bytes)\<rparr>))"

definition move_file :: "cli_env \<Rightarrow> path \<Rightarrow> path \<Rightarrow> unit command" where
  "move_file env origin target s =
     Some (case rename_fault (faults (renv env)) target of
         Some e \<Rightarrow> (Inl (SystemCause e), s)
       | None \<Rightarrow>
           if cs_disk s origin = None then (Inl (SystemCause ''not found''), s)
           else (Inr (), s\<lparr>cs_disk := (cs_disk s)(origin := None, target := cs_disk s origin)\<rparr>))"

text \<open>\<open>remove_file\<close>: \<open>None\<close> when there is no such file.\<close>

definition remove_file :: "cli_env \<Rightarrow> path \<Rightarrow> unit option command" where
  "remove_file env p s =
     Some (if cs_disk s p = None then (Inr None, s)
       else (case ce_remove_fault env p of
           Some e \<Rightarrow> (Inl (SystemCause e), s)
         | None \<Rightarrow> (Inr (Some ()), s\<lparr>cs_disk := (cs_disk s)(p := None)\<rparr>)))"

definition remove_quietly :: "cli_env \<Rightarrow> path \<Rightarrow> unit command" where
  "remove_quietly env p = cmd_bind (cmd_try (remove_file env p)) (\<lambda>_. cmd_of (Inr ()))"

definition text_at :: "cli_env \<Rightarrow> path \<Rightarrow> str command" where
  "text_at env p = cmd_reads (\<lambda>d. with_context (could_not_read p) (map_err ConfigCause (read_to_string d p)))"

definition manifest_of :: "cli_env \<Rightarrow> path \<Rightarrow> manifest command" where
  "manifest_of env target = cmd_reads (\<lambda>d. cli_manifest env d (could_not_read (path_join target manifest_name)) target)"

definition manifest_text_of :: "cli_env \<Rightarrow> manifest \<Rightarrow> str command" where
  "manifest_text_of env m =
     cmd_of (with_context ''could not serialize jman.toml'' (map_err ConfigCause (manifest_to_toml (ce_codec env) m)))"

definition is_present :: "cli_env \<Rightarrow> path \<Rightarrow> str \<Rightarrow> unit command" where
  "is_present env target what = cmd_reads (\<lambda>d.
     if is_file d (path_join target manifest_name) then Inr ()
     else Inl (Bail (''cannot '' @ what @ '' '' @ show_path target @ '': jman.toml was not found'')))"

section \<open>Adding and removing dependencies\<close>

datatype declared_scope = InCompile | InRuntime | InProvided | InTest | InProcessor

definition scope_name :: "declared_scope \<Rightarrow> str" where
  "scope_name s =
     (case s of InCompile \<Rightarrow> ''compile'' | InRuntime \<Rightarrow> ''runtime'' | InProvided \<Rightarrow> ''provided''
      | InTest \<Rightarrow> ''test'' | InProcessor \<Rightarrow> ''processor'')"

definition maven_dependency_scope :: "str \<Rightarrow> declared_scope cli" where
  "maven_dependency_scope s =
     (if s = ''compile'' then Inr InCompile
      else if s = ''runtime'' then Inr InRuntime
      else if s = ''provided'' \<or> s = ''system'' then Inr InProvided
      else if s = ''test'' then Inr InTest
      else Inl (Bail (''unsupported Maven dependency scope '' @ ticked s)))"

definition declare_dependency :: "declared_scope \<Rightarrow> str \<Rightarrow> dependency_spec \<Rightarrow> manifest \<Rightarrow> manifest" where
  "declare_dependency scope ga spec m =
     m\<lparr>mf_dependencies := update_scope (scope_name scope) (bt_insert ga spec) (mf_dependencies m)\<rparr>"

definition manifest_contains_dependency :: "manifest \<Rightarrow> str \<Rightarrow> bool" where
  "manifest_contains_dependency m coord \<longleftrightarrow>
     list_ex (\<lambda>(_, entries). bt_contains entries coord) (manifest_scopes (mf_dependencies m)) \<or>
     bt_contains (mf_annotation_processors m) coord"

definition parse_add_coordinate :: "str \<Rightarrow> (str \<times> str) cli" where
  "parse_add_coordinate value =
     and_then (ok_or (Bail (''dependency '' @ ticked value @ '' must use group:artifact@version notation''))
       (case rsplit_once (CHR ''@'') value of
          None \<Rightarrow> None
        | Some (ga, version) \<Rightarrow> if version \<noteq> [] then Some (ga, version) else None)) (\<lambda>(ga, version).
     and_then (split_ga ga) (\<lambda>_. Inr (ga, version)))"

text \<open>What \<open>jman add\<close> declares, with the version it shows.\<close>

definition added_spec :: "str \<Rightarrow> str option \<Rightarrow> declared_scope \<Rightarrow> (str \<times> dependency_spec \<times> str) cli" where
  "added_spec dep workspace_path scope =
     (case workspace_path of
        Some p \<Rightarrow>
          if scope = InProcessor
          then Inl (Bail ''annotation processors cannot be workspace path dependencies'')
          else and_then (split_ga dep) (\<lambda>_.
            if is_absolute (path_of p) \<or> p = []
            then Inl (Bail ''--workspace-path must be a non-empty relative path'')
            else (let p = replace_all [CHR 0x5C] ''/'' (utf8_lossy p)
                  in Inr (dep, PathSpec p, ''workspace:'' @ p)))
      | None \<Rightarrow>
          and_then (parse_add_coordinate dep) (\<lambda>(ga, version). Inr (ga, VersionSpec version, version)))"

definition add_declaration :: "declared_scope \<Rightarrow> str \<Rightarrow> dependency_spec \<Rightarrow> manifest \<Rightarrow> manifest" where
  "add_declaration scope ga spec m =
     (case (scope, spec) of
        (InProcessor, VersionSpec version) \<Rightarrow>
          m\<lparr>mf_annotation_processors := bt_insert ga version (mf_annotation_processors m)\<rparr>
      | _ \<Rightarrow> declare_dependency scope ga spec m)"

text \<open>
  The change of the manifest and the synchronisation after it; when that fails the old text is
  written back, and an error of that replaces the first one.
\<close>

definition change_manifest :: "cli_env \<Rightarrow> path \<Rightarrow> str \<Rightarrow> str \<Rightarrow> bool \<Rightarrow> str \<Rightarrow> unit command" where
  "change_manifest env target original updated offline what =
     cmd_bind (write_atomically env (path_join target manifest_name) updated) (\<lambda>_.
     cmd_bind (cmd_try (sync_project env target True offline)) (\<lambda>outcome.
     case outcome of
       Inr _ \<Rightarrow> cmd_of (Inr ())
     | Inl e \<Rightarrow>
         cmd_bind (\<lambda>s. map_option (\<lambda>(r, s'). (with_context
             ''dependency resolution failed and jman.toml could not be restored'' r, s'))
             (write_atomically env (path_join target manifest_name) original s)) (\<lambda>_.
         cmd_of (Inl (Context (''dependency was not '' @ what @ ''; jman.toml was restored'') e)))))"

definition add_dependency ::
    "cli_env \<Rightarrow> path \<Rightarrow> str \<Rightarrow> str option \<Rightarrow> declared_scope \<Rightarrow> bool \<Rightarrow> unit command" where
  "add_dependency env p dep workspace_path scope offline =
     cmd_bind (cmd_of (absolute_path env p)) (\<lambda>target.
     cmd_bind (text_at env (path_join target manifest_name)) (\<lambda>original.
     cmd_bind (manifest_of env target) (\<lambda>m.
     cmd_bind (cmd_of (added_spec dep workspace_path scope)) (\<lambda>(ga, spec, _).
     if manifest_contains_dependency m ga
     then cmd_of (Inl (Bail (''dependency '' @ ticked ga @
            '' is already declared; remove it before changing its scope'')))
     else
       (let changed = add_declaration scope ga spec m
        in cmd_bind (cmd_of (map_err ConfigCause (manifest_validate changed))) (\<lambda>_.
           cmd_bind (manifest_text_of env changed) (\<lambda>updated.
           change_manifest env target original updated offline ''added'')))))))"

definition without_dependency :: "str \<Rightarrow> manifest \<Rightarrow> manifest" where
  "without_dependency ga m =
     m\<lparr>mf_dependencies :=
         \<lparr>dp_compile = bt_remove ga (dp_compile (mf_dependencies m)),
          dp_runtime = bt_remove ga (dp_runtime (mf_dependencies m)),
          dp_provided = bt_remove ga (dp_provided (mf_dependencies m)),
          dp_test = bt_remove ga (dp_test (mf_dependencies m))\<rparr>,
       mf_annotation_processors := bt_remove ga (mf_annotation_processors m),
       mf_maven := map_option (\<lambda>maven. maven\<lparr>mv_dependencies :=
         fold (\<lambda>scope. bt_remove (scope @ '':'' @ ga)) [''compile'', ''runtime'', ''provided'', ''test'']
           (mv_dependencies maven)\<rparr>) (mf_maven m)\<rparr>"

definition remove_dependency :: "cli_env \<Rightarrow> path \<Rightarrow> str \<Rightarrow> bool \<Rightarrow> unit command" where
  "remove_dependency env p dep offline =
     cmd_bind (cmd_of (absolute_path env p)) (\<lambda>target.
     cmd_bind (text_at env (path_join target manifest_name)) (\<lambda>original.
     cmd_bind (manifest_of env target) (\<lambda>m.
     cmd_bind (cmd_of (split_ga dep)) (\<lambda>_.
     if \<not> manifest_contains_dependency m dep
     then cmd_of (Inl (Bail (''dependency '' @ ticked dep @ '' is not declared'')))
     else cmd_bind (manifest_text_of env (without_dependency dep m)) (\<lambda>updated.
          change_manifest env target original updated offline ''removed'')))))"

section \<open>Outdated dependencies\<close>

record outdated_request =
  or_dependency :: str
  or_current :: str
  or_scopes :: "str list"
  or_modules :: "str list"
  or_repositories :: "str list"

datatype outdated_status = Outdated | UpToDate | Unavailable

record outdated_dependency =
  od_dependency :: str
  od_current :: str
  od_status :: outdated_status
  od_updates :: version_updates
  od_scopes :: "str list"
  od_modules :: "str list"
  od_source :: "str option"
  od_error :: "cli_error option"

type_synonym outdated_requests = "(str \<times> str, outdated_request) btree_map"

definition declared_urls :: "manifest \<Rightarrow> str list" where
  "declared_urls m =
     (if mf_repositories m = [] then [maven_central_url] else map cr_url (mf_repositories m))"

text \<open>
  One declaration. The loop over the annotation processors pushes the central repository without
  looking whether it is there.
\<close>

definition request_for :: "manifest \<Rightarrow> str \<Rightarrow> str \<Rightarrow> str \<Rightarrow> outdated_requests \<Rightarrow> outdated_requests" where
  "request_for m scope dep current requests =
     (let r = (case bt_get requests (dep, current) of Some r \<Rightarrow> r
               | None \<Rightarrow> \<lparr>or_dependency = dep, or_current = current, or_scopes = [], or_modules = [],
                         or_repositories = []\<rparr>)
      in bt_insert (dep, current)
           (r\<lparr>or_scopes := bs_insert scope (or_scopes r),
              or_modules := bs_insert (pj_name (mf_project m)) (or_modules r),
              or_repositories :=
                (if scope = ''processor'' \<and> mf_repositories m = [] then or_repositories r @ [maven_central_url]
                 else push_missing (or_repositories r) (declared_urls m))\<rparr>) requests)"

definition requests_of :: "manifest \<Rightarrow> outdated_requests \<Rightarrow> outdated_requests" where
  "requests_of m requests =
     fold (\<lambda>(dep, current). request_for m ''processor'' dep current) (mf_annotation_processors m)
       (fold (\<lambda>(scope, dep, spec) rs. case dependency_spec_version spec of
            None \<Rightarrow> rs | Some current \<Rightarrow> request_for m scope dep current rs)
          (scoped_specs (mf_dependencies m)) requests)"

definition collect_outdated_requests :: "cli_env \<Rightarrow> path \<Rightarrow> outdated_requests command" where
  "collect_outdated_requests env root =
     cmd_bind (cmd_directories env root) (\<lambda>directories.
     cmd_bind (cmd_traverse (manifest_of env) directories) (\<lambda>ms.
     cmd_of (Inr (fold requests_of ms []))))"

definition validate_outdated_version :: "str \<Rightarrow> unit cli" where
  "validate_outdated_version version =
     (let normalized = uppercase (trim version)
      in if normalized = [] \<or> list_ex (\<lambda>c. c \<in> set ''[](),*'') normalized \<or>
            ends_with ''.+'' normalized \<or> contains ''${'' normalized \<or>
            normalized = ''LATEST'' \<or> normalized = ''RELEASE''
         then Inl (Bail (''dependency version '' @ ticked version @ '' is not an exact version''))
         else Inr ())"

definition redact_repository_source :: "str \<Rightarrow> str" where
  "redact_repository_source source =
     (case find_sub ''://'' source of
        None \<Rightarrow> source
      | Some i \<Rightarrow>
          (case rsplit_once (CHR ''@'') (drop (i + 3) source) of
             None \<Rightarrow> source
           | Some (_, host_and_path) \<Rightarrow> take i source @ ''://***@'' @ host_and_path))"

definition no_updates :: version_updates where
  "no_updates = \<lparr>vu_patch = None, vu_minor = None, vu_major = None, vu_latest = None, vu_change = None\<rparr>"

definition advertised_versions :: "version_catalog \<Rightarrow> str list" where
  "advertised_versions catalog =
     push_missing (vc_versions catalog) (List.map_filter id [vc_release catalog, vc_latest catalog])"

definition cmd_client :: "'a client_step \<Rightarrow> str \<Rightarrow> 'a command" where
  "cmd_client m c s = (case m s of (r, s') \<Rightarrow> Some (with_context c (map_err ResolverCause r), s'))"

definition outdated_updates :: "cli_env \<Rightarrow> outdated_request \<Rightarrow> bool \<Rightarrow> bool \<Rightarrow> (version_updates \<times> str) command" where
  "outdated_updates env r offline include_prerelease =
     cmd_bind (cmd_of (split_ga (or_dependency r))) (\<lambda>(g, a).
     cmd_bind (cmd_of (validate_outdated_version (or_current r))) (\<lambda>_.
     cmd_bind (new_client env (or_repositories r) offline) (\<lambda>rv.
     cmd_bind (cmd_client (available_versions (rv_env rv) (rv_config rv) g a)
         ''could not load Maven version metadata'') (\<lambda>catalog.
     cmd_of (Inr (analyze_versions (or_current r) (advertised_versions catalog) include_prerelease,
                  vc_source catalog))))))"

definition check_outdated_dependency :: "cli_env \<Rightarrow> outdated_request \<Rightarrow> bool \<Rightarrow> bool \<Rightarrow> outdated_dependency command" where
  "check_outdated_dependency env r offline include_prerelease =
     cmd_bind (cmd_try (outdated_updates env r offline include_prerelease)) (\<lambda>outcome.
     cmd_of (Inr (case outcome of
         Inr (updates, source) \<Rightarrow>
           \<lparr>od_dependency = or_dependency r, od_current = or_current r,
            od_status = (if vu_latest updates \<noteq> None then Outdated else UpToDate),
            od_updates = updates, od_scopes = or_scopes r, od_modules = or_modules r,
            od_source = Some (redact_repository_source source), od_error = None\<rparr>
       | Inl e \<Rightarrow>
           \<lparr>od_dependency = or_dependency r, od_current = or_current r, od_status = Unavailable,
            od_updates = no_updates, od_scopes = or_scopes r, od_modules = or_modules r,
            od_source = None, od_error = Some e\<rparr>)))"

definition build_outdated_report :: "cli_env \<Rightarrow> outdated_requests \<Rightarrow> bool \<Rightarrow> bool \<Rightarrow> outdated_dependency list command" where
  "build_outdated_report env requests offline include_prerelease =
     cmd_bind (cmd_traverse (\<lambda>(_, r). check_outdated_dependency env r offline include_prerelease) requests)
       (\<lambda>ds. cmd_of (Inr (sort_key (\<lambda>d. [od_dependency d, od_current d]) ds)))"

definition outdated_counts :: "outdated_dependency list \<Rightarrow> nat \<times> nat \<times> nat \<times> nat" where
  "outdated_counts ds =
     (length ds, length (filter (\<lambda>d. od_status d = Outdated) ds),
      length (filter (\<lambda>d. od_status d = UpToDate) ds),
      length (filter (\<lambda>d. od_status d = Unavailable) ds))"

definition outdated_dependencies :: "cli_env \<Rightarrow> path \<Rightarrow> bool \<Rightarrow> bool \<Rightarrow> outdated_dependency list command" where
  "outdated_dependencies env p offline include_prerelease =
     cmd_bind (cmd_of (absolute_path env p)) (\<lambda>target.
     cmd_bind (is_present env target ''inspect'') (\<lambda>_.
     cmd_bind (cmd_reads (\<lambda>d. Inr (find_workspace_root env d target))) (\<lambda>root.
     cmd_bind (collect_outdated_requests env root) (\<lambda>requests.
     build_outdated_report env requests offline include_prerelease))))"

end
