(* ===== verification/Project_Changes.thy ===== *)
theory Project_Changes
  imports Project_Commands
begin

text \<open>
  \<open>jman update\<close> and the import of Maven reactors (\<open>crates/jman-cli/src/main.rs\<close>): plans, the
  snapshot of a workspace and its restoration, and the staged writing of generated files.
\<close>

section \<open>Update plans\<close>

datatype update_level = PatchLevel | MinorLevel | MajorLevel | LatestLevel

record dependency_update =
  du_dependency :: str
  du_from :: str
  du_to :: str
  du_change :: version_change
  du_scopes :: "str list"
  du_modules :: "str list"
  du_source :: "str option"

fun first_update :: "(str option \<times> version_change) list \<Rightarrow> (str \<times> version_change) option" where
  "first_update [] = None"
| "first_update ((None, _) # rest) = first_update rest"
| "first_update ((Some v, change) # rest) = Some (v, change)"

definition selected_update :: "version_updates \<Rightarrow> update_level \<Rightarrow> (str \<times> version_change) option" where
  "selected_update u level =
     (case level of
        PatchLevel \<Rightarrow> first_update [(vu_patch u, Patch)]
      | MinorLevel \<Rightarrow> first_update [(vu_minor u, Minor), (vu_patch u, Patch)]
      | MajorLevel \<Rightarrow> first_update [(vu_major u, Major), (vu_minor u, Minor), (vu_patch u, Patch)]
      | LatestLevel \<Rightarrow> (case (vu_latest u, vu_change u) of (Some v, Some c) \<Rightarrow> Some (v, c) | _ \<Rightarrow> None))"

definition select_dependency_update :: "outdated_dependency \<Rightarrow> update_level \<Rightarrow> dependency_update option" where
  "select_dependency_update d level =
     map_option (\<lambda>(version, change).
       \<lparr>du_dependency = od_dependency d, du_from = od_current d, du_to = version, du_change = change,
        du_scopes = od_scopes d, du_modules = od_modules d, du_source = od_source d\<rparr>)
       (selected_update (od_updates d) level)"

type_synonym version_plan = "(str \<times> str, str) btree_map"

definition planned_versions :: "dependency_update list \<Rightarrow> version_plan" where
  "planned_versions changes = bt_of_list (map (\<lambda>c. ((du_dependency c, du_from c), du_to c)) changes)"

definition updated_spec :: "version_plan \<Rightarrow> str \<times> dependency_spec \<Rightarrow> str \<times> dependency_spec" where
  "updated_spec versions = (\<lambda>(dep, spec).
     (dep, case spec of
        VersionSpec current \<Rightarrow>
          (case bt_get versions (dep, current) of Some v \<Rightarrow> VersionSpec v | None \<Rightarrow> spec)
      | PathSpec _ \<Rightarrow> spec))"

definition updated_processor :: "version_plan \<Rightarrow> str \<times> str \<Rightarrow> str \<times> str" where
  "updated_processor versions = (\<lambda>(dep, current).
     (dep, case bt_get versions (dep, current) of Some v \<Rightarrow> v | None \<Rightarrow> current))"

definition updated_manifest :: "version_plan \<Rightarrow> manifest \<Rightarrow> manifest" where
  "updated_manifest versions m =
     m\<lparr>mf_dependencies :=
         \<lparr>dp_compile = map (updated_spec versions) (dp_compile (mf_dependencies m)),
          dp_runtime = map (updated_spec versions) (dp_runtime (mf_dependencies m)),
          dp_provided = map (updated_spec versions) (dp_provided (mf_dependencies m)),
          dp_test = map (updated_spec versions) (dp_test (mf_dependencies m))\<rparr>,
       mf_annotation_processors := map (updated_processor versions) (mf_annotation_processors m)\<rparr>"

text \<open>Whether an entry is in the plan, even one that sets the version it has.\<close>

definition is_planned :: "version_plan \<Rightarrow> manifest \<Rightarrow> bool" where
  "is_planned versions m \<longleftrightarrow>
     list_ex (\<lambda>(_, dep, spec). case dependency_spec_version spec of
         None \<Rightarrow> False | Some current \<Rightarrow> bt_contains versions (dep, current)) (scoped_specs (mf_dependencies m)) \<or>
     list_ex (bt_contains versions) (mf_annotation_processors m)"

definition update_module :: "cli_env \<Rightarrow> version_plan \<Rightarrow> path \<Rightarrow> unit command" where
  "update_module env versions directory =
     cmd_bind (manifest_of env directory) (\<lambda>m.
     if \<not> is_planned versions m then cmd_of (Inr ())
     else cmd_bind (manifest_text_of env (updated_manifest versions m)) (\<lambda>updated.
          write_atomically env (path_join directory manifest_name) updated))"

definition apply_dependency_update_plan :: "cli_env \<Rightarrow> path list \<Rightarrow> dependency_update list \<Rightarrow> unit command" where
  "apply_dependency_update_plan env directories changes =
     cmd_bind (cmd_traverse (update_module env (planned_versions changes)) directories) (\<lambda>_. cmd_of (Inr ()))"

section \<open>Snapshots\<close>

type_synonym file_snapshot = "path \<times> str option"

definition snapshot_file_of :: "disk \<Rightarrow> path \<Rightarrow> file_snapshot cli" where
  "snapshot_file_of d p =
     (case read_file d p of
        Inl NotFound \<Rightarrow> Inr (p, None)
      | Inl (ReadFailed e) \<Rightarrow> Inl (Context (''could not snapshot '' @ show_path p) (SystemCause e))
      | Inr bytes \<Rightarrow>
          if utf8_valid bytes then Inr (p, Some bytes)
          else Inl (Context (''could not snapshot '' @ show_path p)
                 (SystemCause ''stream did not contain valid UTF-8'')))"

definition workspace_files :: "path list \<Rightarrow> path list" where
  "workspace_files directories =
     concat (map (\<lambda>directory. [path_join directory manifest_name, path_join directory lock_file_name]) directories)"

definition snapshot_workspace_files :: "path list \<Rightarrow> file_snapshot list command" where
  "snapshot_workspace_files directories =
     cmd_reads (\<lambda>d. traverse (snapshot_file_of d) (workspace_files directories))"

definition restore_file :: "cli_env \<Rightarrow> file_snapshot \<Rightarrow> unit command" where
  "restore_file env = (\<lambda>(p, contents).
     case contents of
       Some bytes \<Rightarrow> write_atomically env p bytes
     | None \<Rightarrow>
         (\<lambda>s. map_option (\<lambda>(r, s'). (with_context (''could not remove generated '' @ show_path p)
             (and_then r (\<lambda>_. Inr ())), s')) (remove_file env p s)))"

fun restore_workspace_files :: "cli_env \<Rightarrow> file_snapshot list \<Rightarrow> unit command" where
  "restore_workspace_files env [] = cmd_of (Inr ())"
| "restore_workspace_files env (x # xs) =
     cmd_bind (restore_file env x) (\<lambda>_. restore_workspace_files env xs)"

text \<open>The plan applied and synchronised; a failure restores every file of the snapshot.\<close>

definition apply_with_restore ::
    "cli_env \<Rightarrow> path \<Rightarrow> path list \<Rightarrow> dependency_update list \<Rightarrow> bool \<Rightarrow> unit command" where
  "apply_with_restore env root directories changes offline =
     cmd_bind (snapshot_workspace_files directories) (\<lambda>snapshots.
     cmd_bind (cmd_try (cmd_bind (apply_dependency_update_plan env directories changes)
         (\<lambda>_. sync_project env root True offline))) (\<lambda>outcome.
     case outcome of
       Inr _ \<Rightarrow> cmd_of (Inr ())
     | Inl e \<Rightarrow>
         cmd_bind (cmd_try (restore_workspace_files env snapshots)) (\<lambda>restored.
         cmd_of (Inl (case restored of
             Inl r \<Rightarrow> Context ''dependency update failed; workspace restoration also failed'' e
           | Inr _ \<Rightarrow> Context ''dependency update failed and workspace files were restored'' e)))))"

text \<open>The text of the cause that follows in brackets is left out.\<close>

definition unavailable_text :: "outdated_dependency \<Rightarrow> str" where
  "unavailable_text d = od_dependency d @ ''@'' @ od_current d"

text \<open>The command: the changes and whether they were applied.\<close>

definition update_dependencies ::
    "cli_env \<Rightarrow> path \<Rightarrow> str option \<Rightarrow> update_level \<Rightarrow> bool \<Rightarrow> bool \<Rightarrow> bool \<Rightarrow>
     (dependency_update list \<times> bool) command" where
  "update_dependencies env p only level dry_run include_prerelease offline =
     cmd_bind (cmd_of (absolute_path env p)) (\<lambda>target.
     cmd_bind (is_present env target ''update'') (\<lambda>_.
     cmd_bind (cmd_of (case only of None \<Rightarrow> Inr () | Some dep \<Rightarrow> and_then (split_ga dep) (\<lambda>_. Inr ()))) (\<lambda>_.
     cmd_bind (cmd_reads (\<lambda>d. Inr (find_workspace_root env d target))) (\<lambda>root.
     cmd_bind (collect_outdated_requests env root) (\<lambda>requests.
     cmd_bind (build_outdated_report env requests offline include_prerelease) (\<lambda>all.
     let outdated = (case only of None \<Rightarrow> all | Some dep \<Rightarrow> filter (\<lambda>d. od_dependency d = dep) all);
         unavailable = filter (\<lambda>d. od_status d = Unavailable) outdated;
         changes = List.map_filter (\<lambda>d. select_dependency_update d level) outdated
     in if only \<noteq> None \<and> outdated = []
        then cmd_of (Inl (Bail (''external dependency '' @ ticked (the only) @
               '' is not declared in this workspace'')))
        else if unavailable \<noteq> []
        then cmd_of (Inl (Bail (''cannot create a complete update plan: '' @
               join_with ''; '' (map unavailable_text unavailable))))
        else if dry_run \<or> changes = [] then cmd_of (Inr (changes, False))
        else cmd_bind (cmd_directories env root) (\<lambda>directories.
             cmd_bind (apply_with_restore env root directories changes offline) (\<lambda>_.
             cmd_of (Inr (changes, True))))))))))"

section \<open>Importing a Maven reactor\<close>

datatype maven_model_source = WrapperSource path | SystemSource path | NativeSource

definition source_executable :: "maven_model_source \<Rightarrow> path option" where
  "source_executable s =
     (case s of WrapperSource p \<Rightarrow> Some p | SystemSource p \<Rightarrow> Some p | NativeSource \<Rightarrow> None)"

text \<open>The wrapper of the project, else \<open>mvn\<close> on the search path (Unix names).\<close>

definition select_maven_model_source :: "disk \<Rightarrow> path \<Rightarrow> str option \<Rightarrow> maven_model_source" where
  "select_maven_model_source d root search =
     (if is_file d (path_join root (path_of ''mvnw'')) then WrapperSource (path_join root (path_of ''mvnw''))
      else (case List.find (is_file d) (map (\<lambda>dir. path_join (path_of dir) (path_of ''mvn''))
                  (case search of None \<Rightarrow> [] | Some s \<Rightarrow> split_char (CHR '':'') s)) of
              Some p \<Rightarrow> SystemSource p
            | None \<Rightarrow> NativeSource))"

definition is_module_of :: "dependency \<Rightarrow> maven_project \<Rightarrow> bool" where
  "is_module_of dep p \<longleftrightarrow>
     c_group (e_coordinate (mp_effective p)) = d_group dep \<and>
     c_artifact (e_coordinate (mp_effective p)) = d_artifact dep \<and>
     d_version dep = Some (c_version (e_coordinate (mp_effective p)))"

definition no_parent :: cli_error where
  "no_parent = Bail ''Maven module POM has no parent directory''"

text \<open>Dependencies on modules become dependencies on paths.\<close>

fun link_dependencies ::
    "cli_env \<Rightarrow> disk \<Rightarrow> maven_project list \<Rightarrow> path \<Rightarrow> dependency list \<Rightarrow> manifest \<Rightarrow> manifest cli" where
  "link_dependencies env d projects directory [] m = Inr m"
| "link_dependencies env d projects directory (dep # deps) m =
     (case List.find (is_module_of dep) projects of
        None \<Rightarrow> link_dependencies env d projects directory deps m
      | Some module \<Rightarrow>
          and_then (ok_or no_parent (path_parent (mp_source module))) (\<lambda>module_directory.
          and_then (relative_workspace_path env d directory module_directory) (\<lambda>p.
          and_then (maven_dependency_scope (d_scope dep)) (\<lambda>scope.
          link_dependencies env d projects directory deps
            (declare_dependency scope (dependency_ga dep) (PathSpec p) m)))))"

type_synonym imported_module = "maven_project \<times> path \<times> manifest"

definition import_module_manifest ::
    "cli_env \<Rightarrow> disk \<Rightarrow> bool \<Rightarrow> maven_project list \<Rightarrow> maven_project \<Rightarrow> imported_module cli" where
  "import_module_manifest env d authoritative projects project =
     and_then (manifest_from_maven (mp_effective project) authoritative) (\<lambda>m.
     and_then (ok_or no_parent (path_parent (mp_source project))) (\<lambda>directory.
     and_then (link_dependencies env d projects directory (e_dependencies (mp_effective project)) m) (\<lambda>m.
     Inr (project, directory, m))))"

text \<open>A manifest that only names a toolchain hands it over and is replaced.\<close>

definition upgrade_toolchain :: "cli_env \<Rightarrow> disk \<Rightarrow> imported_module \<Rightarrow> (imported_module \<times> path list) cli" where
  "upgrade_toolchain env d = (\<lambda>(project, directory, m).
     (let p = path_join directory manifest_name
      in if \<not> is_file d p then Inr ((project, directory, m), [])
         else and_then (with_context (could_not_read p)
                (map_err ConfigCause (manifest_file_read (ce_codec env) d p))) (\<lambda>f.
              case f of
                ToolchainFile t \<Rightarrow> Inr ((project, directory, m\<lparr>mf_toolchain := Some (tm_toolchain t)\<rparr>), [p])
              | ProjectFile _ \<Rightarrow> Inr ((project, directory, m), []))))"

definition ensure_absent :: "disk \<Rightarrow> path \<Rightarrow> unit cli" where
  "ensure_absent d p =
     (if path_exists d p then Inl (Bail (''refusing to overwrite existing '' @ show_path p)) else Inr ())"

definition generated_input :: "cli_env \<Rightarrow> path \<Rightarrow> imported_module \<Rightarrow> (path \<times> str) cli" where
  "generated_input env root = (\<lambda>(_, directory, m).
     (let p = path_join directory manifest_name
      in and_then (with_context ''could not serialize imported manifest''
           (map_err ConfigCause (manifest_to_toml (ce_codec env) m))) (\<lambda>bytes.
         Inr (case path_strip_prefix root p of Some r \<Rightarrow> r | None \<Rightarrow> p, bytes))))"

definition hash_generated_manifests :: "cli_env \<Rightarrow> path \<Rightarrow> imported_module list \<Rightarrow> str cli" where
  "hash_generated_manifests env root ms =
     and_then (traverse (generated_input env root) ms) (\<lambda>inputs.
     Inr (sha256 (renv env) (manifest_hash_input inputs)))"

type_synonym generated_module = "path \<times> manifest \<times> str \<times> lockfile \<times> str"

definition generate_module ::
    "cli_env \<Rightarrow> resolver \<Rightarrow> maven_project list \<Rightarrow> str \<Rightarrow> imported_module \<Rightarrow> generated_module command" where
  "generate_module env rv projects workspace_hash = (\<lambda>(project, directory, m).
     cmd_bind (cmd_of (with_context ''could not generate jman.toml''
         (map_err ConfigCause (manifest_to_toml (ce_codec env) m)))) (\<lambda>manifest_text.
     cmd_bind (cmd_resolve env rv (mp_effective project) projects
         (''dependency resolution failed for '' @ coordinate_display (e_coordinate (mp_effective project)))) (\<lambda>g.
     cmd_bind (cmd_reads (\<lambda>d. workspace_dependencies_from_manifest env d directory m projects)) (\<lambda>edges.
     let lock = lock_from_graph (renv env) (ce_platform_id env) manifest_text workspace_hash
                  (pj_java_release (mf_project m)) edges g
     in cmd_bind (cmd_of (with_context ''could not generate jman.lock''
            (map_err ConfigCause (lockfile_to_toml (ce_codec env) lock)))) (\<lambda>lock_text.
        cmd_of (Inr (directory, m, manifest_text, lock, lock_text)))))))"

section \<open>Staged writing\<close>

definition staging_path :: "cli_env \<Rightarrow> path \<Rightarrow> path" where
  "staging_path env target =
     (case path_file_name target of
        None \<Rightarrow> target @ [Normal (''jman.tmp-'' @ show_nat (process_id (renv env)))]
      | Some name \<Rightarrow> butlast target @ [Normal (name @ ''.tmp-'' @ show_nat (process_id (renv env)))])"

fun remove_all :: "cli_env \<Rightarrow> path list \<Rightarrow> unit command" where
  "remove_all env [] = cmd_of (Inr ())"
| "remove_all env (p # ps) = cmd_bind (remove_quietly env p) (\<lambda>_. remove_all env ps)"

text \<open>The files are written next to their places; an error removes those already written.\<close>

fun stage_files :: "cli_env \<Rightarrow> (path \<times> str) list \<Rightarrow> path list \<Rightarrow> unit command" where
  "stage_files env [] staged = cmd_of (Inr ())"
| "stage_files env ((target, bytes) # rest) staged =
     cmd_bind (cmd_try (put_file env (staging_path env target) bytes)) (\<lambda>outcome.
     case outcome of
       Inl e \<Rightarrow> cmd_bind (remove_all env staged) (\<lambda>_.
          cmd_of (Inl (Context (''could not stage '' @ show_path target) e)))
     | Inr _ \<Rightarrow> stage_files env rest (staged @ [staging_path env target]))"

text \<open>The renames; an error removes what is staged and what has been put in place.\<close>

fun commit_files :: "cli_env \<Rightarrow> path list \<Rightarrow> path list \<Rightarrow> path list \<Rightarrow> unit command" where
  "commit_files env staged [] committed = cmd_of (Inr ())"
| "commit_files env staged (target # rest) committed =
     cmd_bind (cmd_try (move_file env (staging_path env target) target)) (\<lambda>outcome.
     case outcome of
       Inl e \<Rightarrow> cmd_bind (remove_all env staged) (\<lambda>_. cmd_bind (remove_all env committed) (\<lambda>_.
          cmd_of (Inl (Context (''could not commit '' @ show_path target) e))))
     | Inr _ \<Rightarrow> commit_files env staged rest (committed @ [target]))"

definition generated_files :: "generated_module list \<Rightarrow> (path \<times> str) list" where
  "generated_files generated =
     concat (map (\<lambda>(directory, _, manifest_text, _, lock_text).
       [(path_join directory manifest_name, manifest_text), (path_join directory lock_file_name, lock_text)])
       generated)"

definition write_files :: "cli_env \<Rightarrow> (path \<times> str) list \<Rightarrow> unit command" where
  "write_files env files =
     cmd_bind (stage_files env files []) (\<lambda>_.
     commit_files env (map (staging_path env \<circ> fst) files) (map fst files) [])"

definition write_workspace_atomically :: "cli_env \<Rightarrow> generated_module list \<Rightarrow> unit command" where
  "write_workspace_atomically env generated = write_files env (generated_files generated)"

definition cmd_build :: "'a resolve_step \<Rightarrow> str \<Rightarrow> 'a command" where
  "cmd_build m c s =
     map_option (\<lambda>(r, s'). (with_context c (map_err ResolverCause r), snd s')) (m (Map.empty, s))"

text \<open>
  The command; the argument \<open>export\<close> runs Maven and gives its effective model, \<open>search\<close> is the
  search path. The detected plugins are only shown, but a POM that cannot be inspected is an error.
\<close>

definition maven_projects ::
    "cli_env \<Rightarrow> (path \<Rightarrow> path \<Rightarrow> str cli) \<Rightarrow> path \<Rightarrow> path \<Rightarrow> maven_model_source \<Rightarrow> maven_project list command" where
  "maven_projects env export pom_path root source =
     cmd_bind (new_client_for env ''could not initialize Maven repository client'' [] False) (\<lambda>rv.
     case source_executable source of
       Some executable \<Rightarrow>
         cmd_bind (cmd_of (export executable root)) (\<lambda>model.
         cmd_build (import_effective_workspace rv model root) ''could not translate Maven's effective reactor'')
     | None \<Rightarrow>
         cmd_build (import_workspace (ce_fuel env) rv pom_path)
           ''could not construct the Maven reactor with JMAN's native importer'')"

definition inspect_plugins :: "cli_env \<Rightarrow> maven_project \<Rightarrow> str list command" where
  "inspect_plugins env project =
     cmd_bind (text_at env (mp_source project)) (\<lambda>xml.
     cmd_of (with_context (''could not inspect plugins in '' @ show_path (mp_source project))
       (map_err ResolverCause (plugin_coordinates (parse_xml (renv env)) xml))))"

definition import_maven ::
    "cli_env \<Rightarrow> (path \<Rightarrow> path \<Rightarrow> str cli) \<Rightarrow> str option \<Rightarrow> path \<Rightarrow> generated_module list command" where
  "import_maven env export search pom_path =
     cmd_bind (cmd_of (ok_or (Bail ''Maven reactor root POM has no parent directory'') (path_parent pom_path))) (\<lambda>pom_directory.
     cmd_bind (cmd_reads (\<lambda>d. Inr (select_maven_model_source d pom_directory search))) (\<lambda>source.
     cmd_bind (maven_projects env export pom_path pom_directory source) (\<lambda>projects.
     cmd_bind (cmd_traverse (inspect_plugins env) projects) (\<lambda>_.
     cmd_bind (cmd_of (and_then (ok_or (Bail ''Maven reactor did not contain a root project'')
           (case projects of [] \<Rightarrow> None | p # _ \<Rightarrow> Some p))
         (\<lambda>p. ok_or (Bail ''Maven reactor root POM has no parent directory'') (path_parent (mp_source p))))) (\<lambda>root.
     cmd_bind (cmd_reads (\<lambda>d. traverse (import_module_manifest env d (source_executable source \<noteq> None) projects)
         projects)) (\<lambda>ms.
     cmd_bind (cmd_reads (\<lambda>d. traverse (upgrade_toolchain env d) ms)) (\<lambda>upgrades.
     let ms = map fst upgrades; upgraded = concat (map snd upgrades)
     in cmd_bind (cmd_of (hash_generated_manifests env root ms)) (\<lambda>workspace_hash.
        cmd_bind (cmd_reads (\<lambda>d. check_all (\<lambda>(_, directory, _).
            and_then (if path_join directory manifest_name \<in> set upgraded then Inr ()
                      else ensure_absent d (path_join directory manifest_name))
              (\<lambda>_. ensure_absent d (path_join directory lock_file_name))) ms)) (\<lambda>_.
        cmd_bind (new_client env (bs_of_list (map cr_url (concat (map (\<lambda>(_, _, m). mf_repositories m) ms)))) False) (\<lambda>rv.
        cmd_bind (cmd_traverse (generate_module env rv projects workspace_hash) ms) (\<lambda>generated.
        cmd_bind (write_workspace_atomically env generated) (\<lambda>_.
        cmd_of (Inr generated)))))))))))))"

end
