(* ===== verification/Change_Facts.thy ===== *)
theory Change_Facts
  imports Project_Changes Project_Facts
begin

text \<open>
  What failing commands leave behind: a failed update restores the files of the workspace, and the
  staged writing of an import is all or nothing as long as its targets did not exist.
\<close>

section \<open>Commands\<close>

lemma cmd_bind_Some:
  "cmd_bind m f s = Some (r, s') \<longleftrightarrow>
     (\<exists>e. m s = Some (Inl e, s') \<and> r = Inl e) \<or> (\<exists>x s1. m s = Some (Inr x, s1) \<and> f x s1 = Some (r, s'))"
  by (auto simp: cmd_bind_def split: option.splits sum.splits prod.splits)

lemma cmd_simps [simp]:
  "cmd_of r s = Some (r, s)" "cmd_reads f s = Some (f (cs_disk s), s)"
  by (simp_all add: cmd_of_def cmd_reads_def)

lemma cmd_try_Some: "cmd_try m s = Some (r, s') \<longleftrightarrow> (\<exists>r'. m s = Some (r', s') \<and> r = Inr r')"
  by (auto simp: cmd_try_def)

section \<open>Restoring a snapshot\<close>

lemma workspace_file_parts:
  assumes "p \<in> set (workspace_files directories)"
  shows "\<exists>q n. p = q @ [Normal n] \<and> n \<in> {''jman.toml'', ''jman.lock''}"
proof -
  have names: "manifest_name = [Normal ''jman.toml'']" "lock_file_name = [Normal ''jman.lock'']" by code_simp+
  show ?thesis using assms by (auto simp: workspace_files_def names path_join_name)
qed

lemma temporary_not_workspace_file:
  assumes "p \<in> set (workspace_files directories)" "p' \<in> set (workspace_files directories)"
  shows "with_extension p (''tmp-'' @ e) \<noteq> p'"
proof -
  obtain q n where p: "p = q @ [Normal n]" "n \<in> {''jman.toml'', ''jman.lock''}"
    using workspace_file_parts [OF assms(1)] by blast
  obtain q' n' where p': "p' = q' @ [Normal n']" "n' \<in> {''jman.toml'', ''jman.lock''}"
    using workspace_file_parts [OF assms(2)] by blast
  have "file_stem n = ''jman''"
    using p(2) by (elim insertE emptyE) (simp_all add: file_stem_def, code_simp+)
  then have "with_extension p (''tmp-'' @ e) = q @ [Normal (''jman.tmp-'' @ e)]"
    by (simp add: with_extension_def p(1) path_file_name_def)
  then show ?thesis using p' by auto
qed

definition restored :: "disk \<Rightarrow> disk \<Rightarrow> path \<Rightarrow> bool" where
  "restored d d' p \<longleftrightarrow> read_file d' p = read_file d p"

lemma restore_file_ok:
  assumes run: "restore_file env (p, c) s = Some (Inr (), s')"
    and c: "snapshot_file_of d p = Inr (p, c)"
  shows "restored d (cs_disk s') p \<and>
    (\<forall>q. q \<noteq> p \<longrightarrow> q \<noteq> with_extension p (''tmp-'' @ show_nat (process_id (renv env))) \<longrightarrow>
       cs_disk s' q = cs_disk s q)"
proof (cases c)
  case None
  then have d: "read_file d p = Inl NotFound"
    using c by (auto simp: snapshot_file_of_def split: sum.splits read_error.splits if_splits)
  have "cs_disk s' p = None \<and> (\<forall>q. q \<noteq> p \<longrightarrow> cs_disk s' q = cs_disk s q)"
    using run None by (auto simp: restore_file_def remove_file_def with_context_def split: if_splits option.splits)
  then show ?thesis using d by (simp add: restored_def)
next
  case (Some b)
  then have d: "read_file d p = Inr b"
    using c by (auto simp: snapshot_file_of_def split: sum.splits read_error.splits if_splits)
  then show ?thesis
    using run Some by (auto simp: restore_file_def write_atomically_def restored_def Let_def split: option.splits)
qed

lemma restored_other: "cs_disk s' q = cs_disk s q \<Longrightarrow> restored d (cs_disk s) q \<Longrightarrow> restored d (cs_disk s') q"
  by (simp add: restored_def read_file_def)

lemma restore_workspace_ok:
  assumes "restore_workspace_files env snapshots s = Some (Inr (), s')"
    and "\<forall>x \<in> set snapshots. snapshot_file_of d (fst x) = Inr x \<and> fst x \<in> set (workspace_files directories)"
    and "\<forall>p \<in> set ps. restored d (cs_disk s) p \<and> p \<in> set (workspace_files directories)"
  shows "\<forall>p \<in> set ps \<union> fst ` set snapshots. restored d (cs_disk s') p"
  using assms
proof (induction snapshots arbitrary: s ps)
  case (Cons x xs)
  obtain p c where x: "x = (p, c)" by (cases x)
  obtain s1 where one: "restore_file env (p, c) s = Some (Inr (), s1)"
    and rest: "restore_workspace_files env xs s1 = Some (Inr (), s')"
    using Cons.prems(1) by (auto simp: cmd_bind_Some x)
  have p: "snapshot_file_of d p = Inr (p, c)" "p \<in> set (workspace_files directories)"
    using Cons.prems(2) by (auto simp: x)
  note ok = restore_file_ok [OF one p(1)]
  have "restored d (cs_disk s1) q" if "q \<in> set ps" for q
  proof (cases "q = p")
    case False
    have "cs_disk s1 q = cs_disk s q"
      using ok False temporary_not_workspace_file [OF p(2), of q] Cons.prems(3) that by metis
    then show ?thesis using Cons.prems(3) that restored_other by blast
  qed (use ok in simp)
  then have "\<forall>q \<in> set (p # ps). restored d (cs_disk s1) q \<and> q \<in> set (workspace_files directories)"
    using ok p(2) Cons.prems(3) by simp
  from Cons.IH [OF rest _ this] Cons.prems(2) show ?case by (simp add: x)
qed simp

lemma snapshot_error:
  "traverse (snapshot_file_of d) ps \<noteq> Inl (Context ''dependency update failed and workspace files were restored'' e)"
proof (induction ps)
  case (Cons p ps)
  have "snapshot_file_of d p \<noteq> Inl (Context ''dependency update failed and workspace files were restored'' e)"
    by (auto simp: snapshot_file_of_def split: sum.splits read_error.splits)
  with Cons.IH show ?case by (auto simp: and_then_def split: sum.splits)
qed simp

lemma cmd_reads_Some: "cmd_reads f s = Some (r, s') \<longleftrightarrow> r = f (cs_disk s) \<and> s' = s"
  by (auto simp: cmd_reads_def)

lemma cmd_of_Some: "cmd_of r s = Some (r', s') \<longleftrightarrow> r' = r \<and> s' = s"
  by (auto simp: cmd_of_def)

lemma bind_reads:
  "cmd_bind (cmd_reads f) g s = (case f (cs_disk s) of Inl e \<Rightarrow> Some (Inl e, s) | Inr x \<Rightarrow> g x s)"
  by (simp add: cmd_bind_def split: sum.splits)

lemma bind_try: "cmd_bind (cmd_try m) f s = (case m s of None \<Rightarrow> None | Some (r, s') \<Rightarrow> f r s')"
  by (simp add: cmd_bind_def cmd_try_def split: option.splits)

lemma failed_update_parts:
  assumes "apply_with_restore env root directories changes offline s =
      Some (Inl (Context ''dependency update failed and workspace files were restored'' e), s')"
  obtains snapshots s1 where
    "traverse (snapshot_file_of (cs_disk s)) (workspace_files directories) = Inr snapshots"
    "restore_workspace_files env snapshots s1 = Some (Inr (), s')"
proof -
  let ?update = "cmd_bind (apply_dependency_update_plan env directories changes) (\<lambda>_. sync_project env root True offline)"
  note run = assms [unfolded apply_with_restore_def snapshot_workspace_files_def bind_reads bind_try]
  obtain snapshots where snap: "traverse (snapshot_file_of (cs_disk s)) (workspace_files directories) = Inr snapshots"
    using run snapshot_error [of "cs_disk s" "workspace_files directories" e]
    by (cases "traverse (snapshot_file_of (cs_disk s)) (workspace_files directories)") simp_all
  obtain outcome s1 where update: "?update s = Some (outcome, s1)"
    using run by (cases "?update s") (auto simp: snap)
  obtain e' where outcome: "outcome = Inl e'"
    using run by (cases outcome) (simp_all add: snap update cmd_of_def)
  obtain r s2 where restore: "restore_workspace_files env snapshots s1 = Some (r, s2)"
    using run by (cases "restore_workspace_files env snapshots s1") (auto simp: snap update outcome bind_try)
  have "r = Inr () \<and> s2 = s'"
    using run by (cases r) (simp_all add: snap update outcome bind_try restore cmd_of_def)
  then show ?thesis using that snap restore by blast
qed

lemma snapshot_path: "snapshot_file_of d p = Inr x \<Longrightarrow> fst x = p"
  by (auto simp: snapshot_file_of_def split: sum.splits read_error.splits if_splits)

lemma list_all2_snapshots:
  assumes "list_all2 (\<lambda>p x. snapshot_file_of d p = Inr x) ps xs"
  shows "\<forall>x \<in> set xs. snapshot_file_of d (fst x) = Inr x \<and> fst x \<in> set ps"
  using assms by (induction rule: list_all2_induct) (auto dest: snapshot_path)

text \<open>
  C15: An update that fails leaves no trace in the files it may touch. When
  the command reports that the workspace was restored, every \<open>jman.toml\<close> and \<open>jman.lock\<close> of its
  modules reads as it did before, files that did not exist included, however far the new manifests
  and the synchronisation of the modules had come.
\<close>

theorem failed_update_restores:
  assumes "apply_with_restore env root directories changes offline s =
      Some (Inl (Context ''dependency update failed and workspace files were restored'' e), s')"
    and "p \<in> set (workspace_files directories)"
  shows "read_file (cs_disk s') p = read_file (cs_disk s) p"
proof -
  obtain snapshots s1 where snap: "traverse (snapshot_file_of (cs_disk s)) (workspace_files directories) = Inr snapshots"
    and undo: "restore_workspace_files env snapshots s1 = Some (Inr (), s')"
    by (rule failed_update_parts [OF assms(1)])
  have all: "list_all2 (\<lambda>p x. snapshot_file_of (cs_disk s) p = Inr x) (workspace_files directories) snapshots"
    using snap by (simp add: traverse_Inr_iff)
  then have paths: "map fst snapshots = workspace_files directories"
    by (induction rule: list_all2_induct) (simp_all add: snapshot_path)
  have "\<forall>x \<in> set snapshots. snapshot_file_of (cs_disk s) (fst x) = Inr x \<and> fst x \<in> set (workspace_files directories)"
    using list_all2_snapshots [OF all] .
  from restore_workspace_ok [OF undo this, of "[]"] have "\<forall>p \<in> set (map fst snapshots). restored (cs_disk s) (cs_disk s') p"
    by simp
  then show ?thesis using assms(2) by (simp add: paths restored_def)
qed

text \<open>Two modules, the second without a manifest: the first one is updated and taken back.\<close>

definition updated_sample :: "str \<Rightarrow> manifest" where
  "updated_sample v = sample_manifest\<lparr>mf_toolchain := None, mf_build := None, mf_audit := None,
     mf_scripts := [], mf_dependencies := \<lparr>dp_compile = [], dp_runtime = [], dp_provided = [], dp_test = []\<rparr>,
     mf_annotation_processors := [(''g:p'', v)]\<rparr>"

definition updating_cli :: cli_env where
  "updating_cli = two_modules_cli\<lparr>ce_codec := no_toml\<lparr>decode_probe := \<lambda>_. Inr True,
     decode_manifest := \<lambda>v. Inr (updated_sample v),
     encode_manifest := \<lambda>m. Inr (snd (hd (mf_annotation_processors m))),
     parse_document := \<lambda>_. Inr []\<rparr>\<rparr>"

definition updating_state :: client_state where
  "updating_state = sample_memory\<lparr>cs_disk := [[RootDir, Normal ''a'', Normal ''jman.toml''] \<mapsto> Bytes ''1'']\<rparr>"

definition updating_changes :: "dependency_update list" where
  "updating_changes = [\<lparr>du_dependency = ''g:p'', du_from = ''1'', du_to = ''2'', du_change = Major,
     du_scopes = [''processor''], du_modules = [''a''], du_source = None\<rparr>]"

definition updating_run :: "(unit cli \<times> client_state) option" where
  "updating_run = apply_with_restore updating_cli [RootDir]
     [[RootDir, Normal ''a''], [RootDir, Normal ''b'']] updating_changes False updating_state"

theorem failed_update_restores_witness:
  "case updating_run of
     Some (Inl (Context m e), s') \<Rightarrow>
       m = ''dependency update failed and workspace files were restored'' \<and>
       read_file (cs_disk s') [RootDir, Normal ''a'', Normal ''jman.toml''] = Inr ''1''
   | _ \<Rightarrow> False"
proof -
  let ?ds = "[[RootDir, Normal ''a''], [RootDir, Normal ''b'']]"
  let ?read = "traverse (snapshot_file_of (cs_disk updating_state)) (workspace_files ?ds)"
  have "case apply_dependency_update_plan updating_cli ?ds updating_changes updating_state of
      Some (Inl e, s1) \<Rightarrow> (case ?read of
          Inl _ \<Rightarrow> False
        | Inr snapshots \<Rightarrow> map_option (is_ok \<circ> fst) (restore_workspace_files updating_cli snapshots s1) = Some True)
    | _ \<Rightarrow> False"
    by code_simp
  then obtain e s1 snapshots s2 where
      plan: "apply_dependency_update_plan updating_cli ?ds updating_changes updating_state = Some (Inl e, s1)"
    and snap: "?read = Inr snapshots"
    and undo: "restore_workspace_files updating_cli snapshots s1 = Some (Inr (), s2)"
    by (auto simp: is_ok_iff split: option.split_asm prod.split_asm sum.split_asm)
  have run: "updating_run =
      Some (Inl (Context ''dependency update failed and workspace files were restored'' e), s2)"
    by (simp add: updating_run_def apply_with_restore_def snapshot_workspace_files_def bind_reads bind_try snap
        cmd_bind_def [of "apply_dependency_update_plan _ _ _"] plan undo cmd_of_def)
  have "[RootDir, Normal ''a'', Normal ''jman.toml''] \<in> set (workspace_files
      [[RootDir, Normal ''a''], [RootDir, Normal ''b'']])" by code_simp
  from failed_update_restores [OF run [unfolded updating_run_def] this]
  have "read_file (cs_disk s2) [RootDir, Normal ''a'', Normal ''jman.toml''] = Inr ''1''"
    by (simp add: updating_state_def read_file_def)
  then show ?thesis unfolding run by simp
qed

section \<open>Staged writing\<close>

lemma remove_all_ok:
  assumes "ce_remove_fault env = (\<lambda>_. None)"
  shows "remove_all env ps s = Some (Inr (), s\<lparr>cs_disk := cs_disk s |` (- set ps)\<rparr>)"
proof (induction ps arbitrary: s)
  case (Cons p ps)
  have "remove_quietly env p s = Some (Inr (), s\<lparr>cs_disk := (cs_disk s)(p := None)\<rparr>)"
    by (auto simp: remove_quietly_def cmd_bind_def cmd_try_def remove_file_def assms fun_upd_idem)
  moreover have "(cs_disk s)(p := None) |` (- set ps) = cs_disk s |` (- set (p # ps))"
    by (auto simp: restrict_map_def fun_eq_iff)
  ultimately show ?case using Cons.IH by (simp add: cmd_bind_def)
qed (simp add: restrict_map_def)

definition staged_disk :: "cli_env \<Rightarrow> (path \<times> str) list \<Rightarrow> disk \<Rightarrow> disk" where
  "staged_disk env files d = fold (\<lambda>(p, b) d. d(staging_path env p \<mapsto> Bytes b)) files d"

definition committed_disk :: "cli_env \<Rightarrow> path list \<Rightarrow> disk \<Rightarrow> disk" where
  "committed_disk env targets d =
     fold (\<lambda>p d. d(staging_path env p := None, p := d (staging_path env p))) targets d"

definition fault_free :: "cli_env \<Rightarrow> bool" where
  "fault_free env \<longleftrightarrow> write_fault (faults (renv env)) = (\<lambda>_. None) \<and> rename_fault (faults (renv env)) = (\<lambda>_. None)"

text \<open>What the write of one of the files may have left at its staging path when it failed.\<close>

definition leaves_part :: "cli_env \<Rightarrow> (path \<times> str) list \<Rightarrow> disk \<Rightarrow> disk \<Rightarrow> bool" where
  "leaves_part env files d d' \<longleftrightarrow>
     (\<exists>p \<in> fst ` set files. \<exists>e part. write_fault (faults (renv env)) (staging_path env p) = Some (e, Some part) \<and>
        d' = d(staging_path env p \<mapsto> Bytes part))"

lemma stage_files_result:
  assumes "ce_remove_fault env = (\<lambda>_. None)"
  shows "stage_files env files staged s = Some (Inr (), s\<lparr>cs_disk := staged_disk env files (cs_disk s)\<rparr>) \<or>
    \<not> fault_free env \<and> (\<exists>e A d. stage_files env files staged s = Some (Inl e, s\<lparr>cs_disk := d\<rparr>) \<and>
      set staged \<subseteq> A \<and> A \<subseteq> set staged \<union> staging_path env ` fst ` set files \<and>
      (d = cs_disk s |` (- A) \<or> leaves_part env files (cs_disk s |` (- A)) d))"
proof (induction files arbitrary: staged s)
  case (Cons f files)
  obtain p b where f: "f = (p, b)" by (cases f)
  let ?t = "staging_path env p"
  show ?case
  proof (cases "write_fault (faults (renv env)) ?t")
    case (Some w)
    obtain e left where w: "w = (e, left)" by (cases w)
    let ?d = "failed_write (cs_disk s) ?t left |` (- set staged)"
    have run: "stage_files env (f # files) staged s =
        Some (Inl (Context (''could not stage '' @ show_path p) (SystemCause e)), s\<lparr>cs_disk := ?d\<rparr>)"
      using Some by (simp add: f w cmd_bind_def cmd_try_def put_file_def remove_all_ok [OF assms] cmd_of_def)
    have "?d = cs_disk s |` (- set staged) \<or> leaves_part env (f # files) (cs_disk s |` (- set staged)) ?d"
    proof (cases left)
      case None
      then show ?thesis by (simp add: failed_write_def)
    next
      case part: (Some part)
      show ?thesis
      proof (cases "?t \<in> set staged")
        case True
        then show ?thesis by (auto simp: part failed_write_def restrict_map_def fun_eq_iff)
      next
        case False
        then have "?d = (cs_disk s |` (- set staged))(?t \<mapsto> Bytes part)"
          by (auto simp: part failed_write_def restrict_map_def fun_eq_iff)
        then show ?thesis using Some by (auto simp: leaves_part_def f w part)
      qed
    qed
    moreover have "\<not> fault_free env" using Some by (auto simp: fault_free_def)
    ultimately show ?thesis using run by blast
  next
    case None
    let ?s = "s\<lparr>cs_disk := (cs_disk s)(?t \<mapsto> Bytes b)\<rparr>"
    have step: "stage_files env (f # files) staged s = stage_files env files (staged @ [?t]) ?s"
      using None by (simp add: f cmd_bind_def cmd_try_def put_file_def)
    have same: "(cs_disk s)(?t \<mapsto> Bytes b) |` (- A) = cs_disk s |` (- A)" if "?t \<in> A" for A
      using that by (auto simp: restrict_map_def fun_eq_iff)
    from Cons.IH [of "staged @ [?t]" ?s] consider
        "stage_files env files (staged @ [?t]) ?s = Some (Inr (), ?s\<lparr>cs_disk := staged_disk env files (cs_disk ?s)\<rparr>)"
      | e A d where "\<not> fault_free env" "set (staged @ [?t]) \<subseteq> A" "A \<subseteq> set (staged @ [?t]) \<union> staging_path env ` fst ` set files"
          "stage_files env files (staged @ [?t]) ?s = Some (Inl e, ?s\<lparr>cs_disk := d\<rparr>)"
          "d = cs_disk ?s |` (- A) \<or> leaves_part env files (cs_disk ?s |` (- A)) d"
      by blast
    then show ?thesis
    proof cases
      case 1
      then show ?thesis unfolding step by (simp add: f staged_disk_def del: fun_upd_apply)
    next
      case (2 e A d)
      then have A: "?t \<in> A" "set staged \<subseteq> A" "A \<subseteq> set staged \<union> staging_path env ` fst ` set (f # files)" by (auto simp: f)
      have same': "cs_disk ?s |` (- A) = cs_disk s |` (- A)" using same [OF A(1)] by simp
      have "d = cs_disk s |` (- A) \<or> leaves_part env (f # files) (cs_disk s |` (- A)) d"
        using 2(5) unfolding same' by (auto simp: leaves_part_def)
      moreover have "stage_files env files (staged @ [?t]) ?s = Some (Inl e, s\<lparr>cs_disk := d\<rparr>)" using 2(4) by simp
      ultimately show ?thesis unfolding step using 2(1) A by blast
    qed
  qed
qed (simp add: cmd_of_def staged_disk_def)

lemma commit_files_result:
  assumes removal: "ce_remove_fault env = (\<lambda>_. None)"
  shows "(\<forall>p \<in> set targets. cs_disk s (staging_path env p) \<noteq> None) \<Longrightarrow>
    distinct (targets @ map (staging_path env) targets) \<Longrightarrow>
    staging_path env ` set targets \<subseteq> set staged \<Longrightarrow>
    commit_files env staged targets committed s =
      Some (Inr (), s\<lparr>cs_disk := committed_disk env targets (cs_disk s)\<rparr>) \<or>
    \<not> fault_free env \<and> (\<exists>e A. commit_files env staged targets committed s = Some (Inl e, s\<lparr>cs_disk := cs_disk s |` (- A)\<rparr>) \<and>
      set staged \<union> set committed \<subseteq> A \<and> A \<subseteq> set staged \<union> set committed \<union> set targets)"
proof (induction targets arbitrary: committed s)
  case (Cons p targets)
  let ?t = "staging_path env p"
  show ?case
  proof (cases "rename_fault (faults (renv env)) p")
    case (Some e)
    have "cs_disk s |` (- set staged) |` (- set committed) = cs_disk s |` (- (set staged \<union> set committed))"
      by (simp add: Compl_Un)
    then have "commit_files env staged (p # targets) committed s =
        Some (Inl (Context (''could not commit '' @ show_path p) (SystemCause e)),
          s\<lparr>cs_disk := cs_disk s |` (- (set staged \<union> set committed))\<rparr>)"
      using Some by (simp add: cmd_bind_def cmd_try_def move_file_def remove_all_ok [OF removal] cmd_of_def)
    moreover have "\<not> fault_free env" using Some by (auto simp: fault_free_def)
    ultimately show ?thesis by blast
  next
    case None
    let ?s = "s\<lparr>cs_disk := (cs_disk s)(?t := None, p := cs_disk s ?t)\<rparr>"
    have step: "commit_files env staged (p # targets) committed s = commit_files env staged targets (committed @ [p]) ?s"
      using None Cons.prems(1) by (auto simp: cmd_bind_def cmd_try_def move_file_def)
    have same: "(cs_disk s)(?t := None, p := cs_disk s ?t) |` (- A) = cs_disk s |` (- A)" if "?t \<in> A" "p \<in> A" for A
      using that by (auto simp: restrict_map_def fun_eq_iff)
    have "\<forall>q \<in> set targets. cs_disk ?s (staging_path env q) \<noteq> None"
      using Cons.prems(1,2) by (auto simp: image_iff)
    moreover have staged: "?t \<in> set staged" and "staging_path env ` set targets \<subseteq> set staged"
      and "distinct (targets @ map (staging_path env) targets)"
      using Cons.prems(2,3) by auto
    ultimately consider
        "commit_files env staged targets (committed @ [p]) ?s =
          Some (Inr (), ?s\<lparr>cs_disk := committed_disk env targets (cs_disk ?s)\<rparr>)"
      | e A where "\<not> fault_free env" "set staged \<union> set (committed @ [p]) \<subseteq> A" "A \<subseteq> set staged \<union> set (committed @ [p]) \<union> set targets"
          "commit_files env staged targets (committed @ [p]) ?s = Some (Inl e, ?s\<lparr>cs_disk := cs_disk ?s |` (- A)\<rparr>)"
      using Cons.IH [of ?s "committed @ [p]"] by blast
    then show ?thesis
    proof cases
      case 1
      then show ?thesis unfolding step by (simp add: committed_disk_def del: fun_upd_apply)
    next
      case (2 e A)
      then have A: "?t \<in> A" "p \<in> A" using staged by auto
      have "cs_disk ?s |` (- A) = cs_disk s |` (- A)" using same [OF A] by simp
      with 2(4) have "commit_files env staged targets (committed @ [p]) ?s = Some (Inl e, s\<lparr>cs_disk := cs_disk s |` (- A)\<rparr>)"
        by simp
      moreover have "set staged \<union> set committed \<subseteq> A" "A \<subseteq> set staged \<union> set committed \<union> set (p # targets)"
        using 2 by auto
      ultimately show ?thesis unfolding step using 2(1) by blast
    qed
  qed
qed (simp add: cmd_of_def committed_disk_def)

lemma staged_disk_other:
  "q \<notin> staging_path env ` fst ` set files \<Longrightarrow> staged_disk env files d q = d q"
  by (induction files arbitrary: d) (auto simp: staged_disk_def)

lemma staged_disk_at:
  "distinct (map (staging_path env \<circ> fst) files) \<Longrightarrow> (p, b) \<in> set files \<Longrightarrow>
   staged_disk env files d (staging_path env p) = Some (Bytes b)"
proof (induction files arbitrary: d)
  case (Cons f files)
  obtain q c where f: "f = (q, c)" by (cases f)
  show ?case
  proof (cases "(p, b) \<in> set files")
    case True
    then show ?thesis using Cons by (simp add: staged_disk_def f)
  next
    case False
    then have "q = p" "c = b" using Cons.prems(2) by (auto simp: f)
    then show ?thesis
      using Cons.prems(1) staged_disk_other [of "staging_path env p" env files]
      by (simp add: f staged_disk_def image_image)
  qed
qed simp

lemma committed_disk_at:
  "distinct (targets @ map (staging_path env) targets) \<Longrightarrow>
   committed_disk env targets d q =
     (if q \<in> set targets then d (staging_path env q)
      else if q \<in> staging_path env ` set targets then None else d q)"
proof (induction targets arbitrary: d)
  case (Cons p targets)
  have "q \<in> set targets \<Longrightarrow> staging_path env q \<noteq> p \<and> staging_path env q \<noteq> staging_path env p"
    using Cons.prems by (auto simp: image_iff)
  then show ?case using Cons by (auto simp: committed_disk_def)
qed (simp add: committed_disk_def)

lemma write_files_result:
  assumes removal: "ce_remove_fault env = (\<lambda>_. None)"
    and separate: "distinct (map fst files @ map (staging_path env \<circ> fst) files)"
    and absent: "\<forall>p \<in> fst ` set files. cs_disk s p = None \<and> cs_disk s (staging_path env p) = None"
  shows "write_files env files s =
      Some (Inr (), s\<lparr>cs_disk := cs_disk s ++ map_of (map (\<lambda>(p, b). (p, Bytes b)) files)\<rparr>) \<or>
    \<not> fault_free env \<and> (\<exists>e d. write_files env files s = Some (Inl e, s\<lparr>cs_disk := d\<rparr>) \<and>
       (d = cs_disk s \<or> leaves_part env files (cs_disk s) d))"
proof -
  let ?staged = "map (staging_path env \<circ> fst) files" and ?d = "staged_disk env files (cs_disk s)"
  have keep: "cs_disk s |` (- A) = cs_disk s" if "A \<subseteq> fst ` set files \<union> set ?staged" for A
  proof
    fix q show "(cs_disk s |` (- A)) q = cs_disk s q"
      using that absent by (cases "q \<in> A") (auto simp: restrict_map_def dest!: subsetD)
  qed
  have d_staged: "?d (staging_path env p) = Some (Bytes b)" if "(p, b) \<in> set files" for p b
    using that separate by (intro staged_disk_at) auto
  have d_keep: "?d |` (- A) = cs_disk s |` (- A)" if "set ?staged \<subseteq> A" for A
  proof
    fix q show "(?d |` (- A)) q = (cs_disk s |` (- A)) q"
      using that staged_disk_other [of q env files "cs_disk s"] by (cases "q \<in> A") (auto simp: restrict_map_def image_image)
  qed
  have d_commit: "committed_disk env (map fst files) ?d = cs_disk s ++ map_of (map (\<lambda>(p, b). (p, Bytes b)) files)"
  proof
    fix q
    have sep: "distinct (map fst files @ map (staging_path env) (map fst files))" using separate by simp
    have keys: "map fst (map (\<lambda>(p, b). (p, Bytes b)) files) = map fst files" by (induction files) auto
    show "committed_disk env (map fst files) ?d q = (cs_disk s ++ map_of (map (\<lambda>(p, b). (p, Bytes b)) files)) q"
    proof (cases "q \<in> fst ` set files")
      case True
      then obtain b where b: "(q, b) \<in> set files" by auto
      then have "(q, Bytes b) \<in> set (map (\<lambda>(p, b). (p, Bytes b)) files)" by force
      then have "map_of (map (\<lambda>(p, b). (p, Bytes b)) files) q = Some (Bytes b)"
        using separate keys by (metis distinct_append map_of_is_SomeI)
      then show ?thesis using b d_staged True by (simp add: committed_disk_at [OF sep] map_add_def)
    next
      case False
      then have "map_of (map (\<lambda>(p, b). (p, Bytes b)) files) q = None"
        using keys by (metis map_of_eq_None_iff list.set_map)
      then show ?thesis
        using False absent staged_disk_other [of q env files "cs_disk s"]
        by (auto simp: committed_disk_at [OF sep] map_add_def)
    qed
  qed
  show ?thesis
  proof (cases "\<exists>e A d. stage_files env files [] s = Some (Inl e, s\<lparr>cs_disk := d\<rparr>) \<and>
      \<not> fault_free env \<and> A \<subseteq> staging_path env ` fst ` set files \<and>
      (d = cs_disk s |` (- A) \<or> leaves_part env files (cs_disk s |` (- A)) d)")
    case True
    then obtain e A d where stage: "stage_files env files [] s = Some (Inl e, s\<lparr>cs_disk := d\<rparr>)"
      and A: "A \<subseteq> staging_path env ` fst ` set files" and "\<not> fault_free env"
      and "d = cs_disk s |` (- A) \<or> leaves_part env files (cs_disk s |` (- A)) d" by blast
    moreover have "cs_disk s |` (- A) = cs_disk s" by (rule keep) (use A in auto)
    moreover have "write_files env files s = Some (Inl e, s\<lparr>cs_disk := d\<rparr>)"
      by (simp add: write_files_def cmd_bind_def stage)
    ultimately show ?thesis by auto
  next
    case False
    then have stage: "stage_files env files [] s = Some (Inr (), s\<lparr>cs_disk := ?d\<rparr>)"
      using stage_files_result [OF removal, of files "[]" s] by (simp, blast)
    let ?s = "s\<lparr>cs_disk := ?d\<rparr>"
    have run: "write_files env files s = commit_files env ?staged (map fst files) [] ?s"
      by (simp add: write_files_def cmd_bind_def stage)
    have "\<forall>p \<in> set (map fst files). cs_disk ?s (staging_path env p) \<noteq> None"
      using d_staged by fastforce
    from commit_files_result [OF removal this, of ?staged "[]"] separate
    consider "write_files env files s = Some (Inr (), s\<lparr>cs_disk := committed_disk env (map fst files) ?d\<rparr>)"
      | e A where "\<not> fault_free env" "write_files env files s = Some (Inl e, s\<lparr>cs_disk := ?d |` (- A)\<rparr>)"
          "set ?staged \<subseteq> A" "A \<subseteq> set ?staged \<union> fst ` set files"
      by (auto simp: run image_image)
    then show ?thesis
    proof cases
      case 1
      then show ?thesis by (simp add: d_commit)
    next
      case 2
      then have "?d |` (- A) = cs_disk s" using keep [of A] d_keep [of A] by (simp add: Un_commute)
      with 2 have "write_files env files s = Some (Inl e, s\<lparr>cs_disk := cs_disk s\<rparr>)" by simp
      then show ?thesis using 2(1) by blast
    qed
  qed
qed

lemma generated_names: "manifest_name = [Normal ''jman.toml'']" "lock_file_name = [Normal ''jman.lock'']"
  by code_simp+

lemma staging_path_name: "staging_path env (q @ [Normal n]) = q @ [Normal (n @ ''.tmp-'' @ show_nat (process_id (renv env)))]"
  by (simp add: staging_path_def path_file_name_def)

lemma generated_files_separate:
  "distinct (map fst generated) \<Longrightarrow>
   distinct (map fst (generated_files generated) @ map (staging_path env \<circ> fst) (generated_files generated))"
proof -
  have targets: "map fst (generated_files gs) =
      concat (map (\<lambda>d. [d @ [Normal ''jman.toml''], d @ [Normal ''jman.lock'']]) (map fst gs))" for gs :: "generated_module list"
    by (induction gs) (auto simp: generated_files_def generated_names path_join_name)
  have staged: "map (staging_path env \<circ> fst) (generated_files gs) =
      map (staging_path env) (map fst (generated_files gs))" for gs by simp
  have all_distinct: "distinct ds \<Longrightarrow> distinct (concat (map (\<lambda>d. [d @ [Normal ''jman.toml''], d @ [Normal ''jman.lock'']]) ds))"
    for ds :: "path list"
    by (induction ds) auto
  have inj: "inj_on (staging_path env) (set (concat (map (\<lambda>d. [d @ [Normal ''jman.toml''], d @ [Normal ''jman.lock'']]) ds)))"
    for ds :: "path list"
    by (auto simp: inj_on_def staging_path_name)
  have apart: "set (concat (map (\<lambda>d. [d @ [Normal ''jman.toml''], d @ [Normal ''jman.lock'']]) ds)) \<inter>
      staging_path env ` set (concat (map (\<lambda>d. [d @ [Normal ''jman.toml''], d @ [Normal ''jman.lock'']]) ds)) = {}"
    for ds :: "path list"
    by (auto simp: staging_path_name)
  assume "distinct (map fst generated)"
  then show ?thesis
    unfolding staged targets distinct_append distinct_map [of "staging_path env"] set_map [of "staging_path env"]
    by (intro conjI all_distinct inj apart)
qed

text \<open>
  C16: The files an import generates are put in place all or none. If the
  modules have different directories, neither the files nor their staging paths exist, and files can
  be removed, either every file is in place with its contents and nothing else has changed, or a
  write or rename failed and the disk is as before, but for one staging path: a write that fails
  after it has opened the file leaves there what it has written, and this is not removed.
\<close>

theorem import_all_or_nothing:
  assumes "distinct (map fst generated)"
    and "ce_remove_fault env = (\<lambda>_. None)"
    and "\<forall>p \<in> fst ` set (generated_files generated). cs_disk s p = None \<and> cs_disk s (staging_path env p) = None"
  shows "write_workspace_atomically env generated s =
      Some (Inr (), s\<lparr>cs_disk := cs_disk s ++ map_of (map (\<lambda>(p, b). (p, Bytes b)) (generated_files generated))\<rparr>) \<or>
    \<not> fault_free env \<and> (\<exists>e d. write_workspace_atomically env generated s = Some (Inl e, s\<lparr>cs_disk := d\<rparr>) \<and>
      (d = cs_disk s \<or> leaves_part env (generated_files generated) (cs_disk s) d))"
  unfolding write_workspace_atomically_def
  by (rule write_files_result [OF assms(2) generated_files_separate [OF assms(1)] assms(3)])

lemma failed_second_rename:
  assumes "rename_fault (faults (renv env)) q = Some e" "rename_fault (faults (renv env)) p = None"
    and "write_fault (faults (renv env)) = (\<lambda>_. None)" "ce_remove_fault env = (\<lambda>_. None)"
    and "distinct [p, q, staging_path env p, staging_path env q]"
  shows "\<exists>e' s'. write_files env [(p, b), (q, c)] s = Some (Inl e', s') \<and> cs_disk s' p = None"
proof -
  let ?p = "staging_path env p" and ?q = "staging_path env q"
  have stage: "stage_files env [(p, b), (q, c)] [] s = Some (Inr (), s\<lparr>cs_disk := (cs_disk s)(?p \<mapsto> Bytes b, ?q \<mapsto> Bytes c)\<rparr>)"
    using assms(3) by (simp add: bind_try put_file_def cmd_of_def)
  have move: "move_file env ?p p s' = Some (Inr (), s'\<lparr>cs_disk := (cs_disk s')(?p := None, p := cs_disk s' ?p)\<rparr>)"
    if "cs_disk s' ?p \<noteq> None" for s'
    using assms(2) that by (simp add: move_file_def)
  have fail: "move_file env ?q q s' = Some (Inl (SystemCause e), s')" for s'
    using assms(1) by (simp add: move_file_def)
  show ?thesis
    using assms(5)
    by (simp add: write_files_def cmd_bind_def [of "stage_files _ _ _"] stage bind_try move fail
        cmd_bind_def [of "remove_all _ _"] remove_all_ok [OF assms(4)] cmd_of_def restrict_map_def
        del: stage_files.simps remove_all.simps)
qed

definition importing_cli :: "str option \<Rightarrow> cli_env" where
  "importing_cli fault = two_modules_cli\<lparr>ce_resolver := sample_resolver\<lparr>rv_env := sample_env\<lparr>faults :=
     no_faults\<lparr>rename_fault := \<lambda>p. if path_file_name p = Some ''jman.lock'' then fault else None\<rparr>\<rparr>\<rparr>\<rparr>"

definition sample_lock :: lockfile where
  "sample_lock = lock_from_graph sample_env ''linux-x86_64'' ''m'' [] 17 []
     \<lparr>rg_packages = [], rg_compile = [], rg_runtime = [], rg_test = [], rg_processor = []\<rparr>"

theorem import_all_or_nothing_witness:
  "\<exists>s'. write_workspace_atomically (importing_cli None)
       [([RootDir], sample_manifest, ''m'', sample_lock, ''l'')] sample_memory = Some (Inr (), s') \<and>
     cs_disk s' [RootDir, Normal ''jman.lock''] = Some (Bytes ''l'')"
proof -
  let ?g = "[([RootDir], sample_manifest, ''m'', sample_lock, ''l'')]"
  have files: "generated_files ?g = [([RootDir, Normal ''jman.toml''], ''m''), ([RootDir, Normal ''jman.lock''], ''l'')]"
    by (simp add: generated_files_def generated_names path_join_name)
  have "fault_free (importing_cli None)" by (auto simp: fault_free_def importing_cli_def)
  moreover have "ce_remove_fault (importing_cli None) = (\<lambda>_. None)" by (simp add: importing_cli_def two_modules_cli_def)
  moreover have "cs_disk sample_memory = Map.empty" by (simp add: sample_memory_def sample_client_def)
  ultimately show ?thesis
    using import_all_or_nothing [of ?g "importing_cli None" sample_memory] unfolding files by simp
qed

text \<open>
  A write that fails after it has opened its staging path leaves there what
  it has written: only the staging paths of the files before it are removed.
\<close>

theorem failed_stage_left:
  assumes "write_fault (faults (renv env)) (staging_path env (path_join directory manifest_name)) = Some (e, Some part)"
  shows "\<exists>e' s'. write_workspace_atomically env ((directory, m, manifest_text, lock, lock_text) # rest) s = Some (Inl e', s') \<and>
    cs_disk s' (staging_path env (path_join directory manifest_name)) = Some (Bytes part)"
  using assms
  by (simp add: write_workspace_atomically_def write_files_def generated_files_def cmd_bind_def cmd_try_def
      put_file_def failed_write_def cmd_of_def)

text \<open>
  A manifest that only names a toolchain may exist when an import
  starts and is replaced. When the rename of the lockfile after it fails, the rollback removes the
  new manifest and does not bring the old one back: the project is left without a manifest.
\<close>

theorem failed_import_deletes:
  assumes "rename_fault (faults (renv env)) (path_join directory lock_file_name) = Some e"
    and "rename_fault (faults (renv env)) (path_join directory manifest_name) = None"
    and "write_fault (faults (renv env)) = (\<lambda>_. None)"
    and "ce_remove_fault env = (\<lambda>_. None)"
  shows "\<exists>e' s'. write_workspace_atomically env [(directory, m, manifest_text, lock, lock_text)] s = Some (Inl e', s') \<and>
    cs_disk s' (path_join directory manifest_name) = None"
proof -
  define p q where "p = path_join directory manifest_name" and "q = path_join directory lock_file_name"
  have files: "generated_files [(directory, m, manifest_text, lock, lock_text)] = [(p, manifest_text), (q, lock_text)]"
    by (simp add: generated_files_def p_def q_def)
  have "distinct (map fst [(directory, m, manifest_text, lock, lock_text)])" by simp
  from generated_files_separate [OF this, of env] have separate: "distinct [p, q, staging_path env p, staging_path env q]"
    unfolding files by simp
  show ?thesis
    using failed_second_rename [OF _ _ assms(3,4) separate] assms(1,2)
    unfolding write_workspace_atomically_def files p_def [symmetric] q_def [symmetric] by blast
qed

theorem failed_import_deletes_witness:
  "\<exists>e' s'. write_workspace_atomically (importing_cli (Some ''full''))
       [([RootDir], sample_manifest, ''m'', sample_lock, ''l'')]
       (sample_memory\<lparr>cs_disk := [[RootDir, Normal ''jman.toml''] \<mapsto> Bytes ''toolchain'']\<rparr>) = Some (Inl e', s') \<and>
     cs_disk s' (path_join [RootDir] manifest_name) = None"
proof -
  have "path_file_name (path_join [RootDir] lock_file_name) = Some ''jman.lock''"
    "path_file_name (path_join [RootDir] manifest_name) = Some ''jman.toml''" by code_simp+
  then show ?thesis
    by (intro failed_import_deletes) (auto simp: importing_cli_def two_modules_cli_def no_faults_def)
qed

end
