(* ===== verification/Publish_Model.thy ===== *)
theory Publish_Model
  imports Build_Tools
begin

text \<open>
  The modules of a publication in \<open>crates/jman-publish/src/lib.rs\<close>: their discovery and order,
  the checks before anything is built, and the generated POM. The URL parser of the \<open>url\<close> crate
  is a parameter.
\<close>

section \<open>Errors and modules\<close>

datatype publish_error =
    PublishBail str
  | PublishConfig config_error
  | PublishBuild build_error
  | PublishSystem str
  | PublishContext str publish_error

type_synonym 'a published = "(publish_error, 'a) result"

definition publish_context :: "str \<Rightarrow> 'a published \<Rightarrow> 'a published" where
  "publish_context m r = map_err (PublishContext m) r"

record publish_module =
  pm_directory :: path
  pm_manifest :: manifest
  pm_dependencies :: "nat list"
  pm_workspace_root :: bool

definition published_name :: "publish_module \<Rightarrow> str" where
  "published_name m = pj_name (mf_project (pm_manifest m))"

section \<open>Discovery\<close>

text \<open>Directories are resolved when they are taken from the stack.\<close>

partial_function (option) publish_discover_loop ::
    "build_env \<Rightarrow> path \<Rightarrow> path list \<Rightarrow> path list \<Rightarrow> (path \<times> manifest) list \<Rightarrow>
     (path \<times> manifest) list published option" where
  "publish_discover_loop env root pending seen raw =
     (if pending = [] then Some (Inr raw)
      else (case be_canonical env (last pending) of
              Inl e \<Rightarrow> Some (Inl (PublishContext (''could not resolve module '' @ show_path (last pending))
                (PublishSystem e)))
            | Inr directory \<Rightarrow>
                if \<not> path_starts_with directory root
                then Some (Inl (PublishBail (''module '' @ show_path directory @
                       '' escapes workspace '' @ show_path root)))
                else if directory \<in> set seen
                then Some (Inl (PublishBail (''duplicate or cyclic module declaration at '' @
                       show_path directory)))
                else (case manifest_read (be_codec env) (be_disk env)
                             (path_join directory (path_of ''jman.toml'')) of
                        Inl e \<Rightarrow> Some (Inl (PublishConfig e))
                      | Inr m \<Rightarrow>
                          publish_discover_loop env root
                            (butlast pending @ map (\<lambda>child. path_join directory (path_of child))
                              (rev (pj_modules (mf_project m))))
                            (bs_insert directory seen) (raw @ [(directory, m)]))))"

declare publish_discover_loop.simps [code]

definition publish_scopes :: "manifest \<Rightarrow> (str \<times> str \<times> dependency_spec) list" where
  "publish_scopes m =
     concat (map (\<lambda>(scope, entries). map (Pair scope) entries)
       [(''compile'', dp_compile (mf_dependencies m)), (''runtime'', dp_runtime (mf_dependencies m)),
        (''provided'', dp_provided (mf_dependencies m)), (''test'', dp_test (mf_dependencies m))])"

definition manifest_ga :: "manifest \<Rightarrow> str" where
  "manifest_ga m = pj_group (mf_project m) @ '':'' @ pj_name (mf_project m)"

text \<open>The module a path dependency points to.\<close>

definition publish_dependency ::
    "build_env \<Rightarrow> (path \<times> manifest) list \<Rightarrow> path \<Rightarrow> manifest \<Rightarrow> str \<Rightarrow> str \<Rightarrow> nat published" where
  "publish_dependency env raw directory m coord relative =
     and_then (map_err (\<lambda>e. PublishContext (''could not resolve workspace dependency '' @ relative @
         '' from '' @ show_path directory) (PublishSystem e))
       (be_canonical env (path_join directory (path_of relative)))) (\<lambda>target.
     and_then (ok_or (PublishBail (''workspace dependency '' @ show_path target @ '' from '' @
         show_path directory @ '' is not a declared workspace module''))
       (bt_get (bt_of_list (zip (map fst raw) [0..<length raw])) target)) (\<lambda>index.
     if target = directory
     then Inl (PublishBail (''module '' @ ticked (pj_name (mf_project m)) @ '' cannot depend on itself''))
     else if coord \<noteq> manifest_ga (snd (raw ! index))
     then Inl (PublishBail (''workspace dependency '' @ ticked coord @ '' points to '' @
            ticked (manifest_ga (snd (raw ! index))) @ '' at '' @ show_path target))
     else Inr index))"

fun publish_dependencies ::
    "build_env \<Rightarrow> (path \<times> manifest) list \<Rightarrow> path \<Rightarrow> manifest \<Rightarrow> (str \<times> str \<times> dependency_spec) list \<Rightarrow>
     (nat, str) btree_map \<Rightarrow> nat list \<Rightarrow> nat list published" where
  "publish_dependencies env raw directory m [] targets found = Inr found"
| "publish_dependencies env raw directory m ((scope, coord, spec) # rest) targets found =
     (case dependency_spec_path spec of
        None \<Rightarrow> publish_dependencies env raw directory m rest targets found
      | Some relative \<Rightarrow>
          and_then (publish_dependency env raw directory m coord relative) (\<lambda>index.
          case bt_get targets index of
            Some previous \<Rightarrow>
              Inl (PublishBail (''workspace dependency '' @ ticked coord @ '' is declared in both '' @
                previous @ '' and '' @ scope @ '' scopes''))
          | None \<Rightarrow>
              publish_dependencies env raw directory m rest (bt_insert index scope targets) (found @ [index])))"

definition publish_module_of :: "build_env \<Rightarrow> path \<Rightarrow> (path \<times> manifest) list \<Rightarrow> path \<times> manifest \<Rightarrow> publish_module published" where
  "publish_module_of env root raw = (\<lambda>(directory, m).
     and_then (publish_dependencies env raw directory m (publish_scopes m) [] []) (\<lambda>found.
     Inr \<lparr>pm_directory = directory, pm_manifest = m, pm_dependencies = sort found,
          pm_workspace_root = (directory = root)\<rparr>))"

text \<open>Modules in an order in which each comes after those it depends on.\<close>

definition publish_ready :: "publish_module list \<Rightarrow> nat list \<Rightarrow> nat list \<Rightarrow> nat list" where
  "publish_ready modules remaining complete =
     filter (\<lambda>i. list_all (\<lambda>d. d \<in> set complete) (pm_dependencies (modules ! i))) remaining"

function order_loop :: "publish_module list \<Rightarrow> nat list \<Rightarrow> nat list \<Rightarrow> nat list \<Rightarrow> nat list published" where
  "order_loop modules remaining complete order =
     (if remaining = [] then Inr order
      else if publish_ready modules remaining complete = []
           then Inl (PublishBail ''module dependency cycle prevents publication'')
           else order_loop modules
                  (filter (\<lambda>i. i \<notin> set (publish_ready modules remaining complete)) remaining)
                  (fold bs_insert (publish_ready modules remaining complete) complete)
                  (order @ publish_ready modules remaining complete))"
  by pat_completeness auto
termination
proof (relation "measure (\<lambda>(_, remaining, _, _). length remaining)", goal_cases)
  case (2 modules remaining complete order)
  then obtain i where "i \<in> set (publish_ready modules remaining complete)"
    by (cases "publish_ready modules remaining complete") auto
  then have "i \<in> set remaining" "i \<in> set (publish_ready modules remaining complete)"
    by (auto simp: publish_ready_def)
  then show ?case by (simp add: length_filter_less)
qed simp

declare order_loop.simps [simp del]

definition topological_order :: "publish_module list \<Rightarrow> nat list published" where
  "topological_order modules = order_loop modules [0..<length modules] [] []"

definition publish_discover :: "build_env \<Rightarrow> path \<Rightarrow> publish_module list published option" where
  "publish_discover env root =
     map_option (\<lambda>r.
       and_then r (\<lambda>raw.
       and_then (traverse (publish_module_of env root raw) raw) (\<lambda>modules.
       and_then (topological_order modules) (\<lambda>order.
       Inr (map (nth modules) order)))))
       (publish_discover_loop env root [root] [] [])"

section \<open>Checks\<close>

text \<open>What is published to; credentials as the client sends them.\<close>

record repository_credentials =
  rc_username :: "str option"
  rc_password :: "str option"
  rc_token :: "str option"

text \<open>A URL of the \<open>url\<close> crate, with the parts the checks look at.\<close>

record target_url =
  tu_scheme :: str
  tu_username :: str
  tu_password :: "str option"
  tu_host :: str
  tu_path :: str
  tu_query :: "str option"
  tu_fragment :: "str option"

datatype publish_target =
    LocalTarget path
  | RepositoryTarget target_url repository_credentials bool
  | CentralTarget str bool target_url

definition validate_repository_segment :: "str \<Rightarrow> str \<Rightarrow> unit published" where
  "validate_repository_segment value label =
     ensure (value \<noteq> [] \<and> value \<noteq> ''.'' \<and> value \<noteq> ''..'' \<and>
         list_all (\<lambda>c. is_alnum c \<or> c \<in> set ''-._+'') value)
       (PublishBail (''publication '' @ label @ '' '' @ ticked value @
          '' is not a safe Maven repository path segment''))"

definition validate_http_url :: "(str \<Rightarrow> (str, target_url) result) \<Rightarrow> str \<Rightarrow> str \<Rightarrow> unit published" where
  "validate_http_url parse_url value name =
     and_then (map_err (\<lambda>e. PublishContext (''invalid publishing '' @ name @ '' '' @ ticked value)
         (PublishSystem e)) (parse_url value)) (\<lambda>url.
     ensure (tu_scheme url = ''http'' \<or> tu_scheme url = ''https'')
       (PublishBail (''publishing '' @ name @ '' must use HTTP or HTTPS'')))"

definition check_central_field :: "str \<Rightarrow> str \<times> str option \<Rightarrow> unit published" where
  "check_central_field module = (\<lambda>(name, value).
     ensure (case value of None \<Rightarrow> False | Some v \<Rightarrow> trim v \<noteq> [])
       (PublishBail (module @ '' requires publishing.'' @ name @ '' for Maven Central'')))"

definition validate_central_metadata ::
    "(str \<Rightarrow> (str, target_url) result) \<Rightarrow> publishing option \<Rightarrow> str \<Rightarrow> unit published" where
  "validate_central_metadata parse_url metadata module =
     and_then (ok_or (PublishBail (module @ '' requires [publishing] metadata for Maven Central'')) metadata)
       (\<lambda>metadata.
     and_then (check_all (check_central_field module)
       [(''name'', pb_name metadata), (''description'', pb_description metadata), (''url'', pb_url metadata)]) (\<lambda>_.
     and_then (ensure (pb_licenses metadata \<noteq> [])
       (PublishBail (module @ '' requires at least one publishing license for Maven Central''))) (\<lambda>_.
     and_then (ensure (pb_developers metadata \<noteq> [])
       (PublishBail (module @ '' requires at least one publishing developer for Maven Central''))) (\<lambda>_.
     case pb_scm metadata of
       None \<Rightarrow> Inl (PublishBail (module @ '' requires publishing.scm for Maven Central''))
     | Some scm \<Rightarrow>
         and_then (validate_http_url parse_url (case pb_url metadata of Some u \<Rightarrow> u | None \<Rightarrow> []) ''project URL'') (\<lambda>_.
         and_then (check_all (\<lambda>l. validate_http_url parse_url (li_url l) ''license URL'') (pb_licenses metadata)) (\<lambda>_.
         validate_http_url parse_url (sc_url scm) ''SCM URL''))))))"

definition root_publishing :: "publish_module list \<Rightarrow> publishing option" where
  "root_publishing modules =
     (case List.find pm_workspace_root modules of None \<Rightarrow> None | Some m \<Rightarrow> mf_publishing (pm_manifest m))"

text \<open>The metadata of a module, or else those of the workspace root.\<close>

definition module_publishing :: "publish_module list \<Rightarrow> publish_module \<Rightarrow> publishing option" where
  "module_publishing modules m =
     (case mf_publishing (pm_manifest m) of Some p \<Rightarrow> Some p | None \<Rightarrow> root_publishing modules)"

definition is_central :: "publish_target \<Rightarrow> bool" where
  "is_central target = (case target of CentralTarget _ _ _ \<Rightarrow> True | _ \<Rightarrow> False)"

definition validate_publish_module ::
    "(str \<Rightarrow> (str, target_url) result) \<Rightarrow> publish_module list \<Rightarrow> publish_target \<Rightarrow> publish_module \<Rightarrow> unit published" where
  "validate_publish_module parse_url modules target m =
     (let p = mf_project (pm_manifest m)
      in and_then (validate_repository_segment (pj_name p) ''artifact name'') (\<lambda>_.
         and_then (validate_repository_segment (pj_version p) ''version'') (\<lambda>_.
         and_then (ensure (pj_packaging p = ''jar'' \<or> pj_packaging p = ''pom'')
           (PublishBail (pj_name p @ '' uses unsupported publication packaging '' @ ticked (pj_packaging p) @
              ''; JMAN publishes jar and pom modules''))) (\<lambda>_.
         if \<not> is_central target then Inr ()
         else if ends_with ''-SNAPSHOT'' (pj_version p)
         then Inl (PublishBail (''Maven Central does not accept snapshot version '' @ pj_version p))
         else validate_central_metadata parse_url (module_publishing modules m) (pj_name p)))))"

fun validate_publish_modules ::
    "(publish_module \<Rightarrow> unit published) \<Rightarrow> publish_module list \<Rightarrow> str list \<Rightarrow> unit published" where
  "validate_publish_modules check [] names = Inr ()"
| "validate_publish_modules check (m # ms) names =
     (if published_name m \<in> set names
      then Inl (PublishBail (''workspace module names must be unique for publication: '' @ published_name m))
      else and_then (check m) (\<lambda>_. validate_publish_modules check ms (bs_insert (published_name m) names)))"

definition validate_workspace ::
    "(str \<Rightarrow> (str, target_url) result) \<Rightarrow> publish_module list \<Rightarrow> publish_target \<Rightarrow> unit published" where
  "validate_workspace parse_url modules target =
     validate_publish_modules (validate_publish_module parse_url modules target) modules []"

definition validate_repository_url :: "target_url \<Rightarrow> bool \<Rightarrow> unit published" where
  "validate_repository_url url allow_insecure =
     and_then (ensure (tu_scheme url = ''https'' \<or> allow_insecure \<and> tu_scheme url = ''http'')
       (PublishBail ''repository URL must use HTTPS (use --allow-insecure only for local development)'')) (\<lambda>_.
     and_then (ensure (tu_username url = [] \<and> tu_password url = None)
       (PublishBail ''repository credentials must come from environment variables, not the URL'')) (\<lambda>_.
     ensure (tu_query url = None \<and> tu_fragment url = None)
       (PublishBail ''repository URL cannot contain a query or fragment'')))"

definition validate_repository_credentials :: "repository_credentials \<Rightarrow> unit published" where
  "validate_repository_credentials credentials =
     ensure ((rc_username credentials \<noteq> None) = (rc_password credentials \<noteq> None))
       (PublishBail ''repository username and password must be provided together'')"

definition repository_base_url :: "target_url \<Rightarrow> target_url" where
  "repository_base_url url =
     (if ends_with ''/'' (tu_path url) then url else url\<lparr>tu_path := tu_path url @ ''/''\<rparr>)"

section \<open>The published POM\<close>

definition escape_char :: "char \<Rightarrow> str" where
  "escape_char c =
     (if c = CHR ''&'' then ''&amp;'' else if c = CHR ''<'' then ''&lt;''
      else if c = CHR ''>'' then ''&gt;'' else if c = CHR 0x22 then ''&quot;''
      else if c = CHR 0x27 then ''&apos;'' else [c])"

text \<open>The source replaces the ampersand first, then the other characters.\<close>

definition escape_xml :: "str \<Rightarrow> str" where
  "escape_xml value =
     replace_all [CHR 0x27] ''&apos;'' (replace_all [CHR 0x22] ''&quot;''
       (replace_all ''>'' ''&gt;'' (replace_all ''<'' ''&lt;'' (replace_all ''&'' ''&amp;'' value))))"

definition xml_element :: "nat \<Rightarrow> str \<Rightarrow> str \<Rightarrow> str" where
  "xml_element indent name value =
     replicate indent (CHR '' '') @ ''<'' @ name @ ''>'' @ escape_xml value @ ''</'' @ name @ ''>'' @ [CHR 0x0A]"

definition optional_element :: "nat \<Rightarrow> str \<Rightarrow> str option \<Rightarrow> str" where
  "optional_element indent name value =
     (case value of None \<Rightarrow> [] | Some v \<Rightarrow> xml_element indent name v)"

definition xml_line :: "str \<Rightarrow> str" where
  "xml_line s = s @ [CHR 0x0A]"

definition license_xml :: "license \<Rightarrow> str" where
  "license_xml l =
     xml_line ''    <license>'' @ xml_element 6 ''name'' (li_name l) @ xml_element 6 ''url'' (li_url l) @
     optional_element 6 ''distribution'' (li_distribution l) @ xml_line ''    </license>''"

definition developer_xml :: "developer \<Rightarrow> str" where
  "developer_xml d =
     xml_line ''    <developer>'' @ optional_element 6 ''id'' (dv_id d) @ xml_element 6 ''name'' (dv_name d) @
     optional_element 6 ''email'' (dv_email d) @ optional_element 6 ''organization'' (dv_organization d) @
     optional_element 6 ''organizationUrl'' (dv_organization_url d) @ xml_line ''    </developer>''"

definition append_publishing_metadata :: "publishing option \<Rightarrow> str" where
  "append_publishing_metadata publishing =
     (case publishing of
        None \<Rightarrow> []
      | Some p \<Rightarrow>
          optional_element 2 ''description'' (pb_description p) @ optional_element 2 ''url'' (pb_url p) @
          (if pb_licenses p = [] then []
           else xml_line ''  <licenses>'' @ concat (map license_xml (pb_licenses p)) @ xml_line ''  </licenses>'') @
          (if pb_developers p = [] then []
           else xml_line ''  <developers>'' @ concat (map developer_xml (pb_developers p)) @ xml_line ''  </developers>'') @
          (case pb_scm p of
             None \<Rightarrow> []
           | Some s \<Rightarrow>
               xml_line ''  <scm>'' @ xml_element 4 ''connection'' (sc_connection s) @
               xml_element 4 ''developerConnection'' (sc_developer_connection s) @
               xml_element 4 ''url'' (sc_url s) @ optional_element 4 ''tag'' (sc_tag s) @ xml_line ''  </scm>''))"

record pom_dependency =
  po_group :: str
  po_artifact :: str
  po_version :: str
  po_scope :: str
  po_metadata :: maven_dependency_metadata

definition default_metadata :: maven_dependency_metadata where
  "default_metadata =
     \<lparr>md_dependency_type = ''jar'', md_classifier = None, md_optional = False, md_exclusions = []\<rparr>"

definition publish_split_ga :: "str \<Rightarrow> (str \<times> str) published" where
  "publish_split_ga coord =
     ok_or (PublishBail (''invalid Maven coordinate '' @ coord)) (split_once (CHR '':'') coord)"

definition pom_metadata :: "manifest \<Rightarrow> str \<Rightarrow> str \<Rightarrow> maven_dependency_metadata" where
  "pom_metadata m scope coord =
     (case Option.bind (mf_maven m) (\<lambda>maven. bt_get (mv_dependencies maven) (scope @ '':'' @ coord)) of
        Some metadata \<Rightarrow> metadata | None \<Rightarrow> default_metadata)"

text \<open>The version a dependency has in the POM: its own, or that of the module it points to.\<close>

definition pom_version ::
    "build_env \<Rightarrow> publish_module \<Rightarrow> publish_module list \<Rightarrow> str \<Rightarrow> dependency_spec \<Rightarrow> str published" where
  "pom_version env module modules coord spec =
     (case spec of
        VersionSpec version \<Rightarrow>
          if trim version = []
          then Inl (PublishBail (''dependency '' @ coord @ '' has an empty publication version''))
          else Inr version
      | PathSpec p \<Rightarrow>
          and_then (map_err PublishSystem (be_canonical env (path_join (pm_directory module) (path_of p)))) (\<lambda>directory.
          and_then (ok_or (PublishBail (''undeclared workspace dependency '' @ show_path directory))
            (List.find (\<lambda>m. pm_directory m = directory) modules)) (\<lambda>dep.
          if coord \<noteq> manifest_ga (pm_manifest dep)
          then Inl (PublishBail (''workspace dependency '' @ ticked coord @ '' points to '' @
                 ticked (manifest_ga (pm_manifest dep)) @ '' at '' @ show_path directory))
          else Inr (pj_version (mf_project (pm_manifest dep))))))"

definition pom_dependency_of ::
    "build_env \<Rightarrow> publish_module \<Rightarrow> publish_module list \<Rightarrow> str \<times> str \<times> dependency_spec \<Rightarrow> pom_dependency published" where
  "pom_dependency_of env module modules = (\<lambda>(scope, coord, spec).
     and_then (publish_split_ga coord) (\<lambda>(g, a).
     and_then (pom_version env module modules coord spec) (\<lambda>version.
     Inr \<lparr>po_group = g, po_artifact = a, po_version = version, po_scope = scope,
          po_metadata = pom_metadata (pm_manifest module) scope coord\<rparr>)))"

definition pom_order :: "pom_dependency \<Rightarrow> str list" where
  "pom_order d = [po_scope d, po_group d, po_artifact d]"

definition pom_dependencies :: "build_env \<Rightarrow> publish_module \<Rightarrow> publish_module list \<Rightarrow> pom_dependency list published" where
  "pom_dependencies env module modules =
     and_then (traverse (pom_dependency_of env module modules) (publish_scopes (pm_manifest module))) (\<lambda>ds.
     Inr (sort_key pom_order ds))"

definition exclusion_xml :: "str \<Rightarrow> str published" where
  "exclusion_xml x =
     and_then (publish_split_ga x) (\<lambda>(g, a).
     Inr (xml_line ''        <exclusion>'' @ xml_element 10 ''groupId'' g @ xml_element 10 ''artifactId'' a @
          xml_line ''        </exclusion>''))"

definition dependency_xml :: "pom_dependency \<Rightarrow> str published" where
  "dependency_xml d =
     (let md = po_metadata d
      in and_then (traverse exclusion_xml (md_exclusions md)) (\<lambda>exclusions.
         Inr (xml_line ''    <dependency>'' @
           xml_element 6 ''groupId'' (po_group d) @ xml_element 6 ''artifactId'' (po_artifact d) @
           xml_element 6 ''version'' (po_version d) @
           (if po_scope d \<noteq> ''compile'' then xml_element 6 ''scope'' (po_scope d) else []) @
           (if md_dependency_type md \<noteq> ''jar'' then xml_element 6 ''type'' (md_dependency_type md) else []) @
           optional_element 6 ''classifier'' (md_classifier md) @
           (if md_optional md then xml_element 6 ''optional'' ''true'' else []) @
           (if md_exclusions md = [] then []
            else xml_line ''      <exclusions>'' @ concat exclusions @ xml_line ''      </exclusions>'') @
           xml_line ''    </dependency>'')))"

definition pom_prologue :: str where
  "pom_prologue =
     xml_line ''<?xml version=\"1.0\" encoding=\"UTF-8\"?>'' @
     xml_line (''<project xmlns=\"http://maven.apache.org/POM/4.0.0\" xmlns:xsi=\"http://www.w3.org/2001/XMLSchema-instance\" '' @
       ''xsi:schemaLocation=\"http://maven.apache.org/POM/4.0.0 https://maven.apache.org/xsd/maven-4.0.0.xsd\">'')"

definition generate_pom ::
    "build_env \<Rightarrow> publish_module \<Rightarrow> publish_module list \<Rightarrow> publishing option \<Rightarrow> str published" where
  "generate_pom env module modules publishing =
     (let p = mf_project (pm_manifest module)
      in and_then (pom_dependencies env module modules) (\<lambda>ds.
         and_then (traverse dependency_xml ds) (\<lambda>xmls.
         Inr (pom_prologue @ xml_line ''  <modelVersion>4.0.0</modelVersion>'' @
           xml_element 2 ''groupId'' (pj_group p) @ xml_element 2 ''artifactId'' (pj_name p) @
           xml_element 2 ''version'' (pj_version p) @ xml_element 2 ''packaging'' (pj_packaging p) @
           xml_element 2 ''name'' (case Option.bind publishing pb_name of Some n \<Rightarrow> n | None \<Rightarrow> pj_name p) @
           append_publishing_metadata publishing @
           (if ds = [] then []
            else xml_line ''  <dependencies>'' @ concat xmls @ xml_line ''  </dependencies>'') @
           xml_line ''</project>''))))"

end
