(* ===== verification/Publish_Pom.thy ===== *)
theory Publish_Pom
  imports Publish_Model Project_Model
begin

text \<open>
  What a published POM says. The text that \<open>generate_pom\<close> writes is the rendering of an XML tree,
  and the parser of the resolver reads from that tree the coordinate of the module and the
  dependencies that jman itself resolves for it.
\<close>

section \<open>Escaping\<close>

lemma replace_map: "replace_all [c] r s = concat (map (\<lambda>d. if d = c then r else [d]) s)"
proof -
  have "replace_nonempty [c] r s = concat (map (\<lambda>d. if d = c then r else [d]) s)" by (induction s) auto
  then show ?thesis by (simp add: replace_all_def)
qed

lemma escape_xml_chars: "escape_xml s = concat (map escape_char s)"
proof -
  have "concat (map f (concat (map g s))) = concat (map (\<lambda>c. concat (map f (g c))) s)"
    for f :: "char \<Rightarrow> str" and g s
    by (induction s) auto
  note nested = this
  show ?thesis
    unfolding escape_xml_def replace_map nested
    by (intro arg_cong [of _ _ concat] map_cong refl) (simp add: escape_char_def)
qed

lemma escape_xml_append [simp]: "escape_xml (s @ t) = escape_xml s @ escape_xml t"
  by (simp add: escape_xml_chars)

text \<open>Undoing the escapes of the five characters.\<close>

fun unescape :: "str \<Rightarrow> str" where
  "unescape [] = []"
| "unescape (c # cs) =
     (if c \<noteq> CHR ''&'' then c # unescape cs
      else if starts_with ''amp;'' cs then CHR ''&'' # unescape (drop 4 cs)
      else if starts_with ''lt;'' cs then CHR ''<'' # unescape (drop 3 cs)
      else if starts_with ''gt;'' cs then CHR ''>'' # unescape (drop 3 cs)
      else if starts_with ''quot;'' cs then CHR 0x22 # unescape (drop 5 cs)
      else if starts_with ''apos;'' cs then CHR 0x27 # unescape (drop 5 cs)
      else c # unescape cs)"

lemma unescape_escape: "unescape (escape_xml s) = s"
  by (induction s) (simp_all add: escape_xml_chars escape_char_def starts_with_def)

lemma escape_xml_no_markup: "CHR ''<'' \<notin> set (escape_xml s) \<and> CHR ''>'' \<notin> set (escape_xml s)"
  by (auto simp: escape_xml_chars escape_char_def split: if_splits)

section \<open>Trees\<close>

fun render :: "xml \<Rightarrow> str" where
  "render (Text t) = escape_xml t"
| "render (Element n cs) = ''<'' @ n @ ''>'' @ concat (map render cs) @ ''</'' @ n @ ''>''"
| "render OtherNode = []"

definition spaces :: "nat \<Rightarrow> xml" where
  "spaces n = Text (replicate n (CHR '' ''))"

definition newline :: xml where
  "newline = Text [CHR 0x0A]"

definition element_tree :: "nat \<Rightarrow> str \<Rightarrow> str \<Rightarrow> xml list" where
  "element_tree indent name value = [spaces indent, Element name [Text value], newline]"

definition optional_tree :: "nat \<Rightarrow> str \<Rightarrow> str option \<Rightarrow> xml list" where
  "optional_tree indent name value = (case value of None \<Rightarrow> [] | Some v \<Rightarrow> element_tree indent name v)"

definition block_tree :: "nat \<Rightarrow> str \<Rightarrow> xml list \<Rightarrow> xml list" where
  "block_tree indent name inner =
     [spaces indent, Element name (newline # inner @ [spaces indent]), newline]"

abbreviation render_all :: "xml list \<Rightarrow> str" where
  "render_all cs \<equiv> concat (map render cs)"

lemma escape_blank [simp]:
  "escape_xml (replicate n (CHR '' '')) = replicate n (CHR '' '')" "escape_xml [CHR 0x0A] = [CHR 0x0A]"
  by (induction n) (simp_all add: escape_xml_chars escape_char_def)

lemma render_element [simp]: "render_all (element_tree i n v) = xml_element i n v"
  by (simp add: element_tree_def xml_element_def spaces_def newline_def)

lemma render_optional [simp]: "render_all (optional_tree i n v) = optional_element i n v"
  by (simp add: optional_tree_def optional_element_def split: option.splits)

lemma render_block [simp]:
  "render_all (block_tree i n inner) =
     xml_line (replicate i (CHR '' '') @ ''<'' @ n @ ''>'') @ render_all inner @
     xml_line (replicate i (CHR '' '') @ ''</'' @ n @ ''>'')"
  by (simp add: block_tree_def spaces_def newline_def xml_line_def)

lemma render_concat: "render_all (concat (map f xs)) = concat (map (\<lambda>x. render_all (f x)) xs)"
  by (induction xs) auto

definition license_tree :: "license \<Rightarrow> xml list" where
  "license_tree l = block_tree 4 ''license''
     (element_tree 6 ''name'' (li_name l) @ element_tree 6 ''url'' (li_url l) @
      optional_tree 6 ''distribution'' (li_distribution l))"

definition developer_tree :: "developer \<Rightarrow> xml list" where
  "developer_tree d = block_tree 4 ''developer''
     (optional_tree 6 ''id'' (dv_id d) @ element_tree 6 ''name'' (dv_name d) @
      optional_tree 6 ''email'' (dv_email d) @ optional_tree 6 ''organization'' (dv_organization d) @
      optional_tree 6 ''organizationUrl'' (dv_organization_url d))"

definition metadata_tree :: "publishing option \<Rightarrow> xml list" where
  "metadata_tree publishing =
     (case publishing of
        None \<Rightarrow> []
      | Some p \<Rightarrow>
          optional_tree 2 ''description'' (pb_description p) @ optional_tree 2 ''url'' (pb_url p) @
          (if pb_licenses p = [] then []
           else block_tree 2 ''licenses'' (concat (map license_tree (pb_licenses p)))) @
          (if pb_developers p = [] then []
           else block_tree 2 ''developers'' (concat (map developer_tree (pb_developers p)))) @
          (case pb_scm p of
             None \<Rightarrow> []
           | Some s \<Rightarrow> block_tree 2 ''scm''
               (element_tree 4 ''connection'' (sc_connection s) @
                element_tree 4 ''developerConnection'' (sc_developer_connection s) @
                element_tree 4 ''url'' (sc_url s) @ optional_tree 4 ''tag'' (sc_tag s))))"

definition exclusion_parts :: "str \<Rightarrow> str \<times> str" where
  "exclusion_parts x = (case split_once (CHR '':'') x of Some p \<Rightarrow> p | None \<Rightarrow> ([], []))"

definition exclusion_tree :: "str \<Rightarrow> xml list" where
  "exclusion_tree x = block_tree 8 ''exclusion''
     (element_tree 10 ''groupId'' (fst (exclusion_parts x)) @ element_tree 10 ''artifactId'' (snd (exclusion_parts x)))"

definition dependency_tree :: "pom_dependency \<Rightarrow> xml list" where
  "dependency_tree d =
     (let md = po_metadata d
      in block_tree 4 ''dependency''
        (element_tree 6 ''groupId'' (po_group d) @ element_tree 6 ''artifactId'' (po_artifact d) @
         element_tree 6 ''version'' (po_version d) @
         (if po_scope d \<noteq> ''compile'' then element_tree 6 ''scope'' (po_scope d) else []) @
         (if md_dependency_type md \<noteq> ''jar'' then element_tree 6 ''type'' (md_dependency_type md) else []) @
         optional_tree 6 ''classifier'' (md_classifier md) @
         (if md_optional md then element_tree 6 ''optional'' ''true'' else []) @
         (if md_exclusions md = [] then []
          else block_tree 6 ''exclusions'' (concat (map exclusion_tree (md_exclusions md))))))"

definition pom_tree :: "project \<Rightarrow> publishing option \<Rightarrow> pom_dependency list \<Rightarrow> xml list" where
  "pom_tree p publishing ds =
     element_tree 2 ''modelVersion'' ''4.0.0'' @
     element_tree 2 ''groupId'' (pj_group p) @ element_tree 2 ''artifactId'' (pj_name p) @
     element_tree 2 ''version'' (pj_version p) @ element_tree 2 ''packaging'' (pj_packaging p) @
     element_tree 2 ''name'' (case Option.bind publishing pb_name of Some n \<Rightarrow> n | None \<Rightarrow> pj_name p) @
     metadata_tree publishing @
     (if ds = [] then [] else block_tree 2 ''dependencies'' (concat (map dependency_tree ds)))"

lemma xml_line_literals:
  "replicate 2 (CHR '' '') = ''  ''" "replicate 4 (CHR '' '') = ''    ''"
  "replicate 6 (CHR '' '') = ''      ''" "replicate 8 (CHR '' '') = ''        ''"
  by (simp_all add: numeral_eq_Suc)

lemma render_license: "render_all (license_tree l) = license_xml l"
  by (simp add: license_tree_def license_xml_def xml_line_literals)

lemma render_developer: "render_all (developer_tree d) = developer_xml d"
  by (simp add: developer_tree_def developer_xml_def xml_line_literals)

lemma render_metadata: "render_all (metadata_tree publishing) = append_publishing_metadata publishing"
  by (simp add: metadata_tree_def append_publishing_metadata_def render_concat render_license render_developer
      xml_line_literals split: option.splits)

lemma render_exclusions:
  "traverse exclusion_xml xs = Inr ys \<Longrightarrow> concat ys = render_all (concat (map exclusion_tree xs))"
proof (induction xs arbitrary: ys)
  case (Cons x xs)
  then obtain y ys' where y: "exclusion_xml x = Inr y" and ys: "traverse exclusion_xml xs = Inr ys'" "ys = y # ys'"
    by (auto split: sum.splits)
  have "y = render_all (exclusion_tree x)"
    using y by (auto simp: exclusion_xml_def publish_split_ga_def and_then_Inr_iff ok_or_Inr_iff exclusion_tree_def
        exclusion_parts_def xml_line_literals)
  then show ?case using Cons.IH [OF ys(1)] ys(2) by simp
qed simp

lemma render_dependency: "dependency_xml d = Inr y \<Longrightarrow> y = render_all (dependency_tree d)"
  by (auto simp: dependency_xml_def Let_def and_then_Inr_iff dependency_tree_def xml_line_literals
      dest!: render_exclusions)

lemma render_dependencies:
  "traverse dependency_xml ds = Inr ys \<Longrightarrow> concat ys = render_all (concat (map dependency_tree ds))"
  by (induction ds arbitrary: ys) (auto split: sum.splits dest: render_dependency)

lemma render_pom:
  assumes "generate_pom env module modules publishing = Inr s"
  shows "\<exists>ds. pom_dependencies env module modules = Inr ds \<and>
    s = pom_prologue @ render_all (pom_tree (mf_project (pm_manifest module)) publishing ds) @ xml_line ''</project>''"
proof -
  have version: "xml_element 2 ''modelVersion'' ''4.0.0'' = xml_line ''  <modelVersion>4.0.0</modelVersion>''"
    by code_simp
  obtain ds xmls where ds: "pom_dependencies env module modules = Inr ds"
    and xmls: "traverse dependency_xml ds = Inr xmls"
    using assms by (auto simp: generate_pom_def Let_def and_then_Inr_iff)
  note rendered = render_dependencies [OF xmls]
  show ?thesis
    using assms
    by (cases "ds = []") (simp_all add: generate_pom_def Let_def ds xmls pom_tree_def render_metadata version
        xml_line_literals rendered)
qed

section \<open>Reading the tree\<close>

lemma find_element_tree [simp]:
  "List.find (has_tag n) (element_tree i m v) = (if m = n then Some (Element m [Text v]) else None)"
  by (simp add: element_tree_def spaces_def newline_def)

lemma find_optional_tree [simp]:
  "List.find (has_tag n) (optional_tree i m v) = (if m = n then map_option (\<lambda>v. Element m [Text v]) v else None)"
  by (simp add: optional_tree_def split: option.splits)

lemma find_block_tree [simp]:
  "List.find (has_tag n) (block_tree i m inner) =
     (if m = n then Some (Element m (newline # inner @ [spaces i])) else None)"
  by (simp add: block_tree_def spaces_def newline_def)

lemma filter_block_tree [simp]:
  "filter (has_tag n) (block_tree i m inner) =
     (if m = n then [Element m (newline # inner @ [spaces i])] else [])"
  by (simp add: block_tree_def spaces_def newline_def)

lemma blank_nodes [simp]: "\<not> has_tag n newline" "\<not> has_tag n (spaces i)"
  by (simp_all add: newline_def spaces_def)

lemma element_text_proper: "proper v \<Longrightarrow> element_text (Element m [Text v]) = v"
  by (simp add: element_text_def proper_def trim_trimmed)

lemma child_text_Element:
  "child_text (Element k cs) n =
     (case List.find (has_tag n) cs of
        None \<Rightarrow> None | Some c \<Rightarrow> if element_text c \<noteq> [] then Some (element_text c) else None)"
  by (simp add: child_text_def xml_child_def)

lemma properD: "proper v \<Longrightarrow> v \<noteq> []"
  by (simp add: proper_def)

definition published_exclusion :: "str \<Rightarrow> exclusion" where
  "published_exclusion x = \<lparr>x_group = fst (exclusion_parts x), x_artifact = snd (exclusion_parts x)\<rparr>"

text \<open>The dependency a reader of the POM sees.\<close>

definition published_dependency :: "pom_dependency \<Rightarrow> dependency" where
  "published_dependency d =
     (let md = po_metadata d
      in \<lparr>d_group = po_group d, d_artifact = po_artifact d, d_version = Some (po_version d),
          d_scope = po_scope d, d_scope_explicit = (po_scope d \<noteq> ''compile''),
          d_type = md_dependency_type md, d_type_explicit = (md_dependency_type md \<noteq> ''jar''),
          d_classifier = md_classifier md, d_optional = (if md_optional md then Some True else None),
          d_exclusions = map published_exclusion (md_exclusions md)\<rparr>)"

text \<open>Texts that survive the trimming of a reader.\<close>

definition proper_pom_dependency :: "pom_dependency \<Rightarrow> bool" where
  "proper_pom_dependency d \<longleftrightarrow>
     (let md = po_metadata d
      in list_all proper [po_group d, po_artifact d, po_version d, po_scope d, md_dependency_type md] \<and>
         (case md_classifier md of None \<Rightarrow> True | Some c \<Rightarrow> proper c) \<and>
         list_all (\<lambda>x. proper (fst (exclusion_parts x)) \<and> proper (snd (exclusion_parts x))) (md_exclusions md))"

lemma read_exclusion:
  assumes "proper (fst (exclusion_parts x))" "proper (snd (exclusion_parts x))"
  shows "traverse parse_exclusion (filter (has_tag ''exclusion'') (exclusion_tree x)) = Inr [published_exclusion x]"
  using assms
  by (simp add: exclusion_tree_def parse_exclusion_def required_text_def child_text_Element find_append
      element_text_proper properD published_exclusion_def)

lemma traverse_append:
  "traverse f xs = Inr ys \<Longrightarrow> traverse f xs' = Inr ys' \<Longrightarrow> traverse f (xs @ xs') = Inr (ys @ ys')"
  by (induction xs arbitrary: ys) (auto split: sum.splits)

lemma read_exclusions:
  assumes "list_all (\<lambda>x. proper (fst (exclusion_parts x)) \<and> proper (snd (exclusion_parts x))) xs"
  shows "traverse parse_exclusion (filter (has_tag ''exclusion'') (concat (map exclusion_tree xs))) =
    Inr (map published_exclusion xs)"
  using assms
proof (induction xs)
  case (Cons x xs)
  then have head: "traverse parse_exclusion (filter (has_tag ''exclusion'') (exclusion_tree x)) = Inr [published_exclusion x]"
    by (simp add: read_exclusion)
  from traverse_append [OF this, of "filter (has_tag ''exclusion'') (concat (map exclusion_tree xs))"] Cons
  show ?case by simp
qed simp

lemma read_dependency:
  assumes "proper_pom_dependency d"
  shows "traverse parse_dependency (filter (has_tag ''dependency'') (dependency_tree d)) = Inr [published_dependency d]"
proof -
  have true: "proper ''true''" by code_simp
  obtain inner where tree: "dependency_tree d = block_tree 4 ''dependency'' inner"
    by (simp add: dependency_tree_def Let_def)
  let ?md = "po_metadata d" and ?node = "Element ''dependency'' (newline # inner @ [spaces 4])"
  have proper: "proper (po_group d)" "proper (po_artifact d)" "proper (po_version d)" "proper (po_scope d)"
    "proper (md_dependency_type ?md)" "case md_classifier ?md of None \<Rightarrow> True | Some c \<Rightarrow> proper c"
    "list_all (\<lambda>x. proper (fst (exclusion_parts x)) \<and> proper (snd (exclusion_parts x))) (md_exclusions ?md)"
    using assms by (simp_all add: proper_pom_dependency_def Let_def)
  have inner: "inner = element_tree 6 ''groupId'' (po_group d) @ element_tree 6 ''artifactId'' (po_artifact d) @
         element_tree 6 ''version'' (po_version d) @
         (if po_scope d \<noteq> ''compile'' then element_tree 6 ''scope'' (po_scope d) else []) @
         (if md_dependency_type ?md \<noteq> ''jar'' then element_tree 6 ''type'' (md_dependency_type ?md) else []) @
         optional_tree 6 ''classifier'' (md_classifier ?md) @
         (if md_optional ?md then element_tree 6 ''optional'' ''true'' else []) @
         (if md_exclusions ?md = [] then []
          else block_tree 6 ''exclusions'' (concat (map exclusion_tree (md_exclusions ?md))))"
    using tree by (simp add: dependency_tree_def Let_def block_tree_def)
  have exclusions: "parse_exclusions ?node = Inr (map published_exclusion (md_exclusions ?md))"
    using proper read_exclusions [of "md_exclusions ?md"]
    by (cases "md_exclusions ?md = []")
      (simp_all add: parse_exclusions_def xml_child_def inner find_append children_named_def)
  have required: "required_text ?node ''groupId'' c = Inr (po_group d)"
    "required_text ?node ''artifactId'' c = Inr (po_artifact d)" for c
    using proper by (simp_all add: required_text_def child_text_Element inner find_append element_text_proper properD)
  have optional: "child_text ?node ''version'' = Some (po_version d)"
    "child_text ?node ''scope'' = (if po_scope d \<noteq> ''compile'' then Some (po_scope d) else None)"
    "child_text ?node ''type'' = (if md_dependency_type ?md \<noteq> ''jar'' then Some (md_dependency_type ?md) else None)"
    "child_text ?node ''optional'' = (if md_optional ?md then Some ''true'' else None)"
    using proper true
    by (simp_all add: child_text_Element inner find_append element_text_proper properD)
  have classifier: "child_text ?node ''classifier'' = md_classifier ?md"
    using proper
    by (cases "md_classifier ?md") (simp_all add: child_text_Element inner find_append element_text_proper properD)
  show ?thesis
    by (simp add: classifier tree parse_dependency_def exclusions required optional published_dependency_def Let_def or_default_def)
qed

lemma read_dependencies:
  assumes "list_all proper_pom_dependency ds"
  shows "traverse parse_dependency (filter (has_tag ''dependency'') (concat (map dependency_tree ds))) =
    Inr (map published_dependency ds)"
  using assms
proof (induction ds)
  case (Cons d ds)
  then have head: "traverse parse_dependency (filter (has_tag ''dependency'') (dependency_tree d)) = Inr [published_dependency d]"
    by (simp add: read_dependency)
  from traverse_append [OF this, of "filter (has_tag ''dependency'') (concat (map dependency_tree ds))"] Cons
  show ?case by simp
qed simp

lemma find_metadata_tree:
  "n \<notin> {''description'', ''url'', ''licenses'', ''developers'', ''scm''} \<Longrightarrow>
   List.find (has_tag n) (metadata_tree p) = None"
  by (auto simp: metadata_tree_def find_append split: option.splits)

lemma find_pom_tree:
  "n \<notin> {''modelVersion'', ''groupId'', ''artifactId'', ''version'', ''packaging'', ''name'', ''description'',
     ''url'', ''licenses'', ''developers'', ''scm'', ''dependencies''} \<Longrightarrow>
   List.find (has_tag n) (pom_tree p publishing ds) = None"
  by (auto simp: pom_tree_def find_append find_metadata_tree)

definition proper_project :: "project \<Rightarrow> bool" where
  "proper_project p \<longleftrightarrow> list_all proper [pj_group p, pj_name p, pj_version p, pj_packaging p]"

lemma read_pom:
  assumes "list_all proper_pom_dependency ds" "proper_project p"
  shows "\<exists>raw. parse_project pf (Element ''project'' (pom_tree p publishing ds)) True = Inr raw \<and>
    raw_parent raw = None \<and> raw_group raw = Some (pj_group p) \<and> raw_artifact raw = pj_name p \<and>
    raw_version raw = Some (pj_version p) \<and> raw_packaging raw = pj_packaging p \<and>
    raw_dependencies raw = map published_dependency ds \<and> raw_management raw = []"
proof -
  let ?node = "Element ''project'' (pom_tree p publishing ds)"
  have proper: "proper (pj_group p)" "proper (pj_name p)" "proper (pj_version p)" "proper (pj_packaging p)"
    using assms(2) by (simp_all add: proper_project_def)
  have texts: "child_text ?node ''groupId'' = Some (pj_group p)" "child_text ?node ''artifactId'' = Some (pj_name p)"
    "child_text ?node ''version'' = Some (pj_version p)" "child_text ?node ''packaging'' = Some (pj_packaging p)"
    using proper by (simp_all add: child_text_Element pom_tree_def find_append element_text_proper properD)
  have none: "xml_child ?node ''parent'' = None" "xml_child ?node ''properties'' = None"
    "xml_child ?node ''dependencyManagement'' = None" "xml_child ?node ''repositories'' = None"
    "xml_child ?node ''profiles'' = None"
    by (simp_all add: xml_child_def find_pom_tree)
  have dependencies: "parse_optional parse_dependencies (xml_child ?node ''dependencies'') = Inr (map published_dependency ds)"
    using read_dependencies [OF assms(1)]
    by (cases "ds = []")
      (simp_all add: parse_optional_def xml_child_def pom_tree_def find_append find_metadata_tree parse_dependencies_def
        children_named_def)
  have parts: "project_parts ?node = Inr \<lparr>mp_properties = [], mp_dependencies = map published_dependency ds,
      mp_management = [], mp_repositories = []\<rparr>"
    unfolding project_parts_def dependencies management_node_def none by (simp add: parse_optional_def)
  show ?thesis
    by (simp add: parse_project_def texts none parts or_default_def)
qed

section \<open>The model that jman resolves\<close>

lemma publish_scopes_eq: "publish_scopes m = scoped_specs (mf_dependencies m)"
  by (simp add: publish_scopes_def scoped_specs_def manifest_scopes_def)

lemma split_ga_parts: "split_ga ga = Inr (g, a) \<Longrightarrow> split_once (CHR '':'') ga = Some (g, a)"
  by (auto simp: split_ga_def ok_or_Inr_iff split: option.splits if_splits)

lemma read_manifest_exclusions:
  "manifest_exclusions xs = Inr ys \<Longrightarrow> map published_exclusion xs = ys"
  unfolding manifest_exclusions_def
  by (induction xs arbitrary: ys)
    (auto simp: and_then_Inr_iff published_exclusion_def exclusion_parts_def dest!: split_ga_parts split: sum.splits)

lemma same_dependency:
  assumes "declared_dependency (pm_manifest module) (scope, ga, spec) = Inr (Some d)"
    and "pom_dependency_of env module modules (scope, ga, spec) = Inr p"
  shows "published_dependency p = d"
proof -
  obtain v where spec: "spec = VersionSpec v"
    using assms(1) by (cases spec) (auto simp: declared_dependency_def dependency_spec_version_def)
  let ?m = "metadata_of (pm_manifest module) scope ga"
  obtain g a xs where ga: "split_ga ga = Inr (g, a)"
    and xs: "(case ?m of None \<Rightarrow> Inr [] | Some i \<Rightarrow> manifest_exclusions (md_exclusions i)) = Inr xs"
    and d: "d = \<lparr>d_group = g, d_artifact = a, d_version = Some v, d_scope = scope,
               d_scope_explicit = (scope \<noteq> ''compile''),
               d_type = (case ?m of None \<Rightarrow> ''jar'' | Some i \<Rightarrow> md_dependency_type i),
               d_type_explicit = (case ?m of None \<Rightarrow> False | Some i \<Rightarrow> md_dependency_type i \<noteq> ''jar''),
               d_classifier = Option.bind ?m md_classifier,
               d_optional = (case ?m of None \<Rightarrow> None
                             | Some i \<Rightarrow> if md_optional i then Some True else None),
               d_exclusions = xs\<rparr>"
    using assms(1) by (auto simp: declared_dependency_def dependency_spec_version_def spec Let_def and_then_Inr_iff)
  have metadata: "pom_metadata (pm_manifest module) scope ga = (case ?m of Some md \<Rightarrow> md | None \<Rightarrow> default_metadata)"
    by (simp add: pom_metadata_def metadata_of_def)
  have p: "p = \<lparr>po_group = g, po_artifact = a, po_version = v, po_scope = scope,
      po_metadata = (case ?m of Some md \<Rightarrow> md | None \<Rightarrow> default_metadata)\<rparr>"
    using assms(2) split_ga_parts [OF ga]
    by (auto simp: pom_dependency_of_def publish_split_ga_def pom_version_def spec metadata and_then_Inr_iff
        split: if_splits)
  show ?thesis
    using xs by (cases ?m) (simp_all add: p d published_dependency_def Let_def default_metadata_def read_manifest_exclusions)
qed

text \<open>The dependencies that stand for modules of the workspace.\<close>

definition module_dependency :: "build_env \<Rightarrow> publish_module \<Rightarrow> publish_module list \<Rightarrow> dependency \<Rightarrow> bool" where
  "module_dependency env module modules w \<longleftrightarrow>
     (\<exists>p target. (d_scope w, dependency_ga w, PathSpec p) \<in> set (publish_scopes (pm_manifest module)) \<and>
        target \<in> set modules \<and> be_canonical env (path_join (pm_directory module) (path_of p)) = Inr (pm_directory target) \<and>
        dependency_ga w = manifest_ga (pm_manifest target) \<and>
        d_version w = Some (pj_version (mf_project (pm_manifest target))))"

lemma path_dependency:
  assumes "pom_dependency_of env module modules (scope, ga, PathSpec p) = Inr q"
    and "(scope, ga, PathSpec p) \<in> set (publish_scopes (pm_manifest module))"
  shows "module_dependency env module modules (published_dependency q)"
proof -
  obtain g a version where split: "split_once (CHR '':'') ga = Some (g, a)"
    and version: "pom_version env module modules ga (PathSpec p) = Inr version"
    and q: "q = \<lparr>po_group = g, po_artifact = a, po_version = version, po_scope = scope,
          po_metadata = pom_metadata (pm_manifest module) scope ga\<rparr>"
    using assms(1) by (auto simp: pom_dependency_of_def publish_split_ga_def and_then_Inr_iff ok_or_Inr_iff)
  obtain directory target where "be_canonical env (path_join (pm_directory module) (path_of p)) = Inr directory"
    "List.find (\<lambda>m. pm_directory m = directory) modules = Some target"
    "ga = manifest_ga (pm_manifest target)" "version = pj_version (mf_project (pm_manifest target))"
    using version by (auto simp: pom_version_def and_then_Inr_iff ok_or_Inr_iff map_err_Inr_iff split: if_splits)
  moreover have "ga = g @ '':'' @ a" using split_once_Some [THEN iffD1, OF split] by auto
  ultimately show ?thesis using assms(2) find_Some_in [of _ modules target]
    unfolding module_dependency_def
    by (intro exI [of _ p] exI [of _ target]) (auto simp: q published_dependency_def Let_def dependency_ga_def ga_of_def)
qed

lemma map_filter_id:
  "List.map_filter id (Some y # xs) = y # List.map_filter id xs" "List.map_filter id (None # xs) = List.map_filter id xs"
  "List.map_filter id [] = []"
  by (simp_all add: List.map_filter_def)

lemma published_dependencies:
  assumes "traverse (declared_dependency (pm_manifest module)) specs = Inr deps"
    and "traverse (pom_dependency_of env module modules) specs = Inr ps"
    and "set specs \<subseteq> set (publish_scopes (pm_manifest module))"
  shows "\<exists>ws. mset (map published_dependency ps) = mset (List.map_filter id deps) + mset ws \<and>
    list_all (module_dependency env module modules) ws \<and>
    length ws = length (filter (\<lambda>(_, _, spec). dependency_spec_path spec \<noteq> None) specs)"
  using assms
proof (induction specs arbitrary: deps ps)
  case (Cons x specs)
  obtain scope ga spec where x: "x = (scope, ga, spec)" by (cases x)
  obtain d deps' where d: "declared_dependency (pm_manifest module) x = Inr d" "deps = d # deps'"
    "traverse (declared_dependency (pm_manifest module)) specs = Inr deps'"
    using Cons.prems(1) by (auto split: sum.splits)
  obtain p ps' where p: "pom_dependency_of env module modules x = Inr p" "ps = p # ps'"
    "traverse (pom_dependency_of env module modules) specs = Inr ps'"
    using Cons.prems(2) by (auto split: sum.splits)
  have sub: "set specs \<subseteq> set (publish_scopes (pm_manifest module))" using Cons.prems(3) by simp
  from Cons.IH [OF d(3) p(3) sub]
  obtain ws where ws: "mset (map published_dependency ps') = mset (List.map_filter id deps') + mset ws"
    "list_all (module_dependency env module modules) ws"
    "length ws = length (filter (\<lambda>(_, _, spec). dependency_spec_path spec \<noteq> None) specs)"
    by blast
  show ?case
  proof (cases spec)
    case (VersionSpec v)
    then obtain d' where d': "d = Some d'"
      using d(1) by (auto simp: x declared_dependency_def dependency_spec_version_def Let_def and_then_Inr_iff)
    then have "published_dependency p = d'" using same_dependency d(1) p(1) by (simp add: x)
    moreover have deps: "List.map_filter id deps = d' # List.map_filter id deps'" by (simp only: d(2) d' map_filter_id)
    ultimately show ?thesis
      unfolding deps using ws
      by (intro exI [of _ ws]) (simp add: p x VersionSpec dependency_spec_path_def)
  next
    case (PathSpec r)
    then have none: "d = None" using d(1) by (simp add: x declared_dependency_def dependency_spec_version_def)
    have "module_dependency env module modules (published_dependency p)"
      using path_dependency p(1) Cons.prems(3) by (simp add: x PathSpec)
    moreover have deps: "List.map_filter id deps = List.map_filter id deps'" by (simp only: d(2) none map_filter_id)
    ultimately show ?thesis
      unfolding deps using ws
      by (intro exI [of _ "published_dependency p # ws"]) (simp add: p x PathSpec dependency_spec_path_def)
  qed
qed (simp add: map_filter_id)

text \<open>
  A published POM says what jman resolves. Its text is the rendering of
  an XML tree, in which the parser of the resolver finds the coordinate and packaging of the
  module and, as dependencies, exactly those of the model that jman resolves for the manifest plus
  one for each path dependency, which names the module there with its version. (The texts must
  not begin or end with a blank, which a parser of POMs drops.)
\<close>

theorem published_pom_faithful:
  assumes "generate_pom env module modules publishing = Inr s"
    and "effective_from_manifest (pm_manifest module) = Inr e"
    and "\<forall>ds. pom_dependencies env module modules = Inr ds \<longrightarrow> list_all proper_pom_dependency ds"
    and "proper_project (mf_project (pm_manifest module))"
  shows "\<exists>cs raw ws. s = pom_prologue @ concat (map render cs) @ xml_line ''</project>'' \<and>
    parse_project pf (Element ''project'' cs) True = Inr raw \<and>
    raw_parent raw = None \<and> raw_group raw = Some (c_group (e_coordinate e)) \<and>
    raw_artifact raw = c_artifact (e_coordinate e) \<and> raw_version raw = Some (c_version (e_coordinate e)) \<and>
    raw_packaging raw = e_packaging e \<and>
    mset (raw_dependencies raw) = mset (e_dependencies e) + mset ws \<and>
    list_all (module_dependency env module modules) ws \<and>
    length ws = length (filter (\<lambda>(_, _, spec). dependency_spec_path spec \<noteq> None) (publish_scopes (pm_manifest module)))"
proof -
  let ?m = "pm_manifest module"
  obtain ds where ds: "pom_dependencies env module modules = Inr ds"
    and s: "s = pom_prologue @ render_all (pom_tree (mf_project ?m) publishing ds) @ xml_line ''</project>''"
    using render_pom [OF assms(1)] by blast
  obtain ps where ps: "traverse (pom_dependency_of env module modules) (publish_scopes ?m) = Inr ps" "ds = sort_key pom_order ps"
    using ds by (auto simp: pom_dependencies_def and_then_Inr_iff)
  obtain deps where deps: "traverse (declared_dependency ?m) (publish_scopes ?m) = Inr deps"
    and e: "e_dependencies e = List.map_filter id deps"
      "e_coordinate e = coordinate_pom (pj_group (mf_project ?m)) (pj_name (mf_project ?m)) (pj_version (mf_project ?m))"
      "e_packaging e = pj_packaging (mf_project ?m)"
    using assms(2) by (auto simp: effective_from_manifest_def publish_scopes_eq and_then_Inr_iff)
  obtain raw where "parse_project pf (Element ''project'' (pom_tree (mf_project ?m) publishing ds)) True = Inr raw"
    "raw_parent raw = None" "raw_group raw = Some (pj_group (mf_project ?m))" "raw_artifact raw = pj_name (mf_project ?m)"
    "raw_version raw = Some (pj_version (mf_project ?m))" "raw_packaging raw = pj_packaging (mf_project ?m)"
    "raw_dependencies raw = map published_dependency ds"
    using read_pom [of ds "mf_project ?m" pf publishing] assms(3,4) ds by blast
  moreover obtain ws where "mset (map published_dependency ps) = mset (List.map_filter id deps) + mset ws"
    "list_all (module_dependency env module modules) ws"
    "length ws = length (filter (\<lambda>(_, _, spec). dependency_spec_path spec \<noteq> None) (publish_scopes ?m))"
    using published_dependencies [OF deps ps(1)] by blast
  moreover have "mset (map published_dependency ds) = mset (map published_dependency ps)" by (simp add: ps(2))
  ultimately show ?thesis using s
    by (intro exI [of _ "pom_tree (mf_project ?m) publishing ds"] exI [of _ raw] exI [of _ ws])
      (simp add: e coordinate_pom_def)
qed

end
