(* ===== verification/Publish_Run.thy ===== *)
theory Publish_Run
  imports Publish_Model
begin

text \<open>
  A publication in \<open>crates/jman-publish/src/lib.rs\<close>: artifacts and POMs are staged in a Maven
  layout, signed and given checksums, and then installed in a local directory, uploaded file by
  file, or bundled and sent to Maven Central. The builder (which runs before, with an environment
  of its own), GPG, Git, HTTP, the ZIP format and the digests are parameters; every HTTP request is
  recorded, and a status of HTTP is shown by its number.
\<close>

section \<open>The environment\<close>

record http_request =
  hr_method :: str
  hr_url :: target_url
  hr_authorization :: "str option"
  hr_query :: "(str \<times> str) list"
  hr_body :: str

record http_reply =
  hp_status :: nat
  hp_body :: "(str, str) result"

record package_result =
  pr_module :: str
  pr_kind :: str
  pr_artifact :: path

record publish_state =
  ps_tree :: tree
  ps_requests :: "http_request list"

record publish_env =
  pe_faults :: faults
  pe_pid :: nat
  pe_codec :: toml_codec
  pe_canonical :: "tree \<Rightarrow> path \<Rightarrow> (str, path) result"
  pe_parse_url :: "str \<Rightarrow> (str, target_url) result"
  pe_join_url :: "target_url \<Rightarrow> str \<Rightarrow> (str, target_url) result"
  pe_build :: "path \<Rightarrow> tree \<Rightarrow> (build_error, package_result list) result \<times> tree"
  pe_git_status :: "path \<Rightarrow> (str, bool \<times> str) result"
  pe_gpg :: "str list \<Rightarrow> str option \<Rightarrow> tree \<Rightarrow> (str, bool \<times> str) result \<times> tree"
  pe_md5 :: "str \<Rightarrow> str"
  pe_sha1 :: "str \<Rightarrow> str"
  pe_sha256 :: "str \<Rightarrow> str"
  pe_sha512 :: "str \<Rightarrow> str"
  pe_zip :: "(str \<times> str) list \<Rightarrow> (str, str) result"
  pe_base64 :: "str \<Rightarrow> str"
  pe_multipart :: "str \<Rightarrow> str \<Rightarrow> str"
  pe_send :: "nat \<Rightarrow> http_request \<Rightarrow> (str, http_reply) result"
  pe_parse_status :: "str \<Rightarrow> (str, str \<times> str) result"
  pe_elapsed :: "nat \<Rightarrow> nat"

type_synonym 'a publish_step = "(publish_state, publish_error, 'a) step"

definition on_tree :: "'a tree_op \<Rightarrow> 'a publish_step" where
  "on_tree op s =
     (case op (ps_tree s) of (r, t) \<Rightarrow> (map_err PublishSystem r, s\<lparr>ps_tree := t\<rparr>))"

definition in_context :: "str \<Rightarrow> 'a publish_step \<Rightarrow> 'a publish_step" where
  "in_context m step s = (case step s of (r, s') \<Rightarrow> (publish_context m r, s'))"

definition pure_step :: "'a published \<Rightarrow> 'a publish_step" where
  "pure_step r = step_of r"

definition reads_tree :: "(tree \<Rightarrow> 'a published) \<Rightarrow> 'a publish_step" where
  "reads_tree f s = (f (ps_tree s), s)"

definition publish_view :: "publish_env \<Rightarrow> tree \<Rightarrow> build_env" where
  "publish_view env t =
     \<lparr>be_disk = faulty_disk (pe_faults env) t, be_codec = pe_codec env, be_canonical = pe_canonical env t\<rparr>"

section \<open>Staging\<close>

text \<open>The packages of a module by kind; of several the last counts.\<close>

definition package_of :: "package_result list \<Rightarrow> str \<Rightarrow> str \<Rightarrow> package_result option" where
  "package_of packages module kind =
     List.find (\<lambda>p. pr_module p = module \<and> pr_kind p = kind) (rev packages)"

definition artifact_kinds :: "(str \<times> str) list" where
  "artifact_kinds = [(''thin'', ''.jar''), (''sources'', ''-sources.jar''), (''javadoc'', ''-javadoc.jar'')]"

definition module_directory :: "path \<Rightarrow> publish_module \<Rightarrow> path" where
  "module_directory staging m =
     (let p = mf_project (pm_manifest m)
      in path_join (path_join (path_join staging (path_of (replace_all ''.'' ''/'' (pj_group p))))
           (path_of (pj_name p))) (path_of (pj_version p)))"

definition staged_name :: "publish_module \<Rightarrow> str \<Rightarrow> path" where
  "staged_name m ending =
     path_of (pj_name (mf_project (pm_manifest m)) @ ''-'' @ pj_version (mf_project (pm_manifest m)) @ ending)"

definition stage_pom :: "publish_env \<Rightarrow> path \<Rightarrow> publish_module list \<Rightarrow> publish_module \<Rightarrow> path publish_step" where
  "stage_pom env staging modules m =
     (let directory = module_directory staging m; pom = path_join directory (staged_name m ''.pom'')
      in step_bind (in_context (''could not create '' @ show_path directory)
           (on_tree (fs_create_dir_all (pe_faults env) directory))) (\<lambda>_.
         step_bind (reads_tree (\<lambda>t. generate_pom (publish_view env t) m modules (module_publishing modules m))) (\<lambda>xml.
         step_bind (in_context (''could not write '' @ show_path pom)
           (on_tree (fs_write (pe_faults env) pom xml))) (\<lambda>_.
         pure_step (Inr pom)))))"

definition stage_artifact ::
    "publish_env \<Rightarrow> path \<Rightarrow> package_result list \<Rightarrow> publish_module \<Rightarrow> str \<times> str \<Rightarrow> path publish_step" where
  "stage_artifact env staging packages m = (\<lambda>(kind, ending).
     (let name = pj_name (mf_project (pm_manifest m));
          destination = path_join (module_directory staging m) (staged_name m ending)
      in step_bind (pure_step (ok_or (PublishBail (''build did not produce '' @ kind @ '' artifact for '' @ name))
           (package_of packages name kind))) (\<lambda>package.
         step_bind (in_context (''could not stage '' @ show_path (pr_artifact package) @ '' as '' @ show_path destination)
           (on_tree (fs_copy (pe_faults env) (pr_artifact package) destination))) (\<lambda>_.
         pure_step (Inr destination)))))"

definition stage_module ::
    "publish_env \<Rightarrow> path \<Rightarrow> publish_module list \<Rightarrow> package_result list \<Rightarrow> publish_module \<Rightarrow> path list publish_step" where
  "stage_module env staging modules packages m =
     (let p = mf_project (pm_manifest m)
      in step_bind (stage_pom env staging modules m) (\<lambda>pom.
         if pj_packaging p = ''pom'' then pure_step (Inr [pom])
         else step_bind (pure_step (ensure (list_ex (\<lambda>x. pr_module x = pj_name p) packages)
                (PublishBail (''build did not produce artifacts for module '' @ pj_name p)))) (\<lambda>_.
              step_bind (step_traverse (stage_artifact env staging packages m) artifact_kinds) (\<lambda>artifacts.
              pure_step (Inr (pom # artifacts))))))"

definition stage_modules ::
    "publish_env \<Rightarrow> path \<Rightarrow> publish_module list \<Rightarrow> package_result list \<Rightarrow> path list publish_step" where
  "stage_modules env staging modules packages =
     step_bind (step_traverse (stage_module env staging modules packages) modules) (\<lambda>files.
     pure_step (Inr (sort (concat files))))"

section \<open>Signatures and checksums\<close>

text \<open>A path with a ending on its text.\<close>

definition with_suffix :: "path \<Rightarrow> str \<Rightarrow> path" where
  "with_suffix p ending = path_of (show_path p @ ending)"

definition signature_path :: "path \<Rightarrow> path" where
  "signature_path file = with_suffix file ''.asc''"

definition gpg_command :: "path \<Rightarrow> path \<Rightarrow> str option \<Rightarrow> bool \<Rightarrow> str list" where
  "gpg_command file signature key passphrase =
     [''--batch'', ''--yes'', ''--armor'', ''--detach-sign'', ''--output'', show_path signature] @
     (case key of None \<Rightarrow> [] | Some k \<Rightarrow> [''--local-user'', k]) @
     (if passphrase then [''--pinentry-mode'', ''loopback'', ''--passphrase-fd'', ''0''] else []) @
     [show_path file]"

text \<open>One run of GPG; the passphrase goes to its standard input, never to the arguments.\<close>

definition sign_file :: "publish_env \<Rightarrow> str option \<Rightarrow> str option \<Rightarrow> path \<Rightarrow> unit publish_step" where
  "sign_file env key passphrase file s =
     (case pe_gpg env (gpg_command file (signature_path file) key (passphrase \<noteq> None))
             (map_option (\<lambda>p. p @ [CHR 0x0A]) passphrase) (ps_tree s) of
        (r, t) \<Rightarrow>
          (case r of
             Inl e \<Rightarrow> Inl (PublishContext (''could not start GPG for '' @ show_path file) (PublishSystem e))
           | Inr (success, stderr) \<Rightarrow>
               if success then Inr ()
               else Inl (PublishBail (''GPG signing failed for '' @ show_path file @ '': '' @ trim (utf8_lossy stderr))),
           s\<lparr>ps_tree := t\<rparr>))"

fun sign_files :: "publish_env \<Rightarrow> path list \<Rightarrow> str option \<Rightarrow> str option \<Rightarrow> unit publish_step" where
  "sign_files env [] key passphrase = pure_step (Inr ())"
| "sign_files env (f # fs) key passphrase =
     step_bind (sign_file env key passphrase f) (\<lambda>_. sign_files env fs key passphrase)"

definition file_digests :: "publish_env \<Rightarrow> str \<Rightarrow> (str \<times> str) list" where
  "file_digests env bytes =
     [(''md5'', pe_md5 env bytes), (''sha1'', pe_sha1 env bytes), (''sha256'', pe_sha256 env bytes),
      (''sha512'', pe_sha512 env bytes)]"

fun write_digests :: "publish_env \<Rightarrow> path \<Rightarrow> (str \<times> str) list \<Rightarrow> unit publish_step" where
  "write_digests env file [] = pure_step (Inr ())"
| "write_digests env file ((ending, digest) # rest) =
     step_bind (on_tree (fs_write (pe_faults env) (with_suffix file (''.'' @ ending)) digest))
       (\<lambda>_. write_digests env file rest)"

fun write_checksums :: "publish_env \<Rightarrow> path list \<Rightarrow> unit publish_step" where
  "write_checksums env [] = pure_step (Inr ())"
| "write_checksums env (f # fs) =
     step_bind (on_tree (fs_read (pe_faults env) f)) (\<lambda>bytes.
     step_bind (write_digests env f (file_digests env bytes)) (\<lambda>_. write_checksums env fs))"

section \<open>The files of a repository\<close>

definition directory_entries :: "(path \<times> node) list \<Rightarrow> path list" where
  "directory_entries es = map fst (filter (\<lambda>e. snd e = DirNode) es)"

definition file_entries :: "(path \<times> node) list \<Rightarrow> path list" where
  "file_entries es = map fst (filter (\<lambda>e. case snd e of FileNode _ \<Rightarrow> True | _ \<Rightarrow> False) es)"

function repository_loop :: "faults \<Rightarrow> tree \<Rightarrow> path list \<Rightarrow> path list \<Rightarrow> path list published" where
  "repository_loop faults t pending files =
     (if pending = [] then Inr files
      else (case fst (fs_read_dir faults (last pending) t) of
              Inl e \<Rightarrow> Inl (PublishSystem e)
            | Inr es \<Rightarrow>
                repository_loop faults t (butlast pending @ directory_entries es) (files @ file_entries es)))"
  by pat_completeness auto
termination
proof (relation "inv_image (mult less_than) (\<lambda>(_, t, pending, _). depths t pending)", goal_cases)
  case (2 faults t pending files es)
  then have "set es \<subseteq> set t" "\<forall>e \<in> set es. path_parent (fst e) = Some (last pending)"
    by (auto simp: fs_read_dir_def guarded_def split: option.splits if_splits)
  then have "d \<in> fst ` set t \<and> path_parent d = Some (last pending)" if "d \<in> set (directory_entries es)" for d
    using that by (auto simp: directory_entries_def)
  then show ?case using depths_decrease [OF 2(1)] by simp
qed (simp add: wf_mult)

declare repository_loop.simps [simp del]

definition repository_files :: "publish_env \<Rightarrow> tree \<Rightarrow> path \<Rightarrow> path list published" where
  "repository_files env t root = repository_loop (pe_faults env) t [root] []"

definition published_path :: "path \<Rightarrow> path \<Rightarrow> str published" where
  "published_path root file =
     and_then (ok_or (PublishSystem ''prefix not found'') (path_strip_prefix root file)) (\<lambda>relative.
     Inr (join_with ''/'' (map (utf8_lossy \<circ> show_component) relative)))"

record published_file =
  pf_path :: str
  pf_size :: nat
  pf_sha256 :: str
  pf_sha512 :: str

definition read_published :: "publish_env \<Rightarrow> path \<Rightarrow> str publish_step" where
  "read_published env file = on_tree (fs_read (pe_faults env) file)"

definition describe_file :: "publish_env \<Rightarrow> path \<Rightarrow> path \<Rightarrow> published_file publish_step" where
  "describe_file env root file =
     step_bind (read_published env file) (\<lambda>bytes.
     step_bind (pure_step (published_path root file)) (\<lambda>p.
     pure_step (Inr \<lparr>pf_path = p, pf_size = length bytes, pf_sha256 = pe_sha256 env bytes,
                     pf_sha512 = pe_sha512 env bytes\<rparr>)))"

definition sorted_files :: "publish_env \<Rightarrow> path \<Rightarrow> path list publish_step" where
  "sorted_files env root =
     reads_tree (\<lambda>t. and_then (repository_files env t root) (\<lambda>files. Inr (sort files)))"

definition describe_files :: "publish_env \<Rightarrow> path \<Rightarrow> published_file list publish_step" where
  "describe_files env root =
     step_bind (sorted_files env root) (step_traverse (describe_file env root))"

section \<open>Installation in a directory\<close>

definition install_temporary :: "publish_env \<Rightarrow> path \<Rightarrow> path" where
  "install_temporary env destination =
     with_extension destination ((case path_extension destination of Some e \<Rightarrow> e | None \<Rightarrow> ''file'') @
       ''.jman-tmp-'' @ show_nat (pe_pid env))"

definition install_file :: "publish_env \<Rightarrow> path \<Rightarrow> path \<Rightarrow> path \<Rightarrow> unit publish_step" where
  "install_file env staging repository source =
     step_bind (pure_step (ok_or (PublishSystem ''prefix not found'') (path_strip_prefix staging source))) (\<lambda>relative.
     let destination = path_join repository relative; temporary = install_temporary env destination
     in step_bind (case path_parent destination of
            None \<Rightarrow> pure_step (Inr ())
          | Some parent \<Rightarrow> on_tree (fs_create_dir_all (pe_faults env) parent)) (\<lambda>_.
        step_bind (on_tree (fs_copy (pe_faults env) source temporary)) (\<lambda>_.
        step_bind (\<lambda>s. (if fs_exists (ps_tree s) destination
            then on_tree (fs_remove_file (pe_faults env) destination) else pure_step (Inr ())) s) (\<lambda>_.
        on_tree (fs_rename (pe_faults env) temporary destination)))))"

fun install_files :: "publish_env \<Rightarrow> path \<Rightarrow> path \<Rightarrow> path list \<Rightarrow> unit publish_step" where
  "install_files env staging repository [] = pure_step (Inr ())"
| "install_files env staging repository (f # fs) =
     step_bind (install_file env staging repository f) (\<lambda>_. install_files env staging repository fs)"

definition install_local :: "publish_env \<Rightarrow> path \<Rightarrow> path \<Rightarrow> unit publish_step" where
  "install_local env staging repository =
     step_bind (on_tree (fs_create_dir_all (pe_faults env) repository)) (\<lambda>_.
     step_bind (reads_tree (\<lambda>t. repository_files env t staging)) (install_files env staging repository))"

section \<open>Uploads\<close>

definition send_request :: "publish_env \<Rightarrow> http_request \<Rightarrow> http_reply publish_step" where
  "send_request env request s =
     (map_err PublishSystem (pe_send env (length (ps_requests s)) request),
      s\<lparr>ps_requests := ps_requests s @ [request]\<rparr>)"

text \<open>A token goes first, then a name with its password.\<close>

definition authenticated :: "publish_env \<Rightarrow> repository_credentials \<Rightarrow> str option" where
  "authenticated env credentials =
     (case rc_token credentials of
        Some token \<Rightarrow> Some (''Bearer '' @ token)
      | None \<Rightarrow>
          (case (rc_username credentials, rc_password credentials) of
             (Some u, Some p) \<Rightarrow> Some (''Basic '' @ pe_base64 env (u @ '':'' @ p))
           | _ \<Rightarrow> None))"

definition is_success :: "nat \<Rightarrow> bool" where
  "is_success status \<longleftrightarrow> 200 \<le> status \<and> status < 300"

definition reply_text :: "http_reply \<Rightarrow> str" where
  "reply_text reply = (case hp_body reply of Inr b \<Rightarrow> b | Inl _ \<Rightarrow> [])"

definition upload_file ::
    "publish_env \<Rightarrow> path \<Rightarrow> target_url \<Rightarrow> repository_credentials \<Rightarrow> path \<Rightarrow> unit publish_step" where
  "upload_file env staging base credentials file =
     step_bind (pure_step (published_path staging file)) (\<lambda>relative.
     step_bind (pure_step (map_err (\<lambda>e. PublishContext (''invalid repository path '' @ relative) (PublishSystem e))
       (pe_join_url env base relative))) (\<lambda>url.
     step_bind (read_published env file) (\<lambda>bytes.
     step_bind (send_request env
       \<lparr>hr_method = ''PUT'', hr_url = url, hr_authorization = authenticated env credentials, hr_query = [],
        hr_body = bytes\<rparr>) (\<lambda>reply.
     pure_step (ensure (is_success (hp_status reply))
       (PublishBail (''repository rejected '' @ relative @ '' with '' @ show_nat (hp_status reply) @ '': '' @
          reply_text reply)))))))"

fun upload_files ::
    "publish_env \<Rightarrow> path \<Rightarrow> target_url \<Rightarrow> repository_credentials \<Rightarrow> path list \<Rightarrow> unit publish_step" where
  "upload_files env staging base credentials [] = pure_step (Inr ())"
| "upload_files env staging base credentials (f # fs) =
     step_bind (upload_file env staging base credentials f) (\<lambda>_. upload_files env staging base credentials fs)"

definition upload_repository :: "publish_env \<Rightarrow> path \<Rightarrow> target_url \<Rightarrow> repository_credentials \<Rightarrow> unit publish_step" where
  "upload_repository env staging base credentials =
     step_bind (pure_step (validate_repository_credentials credentials)) (\<lambda>_.
     step_bind (sorted_files env staging)
       (upload_files env staging (repository_base_url base) credentials))"

definition bundle_entry :: "publish_env \<Rightarrow> path \<Rightarrow> path \<Rightarrow> (str \<times> str) publish_step" where
  "bundle_entry env staging file =
     step_bind (pure_step (published_path staging file)) (\<lambda>name.
     step_bind (read_published env file) (\<lambda>bytes. pure_step (Inr (name, bytes))))"

definition create_bundle :: "publish_env \<Rightarrow> path \<Rightarrow> path \<Rightarrow> unit publish_step" where
  "create_bundle env staging bundle =
     step_bind (sorted_files env staging) (\<lambda>files.
     step_bind (step_traverse (bundle_entry env staging) files) (\<lambda>entries.
     step_bind (pure_step (map_err PublishSystem (pe_zip env entries))) (\<lambda>bytes.
     step_bind (case path_parent bundle of
         None \<Rightarrow> pure_step (Inr ())
       | Some parent \<Rightarrow> on_tree (fs_create_dir_all (pe_faults env) parent)) (\<lambda>_.
     on_tree (fs_write (pe_faults env) bundle bytes)))))"

definition trim_quotes :: "str \<Rightarrow> str" where
  "trim_quotes s = rev (dropWhile (\<lambda>c. c = CHR 0x22) (rev (dropWhile (\<lambda>c. c = CHR 0x22) s)))"

text \<open>
  One question for the state of a deployment: the final state, or \<open>None\<close> to go on waiting.
  The result of the loop is \<open>None\<close> when it does not end.
\<close>

definition central_poll ::
    "publish_env \<Rightarrow> str \<Rightarrow> target_url \<Rightarrow> str \<Rightarrow> str \<Rightarrow> str option publish_step" where
  "central_poll env token api_url deployment terminal =
     step_bind (pure_step (map_err PublishSystem (pe_join_url env api_url ''status''))) (\<lambda>url.
     step_bind (send_request env
       \<lparr>hr_method = ''POST'', hr_url = url, hr_authorization = Some (''Bearer '' @ token),
        hr_query = [(''id'', deployment)], hr_body = []\<rparr>) (\<lambda>reply.
     if \<not> is_success (hp_status reply)
     then pure_step (Inl (PublishBail (''could not read Maven Central deployment '' @ deployment @ '': '' @
            show_nat (hp_status reply) @ '': '' @ reply_text reply)))
     else step_bind (pure_step (map_err PublishSystem (and_then (hp_body reply) (pe_parse_status env)))) (\<lambda>(state, errors).
          if state = terminal then pure_step (Inr (Some state))
          else if state = ''FAILED''
          then pure_step (Inl (PublishBail (''Maven Central deployment '' @ deployment @ '' failed validation: '' @ errors)))
          else pure_step (Inr None))))"

partial_function (option) central_wait ::
    "publish_env \<Rightarrow> str \<Rightarrow> target_url \<Rightarrow> nat \<Rightarrow> str \<Rightarrow> str \<Rightarrow> nat \<Rightarrow> publish_state \<Rightarrow>
     ((str \<times> str) published \<times> publish_state) option" where
  "central_wait env token api_url timeout deployment terminal n s =
     (if timeout \<le> pe_elapsed env n
      then Some (Inl (PublishBail (''timed out waiting for Maven Central deployment '' @ deployment)), s)
      else (case central_poll env token api_url deployment terminal s of
              (Inl e, s') \<Rightarrow> Some (Inl e, s')
            | (Inr (Some state), s') \<Rightarrow> Some (Inr (deployment, state), s')
            | (Inr None, s') \<Rightarrow> central_wait env token api_url timeout deployment terminal (Suc n) s'))"

declare central_wait.simps [code]

definition central_upload ::
    "publish_env \<Rightarrow> path \<Rightarrow> str \<Rightarrow> bool \<Rightarrow> target_url \<Rightarrow> str publish_step" where
  "central_upload env bundle token automatic api_url =
     step_bind (pure_step (ensure (trim token \<noteq> []) (PublishBail ''Maven Central token cannot be empty''))) (\<lambda>_.
     step_bind (pure_step (map_err PublishSystem (pe_join_url env api_url ''upload''))) (\<lambda>url.
     step_bind (read_published env bundle) (\<lambda>bytes.
     step_bind (send_request env
       \<lparr>hr_method = ''POST'', hr_url = url, hr_authorization = Some (''Bearer '' @ token),
        hr_query = [(''name'', ''JMAN publication''),
          (''publishingType'', if automatic then ''AUTOMATIC'' else ''USER_MANAGED'')],
        hr_body = pe_multipart env
          (case path_file_name bundle of Some n \<Rightarrow> n | None \<Rightarrow> ''central-bundle.zip'') bytes\<rparr>) (\<lambda>reply.
     if \<not> is_success (hp_status reply)
     then pure_step (Inl (PublishBail (''Maven Central rejected the bundle with '' @ show_nat (hp_status reply) @
            '': '' @ reply_text reply)))
     else step_bind (pure_step (map_err PublishSystem (hp_body reply))) (\<lambda>body.
          pure_step (let deployment = trim (trim_quotes body)
            in if deployment = [] then Inl (PublishBail ''Maven Central returned an empty deployment ID'')
               else Inr deployment))))))"

definition terminal_state :: "bool \<Rightarrow> str" where
  "terminal_state automatic = (if automatic then ''PUBLISHED'' else ''VALIDATED'')"

definition upload_central ::
    "publish_env \<Rightarrow> path \<Rightarrow> str \<Rightarrow> bool \<Rightarrow> target_url \<Rightarrow> nat \<Rightarrow> publish_state \<Rightarrow>
     ((str \<times> str) published \<times> publish_state) option" where
  "upload_central env bundle token automatic api_url timeout s =
     (case central_upload env bundle token automatic api_url s of
        (Inl e, s') \<Rightarrow> Some (Inl e, s')
      | (Inr deployment, s') \<Rightarrow>
          central_wait env token api_url timeout deployment (terminal_state automatic) 0 s')"

section \<open>The publication\<close>

record publish_options =
  pu_root :: path
  pu_jobs :: nat
  pu_dry_run :: bool
  pu_sign :: bool
  pu_gpg_key :: "str option"
  pu_gpg_passphrase :: "str option"
  pu_allow_dirty :: bool
  pu_timeout :: nat
  pu_target :: publish_target

record publish_report =
  rp_target :: str
  rp_dry_run :: bool
  rp_staging :: path
  rp_bundle :: "path option"
  rp_deployment :: "(str \<times> str) option"
  rp_modules :: "(str \<times> str \<times> str \<times> str) list"
  rp_files :: "published_file list"

definition target_name :: "publish_target \<Rightarrow> str" where
  "target_name target =
     (case target of LocalTarget _ \<Rightarrow> ''local'' | RepositoryTarget _ _ _ \<Rightarrow> ''repository''
      | CentralTarget _ _ _ \<Rightarrow> ''central'')"

definition is_remote :: "publish_target \<Rightarrow> bool" where
  "is_remote target = (case target of LocalTarget _ \<Rightarrow> False | _ \<Rightarrow> True)"

definition ensure_clean_worktree :: "publish_env \<Rightarrow> path \<Rightarrow> unit published" where
  "ensure_clean_worktree env root =
     and_then (map_err (\<lambda>e. PublishContext ''could not inspect the Git worktree before publication'' (PublishSystem e))
       (pe_git_status env root)) (\<lambda>(success, stdout).
     and_then (ensure success (PublishBail ''could not inspect the Git worktree before publication'')) (\<lambda>_.
     ensure (stdout = [])
       (PublishBail ''refusing to publish a dirty Git worktree; commit changes or pass --allow-dirty'')))"

definition reset_directory :: "publish_env \<Rightarrow> path \<Rightarrow> unit publish_step" where
  "reset_directory env p =
     step_bind (\<lambda>s. (if fs_exists (ps_tree s) p
       then in_context (''could not reset '' @ show_path p) (on_tree (fs_remove_dir_all (pe_faults env) p))
       else pure_step (Inr ())) s) (\<lambda>_.
     in_context (''could not create '' @ show_path p) (on_tree (fs_create_dir_all (pe_faults env) p)))"

text \<open>What is checked before anything is built.\<close>

definition check_target :: "publish_target \<Rightarrow> unit published" where
  "check_target target =
     (case target of
        RepositoryTarget url credentials allow_insecure \<Rightarrow>
          and_then (validate_repository_url url allow_insecure) (\<lambda>_. validate_repository_credentials credentials)
      | _ \<Rightarrow> Inr ())"

definition check_publication :: "publish_env \<Rightarrow> publish_options \<Rightarrow> path \<Rightarrow> publish_module list \<Rightarrow> unit published" where
  "check_publication env options root modules =
     and_then (validate_workspace (pe_parse_url env) modules (pu_target options)) (\<lambda>_.
     and_then (check_target (pu_target options)) (\<lambda>_.
     if is_remote (pu_target options) \<and> \<not> pu_dry_run options \<and> \<not> pu_allow_dirty options
     then ensure_clean_worktree env root else Inr ()))"

definition build_packages :: "publish_env \<Rightarrow> path \<Rightarrow> package_result list publish_step" where
  "build_packages env root s =
     (case pe_build env root (ps_tree s) of
        (r, t) \<Rightarrow> (map_err (\<lambda>e. PublishContext ''could not build publication artifacts'' (PublishBuild e)) r,
                  s\<lparr>ps_tree := t\<rparr>))"

definition publication_root :: "path \<Rightarrow> path" where
  "publication_root root = path_join root (path_of ''.jman/publications'')"

definition staging_root :: "path \<Rightarrow> path" where
  "staging_root root = path_join (publication_root root) (path_of ''repository'')"

definition must_sign :: "publish_options \<Rightarrow> bool" where
  "must_sign options \<longleftrightarrow> pu_sign options \<or> is_central (pu_target options)"

definition stage_publication ::
    "publish_env \<Rightarrow> publish_options \<Rightarrow> path \<Rightarrow> publish_module list \<Rightarrow> publish_report publish_step" where
  "stage_publication env options root modules =
     step_bind (build_packages env root) (\<lambda>packages.
     step_bind (reset_directory env (staging_root root)) (\<lambda>_.
     step_bind (stage_modules env (staging_root root) modules packages) (\<lambda>primary.
     step_bind (if must_sign options
         then sign_files env primary (pu_gpg_key options) (pu_gpg_passphrase options) else pure_step (Inr ())) (\<lambda>_.
     step_bind (write_checksums env primary) (\<lambda>_.
     step_bind (describe_files env (staging_root root)) (\<lambda>files.
     pure_step (Inr
       \<lparr>rp_target = target_name (pu_target options), rp_dry_run = pu_dry_run options,
        rp_staging = staging_root root, rp_bundle = None, rp_deployment = None,
        rp_modules = map (\<lambda>m. let p = mf_project (pm_manifest m)
          in (pj_group p, pj_name p, pj_version p, pj_packaging p)) modules,
        rp_files = files\<rparr>)))))))"

definition deliver_file_target ::
    "publish_env \<Rightarrow> publish_options \<Rightarrow> path \<Rightarrow> publish_report \<Rightarrow> publish_report publish_step" where
  "deliver_file_target env options root report =
     (case pu_target options of
        LocalTarget repository \<Rightarrow>
          step_bind (if pu_dry_run options then pure_step (Inr ())
            else install_local env (staging_root root) repository) (\<lambda>_. pure_step (Inr report))
      | RepositoryTarget url credentials allow_insecure \<Rightarrow>
          step_bind (pure_step (validate_repository_url url allow_insecure)) (\<lambda>_.
          step_bind (if pu_dry_run options then pure_step (Inr ())
            else upload_repository env (staging_root root) url credentials) (\<lambda>_. pure_step (Inr report)))
      | CentralTarget _ _ _ \<Rightarrow>
          (let bundle = path_join (publication_root root) (path_of ''central-bundle.zip'')
           in step_bind (create_bundle env (staging_root root) bundle) (\<lambda>_.
              pure_step (Inr (report\<lparr>rp_bundle := Some bundle\<rparr>)))))"

text \<open>The delivery: a bundle for Maven Central is uploaded after it has been written.\<close>

definition deliver ::
    "publish_env \<Rightarrow> publish_options \<Rightarrow> path \<Rightarrow> publish_report \<Rightarrow> publish_state \<Rightarrow>
     (publish_report published \<times> publish_state) option" where
  "deliver env options root report s =
     (case deliver_file_target env options root report s of
        (Inl e, s') \<Rightarrow> Some (Inl e, s')
      | (Inr report, s') \<Rightarrow>
          (case (pu_target options, rp_bundle report) of
             (CentralTarget token automatic api_url, Some bundle) \<Rightarrow>
               if pu_dry_run options then Some (Inr report, s')
               else map_option (\<lambda>(r, s'). (and_then r (\<lambda>deployment. Inr (report\<lparr>rp_deployment := Some deployment\<rparr>)), s'))
                      (upload_central env bundle token automatic api_url (pu_timeout options) s')
           | _ \<Rightarrow> Some (Inr report, s')))"

definition publish ::
    "publish_env \<Rightarrow> publish_options \<Rightarrow> publish_state \<Rightarrow> (publish_report published \<times> publish_state) option" where
  "publish env options s =
     (if pu_jobs options = 0 then Some (Inl (PublishBail ''publish jobs must be at least 1''), s)
      else (case pe_canonical env (ps_tree s) (pu_root options) of
              Inl e \<Rightarrow> Some (Inl (PublishContext (''could not resolve '' @ show_path (pu_root options))
                (PublishSystem e)), s)
            | Inr root \<Rightarrow>
                (case publish_discover (publish_view env (ps_tree s)) root of
                   None \<Rightarrow> None
                 | Some (Inl e) \<Rightarrow> Some (Inl e, s)
                 | Some (Inr modules) \<Rightarrow>
                     (case check_publication env options root modules of
                        Inl e \<Rightarrow> Some (Inl e, s)
                      | Inr _ \<Rightarrow>
                          (case stage_publication env options root modules s of
                             (Inl e, s') \<Rightarrow> Some (Inl e, s')
                           | (Inr report, s') \<Rightarrow> deliver env options root report s')))))"

definition central_token :: "publish_env \<Rightarrow> str \<Rightarrow> str \<Rightarrow> str" where
  "central_token env username password = pe_base64 env (username @ '':'' @ password)"

end
