(* ===== verification/Publish_Staging.thy ===== *)
theory Publish_Staging
  imports Publish_Run Lock_Facts
begin

text \<open>
  Where a publication stages its files: below the staging directory, one place for each, because
  the manifests of the discovered modules have been validated.
\<close>

section \<open>Discovered modules have valid manifests\<close>

lemma manifest_read_valid:
  assumes "manifest_read codec d p = Inr m"
  shows "manifest_validate m = Inr ()"
proof -
  obtain f where f: "manifest_file_read codec d p = Inr f"
    "(case f of ProjectFile m \<Rightarrow> Inr m | ToolchainFile _ \<Rightarrow> Inl (ToolchainOnly p)) = Inr m"
    using assms by (auto simp: manifest_read_def and_then_Inr_iff)
  then have "f = ProjectFile m" by (cases f) simp_all
  then show ?thesis
    using f(1) by (auto simp: manifest_file_read_def and_then_Inr_iff split: if_splits)
qed

lemma discover_loop_valid:
  assumes "publish_discover_loop env root pending seen raw = Some r"
    and "r = Inr found" "\<forall>x \<in> set raw. manifest_validate (snd x) = Inr ()"
  shows "\<forall>x \<in> set found. manifest_validate (snd x) = Inr ()"
  using assms
proof (induction arbitrary: found rule: publish_discover_loop.raw_induct [rotated, consumes 1, case_names loop])
  case (loop rec env root pending seen raw r)
  show ?case
  proof (cases "pending = []")
    case True
    then show ?thesis using loop.hyps loop.prems by simp
  next
    case False
    then show ?thesis
      using loop.hyps loop.prems
      by (simp split: sum.splits if_splits) (erule loop.IH, simp, auto dest: manifest_read_valid)
  qed
qed

lemma order_in_range:
  assumes "order_loop modules remaining complete order = Inr r" "set remaining \<union> set order \<subseteq> {..<n}"
  shows "set r \<subseteq> {..<n}"
  using assms
proof (induction modules remaining complete order rule: order_loop.induct)
  case (1 modules remaining complete order)
  have "set (publish_ready modules remaining complete) \<subseteq> set remaining" by (auto simp: publish_ready_def)
  with 1 show ?case by (subst (asm) (2) order_loop.simps) (auto split: if_splits)
qed

lemma discovered_valid:
  assumes "publish_discover env root = Some (Inr modules)" "m \<in> set modules"
  shows "manifest_validate (pm_manifest m) = Inr ()"
proof -
  obtain raw ms order where loop: "publish_discover_loop env root [root] [] [] = Some (Inr raw)"
    and ms: "traverse (publish_module_of env root raw) raw = Inr ms"
    and order: "topological_order ms = Inr order" "modules = map (nth ms) order"
    using assms(1) by (auto simp: publish_discover_def and_then_Inr_iff)
  have valid: "\<forall>x \<in> set raw. manifest_validate (snd x) = Inr ()"
    by (rule discover_loop_valid [OF loop refl]) simp
  have "list_all2 (\<lambda>x m. pm_manifest m = snd x) raw ms"
    using ms unfolding traverse_Inr_iff
    by (rule list_all2_mono) (auto simp: publish_module_of_def and_then_Inr_iff)
  then have "\<forall>i < length ms. \<exists>x \<in> set raw. pm_manifest (ms ! i) = snd x"
    by (auto simp: list_all2_conv_all_nth)
  moreover have "set order \<subseteq> {..<length ms}"
    using order_in_range order(1) by (fastforce simp: topological_order_def atLeast0LessThan)
  ultimately show ?thesis using assms(2) valid by (auto simp: order(2)) (metis lessThan_iff subsetD)
qed

section \<open>The place of a module\<close>

lemma slash: "\<not> is_alnum (CHR ''/'')" "\<not> is_alpha (CHR ''/'')" "\<not> is_alnum (CHR ''.'')" "\<not> is_alpha (CHR ''.'')"
  by code_simp+

lemma identifier_name:
  assumes "is_java_identifier w"
  shows "proper_name w"
proof -
  obtain c cs where w: "w = c # cs" and c: "c = CHR ''_'' \<or> c = CHR ''$'' \<or> is_alpha c"
    and cs: "\<forall>c \<in> set cs. c = CHR ''_'' \<or> c = CHR ''$'' \<or> is_alnum c"
    using assms by (cases w) (simp_all only: is_java_identifier_def list.case list_all_iff, blast)
  have plain: "x \<notin> {CHR ''_'', CHR ''$''}" if "x = CHR ''/'' \<or> x = CHR ''.''" for x
    using that by (elim disjE) simp_all
  have "c \<noteq> CHR ''/''" using c slash plain by blast
  moreover have "c \<noteq> CHR ''.''" using c slash plain by blast
  moreover have "CHR ''/'' \<notin> set cs" using cs slash plain by blast
  ultimately show ?thesis unfolding w proper_name_def by (simp only: list.simps insert_iff empty_iff) blast
qed

lemma segment_name: "validate_repository_segment s label = Inr () \<Longrightarrow> proper_name s"
  using slash by (auto simp: validate_repository_segment_def proper_name_def list_all_iff)

definition module_names :: "publish_module \<Rightarrow> str list" where
  "module_names m =
     (let p = mf_project (pm_manifest m) in split_char (CHR ''.'') (pj_group p) @ [pj_name p, pj_version p])"

lemma valid_group:
  assumes "manifest_validate m = Inr ()"
  shows "\<forall>w \<in> set (split_char (CHR ''.'') (pj_group (mf_project m))). proper_name w"
  using assms by (auto simp: manifest_validate_def checks_Inr_iff validate_java_name_def list_all_iff identifier_name)

lemma join_names: "path_join p (map Normal ws) = p @ map Normal ws"
  by (cases ws) (simp_all add: path_join_def is_absolute_def)

lemma module_directory_names:
  assumes "manifest_validate (pm_manifest m) = Inr ()"
    and "proper_name (pj_name (mf_project (pm_manifest m)))" "proper_name (pj_version (mf_project (pm_manifest m)))"
  shows "module_directory staging m = staging @ map Normal (module_names m)"
proof -
  have "path_of (replace_all ''.'' ''/'' (pj_group (mf_project (pm_manifest m)))) =
      map Normal (split_char (CHR ''.'') (pj_group (mf_project (pm_manifest m))))"
    unfolding group_directories by (rule path_of_joined) (use valid_group [OF assms(1)] in simp_all)
  then show ?thesis
    using assms(2,3) by (simp add: module_directory_def module_names_def Let_def path_of_name join_names path_join_name)
qed

lemma staged_name_proper:
  assumes "proper_name (pj_name (mf_project (pm_manifest m)))" "proper_name (pj_version (mf_project (pm_manifest m)))"
    and "CHR ''/'' \<notin> set ending"
  shows "staged_name m ending = [Normal (pj_name (mf_project (pm_manifest m)) @ ''-'' @ pj_version (mf_project (pm_manifest m)) @ ending)]"
proof -
  have "proper_name (a @ ''-'' @ b @ ending)" if "proper_name a" "proper_name b" for a b
    using that assms(3) by (auto simp: proper_name_def Cons_eq_append_conv append_eq_Cons_conv)
  then show ?thesis unfolding staged_name_def by (rule path_of_name) (use assms in auto)
qed

lemma step_traverse_results:
  "step_traverse f xs s = (Inr ys, s') \<Longrightarrow> list_all2 (\<lambda>x y. \<exists>s s'. f x s = (Inr y, s')) xs ys"
proof (induction xs arbitrary: ys s s')
  case (Cons x xs)
  then obtain y s1 zs s2 where "f x s = (Inr y, s1)" "step_traverse f xs s1 = (Inr zs, s2)" "ys = y # zs"
    by (auto simp: step_bind_Inr)
  with Cons.IH show ?case by auto
qed simp

definition staged_endings :: "publish_module \<Rightarrow> str list" where
  "staged_endings m =
     (if pj_packaging (mf_project (pm_manifest m)) = ''pom'' then [''.pom'']
      else [''.pom'', ''.jar'', ''-sources.jar'', ''-javadoc.jar''])"

lemma stage_module_files:
  assumes "stage_module env staging modules packages m s = (Inr fs, s')"
  shows "fs = map (\<lambda>e. path_join (module_directory staging m) (staged_name m e)) (staged_endings m)"
proof -
  let ?place = "\<lambda>e. path_join (module_directory staging m) (staged_name m e)"
  have pom: "p = ?place ''.pom''" if "stage_pom env staging modules m s = (Inr p, s')" for p s s'
    using that by (auto simp: stage_pom_def Let_def step_bind_Inr pure_step_def)
  have one: "p = ?place (snd k)" if "stage_artifact env staging packages m k s = (Inr p, s')" for p k s s'
    using that by (cases k) (auto simp: stage_artifact_def Let_def step_bind_Inr pure_step_def)
  have "ps = map (?place \<circ> snd) artifact_kinds"
    if "step_traverse (stage_artifact env staging packages m) artifact_kinds s = (Inr ps, s')" for ps s s'
  proof -
    have "list_all2 (\<lambda>k p. p = ?place (snd k)) artifact_kinds ps"
      using step_traverse_results [OF that] by (rule list_all2_mono) (use one in blast)
    then show ?thesis by (simp add: list_all2_conv_all_nth list_eq_iff_nth_eq)
  qed
  note artifacts = this
  obtain p s1 where p: "stage_pom env staging modules m s = (Inr p, s1)"
    using assms by (auto simp: stage_module_def Let_def step_bind_Inr)
  show ?thesis
  proof (cases "pj_packaging (mf_project (pm_manifest m)) = ''pom''")
    case True
    then have "fs = [p]" using assms by (auto simp: stage_module_def Let_def step_bind_Inr pure_step_def p)
    then show ?thesis using pom [OF p] True by (simp add: staged_endings_def)
  next
    case False
    then obtain s1 s2 ps where "step_traverse (stage_artifact env staging packages m) artifact_kinds s1 = (Inr ps, s2)" "fs = p # ps"
      using assms by (simp only: stage_module_def Let_def step_bind_Inr pure_step_def p if_False step_of_eq) blast
    then show ?thesis using pom [OF p] artifacts False by (simp add: staged_endings_def artifact_kinds_def)
  qed
qed

lemma endings_distinct: "distinct (staged_endings m) \<and> (\<forall>e \<in> set (staged_endings m). CHR ''/'' \<notin> set e)"
  by (simp add: staged_endings_def)

text \<open>
  C21: The files a publication stages lie below the staging directory, at paths
  of plain names (group, artifact and version), and no two of them are the same: no artifact
  escapes the directory or overwrites another. The checks of the manifests and of the publication
  are what guarantees it.
\<close>

theorem staged_paths_confined:
  assumes "publish_discover view root = Some (Inr modules)"
    and "validate_workspace parse_url modules target = Inr ()"
    and "stage_modules env staging modules packages s = (Inr files, s')"
  shows "distinct files \<and>
    (\<forall>f \<in> set files. \<exists>names. names \<noteq> [] \<and> list_all proper_name names \<and> f = staging @ map Normal names)"
proof -
  let ?project = "\<lambda>m. mf_project (pm_manifest m)"
  let ?names = "\<lambda>m e. module_names m @ [pj_name (?project m) @ ''-'' @ pj_version (?project m) @ e]"
  have checked: "validate_publish_modules (validate_publish_module parse_url modules target) modules [] = Inr ()"
    using assms(2) by (simp add: validate_workspace_def)
  have checks: "distinct (map published_name ms) \<and> set (map published_name ms) \<inter> set names = {} \<and>
      (\<forall>m \<in> set ms. check m = Inr ())"
    if "validate_publish_modules check ms names = Inr ()" for check ms names
    using that by (induction check ms names rule: validate_publish_modules.induct) (auto simp: and_then_Inr_iff split: if_splits)
  have proper: "proper_name (pj_name (?project m)) \<and> proper_name (pj_version (?project m))" if "m \<in> set modules" for m
    using checks [OF checked] that segment_name by (auto simp: validate_publish_module_def Let_def and_then_Inr_iff)
  have place: "path_join (module_directory staging m) (staged_name m e) = staging @ map Normal (?names m e)"
    if "m \<in> set modules" "e \<in> set (staged_endings m)" for m e
    using that proper [OF that(1)] endings_distinct [of m] discovered_valid [OF assms(1) that(1)]
    by (simp add: module_directory_names staged_name_proper path_join_name)
  obtain fss where fss: "step_traverse (stage_module env staging modules packages) modules s = (Inr fss, s')"
    and files: "files = sort (concat fss)"
    using assms(3) by (auto simp: stage_modules_def step_bind_Inr pure_step_def)
  have "list_all2 (\<lambda>m fs. m \<in> set modules \<and>
      fs = map (\<lambda>e. path_join (module_directory staging m) (staged_name m e)) (staged_endings m)) modules fss"
    using step_traverse_results [OF fss] stage_module_files
    by (auto simp: list_all2_conv_all_nth)
  then have "fss = map (\<lambda>m. map (\<lambda>e. staging @ map Normal (?names m e)) (staged_endings m)) modules"
    using place by (auto simp: list_all2_conv_all_nth list_eq_iff_nth_eq)
  then have all: "concat fss = concat (map (\<lambda>m. map (\<lambda>e. staging @ map Normal (?names m e)) (staged_endings m)) modules)"
    by simp
  have inj: "m = m' \<and> e = e'" if "m \<in> set modules" "m' \<in> set modules" "?names m e = ?names m' e'" for m m' e e'
  proof -
    have "published_name m = published_name m'"
      using that(3) by (simp add: module_names_def published_name_def Let_def)
    then have "m = m'" using checks [OF checked] that(1,2) by (auto simp: distinct_map inj_on_def)
    with that(3) show ?thesis by simp
  qed
  have "distinct (concat (map (\<lambda>m. map (\<lambda>e. staging @ map Normal (?names m e)) (staged_endings m)) ms))"
    if "distinct ms" "set ms \<subseteq> set modules" for ms
    using that
  proof (induction ms)
    case (Cons m ms)
    have "distinct (map (\<lambda>e. staging @ map Normal (?names m e)) (staged_endings m))"
      using endings_distinct [of m] by (simp add: distinct_map inj_on_def)
    moreover have "x \<notin> set (map (\<lambda>e. staging @ map Normal (?names m e)) (staged_endings m))"
      if x: "x \<in> set (concat (map (\<lambda>m. map (\<lambda>e. staging @ map Normal (?names m e)) (staged_endings m)) ms))" for x
    proof
      assume "x \<in> set (map (\<lambda>e. staging @ map Normal (?names m e)) (staged_endings m))"
      then obtain e where e: "x = staging @ map Normal (?names m e)" by auto
      from x obtain m' e' where "m' \<in> set ms" "x = staging @ map Normal (?names m' e')" by auto
      then have "m' = m" using inj [of m m' e e'] e Cons.prems(2)
        by (auto dest: map_injective [OF _ injI] simp: inj_on_def)
      then show False using \<open>m' \<in> set ms\<close> Cons.prems(1) by simp
    qed
    moreover have "distinct (concat (map (\<lambda>m. map (\<lambda>e. staging @ map Normal (?names m e)) (staged_endings m)) ms))"
      using Cons.IH Cons.prems by simp
    ultimately show ?case unfolding list.map concat.simps distinct_append by blast
  qed simp
  moreover have "distinct modules" using checks [OF checked] by (simp add: distinct_map)
  ultimately have "distinct files" by (simp add: files all)
  moreover have "\<exists>names. names \<noteq> [] \<and> list_all proper_name names \<and> f = staging @ map Normal names" if f_in: "f \<in> set files" for f
  proof -
    obtain m e where m: "m \<in> set modules" "e \<in> set (staged_endings m)" and f: "f = staging @ map Normal (?names m e)"
      using f_in by (auto simp: files all)
    have "proper_name (a @ ''-'' @ b @ e)" if "proper_name a" "proper_name b" for a b
      using that m(2) endings_distinct [of m] by (auto simp: proper_name_def Cons_eq_append_conv append_eq_Cons_conv)
    then have "list_all proper_name (?names m e)"
      using proper [OF m(1)] valid_group [OF discovered_valid [OF assms(1) m(1)]]
      by (simp add: module_names_def Let_def list_all_iff)
    then show ?thesis using f by blast
  qed
  ultimately show ?thesis by blast
qed

section \<open>A publication\<close>

text \<open>A module without artifacts, published to a repository.\<close>

definition published_manifest :: manifest where
  "published_manifest = sample_manifest\<lparr>mf_project := (mf_project sample_manifest)\<lparr>pj_packaging := ''pom''\<rparr>,
     mf_toolchain := None, mf_build := None, mf_audit := None, mf_scripts := [],
     mf_dependencies := \<lparr>dp_compile = [], dp_runtime = [], dp_provided = [], dp_test = []\<rparr>\<rparr>"

definition publishing_env :: publish_env where
  "publishing_env =
     \<lparr>pe_faults = no_io_faults, pe_pid = 7,
      pe_codec = no_toml\<lparr>decode_probe := \<lambda>_. Inr True, decode_manifest := \<lambda>_. Inr published_manifest\<rparr>,
      pe_canonical = \<lambda>_ p. Inr p, pe_parse_url = \<lambda>_. Inl ''url'',
      pe_join_url = \<lambda>base relative. Inr (base\<lparr>tu_path := tu_path base @ relative\<rparr>),
      pe_build = \<lambda>_ t. (Inr [], t), pe_git_status = \<lambda>_. Inr (True, []), pe_gpg = \<lambda>_ _ t. (Inl ''gpg'', t),
      pe_md5 = \<lambda>_. ''5'', pe_sha1 = \<lambda>_. ''1'', pe_sha256 = \<lambda>_. ''256'', pe_sha512 = \<lambda>_. ''512'',
      pe_zip = \<lambda>_. Inl ''zip'', pe_base64 = \<lambda>b. b, pe_multipart = \<lambda>_ b. b,
      pe_send = \<lambda>_ _. Inr \<lparr>hp_status = 201, hp_body = Inr []\<rparr>, pe_parse_status = \<lambda>_. Inl ''status'',
      pe_elapsed = \<lambda>n. 2 * n\<rparr>"

definition publishing_url :: target_url where
  "publishing_url = \<lparr>tu_scheme = ''https'', tu_username = [], tu_password = None, tu_host = ''repo.example'',
     tu_path = ''/m2'', tu_query = None, tu_fragment = None\<rparr>"

definition publishing_options :: publish_options where
  "publishing_options =
     \<lparr>pu_root = [RootDir, Normal ''w''], pu_jobs = 1, pu_dry_run = False, pu_sign = False, pu_gpg_key = None,
      pu_gpg_passphrase = None, pu_allow_dirty = False, pu_timeout = 60,
      pu_target = RepositoryTarget publishing_url
        \<lparr>rc_username = None, rc_password = None, rc_token = Some ''t''\<rparr> False\<rparr>"

definition publishing_state :: publish_state where
  "publishing_state =
     \<lparr>ps_tree = [([RootDir, Normal ''w''], DirNode), ([RootDir, Normal ''w'', Normal ''jman.toml''], FileNode ''m'')],
      ps_requests = []\<rparr>"

theorem staged_paths_confined_witness:
  "case publish_discover (publish_view publishing_env (ps_tree publishing_state)) [RootDir, Normal ''w''] of
     Some (Inr modules) \<Rightarrow>
       (case stage_modules publishing_env (staging_root [RootDir, Normal ''w'']) modules [] publishing_state of
          (Inr files, s') \<Rightarrow> length files = 1 \<and> distinct files | _ \<Rightarrow> False)
   | _ \<Rightarrow> False"
proof -
  let ?view = "publish_view publishing_env (ps_tree publishing_state)" and ?root = "[RootDir, Normal ''w'']"
  have "case publish_discover ?view ?root of
     Some (Inr modules) \<Rightarrow> validate_workspace (pe_parse_url publishing_env) modules (pu_target publishing_options) = Inr () \<and>
       (case stage_modules publishing_env (staging_root ?root) modules [] publishing_state of
          (Inr files, s') \<Rightarrow> length files = 1 | _ \<Rightarrow> False)
   | _ \<Rightarrow> False"
    by code_simp
  then obtain modules files s' where run: "publish_discover ?view ?root = Some (Inr modules)"
    "validate_workspace (pe_parse_url publishing_env) modules (pu_target publishing_options) = Inr ()"
    "stage_modules publishing_env (staging_root ?root) modules [] publishing_state = (Inr files, s')"
    and one: "length files = 1"
    by (auto split: option.splits sum.splits prod.splits)
  have "distinct files" using staged_paths_confined [OF run] by (rule conjunct1)
  then show ?thesis using run(1,3) one by simp
qed

end
