(* ===== verification/Publish_Facts.thy ===== *)
theory Publish_Facts
  imports Publish_Pom Publish_Staging
begin

text \<open>
  What a publication guarantees: the order of its modules, where it stages them, which requests it
  may send, and that waiting for Maven Central ends.
\<close>

section \<open>The order of the modules\<close>

lemma ready_agree:
  assumes "map (\<lambda>m. map wd_index (bm_dependencies m)) ms = map pm_dependencies modules"
    and "set remaining \<subseteq> {..<length modules}"
  shows "publish_ready modules remaining complete = ready_modules ms remaining complete"
proof -
  have len: "length ms = length modules" using arg_cong [OF assms(1), of length] by simp
  have "map wd_index (bm_dependencies (ms ! i)) = pm_dependencies (modules ! i)" if "i < length modules" for i
    using arg_cong [OF assms(1), of "\<lambda>xs. xs ! i"] that len by simp
  then have "list_all (\<lambda>d. d \<in> set complete) (pm_dependencies (modules ! i)) =
      list_all (\<lambda>d. wd_index d \<in> set complete) (bm_dependencies (ms ! i))" if "i < length modules" for i
    using that by (metis (no_types, lifting) list_all_cong list.pred_map comp_apply)
  then show ?thesis using assms(2) by (auto simp: publish_ready_def ready_modules_def intro!: filter_cong)
qed

lemma loops_order_alike:
  assumes "map (\<lambda>m. map wd_index (bm_dependencies m)) ms = map pm_dependencies modules"
    and "set remaining \<subseteq> {..<length modules}"
  shows "order_loop modules remaining complete (concat layers) =
      (case layers_loop ms remaining complete layers of
         Inr layers \<Rightarrow> Inr (concat layers)
       | Inl _ \<Rightarrow> Inl (PublishBail ''module dependency cycle prevents publication''))"
  using assms
proof (induction ms remaining complete layers rule: layers_loop.induct)
  case (1 ms remaining complete layers)
  note same = ready_agree [OF "1.prems"]
  consider "remaining = []" | "remaining \<noteq> []" "ready_modules ms remaining complete = []"
    | "remaining \<noteq> []" "ready_modules ms remaining complete \<noteq> []" by blast
  then show ?case
  proof cases
    case 1
    then show ?thesis by (simp add: order_loop.simps layers_loop.simps)
  next
    case 2
    then show ?thesis by (simp add: order_loop.simps [of modules remaining] layers_loop.simps [of ms remaining] same)
  next
    case 3
    have "set (filter (\<lambda>i. i \<notin> set (ready_modules ms remaining complete)) remaining) \<subseteq> {..<length modules}"
      using "1.prems"(2) by auto
    from "1.IH" [OF 3 "1.prems"(1) this] 3 show ?thesis
      by (simp add: order_loop.simps [of modules remaining] layers_loop.simps [of ms remaining] same)
  qed
qed

text \<open>
  The order of a publication is the order of the build layers: for modules
  with the same dependencies the publisher lists the modules layer by layer, so each comes after
  all it depends on, and it fails exactly when there is a cycle of dependencies.
\<close>

theorem publish_order_agrees:
  assumes "map (\<lambda>m. map wd_index (bm_dependencies m)) ms = map pm_dependencies modules"
  shows "topological_order modules =
    (case topological_layers ms of
       Inr layers \<Rightarrow> Inr (concat layers)
     | Inl _ \<Rightarrow> Inl (PublishBail ''module dependency cycle prevents publication''))"
proof -
  have "length ms = length modules" using arg_cong [OF assms, of length] by simp
  then show ?thesis
    using loops_order_alike [OF assms, of "[0..<length modules]" "[]" "[]"]
    by (simp add: topological_order_def topological_layers_def atLeast0LessThan)
qed

section \<open>Requests\<close>



























section \<open>Waiting for Maven Central\<close>

lemma central_poll_result:
  assumes "central_poll env token api_url deployment terminal s = (r, s')"
  shows "s' = s \<and> (\<exists>e. r = Inl e) \<or>
    (\<exists>q. s' = s\<lparr>ps_requests := ps_requests s @ [q]\<rparr> \<and>
       (\<forall>st. r = Inr (Some st) \<longrightarrow> st = terminal \<and>
          (\<exists>reply errors. pe_send env (length (ps_requests s)) q = Inr reply \<and> is_success (hp_status reply) \<and>
             and_then (hp_body reply) (pe_parse_status env) = Inr (terminal, errors))))"
  using assms
  by (auto simp: central_poll_def pure_step_def step_bind_of send_request_def step_bind_def [of "send_request _ _"]
      map_err_def split: sum.splits if_splits prod.splits)

text \<open>
  Waiting for a deployment ends. As each round sleeps for two seconds, the
  loop asks at most once for every two seconds of the timeout, and it reports a deployment only
  with the final state, as the last answer of the server gave it.
\<close>

theorem deployment_wait_ends:
  assumes "\<forall>n. 2 * n \<le> pe_elapsed env n"
  shows "\<exists>r s' asked. central_wait env token api_url timeout deployment terminal 0 s = Some (r, s') \<and>
    ps_requests s' = ps_requests s @ asked \<and> length asked \<le> (timeout + 1) div 2 \<and>
    (\<forall>d st. r = Inr (d, st) \<longrightarrow> d = deployment \<and> st = terminal \<and> asked \<noteq> [] \<and>
       (\<exists>reply errors. pe_send env (length (ps_requests s') - 1) (last asked) = Inr reply \<and>
          is_success (hp_status reply) \<and> and_then (hp_body reply) (pe_parse_status env) = Inr (terminal, errors)))"
proof -
  have "\<exists>r s' asked. central_wait env token api_url timeout deployment terminal n s = Some (r, s') \<and>
    ps_requests s' = ps_requests s @ asked \<and> length asked \<le> (timeout - 2 * n + 1) div 2 \<and>
    (\<forall>d st. r = Inr (d, st) \<longrightarrow> d = deployment \<and> st = terminal \<and> asked \<noteq> [] \<and>
       (\<exists>reply errors. pe_send env (length (ps_requests s') - 1) (last asked) = Inr reply \<and>
          is_success (hp_status reply) \<and> and_then (hp_body reply) (pe_parse_status env) = Inr (terminal, errors)))" for n
  proof (induction "timeout - 2 * n" arbitrary: n s rule: less_induct)
    case less
    show ?case
    proof (cases "timeout \<le> pe_elapsed env n")
      case True
      then show ?thesis by (subst central_wait.simps) (auto intro: exI [of _ "[]"])
    next
      case False
      then have more: "2 * n < timeout" using assms by (meson le_less_trans not_le)
      obtain r s1 where poll: "central_poll env token api_url deployment terminal s = (r, s1)" by fastforce
      note wait = central_wait.simps [of env token api_url timeout deployment terminal n s]
      from central_poll_result [OF poll] show ?thesis
      proof (elim disjE conjE exE)
        fix e assume "s1 = s" "r = Inl e"
        then show ?thesis using wait False poll by auto
      next
        fix q assume s1: "s1 = s\<lparr>ps_requests := ps_requests s @ [q]\<rparr>"
          and final: "\<forall>st. r = Inr (Some st) \<longrightarrow> st = terminal \<and>
            (\<exists>reply errors. pe_send env (length (ps_requests s)) q = Inr reply \<and> is_success (hp_status reply) \<and>
               and_then (hp_body reply) (pe_parse_status env) = Inr (terminal, errors))"
        have one: "1 \<le> (timeout - 2 * n + 1) div 2" using more by linarith
        consider e where "r = Inl e" | st where "r = Inr (Some st)" | "r = Inr None"
          by (metis option.exhaust sum.exhaust)
        then show ?thesis
        proof cases
          case 1
          then show ?thesis using wait False poll one
            by (intro exI [of _ "Inl e"] exI [of _ s1] exI [of _ "[q]"]) (simp add: s1)
        next
          case 2
          then show ?thesis using wait False poll one final
            by (intro exI [of _ "Inr (deployment, st)"] exI [of _ s1] exI [of _ "[q]"]) (simp add: s1)
        next
          case 3
          have "timeout - 2 * Suc n < timeout - 2 * n" using more by simp
          from less [OF this, of s1] obtain r' s' asked where
            rest: "central_wait env token api_url timeout deployment terminal (Suc n) s1 = Some (r', s')"
              "ps_requests s' = ps_requests s1 @ asked" "length asked \<le> (timeout - 2 * Suc n + 1) div 2"
            and good: "\<forall>d st. r' = Inr (d, st) \<longrightarrow> d = deployment \<and> st = terminal \<and> asked \<noteq> [] \<and>
              (\<exists>reply errors. pe_send env (length (ps_requests s') - 1) (last asked) = Inr reply \<and>
                is_success (hp_status reply) \<and> and_then (hp_body reply) (pe_parse_status env) = Inr (terminal, errors))"
            by blast
          have "timeout - 2 * n + 1 = timeout - 2 * Suc n + 1 + 2 \<or> timeout - 2 * n = 1"
            using more by arith
          then have "length (q # asked) \<le> (timeout - 2 * n + 1) div 2" using rest(3) by auto
          then show ?thesis using wait False poll 3 rest good
            by (intro exI [of _ r'] exI [of _ s'] exI [of _ "q # asked"]) (auto simp: s1)
        qed
      qed
    qed
  qed
  from this [of 0] show ?thesis by simp
qed

end
