(* ===== verification/Spec2Isabelle.thy ===== *)
theory Spec2Isabelle
  imports Versions Graph_Results Java_Selection Build_Version Audit_Cache Audit_Report Civil_Date Glob Property_Facts
    Jdk_Facts Build_Generators Lock_Facts Chain_Facts Change_Facts Publish_Facts
begin

text \<open>
  A model of jman, a build tool for Java written in Rust. This theory imports the development; the
  text below says what is modelled where, and what the theorems show.

  \<^bold>\<open>The program.\<close> A project has a manifest \<open>jman.toml\<close>. \<open>jman sync\<close> reads the manifests of a
  workspace, builds the effective Maven model of every module, resolves its dependencies over
  Maven repositories, and writes \<open>jman.lock\<close>: the packages, their checksums, and the classpaths.
  Builds read only the lockfile and the cache of artifacts; audits and publications read
  the lockfile and the manifests; the commands that change dependencies edit the manifest and
  synchronise again. A store of installed JDKs is kept beside.

  \<^bold>\<open>Theories and sources.\<close> Paths are relative to \<open>src/crates\<close>.
  \<^item> Foundations: \<open>Prelude\<close> (results, early return, stateful steps, comparison functions),
    \<open>Rust_Str\<close>, \<open>Utf8_Facts\<close>, \<open>Rust_Num\<close>, \<open>Rust_Path\<close> (strings as bytes, machine integers, paths as
    lists of components), \<open>Collections\<close> (ordered maps and sets as sorted lists, keyed stores),
    \<open>Files\<close> (the disk and its faults).
  \<^item> \<open>jman-resolver\<close>: \<open>Model\<close> (\<open>model.rs\<close>, \<open>lib.rs\<close>), \<open>Versions\<close> (\<open>version.rs\<close>), \<open>Pom\<close> (\<open>pom.rs\<close>),
    \<open>Interpolation\<close> and \<open>Effective\<close> (\<open>effective.rs\<close>), \<open>Repository\<close> (\<open>repository.rs\<close>), \<open>Graph\<close>,
    \<open>Graph_Facts\<close> and \<open>Graph_Results\<close> (\<open>graph.rs\<close>).
  \<^item> \<open>jman-config/src/lib.rs\<close>: \<open>Config_Model\<close> (schema), \<open>Config_Validate\<close> (validation of manifests
    and lockfiles), \<open>Java_Selection\<close> (\<open>find_java_selection\<close>).
  \<^item> \<open>jman-audit\<close>: \<open>Audit_Model\<close> (\<open>model.rs\<close>, \<open>provider.rs\<close>), \<open>Audit_Osv\<close> (\<open>osv.rs\<close>), \<open>Audit_Cache\<close>
    (\<open>cache.rs\<close>).
  \<^item> \<open>jman-cli/src/main.rs\<close>: \<open>Project_Model\<close> (translations between Maven model, manifest and
    lockfile), \<open>Project_Sync\<close> (workspaces, synchronisation), \<open>Project_Commands\<close> and
    \<open>Project_Changes\<close> (add, remove, outdated, update, import), \<open>Audit_Workspace\<close>, \<open>Audit_Report\<close>
    and \<open>Civil_Date\<close> (audits); their properties are in \<open>Project_Facts\<close>, \<open>Lock_Facts\<close>,
    \<open>Change_Facts\<close> and \<open>Chain_Facts\<close>.
  \<^item> \<open>jman-build/src/lib.rs\<close>: \<open>Build_Tree\<close> (the tree of files, replacing of outputs, listings),
    \<open>Build_Modules\<close> (discovery, closures, layers), \<open>Build_Tools\<close>, \<open>Build_Generators\<close>,
    \<open>Build_Archive\<close>, \<open>Glob\<close>, with \<open>Archive_Facts\<close> and \<open>Property_Facts\<close>. \<open>toolchain.rs\<close> and
    \<open>toolchain/catalog\<close>: \<open>Jdk_Catalog\<close>, \<open>Jdk_Store\<close>, \<open>Jdk_Facts\<close>.
  \<^item> \<open>jman-version/src/versioning.rs\<close>: \<open>Build_Version\<close>.
  \<^item> \<open>jman-publish/src/lib.rs\<close>: \<open>Publish_Model\<close>, \<open>Publish_Run\<close>, with \<open>Publish_Pom\<close>,
    \<open>Publish_Staging\<close> and \<open>Publish_Facts\<close>.

  A \<open>struct\<close> of the program is a record, an \<open>enum\<close> a datatype, and a method a function that
  takes the receiver. Names are the source's; where two crates use one name, a prefix tells them
  apart, and the fields of records carry a short prefix.

  \<^bold>\<open>Interfaces.\<close> The locales state what one part relies on in another: \<open>comparison\<close> (the contract of
  a comparison function, provided by the orders of versions), \<open>keyed_store\<close> and
  \<open>keyed_store_absent\<close> (lists of items with a key: dependency collections, repositories),
  \<open>client_relation\<close> and \<open>client_world\<close> (relations between states of the repository client that every
  operation keeps, lifted to whole resolutions: silence when offline, growth of the request log),
  \<open>entry_remover\<close> (deletion of a file or directory, possibly half-way), \<open>sound_provider\<close> (what an
  audit may expect of a provider), and \<open>jdk_catalog_provider\<close> (the same for a catalog of JDKs).
  Each is interpreted on the model of the code that provides it.

  \<^bold>\<open>Effects and faults.\<close> The resolver and the commands work on a \<open>disk\<close> (a map from paths to
  entries), the build, the store of JDKs and publications on a \<open>tree\<close> with directories and
  symbolic links. Both are passed explicitly, as are the memory of the client and the
  log of requests. Every operation of the system may be refused by the environment, a
  function from paths (and names of operations) to error messages, so that the error branches are
  reachable. A failing write may leave any part of its contents at its path, and a failing removal
  of a directory may have deleted any part of it. A failing rename changes nothing (POSIX).
  Faults do not depend on time: an operation that is refused on a path stays so during a run.
  Errors are values: results are sums with the error to the left.

  \<^bold>\<open>Parameters.\<close> What is not in the repository is an argument: HTTP answers (by number and address of
  the request), SHA-256 and other digests, the codecs of XML, TOML, JSON and ZIP, the URL
  parser, floating-point arithmetic, Git, GPG, generators and the Java compiler, the clock and
  the counters of temporary names. Documented behaviour that a theorem needs of them is a
  hypothesis of it, and a witness gives an instance where it holds.

  \<^bold>\<open>Concurrency.\<close> Tasks that the program joins run one after the other: imported BOMs in the order
  of their indices (the source sorts their results by them), downloads in an order that is a
  parameter, modules and advisories in the order of the source's list.

  \<^bold>\<open>Termination.\<close> Loops that always end are functions with a termination proof (a work list that
  shrinks, a set of visited items that grows inside a finite one). Loops that may run forever are
  partial functions into options (walks over directories, pages of OSV, waiting for Maven
  Central, the greedy matcher), where a lemma says when they return. The resolution loop and the
  recursion of the model builder have fuel, the first for its iterations, the second for its
  depth; running out is \<open>None\<close>. Fuel does not matter once it suffices; \<open>build_terminates\<close> shows that
  it exists for every graph of POMs over finitely many coordinates, and
  \<open>relocation_cycle_diverges\<close> that the resolution loop has inputs for which no fuel suffices.
  \<open>discovered_modules_ok\<close>, \<open>modules_agree\<close>, \<open>osv_query_terminates\<close>, \<open>input_files_complete\<close> and
  \<open>matchers_agree\<close> include the totality of their loops. Properties of whole resolutions are
  stated for runs that end, with \<open>Some\<close>.

  \<^bold>\<open>What is shown.\<close>
  \<^item> Resolver: finished graphs are well formed (\<open>resolved_graph_ok\<close>), the first selection of a key is
    final, exclusions are inherited exactly, classpaths hold exactly the artifacts of
    their scopes; effective models are well formed and obey jman's precedence of dependency
    management; fetched entries carry their checksum; offline resolutions send nothing; the
    order of versions is a total preorder and the reported latest version a maximum.
  \<^item> Workspaces: the two implementations of module discovery agree; layers respect
    dependencies; closures are reachability; the imported manifest describes the POM;
    lockfiles are consumable and their cache paths confined; a failed update restores
    all files; an import puts all files in place or none.
  \<^item> Configuration: validation keeps paths inside the project and orders generators.
  \<^item> Builds: outputs are replaced without loss under any fault; listings are complete; entry
    names of archives stay inside; merged archives are unions; properties round-trip;
    the two matchers decide one reference relation on bytes.
  \<^item> JDKs: downloads come from trusted hosts with their checksum; removals touch only what they were
    asked to remove.
  \<^item> Audits: findings come from the advisories of the server; answers are replayed from the
    cache; denied findings are shown; the chains of dependencies are exactly the shortest.
  \<^item> Publications: staged files have distinct places below the staging directory, and requests are
    sent only by the publication that was asked for.

  \<^bold>\<open>What modelling showed.\<close> Lemmas with concrete inputs record behaviour that the program cannot mean:
  resolutions that never end (\<open>relocation_cycle_diverges\<close>), texts that explode
  (\<open>cyclic_property_explodes\<close>), suppressions and properties that get lost
  (\<open>expired_suppression_masks\<close>, \<open>comment_swallows_line\<close>, \<open>continuations_lose_properties\<close>),
  dependencies that are merged by an import (\<open>import_mixes_classifiers\<close>), files that a failed
  import deletes or leaves behind (\<open>failed_import_deletes\<close>, \<open>failed_stage_left\<close>), cache paths that
  escape (\<open>cache_paths_escape\<close>), and a damaged JDK that is put back (\<open>damaged_jdk_restored\<close>).

  \<^bold>\<open>Not modelled.\<close> The compilation, packaging, test and coverage runs of \<open>jman-build\<close>, which mostly
  call the tools of a JDK; the arguments and output of the command line, the scaffolding of
  projects, the launching of Java and the storage report; the bindings to an embedded javac
  (\<open>javac-frontend\<close>) and the language server over it; the editors' plugins. Unicode-aware
  predicates on characters are modelled on ASCII.
\<close>

end
